(* ===== verification/Prelude.thy ===== *)
theory Prelude
  imports Main "HOL-Library.AList" "HOL-Library.Word" "HOL-Library.Code_Target_Nat"
begin

text \<open>
  Shared vocabulary of the development. Rust's \<^verbatim>\<open>HashMap\<close> is an association list with
  distinct keys, \<^verbatim>\<open>HashSet\<close> a list with distinct elements; the list order stands for the
  (unspecified) iteration order. New keys are appended, so the model fixes one iteration order;
  the properties of the components speak of lookups and of element sets, never of that order.
  The theory holds the operations of both containers with their laws, the interface locales
  \<open>map_store\<close> (what the components use of a map), \<open>step_invariant\<close> and
  \<open>invariant_system\<close> (runs of operations that keep an invariant), and the shared lemma collections.
\<close>

named_theorems hmap_simps \<open>lookup, key and length laws of the hash map operations\<close>
named_theorems wf_intros \<open>well-formedness (distinctness) of container updates\<close>

type_synonym ('k, 'v) hash_map = "('k \<times> 'v) list"
type_synonym 'a hash_set = "'a list"
type_synonym u32 = "32 word"
type_synonym u64 = "64 word"

text \<open>Instants and durations are counted in nanoseconds.\<close>

type_synonym instant = nat
type_synonym duration = nat

definition from_secs :: "nat \<Rightarrow> duration" where
  "from_secs n = n * 1000000000"

definition as_secs :: "duration \<Rightarrow> nat" where
  "as_secs d = d div 1000000000"

definition from_millis :: "nat \<Rightarrow> duration" where
  "from_millis n = n * 1000000"

section \<open>Hash maps\<close>

abbreviation hm_get :: "('k, 'v) hash_map \<Rightarrow> 'k \<Rightarrow> 'v option" where
  "hm_get \<equiv> map_of"

definition hm_insert :: "'k \<Rightarrow> 'v \<Rightarrow> ('k, 'v) hash_map \<Rightarrow> ('k, 'v) hash_map" where
  "hm_insert k v m = AList.update k v m"

definition hm_remove :: "'k \<Rightarrow> ('k, 'v) hash_map \<Rightarrow> ('k, 'v) hash_map" where
  "hm_remove k m = AList.delete k m"

definition hm_contains_key :: "'k \<Rightarrow> ('k, 'v) hash_map \<Rightarrow> bool" where
  "hm_contains_key k m \<longleftrightarrow> hm_get m k \<noteq> None"

definition hm_keys :: "('k, 'v) hash_map \<Rightarrow> 'k list" where
  "hm_keys m = map fst m"

definition hm_values :: "('k, 'v) hash_map \<Rightarrow> 'v list" where
  "hm_values m = map snd m"

definition hm_extend :: "('k \<times> 'v) list \<Rightarrow> ('k, 'v) hash_map \<Rightarrow> ('k, 'v) hash_map" where
  "hm_extend kvs m = fold (\<lambda>(k, v). hm_insert k v) kvs m"

text \<open>\<^verbatim>\<open>collect\<close> of an iterator of pairs: later entries of the same key win.\<close>

definition hm_collect :: "('k \<times> 'v) list \<Rightarrow> ('k, 'v) hash_map" where
  "hm_collect kvs = hm_extend kvs []"

definition hm_ok :: "('k, 'v) hash_map \<Rightarrow> bool" where
  "hm_ok m \<longleftrightarrow> distinct (map fst m)"

section \<open>Hash sets\<close>

definition hs_insert :: "'a \<Rightarrow> 'a hash_set \<Rightarrow> 'a hash_set" where
  "hs_insert x s = (if x \<in> set s then s else s @ [x])"

definition hs_remove :: "'a \<Rightarrow> 'a hash_set \<Rightarrow> 'a hash_set" where
  "hs_remove x s = filter (\<lambda>y. y \<noteq> x) s"

definition hs_extend :: "'a list \<Rightarrow> 'a hash_set \<Rightarrow> 'a hash_set" where
  "hs_extend xs s = fold hs_insert xs s"

definition hs_collect :: "'a list \<Rightarrow> 'a hash_set" where
  "hs_collect xs = hs_extend xs []"

section \<open>Running a sequence of operations\<close>

primrec run :: "('op \<Rightarrow> 's \<Rightarrow> 's) \<Rightarrow> 'op list \<Rightarrow> 's \<Rightarrow> 's" where
  "run exec [] s = s"
| "run exec (x # xs) s = run exec xs (exec x s)"

section \<open>Laws of the hash map\<close>

lemma hm_get_insert [simp, hmap_simps]: "hm_get (hm_insert k v m) = (hm_get m)(k \<mapsto> v)"
  by (simp add: hm_insert_def fun_eq_iff update_conv)

lemma hm_get_remove [simp, hmap_simps]: "hm_get (hm_remove k m) = (hm_get m)(k := None)"
  by (simp add: hm_remove_def fun_eq_iff delete_conv)

lemma hm_contains_key_iff: "hm_contains_key k m \<longleftrightarrow> k \<in> set (hm_keys m)"
  by (auto simp: hm_contains_key_def hm_keys_def map_of_eq_None_iff)

lemma set_hm_keys: "set (hm_keys m) = dom (hm_get m)"
  by (simp add: hm_keys_def dom_map_of_conv_image_fst)

lemma hm_ok_Nil [simp, wf_intros]: "hm_ok []"
  by (simp add: hm_ok_def)

lemma hm_ok_Cons [simp]: "hm_ok ((k, v) # m) \<longleftrightarrow> k \<notin> fst ` set m \<and> hm_ok m"
  by (simp add: hm_ok_def)

lemma hm_ok_insert [simp, wf_intros]: "hm_ok m \<Longrightarrow> hm_ok (hm_insert k v m)"
  by (simp add: hm_ok_def hm_insert_def distinct_update)

lemma hm_ok_remove [simp, wf_intros]: "hm_ok m \<Longrightarrow> hm_ok (hm_remove k m)"
  by (simp add: hm_ok_def hm_remove_def distinct_delete)

lemma hm_ok_filter [simp, wf_intros]: "hm_ok m \<Longrightarrow> hm_ok (filter P m)"
  by (simp add: hm_ok_def distinct_map_filter)

lemma hm_ok_extend [simp, wf_intros]: "hm_ok m \<Longrightarrow> hm_ok (hm_extend kvs m)"
  unfolding hm_extend_def by (induction kvs arbitrary: m) (auto split: prod.splits)

lemma hm_ok_collect [simp, wf_intros]: "hm_ok (hm_collect kvs)"
  by (simp add: hm_collect_def)

lemma hm_get_extend: "hm_get (hm_extend kvs m) = hm_get m ++ map_of (rev kvs)"
  unfolding hm_extend_def
  by (induction kvs arbitrary: m) (auto split: prod.splits simp: map_add_def fun_eq_iff split: option.splits)

lemma hm_get_collect: "hm_get (hm_collect kvs) = map_of (rev kvs)"
  by (simp add: hm_collect_def hm_get_extend)

lemma hm_get_SomeD: "hm_get m k = Some v \<Longrightarrow> (k, v) \<in> set m"
  by (rule map_of_SomeD)

lemma hm_get_iff: "hm_ok m \<Longrightarrow> hm_get m k = Some v \<longleftrightarrow> (k, v) \<in> set m"
  by (simp add: hm_ok_def)

lemma hm_get_filter:
  "hm_ok m \<Longrightarrow> hm_get (filter P m) k =
     (case hm_get m k of None \<Rightarrow> None | Some v \<Rightarrow> if P (k, v) then Some v else None)"
  by (induction m) (force simp: image_iff dest: hm_get_SomeD split: option.splits)+

lemma hm_keys_insert [hmap_simps]:
  "hm_keys (hm_insert k v m) = (if k \<in> set (hm_keys m) then hm_keys m else hm_keys m @ [k])"
  by (induction m) (auto simp: hm_keys_def hm_insert_def)

lemma hm_keys_remove [hmap_simps]: "hm_keys (hm_remove k m) = filter (\<lambda>x. x \<noteq> k) (hm_keys m)"
  by (induction m) (auto simp: hm_keys_def hm_remove_def)

lemma set_hm_keys_insert [simp]: "set (hm_keys (hm_insert k v m)) = insert k (set (hm_keys m))"
  by (auto simp: hm_keys_insert)

lemma set_hm_keys_remove [simp]: "set (hm_keys (hm_remove k m)) = set (hm_keys m) - {k}"
  by (auto simp: hm_keys_remove)

lemma hm_keys_image: "fst ` set m = set (hm_keys m)"
  by (simp add: hm_keys_def)

lemma hm_keys_Nil [simp]: "hm_keys [] = []"
  by (simp add: hm_keys_def)

lemma hm_keys_Cons [simp]: "hm_keys ((k, v) # m) = k # hm_keys m"
  by (simp add: hm_keys_def)

lemma hm_values_Nil [simp]: "hm_values [] = []"
  by (simp add: hm_values_def)

lemma hm_values_Cons [simp]: "hm_values ((k, v) # m) = v # hm_values m"
  by (simp add: hm_values_def)

lemma hm_values_append [simp]: "hm_values (m @ m') = hm_values m @ hm_values m'"
  by (simp add: hm_values_def)

lemma hm_values_mem: "(k, v) \<in> set m \<Longrightarrow> v \<in> set (hm_values m)"
  by (force simp: hm_values_def)

lemma hm_get_None_iff: "hm_get m k = None \<longleftrightarrow> k \<notin> set (hm_keys m)"
  by (auto simp: set_hm_keys)

lemma length_hm_keys [simp]: "length (hm_keys m) = length m"
  by (simp add: hm_keys_def)

lemma hm_length_insert [hmap_simps]:
  "length (hm_insert k v m) = (if hm_get m k = None then Suc (length m) else length m)"
  by (induction m) (auto simp: hm_insert_def)

lemma hm_length_remove [hmap_simps]:
  "hm_ok m \<Longrightarrow> length (hm_remove k m) = (if hm_get m k = None then length m else length m - 1)"
proof (induction m)
  case (Cons p m)
  obtain k' v where p: "p = (k', v)" by (cases p)
  have notin: "k \<notin> fst ` set m \<Longrightarrow> hm_remove k m = m"
    by (simp add: hm_remove_def)
  have pos: "hm_get m k \<noteq> None \<Longrightarrow> 0 < length m"
    by (cases m) auto
  show ?case
  proof (cases "k' = k")
    case True
    with Cons.prems p notin show ?thesis by (auto simp: hm_remove_def)
  next
    case False
    with Cons p pos show ?thesis by (auto simp: hm_remove_def split: if_splits)
  qed
qed (simp add: hm_remove_def)

lemma hm_remove_Nil [simp]: "hm_remove k [] = []"
  by (simp add: hm_remove_def)

lemma hm_remove_Cons [simp]:
  "hm_remove k ((k', v) # m) = (if k = k' then hm_remove k m else (k', v) # hm_remove k m)"
  by (simp add: hm_remove_def)

lemma hm_insert_Nil [simp]: "hm_insert k v [] = [(k, v)]"
  by (simp add: hm_insert_def)

lemma hm_insert_Cons [simp]:
  "hm_insert k v ((k', v') # m) = (if k' = k then (k, v) # m else (k', v') # hm_insert k v m)"
  by (simp add: hm_insert_def)

lemma hm_insert_neq_Nil [simp]: "hm_insert k v m \<noteq> []"
  by (simp add: hm_insert_def update_nonempty)

section \<open>Laws of the hash set\<close>

lemma set_hs_insert [simp]: "set (hs_insert x s) = insert x (set s)"
  by (auto simp: hs_insert_def)

lemma set_hs_remove [simp]: "set (hs_remove x s) = set s - {x}"
  by (auto simp: hs_remove_def)

lemma set_hs_extend [simp]: "set (hs_extend xs s) = set xs \<union> set s"
  unfolding hs_extend_def by (induction xs arbitrary: s) auto

lemma set_hs_collect [simp]: "set (hs_collect xs) = set xs"
  by (simp add: hs_collect_def)

lemma distinct_hs_insert [simp, wf_intros]: "distinct s \<Longrightarrow> distinct (hs_insert x s)"
  by (simp add: hs_insert_def)

lemma distinct_hs_remove [simp, wf_intros]: "distinct s \<Longrightarrow> distinct (hs_remove x s)"
  by (simp add: hs_remove_def)

lemma distinct_hs_extend [simp, wf_intros]: "distinct s \<Longrightarrow> distinct (hs_extend xs s)"
  unfolding hs_extend_def by (induction xs arbitrary: s) auto

lemma distinct_hs_collect [simp, wf_intros]: "distinct (hs_collect xs)"
  by (simp add: hs_collect_def)

lemma hs_remove_eq_Nil: "hs_remove x s = [] \<longleftrightarrow> set s \<subseteq> {x}"
  by (auto simp: hs_remove_def filter_empty_conv)

lemma hs_remove_notin: "x \<notin> set xs \<Longrightarrow> hs_remove x xs = xs"
  by (auto simp: hs_remove_def filter_id_conv)

lemma hs_remove_append: "hs_remove x (xs @ ys) = hs_remove x xs @ hs_remove x ys"
  by (simp add: hs_remove_def)

section \<open>Contents of updated maps\<close>

lemma option_eqI: "(\<And>v. a = Some v \<longleftrightarrow> b = Some v) \<Longrightarrow> a = b"
  by (metis not_None_eq)

lemma map_of_functional:
  assumes "\<And>v'. (k, v') \<in> set xs \<Longrightarrow> v' = v"
  shows "map_of xs k = (if (k, v) \<in> set xs then Some v else None)"
proof (cases "map_of xs k")
  case None
  then show ?thesis by (auto simp: map_of_eq_None_iff image_iff)
next
  case (Some v')
  then have "(k, v') \<in> set xs" by (rule map_of_SomeD)
  with Some assms show ?thesis by auto
qed

lemma hm_set_insert: "hm_ok m \<Longrightarrow> set (hm_insert k v m) = insert (k, v) {p \<in> set m. fst p \<noteq> k}"
proof -
  assume "hm_ok m"
  then have "(k', v') \<in> set (hm_insert k v m) \<longleftrightarrow> (k', v') \<in> insert (k, v) {p \<in> set m. fst p \<noteq> k}" for k' v'
    using hm_get_iff [of "hm_insert k v m" k' v'] hm_get_iff [of m k' v'] by (auto split: if_splits)
  then show ?thesis by auto
qed

lemma hm_set_insert_new: "hm_get m k = None \<Longrightarrow> set (hm_insert k v m) = insert (k, v) (set m)"
  by (induction m) (auto split: if_splits)

lemma hm_set_remove: "set (hm_remove k m) = {p \<in> set m. fst p \<noteq> k}"
  by (auto simp: hm_remove_def AList.delete_eq)

lemma hm_remove_eq_NilD: "hm_remove c m = [] \<Longrightarrow> c' \<noteq> c \<Longrightarrow> hm_get m c' = None"
  by (metis fun_upd_other hm_get_remove map_of.simps(1))

lemma hm_insert_new: "hm_get m k = None \<Longrightarrow> hm_insert k v m = m @ [(k, v)]"
  by (induction m) (auto split: if_splits)

lemma hm_insert_same: "hm_get m k = Some v \<Longrightarrow> hm_insert k v m = m"
  by (induction m) (auto split: if_splits)

lemma hm_remove_filter: "hm_remove k m = filter (\<lambda>(k', _). k' \<noteq> k) m"
  by (induction m) auto

lemma hm_remove_absent: "hm_get m k = None \<Longrightarrow> hm_remove k m = m"
  by (induction m) (auto split: if_splits)

lemma hm_get_filter_value:
  "hm_ok m \<Longrightarrow> hm_get (filter (\<lambda>(_, v). v \<noteq> c) m) y = (if hm_get m y = Some c then None else hm_get m y)"
  by (simp add: hm_get_filter split: option.splits)

lemma hm_values_get: "hm_ok m \<Longrightarrow> v \<in> set (hm_values m) \<Longrightarrow> \<exists>k. hm_get m k = Some v"
  by (force simp: hm_values_def hm_get_iff)

lemma set_map_filter: "set (List.map_filter f xs) = {y. \<exists>x \<in> set xs. f x = Some y}"
  by (induction xs) (auto simp: map_filter_simps split: option.splits)

lemma fold_inv: "P l \<Longrightarrow> (\<And>x l. P l \<Longrightarrow> P (f x l)) \<Longrightarrow> P (fold f xs l)"
  by (induction xs arbitrary: l) simp_all

lemma hm_split:
  assumes "hm_get m k = Some v"
  obtains us vs where "m = us @ (k, v) # vs" "k \<notin> set (hm_keys us)"
  using assms
proof (induction m arbitrary: thesis)
  case (Cons p m)
  obtain k' v' where p: "p = (k', v')" by (cases p)
  show ?case
  proof (cases "k' = k")
    case True
    with Cons.prems p show ?thesis by (intro Cons.prems(1) [of "[]" m]) simp_all
  next
    case False
    with Cons.prems(2) p have "hm_get m k = Some v" by simp
    then obtain us vs where "m = us @ (k, v) # vs" "k \<notin> set (hm_keys us)" using Cons.IH by blast
    with False p show ?thesis by (intro Cons.prems(1) [of "p # us" vs]) simp_all
  qed
qed simp

lemma hm_insert_split: "k \<notin> set (hm_keys us) \<Longrightarrow> hm_insert k v' (us @ (k, v) # vs) = us @ (k, v') # vs"
  by (induction us) auto

lemma distinct_concat_filter:
  "distinct (concat (map f (hm_values ts))) \<Longrightarrow> distinct (concat (map f (hm_values (filter P ts))))"
proof (induction ts)
  case (Cons p ts)
  have "set (concat (map f (hm_values (filter P ts)))) \<subseteq> set (concat (map f (hm_values ts)))"
    by (auto simp: hm_values_def)
  with Cons show ?case by (cases p) auto
qed simp

section \<open>The map interface\<close>

text \<open>
  What the components rely on when they use a map: the lookup laws of insertion and removal and
  the agreement of the key list with the lookups. The consequences about removing a batch of keys
  and about the number of entries are proved once from these laws.
\<close>

locale map_store =
  fixes get :: "'m \<Rightarrow> 'k \<Rightarrow> 'v option"
    and ins :: "'k \<Rightarrow> 'v \<Rightarrow> 'm \<Rightarrow> 'm"
    and del :: "'k \<Rightarrow> 'm \<Rightarrow> 'm"
    and keys :: "'m \<Rightarrow> 'k list"
    and ok :: "'m \<Rightarrow> bool"
  assumes get_ins: "ok m \<Longrightarrow> get (ins k v m) = (get m)(k \<mapsto> v)"
    and get_del: "ok m \<Longrightarrow> get (del k m) = (get m)(k := None)"
    and keys_get: "ok m \<Longrightarrow> set (keys m) = dom (get m)"
    and keys_distinct: "ok m \<Longrightarrow> distinct (keys m)"
    and ok_ins: "ok m \<Longrightarrow> ok (ins k v m)"
    and ok_del: "ok m \<Longrightarrow> ok (del k m)"
begin

lemma ok_fold_del: "ok m \<Longrightarrow> ok (fold del ks m)"
  by (induction ks arbitrary: m) (auto intro: ok_del)

lemma get_fold_del:
  "ok m \<Longrightarrow> get (fold del ks m) k = (if k \<in> set ks then None else get m k)"
  by (induction ks arbitrary: m) (auto simp: get_del ok_del)

lemma length_keys: "ok m \<Longrightarrow> length (keys m) = card (dom (get m))"
  by (metis keys_distinct keys_get distinct_card)

lemma finite_dom: "ok m \<Longrightarrow> finite (dom (get m))"
  by (metis keys_get List.finite_set)

lemma length_keys_ins:
  "ok m \<Longrightarrow> length (keys (ins k v m)) = (if get m k = None then Suc (length (keys m)) else length (keys m))"
  using finite_dom by (auto simp: length_keys ok_ins get_ins insert_absorb domIff)

lemma length_keys_del:
  "ok m \<Longrightarrow> length (keys (del k m)) = (if get m k = None then length (keys m) else length (keys m) - 1)"
  using finite_dom by (auto simp: length_keys ok_del get_del domIff)

end

interpretation hm: map_store "map_of" hm_insert hm_remove hm_keys hm_ok
  by unfold_locales (simp_all add: set_hm_keys, simp add: hm_ok_def hm_keys_def)

section \<open>Invariants of runs\<close>

text \<open>
  A system of operations, a contract on the operations it is called with and an invariant every
  operation within the contract keeps: the invariant survives every run, and holds after every run
  from an initial state that has it.
\<close>

lemma set_keys_collect: "set (hm_keys (hm_collect kvs)) = fst ` set kvs"
  unfolding set_hm_keys hm_get_collect by (auto simp: dom_map_of_conv_image_fst)

lemma run_append [simp]: "run exec (xs @ ys) s = run exec ys (run exec xs s)"
  by (induction xs arbitrary: s) simp_all

locale step_invariant =
  fixes exec :: "'op \<Rightarrow> 's \<Rightarrow> 's"
    and contract :: "'op \<Rightarrow> bool"
    and inv :: "'s \<Rightarrow> bool"
  assumes inv_exec: "contract x \<Longrightarrow> inv s \<Longrightarrow> inv (exec x s)"
begin

lemma inv_run: "inv s \<Longrightarrow> list_all contract xs \<Longrightarrow> inv (run exec xs s)"
  by (induction xs arbitrary: s) (auto intro: inv_exec)

end

locale invariant_system = step_invariant exec contract inv
  for exec :: "'op \<Rightarrow> 's \<Rightarrow> 's" and contract :: "'op \<Rightarrow> bool" and inv :: "'s \<Rightarrow> bool" +
  fixes init :: 's
  assumes inv_init: "inv init"
begin

lemma inv_reachable: "list_all contract xs \<Longrightarrow> inv (run exec xs init)"
  by (rule inv_run [OF inv_init])

end

end
