(* ===== verification/Protocol.thy ===== *)
theory Protocol
  imports Prelude "HOL-Library.List_Lexorder" "HOL-Library.Char_ord"
begin

text \<open>
  The part of the crate \<^verbatim>\<open>vacs-protocol\<close> the signaling core uses: the identifiers of
  \<^verbatim>\<open>vatsim.rs\<close> with their derived order, the shared call types of
  \<^verbatim>\<open>ws/shared/calls.rs\<close> with the hand-written order on call targets, and the messages of
  \<^verbatim>\<open>ws/client\<close>, \<^verbatim>\<open>ws/server\<close> and \<^verbatim>\<open>ws/shared\<close> the call handlers
  receive and send. Strings are byte lists, so the derived \<^verbatim>\<open>Ord\<close> of a string newtype is the
  lexicographic order. JSON encoding (serde) is not modelled.
\<close>

section \<open>Identifiers\<close>

datatype client_id = ClientId (client_id_str: string)
datatype position_id = PositionId (position_id_str: string)
datatype station_id = StationId (station_id_str: string)
datatype profile_id = ProfileId (profile_id_str: string)

instantiation client_id :: linorder
begin

definition less_eq_client_id :: "client_id \<Rightarrow> client_id \<Rightarrow> bool" where
  "less_eq_client_id a b \<longleftrightarrow> client_id_str a \<le> client_id_str b"

definition less_client_id :: "client_id \<Rightarrow> client_id \<Rightarrow> bool" where
  "less_client_id a b \<longleftrightarrow> client_id_str a < client_id_str b"

instance
  by standard (auto simp: less_eq_client_id_def less_client_id_def intro: client_id.expand)

end

instantiation position_id :: linorder
begin

definition less_eq_position_id :: "position_id \<Rightarrow> position_id \<Rightarrow> bool" where
  "less_eq_position_id a b \<longleftrightarrow> position_id_str a \<le> position_id_str b"

definition less_position_id :: "position_id \<Rightarrow> position_id \<Rightarrow> bool" where
  "less_position_id a b \<longleftrightarrow> position_id_str a < position_id_str b"

instance
  by standard (auto simp: less_eq_position_id_def less_position_id_def intro: position_id.expand)

end

instantiation station_id :: linorder
begin

definition less_eq_station_id :: "station_id \<Rightarrow> station_id \<Rightarrow> bool" where
  "less_eq_station_id a b \<longleftrightarrow> station_id_str a \<le> station_id_str b"

definition less_station_id :: "station_id \<Rightarrow> station_id \<Rightarrow> bool" where
  "less_station_id a b \<longleftrightarrow> station_id_str a < station_id_str b"

instance
  by standard (auto simp: less_eq_station_id_def less_station_id_def intro: station_id.expand)

end

text \<open>Position and station ids built from a string are upper-cased (\<^verbatim>\<open>From<&str>\<close>).\<close>

definition to_ascii_uppercase :: "string \<Rightarrow> string" where
  "to_ascii_uppercase s =
     map (\<lambda>c. if of_char c \<ge> (97::nat) \<and> of_char c \<le> (122::nat) then char_of (of_char c - 32 :: nat) else c) s"

definition position_id_from :: "string \<Rightarrow> position_id" where
  "position_id_from s = PositionId (to_ascii_uppercase s)"

definition station_id_from :: "string \<Rightarrow> station_id" where
  "station_id_from s = StationId (to_ascii_uppercase s)"

datatype station_change =
    Online station_id position_id
  | Handoff station_id position_id position_id
  | Offline station_id

fun station_change_station_id :: "station_change \<Rightarrow> station_id" where
  "station_change_station_id (Online station_id _) = station_id"
| "station_change_station_id (Handoff station_id _ _) = station_id"
| "station_change_station_id (Offline station_id) = station_id"

section \<open>Shared call types\<close>

text \<open>A call id wraps a UUID.\<close>

datatype call_id = CallId "128 word"

record call_source =
  cs_client_id :: client_id
  cs_position_id :: "position_id option"
  cs_station_id :: "station_id option"

datatype call_target =
    Client client_id
  | Position position_id
  | Station station_id

datatype ordering = Less | Equal | Greater

definition cmp_of :: "'a::linorder \<Rightarrow> 'a \<Rightarrow> ordering" where
  "cmp_of a b = (if a < b then Less else if a = b then Equal else Greater)"

fun call_target_cmp :: "call_target \<Rightarrow> call_target \<Rightarrow> ordering" where
  "call_target_cmp (Station a) (Station b) = cmp_of a b"
| "call_target_cmp (Station _) (Position _) = Less"
| "call_target_cmp (Station _) (Client _) = Less"
| "call_target_cmp (Position _) (Client _) = Less"
| "call_target_cmp (Client a) (Client b) = cmp_of a b"
| "call_target_cmp (Client _) (Position _) = Greater"
| "call_target_cmp (Client _) (Station _) = Greater"
| "call_target_cmp (Position _) (Station _) = Greater"
| "call_target_cmp (Position a) (Position b) = cmp_of a b"

lemma cmp_of_simps [simp]:
  "cmp_of a b = Less \<longleftrightarrow> a < b" "cmp_of a b = Equal \<longleftrightarrow> a = b" "cmp_of a b = Greater \<longleftrightarrow> b < a"
  by (auto simp: cmp_of_def)

lemma call_target_cmp_eq: "call_target_cmp s t = Equal \<longleftrightarrow> s = t"
  by (cases s; cases t) auto

lemma call_target_cmp_swap: "call_target_cmp s t = Greater \<longleftrightarrow> call_target_cmp t s = Less"
  by (cases s; cases t) auto

lemma call_target_cmp_trans:
  "call_target_cmp s t = Less \<Longrightarrow> call_target_cmp t u = Less \<Longrightarrow> call_target_cmp s u = Less"
  by (cases s; cases t; cases u) auto

instantiation call_target :: linorder
begin

definition less_eq_call_target :: "call_target \<Rightarrow> call_target \<Rightarrow> bool" where
  "less_eq_call_target s t \<longleftrightarrow> call_target_cmp s t \<noteq> Greater"

definition less_call_target :: "call_target \<Rightarrow> call_target \<Rightarrow> bool" where
  "less_call_target s t \<longleftrightarrow> call_target_cmp s t = Less"

instance
proof
  fix s t u :: call_target
  show "s < t \<longleftrightarrow> s \<le> t \<and> \<not> t \<le> s"
    unfolding less_eq_call_target_def less_call_target_def
    by (metis call_target_cmp_swap ordering.distinct(3))
  show "s \<le> s"
    using call_target_cmp_eq [of s s] by (simp add: less_eq_call_target_def)
  show "s \<le> t \<Longrightarrow> t \<le> s \<Longrightarrow> s = t"
    unfolding less_eq_call_target_def
    by (metis call_target_cmp_eq call_target_cmp_swap ordering.exhaust)
  show "s \<le> t \<Longrightarrow> t \<le> u \<Longrightarrow> s \<le> u"
    unfolding less_eq_call_target_def
    by (metis (full_types) call_target_cmp_eq call_target_cmp_swap call_target_cmp_trans ordering.exhaust)
  show "s \<le> t \<or> t \<le> s"
    unfolding less_eq_call_target_def
    by (metis call_target_cmp_swap ordering.distinct(3))
qed

end

text \<open>The identity a caller joins its own call under (\<^verbatim>\<open>From<CallSource> for CallTarget\<close>).\<close>

definition call_target_of_source :: "call_source \<Rightarrow> call_target" where
  "call_target_of_source v =
     (case cs_station_id v of
        Some station_id \<Rightarrow> Station station_id
      | None \<Rightarrow>
         (case cs_position_id v of
            Some position_id \<Rightarrow> Position position_id
          | None \<Rightarrow> Client (cs_client_id v)))"

type_synonym call_participants = "(client_id, call_target) hash_map"

datatype unknown_reason = UnknownReason string

datatype call_error_reason =
    TargetsNotFound "call_target hash_set"
  | AlreadyParticipant call_target
  | CallNotFound
  | CallActive
  | WebrtcFailure client_id
  | AudioFailure client_id
  | CallFailure
  | SignalingFailure client_id
  | AutoHangup
  | PeerConnectionFailed client_id
  | NotConferenceLeader call_target
  | NotParticipant
  | MaxConferenceSizeReached "call_target hash_set"
  | Other
  | Unknown unknown_reason

record call_end =
  ce_call_id :: call_id
  ce_ending_client_id :: client_id

record call_error =
  cerr_call_id :: call_id
  cerr_reason :: call_error_reason
  cerr_message :: "string option"

section \<open>Client messages\<close>

record call_invite =
  ci_call_id :: call_id
  ci_source :: call_source
  ci_targets :: "call_target hash_set"
  ci_prio :: bool

record call_accept =
  ca_call_id :: call_id
  ca_accepting_client_id :: client_id

datatype call_reject_reason = Busy | UnknownReject unknown_reason

record call_reject =
  cr_call_id :: call_id
  cr_rejecting_client_id :: client_id
  cr_reason :: call_reject_reason

datatype call_drop_reason = Requested | DropAutoHangup

record call_drop_target =
  cdt_call_id :: call_id
  cdt_target :: call_target
  cdt_reason :: call_drop_reason

record webrtc_message =
  wm_call_id :: call_id
  wm_from_client_id :: client_id
  wm_to_client_id :: client_id
  wm_payload :: string

section \<open>Server messages\<close>

record call_invitation =
  inv_call_id :: call_id
  inv_source :: call_source
  inv_target :: call_target
  inv_invited_targets :: "call_target hash_set"
  inv_joined_participants :: call_participants
  inv_conference_leader :: "client_id option"
  inv_prio :: bool

record call_update =
  cu_call_id :: call_id
  cu_invited_targets :: "call_target hash_set"
  cu_joined_participants :: call_participants
  cu_conference_leader :: "client_id option"

datatype call_cancel_reason =
    AnsweredElsewhere client_id
  | CallerCancelled
  | Disconnected
  | Errored call_error_reason
  | Rejected call_reject_reason
  | UnknownCancel unknown_reason

record call_cancelled =
  cc_call_id :: call_id
  cc_targets :: "call_target hash_set"
  cc_reason :: call_cancel_reason

text \<open>
  Of the generic \<^verbatim>\<open>Error\<close> message the call handlers send only the rate limiting reason; the
  other reasons keep their payload.
\<close>

datatype error_reason =
    MalformedMessage
  | Internal string
  | PeerConnection
  | UnexpectedMessage string
  | RateLimited "call_target hash_set" nat
  | ClientNotFound
  | UnknownError unknown_reason

record error_message =
  em_reason :: error_reason
  em_client_id :: "client_id option"
  em_call_id :: "call_id option"

section \<open>Profiles\<close>

text \<open>
  A 64-bit floating-point number: not a number, an infinity (negative or not), or the finite number
  \<open>m * 2 ^ e\<close>. The checks of profiles only compare with zero.
\<close>

datatype f64 = NaN | Infinite bool | Finite int int

definition f64_lt_zero :: "f64 \<Rightarrow> bool" where
  "f64_lt_zero x = (case x of NaN \<Rightarrow> False | Infinite negative \<Rightarrow> negative | Finite m e \<Rightarrow> m < 0)"

definition f64_le_zero :: "f64 \<Rightarrow> bool" where
  "f64_le_zero x = (case x of NaN \<Rightarrow> False | Infinite negative \<Rightarrow> negative | Finite m e \<Rightarrow> m \<le> 0)"

datatype custom_button_color = Clay | Blush | Lilac | Mint | Lavender | Taupe | Cadet | Steel | Umber | Lagoon | Snow | Azure

datatype frequency_display_mode = HideAll | ShowAll

datatype client_group_mode = GroupNone | GroupFir | GroupIcao | GroupFirAndIcao

record client_page_config =
  cp_include :: "string list"
  cp_exclude :: "string list"
  cp_priority :: "string list"
  cp_frequencies :: frequency_display_mode
  cp_grouping :: client_group_mode

definition client_page_config_default :: client_page_config where
  "client_page_config_default =
     \<lparr>cp_include = [], cp_exclude = [], cp_priority = [''*_FMP'', ''*_CTR'', ''*_APP'', ''*_TWR'', ''*_GND''],
      cp_frequencies = ShowAll, cp_grouping = GroupFirAndIcao\<rparr>"

datatype direct_access_page =
    DirectAccessPage (page_rows: "8 word") (page_content: direct_access_page_content)
and direct_access_page_content =
    Keys "direct_access_key list"
  | ClientPage client_page_config
and direct_access_key =
    DirectAccessKey (key_label: "string list") (key_color: "custom_button_color option")
      (key_station_id: "station_id option") (key_page: "direct_access_page option")

datatype justify_content = JustifyStart | JustifyEnd | SpaceBetween | SpaceAround | SpaceEvenly | JustifyCenter
datatype align_items = AlignStart | AlignEnd | AlignCenter
datatype flex_direction = Row | Col
datatype divider_orientation = Horizontal | Vertical

text \<open>The fields of a container but its children, which make the type recursive.\<close>

record geo_style =
  gs_height :: "string option"
  gs_width :: "string option"
  gs_padding :: "f64 option"
  gs_padding_left :: "f64 option"
  gs_padding_right :: "f64 option"
  gs_padding_top :: "f64 option"
  gs_padding_bottom :: "f64 option"
  gs_gap :: "f64 option"
  gs_justify_content :: "justify_content option"
  gs_align_items :: "align_items option"
  gs_direction :: flex_direction

record geo_page_button =
  gb_label :: "string list"
  gb_size :: f64
  gb_color :: "custom_button_color option"
  gb_page :: "direct_access_page option"
  gb_station_id :: "station_id option"

record geo_page_divider =
  gd_orientation :: divider_orientation
  gd_thickness :: f64
  gd_color :: string
  gd_oversize :: "f64 option"

datatype geo_node =
    Container geo_page_container
  | Button geo_page_button
  | Divider geo_page_divider
and geo_page_container =
    GeoPageContainer (gc_style: geo_style) (gc_children: "geo_node list")

record tab =
  tab_label :: "string list"
  tab_page :: direct_access_page

datatype profile_type = Geo geo_page_container | Tabbed "tab list"

datatype profile_view = Page | Split | Cycle

record protocol_profile =
  pp_id :: profile_id
  pp_view :: profile_view
  pp_type :: profile_type

datatype 'p active_profile = Specific 'p | Custom | NoProfile

datatype session_profile = Unchanged | Changed "protocol_profile active_profile"

section \<open>Clients and stations\<close>

datatype disconnect_reason =
    Terminated
  | NoActiveVatsimConnection
  | AmbiguousVatsimPosition "position_id list"
  | UnknownDisconnect unknown_reason

datatype login_failure_reason =
    Unauthorized
  | DuplicateId
  | InvalidCredentials
  | LoginNoActiveVatsimConnection
  | LoginAmbiguousVatsimPosition "position_id list"
  | InvalidVatsimPosition
  | LoginTimeout
  | IncompatibleProtocolVersion
  | UnknownLoginFailure unknown_reason

record client_info =
  info_id :: client_id
  info_display_name :: string
  info_frequency :: string
  info_position_id :: "position_id option"

record session_info =
  ses_client :: client_info
  ses_profile :: session_profile
  ses_default_call_sources :: "station_id list"
  ses_max_conf_size :: "u32 option"

record station_info =
  si_id :: station_id
  si_own :: bool

datatype server_message =
    LoginFailure login_failure_reason
  | CallInvitation call_invitation
  | CallEnd call_end
  | CallUpdate call_update
  | CallCancelled call_cancelled
  | CallError call_error
  | WebrtcOffer webrtc_message
  | WebrtcAnswer webrtc_message
  | WebrtcIceCandidate webrtc_message
  | ClientInfo client_info
  | SessionInfo session_info
  | ClientConnected client_info
  | ClientDisconnected client_id
  | ClientList "client_info list"
  | StationList "station_info list"
  | StationChanges "station_change list"
  | Disconnected_msg disconnect_reason
  | Error error_message
  | UnknownMessage

section \<open>Properties\<close>

lemma call_target_of_source_station:
  "cs_station_id v = Some st \<Longrightarrow> call_target_of_source v = Station st"
  by (simp add: call_target_of_source_def)

lemma to_ascii_uppercase_idem [simp]: "to_ascii_uppercase (to_ascii_uppercase s) = to_ascii_uppercase s"
  by (induction s) (auto simp: to_ascii_uppercase_def)

end
