(* ===== verification/Tokens.thy ===== *)
theory Tokens
  imports Protocol
begin

text \<open>
  The in-memory token store (\<^verbatim>\<open>vacs-server/src/store/memory.rs\<close>) and the two kinds of tokens the
  server keeps in it (\<^verbatim>\<open>vacs-server/src/state.rs\<close>): short-lived websocket tokens and API tokens
  whose expiry is extended by every use. The clock is an argument, as is the identifier a generated
  token gets. Values are the client ids themselves instead of their JSON encoding. What a store
  promises is a locale; the memory store is its instance and the tokens rest on its laws.
\<close>

section \<open>The memory store\<close>

record 'v stored_value =
  sv_value :: 'v
  sv_expires_at :: "instant option"

type_synonym 'v memory_store = "(string, 'v stored_value) hash_map"

definition is_expired :: "instant \<Rightarrow> 'v stored_value \<Rightarrow> bool" where
  "is_expired now v = (case sv_expires_at v of Some expires_at \<Rightarrow> now > expires_at | None \<Rightarrow> False)"

definition store_get :: "instant \<Rightarrow> string \<Rightarrow> 'v memory_store \<Rightarrow> 'v memory_store \<times> 'v option" where
  "store_get now key m =
     (case hm_get m key of
        Some stored_value \<Rightarrow>
          if is_expired now stored_value then (hm_remove key m, None) else (m, Some (sv_value stored_value))
      | None \<Rightarrow> (m, None))"

definition store_set :: "instant \<Rightarrow> string \<Rightarrow> 'v \<Rightarrow> duration option \<Rightarrow> 'v memory_store \<Rightarrow> 'v memory_store" where
  "store_set now key val expiry m =
     hm_insert key \<lparr>sv_value = val, sv_expires_at = map_option (\<lambda>d. now + d) expiry\<rparr> m"

definition store_remove :: "string \<Rightarrow> 'v memory_store \<Rightarrow> 'v memory_store" where
  "store_remove key m = hm_remove key m"

definition store_expire :: "instant \<Rightarrow> string \<Rightarrow> duration \<Rightarrow> 'v memory_store \<Rightarrow> 'v memory_store" where
  "store_expire now key d m =
     (case hm_get m key of
        Some entry \<Rightarrow> hm_insert key (entry\<lparr>sv_expires_at := Some (now + d)\<rparr>) m
      | None \<Rightarrow> m)"

text \<open>The part of a key that is safe to log: up to its second dot.\<close>

definition key_prefix :: "string \<Rightarrow> string" where
  "key_prefix key =
     (let (a, rest) = (takeWhile (\<lambda>c. c \<noteq> CHR ''.'') key, dropWhile (\<lambda>c. c \<noteq> CHR ''.'') key)
      in case rest of
           [] \<Rightarrow> []
         | d # rest \<Rightarrow>
             (let (b, rest) = (takeWhile (\<lambda>c. c \<noteq> CHR ''.'') rest, dropWhile (\<lambda>c. c \<noteq> CHR ''.'') rest)
              in if rest = [] then [] else a @ d # b))"

section \<open>Tokens\<close>

definition ws_token_key :: "string \<Rightarrow> string" where
  "ws_token_key token = ''ws.token.'' @ token"

definition api_token_key :: "string \<Rightarrow> string" where
  "api_token_key token = ''api.token.'' @ token"

definition generate_ws_auth_token :: "instant \<Rightarrow> string \<Rightarrow> client_id \<Rightarrow> client_id memory_store \<Rightarrow> client_id memory_store" where
  "generate_ws_auth_token now token cid m = store_set now (ws_token_key token) cid (Some (from_secs 30)) m"

definition verify_ws_auth_token :: "instant \<Rightarrow> string \<Rightarrow> client_id memory_store \<Rightarrow> client_id memory_store \<times> client_id option" where
  "verify_ws_auth_token now token m = store_get now (ws_token_key token) m"

definition generate_api_token ::
  "duration \<Rightarrow> instant \<Rightarrow> string \<Rightarrow> client_id \<Rightarrow> client_id memory_store \<Rightarrow> client_id memory_store" where
  "generate_api_token expiry now token cid m = store_set now (api_token_key token) cid (Some expiry) m"

text \<open>Whether a token parses as a UUID is a parameter.\<close>

definition verify_api_token ::
  "(string \<Rightarrow> bool) \<Rightarrow> duration \<Rightarrow> instant \<Rightarrow> string \<Rightarrow> client_id memory_store \<Rightarrow> client_id memory_store \<times> client_id option" where
  "verify_api_token is_uuid expiry now token m =
     (if \<not> is_uuid token then (m, None)
      else
        (let key = api_token_key token
         in case store_get now key m of
              (m, Some cid) \<Rightarrow> (store_expire now key expiry m, Some cid)
            | (m, None) \<Rightarrow> (m, None)))"

definition revoke_api_token :: "string \<Rightarrow> client_id memory_store \<Rightarrow> client_id memory_store" where
  "revoke_api_token token m = store_remove (api_token_key token) m"

section \<open>What a store promises\<close>

text \<open>
  A store as its clients see it: \<open>lookup now key m\<close> is what a read at \<open>now\<close> returns. A read changes
  nothing that a later read could see.
\<close>

locale expiring_store =
  fixes get :: "instant \<Rightarrow> string \<Rightarrow> 'm \<Rightarrow> 'm \<times> 'v option"
    and put :: "instant \<Rightarrow> string \<Rightarrow> 'v \<Rightarrow> duration option \<Rightarrow> 'm \<Rightarrow> 'm"
    and remove :: "string \<Rightarrow> 'm \<Rightarrow> 'm"
    and extend :: "instant \<Rightarrow> string \<Rightarrow> duration \<Rightarrow> 'm \<Rightarrow> 'm"
  assumes get_put: "snd (get now k (put t k' v d m)) =
      (if k = k' then (if \<forall>x. d = Some x \<longrightarrow> now \<le> t + x then Some v else None) else snd (get now k m))"
    and get_remove: "snd (get now k (remove k' m)) = (if k = k' then None else snd (get now k m))"
    and get_extend: "snd (get t k m) = Some v \<Longrightarrow> snd (get now k (extend t k x m)) = (if now \<le> t + x then Some v else None)"
    and get_extend_other: "k \<noteq> k' \<Longrightarrow> snd (get now k (extend t k' x m)) = snd (get now k m)"
    and get_get: "t \<le> now \<Longrightarrow> snd (get now k (fst (get t k' m))) = snd (get now k m)"
    and get_hit: "snd (get t k m) = Some v \<Longrightarrow> fst (get t k m) = m"
begin

text \<open>A value put with a lifetime is read until its lifetime ends, whatever else is put or read.\<close>

lemma put_lifetime: "snd (get now k (put t k v (Some d) m)) = (if now \<le> t + d then Some v else None)"
  by (simp add: get_put)

lemma put_other: "k \<noteq> k' \<Longrightarrow> snd (get now k (put t k' v d m)) = snd (get now k m)"
  by (simp add: get_put)

text \<open>A read that extends the lifetime.\<close>

lemma touch:
  assumes "get t k m = (m', Some v)"
  shows "snd (get now k (extend t k d m')) = (if now \<le> t + d then Some v else None)"
proof -
  have "m' = m" using get_hit [of t k m v] assms by simp
  with assms get_extend [of t k m v now d] show ?thesis by simp
qed

end

interpretation mem: expiring_store store_get store_set store_remove store_expire
proof
  show "snd (store_get now k (store_set t k' v d m)) =
      (if k = k' then (if \<forall>x. d = Some x \<longrightarrow> now \<le> t + x then Some v else None) else snd (store_get now k m))"
    for now k t k' d m and v :: 'v
    by (cases d) (auto simp: store_get_def store_set_def is_expired_def split: option.splits)
  show "snd (store_get now k (store_remove k' m)) = (if k = k' then None else snd (store_get now k m))"
    for now k k' and m :: "'v memory_store"
    by (auto simp: store_get_def store_remove_def split: option.splits)
  show "snd (store_get now k (store_expire t k d m)) = (if now \<le> t + d then Some v else None)"
    if "snd (store_get t k m) = Some v" for t k m now d and v :: 'v
    using that by (auto simp: store_get_def store_expire_def is_expired_def split: option.splits if_splits)
  show "snd (store_get now k (store_expire t k' d m)) = snd (store_get now k m)"
    if "k \<noteq> k'" for now k t k' d and m :: "'v memory_store"
    using that by (auto simp: store_get_def store_expire_def split: option.splits)
  show "snd (store_get now k (fst (store_get t k' m))) = snd (store_get now k m)"
    if "t \<le> now" for t now k k' and m :: "'v memory_store"
    using that by (auto simp: store_get_def is_expired_def split: option.splits)
  show "fst (store_get t k m) = m" if "snd (store_get t k m) = Some v" for t k m and v :: 'v
    using that by (auto simp: store_get_def split: option.splits if_splits)
qed

lemma ws_token_key_inj [simp]: "ws_token_key a = ws_token_key b \<longleftrightarrow> a = b"
  by (simp add: ws_token_key_def)

lemma api_token_key_inj [simp]: "api_token_key a = api_token_key b \<longleftrightarrow> a = b"
  by (simp add: api_token_key_def)

lemma token_namespaces [simp]: "ws_token_key a \<noteq> api_token_key b" "api_token_key b \<noteq> ws_token_key a"
  by (simp_all add: ws_token_key_def api_token_key_def)

section \<open>Properties\<close>

text \<open>
  A websocket token verifies to the client it was generated for during thirty seconds and to
  nobody afterwards; generating it changes no other websocket token and no API token.
\<close>

theorem ws_token_lifetime:
  "snd (verify_ws_auth_token now token (generate_ws_auth_token t token cid m)) =
     (if now \<le> t + from_secs 30 then Some cid else None) \<and>
   (\<forall>other. other \<noteq> token \<longrightarrow>
      snd (verify_ws_auth_token now other (generate_ws_auth_token t token cid m)) = snd (verify_ws_auth_token now other m)) \<and>
   (\<forall>other. snd (verify_api_token is_uuid expiry now other (generate_ws_auth_token t token cid m)) =
      snd (verify_api_token is_uuid expiry now other m))"
proof (intro conjI allI impI)
  show "snd (verify_ws_auth_token now token (generate_ws_auth_token t token cid m)) =
     (if now \<le> t + from_secs 30 then Some cid else None)"
    unfolding verify_ws_auth_token_def generate_ws_auth_token_def by (rule mem.put_lifetime)
  show "snd (verify_ws_auth_token now other (generate_ws_auth_token t token cid m)) = snd (verify_ws_auth_token now other m)"
    if "other \<noteq> token" for other
    unfolding verify_ws_auth_token_def generate_ws_auth_token_def using that by (intro mem.put_other) simp
  have api: "snd (verify_api_token is_uuid expiry now other m) =
    (if is_uuid other then snd (store_get now (api_token_key other) m) else None)" for other m
    by (auto simp: verify_api_token_def Let_def split: prod.splits option.splits)
  show "snd (verify_api_token is_uuid expiry now other (generate_ws_auth_token t token cid m)) =
      snd (verify_api_token is_uuid expiry now other m)" for other
    unfolding api generate_ws_auth_token_def by (simp add: mem.put_other)
qed

theorem ws_token_lifetime_witness:
  "snd (verify_ws_auth_token (from_secs 31) ''b'' (generate_ws_auth_token 0 ''a'' (ClientId ''1'') [])) = None"
  using conjunct1 [OF conjunct2 [OF ws_token_lifetime
      [where now = "from_secs 31" and token = "''a''" and t = 0 and cid = "ClientId ''1''" and m = "[]"]]]
  by (simp add: verify_ws_auth_token_def store_get_def)

text \<open>
  An API token expires by inactivity: after a use at \<open>t\<close> it verifies to the same client until the
  configured expiry has passed since \<open>t\<close>, whenever it was generated, and a revoked token never
  verifies.
\<close>

theorem api_token_sliding_expiry:
  assumes "verify_api_token is_uuid expiry t token m = (m', Some cid)"
  shows "snd (verify_api_token is_uuid expiry now token m') = (if now \<le> t + expiry then Some cid else None) \<and>
    snd (verify_api_token is_uuid expiry now token (revoke_api_token token m')) = None"
proof -
  let ?k = "api_token_key token"
  obtain m1 where get: "store_get t ?k m = (m1, Some cid)" and m': "m' = store_expire t ?k expiry m1" and uuid: "is_uuid token"
    using assms by (auto simp: verify_api_token_def Let_def split: if_splits prod.splits option.splits)
  have api: "snd (verify_api_token is_uuid expiry now token n) = snd (store_get now ?k n)" for n
    using uuid by (auto simp: verify_api_token_def Let_def split: prod.splits option.splits)
  show ?thesis
    unfolding api m' revoke_api_token_def using mem.touch [OF get] by (simp add: mem.get_remove)
qed

theorem api_token_sliding_expiry_witness:
  "snd (verify_api_token (\<lambda>_. True) (from_secs 60) (from_secs 100) ''a''
     (fst (verify_api_token (\<lambda>_. True) (from_secs 60) (from_secs 50) ''a''
        (generate_api_token (from_secs 60) 0 ''a'' (ClientId ''1'') [])))) = Some (ClientId ''1'')"
proof -
  have "verify_api_token (\<lambda>_. True) (from_secs 60) (from_secs 50) ''a'' (generate_api_token (from_secs 60) 0 ''a'' (ClientId ''1'') []) =
    (fst (verify_api_token (\<lambda>_. True) (from_secs 60) (from_secs 50) ''a''
        (generate_api_token (from_secs 60) 0 ''a'' (ClientId ''1'') [])), Some (ClientId ''1''))"
    by code_simp
  from conjunct1 [OF api_token_sliding_expiry [OF this, of "from_secs 100"]] show ?thesis by (simp add: from_secs_def)
qed

lemma key_prefix_hides_tokens:
  "CHR ''.'' \<notin> set a \<Longrightarrow> CHR ''.'' \<notin> set b \<Longrightarrow> key_prefix (a @ CHR ''.'' # b @ CHR ''.'' # token) = a @ CHR ''.'' # b"
  by (auto simp: key_prefix_def takeWhile_append dropWhile_append)

end
