(* ===== verification/Coverage.thy ===== *)
theory Coverage
  imports Protocol "HOL-Library.Product_Lexorder"
begin

text \<open>
  The coverage model of \<^verbatim>\<open>vacs-vatsim/src/coverage\<close>: profiles with their reference checks
  (\<^verbatim>\<open>profile.rs\<close>), stations with the resolution of inherited coverage (\<^verbatim>\<open>station.rs\<close>),
  positions (\<^verbatim>\<open>position.rs\<close>), and the network (\<^verbatim>\<open>network.rs\<close>) with its
  construction from the loaded regions and its queries. Reading and parsing the files is not
  modelled: the construction starts from the parsed regions. The regular expression that checks
  frequencies is the parameter \<open>is_freq\<close>. An error carries the error it wraps instead of
  its rendered text.
\<close>

section \<open>Errors\<close>

datatype validation_error =
    InvalidFormat string string string
  | InvalidValue string string string
  | OutOfRange string string string "string option"
  | Empty string
  | MissingReference string string
  | EmptyCoverage string
  | CycleDetected "string list"
  | MissingParent string string
  | MutuallyExclusive "string list"

datatype coverage_error =
    Validation validation_error
  | Duplicate string string
  | Load string string coverage_error
  | Context string coverage_error

section \<open>Facility types\<close>

datatype facility_type =
    FacilityUnknown | TrafficFlow | Radio | Ramp | Delivery | Ground | Tower | Approach | Departure
  | Enroute | FlightServiceStation

fun facility_as_str :: "facility_type \<Rightarrow> string" where
  "facility_as_str Ramp = ''RMP''"
| "facility_as_str Delivery = ''DEL''"
| "facility_as_str Ground = ''GND''"
| "facility_as_str Tower = ''TWR''"
| "facility_as_str Approach = ''APP''"
| "facility_as_str Departure = ''DEP''"
| "facility_as_str Enroute = ''CTR''"
| "facility_as_str FlightServiceStation = ''FSS''"
| "facility_as_str Radio = ''RDO''"
| "facility_as_str TrafficFlow = ''FMP''"
| "facility_as_str FacilityUnknown = ''UNKNOWN''"

definition last_segment :: "string \<Rightarrow> string" where
  "last_segment s = rev (takeWhile (\<lambda>c. c \<noteq> CHR ''_'') (rev s))"

definition facility_from_str :: "string \<Rightarrow> facility_type option" where
  "facility_from_str s =
     (let suffix = last_segment (to_ascii_uppercase s)
      in if suffix \<in> {''RMP'', ''RAMP''} then Some Ramp
         else if suffix \<in> {''DEL'', ''DELIVERY''} then Some Delivery
         else if suffix \<in> {''GND'', ''GROUND''} then Some Ground
         else if suffix \<in> {''TWR'', ''TOWER''} then Some Tower
         else if suffix \<in> {''APP'', ''APPROACH''} then Some Approach
         else if suffix \<in> {''DEP'', ''DEPARTURE''} then Some Departure
         else if suffix \<in> {''CTR'', ''CENTER'', ''ENROUTE''} then Some Enroute
         else if suffix \<in> {''FSS'', ''FLIGHTSERVICESTATION''} then Some FlightServiceStation
         else if suffix \<in> {''RDO'', ''RADIO''} then Some Radio
         else if suffix \<in> {''TMU'', ''TRAFFICMANAGEMENTUNIT'', ''FMP'', ''FLOWMANAGEMENTPOSITION'', ''TRAFFICFLOW''}
           then Some TrafficFlow
         else None)"

definition facility_try_from :: "8 word \<Rightarrow> facility_type option" where
  "facility_try_from v =
     (if v = 1 then Some FlightServiceStation else if v = 2 then Some Delivery
      else if v = 3 then Some Ground else if v = 4 then Some Tower
      else if v = 5 then Some Approach else if v = 6 then Some Enroute else None)"

definition from_vatsim_facility :: "8 word \<Rightarrow> facility_type" where
  "from_vatsim_facility v = (case facility_try_from v of Some f \<Rightarrow> f | None \<Rightarrow> FacilityUnknown)"

section \<open>Profiles\<close>

record profile =
  prof_id :: profile_id
  prof_view :: profile_view
  prof_type :: profile_type
  prof_relevant_station_ids :: "station_id hash_set"

text \<open>\<^verbatim>\<open>collect_station_ids\<close>: the ids in the order they are inserted into the set.\<close>

fun collect_page :: "direct_access_page \<Rightarrow> station_id list"
and collect_content :: "direct_access_page_content \<Rightarrow> station_id list"
and collect_key :: "direct_access_key \<Rightarrow> station_id list" where
  "collect_page (DirectAccessPage rows content) = collect_content content"
| "collect_content (Keys keys) = concat (map collect_key keys)"
| "collect_content (ClientPage config) = []"
| "collect_key (DirectAccessKey label color st pg) =
     (case st of Some station_id \<Rightarrow> [station_id] | None \<Rightarrow> []) @
     (case pg of Some page \<Rightarrow> collect_page page | None \<Rightarrow> [])"

definition collect_button :: "geo_page_button \<Rightarrow> station_id list" where
  "collect_button b =
     (case gb_page b of Some page \<Rightarrow> collect_page page | None \<Rightarrow> []) @
     (case gb_station_id b of Some station_id \<Rightarrow> [station_id] | None \<Rightarrow> [])"

fun collect_node :: "geo_node \<Rightarrow> station_id list"
and collect_container :: "geo_page_container \<Rightarrow> station_id list" where
  "collect_node (Container c) = collect_container c"
| "collect_node (Button b) = collect_button b"
| "collect_node (Divider d) = []"
| "collect_container (GeoPageContainer style children) = concat (map collect_node children)"

fun collect_station_ids :: "profile_type \<Rightarrow> station_id hash_set" where
  "collect_station_ids (Geo container) = hs_collect (collect_container container)"
| "collect_station_ids (Tabbed tabs) = hs_collect (concat (map (collect_page \<circ> tab_page) tabs))"

definition missing_station :: "station_id \<Rightarrow> coverage_error" where
  "missing_station st = Validation (MissingReference ''station_id'' (station_id_str st))"

definition check_station :: "station_id set \<Rightarrow> station_id option \<Rightarrow> coverage_error option" where
  "check_station stations st =
     (case st of
        Some station_id \<Rightarrow> if station_id \<notin> stations then Some (missing_station station_id) else None
      | None \<Rightarrow> None)"

text \<open>The first error of a sequence of checks that stops at an error.\<close>

fun first_error :: "coverage_error option list \<Rightarrow> coverage_error option" where
  "first_error [] = None"
| "first_error (None # es) = first_error es"
| "first_error (Some e # es) = Some e"

definition validate_key :: "station_id set \<Rightarrow> direct_access_key \<Rightarrow> coverage_error option" where
  "validate_key stations key = check_station stations (key_station_id key)"

fun validate_content :: "station_id set \<Rightarrow> direct_access_page_content \<Rightarrow> coverage_error option" where
  "validate_content stations (Keys keys) = first_error (map (validate_key stations) keys)"
| "validate_content stations (ClientPage config) = None"

definition validate_page :: "station_id set \<Rightarrow> direct_access_page \<Rightarrow> coverage_error option" where
  "validate_page stations page = validate_content stations (page_content page)"

definition validate_button :: "station_id set \<Rightarrow> geo_page_button \<Rightarrow> coverage_error option" where
  "validate_button stations b =
     first_error [case gb_page b of Some page \<Rightarrow> validate_page stations page | None \<Rightarrow> None,
                  check_station stations (gb_station_id b)]"

fun validate_node :: "station_id set \<Rightarrow> geo_node \<Rightarrow> coverage_error option"
and validate_container :: "station_id set \<Rightarrow> geo_page_container \<Rightarrow> coverage_error option" where
  "validate_node stations (Container c) = validate_container stations c"
| "validate_node stations (Button b) = validate_button stations b"
| "validate_node stations (Divider d) = None"
| "validate_container stations (GeoPageContainer style children) = first_error (map (validate_node stations) children)"

fun validate_profile_type :: "station_id set \<Rightarrow> profile_type \<Rightarrow> coverage_error option" where
  "validate_profile_type stations (Geo container) = validate_container stations container"
| "validate_profile_type stations (Tabbed tabs) = first_error (map (validate_page stations \<circ> tab_page) tabs)"

section \<open>Stations\<close>

datatype fir_id = FirId (fir_id_str: string)

record station_raw =
  sr_id :: station_id
  sr_parent_id :: "station_id option"
  sr_controlled_by :: "position_id list"

record station =
  st_id :: station_id
  st_parent_id :: "station_id option"
  st_controlled_by :: "position_id list"
  st_fir_id :: fir_id

definition station_raw_validate :: "station_raw \<Rightarrow> coverage_error option" where
  "station_raw_validate s = (if station_id_str (sr_id s) = [] then Some (Validation (Empty ''id'')) else None)"

definition station_raw_validate_references :: "position_id set \<Rightarrow> station_raw \<Rightarrow> coverage_error option" where
  "station_raw_validate_references positions s =
     map_option (\<lambda>p. Validation (MissingReference ''position_id'' (position_id_str p)))
       (List.find (\<lambda>p. p \<notin> positions) (sr_controlled_by s))"

text \<open>
  The walk up the parent chain. Arguments: all stations, the id of the station being resolved, the
  current station, the ids visited in order, and the positions collected so far (the set
  \<^verbatim>\<open>seen_positions\<close> has the same elements).
\<close>

definition extend_unseen :: "position_id list \<Rightarrow> position_id list \<Rightarrow> position_id list" where
  "extend_unseen acc ps = fold (\<lambda>p acc. if p \<in> set acc then acc else acc @ [p]) ps acc"

function resolve_loop ::
  "(station_id, station_raw) hash_map \<Rightarrow> station_id \<Rightarrow> station_raw option \<Rightarrow> station_id list \<Rightarrow> position_id list
    \<Rightarrow> coverage_error list + position_id list" where
  "resolve_loop all self_id None visited controlled_by = Inr controlled_by"
| "resolve_loop all self_id (Some station) visited controlled_by =
     (if sr_id station \<in> set visited
      then Inl [Validation (CycleDetected (map station_id_str (visited @ [sr_id station])))]
      else
        (let visited = visited @ [sr_id station];
             controlled_by = extend_unseen controlled_by (sr_controlled_by station)
         in case sr_parent_id station of
              None \<Rightarrow> resolve_loop all self_id None visited controlled_by
            | Some parent_id \<Rightarrow>
                (case hm_get all parent_id of
                   None \<Rightarrow> Inl [Validation (MissingParent (station_id_str self_id) (station_id_str parent_id))]
                 | Some parent \<Rightarrow> resolve_loop all self_id (Some parent) visited controlled_by)))"
  by pat_completeness auto

text \<open>Every round visits a station id that was not visited before, and these are finitely many.\<close>

definition unvisited :: "(station_id, station_raw) hash_map \<Rightarrow> station_raw option \<Rightarrow> station_id list \<Rightarrow> nat" where
  "unvisited all cur visited =
     card (sr_id ` set (hm_values all) - set visited) +
     (case cur of Some s \<Rightarrow> if sr_id s \<in> sr_id ` set (hm_values all) then 1 else 2 | None \<Rightarrow> 0)"

termination resolve_loop
proof (relation "measure (\<lambda>(all, self_id, cur, visited, acc). unvisited all cur visited)", goal_cases)
  case 1
  show ?case by simp
next
  case (2 all self_id station visited acc visited' acc')
  have "card (sr_id ` set (hm_values all) - set (visited @ [sr_id station])) \<le> card (sr_id ` set (hm_values all) - set visited)"
    by (intro card_mono) auto
  then show ?case by (auto simp: 2 unvisited_def)
next
  case (3 all self_id station visited acc visited' acc' parent_id parent)
  let ?ids = "sr_id ` set (hm_values all)"
  have p: "sr_id parent \<in> ?ids" using 3 by (force dest: hm_get_SomeD hm_values_mem)
  have eq: "?ids - set (visited @ [sr_id station]) = ?ids - set visited - {sr_id station}" by auto
  show ?case
  proof (cases "sr_id station \<in> ?ids")
    case True
    with 3 have "sr_id station \<in> ?ids - set visited" by simp
    then have "card (?ids - set visited - {sr_id station}) < card (?ids - set visited)"
      by (intro card_Diff1_less) auto
    with p True show ?thesis by (simp add: 3 unvisited_def eq)
  next
    case False
    then have "?ids - set visited - {sr_id station} = ?ids - set visited" by auto
    with p False show ?thesis by (simp add: 3 unvisited_def eq)
  qed
qed

declare resolve_loop.simps(2) [simp del]

definition resolve_controlled_by ::
  "(station_id, station_raw) hash_map \<Rightarrow> station_raw \<Rightarrow> coverage_error list + position_id list" where
  "resolve_controlled_by all s = resolve_loop all (sr_id s) (Some s) [] []"

definition station_from_raw ::
  "(station_id, station_raw) hash_map \<Rightarrow> fir_id \<Rightarrow> station_raw \<Rightarrow> coverage_error list + station" where
  "station_from_raw all fir s =
     (case station_raw_validate s of
        Some err \<Rightarrow> Inl [err]
      | None \<Rightarrow>
          (case resolve_controlled_by all s of
             Inl errs \<Rightarrow> Inl errs
           | Inr controlled_by \<Rightarrow>
               Inr \<lparr>st_id = sr_id s, st_parent_id = sr_parent_id s, st_controlled_by = controlled_by, st_fir_id = fir\<rparr>))"

section \<open>Positions\<close>

record position_raw =
  pr_id :: position_id
  pr_prefixes :: "string hash_set"
  pr_frequency :: string
  pr_facility_type :: facility_type
  pr_profile_id :: "profile_id option"
  pr_default_call_sources :: "station_id list"

record position =
  pos_id :: position_id
  pos_prefixes :: "string hash_set"
  pos_frequency :: string
  pos_facility_type :: facility_type
  pos_profile_id :: "profile_id option"
  pos_default_call_sources :: "station_id list"
  pos_fir_id :: fir_id
  pos_controlled_stations :: "station_id hash_set"

fun first_duplicate :: "'a list \<Rightarrow> 'a list \<Rightarrow> 'a option" where
  "first_duplicate seen [] = None"
| "first_duplicate seen (x # xs) = (if x \<in> set seen then Some x else first_duplicate (x # seen) xs)"

definition facility_mismatch :: "position_raw \<Rightarrow> facility_type option" where
  "facility_mismatch p =
     (case facility_from_str (position_id_str (pr_id p)) of
        Some id_facility_type \<Rightarrow> if id_facility_type \<noteq> pr_facility_type p then Some id_facility_type else None
      | None \<Rightarrow> None)"

definition position_raw_validate :: "(string \<Rightarrow> bool) \<Rightarrow> position_raw \<Rightarrow> coverage_error option" where
  "position_raw_validate is_freq p =
     (if position_id_str (pr_id p) = [] then Some (Validation (Empty ''id''))
      else if pr_prefixes p = [] \<or> list_ex (\<lambda>pre. pre = []) (pr_prefixes p)
      then Some (Validation (Empty ''prefixes''))
      else if pr_frequency p = [] then Some (Validation (Empty ''frequency''))
      else if \<not> is_freq (pr_frequency p)
      then Some (Validation (InvalidFormat ''frequency'' (pr_frequency p) ''must match pattern XXX.XXX''))
      else if pr_facility_type p = FacilityUnknown
      then Some (Validation (InvalidValue ''facility_type'' ''Unknown'' ''must not be Unknown''))
      else case facility_mismatch p of
        Some id_facility_type \<Rightarrow>
          Some (Validation (InvalidValue ''facility_type'' (facility_as_str (pr_facility_type p))
            (''id `'' @ position_id_str (pr_id p) @ ''` implies `'' @ facility_as_str id_facility_type @ ''`'')))
      | None \<Rightarrow>
          if (case pr_profile_id p of Some pid \<Rightarrow> profile_id_str pid = [] | None \<Rightarrow> False)
          then Some (Validation (Empty ''profile_id''))
          else
            map_option (\<lambda>st. Validation (InvalidValue ''default_call_sources'' (station_id_str st) ''duplicate entry''))
              (first_duplicate [] (pr_default_call_sources p)))"

definition position_validate_profile :: "profile_id set \<Rightarrow> position_raw \<Rightarrow> coverage_error option" where
  "position_validate_profile profiles p =
     (case pr_profile_id p of
        Some pid \<Rightarrow>
          if pid \<notin> profiles then Some (Validation (MissingReference ''profile_id'' (profile_id_str pid))) else None
      | None \<Rightarrow> None)"

definition position_validate_stations :: "station_id set \<Rightarrow> position_raw \<Rightarrow> coverage_error option" where
  "position_validate_stations stations p =
     map_option (\<lambda>st. Validation (MissingReference ''default_call_sources'' (station_id_str st)))
       (List.find (\<lambda>st. st \<notin> stations) (pr_default_call_sources p))"

definition position_from_raw :: "(string \<Rightarrow> bool) \<Rightarrow> fir_id \<Rightarrow> position_raw \<Rightarrow> coverage_error + position" where
  "position_from_raw is_freq fir p =
     (case position_raw_validate is_freq p of
        Some err \<Rightarrow> Inl err
      | None \<Rightarrow>
          Inr \<lparr>pos_id = pr_id p, pos_prefixes = pr_prefixes p, pos_frequency = pr_frequency p,
               pos_facility_type = pr_facility_type p, pos_profile_id = pr_profile_id p,
               pos_default_call_sources = pr_default_call_sources p, pos_fir_id = fir, pos_controlled_stations = []\<rparr>)"

section \<open>Regions\<close>

record fir_raw =
  fr_id :: fir_id
  fr_stations :: "station_raw list"
  fr_positions :: "position_raw list"
  fr_profiles :: "(profile_id, profile) hash_map"

record fir =
  fir_id_of :: fir_id
  fir_stations :: "station_id hash_set"
  fir_positions :: "position_id hash_set"
  fir_profiles :: "profile_id hash_set"

definition fir_raw_validate :: "fir_raw \<Rightarrow> coverage_error option" where
  "fir_raw_validate f =
     (if fir_id_str (fr_id f) = [] then Some (Validation (Empty ''id''))
      else if fr_stations f = [] then Some (Validation (Empty ''stations''))
      else if fr_positions f = [] then Some (Validation (Empty ''positions''))
      else None)"

definition fir_try_from :: "fir_raw \<Rightarrow> coverage_error + fir" where
  "fir_try_from f =
     (case fir_raw_validate f of
        Some err \<Rightarrow> Inl err
      | None \<Rightarrow>
          Inr \<lparr>fir_id_of = fr_id f, fir_stations = hs_collect (map sr_id (fr_stations f)),
               fir_positions = hs_collect (map pr_id (fr_positions f)),
               fir_profiles = hs_collect (hm_keys (fr_profiles f))\<rparr>)"

section \<open>Loading the network\<close>

record network =
  net_firs :: "(fir_id, fir) hash_map"
  net_positions :: "(position_id, position) hash_map"
  net_stations :: "(station_id, station) hash_map"
  net_profiles :: "(profile_id, profile) hash_map"

text \<open>The variables of the loading loop: the four maps and the errors found so far.\<close>

record load_state =
  ld_net :: network
  ld_errors :: "coverage_error list"

definition push_error :: "coverage_error \<Rightarrow> load_state \<Rightarrow> load_state" where
  "push_error err l = l\<lparr>ld_errors := ld_errors l @ [err]\<rparr>"

definition push_reference_error :: "fir_id \<Rightarrow> string \<Rightarrow> coverage_error option \<Rightarrow> load_state \<Rightarrow> load_state" where
  "push_reference_error fir entity err l =
     (case err of Some e \<Rightarrow> push_error (Context (fir_id_str fir) (Context entity e)) l | None \<Rightarrow> l)"

definition check_references ::
  "position_id set \<Rightarrow> profile_id set \<Rightarrow> station_id set \<Rightarrow> fir_raw \<Rightarrow> load_state \<Rightarrow> load_state" where
  "check_references positions profiles stations f l =
     (let l = fold (\<lambda>s. push_reference_error (fr_id f) (station_id_str (sr_id s))
                      (station_raw_validate_references positions s)) (fr_stations f) l;
          l = fold (\<lambda>p l.
                 let l = push_reference_error (fr_id f) (position_id_str (pr_id p)) (position_validate_profile profiles p) l
                 in push_reference_error (fr_id f) (position_id_str (pr_id p)) (position_validate_stations stations p) l)
               (fr_positions f) l
      in fold (\<lambda>p. push_reference_error (fr_id f) (profile_id_str (prof_id p))
                 (validate_profile_type stations (prof_type p))) (hm_values (fr_profiles f)) l)"

definition load_position :: "(string \<Rightarrow> bool) \<Rightarrow> fir_id \<Rightarrow> position_raw \<Rightarrow> load_state \<Rightarrow> load_state" where
  "load_position is_freq fir p l =
     (if hm_contains_key (pr_id p) (net_positions (ld_net l))
      then push_error (Context (fir_id_str fir) (Duplicate ''Position'' (position_id_str (pr_id p)))) l
      else case position_from_raw is_freq fir p of
             Inl err \<Rightarrow> push_error (Context (fir_id_str fir) (Load ''Position'' (position_id_str (pr_id p)) err)) l
           | Inr position \<Rightarrow>
               l\<lparr>ld_net := (ld_net l)\<lparr>net_positions := hm_insert (pos_id position) position (net_positions (ld_net l))\<rparr>\<rparr>)"

definition load_station ::
  "(station_id, station_raw) hash_map \<Rightarrow> fir_id \<Rightarrow> station_raw \<Rightarrow> load_state \<Rightarrow> load_state" where
  "load_station all fir s l =
     (if hm_contains_key (sr_id s) (net_stations (ld_net l))
      then push_error (Context (fir_id_str fir) (Duplicate ''Station'' (station_id_str (sr_id s)))) l
      else case station_from_raw all fir s of
             Inl errs \<Rightarrow>
               fold (\<lambda>err. push_error (Context (fir_id_str fir) (Load ''Station'' (station_id_str (sr_id s)) err))) errs l
           | Inr station \<Rightarrow>
               if st_controlled_by station = []
               then push_error (Context (fir_id_str fir) (Validation (EmptyCoverage (station_id_str (st_id station))))) l
               else l\<lparr>ld_net := (ld_net l)\<lparr>net_stations := hm_insert (st_id station) station (net_stations (ld_net l))\<rparr>\<rparr>)"

definition load_profile :: "fir_id \<Rightarrow> profile_id \<times> profile \<Rightarrow> load_state \<Rightarrow> load_state" where
  "load_profile fir = (\<lambda>(profile_id, profile) l.
     if hm_contains_key profile_id (net_profiles (ld_net l))
     then push_error (Context (fir_id_str fir) (Duplicate ''Profile'' (profile_id_str profile_id))) l
     else l\<lparr>ld_net := (ld_net l)\<lparr>net_profiles := hm_insert profile_id profile (net_profiles (ld_net l))\<rparr>\<rparr>)"

definition load_fir ::
  "(string \<Rightarrow> bool) \<Rightarrow> (station_id, station_raw) hash_map \<Rightarrow> position_id set \<Rightarrow> profile_id set \<Rightarrow> station_id set
    \<Rightarrow> fir_raw \<Rightarrow> load_state \<Rightarrow> load_state" where
  "load_fir is_freq all positions profiles stations f l =
     (let l = check_references positions profiles stations f l
      in if hm_contains_key (fr_id f) (net_firs (ld_net l))
         then push_error (Duplicate ''FIR'' (fir_id_str (fr_id f))) l
         else case fir_try_from f of
                Inl err \<Rightarrow> push_error (Load ''FIR'' (fir_id_str (fr_id f)) err) l
              | Inr fir \<Rightarrow>
                  (let l = l\<lparr>ld_net := (ld_net l)\<lparr>net_firs := hm_insert (fir_id_of fir) fir (net_firs (ld_net l))\<rparr>\<rparr>;
                       l = fold (load_position is_freq (fr_id f)) (fr_positions f) l;
                       l = fold (load_station all (fr_id f)) (fr_stations f) l
                   in fold (load_profile (fr_id f)) (fr_profiles f) l))"

text \<open>The last pass: every station is entered into the positions that control it.\<close>

definition link_position :: "station \<Rightarrow> position_id \<Rightarrow> load_state \<Rightarrow> load_state" where
  "link_position s p l =
     (case hm_get (net_positions (ld_net l)) p of
        Some position \<Rightarrow>
          l\<lparr>ld_net := (ld_net l)\<lparr>net_positions :=
              hm_insert p (position\<lparr>pos_controlled_stations := hs_insert (st_id s) (pos_controlled_stations position)\<rparr>)
                (net_positions (ld_net l))\<rparr>\<rparr>
      | None \<Rightarrow>
          push_error (Context (fir_id_str (st_fir_id s)) (Context (station_id_str (st_id s))
            (Validation (MissingReference ''position_id'' (position_id_str p))))) l)"

definition link_station :: "station \<Rightarrow> load_state \<Rightarrow> load_state" where
  "link_station s l = fold (link_position s) (st_controlled_by s) l"

definition empty_network :: network where
  "empty_network = \<lparr>net_firs = [], net_positions = [], net_stations = [], net_profiles = []\<rparr>"

definition build_network ::
  "(string \<Rightarrow> bool) \<Rightarrow> fir_raw list \<Rightarrow> coverage_error list \<Rightarrow> coverage_error list + network" where
  "build_network is_freq raw_firs errors =
     (let all_stations = hm_collect (concat (map (\<lambda>f. map (\<lambda>s. (sr_id s, s)) (fr_stations f)) raw_firs));
          all_station_ids = set (hm_keys all_stations);
          all_position_ids = set (concat (map (\<lambda>f. map pr_id (fr_positions f)) raw_firs));
          all_profile_ids = set (concat (map (\<lambda>f. hm_keys (fr_profiles f)) raw_firs));
          l = fold (load_fir is_freq all_stations all_position_ids all_profile_ids all_station_ids) raw_firs
                \<lparr>ld_net = empty_network, ld_errors = errors\<rparr>;
          l = fold link_station (hm_values (net_stations (ld_net l))) l
      in if ld_errors l \<noteq> [] then Inl (ld_errors l) else Inr (ld_net l))"

end
