(* ===== verification/Profiles.thy ===== *)
theory Profiles
  imports Coverage
begin

text \<open>
  The profiles of a coverage dataset as they are read (\<^verbatim>\<open>vacs-vatsim/src/coverage/profile.rs\<close>):
  the raw types, the checks of their layout, and the conversion into the profiles sent to the
  clients. The theory shows that the conversion succeeds exactly for the profiles that pass the
  check, loses nothing, and yields profiles with the shape the check asks for, which is less than the protocol
  documents; and how far the check of the stations they refer to goes. The regular expression for sizes, and how a number and a label
  are printed in an error, are parameters.
\<close>

section \<open>Raw profiles\<close>

datatype direct_access_page_raw =
    DirectAccessPageRaw (pager_rows: "8 word") (pager_content: direct_access_page_content_raw)
and direct_access_page_content_raw =
    KeysRaw "direct_access_key_raw list"
  | ClientPageRaw client_page_config
and direct_access_key_raw =
    DirectAccessKeyRaw (keyr_label: "string list") (keyr_color: "custom_button_color option")
      (keyr_station_id: "station_id option") (keyr_page: "direct_access_page_raw option")

record geo_page_button_raw =
  gbr_label :: "string list"
  gbr_size :: f64
  gbr_color :: "custom_button_color option"
  gbr_page :: "direct_access_page_raw option"
  gbr_station_id :: "station_id option"

record geo_page_divider_raw =
  gdr_orientation :: divider_orientation
  gdr_thickness :: f64
  gdr_color :: string
  gdr_oversize :: "f64 option"

text \<open>The fields of a raw container but its children, which make the type recursive.\<close>

record geo_style_raw =
  gsr_height :: "string option"
  gsr_width :: "string option"
  gsr_padding :: "f64 option"
  gsr_padding_left :: "f64 option"
  gsr_padding_right :: "f64 option"
  gsr_padding_top :: "f64 option"
  gsr_padding_bottom :: "f64 option"
  gsr_gap :: "f64 option"
  gsr_justify_content :: "justify_content option"
  gsr_align_items :: "align_items option"
  gsr_direction :: flex_direction

datatype geo_node_raw =
    ContainerRaw geo_page_container_raw
  | ButtonRaw geo_page_button_raw
  | DividerRaw geo_page_divider_raw
and geo_page_container_raw =
    GeoPageContainerRaw (gcr_style: geo_style_raw) (gcr_children: "geo_node_raw list")

record tab_raw =
  tabr_label :: "string list"
  tabr_page :: direct_access_page_raw

datatype profile_type_raw = GeoRaw geo_page_container_raw | TabbedRaw "tab_raw list"

record profile_raw =
  profr_id :: profile_id
  profr_view :: profile_view
  profr_type :: profile_type_raw

section \<open>Checking the layout\<close>

record layout_env =
  le_is_size :: "string \<Rightarrow> bool"
  le_show_f64 :: "f64 \<Rightarrow> string"
  le_show_label :: "string list \<Rightarrow> string"

definition label_lines :: "layout_env \<Rightarrow> string list \<Rightarrow> coverage_error option" where
  "label_lines e label =
     (if length label > 3 then Some (Validation (InvalidValue ''label'' (le_show_label e label) ''cannot have more than 3 lines'')) else None)"

definition station_xor_page :: "station_id option \<Rightarrow> direct_access_page_raw option \<Rightarrow> coverage_error option" where
  "station_xor_page st pg = (if st \<noteq> None \<and> pg \<noteq> None then Some (Validation (MutuallyExclusive [''station_id'', ''page''])) else None)"

fun page_raw_validate :: "layout_env \<Rightarrow> direct_access_page_raw \<Rightarrow> coverage_error option"
and content_raw_validate :: "layout_env \<Rightarrow> direct_access_page_content_raw \<Rightarrow> coverage_error option"
and key_raw_validate :: "layout_env \<Rightarrow> direct_access_key_raw \<Rightarrow> coverage_error option" where
  "page_raw_validate e (DirectAccessPageRaw rows content) =
     (if rows = 0 then Some (Validation (OutOfRange ''rows'' ''0'' ''1'' None)) else content_raw_validate e content)"
| "content_raw_validate e (KeysRaw keys) = first_error (map (key_raw_validate e) keys)"
| "content_raw_validate e (ClientPageRaw config) = None"
| "key_raw_validate e (DirectAccessKeyRaw label color st pg) =
     first_error [label_lines e label, station_xor_page st pg,
                  case pg of Some page \<Rightarrow> page_raw_validate e page | None \<Rightarrow> None]"

definition size_format :: "layout_env \<Rightarrow> string \<Rightarrow> string option \<Rightarrow> coverage_error option" where
  "size_format e field value =
     (case value of
        Some s \<Rightarrow> if le_is_size e s then None else Some (Validation (InvalidFormat field s ''must either be provided as percentage or rem''))
      | None \<Rightarrow> None)"

definition not_negative :: "layout_env \<Rightarrow> string \<Rightarrow> f64 option \<Rightarrow> coverage_error option" where
  "not_negative e field value =
     (case value of
        Some x \<Rightarrow> if f64_lt_zero x then Some (Validation (OutOfRange field (le_show_f64 e x) ''0'' None)) else None
      | None \<Rightarrow> None)"

definition button_raw_validate :: "layout_env \<Rightarrow> geo_page_button_raw \<Rightarrow> coverage_error option" where
  "button_raw_validate e b =
     (if gbr_label b = [] then Some (Validation (Empty ''label''))
      else first_error [label_lines e (gbr_label b), not_negative e ''size'' (Some (gbr_size b)),
                        station_xor_page (gbr_station_id b) (gbr_page b),
                        case gbr_page b of Some page \<Rightarrow> page_raw_validate e page | None \<Rightarrow> None])"

definition divider_raw_validate :: "layout_env \<Rightarrow> geo_page_divider_raw \<Rightarrow> coverage_error option" where
  "divider_raw_validate e d =
     (if f64_le_zero (gdr_thickness d) then Some (Validation (OutOfRange ''thickness'' (le_show_f64 e (gdr_thickness d)) ''0'' None))
      else if gdr_color d = [] then Some (Validation (Empty ''color'')) else None)"

definition style_validate :: "layout_env \<Rightarrow> geo_style_raw \<Rightarrow> coverage_error option" where
  "style_validate e s =
     first_error [size_format e ''height'' (gsr_height s), size_format e ''width'' (gsr_width s),
                  not_negative e ''padding'' (gsr_padding s), not_negative e ''padding_left'' (gsr_padding_left s),
                  not_negative e ''padding_right'' (gsr_padding_right s), not_negative e ''padding_top'' (gsr_padding_top s),
                  not_negative e ''padding_bottom'' (gsr_padding_bottom s), not_negative e ''gap'' (gsr_gap s)]"

fun node_raw_validate :: "layout_env \<Rightarrow> geo_node_raw \<Rightarrow> coverage_error option"
and container_raw_validate :: "layout_env \<Rightarrow> geo_page_container_raw \<Rightarrow> coverage_error option" where
  "node_raw_validate e (ContainerRaw c) = container_raw_validate e c"
| "node_raw_validate e (ButtonRaw b) = button_raw_validate e b"
| "node_raw_validate e (DividerRaw d) = divider_raw_validate e d"
| "container_raw_validate e (GeoPageContainerRaw style children) =
     first_error [style_validate e style,
                  if children = [] then Some (Validation (Empty ''children'')) else None,
                  first_error (map (node_raw_validate e) children)]"

definition tab_raw_validate :: "layout_env \<Rightarrow> tab_raw \<Rightarrow> coverage_error option" where
  "tab_raw_validate e t =
     (if tabr_label t = [] \<or> list_all (\<lambda>s. s = []) (tabr_label t) then Some (Validation (Empty ''label''))
      else first_error [label_lines e (tabr_label t), page_raw_validate e (tabr_page t)])"

fun profile_type_raw_validate :: "layout_env \<Rightarrow> profile_type_raw \<Rightarrow> coverage_error option" where
  "profile_type_raw_validate e (GeoRaw container) = container_raw_validate e container"
| "profile_type_raw_validate e (TabbedRaw tabs) =
     (if tabs = [] then Some (Validation (Empty ''tabs'')) else first_error (map (tab_raw_validate e) tabs))"

definition profile_view_str :: "profile_view \<Rightarrow> string" where
  "profile_view_str v = (case v of Page \<Rightarrow> ''Page'' | Split \<Rightarrow> ''Split'' | Cycle \<Rightarrow> ''Cycle'')"

definition profile_raw_validate :: "layout_env \<Rightarrow> profile_raw \<Rightarrow> coverage_error option" where
  "profile_raw_validate e p =
     (if profile_id_str (profr_id p) = [] then Some (Validation (Empty ''id''))
      else if (case profr_type p of GeoRaw _ \<Rightarrow> True | TabbedRaw _ \<Rightarrow> False) \<and> profr_view p \<noteq> Page
      then Some (Validation (InvalidValue ''view'' (profile_view_str (profr_view p)) ''geo profiles only support the page view''))
      else profile_type_raw_validate e (profr_type p))"

section \<open>Converting\<close>

text \<open>\<^verbatim>\<open>collect\<close> of results stops at the first error.\<close>

fun collect_results :: "('e + 'a) list \<Rightarrow> 'e + 'a list" where
  "collect_results [] = Inr []"
| "collect_results (Inl err # xs) = Inl err"
| "collect_results (Inr x # xs) = (case collect_results xs of Inl err \<Rightarrow> Inl err | Inr ys \<Rightarrow> Inr (x # ys))"

fun transpose_option :: "('e + 'a) option \<Rightarrow> 'e + 'a option" where
  "transpose_option None = Inr None"
| "transpose_option (Some (Inl err)) = Inl err"
| "transpose_option (Some (Inr x)) = Inr (Some x)"

definition checked :: "coverage_error option \<Rightarrow> coverage_error + 'a \<Rightarrow> coverage_error + 'a" where
  "checked check result = (case check of Some err \<Rightarrow> Inl err | None \<Rightarrow> result)"

fun page_from_raw :: "layout_env \<Rightarrow> direct_access_page_raw \<Rightarrow> coverage_error + direct_access_page"
and content_from_raw :: "layout_env \<Rightarrow> direct_access_page_content_raw \<Rightarrow> coverage_error + direct_access_page_content"
and key_from_raw :: "layout_env \<Rightarrow> direct_access_key_raw \<Rightarrow> coverage_error + direct_access_key" where
  "page_from_raw e (DirectAccessPageRaw rows content) =
     map_sum (\<lambda>x. x) (DirectAccessPage rows) (content_from_raw e content)"
| "content_from_raw e (KeysRaw keys) = map_sum (\<lambda>x. x) Keys (collect_results (map (key_from_raw e) keys))"
| "content_from_raw e (ClientPageRaw config) = Inr (ClientPage config)"
| "key_from_raw e (DirectAccessKeyRaw label color st pg) =
     checked (key_raw_validate e (DirectAccessKeyRaw label color st pg))
       (map_sum (\<lambda>x. x) (DirectAccessKey label color st) (transpose_option (map_option (page_from_raw e) pg)))"

definition button_from_raw :: "layout_env \<Rightarrow> geo_page_button_raw \<Rightarrow> coverage_error + geo_page_button" where
  "button_from_raw e b =
     checked (button_raw_validate e b)
       (map_sum (\<lambda>x. x)
          (\<lambda>page. \<lparr>gb_label = gbr_label b, gb_size = gbr_size b, gb_color = gbr_color b, gb_page = page, gb_station_id = gbr_station_id b\<rparr>)
          (transpose_option (map_option (page_from_raw e) (gbr_page b))))"

definition divider_from_raw :: "layout_env \<Rightarrow> geo_page_divider_raw \<Rightarrow> coverage_error + geo_page_divider" where
  "divider_from_raw e d =
     checked (divider_raw_validate e d)
       (Inr \<lparr>gd_orientation = gdr_orientation d, gd_thickness = gdr_thickness d, gd_color = gdr_color d, gd_oversize = gdr_oversize d\<rparr>)"

fun node_from_raw :: "layout_env \<Rightarrow> geo_node_raw \<Rightarrow> coverage_error + geo_node"
and container_from_raw :: "layout_env \<Rightarrow> geo_page_container_raw \<Rightarrow> coverage_error + geo_page_container" where
  "node_from_raw e (ContainerRaw c) = map_sum (\<lambda>x. x) Container (container_from_raw e c)"
| "node_from_raw e (ButtonRaw b) = map_sum (\<lambda>x. x) Button (button_from_raw e b)"
| "node_from_raw e (DividerRaw d) = map_sum (\<lambda>x. x) Divider (divider_from_raw e d)"
| "container_from_raw e (GeoPageContainerRaw raw children) =
     checked (container_raw_validate e (GeoPageContainerRaw raw children))
       (map_sum (\<lambda>x. x)
          (GeoPageContainer
            \<lparr>gs_height = gsr_height raw, gs_width = gsr_width raw, gs_padding = gsr_padding raw,
             gs_padding_left = gsr_padding_left raw, gs_padding_right = gsr_padding_right raw,
             gs_padding_top = gsr_padding_top raw, gs_padding_bottom = gsr_padding_bottom raw, gs_gap = gsr_gap raw,
             gs_justify_content = gsr_justify_content raw, gs_align_items = gsr_align_items raw,
             gs_direction = gsr_direction raw\<rparr>)
          (collect_results (map (node_from_raw e) children)))"

definition tab_from_raw :: "layout_env \<Rightarrow> tab_raw \<Rightarrow> coverage_error + tab" where
  "tab_from_raw e t =
     checked (tab_raw_validate e t)
       (map_sum (\<lambda>x. x) (\<lambda>page. \<lparr>tab_label = tabr_label t, tab_page = page\<rparr>) (page_from_raw e (tabr_page t)))"

fun profile_type_from_raw :: "layout_env \<Rightarrow> profile_type_raw \<Rightarrow> coverage_error + profile_type" where
  "profile_type_from_raw e (GeoRaw container) = map_sum (\<lambda>x. x) Geo (container_from_raw e container)"
| "profile_type_from_raw e (TabbedRaw tabs) = map_sum (\<lambda>x. x) Tabbed (collect_results (map (tab_from_raw e) tabs))"

definition profile_from_raw :: "layout_env \<Rightarrow> profile_raw \<Rightarrow> coverage_error + profile" where
  "profile_from_raw e p =
     checked (profile_raw_validate e p)
       (map_sum (\<lambda>x. x)
          (\<lambda>pt. \<lparr>prof_id = profr_id p, prof_view = profr_view p, prof_type = pt, prof_relevant_station_ids = collect_station_ids pt\<rparr>)
          (profile_type_from_raw e (profr_type p)))"

text \<open>
  The profiles of a region: \<open>file\<close> is what reading and parsing the file \<^verbatim>\<open>profile\<close> gave, \<open>entries\<close> the files
  of the directory \<^verbatim>\<open>profiles\<close> in the order they are listed.
\<close>

definition insert_profile :: "profile \<Rightarrow> (profile_id, profile) hash_map \<Rightarrow> (profile_id, profile) hash_map" where
  "insert_profile p = hm_insert (prof_id p) p"

fun read_entries ::
  "layout_env \<Rightarrow> (coverage_error + profile_raw) list \<Rightarrow> (profile_id, profile) hash_map \<Rightarrow> coverage_error + (profile_id, profile) hash_map" where
  "read_entries e [] profiles = Inr profiles"
| "read_entries e (Inl err # entries) profiles = Inl err"
| "read_entries e (Inr raw # entries) profiles =
     (case profile_from_raw e raw of Inl err \<Rightarrow> Inl err | Inr p \<Rightarrow> read_entries e entries (insert_profile p profiles))"

definition read_profiles ::
  "layout_env \<Rightarrow> coverage_error + profile_raw \<Rightarrow> (coverage_error + profile_raw) list \<Rightarrow> coverage_error + (profile_id, profile) hash_map" where
  "read_profiles e file entries =
     (case file of
        Inl _ \<Rightarrow> read_entries e entries []
      | Inr raw \<Rightarrow>
          (case profile_from_raw e raw of Inl err \<Rightarrow> Inl err | Inr p \<Rightarrow> read_entries e entries (insert_profile p [])))"

section \<open>The conversion loses nothing and checks everything\<close>

text \<open>The profile a raw profile describes, without any check.\<close>

fun page_of_raw :: "direct_access_page_raw \<Rightarrow> direct_access_page"
and content_of_raw :: "direct_access_page_content_raw \<Rightarrow> direct_access_page_content"
and key_of_raw :: "direct_access_key_raw \<Rightarrow> direct_access_key" where
  "page_of_raw (DirectAccessPageRaw rows content) = DirectAccessPage rows (content_of_raw content)"
| "content_of_raw (KeysRaw keys) = Keys (map key_of_raw keys)"
| "content_of_raw (ClientPageRaw config) = ClientPage config"
| "key_of_raw (DirectAccessKeyRaw label color st pg) = DirectAccessKey label color st (map_option page_of_raw pg)"

definition button_of_raw :: "geo_page_button_raw \<Rightarrow> geo_page_button" where
  "button_of_raw b =
     \<lparr>gb_label = gbr_label b, gb_size = gbr_size b, gb_color = gbr_color b, gb_page = map_option page_of_raw (gbr_page b),
      gb_station_id = gbr_station_id b\<rparr>"

definition divider_of_raw :: "geo_page_divider_raw \<Rightarrow> geo_page_divider" where
  "divider_of_raw d =
     \<lparr>gd_orientation = gdr_orientation d, gd_thickness = gdr_thickness d, gd_color = gdr_color d, gd_oversize = gdr_oversize d\<rparr>"

definition style_of_raw :: "geo_style_raw \<Rightarrow> geo_style" where
  "style_of_raw s =
     \<lparr>gs_height = gsr_height s, gs_width = gsr_width s, gs_padding = gsr_padding s,
      gs_padding_left = gsr_padding_left s, gs_padding_right = gsr_padding_right s,
      gs_padding_top = gsr_padding_top s, gs_padding_bottom = gsr_padding_bottom s, gs_gap = gsr_gap s,
      gs_justify_content = gsr_justify_content s, gs_align_items = gsr_align_items s, gs_direction = gsr_direction s\<rparr>"

fun node_of_raw :: "geo_node_raw \<Rightarrow> geo_node"
and container_of_raw :: "geo_page_container_raw \<Rightarrow> geo_page_container" where
  "node_of_raw (ContainerRaw c) = Container (container_of_raw c)"
| "node_of_raw (ButtonRaw b) = Button (button_of_raw b)"
| "node_of_raw (DividerRaw d) = Divider (divider_of_raw d)"
| "container_of_raw (GeoPageContainerRaw style children) = GeoPageContainer (style_of_raw style) (map node_of_raw children)"

definition tab_of_raw :: "tab_raw \<Rightarrow> tab" where
  "tab_of_raw t = \<lparr>tab_label = tabr_label t, tab_page = page_of_raw (tabr_page t)\<rparr>"

fun profile_type_of_raw :: "profile_type_raw \<Rightarrow> profile_type" where
  "profile_type_of_raw (GeoRaw container) = Geo (container_of_raw container)"
| "profile_type_of_raw (TabbedRaw tabs) = Tabbed (map tab_of_raw tabs)"

lemma first_error_None: "first_error es = None \<longleftrightarrow> set es \<subseteq> {None}"
  by (induction es rule: first_error.induct) auto

lemma first_error_map_None: "first_error (map f xs) = None \<longleftrightarrow> (\<forall>x \<in> set xs. f x = None)"
  by (auto simp: first_error_None)

lemma collect_results_Inr: "(\<And>x. x \<in> set xs \<Longrightarrow> f x = Inr (g x)) \<Longrightarrow> collect_results (map f xs) = Inr (map g xs)"
  by (induction xs) simp_all

lemma page_from_raw_ok:
  "page_raw_validate e page = None \<Longrightarrow> page_from_raw e page = Inr (page_of_raw page)"
  "content_raw_validate e content = None \<Longrightarrow> content_from_raw e content = Inr (content_of_raw content)"
  "key_raw_validate e key = None \<Longrightarrow> key_from_raw e key = Inr (key_of_raw key)"
proof (induction e page and e content and e key rule: page_from_raw_content_from_raw_key_from_raw.induct)
  case (2 e keys)
  then show ?case by (simp add: first_error_map_None collect_results_Inr)
next
  case (4 e label color st pg)
  then show ?case by (cases pg) (simp_all add: checked_def first_error_None)
qed (simp_all split: if_splits)

lemma button_from_raw_ok: "button_raw_validate e b = None \<Longrightarrow> button_from_raw e b = Inr (button_of_raw b)"
  using page_from_raw_ok(1) [of e]
  by (cases "gbr_page b") (simp_all add: button_from_raw_def button_of_raw_def checked_def, simp add: button_raw_validate_def first_error_None split: if_splits)

lemma node_from_raw_ok:
  "node_raw_validate e node = None \<Longrightarrow> node_from_raw e node = Inr (node_of_raw node)"
  "container_raw_validate e container = None \<Longrightarrow> container_from_raw e container = Inr (container_of_raw container)"
proof (induction e node and e container rule: node_from_raw_container_from_raw.induct)
  case (4 e style children)
  from 4(2) have "\<forall>n \<in> set children. node_raw_validate e n = None" by (simp add: first_error_None image_subset_iff)
  with 4 show ?case by (simp add: checked_def collect_results_Inr style_of_raw_def)
qed (simp_all add: button_from_raw_ok divider_from_raw_def divider_of_raw_def checked_def)

lemma tab_from_raw_ok: "tab_raw_validate e t = None \<Longrightarrow> tab_from_raw e t = Inr (tab_of_raw t)"
  using page_from_raw_ok(1) [of e "tabr_page t"]
  by (simp add: tab_from_raw_def tab_of_raw_def checked_def) (simp add: tab_raw_validate_def first_error_None split: if_splits)

lemma profile_type_from_raw_ok:
  "profile_type_raw_validate e pt = None \<Longrightarrow> profile_type_from_raw e pt = Inr (profile_type_of_raw pt)"
  by (cases pt) (simp_all add: node_from_raw_ok first_error_map_None collect_results_Inr tab_from_raw_ok split: if_splits)

text \<open>
  Converting a raw profile fails exactly with the error of its check, and otherwise gives exactly the
  profile the raw one describes: the checks that are repeated at every level of the conversion add
  nothing, and the check of the whole misses nothing they would find. The relevant stations are
  those the profile mentions anywhere.
\<close>

theorem profile_from_raw_exact:
  "profile_from_raw e raw =
     (case profile_raw_validate e raw of
        Some err \<Rightarrow> Inl err
      | None \<Rightarrow>
          Inr \<lparr>prof_id = profr_id raw, prof_view = profr_view raw, prof_type = profile_type_of_raw (profr_type raw),
               prof_relevant_station_ids = collect_station_ids (profile_type_of_raw (profr_type raw))\<rparr>)"
proof (cases "profile_raw_validate e raw")
  case None
  then have "profile_type_raw_validate e (profr_type raw) = None" by (simp add: profile_raw_validate_def split: if_splits)
  from profile_type_from_raw_ok [OF this] None show ?thesis by (simp add: profile_from_raw_def checked_def)
qed (simp add: profile_from_raw_def checked_def)

section \<open>The shape of a loaded profile\<close>

text \<open>What the loader asks of the pages and their keys, at every level.\<close>

fun page_shape :: "direct_access_page \<Rightarrow> bool"
and content_shape :: "direct_access_page_content \<Rightarrow> bool"
and key_shape :: "direct_access_key \<Rightarrow> bool" where
  "page_shape (DirectAccessPage rows content) \<longleftrightarrow> 0 < rows \<and> content_shape content"
| "content_shape (Keys keys) \<longleftrightarrow> list_all key_shape keys"
| "content_shape (ClientPage config) \<longleftrightarrow> True"
| "key_shape (DirectAccessKey label color st pg) \<longleftrightarrow>
     length label \<le> 3 \<and> (st = None \<or> pg = None) \<and> (case pg of Some page \<Rightarrow> page_shape page | None \<Rightarrow> True)"

definition button_shape :: "geo_page_button \<Rightarrow> bool" where
  "button_shape b \<longleftrightarrow>
     gb_label b \<noteq> [] \<and> length (gb_label b) \<le> 3 \<and> \<not> f64_lt_zero (gb_size b) \<and> (gb_station_id b = None \<or> gb_page b = None) \<and>
     (case gb_page b of Some page \<Rightarrow> page_shape page | None \<Rightarrow> True)"

definition style_shape :: "(string \<Rightarrow> bool) \<Rightarrow> geo_style \<Rightarrow> bool" where
  "style_shape is_size s \<longleftrightarrow>
     pred_option is_size (gs_height s) \<and> pred_option is_size (gs_width s) \<and>
     list_all (pred_option (\<lambda>x. \<not> f64_lt_zero x))
       [gs_padding s, gs_padding_left s, gs_padding_right s, gs_padding_top s, gs_padding_bottom s, gs_gap s]"

fun node_shape :: "(string \<Rightarrow> bool) \<Rightarrow> geo_node \<Rightarrow> bool"
and container_shape :: "(string \<Rightarrow> bool) \<Rightarrow> geo_page_container \<Rightarrow> bool" where
  "node_shape is_size (Container c) \<longleftrightarrow> container_shape is_size c"
| "node_shape is_size (Button b) \<longleftrightarrow> button_shape b"
| "node_shape is_size (Divider d) \<longleftrightarrow> \<not> f64_le_zero (gd_thickness d) \<and> gd_color d \<noteq> []"
| "container_shape is_size (GeoPageContainer style children) \<longleftrightarrow>
     style_shape is_size style \<and> children \<noteq> [] \<and> list_all (node_shape is_size) children"

definition tab_shape :: "tab \<Rightarrow> bool" where
  "tab_shape t \<longleftrightarrow> list_ex (\<lambda>s. s \<noteq> []) (tab_label t) \<and> length (tab_label t) \<le> 3 \<and> page_shape (tab_page t)"

definition profile_shape :: "(string \<Rightarrow> bool) \<Rightarrow> profile \<Rightarrow> bool" where
  "profile_shape is_size p \<longleftrightarrow>
     profile_id_str (prof_id p) \<noteq> [] \<and>
     (case prof_type p of
        Geo container \<Rightarrow> prof_view p = Page \<and> container_shape is_size container
      | Tabbed tabs \<Rightarrow> tabs \<noteq> [] \<and> list_all tab_shape tabs)"

lemma label_lines_None [simp]: "label_lines e label = None \<longleftrightarrow> length label \<le> 3"
  by (simp add: label_lines_def)

lemma station_xor_page_None [simp]: "station_xor_page st pg = None \<longleftrightarrow> st = None \<or> pg = None"
  by (simp add: station_xor_page_def)

lemma not_negative_None [simp]: "not_negative e field v = None \<longleftrightarrow> pred_option (\<lambda>x. \<not> f64_lt_zero x) v"
  by (cases v) (simp_all add: not_negative_def)

lemma size_format_None [simp]: "size_format e field v = None \<longleftrightarrow> pred_option (le_is_size e) v"
  by (cases v) (simp_all add: size_format_def)

lemma page_validate_shape:
  "page_raw_validate e page = None \<longleftrightarrow> page_shape (page_of_raw page)"
  "content_raw_validate e content = None \<longleftrightarrow> content_shape (content_of_raw content)"
  "key_raw_validate e key = None \<longleftrightarrow> key_shape (key_of_raw key)"
proof (induction e page and e content and e key rule: page_from_raw_content_from_raw_key_from_raw.induct)
  case (2 e keys)
  then show ?case by (auto simp: first_error_map_None list_all_iff)
next
  case (4 e label color st pg)
  then show ?case by (cases pg) (auto simp: first_error_None)
qed (auto simp: word_neq_0_conv)

lemma node_validate_shape:
  "node_raw_validate e node = None \<longleftrightarrow> node_shape (le_is_size e) (node_of_raw node)"
  "container_raw_validate e container = None \<longleftrightarrow> container_shape (le_is_size e) (container_of_raw container)"
proof (induction e node and e container rule: node_from_raw_container_from_raw.induct)
  case (2 e b)
  show ?case
    using page_validate_shape(1) [of e]
    by (cases "gbr_page b") (auto simp: button_raw_validate_def button_shape_def button_of_raw_def first_error_None)
next
  case (3 e d)
  show ?case by (auto simp: divider_raw_validate_def divider_of_raw_def)
next
  case (4 e style children)
  then show ?case by (auto simp: first_error_None first_error_map_None style_validate_def style_shape_def style_of_raw_def list_all_iff)
qed simp

lemma tab_validate_shape: "tab_raw_validate e t = None \<longleftrightarrow> tab_shape (tab_of_raw t)"
  using page_validate_shape(1) [of e "tabr_page t"]
  by (auto simp: tab_raw_validate_def tab_shape_def tab_of_raw_def first_error_None list_all_iff list_ex_iff)

lemma type_validate_shape:
  "profile_type_raw_validate e pt = None \<longleftrightarrow>
     (case profile_type_of_raw pt of
        Geo container \<Rightarrow> container_shape (le_is_size e) container
      | Tabbed tabs \<Rightarrow> tabs \<noteq> [] \<and> list_all tab_shape tabs)"
  by (cases pt) (auto simp: node_validate_shape first_error_map_None tab_validate_shape list_all_iff)

definition profile_of_raw :: "profile_raw \<Rightarrow> profile" where
  "profile_of_raw raw =
     \<lparr>prof_id = profr_id raw, prof_view = profr_view raw, prof_type = profile_type_of_raw (profr_type raw),
      prof_relevant_station_ids = collect_station_ids (profile_type_of_raw (profr_type raw))\<rparr>"

lemma validate_shape: "profile_raw_validate e raw = None \<longleftrightarrow> profile_shape (le_is_size e) (profile_of_raw raw)"
  using type_validate_shape [of e "profr_type raw"]
  by (cases "profr_type raw") (auto simp: profile_raw_validate_def profile_shape_def profile_of_raw_def)

lemma profile_loaded:
  "profile_from_raw e raw = Inr p \<longleftrightarrow> p = profile_of_raw raw \<and> profile_shape (le_is_size e) p"
  unfolding profile_from_raw_exact using validate_shape [of e raw]
  by (cases "profile_raw_validate e raw") (auto simp: profile_of_raw_def)


text \<open>The raw profile that describes a profile.\<close>

fun raw_of_page :: "direct_access_page \<Rightarrow> direct_access_page_raw"
and raw_of_content :: "direct_access_page_content \<Rightarrow> direct_access_page_content_raw"
and raw_of_key :: "direct_access_key \<Rightarrow> direct_access_key_raw" where
  "raw_of_page (DirectAccessPage rows content) = DirectAccessPageRaw rows (raw_of_content content)"
| "raw_of_content (Keys keys) = KeysRaw (map raw_of_key keys)"
| "raw_of_content (ClientPage config) = ClientPageRaw config"
| "raw_of_key (DirectAccessKey label color st pg) = DirectAccessKeyRaw label color st (map_option raw_of_page pg)"

definition raw_of_button :: "geo_page_button \<Rightarrow> geo_page_button_raw" where
  "raw_of_button b =
     \<lparr>gbr_label = gb_label b, gbr_size = gb_size b, gbr_color = gb_color b, gbr_page = map_option raw_of_page (gb_page b),
      gbr_station_id = gb_station_id b\<rparr>"

definition raw_of_divider :: "geo_page_divider \<Rightarrow> geo_page_divider_raw" where
  "raw_of_divider d =
     \<lparr>gdr_orientation = gd_orientation d, gdr_thickness = gd_thickness d, gdr_color = gd_color d, gdr_oversize = gd_oversize d\<rparr>"

definition raw_of_style :: "geo_style \<Rightarrow> geo_style_raw" where
  "raw_of_style s =
     \<lparr>gsr_height = gs_height s, gsr_width = gs_width s, gsr_padding = gs_padding s,
      gsr_padding_left = gs_padding_left s, gsr_padding_right = gs_padding_right s,
      gsr_padding_top = gs_padding_top s, gsr_padding_bottom = gs_padding_bottom s, gsr_gap = gs_gap s,
      gsr_justify_content = gs_justify_content s, gsr_align_items = gs_align_items s, gsr_direction = gs_direction s\<rparr>"

fun raw_of_node :: "geo_node \<Rightarrow> geo_node_raw"
and raw_of_container :: "geo_page_container \<Rightarrow> geo_page_container_raw" where
  "raw_of_node (Container c) = ContainerRaw (raw_of_container c)"
| "raw_of_node (Button b) = ButtonRaw (raw_of_button b)"
| "raw_of_node (Divider d) = DividerRaw (raw_of_divider d)"
| "raw_of_container (GeoPageContainer style children) = GeoPageContainerRaw (raw_of_style style) (map raw_of_node children)"

definition raw_of_tab :: "tab \<Rightarrow> tab_raw" where
  "raw_of_tab t = \<lparr>tabr_label = tab_label t, tabr_page = raw_of_page (tab_page t)\<rparr>"

fun raw_of_type :: "profile_type \<Rightarrow> profile_type_raw" where
  "raw_of_type (Geo container) = GeoRaw (raw_of_container container)"
| "raw_of_type (Tabbed tabs) = TabbedRaw (map raw_of_tab tabs)"

definition raw_of_profile :: "profile \<Rightarrow> profile_raw" where
  "raw_of_profile p = \<lparr>profr_id = prof_id p, profr_view = prof_view p, profr_type = raw_of_type (prof_type p)\<rparr>"

lemma raw_of_page_of_raw [simp]:
  "raw_of_page (page_of_raw page) = page" "raw_of_content (content_of_raw content) = content" "raw_of_key (key_of_raw key) = key"
proof (induction page and content and key rule: page_of_raw_content_of_raw_key_of_raw.induct)
  case (4 label color st pg)
  then show ?case by (cases pg) simp_all
qed (simp_all add: map_idI)

lemma page_of_raw_of_page [simp]:
  "page_of_raw (raw_of_page page) = page" "content_of_raw (raw_of_content content) = content" "key_of_raw (raw_of_key key) = key"
proof (induction page and content and key rule: raw_of_page_raw_of_content_raw_of_key.induct)
  case (4 label color st pg)
  then show ?case by (cases pg) simp_all
qed (simp_all add: map_idI)

lemma raw_of_button_of_raw [simp]: "raw_of_button (button_of_raw b) = b" "button_of_raw (raw_of_button b') = b'"
  by (simp_all add: raw_of_button_def button_of_raw_def option.map_comp comp_def option.map_ident)

lemma raw_of_style_of_raw [simp]: "raw_of_style (style_of_raw s) = s" "style_of_raw (raw_of_style s') = s'"
  by (simp_all add: raw_of_style_def style_of_raw_def)

lemma raw_of_node_of_raw [simp]:
  "raw_of_node (node_of_raw node) = node" "raw_of_container (container_of_raw container) = container"
  by (induction node and container rule: node_of_raw_container_of_raw.induct)
    (simp_all add: raw_of_divider_def divider_of_raw_def map_idI)

lemma node_of_raw_of_node [simp]:
  "node_of_raw (raw_of_node node) = node" "container_of_raw (raw_of_container container) = container"
  by (induction node and container rule: raw_of_node_raw_of_container.induct)
    (simp_all add: raw_of_divider_def divider_of_raw_def map_idI)

lemma raw_of_type_of_raw [simp]: "raw_of_type (profile_type_of_raw pt) = pt" "profile_type_of_raw (raw_of_type pt') = pt'"
  by (cases pt; simp add: raw_of_tab_def tab_of_raw_def map_idI) (cases pt'; simp add: raw_of_tab_def tab_of_raw_def map_idI)

text \<open>
  C40: Nothing of a file is lost, swapped or mixed up: from a loaded profile the raw profile can be read
  back, every field of every container, button, divider, tab, page and key included; and a profile of the shape
  the loader checks, with its relevant stations, is loaded from the raw profile that describes it.
\<close>

theorem profile_roundtrip:
  "(profile_from_raw e raw = Inr p \<longrightarrow> raw_of_profile p = raw) \<and>
   (profile_shape (le_is_size e) q \<and> prof_relevant_station_ids q = collect_station_ids (prof_type q) \<longrightarrow>
      profile_from_raw e (raw_of_profile q) = Inr q)"
  by (auto simp: profile_loaded raw_of_profile_def profile_of_raw_def)

definition demo_layout :: layout_env where
  "demo_layout = \<lparr>le_is_size = (\<lambda>s. s = ''100%''), le_show_f64 = (\<lambda>_. []), le_show_label = concat\<rparr>"

definition demo_profile :: profile where
  "demo_profile =
     \<lparr>prof_id = ProfileId ''LOWW'', prof_view = Split,
      prof_type = Tabbed [\<lparr>tab_label = [''TWR''], tab_page = DirectAccessPage 6 (Keys
        [DirectAccessKey [''LOWW'', ''TWR''] None (Some (StationId ''LOWW_TWR'')) None])\<rparr>],
      prof_relevant_station_ids = [StationId ''LOWW_TWR'']\<rparr>"

definition demo_geo_profile :: profile where
  "demo_geo_profile =
     \<lparr>prof_id = ProfileId ''LOVV'', prof_view = Page,
      prof_type = Geo (GeoPageContainer
        \<lparr>gs_height = Some ''100%'', gs_width = None, gs_padding = Some (Finite 1 0), gs_padding_left = Some (Finite 2 0),
         gs_padding_right = Some (Finite 3 0), gs_padding_top = Some (Finite 4 0), gs_padding_bottom = Some (Finite 5 0),
         gs_gap = Some (Finite 6 0), gs_justify_content = Some SpaceBetween, gs_align_items = Some AlignEnd, gs_direction = Col\<rparr>
        [Button \<lparr>gb_label = [''APP''], gb_size = Finite 2 0, gb_color = None, gb_page = None, gb_station_id = Some (StationId ''LOWW_APP'')\<rparr>]),
      prof_relevant_station_ids = [StationId ''LOWW_APP'']\<rparr>"

theorem profile_roundtrip_witness:
  "profile_from_raw demo_layout (raw_of_profile demo_profile) = Inr demo_profile \<and>
   profile_from_raw demo_layout (raw_of_profile demo_geo_profile) = Inr demo_geo_profile"
proof -
  have "profile_shape (le_is_size demo_layout) demo_profile"
    "prof_relevant_station_ids demo_profile = collect_station_ids (prof_type demo_profile)"
    by code_simp+
  moreover have "profile_shape (le_is_size demo_layout) demo_geo_profile"
    by (simp add: profile_shape_def demo_geo_profile_def demo_layout_def style_shape_def button_shape_def f64_lt_zero_def)
  moreover have "prof_relevant_station_ids demo_geo_profile = collect_station_ids (prof_type demo_geo_profile)" by code_simp
  ultimately show ?thesis
    using profile_roundtrip [of demo_layout _ _ demo_profile] profile_roundtrip [of demo_layout _ _ demo_geo_profile] by blast
qed

section \<open>Profiles whose shape the protocol rules out\<close>

text \<open>
  The protocol documents more than is checked: a button is larger than zero, the keys of a page are
  not empty, the oversize of a divider is positive. A page with a button of size zero that opens an empty
  page of keys, and a divider whose thickness is not a number and whose oversize is negative, are loaded.
\<close>

definition odd_profile :: profile_raw where
  "odd_profile =
     \<lparr>profr_id = ProfileId ''LOWW'', profr_view = Page,
      profr_type = GeoRaw (GeoPageContainerRaw
        \<lparr>gsr_height = None, gsr_width = None, gsr_padding = None, gsr_padding_left = None, gsr_padding_right = None, gsr_padding_top = None,
         gsr_padding_bottom = None, gsr_gap = None, gsr_justify_content = None, gsr_align_items = None, gsr_direction = Row\<rparr>
        [ButtonRaw \<lparr>gbr_label = [''TWR''], gbr_size = Finite 0 0, gbr_color = None, gbr_page = Some (DirectAccessPageRaw 1 (KeysRaw [])),
           gbr_station_id = None\<rparr>,
         DividerRaw \<lparr>gdr_orientation = Horizontal, gdr_thickness = NaN, gdr_color = ''red'', gdr_oversize = Some (Finite (- 1) 0)\<rparr>])\<rparr>"

theorem odd_profile_loaded: "profile_from_raw e odd_profile = Inr (profile_of_raw odd_profile)"
  by (simp add: profile_loaded profile_of_raw_def profile_shape_def odd_profile_def button_of_raw_def button_shape_def
      divider_of_raw_def style_shape_def style_of_raw_def f64_lt_zero_def f64_le_zero_def)

section \<open>Reference checks of profiles\<close>

text \<open>
  The reference check of a profile does not look into the pages behind direct access keys: this
  profile passes the check against an empty set of stations, yet a station is relevant to it.
\<close>

definition station_key :: "string \<Rightarrow> direct_access_key" where
  "station_key s = DirectAccessKey [s] None (Some (StationId s)) None"

definition nested_profile :: profile_type where
  "nested_profile =
     Tabbed [\<lparr>tab_label = [''TWR''], tab_page = DirectAccessPage 6 (Keys
       [DirectAccessKey [''more''] None None (Some (DirectAccessPage 6 (Keys [station_key ''LOWW_TWR''])))])\<rparr>]"

theorem nested_page_unchecked:
  "validate_profile_type {} nested_profile = None \<and> collect_station_ids nested_profile = [StationId ''LOWW_TWR'']"
  by (simp add: nested_profile_def station_key_def validate_page_def validate_key_def check_station_def hs_collect_def hs_extend_def
      hs_insert_def)

text \<open>A page whose keys open no further page.\<close>

fun flat_content :: "direct_access_page_content \<Rightarrow> bool" where
  "flat_content (Keys keys) = list_all (\<lambda>k. key_page k = None) keys"
| "flat_content (ClientPage config) = True"

definition flat_page :: "direct_access_page \<Rightarrow> bool" where
  "flat_page page = flat_content (page_content page)"

fun flat_node :: "geo_node \<Rightarrow> bool"
and flat_container :: "geo_page_container \<Rightarrow> bool" where
  "flat_node (Container c) = flat_container c"
| "flat_node (Button b) = pred_option flat_page (gb_page b)"
| "flat_node (Divider d) = True"
| "flat_container (GeoPageContainer style children) = list_all flat_node children"

fun flat_profile :: "profile_type \<Rightarrow> bool" where
  "flat_profile (Geo container) = flat_container container"
| "flat_profile (Tabbed tabs) = list_all (flat_page \<circ> tab_page) tabs"

lemma first_error_subset:
  assumes "\<And>x. x \<in> set xs \<Longrightarrow> f x = None \<longleftrightarrow> set (g x) \<subseteq> sts"
  shows "first_error (map f xs) = None \<longleftrightarrow> set (concat (map g xs)) \<subseteq> sts"
  using assms by (auto simp: first_error_map_None)

lemma validate_key_flat: "key_page k = None \<Longrightarrow> validate_key sts k = None \<longleftrightarrow> set (collect_key k) \<subseteq> sts"
  by (cases k) (simp add: validate_key_def check_station_def split: option.split)

lemma validate_page_flat:
  assumes "flat_page pg"
  shows "validate_page sts pg = None \<longleftrightarrow> set (collect_page pg) \<subseteq> sts"
proof (cases pg)
  case (DirectAccessPage rows content)
  show ?thesis
  proof (cases content)
    case (Keys keys)
    have "validate_key sts k = None \<longleftrightarrow> set (collect_key k) \<subseteq> sts" if "k \<in> set keys" for k
      using that assms DirectAccessPage Keys by (simp add: flat_page_def list_all_iff validate_key_flat)
    then show ?thesis using DirectAccessPage Keys first_error_subset [of keys "validate_key sts" collect_key sts] by (simp add: validate_page_def)
  qed (simp add: DirectAccessPage validate_page_def)
qed

lemma validate_node_flat:
  "flat_node n \<Longrightarrow> validate_node sts n = None \<longleftrightarrow> set (collect_node n) \<subseteq> sts"
  "flat_container c \<Longrightarrow> validate_container sts c = None \<longleftrightarrow> set (collect_container c) \<subseteq> sts"
proof (induction n and c rule: flat_node_flat_container.induct)
  case (2 b)
  then show ?case
    using validate_page_flat [of _ sts]
    by (cases "gb_page b") (auto simp: validate_button_def collect_button_def first_error_None check_station_def split: option.splits)
next
  case (4 style children)
  then show ?case using first_error_subset [of children "validate_node sts" collect_node sts] by (simp add: list_all_iff)
qed simp_all

text \<open>
  For profiles without such nested pages the check is complete: it passes exactly when every
  station the profile mentions exists.
\<close>

theorem flat_profile_check_complete:
  assumes "flat_profile pt"
  shows "validate_profile_type sts pt = None \<longleftrightarrow> set (collect_station_ids pt) \<subseteq> sts"
proof (cases pt)
  case (Geo container)
  with assms validate_node_flat(2) [of container sts] show ?thesis by simp
next
  case (Tabbed tabs)
  with assms first_error_subset [of tabs "validate_page sts \<circ> tab_page" "collect_page \<circ> tab_page" sts] show ?thesis
    by (simp add: list_all_iff validate_page_flat)
qed

theorem flat_profile_check_complete_witness:
  "validate_profile_type {StationId ''S''} (Tabbed [\<lparr>tab_label = [''S''], tab_page = DirectAccessPage 6 (Keys [station_key ''S''])\<rparr>]) = None"
proof -
  have "flat_profile (Tabbed [\<lparr>tab_label = [''S''], tab_page = DirectAccessPage 6 (Keys [station_key ''S''])\<rparr>])"
    by (simp add: flat_page_def station_key_def)
  from flat_profile_check_complete [OF this, of "{StationId ''S''}"] show ?thesis
    by (simp add: station_key_def hs_collect_def hs_extend_def hs_insert_def)
qed

end
