(* ===== verification/Network.thy ===== *)
theory Network
  imports Coverage "HOL-Library.Sublist"
begin

text \<open>
  The queries of \<^verbatim>\<open>vacs-vatsim/src/coverage/network.rs\<close> and their correctness: which
  position controls a station, how the coverage changes when positions come and go, which positions
  a controller may work, which stations a profile shows. A network built without errors satisfies
  \<open>network_wf\<close>; in such a network the incremental coverage difference is exactly the set of
  stations whose controlling position changed.
\<close>

section \<open>Station changes in order\<close>

text \<open>The derived order compares the variants first, then the fields from left to right.\<close>

fun station_change_key :: "station_change \<Rightarrow> nat \<times> station_id \<times> position_id list" where
  "station_change_key (Online s p) = (0, s, [p])"
| "station_change_key (Handoff s p q) = (1, s, [p, q])"
| "station_change_key (Offline s) = (2, s, [])"

lemma station_change_key_inj: "station_change_key a = station_change_key b \<Longrightarrow> a = b"
  by (cases a; cases b) auto

instantiation station_change :: linorder
begin

definition less_eq_station_change :: "station_change \<Rightarrow> station_change \<Rightarrow> bool" where
  "less_eq_station_change a b \<longleftrightarrow> station_change_key a \<le> station_change_key b"

definition less_station_change :: "station_change \<Rightarrow> station_change \<Rightarrow> bool" where
  "less_station_change a b \<longleftrightarrow> station_change_key a < station_change_key b"

instance
  by standard (auto simp: less_eq_station_change_def less_station_change_def dest: antisym intro: station_change_key_inj)

end

section \<open>Queries\<close>

datatype relevant_stations = AllStations | Subset "station_id hash_set" | NoStations

record covered_station =
  cov_station :: station
  cov_is_self_controlled :: bool

definition get_profile :: "network \<Rightarrow> profile_id \<Rightarrow> profile option" where
  "get_profile net profile_id = hm_get (net_profiles net) profile_id"

definition get_position :: "network \<Rightarrow> position_id \<Rightarrow> position option" where
  "get_position net position_id = hm_get (net_positions net) position_id"

text \<open>\<^verbatim>\<open>str::replace("__", "_")\<close>: non-overlapping occurrences from the left.\<close>

fun replace_relief :: "string \<Rightarrow> string" where
  "replace_relief (c # d # s) =
     (if c = CHR ''_'' \<and> d = CHR ''_'' then CHR ''_'' # replace_relief s else c # replace_relief (d # s))"
| "replace_relief s = s"

definition find_positions :: "network \<Rightarrow> string \<Rightarrow> string \<Rightarrow> facility_type \<Rightarrow> position list" where
  "find_positions net callsign0 frequency facility_type =
     (let callsign = to_ascii_uppercase (replace_relief callsign0);
          exact = (case hm_get (net_positions net) (PositionId callsign) of
                     Some position \<Rightarrow>
                       if pos_frequency position = frequency \<and> pos_facility_type position = facility_type
                       then Some position else None
                   | None \<Rightarrow> None)
      in case exact of
           Some position \<Rightarrow> [position]
         | None \<Rightarrow>
             sort_key pos_id
               (filter (\<lambda>p. pos_frequency p = frequency \<and> pos_facility_type p = facility_type \<and>
                          list_ex (\<lambda>pre. prefix pre callsign) (pos_prefixes p))
                  (hm_values (net_positions net))))"

fun find_map :: "('a \<Rightarrow> 'b option) \<Rightarrow> 'a list \<Rightarrow> 'b option" where
  "find_map f [] = None"
| "find_map f (x # xs) = (case f x of Some y \<Rightarrow> Some y | None \<Rightarrow> find_map f xs)"

definition controlling_position :: "network \<Rightarrow> station_id \<Rightarrow> position_id set \<Rightarrow> position option" where
  "controlling_position net station_id online_positions =
     (case hm_get (net_stations net) station_id of
        None \<Rightarrow> None
      | Some station \<Rightarrow>
          find_map (\<lambda>pos_id. if pos_id \<in> online_positions then hm_get (net_positions net) pos_id else None)
            (st_controlled_by station))"

definition covered_stations :: "network \<Rightarrow> position_id option \<Rightarrow> position_id set \<Rightarrow> covered_station list" where
  "covered_stations net client_position_id online_positions =
     sort_key (\<lambda>c. st_id (cov_station c))
       (List.map_filter (\<lambda>station.
          map_option (\<lambda>position.
              \<lparr>cov_station = station, cov_is_self_controlled = (client_position_id = Some (pos_id position))\<rparr>)
            (controlling_position net (st_id station) online_positions))
          (hm_values (net_stations net)))"

text \<open>Positions are compared by their id (\<^verbatim>\<open>PartialEq for Position\<close>).\<close>

definition station_change_between :: "station_id \<Rightarrow> position option \<Rightarrow> position option \<Rightarrow> station_change option" where
  "station_change_between s before after =
     (if map_option pos_id before = map_option pos_id after then None
      else case (before, after) of
             (None, Some new_pos) \<Rightarrow> Some (Online s (pos_id new_pos))
           | (Some old_pos, None) \<Rightarrow> Some (Offline s)
           | (Some old_pos, Some new_pos) \<Rightarrow> Some (Handoff s (pos_id old_pos) (pos_id new_pos))
           | (None, None) \<Rightarrow> None)"

definition candidate_stations :: "network \<Rightarrow> position_id list \<Rightarrow> station_id hash_set" where
  "candidate_stations net changed =
     hs_collect (concat (map pos_controlled_stations (List.map_filter (hm_get (net_positions net)) changed)))"

definition coverage_diff :: "network \<Rightarrow> position_id hash_set \<Rightarrow> position_id hash_set \<Rightarrow> station_change list" where
  "coverage_diff net from_online to_online =
     (let changed_positions = filter (\<lambda>p. p \<notin> set to_online) from_online @ filter (\<lambda>p. p \<notin> set from_online) to_online
      in if changed_positions = [] then []
         else
           sort (List.map_filter (\<lambda>station_id.
               case hm_get (net_stations net) station_id of
                 None \<Rightarrow> None
               | Some station \<Rightarrow>
                   station_change_between (st_id station)
                     (controlling_position net (st_id station) (set from_online))
                     (controlling_position net (st_id station) (set to_online)))
             (candidate_stations net changed_positions)))"

definition coverage_changes ::
  "network \<Rightarrow> position_id option \<Rightarrow> position_id option \<Rightarrow> position_id hash_set \<Rightarrow> station_change list" where
  "coverage_changes net from_position_id to_position_id online_positions =
     (let (updated_positions, changed) =
        (case (from_position_id, to_position_id) of
           (Some from, Some to) \<Rightarrow>
             if from = to then (hs_insert to online_positions, to \<notin> set online_positions)
             else
               (let removed = hs_remove from online_positions
                in (hs_insert to removed, from \<in> set online_positions \<or> to \<notin> set removed))
         | (Some from, None) \<Rightarrow> (hs_remove from online_positions, from \<in> set online_positions)
         | (None, Some to) \<Rightarrow> (hs_insert to online_positions, to \<notin> set online_positions)
         | (None, None) \<Rightarrow> (online_positions, False))
      in if \<not> changed then [] else coverage_diff net online_positions updated_positions)"

definition relevant_stations_of :: "network \<Rightarrow> profile_id active_profile \<Rightarrow> relevant_stations" where
  "relevant_stations_of net selection =
     (case selection of
        Specific profile_id \<Rightarrow>
          (case hm_get (net_profiles net) profile_id of
             None \<Rightarrow> NoStations
           | Some profile \<Rightarrow> Subset (prof_relevant_station_ids profile))
      | Custom \<Rightarrow> AllStations
      | NoProfile \<Rightarrow> NoStations)"

section \<open>Well-formed networks\<close>

definition network_wf :: "network \<Rightarrow> bool" where
  "network_wf net \<longleftrightarrow>
     hm_ok (net_positions net) \<and> hm_ok (net_stations net) \<and>
     (\<forall>p position. hm_get (net_positions net) p = Some position \<longrightarrow> pos_id position = p) \<and>
     (\<forall>s station. hm_get (net_stations net) s = Some station \<longrightarrow>
        st_id station = s \<and> distinct (st_controlled_by station) \<and> st_controlled_by station \<noteq> [] \<and>
        (\<forall>p \<in> set (st_controlled_by station). \<exists>position. hm_get (net_positions net) p = Some position \<and>
           s \<in> set (pos_controlled_stations position))) \<and>
     (\<forall>p position. hm_get (net_positions net) p = Some position \<longrightarrow>
        (\<forall>s \<in> set (pos_controlled_stations position). \<exists>station. hm_get (net_stations net) s = Some station \<and>
           p \<in> set (st_controlled_by station)))"

lemma network_wfD:
  assumes "network_wf net"
  shows "hm_get (net_positions net) p = Some position \<Longrightarrow> pos_id position = p"
    and "hm_get (net_stations net) s = Some station \<Longrightarrow> st_id station = s"
    and "hm_get (net_stations net) s = Some station \<Longrightarrow> p \<in> set (st_controlled_by station) \<Longrightarrow>
      \<exists>position. hm_get (net_positions net) p = Some position \<and> s \<in> set (pos_controlled_stations position)"
  using assms unfolding network_wf_def by blast+

lemma find_map_cong: "(\<And>x. x \<in> set xs \<Longrightarrow> f x = g x) \<Longrightarrow> find_map f xs = find_map g xs"
  by (induction xs) (auto split: option.splits)

lemma find_map_Some: "find_map f xs = Some y \<Longrightarrow> \<exists>x \<in> set xs. f x = Some y"
  by (induction xs) (auto split: option.splits)

lemma controlling_position_pos:
  assumes "network_wf net" "controlling_position net s A = Some position"
  shows "hm_get (net_positions net) (pos_id position) = Some position \<and> pos_id position \<in> A"
proof -
  from assms(2) obtain p where "(if p \<in> A then hm_get (net_positions net) p else None) = Some position"
    by (auto simp: controlling_position_def split: option.splits dest: find_map_Some)
  with network_wfD(1) [OF assms(1)] show ?thesis by (auto split: if_splits)
qed

text \<open>A station that none of the changed positions controls keeps its controlling position.\<close>

lemma controlling_position_stable:
  assumes "hm_get (net_stations net) s = Some station"
    and "\<And>p. p \<in> set (st_controlled_by station) \<Longrightarrow> p \<in> A \<longleftrightarrow> p \<in> B"
  shows "controlling_position net s A = controlling_position net s B"
  using assms by (auto simp: controlling_position_def intro!: find_map_cong)

lemma candidate_stations_mem:
  "s \<in> set (candidate_stations net changed) \<longleftrightarrow>
     (\<exists>p \<in> set changed. \<exists>position. hm_get (net_positions net) p = Some position \<and> s \<in> set (pos_controlled_stations position))"
  by (force simp: candidate_stations_def set_map_filter)

lemma coverage_diff_mem:
  assumes wf: "network_wf net"
  shows "ch \<in> set (coverage_diff net A B) \<longleftrightarrow>
    (\<exists>s station. hm_get (net_stations net) s = Some station \<and>
       station_change_between s (controlling_position net s (set A)) (controlling_position net s (set B)) = Some ch)"
    (is "?l \<longleftrightarrow> ?r")
proof
  assume ?l
  then show ?r
    using network_wfD(2) [OF wf] by (fastforce simp: coverage_diff_def Let_def set_map_filter split: if_splits option.splits)
next
  assume ?r
  then obtain s station where s: "hm_get (net_stations net) s = Some station"
    "station_change_between s (controlling_position net s (set A)) (controlling_position net s (set B)) = Some ch" by blast
  let ?changed = "filter (\<lambda>p. p \<notin> set B) A @ filter (\<lambda>p. p \<notin> set A) B"
  have "controlling_position net s (set A) \<noteq> controlling_position net s (set B)"
    using s(2) by (auto simp: station_change_between_def)
  with controlling_position_stable [OF s(1), of "set A" "set B"]
  obtain p where p: "p \<in> set (st_controlled_by station)" "(p \<in> set A) \<noteq> (p \<in> set B)" by blast
  then have p: "p \<in> set (st_controlled_by station)" "p \<in> set ?changed" by auto
  with network_wfD(3) [OF wf s(1)] have "s \<in> set (candidate_stations net ?changed)"
    unfolding candidate_stations_mem by blast
  moreover have "?changed \<noteq> []" using p(2) by (metis empty_iff empty_set)
  ultimately show ?l
    using s network_wfD(2) [OF wf s(1)] unfolding coverage_diff_def Let_def
    by (simp only: if_False set_sort set_map_filter mem_Collect_eq) (intro bexI [of _ s]; simp)
qed


section \<open>Loading builds well-formed networks\<close>

text \<open>The invariant of the loading loop before the last pass: nothing is linked yet.\<close>

definition loading_ok :: "network \<Rightarrow> bool" where
  "loading_ok net \<longleftrightarrow>
     hm_ok (net_positions net) \<and> hm_ok (net_stations net) \<and>
     (\<forall>p position. hm_get (net_positions net) p = Some position \<longrightarrow>
        pos_id position = p \<and> pos_controlled_stations position = []) \<and>
     (\<forall>s station. hm_get (net_stations net) s = Some station \<longrightarrow>
        st_id station = s \<and> distinct (st_controlled_by station) \<and> st_controlled_by station \<noteq> [])"

lemma extend_unseen_props:
  "distinct acc \<Longrightarrow> distinct (extend_unseen acc ps) \<and> set (extend_unseen acc ps) = set acc \<union> set ps"
  unfolding extend_unseen_def by (induction ps arbitrary: acc) auto

lemma resolve_loop_distinct:
  "resolve_loop all self_id cur visited acc = Inr ps \<Longrightarrow> distinct acc \<Longrightarrow> distinct ps"
proof (induction all self_id cur visited acc rule: resolve_loop.induct)
  case (2 all self_id station visited acc)
  have d: "distinct (extend_unseen acc (sr_controlled_by station))"
    using extend_unseen_props 2(4) by blast
  show ?case
    using 2(3) d 2(1,2) [OF _ refl refl] unfolding resolve_loop.simps(2) [of all self_id station] Let_def
    by (auto split: if_splits option.splits)
qed simp

lemma station_from_raw_ok:
  "station_from_raw all fir s = Inr station \<Longrightarrow> st_id station = sr_id s \<and> distinct (st_controlled_by station)"
  by (auto simp: station_from_raw_def resolve_controlled_by_def dest: resolve_loop_distinct split: option.splits sum.splits)

lemma push_error_net [simp]: "ld_net (push_error err l) = ld_net l"
  by (simp add: push_error_def)

lemma fold_push_net [simp]: "ld_net (fold (\<lambda>e. push_error (f e)) es l) = ld_net l"
  by (induction es arbitrary: l) simp_all

lemma push_reference_net [simp]: "ld_net (push_reference_error fir entity err l) = ld_net l"
  by (simp add: push_reference_error_def split: option.splits)

lemma fold_net: "(\<And>x l. ld_net (f x l) = ld_net l) \<Longrightarrow> ld_net (fold f xs l) = ld_net l"
  by (induction xs arbitrary: l) simp_all

lemma check_references_net [simp]: "ld_net (check_references ps prs sts f l) = ld_net l"
  by (simp add: check_references_def Let_def fold_net)

lemma load_position_ok: "loading_ok (ld_net l) \<Longrightarrow> loading_ok (ld_net (load_position is_freq fir p l))"
  by (auto simp: load_position_def loading_ok_def position_from_raw_def split: option.splits)

lemma load_station_ok: "loading_ok (ld_net l) \<Longrightarrow> loading_ok (ld_net (load_station all fir s l))"
  by (auto simp: load_station_def loading_ok_def dest: station_from_raw_ok split: sum.splits)

lemma load_profile_ok: "loading_ok (ld_net l) \<Longrightarrow> loading_ok (ld_net (load_profile fir p l))"
  by (auto simp: load_profile_def loading_ok_def split: prod.splits)

lemma load_fir_ok:
  assumes "loading_ok (ld_net l)"
  shows "loading_ok (ld_net (load_fir is_freq all ps prs sts f l))"
proof -
  let ?P = "\<lambda>l. loading_ok (ld_net l)"
  have start: "?P (l'\<lparr>ld_net := (ld_net l')\<lparr>net_firs := m\<rparr>\<rparr>)" if "?P l'" for l' m
    using that by (simp add: loading_ok_def)
  have c: "?P (check_references ps prs sts f l)" using assms by simp
  have "?P (fold (load_profile (fr_id f)) (fr_profiles f) (fold (load_station all (fr_id f)) (fr_stations f)
      (fold (load_position is_freq (fr_id f)) (fr_positions f) l')))" if "?P l'" for l'
    by (intro fold_inv [where P = ?P] load_profile_ok load_station_ok load_position_ok that)
  with c start [OF c] show ?thesis
    unfolding load_fir_def Let_def by (auto split: sum.splits)
qed

lemma loading_ok_empty: "loading_ok empty_network"
  by (simp add: loading_ok_def empty_network_def)

text \<open>What the last pass has linked after some of the (station, position) pairs.\<close>

definition linked :: "network \<Rightarrow> (station_id \<times> position_id) set \<Rightarrow> network \<Rightarrow> bool" where
  "linked net0 done net \<longleftrightarrow>
     net_stations net = net_stations net0 \<and> hm_ok (net_positions net) \<and>
     (\<forall>p. case hm_get (net_positions net0) p of
        None \<Rightarrow> hm_get (net_positions net) p = None
      | Some position \<Rightarrow> \<exists>position'. hm_get (net_positions net) p = Some position' \<and> pos_id position' = pos_id position \<and>
          (\<forall>s. s \<in> set (pos_controlled_stations position') \<longleftrightarrow> (s, p) \<in> done))"

lemma errors_grow:
  "ld_errors (push_error err l) \<noteq> []"
  "ld_errors l \<noteq> [] \<Longrightarrow> ld_errors (link_position s p l) \<noteq> []"
  "ld_errors l \<noteq> [] \<Longrightarrow> ld_errors (fold (link_position s) ps l) \<noteq> []"
proof -
  show 1: "ld_errors (push_error err l) \<noteq> []" by (simp add: push_error_def)
  show 2: "ld_errors l \<noteq> [] \<Longrightarrow> ld_errors (link_position s p l) \<noteq> []" for l p
    by (simp add: link_position_def push_error_def split: option.splits)
  show "ld_errors l \<noteq> [] \<Longrightarrow> ld_errors (fold (link_position s) ps l) \<noteq> []"
    using 2 by (induction ps arbitrary: l) auto
qed

lemma link_position_linked:
  assumes "linked net0 D (ld_net l)" and "ld_errors (link_position s p l) = []"
  shows "linked net0 (insert (st_id s, p) D) (ld_net (link_position s p l)) \<and> hm_get (net_positions net0) p \<noteq> None"
proof -
  from assms(2) obtain position where pos: "hm_get (net_positions (ld_net l)) p = Some position"
    by (cases "hm_get (net_positions (ld_net l)) p") (auto simp: link_position_def push_error_def)
  have base: "hm_get (net_positions net0) p \<noteq> None"
  proof
    assume n: "hm_get (net_positions net0) p = None"
    with assms(1) [unfolded linked_def, THEN conjunct2, THEN conjunct2, THEN spec, of p] pos show False by simp
  qed
  have "linked net0 (insert (st_id s, p) D) (ld_net (link_position s p l))"
    unfolding linked_def
  proof (intro conjI allI)
    show "net_stations (ld_net (link_position s p l)) = net_stations net0"
      "hm_ok (net_positions (ld_net (link_position s p l)))"
      using assms(1) pos by (simp_all add: link_position_def linked_def)
    fix q
    have "case hm_get (net_positions net0) q of None \<Rightarrow> hm_get (net_positions (ld_net l)) q = None
      | Some position \<Rightarrow> \<exists>position'. hm_get (net_positions (ld_net l)) q = Some position' \<and> pos_id position' = pos_id position \<and>
          (\<forall>s. s \<in> set (pos_controlled_stations position') \<longleftrightarrow> (s, q) \<in> D)"
      using assms(1) by (simp add: linked_def)
    then show "case hm_get (net_positions net0) q of
        None \<Rightarrow> hm_get (net_positions (ld_net (link_position s p l))) q = None
      | Some position \<Rightarrow> \<exists>position'. hm_get (net_positions (ld_net (link_position s p l))) q = Some position' \<and>
          pos_id position' = pos_id position \<and>
          (\<forall>x. x \<in> set (pos_controlled_stations position') \<longleftrightarrow> (x, q) \<in> insert (st_id s, p) D)"
      using pos by (cases "q = p") (auto simp: link_position_def split: option.splits)
  qed
  with base show ?thesis by blast
qed

lemma link_station_linked:
  assumes "linked net0 D (ld_net l)" and "ld_errors (fold (link_position s) ps l) = []"
  shows "linked net0 ({st_id s} \<times> set ps \<union> D) (ld_net (fold (link_position s) ps l)) \<and>
    (\<forall>p \<in> set ps. hm_get (net_positions net0) p \<noteq> None)"
  using assms
proof (induction ps arbitrary: l D)
  case (Cons p ps)
  have "ld_errors (link_position s p l) = []" using Cons.prems(2) errors_grow(3) by fastforce
  from link_position_linked [OF Cons.prems(1) this] Cons.IH [of "insert (st_id s, p) D" "link_position s p l"] Cons.prems(2)
  have "linked net0 ({st_id s} \<times> set ps \<union> insert (st_id s, p) D) (ld_net (fold (link_position s) (p # ps) l))"
    "\<forall>q \<in> set (p # ps). hm_get (net_positions net0) q \<noteq> None" by auto
  moreover have "{st_id s} \<times> set ps \<union> insert (st_id s, p) D = {st_id s} \<times> set (p # ps) \<union> D" by auto
  ultimately show ?case by simp
qed simp

lemma fold_link_station_errors: "ld_errors l \<noteq> [] \<Longrightarrow> ld_errors (fold link_station ss l) \<noteq> []"
  by (induction ss arbitrary: l) (auto simp: link_station_def errors_grow)

lemma link_stations_linked:
  assumes "linked net0 D (ld_net l)" and "ld_errors (fold link_station ss l) = []"
  shows "linked net0 ((\<Union>s \<in> set ss. {st_id s} \<times> set (st_controlled_by s)) \<union> D) (ld_net (fold link_station ss l)) \<and>
    (\<forall>s \<in> set ss. \<forall>p \<in> set (st_controlled_by s). hm_get (net_positions net0) p \<noteq> None)"
  using assms
proof (induction ss arbitrary: l D)
  case (Cons s ss)
  have "ld_errors (link_station s l) = []" using Cons.prems(2) fold_link_station_errors by fastforce
  then have step: "linked net0 ({st_id s} \<times> set (st_controlled_by s) \<union> D) (ld_net (link_station s l))"
    "\<forall>p \<in> set (st_controlled_by s). hm_get (net_positions net0) p \<noteq> None"
    using link_station_linked [OF Cons.prems(1)] by (auto simp: link_station_def)
  from Cons.IH [OF step(1)] Cons.prems(2) step(2) show ?case by (simp add: Un_assoc Un_left_commute)
qed simp


lemma linked_network_wf:
  assumes ok: "loading_ok net0"
    and lk: "linked net0 (\<Union>s \<in> set (hm_values (net_stations net0)). {st_id s} \<times> set (st_controlled_by s)) net"
    and ex: "\<forall>s \<in> set (hm_values (net_stations net0)). \<forall>p \<in> set (st_controlled_by s). hm_get (net_positions net0) p \<noteq> None"
  shows "network_wf net"
proof -
  let ?D = "\<Union>s \<in> set (hm_values (net_stations net0)). {st_id s} \<times> set (st_controlled_by s)"
  have st: "net_stations net = net_stations net0" and okp: "hm_ok (net_positions net)" using lk by (simp_all add: linked_def)
  have oks: "hm_ok (net_stations net0)" using ok by (simp add: loading_ok_def)
  have pos: "case hm_get (net_positions net0) p of None \<Rightarrow> hm_get (net_positions net) p = None
      | Some position \<Rightarrow> \<exists>position'. hm_get (net_positions net) p = Some position' \<and> pos_id position' = pos_id position \<and>
          (\<forall>s. s \<in> set (pos_controlled_stations position') \<longleftrightarrow> (s, p) \<in> ?D)" for p
    by (rule lk [unfolded linked_def, THEN conjunct2, THEN conjunct2, THEN spec])
  have id: "pos_id position = p \<and> (\<forall>s. s \<in> set (pos_controlled_stations position) \<longleftrightarrow> (s, p) \<in> ?D)"
    if "hm_get (net_positions net) p = Some position" for p position
    using pos [of p] that ok by (cases "hm_get (net_positions net0) p") (auto simp: loading_ok_def)
  have mem: "(s, p) \<in> ?D \<longleftrightarrow> (\<exists>station. hm_get (net_stations net0) s = Some station \<and> p \<in> set (st_controlled_by station))" for s p
  proof
    assume "(s, p) \<in> ?D"
    then obtain station where v: "station \<in> set (hm_values (net_stations net0))" "st_id station = s" "p \<in> set (st_controlled_by station)"
      by auto
    from hm_values_get [OF oks v(1)] obtain k where "hm_get (net_stations net0) k = Some station" by blast
    with v ok show "\<exists>station. hm_get (net_stations net0) s = Some station \<and> p \<in> set (st_controlled_by station)"
      by (auto simp: loading_ok_def)
  next
    assume "\<exists>station. hm_get (net_stations net0) s = Some station \<and> p \<in> set (st_controlled_by station)"
    then obtain station where v: "hm_get (net_stations net0) s = Some station" "p \<in> set (st_controlled_by station)" by blast
    moreover have "station \<in> set (hm_values (net_stations net0))" using hm_get_SomeD [OF v(1)] by (rule hm_values_mem)
    moreover have "st_id station = s" using v(1) ok by (simp add: loading_ok_def)
    ultimately show "(s, p) \<in> ?D" by blast
  qed
  have link: "\<exists>position. hm_get (net_positions net) p = Some position \<and> s \<in> set (pos_controlled_stations position)"
    if v: "hm_get (net_stations net0) s = Some station" "p \<in> set (st_controlled_by station)" for s station p
  proof -
    have "station \<in> set (hm_values (net_stations net0))" using hm_get_SomeD [OF v(1)] by (rule hm_values_mem)
    with ex v(2) obtain position where "hm_get (net_positions net0) p = Some position" by blast
    with pos [of p] obtain position' where "hm_get (net_positions net) p = Some position'" by auto
    with id [OF this] mem [of s p] v show ?thesis by blast
  qed
  show ?thesis
    unfolding network_wf_def st
  proof (intro conjI okp oks allI impI ballI)
    fix p position assume p: "hm_get (net_positions net) p = Some position"
    show "pos_id position = p" using id [OF p] by blast
    fix s assume "s \<in> set (pos_controlled_stations position)"
    with id [OF p] mem show "\<exists>station. hm_get (net_stations net0) s = Some station \<and> p \<in> set (st_controlled_by station)" by blast
  next
    fix s station assume v: "hm_get (net_stations net0) s = Some station"
    show "st_id station = s" "distinct (st_controlled_by station)" "st_controlled_by station \<noteq> []"
      using v ok by (simp_all add: loading_ok_def)
    fix p assume "p \<in> set (st_controlled_by station)"
    with v show "\<exists>position. hm_get (net_positions net) p = Some position \<and> s \<in> set (pos_controlled_stations position)"
      by (rule link)
  qed
qed

lemma build_network_consistent:
  assumes "build_network is_freq raw_firs errors = Inr net"
  shows "network_wf net"
proof -
  obtain l1 where l1: "loading_ok (ld_net l1)" "ld_errors (fold link_station (hm_values (net_stations (ld_net l1))) l1) = []"
    "net = ld_net (fold link_station (hm_values (net_stations (ld_net l1))) l1)"
  proof -
    let ?all = "hm_collect (concat (map (\<lambda>f. map (\<lambda>s. (sr_id s, s)) (fr_stations f)) raw_firs))"
    let ?l1 = "fold (load_fir is_freq ?all (set (concat (map (\<lambda>f. map pr_id (fr_positions f)) raw_firs)))
      (set (concat (map (\<lambda>f. hm_keys (fr_profiles f)) raw_firs))) (set (hm_keys ?all))) raw_firs
      \<lparr>ld_net = empty_network, ld_errors = errors\<rparr>"
    have "loading_ok (ld_net ?l1)"
      by (rule fold_inv [where P = "\<lambda>l. loading_ok (ld_net l)"]) (simp_all add: loading_ok_empty load_fir_ok)
    with assms that [of ?l1] show ?thesis by (simp add: build_network_def Let_def split: if_splits)
  qed
  have "linked (ld_net l1) {} (ld_net l1)"
    using l1(1) by (auto simp: linked_def loading_ok_def split: option.splits)
  from link_stations_linked [OF this l1(2)] linked_network_wf [OF l1(1)] l1(3) show ?thesis by auto
qed

text \<open>
  C24: A network that loads without errors is consistent. Every station has a non-empty list of
  distinct positions that exist, and the stations listed in a position are exactly those whose
  coverage names it.
\<close>

theorem build_network_wf:
  assumes "build_network is_freq raw_firs errors = Inr net"
  shows "network_wf net"
  by (rule build_network_consistent [OF assms])

text \<open>
  The controlling position of a station is the first online position of its coverage list; it
  is offline exactly when none of them is online.
\<close>

theorem controlling_position_first:
  assumes "network_wf net" and "hm_get (net_stations net) s = Some station"
  shows "map_option pos_id (controlling_position net s online) = List.find (\<lambda>p. p \<in> online) (st_controlled_by station)"
proof -
  have "map_option pos_id (find_map (\<lambda>p. if p \<in> online then hm_get (net_positions net) p else None) ps) =
      List.find (\<lambda>p. p \<in> online) ps" if "set ps \<subseteq> set (st_controlled_by station)" for ps
    using that
  proof (induction ps)
    case (Cons p ps)
    then obtain position where "hm_get (net_positions net) p = Some position" "pos_id position = p"
      using network_wfD(1,3) [OF assms(1)] assms(2) by (metis list.set_intros(1) subset_iff)
    with Cons show ?case by auto
  qed simp
  with assms(2) show ?thesis by (simp add: controlling_position_def)
qed

text \<open>
  C22: The coverage difference between two sets of online positions is exactly the list of stations
  whose controlling position differs, each with its change, sorted.
\<close>

theorem coverage_diff_exact:
  assumes "network_wf net"
  shows "set (coverage_diff net from_online to_online) =
      {ch. \<exists>s station. hm_get (net_stations net) s = Some station \<and>
         station_change_between s (controlling_position net s (set from_online)) (controlling_position net s (set to_online)) = Some ch} \<and>
    sorted (coverage_diff net from_online to_online)"
proof
  show "set (coverage_diff net from_online to_online) =
      {ch. \<exists>s station. hm_get (net_stations net) s = Some station \<and>
         station_change_between s (controlling_position net s (set from_online)) (controlling_position net s (set to_online)) = Some ch}"
    by (simp add: set_eq_iff coverage_diff_mem [OF assms])
  show "sorted (coverage_diff net from_online to_online)" by (simp add: coverage_diff_def Let_def)
qed

text \<open>
  The change of a single client's position is reported as the difference between the online
  positions before and after.
\<close>

theorem coverage_changes_is_diff:
  assumes wf: "network_wf net"
  shows "set (coverage_changes net from_id to_id online) =
    set (coverage_diff net online
      (case to_id of Some to \<Rightarrow> hs_insert to (case from_id of Some fr \<Rightarrow> hs_remove fr online | None \<Rightarrow> online)
       | None \<Rightarrow> (case from_id of Some fr \<Rightarrow> hs_remove fr online | None \<Rightarrow> online)))"
proof -
  have same: "coverage_diff net A B = []" if "set A = set B" for A B
    using that by (simp add: coverage_diff_def Let_def filter_empty_conv)
  have mem: "set (coverage_diff net online A) = set (coverage_diff net online B)" if "set A = set B" for A B
    unfolding set_eq_iff coverage_diff_mem [OF wf] that by simp
  show ?thesis
  proof (cases from_id; cases to_id)
    fix fr to assume ft: "from_id = Some fr" "to_id = Some to"
    show ?thesis
    proof (cases "fr = to")
      case True
      have "set (hs_insert to online) = set (hs_insert to (hs_remove fr online))" using True by auto
      with True ft mem [OF this] same [of online "hs_insert to online"] same [of online "hs_insert to (hs_remove fr online)"]
      show ?thesis by (auto simp: coverage_changes_def insert_absorb)
    next
      case False
      with ft same [of online "hs_insert to (hs_remove fr online)"] show ?thesis
        by (auto simp: coverage_changes_def Let_def insert_absorb)
    qed
  next
    fix fr assume "from_id = Some fr" "to_id = None"
    with same [of online "hs_remove fr online"] show ?thesis by (auto simp: coverage_changes_def)
  next
    fix to assume "from_id = None" "to_id = Some to"
    with same [of online "hs_insert to online"] show ?thesis by (auto simp: coverage_changes_def insert_absorb)
  next
    assume "from_id = None" "to_id = None"
    with same [of online online] show ?thesis by (simp add: coverage_changes_def)
  qed
qed

section \<open>Inherited coverage\<close>

text \<open>The stations from a station up its parents to one without a parent.\<close>

inductive station_chain :: "(station_id, station_raw) hash_map \<Rightarrow> station_raw \<Rightarrow> station_raw list \<Rightarrow> bool"
  for all :: "(station_id, station_raw) hash_map" where
  chain_root: "sr_parent_id s = None \<Longrightarrow> station_chain all s [s]"
| chain_step: "sr_parent_id s = Some p \<Longrightarrow> hm_get all p = Some s' \<Longrightarrow> station_chain all s' ss \<Longrightarrow> station_chain all s (s # ss)"

inductive_simps station_chain_simps: "station_chain all s ss"

lemma extend_unseen_append: "extend_unseen acc (ps @ qs) = extend_unseen (extend_unseen acc ps) qs"
  by (simp add: extend_unseen_def)

lemma chain_head: "station_chain all s ss \<Longrightarrow> \<exists>ss'. ss = s # ss'"
  by (erule station_chain.cases) auto

lemma resolve_loop_iff:
  "cur = Some s \<Longrightarrow> resolve_loop all self_id cur visited acc = Inr ps \<longleftrightarrow>
    (\<exists>ss. station_chain all s ss \<and> distinct (map sr_id ss) \<and> sr_id ` set ss \<inter> set visited = {} \<and>
       ps = extend_unseen acc (concat (map sr_controlled_by ss)))"
proof (induction all self_id cur visited acc arbitrary: s rule: resolve_loop.induct)
  case (2 all self_id station visited acc)
  then have [simp]: "station = s" by simp
  let ?acc = "extend_unseen acc (sr_controlled_by s)"
  show ?case
  proof (cases "sr_id s \<in> set visited")
    case True
    then show ?thesis by (auto simp: resolve_loop.simps(2) dest!: chain_head)
  next
    case new: False
    show ?thesis
    proof (cases "sr_parent_id s")
      case None
      then have "station_chain all s ss \<longleftrightarrow> ss = [s]" for ss by (auto simp: station_chain_simps [of all s])
      with None new show ?thesis by (auto simp: resolve_loop.simps(2))
    next
      case p: (Some p)
      show ?thesis
      proof (cases "hm_get all p")
        case None
        with p have "\<not> station_chain all s ss" for ss by (auto simp: station_chain_simps [of all s])
        with p None new show ?thesis by (simp add: resolve_loop.simps(2))
      next
        case q: (Some s')
        have IH: "resolve_loop all self_id (Some s') (visited @ [sr_id s]) ?acc = Inr ps \<longleftrightarrow>
          (\<exists>ss. station_chain all s' ss \<and> distinct (map sr_id ss) \<and> sr_id ` set ss \<inter> set (visited @ [sr_id s]) = {} \<and>
             ps = extend_unseen ?acc (concat (map sr_controlled_by ss)))"
          using 2(2) new p q by simp
        have chain: "station_chain all s ss \<longleftrightarrow> (\<exists>ss'. ss = s # ss' \<and> station_chain all s' ss')" for ss
          using p q by (auto simp: station_chain_simps [of all s])
        have "resolve_loop all self_id (Some s) visited acc = resolve_loop all self_id (Some s') (visited @ [sr_id s]) ?acc"
          using p q new by (simp add: resolve_loop.simps(2))
        then have L: "resolve_loop all self_id (Some s) visited acc = Inr ps \<longleftrightarrow>
          (\<exists>ss. station_chain all s' ss \<and> distinct (map sr_id ss) \<and> sr_id ` set ss \<inter> set (visited @ [sr_id s]) = {} \<and>
             ps = extend_unseen ?acc (concat (map sr_controlled_by ss)))"
          using IH by simp
        have R: "(\<exists>ss. station_chain all s ss \<and> P ss) \<longleftrightarrow> (\<exists>ss. station_chain all s' ss \<and> P (s # ss))" for P
          unfolding chain by blast
        have eq: "distinct (map sr_id (s # ss)) \<and> sr_id ` set (s # ss) \<inter> set visited = {} \<and>
            ps = extend_unseen acc (concat (map sr_controlled_by (s # ss))) \<longleftrightarrow>
          distinct (map sr_id ss) \<and> sr_id ` set ss \<inter> set (visited @ [sr_id s]) = {} \<and>
            ps = extend_unseen ?acc (concat (map sr_controlled_by ss))" for ss
          using new by (auto simp: extend_unseen_append)
        show ?thesis unfolding \<open>station = s\<close> L R eq by (rule refl)
      qed
    qed
  qed
qed simp

text \<open>
  C25: The coverage of a station resolves exactly when its chain of parents ends without meeting a
  station twice, and then it is the station's own positions followed by those of its parents, in
  that order, every position once.
\<close>

theorem resolve_controlled_by_chain:
  "resolve_controlled_by all s = Inr ps \<longleftrightarrow>
    (\<exists>ss. station_chain all s ss \<and> distinct (map sr_id ss) \<and>
       ps = extend_unseen [] (concat (map sr_controlled_by ss)))"
  by (simp add: resolve_controlled_by_def resolve_loop_iff)

section \<open>Facility types and callsigns\<close>

lemma last_segment_suffix: "CHR ''_'' \<notin> set t \<Longrightarrow> last_segment (s @ CHR ''_'' # t) = t"
  by (subst last_segment_def) (simp, subst takeWhile_append2, auto)

lemma uppercase_append: "to_ascii_uppercase (s @ t) = to_ascii_uppercase s @ to_ascii_uppercase t"
  by (simp add: to_ascii_uppercase_def)

text \<open>
  The short name of every facility type but the unknown one parses back to it, also as the
  suffix of a callsign.
\<close>

theorem facility_roundtrip:
  assumes "f \<noteq> FacilityUnknown"
  shows "facility_from_str (callsign @ ''_'' @ facility_as_str f) = Some f"
proof -
  have "to_ascii_uppercase (callsign @ ''_'' @ facility_as_str f) = to_ascii_uppercase callsign @ CHR ''_'' # facility_as_str f"
    by (cases f) (simp_all add: uppercase_append, simp_all add: to_ascii_uppercase_def)
  moreover have "last_segment (to_ascii_uppercase callsign @ CHR ''_'' # facility_as_str f) = facility_as_str f"
    by (rule last_segment_suffix) (cases f; simp)
  ultimately show ?thesis using assms unfolding facility_from_str_def Let_def by (cases f) simp_all
qed


theorem facility_roundtrip_witness:
  "facility_from_str (''LOWW'' @ ''_'' @ facility_as_str Tower) = Some Tower"
  by (rule facility_roundtrip) simp

section \<open>A small network\<close>

text \<open>A tower station that falls back to its parent, the approach.\<close>

definition demo_position :: "string \<Rightarrow> string \<Rightarrow> facility_type \<Rightarrow> position_raw" where
  "demo_position i freq ft =
     \<lparr>pr_id = PositionId i, pr_prefixes = [''LOWW''], pr_frequency = freq, pr_facility_type = ft,
      pr_profile_id = None, pr_default_call_sources = []\<rparr>"

definition demo_fir :: fir_raw where
  "demo_fir =
     \<lparr>fr_id = FirId ''LOVV'',
      fr_stations =
        [\<lparr>sr_id = StationId ''LOWW_TWR'', sr_parent_id = Some (StationId ''LOWW_APP''), sr_controlled_by = [PositionId ''LOWW_TWR'']\<rparr>,
         \<lparr>sr_id = StationId ''LOWW_APP'', sr_parent_id = None, sr_controlled_by = [PositionId ''LOWW_APP'']\<rparr>],
      fr_positions = [demo_position ''LOWW_TWR'' ''119.400'' Tower, demo_position ''LOWW_APP'' ''134.675'' Approach],
      fr_profiles = []\<rparr>"

definition demo_freq :: "string \<Rightarrow> bool" where
  "demo_freq s \<longleftrightarrow> length s = 7 \<and> s ! 3 = CHR ''.''"

definition demo_network :: network where
  "demo_network = (case build_network demo_freq [demo_fir] [] of Inr net \<Rightarrow> net | Inl _ \<Rightarrow> empty_network)"

lemma demo_network_built: "build_network demo_freq [demo_fir] [] = Inr demo_network"
proof -
  have "\<not> isl (build_network demo_freq [demo_fir] [])" by code_simp
  then show ?thesis by (cases "build_network demo_freq [demo_fir] []") (simp_all add: demo_network_def)
qed

theorem build_network_wf_witness: "build_network demo_freq [demo_fir] [] = Inr demo_network \<and> network_wf demo_network"
  using demo_network_built build_network_wf [OF demo_network_built] by blast

lemma demo_network_linked:
  "\<exists>station. hm_get (net_stations demo_network) (StationId ''LOWW_TWR'') = Some station \<and>
     st_controlled_by station = [PositionId ''LOWW_TWR'', PositionId ''LOWW_APP'']"
proof -
  have "map_option st_controlled_by (hm_get (net_stations demo_network) (StationId ''LOWW_TWR'')) =
      Some [PositionId ''LOWW_TWR'', PositionId ''LOWW_APP'']" by code_simp
  then show ?thesis by auto
qed


lemma demo_network_wf: "network_wf demo_network"
  by (rule build_network_consistent [OF demo_network_built])

theorem controlling_position_first_witness:
  "map_option pos_id (controlling_position demo_network (StationId ''LOWW_TWR'') {PositionId ''LOWW_APP''}) = Some (PositionId ''LOWW_APP'')"
proof -
  obtain station where "hm_get (net_stations demo_network) (StationId ''LOWW_TWR'') = Some station"
    "st_controlled_by station = [PositionId ''LOWW_TWR'', PositionId ''LOWW_APP'']" using demo_network_linked by blast
  with controlling_position_first [OF demo_network_wf this(1), of "{PositionId ''LOWW_APP''}"] show ?thesis by simp
qed

theorem coverage_diff_exact_witness:
  "network_wf demo_network \<and> sorted (coverage_diff demo_network [] [PositionId ''LOWW_APP'']) \<and>
   coverage_diff demo_network [] [PositionId ''LOWW_APP''] =
     [Online (StationId ''LOWW_APP'') (PositionId ''LOWW_APP''), Online (StationId ''LOWW_TWR'') (PositionId ''LOWW_APP'')]"
proof (intro conjI demo_network_wf)
  show "sorted (coverage_diff demo_network [] [PositionId ''LOWW_APP''])"
    using coverage_diff_exact [OF demo_network_wf] by blast
  show "coverage_diff demo_network [] [PositionId ''LOWW_APP''] =
      [Online (StationId ''LOWW_APP'') (PositionId ''LOWW_APP''), Online (StationId ''LOWW_TWR'') (PositionId ''LOWW_APP'')]"
    by code_simp
qed

theorem coverage_changes_is_diff_witness:
  "set (coverage_changes demo_network None (Some (PositionId ''LOWW_TWR'')) [PositionId ''LOWW_APP'']) =
   set (coverage_diff demo_network [PositionId ''LOWW_APP''] [PositionId ''LOWW_APP'', PositionId ''LOWW_TWR''])"
  using coverage_changes_is_diff [OF demo_network_wf, of None "Some (PositionId ''LOWW_TWR'')" "[PositionId ''LOWW_APP'']"]
  by (simp add: hs_insert_def)

end
