(* ===== verification/Calls.thy ===== *)
theory Calls
  imports Protocol
begin

text \<open>
  The call entries of \<^verbatim>\<open>vacs-server/src/state/calls.rs\<close>: ringing targets, ringing calls,
  active calls with their join order and dead-link reports, and the participant updates sent to
  the members of a call. Each record mirrors the struct of that name, each function the method.
  Of the metrics guards the model keeps the recorded outcome and the participant maximum; the
  counters they export are not modelled. The functions that read the clock take the instant as
  an argument.
\<close>

section \<open>Ringing targets\<close>

datatype call_attempt_outcome =
    OutcomeAccepted
  | OutcomeRejected
  | OutcomeError call_error_reason
  | OutcomeCancelled
  | OutcomeAborted

fun outcome_of_drop_reason :: "call_drop_reason \<Rightarrow> call_attempt_outcome" where
  "outcome_of_drop_reason Requested = OutcomeCancelled"
| "outcome_of_drop_reason DropAutoHangup = OutcomeError AutoHangup"

record ringing_target =
  rt_call_id :: call_id
  rt_caller_id :: client_id
  rt_source :: call_source
  rt_target :: call_target
  rt_notified_clients :: "client_id hash_set"

record ringing_target_entry =
  rte_source :: call_source
  rte_notified_clients :: "client_id hash_set"
  rte_rejected_clients :: "client_id hash_set"
  rte_errored_clients :: "client_id hash_set"
  rte_outcome :: "call_attempt_outcome option"

definition ringing_target_entry_new :: "call_source \<Rightarrow> client_id hash_set \<Rightarrow> ringing_target_entry" where
  "ringing_target_entry_new source notified_clients =
     \<lparr>rte_source = source, rte_notified_clients = notified_clients,
      rte_rejected_clients = [], rte_errored_clients = [], rte_outcome = None\<rparr>"

definition has_notified_client :: "ringing_target_entry \<Rightarrow> client_id \<Rightarrow> bool" where
  "has_notified_client e client_id \<longleftrightarrow> client_id \<in> set (rte_notified_clients e)"

definition has_failed_client :: "ringing_target_entry \<Rightarrow> client_id \<Rightarrow> bool" where
  "has_failed_client e client_id \<longleftrightarrow>
     client_id \<in> set (rte_rejected_clients e) \<or> client_id \<in> set (rte_errored_clients e)"

definition mark_rejected :: "ringing_target_entry \<Rightarrow> client_id \<Rightarrow> ringing_target_entry" where
  "mark_rejected e client_id =
     (if client_id \<notin> set (rte_notified_clients e) then e
      else e\<lparr>rte_notified_clients := hs_remove client_id (rte_notified_clients e),
             rte_rejected_clients := hs_insert client_id (rte_rejected_clients e)\<rparr>)"

definition mark_errored :: "ringing_target_entry \<Rightarrow> client_id \<Rightarrow> ringing_target_entry" where
  "mark_errored e client_id =
     (if client_id \<notin> set (rte_notified_clients e) then e
      else e\<lparr>rte_notified_clients := hs_remove client_id (rte_notified_clients e),
             rte_errored_clients := hs_insert client_id (rte_errored_clients e)\<rparr>)"

definition set_outcome :: "call_attempt_outcome \<Rightarrow> ringing_target_entry \<Rightarrow> ringing_target_entry" where
  "set_outcome outcome e = e\<lparr>rte_outcome := Some outcome\<rparr>"

text \<open>\<^verbatim>\<open>complete\<close> records the outcome in the entry and returns the snapshot of the target.\<close>

definition complete :: "call_attempt_outcome \<Rightarrow> call_id \<Rightarrow> client_id \<Rightarrow> call_source \<Rightarrow> call_target
    \<Rightarrow> ringing_target_entry \<Rightarrow> ringing_target_entry \<times> ringing_target" where
  "complete outcome call_id caller_id source target e =
     (let e = set_outcome outcome e in
      (e, \<lparr>rt_call_id = call_id, rt_caller_id = caller_id, rt_source = source,
           rt_target = target, rt_notified_clients = rte_notified_clients e\<rparr>))"

definition all_rejected_or_errored :: "ringing_target_entry \<Rightarrow> bool" where
  "all_rejected_or_errored e \<longleftrightarrow> rte_notified_clients e = []"

section \<open>Ringing calls\<close>

record ringing_call_entry =
  rc_call_id :: call_id
  rc_caller_id :: client_id
  rc_targets :: "(call_target, ringing_target_entry) hash_map"

definition ringing_call_entry_new ::
  "call_id \<Rightarrow> client_id \<Rightarrow> call_source \<Rightarrow> call_target \<Rightarrow> client_id hash_set \<Rightarrow> ringing_call_entry" where
  "ringing_call_entry_new call_id caller_id source target notified_clients =
     \<lparr>rc_call_id = call_id, rc_caller_id = caller_id,
      rc_targets = [(target, ringing_target_entry_new source notified_clients)]\<rparr>"

definition add_target ::
  "call_source \<Rightarrow> call_target \<Rightarrow> client_id hash_set \<Rightarrow> ringing_call_entry \<Rightarrow> ringing_call_entry" where
  "add_target source target notified_clients r =
     r\<lparr>rc_targets := hm_insert target (ringing_target_entry_new source notified_clients) (rc_targets r)\<rparr>"

definition complete_all_targets :: "call_attempt_outcome \<Rightarrow> ringing_call_entry \<Rightarrow> ringing_target list" where
  "complete_all_targets outcome r =
     map (\<lambda>(target, entry).
            snd (complete outcome (rc_call_id r) (rc_caller_id r) (rte_source entry) target entry))
         (rc_targets r)"

definition all_targets_failed :: "ringing_call_entry \<Rightarrow> bool" where
  "all_targets_failed r \<longleftrightarrow> list_all all_rejected_or_errored (hm_values (rc_targets r))"

definition ringing_involves :: "ringing_call_entry \<Rightarrow> client_id \<Rightarrow> bool" where
  "ringing_involves r client_id \<longleftrightarrow>
     rc_caller_id r = client_id \<or>
     list_ex (\<lambda>e. client_id \<in> set (rte_notified_clients e)) (hm_values (rc_targets r))"

definition invited_participants :: "ringing_call_entry \<Rightarrow> call_participants" where
  "invited_participants r =
     hm_collect (concat (map (\<lambda>(target, e). map (\<lambda>client. (client, target)) (rte_notified_clients e))
                             (rc_targets r)))"

section \<open>Active calls\<close>

record active_call =
  ac_call_id :: call_id
  ac_conference_leader :: "client_id option"
  ac_participants :: call_participants

record link_report =
  lr_reporters :: "client_id hash_set"
  lr_refreshed_at :: instant
  lr_first_reported_at :: instant

text \<open>
  The join sequence is a \<^verbatim>\<open>u64\<close> that only ever grows by one per join; it is a natural number
  here, and the fallback of \<^verbatim>\<open>later_joiner\<close> keeps its value \<^verbatim>\<open>u64::MAX\<close>.
\<close>

record active_call_entry =
  ace_call_id :: call_id
  ace_conference_leader :: "client_id option"
  ace_participants :: call_participants
  ace_join_order :: "(client_id, nat) hash_map"
  ace_next_join_seq :: nat
  ace_link_reports :: "(client_id \<times> client_id, link_report) hash_map"
  ace_accepted_at :: instant
  ace_max_participants :: nat

definition LINK_REPORT_TTL :: duration where
  "LINK_REPORT_TTL = from_secs 90"

definition u64_max :: nat where
  "u64_max = 2 ^ 64 - 1"

definition active_call_entry_new ::
  "instant \<Rightarrow> call_id \<Rightarrow> client_id option \<Rightarrow> call_participants \<Rightarrow> active_call_entry" where
  "active_call_entry_new now call_id conference_leader participants =
     \<lparr>ace_call_id = call_id, ace_conference_leader = conference_leader,
      ace_participants = participants, ace_join_order = [], ace_next_join_seq = 0,
      ace_link_reports = [], ace_accepted_at = now, ace_max_participants = 2\<rparr>"

definition record_join :: "client_id \<Rightarrow> active_call_entry \<Rightarrow> active_call_entry" where
  "record_join client_id a =
     a\<lparr>ace_join_order := hm_insert client_id (ace_next_join_seq a) (ace_join_order a),
       ace_next_join_seq := ace_next_join_seq a + 1\<rparr>"

definition record_participants :: "nat \<Rightarrow> active_call_entry \<Rightarrow> active_call_entry" where
  "record_participants count a = a\<lparr>ace_max_participants := max (ace_max_participants a) count\<rparr>"

definition forget_participant :: "client_id \<Rightarrow> active_call_entry \<Rightarrow> active_call_entry" where
  "forget_participant client_id a =
     a\<lparr>ace_join_order := hm_remove client_id (ace_join_order a),
       ace_link_reports := filter (\<lambda>((x, y), _). x \<noteq> client_id \<and> y \<noteq> client_id) (ace_link_reports a)\<rparr>"

definition link_key :: "client_id \<Rightarrow> client_id \<Rightarrow> client_id \<times> client_id" where
  "link_key a b = (if a \<le> b then (a, b) else (b, a))"

definition record_link_report_at ::
  "client_id \<Rightarrow> client_id \<Rightarrow> instant \<Rightarrow> active_call_entry \<Rightarrow> active_call_entry \<times> bool" where
  "record_link_report_at reporter peer now a =
     (let key = link_key reporter peer;
          report = (case hm_get (ace_link_reports a) key of
                      Some report \<Rightarrow> report
                    | None \<Rightarrow> \<lparr>lr_reporters = [], lr_refreshed_at = now, lr_first_reported_at = now\<rparr>);
          report = (if now - lr_refreshed_at report \<ge> LINK_REPORT_TTL
                    then report\<lparr>lr_reporters := [], lr_first_reported_at := now\<rparr>
                    else report);
          report = report\<lparr>lr_refreshed_at := now,
                          lr_reporters := hs_insert reporter (lr_reporters report)\<rparr>;
          confirmed = (peer \<in> set (lr_reporters report))
      in (a\<lparr>ace_link_reports := hm_insert key report (ace_link_reports a)\<rparr>, confirmed))"

definition later_joiner :: "active_call_entry \<Rightarrow> client_id \<Rightarrow> client_id \<Rightarrow> client_id" where
  "later_joiner a x y =
     (let seq = (\<lambda>id. case hm_get (ace_join_order a) id of Some n \<Rightarrow> n | None \<Rightarrow> u64_max)
      in if seq x \<ge> seq y then x else y)"

definition participants_without_self :: "active_call_entry \<Rightarrow> client_id \<Rightarrow> call_participants" where
  "participants_without_self a client_id = filter (\<lambda>(p, _). p \<noteq> client_id) (ace_participants a)"

definition active_involves :: "active_call_entry \<Rightarrow> client_id \<Rightarrow> bool" where
  "active_involves a client_id \<longleftrightarrow> hm_contains_key client_id (ace_participants a)"

definition active_call_of_entry :: "active_call_entry \<Rightarrow> active_call" where
  "active_call_of_entry a =
     \<lparr>ac_call_id = ace_call_id a, ac_conference_leader = ace_conference_leader a,
      ac_participants = ace_participants a\<rparr>"

section \<open>Updates for the members of a call\<close>

record update_participants =
  up_call_id :: call_id
  up_invited_participants :: call_participants
  up_joined_participants :: call_participants
  up_conference_leader :: "client_id option"

datatype update_call_action =
    CancelRingingTarget ringing_target
  | DropParticipant call_id client_id
  | UpdateParticipants update_participants

definition all_participants :: "update_participants \<Rightarrow> (client_id \<times> call_target) list" where
  "all_participants u = up_invited_participants u @ up_joined_participants u"

definition all_participants_without_self ::
  "update_participants \<Rightarrow> client_id \<Rightarrow> (client_id \<times> call_target) list" where
  "all_participants_without_self u client_id = filter (\<lambda>(id, _). id \<noteq> client_id) (all_participants u)"

definition for_recipient :: "update_participants \<Rightarrow> client_id \<Rightarrow> call_update" where
  "for_recipient u recipient_id =
     (let own_target = hm_get (up_invited_participants u) recipient_id in
      \<lparr>cu_call_id = up_call_id u,
       cu_invited_targets =
         hs_collect (filter (\<lambda>target. Some target \<noteq> own_target) (hm_values (up_invited_participants u))),
       cu_joined_participants = up_joined_participants u,
       cu_conference_leader = up_conference_leader u\<rparr>)"

end
