(* ===== verification/CallManager.thy ===== *)
theory CallManager
  imports Calls
begin

text \<open>
  The call manager of \<^verbatim>\<open>vacs-server/src/state/calls/manager.rs\<close>. Its four maps are the record
  \<open>call_manager\<close>; every method is a function from the state to the new state and the method's
  result. A method is one atomic step: attempt, accept, end and the first half of the disconnect
  cleanup hold the \<^verbatim>\<open>ringing_calls\<close> write lock throughout, the other methods are modelled
  without the interleavings between their lock sections. A closure that \<^verbatim>\<open>retain\<close> calls with side
  effects is a recursive function that returns the kept entries and the collected effects.
  Logging and metrics are left out.
\<close>

section \<open>Outcomes\<close>

datatype start_call_error =
    ST_CallerBusy | ST_AlreadyParticipant | ST_NotConferenceLeader | ST_NotParticipant

datatype drop_target_outcome =
    DT_CallNotFound
  | DT_NotPermitted
  | DT_Obsolete update_participants
  | DT_RingingTargetCancelled ringing_target update_participants
  | DT_ParticipantDropped client_id update_participants

datatype call_termination_outcome =
    CT_CallNotFound
  | CT_ClientNotNotified
  | CT_Continued
  | CT_TargetFailed "ringing_target list" update_participants
  | CT_Changed "update_call_action list"

datatype link_report_outcome =
    LR_InvalidReport
  | LR_Recorded
  | LR_Evicted client_id client_id "update_call_action list"

datatype accept_call_outcome =
    AC_Accepted ringing_target update_participants
  | AC_AcceptorBusy
  | AC_NotFound

section \<open>State\<close>

record call_manager =
  ringing_calls :: "(call_id, ringing_call_entry) hash_map"
  active_calls :: "(call_id, active_call_entry) hash_map"
  client_incoming_calls :: "(client_id, (call_id, call_target) hash_map) hash_map"
  client_active_calls :: "(client_id, call_id) hash_map"
  max_conf_size :: u32

definition call_manager_new :: "u32 \<Rightarrow> call_manager" where
  "call_manager_new n =
     \<lparr>ringing_calls = [], active_calls = [], client_incoming_calls = [], client_active_calls = [],
      max_conf_size = n\<rparr>"

definition has_active_call :: "call_id \<Rightarrow> client_id \<Rightarrow> call_manager \<Rightarrow> bool" where
  "has_active_call call_id client_id s =
     (case hm_get (active_calls s) call_id of
        Some active \<Rightarrow> active_involves active client_id
      | None \<Rightarrow> False)"

definition active_call_of :: "call_id \<Rightarrow> call_manager \<Rightarrow> active_call option" where
  "active_call_of call_id s = map_option active_call_of_entry (hm_get (active_calls s) call_id)"

definition call_duration :: "instant \<Rightarrow> call_id \<Rightarrow> call_manager \<Rightarrow> duration option" where
  "call_duration now call_id s =
     map_option (\<lambda>active. now - ace_accepted_at active) (hm_get (active_calls s) call_id)"

definition invite_exceeds_max_conf_size ::
  "call_id \<Rightarrow> client_id \<Rightarrow> call_target hash_set \<Rightarrow> call_manager \<Rightarrow> bool" where
  "invite_exceeds_max_conf_size call_id caller_id targets s =
     (let ringing = hm_get (ringing_calls s) call_id;
          ringing_len = (case ringing of Some call \<Rightarrow> length (rc_targets call) | None \<Rightarrow> 0);
          active = hm_get (active_calls s) call_id;
          joined_len = (case active of Some call \<Rightarrow> length (ace_participants call) | None \<Rightarrow> 0);
          caller_joined = (case active of
                             Some call \<Rightarrow> hm_contains_key caller_id (ace_participants call)
                           | None \<Rightarrow> False);
          new_targets = length (filter (\<lambda>target.
             \<not> (case ringing of Some call \<Rightarrow> hm_contains_key target (rc_targets call) | None \<Rightarrow> False) \<and>
             \<not> (case active of Some call \<Rightarrow> target \<in> set (hm_values (ace_participants call)) | None \<Rightarrow> False))
             targets)
      in joined_len + ringing_len + new_targets + (if caller_joined then 0 else 1) > unat (max_conf_size s))"

definition active_call_snapshot :: "call_id \<Rightarrow> call_manager \<Rightarrow> call_participants \<times> client_id option" where
  "active_call_snapshot call_id s =
     (case hm_get (active_calls s) call_id of
        Some active_call \<Rightarrow> (ace_participants active_call, ace_conference_leader active_call)
      | None \<Rightarrow> ([], None))"

section \<open>Index maintenance\<close>

definition insert_incoming ::
  "call_id \<Rightarrow> call_target \<Rightarrow> client_id \<Rightarrow> (client_id, (call_id, call_target) hash_map) hash_map
    \<Rightarrow> (client_id, (call_id, call_target) hash_map) hash_map" where
  "insert_incoming call_id target client_id m =
     hm_insert client_id
       (hm_insert call_id target (case hm_get m client_id of Some calls \<Rightarrow> calls | None \<Rightarrow> [])) m"

definition remove_incoming ::
  "call_id \<Rightarrow> client_id \<Rightarrow> (client_id, (call_id, call_target) hash_map) hash_map
    \<Rightarrow> (client_id, (call_id, call_target) hash_map) hash_map" where
  "remove_incoming call_id client_id m =
     (case hm_get m client_id of
        None \<Rightarrow> m
      | Some calls \<Rightarrow>
          (let calls = hm_remove call_id calls
           in if calls = [] then hm_remove client_id m else hm_insert client_id calls m))"

definition remove_client_incoming_call :: "call_id \<Rightarrow> client_id \<Rightarrow> call_manager \<Rightarrow> call_manager" where
  "remove_client_incoming_call call_id client_id s =
     s\<lparr>client_incoming_calls := remove_incoming call_id client_id (client_incoming_calls s)\<rparr>"

definition all_notified :: "ringing_call_entry \<Rightarrow> client_id list" where
  "all_notified r = concat (map rte_notified_clients (hm_values (rc_targets r)))"

definition cleanup_client_incoming_calls :: "ringing_call_entry \<Rightarrow> call_manager \<Rightarrow> call_manager" where
  "cleanup_client_incoming_calls r s =
     s\<lparr>client_incoming_calls := fold (remove_incoming (rc_call_id r)) (all_notified r) (client_incoming_calls s)\<rparr>"

text \<open>The busy marker of a client is removed only while it names the call at hand.\<close>

definition clear_busy :: "call_id \<Rightarrow> client_id \<Rightarrow> (client_id, call_id) hash_map \<Rightarrow> (client_id, call_id) hash_map" where
  "clear_busy call_id client_id m = (if hm_get m client_id = Some call_id then hm_remove client_id m else m)"

definition cancel_pending_invitations ::
  "call_id \<Rightarrow> call_attempt_outcome \<Rightarrow> call_manager \<Rightarrow> call_manager \<times> update_call_action list" where
  "cancel_pending_invitations call_id outcome s =
     (case hm_get (ringing_calls s) call_id of
        None \<Rightarrow> (s, [])
      | Some ringing \<Rightarrow>
          (cleanup_client_incoming_calls ringing (s\<lparr>ringing_calls := hm_remove call_id (ringing_calls s)\<rparr>),
           map CancelRingingTarget (complete_all_targets outcome ringing)))"

section \<open>Inviting\<close>

definition validate_call_attempt ::
  "call_id \<Rightarrow> client_id \<Rightarrow> call_target \<Rightarrow> client_id hash_set \<Rightarrow> call_manager \<Rightarrow> start_call_error + unit" where
  "validate_call_attempt call_id caller_id target notified_clients s =
     (case hm_get (client_active_calls s) caller_id of
        Some participating_call_id \<Rightarrow>
          if participating_call_id \<noteq> call_id then Inl ST_CallerBusy
          else
            (let active_error =
               (case hm_get (active_calls s) call_id of
                  Some active_call \<Rightarrow>
                    if (case ace_conference_leader active_call of
                          Some conference_leader \<Rightarrow> conference_leader \<noteq> caller_id
                        | None \<Rightarrow> False)
                    then Some ST_NotConferenceLeader
                    else if list_ex (\<lambda>(participant_id, participating_target).
                              participating_target = target \<or>
                              list_ex (\<lambda>callee. participant_id = callee) notified_clients)
                            (ace_participants active_call)
                    then Some ST_AlreadyParticipant
                    else None
                | None \<Rightarrow> None);
              active_targets =
               (case hm_get (active_calls s) call_id of
                  Some active_call \<Rightarrow> hm_values (ace_participants active_call)
                | None \<Rightarrow> [])
             in case active_error of
                  Some err \<Rightarrow> Inl err
                | None \<Rightarrow>
                    if target \<in> set active_targets then Inl ST_AlreadyParticipant
                    else
                      (case hm_get (ringing_calls s) call_id of
                         Some ringing_call \<Rightarrow>
                           if rc_caller_id ringing_call \<noteq> caller_id then Inl ST_NotConferenceLeader
                           else if hm_contains_key target (rc_targets ringing_call) then Inl ST_AlreadyParticipant
                           else if list_ex (\<lambda>e. list_ex (\<lambda>callee. callee \<in> set (rte_notified_clients e)) notified_clients)
                                     (hm_values (rc_targets ringing_call))
                           then Inl ST_AlreadyParticipant
                           else Inr ()
                       | None \<Rightarrow> Inr ()))
      | None \<Rightarrow>
          if hm_contains_key call_id (active_calls s) then Inl ST_NotParticipant
          else if hm_contains_key call_id (ringing_calls s) then Inl ST_NotParticipant
          else Inr ())"

definition attempt_call ::
  "call_id \<Rightarrow> client_id \<Rightarrow> call_source \<Rightarrow> call_target \<Rightarrow> client_id hash_set \<Rightarrow> call_manager
    \<Rightarrow> call_manager \<times> (start_call_error + (call_participants \<times> call_participants))" where
  "attempt_call call_id caller_id source target notified_clients s =
     (case validate_call_attempt call_id caller_id target notified_clients s of
        Inl err \<Rightarrow> (s, Inl err)
      | Inr _ \<Rightarrow>
          (let (ringing_call, ringing_participants) =
             (case hm_get (ringing_calls s) call_id of
                Some ringing_call_entry \<Rightarrow>
                  (let r = add_target source target notified_clients ringing_call_entry
                   in (r, invited_participants r))
              | None \<Rightarrow>
                  (ringing_call_entry_new call_id caller_id source target notified_clients,
                   hm_collect (map (\<lambda>client. (client, target)) notified_clients)));
            s' = s\<lparr>ringing_calls := hm_insert call_id ringing_call (ringing_calls s),
                   client_active_calls := hm_insert caller_id call_id (client_active_calls s),
                   client_incoming_calls :=
                     fold (insert_incoming call_id target) notified_clients (client_incoming_calls s)\<rparr>;
            joined_participants =
              (case hm_get (active_calls s') call_id of
                 Some active_call \<Rightarrow> ace_participants active_call
               | None \<Rightarrow> [])
           in (s', Inr (ringing_participants, joined_participants))))"

section \<open>Rejecting and failing a ringing client\<close>

text \<open>The \<^verbatim>\<open>retain\<close> closure: kept targets, whether the client was marked, terminated targets.\<close>

fun mark_targets ::
  "(ringing_target_entry \<Rightarrow> client_id \<Rightarrow> ringing_target_entry) \<Rightarrow> call_attempt_outcome \<Rightarrow> call_id
    \<Rightarrow> client_id \<Rightarrow> client_id \<Rightarrow> (call_target, ringing_target_entry) hash_map
    \<Rightarrow> (call_target, ringing_target_entry) hash_map \<times> bool \<times> ringing_target list" where
  "mark_targets mark_fn outcome call_id caller_id client_id [] = ([], False, [])"
| "mark_targets mark_fn outcome call_id caller_id client_id ((target, e) # ts) =
     (let (kept, marked_once, terminated) = mark_targets mark_fn outcome call_id caller_id client_id ts
      in if \<not> has_notified_client e client_id \<or> has_failed_client e client_id
         then ((target, e) # kept, marked_once, terminated)
         else
           (let e' = mark_fn e client_id
            in if all_rejected_or_errored e'
               then (kept, True, snd (complete outcome call_id caller_id (rte_source e') target e') # terminated)
               else ((target, e') # kept, True, terminated)))"

definition mark_client_within_ringing_calls ::
  "(ringing_target_entry \<Rightarrow> client_id \<Rightarrow> ringing_target_entry) \<Rightarrow> call_attempt_outcome
    \<Rightarrow> call_id \<Rightarrow> client_id \<Rightarrow> call_manager \<Rightarrow> call_manager \<times> call_termination_outcome" where
  "mark_client_within_ringing_calls mark_fn outcome call_id client_id s0 =
     (let s = remove_client_incoming_call call_id client_id s0
      in case hm_get (ringing_calls s) call_id of
           None \<Rightarrow> (s, CT_CallNotFound)
         | Some r \<Rightarrow>
             if rc_caller_id r = client_id then (s, CT_ClientNotNotified)
             else
               (let (targets, marked_once, terminated) =
                  mark_targets mark_fn outcome call_id (rc_caller_id r) client_id (rc_targets r);
                  r' = r\<lparr>rc_targets := targets\<rparr>
                in if \<not> marked_once
                   then (s\<lparr>ringing_calls := hm_insert call_id r' (ringing_calls s)\<rparr>, CT_ClientNotNotified)
                   else
                     (let invited = invited_participants r';
                          s = (if targets = []
                               then s\<lparr>ringing_calls := hm_remove call_id (ringing_calls s),
                                      client_active_calls :=
                                        (if list_ex (\<lambda>a. active_involves a (rc_caller_id r)) (hm_values (active_calls s))
                                         then client_active_calls s
                                         else hm_remove (rc_caller_id r) (client_active_calls s))\<rparr>
                               else s\<lparr>ringing_calls := hm_insert call_id r' (ringing_calls s)\<rparr>)
                      in if terminated \<noteq> []
                         then
                           (let (joined, leader) = active_call_snapshot call_id s
                            in (s, CT_TargetFailed terminated
                                  \<lparr>up_call_id = call_id, up_invited_participants = invited,
                                   up_joined_participants = joined, up_conference_leader = leader\<rparr>))
                         else (s, CT_Continued))))"

definition reject_call :: "call_id \<Rightarrow> client_id \<Rightarrow> call_manager \<Rightarrow> call_manager \<times> call_termination_outcome" where
  "reject_call call_id rejecting_client_id s =
     mark_client_within_ringing_calls mark_rejected OutcomeRejected call_id rejecting_client_id s"

definition fail_ringing_recipient ::
  "call_id \<Rightarrow> client_id \<Rightarrow> call_error_reason \<Rightarrow> call_manager \<Rightarrow> call_manager \<times> call_termination_outcome" where
  "fail_ringing_recipient call_id client_id reason s =
     mark_client_within_ringing_calls mark_errored (OutcomeError reason) call_id client_id s"

section \<open>Accepting\<close>

text \<open>
  The \<^verbatim>\<open>retain\<close> closure of \<^verbatim>\<open>accept_call\<close>: targets the accepting client was notified for
  are removed and merged into one ringing target, keeping the smallest target.
\<close>

fun accept_targets ::
  "call_id \<Rightarrow> client_id \<Rightarrow> client_id \<Rightarrow> (call_target, ringing_target_entry) hash_map
    \<Rightarrow> ringing_target option \<Rightarrow> (call_target, ringing_target_entry) hash_map \<times> ringing_target option" where
  "accept_targets call_id caller_id client_id [] acc = ([], acc)"
| "accept_targets call_id caller_id client_id ((target, e) # ts) acc =
     (if has_notified_client e client_id
      then
        (let new = snd (complete OutcomeAccepted call_id caller_id (rte_source e) target e);
             new = (case acc of
                      Some old \<Rightarrow>
                        (let new = new\<lparr>rt_notified_clients :=
                                         hs_extend (rt_notified_clients old) (rt_notified_clients new)\<rparr>
                         in if rt_target new > rt_target old then new\<lparr>rt_target := rt_target old\<rparr> else new)
                    | None \<Rightarrow> new)
         in accept_targets call_id caller_id client_id ts (Some new))
      else
        (let (kept, res) = accept_targets call_id caller_id client_id ts acc
         in ((target, e) # kept, res)))"

text \<open>Joining the active call: the third participant turns the call into a conference.\<close>

definition join_active_call :: "client_id \<Rightarrow> ringing_target \<Rightarrow> active_call_entry \<Rightarrow> active_call_entry" where
  "join_active_call accepting_client_id ringing_target active_call =
     (let a = active_call\<lparr>ace_participants :=
                hm_insert accepting_client_id (rt_target ringing_target) (ace_participants active_call)\<rparr>;
          a = record_join accepting_client_id a;
          a = record_participants (length (ace_participants a)) a
      in if ace_conference_leader a = None
         then a\<lparr>ace_conference_leader := Some (cs_client_id (rt_source ringing_target))\<rparr>
         else a)"

text \<open>The first accept of a call creates the active call with the caller and the accepting client.\<close>

definition open_active_call :: "instant \<Rightarrow> call_id \<Rightarrow> client_id \<Rightarrow> ringing_target \<Rightarrow> active_call_entry" where
  "open_active_call now call_id accepting_client_id ringing_target =
     (let participants = hm_collect
            [(accepting_client_id, rt_target ringing_target),
             (rt_caller_id ringing_target, call_target_of_source (rt_source ringing_target))];
          active = active_call_entry_new now call_id None participants
      in record_join accepting_client_id (record_join (rt_caller_id ringing_target) active))"

definition accept_call :: "instant \<Rightarrow> call_id \<Rightarrow> client_id \<Rightarrow> call_manager \<Rightarrow> call_manager \<times> accept_call_outcome" where
  "accept_call now call_id accepting_client_id s =
     (if hm_contains_key accepting_client_id (client_active_calls s) then (s, AC_AcceptorBusy)
      else case hm_get (ringing_calls s) call_id of
             None \<Rightarrow> (s, AC_NotFound)
           | Some ringing_call \<Rightarrow>
               (let (targets, accepted) =
                  accept_targets call_id (rc_caller_id ringing_call) accepting_client_id (rc_targets ringing_call) None;
                  ringing_call = ringing_call\<lparr>rc_targets := targets\<rparr>;
                  invited = invited_participants ringing_call;
                  s = s\<lparr>ringing_calls := (if targets = [] then hm_remove call_id (ringing_calls s)
                                          else hm_insert call_id ringing_call (ringing_calls s))\<rparr>
                in case accepted of
                     None \<Rightarrow> (s, AC_NotFound)
                   | Some ringing_target \<Rightarrow>
                       (let active = (case hm_get (active_calls s) call_id of
                              Some active_call \<Rightarrow> join_active_call accepting_client_id ringing_target active_call
                            | None \<Rightarrow> open_active_call now call_id accepting_client_id ringing_target);
                            s = s\<lparr>client_incoming_calls :=
                                   fold (remove_incoming call_id) (rt_notified_clients ringing_target)
                                     (client_incoming_calls s),
                                  active_calls := hm_insert call_id active (active_calls s),
                                  client_active_calls := hm_insert accepting_client_id call_id (client_active_calls s)\<rparr>
                        in (s, AC_Accepted ringing_target
                              \<lparr>up_call_id = call_id, up_invited_participants = invited,
                               up_joined_participants = ace_participants active,
                               up_conference_leader = ace_conference_leader active\<rparr>))))"

section \<open>Dropping a target\<close>

definition drop_ringing_target ::
  "call_id \<Rightarrow> client_id \<Rightarrow> call_target \<Rightarrow> call_drop_reason \<Rightarrow> call_manager
    \<Rightarrow> call_manager \<times> drop_target_outcome option" where
  "drop_ringing_target call_id dropping_client_id target reason s =
     (case hm_get (ringing_calls s) call_id of
        None \<Rightarrow> (s, None)
      | Some ringing_call \<Rightarrow>
          (case hm_get (rc_targets ringing_call) target of
             None \<Rightarrow> (s, None)
           | Some e \<Rightarrow>
               if cs_client_id (rte_source e) \<noteq> dropping_client_id then (s, Some DT_NotPermitted)
               else
                 (let caller_id = rc_caller_id ringing_call;
                      ringing_target =
                        snd (complete (outcome_of_drop_reason reason) call_id caller_id (rte_source e) target e);
                      ringing_call = ringing_call\<lparr>rc_targets := hm_remove target (rc_targets ringing_call)\<rparr>;
                      invited = invited_participants ringing_call;
                      ringing_ended = (rc_targets ringing_call = []);
                      s = s\<lparr>ringing_calls := (if ringing_ended then hm_remove call_id (ringing_calls s)
                                             else hm_insert call_id ringing_call (ringing_calls s))\<rparr>;
                      s = fold (remove_client_incoming_call call_id) (rt_notified_clients ringing_target) s;
                      (joined, leader) = active_call_snapshot call_id s;
                      s = (if ringing_ended \<and> \<not> hm_contains_key caller_id joined
                           then s\<lparr>client_active_calls := clear_busy call_id caller_id (client_active_calls s)\<rparr>
                           else s)
                  in (s, Some (DT_RingingTargetCancelled ringing_target
                           \<lparr>up_call_id = call_id, up_invited_participants = invited,
                            up_joined_participants = joined, up_conference_leader = leader\<rparr>)))))"

text \<open>Removing a joined participant from an active call; a call of two has no leader.\<close>

definition remove_participant :: "client_id \<Rightarrow> active_call_entry \<Rightarrow> active_call_entry" where
  "remove_participant client_id a =
     (let a = a\<lparr>ace_participants := hm_remove client_id (ace_participants a)\<rparr>;
          a = forget_participant client_id a
      in if length (ace_participants a) \<le> 2 then a\<lparr>ace_conference_leader := None\<rparr> else a)"

definition find_participant :: "call_target \<Rightarrow> call_participants \<Rightarrow> client_id option" where
  "find_participant target participants =
     map_option fst (List.find (\<lambda>(_, t). t = target) participants)"

definition drop_joined_participant ::
  "call_id \<Rightarrow> client_id \<Rightarrow> call_target \<Rightarrow> call_drop_reason \<Rightarrow> call_manager
    \<Rightarrow> call_manager \<times> drop_target_outcome" where
  "drop_joined_participant call_id dropping_client_id target reason s =
     (let finish = (\<lambda>dropped s.
            (let invited = (case hm_get (ringing_calls s) call_id of
                              Some r \<Rightarrow> invited_participants r | None \<Rightarrow> []);
                 (joined, leader) = active_call_snapshot call_id s;
                 update = \<lparr>up_call_id = call_id, up_invited_participants = invited,
                           up_joined_participants = joined, up_conference_leader = leader\<rparr>
             in case dropped of
                  None \<Rightarrow> (s, if invited = [] \<and> joined = [] then DT_CallNotFound else DT_Obsolete update)
                | Some dropped_client_id \<Rightarrow>
                    (s\<lparr>client_active_calls := clear_busy call_id dropped_client_id (client_active_calls s)\<rparr>,
                     DT_ParticipantDropped dropped_client_id update)))
      in case hm_get (active_calls s) call_id of
           None \<Rightarrow> finish None s
         | Some active_call \<Rightarrow>
             if \<not> active_involves active_call dropping_client_id then (s, DT_NotPermitted)
             else
               (case find_participant target (ace_participants active_call) of
                  None \<Rightarrow> finish None s
                | Some dropped_client_id \<Rightarrow>
                    if reason = DropAutoHangup then finish None s
                    else if dropped_client_id = dropping_client_id then (s, DT_NotPermitted)
                    else if length (ace_participants active_call) \<le> 2 then (s, DT_NotPermitted)
                    else if ace_conference_leader active_call \<noteq> Some dropping_client_id then (s, DT_NotPermitted)
                    else
                      finish (Some dropped_client_id)
                        (s\<lparr>active_calls := hm_insert call_id (remove_participant dropped_client_id active_call)
                              (active_calls s)\<rparr>)))"

definition drop_target ::
  "call_id \<Rightarrow> client_id \<Rightarrow> call_target \<Rightarrow> call_drop_reason \<Rightarrow> call_manager
    \<Rightarrow> call_manager \<times> drop_target_outcome" where
  "drop_target call_id dropping_client_id target reason s =
     (case drop_ringing_target call_id dropping_client_id target reason s of
        (s', Some outcome) \<Rightarrow> (s', outcome)
      | (s', None) \<Rightarrow> drop_joined_participant call_id dropping_client_id target reason s')"

section \<open>Ending a call\<close>

text \<open>The ringing half of \<^verbatim>\<open>end_call\<close>: only the caller of the invite batch cancels it.\<close>

definition end_call_ringing :: "call_id \<Rightarrow> client_id \<Rightarrow> call_manager \<Rightarrow> call_manager \<times> update_call_action list option" where
  "end_call_ringing call_id ending_client_id s =
     (case hm_get (ringing_calls s) call_id of
        Some ringing \<Rightarrow>
          if rc_caller_id ringing = ending_client_id
          then
            (let s = s\<lparr>ringing_calls := hm_remove call_id (ringing_calls s)\<rparr>;
                 s = cleanup_client_incoming_calls ringing s;
                 s = s\<lparr>client_active_calls := hm_remove ending_client_id (client_active_calls s)\<rparr>
             in (s, Some (map CancelRingingTarget (complete_all_targets OutcomeCancelled ringing))))
          else (s, None)
      | None \<Rightarrow> (s, None))"

text \<open>
  The active half: a last remaining participant or the leader, or either side of a two-party
  call, tears the call down with its pending invitations; any other participant leaves.
\<close>

definition end_call_active :: "call_id \<Rightarrow> client_id \<Rightarrow> call_manager \<Rightarrow> call_manager \<times> update_call_action list option" where
  "end_call_active call_id ending_client_id s =
     (case hm_get (active_calls s) call_id of
        None \<Rightarrow> (s, None)
      | Some active_call \<Rightarrow>
          if \<not> active_involves active_call ending_client_id then (s, None)
          else
            (let others = participants_without_self active_call ending_client_id
             in if others = []
                then
                  (let s = s\<lparr>active_calls := hm_remove call_id (active_calls s)\<rparr>;
                       (s, actions) = cancel_pending_invitations call_id OutcomeCancelled s
                   in (s\<lparr>client_active_calls := clear_busy call_id ending_client_id (client_active_calls s)\<rparr>,
                       Some actions))
                else if ace_conference_leader active_call = Some ending_client_id \<or> length others \<le> 1
                then
                  (let s = s\<lparr>active_calls := hm_remove call_id (active_calls s),
                             client_active_calls :=
                               clear_busy call_id ending_client_id
                                 (fold (clear_busy call_id) (hm_keys others) (client_active_calls s))\<rparr>;
                       (s, cancelled) = cancel_pending_invitations call_id OutcomeCancelled s
                   in (s, Some (map (DropParticipant call_id) (hm_keys others) @ cancelled)))
                else
                  (let active_call = remove_participant ending_client_id active_call;
                       s = s\<lparr>active_calls := hm_insert call_id active_call (active_calls s),
                             client_active_calls := clear_busy call_id ending_client_id (client_active_calls s)\<rparr>;
                       invited = (case hm_get (ringing_calls s) call_id of
                                    Some r \<Rightarrow> invited_participants r | None \<Rightarrow> [])
                   in (s, Some [UpdateParticipants
                          \<lparr>up_call_id = call_id, up_invited_participants = invited,
                           up_joined_participants = ace_participants active_call,
                           up_conference_leader = ace_conference_leader active_call\<rparr>]))))"

definition end_call :: "call_id \<Rightarrow> client_id \<Rightarrow> call_manager \<Rightarrow> call_manager \<times> update_call_action list option" where
  "end_call call_id ending_client_id s =
     (let (s, ringing_actions) = end_call_ringing call_id ending_client_id s;
          (s, active_actions) = end_call_active call_id ending_client_id s
      in (s, case (active_actions, ringing_actions) of
               (Some active, Some ringing) \<Rightarrow> Some (active @ ringing)
             | (Some active, None) \<Rightarrow> Some active
             | (None, ringing) \<Rightarrow> ringing))"

definition call_error_op :: "call_id \<Rightarrow> client_id \<Rightarrow> call_manager \<Rightarrow> call_manager \<times> call_termination_outcome" where
  "call_error_op call_id erroring_client_id s =
     (let (s, outcome) = mark_client_within_ringing_calls mark_errored (OutcomeError CallFailure)
                           call_id erroring_client_id s
      in case outcome of
           CT_Continued \<Rightarrow> (s, outcome)
         | CT_TargetFailed _ _ \<Rightarrow> (s, outcome)
         | _ \<Rightarrow>
             (case end_call call_id erroring_client_id s of
                (s, None) \<Rightarrow> (s, CT_CallNotFound)
              | (s, Some actions) \<Rightarrow> (s, CT_Changed actions)))"

section \<open>Disconnect cleanup\<close>

text \<open>
  \<^verbatim>\<open>cleanup_client_calls\<close> in three parts: the ringing call the client started, the active call
  it takes part in (both found through its busy marker), and the calls it is ringing for. The
  actions it collects are sent by the message layer.
\<close>

definition cleanup_ringing_part :: "call_id \<Rightarrow> client_id \<Rightarrow> call_manager \<Rightarrow> call_manager \<times> update_call_action list" where
  "cleanup_ringing_part call_id client_id s =
     (case hm_get (ringing_calls s) call_id of
        Some ringing_call \<Rightarrow>
          if rc_caller_id ringing_call = client_id
          then
            (s\<lparr>ringing_calls := hm_remove call_id (ringing_calls s),
               client_incoming_calls :=
                 fold (remove_incoming call_id) (all_notified ringing_call) (client_incoming_calls s)\<rparr>,
             map CancelRingingTarget (complete_all_targets OutcomeAborted ringing_call))
          else (s, [])
      | None \<Rightarrow> (s, []))"

definition cleanup_active_part :: "call_id \<Rightarrow> client_id \<Rightarrow> call_manager \<Rightarrow> call_manager \<times> update_call_action list" where
  "cleanup_active_part call_id client_id s =
     (case hm_get (active_calls s) call_id of
        None \<Rightarrow> (s, [])
      | Some active_call \<Rightarrow>
          if hm_contains_key client_id (ace_participants active_call)
          then
            (let others = participants_without_self active_call client_id
             in if others = []
                then cancel_pending_invitations call_id OutcomeAborted
                       (s\<lparr>active_calls := hm_remove call_id (active_calls s)\<rparr>)
                else if ace_conference_leader active_call = Some client_id \<or> length others \<le> 1
                then
                  (let s = s\<lparr>active_calls := hm_remove call_id (active_calls s),
                             client_active_calls :=
                               fold (clear_busy call_id) (hm_keys others) (client_active_calls s)\<rparr>;
                       (s, cancelled) = cancel_pending_invitations call_id OutcomeAborted s
                   in (s, map (DropParticipant call_id) (hm_keys others) @ cancelled))
                else
                  (let active_call = remove_participant client_id active_call;
                       s = s\<lparr>active_calls := hm_insert call_id active_call (active_calls s)\<rparr>;
                       invited = (case hm_get (ringing_calls s) call_id of
                                    Some r \<Rightarrow> invited_participants r | None \<Rightarrow> [])
                   in (s, [UpdateParticipants
                          \<lparr>up_call_id = call_id, up_invited_participants = invited,
                           up_joined_participants = ace_participants active_call,
                           up_conference_leader = ace_conference_leader active_call\<rparr>])))
          else (s, []))"

text \<open>One entry of the loop over the calls the disconnecting client is ringing for.\<close>

definition cleanup_incoming_call ::
  "client_id \<Rightarrow> call_id \<times> call_target \<Rightarrow> call_manager \<times> update_call_action list
    \<Rightarrow> call_manager \<times> update_call_action list" where
  "cleanup_incoming_call client_id = (\<lambda>(call_id, call_target) (s, actions).
     case hm_get (ringing_calls s) call_id of
       None \<Rightarrow> (s, actions)
     | Some ringing_call \<Rightarrow>
         (let (ringing_call, new_actions) =
            (case hm_get (rc_targets ringing_call) call_target of
               None \<Rightarrow> (ringing_call, [])
             | Some e \<Rightarrow>
                 (let e = e\<lparr>rte_notified_clients := hs_remove client_id (rte_notified_clients e),
                            rte_rejected_clients := hs_remove client_id (rte_rejected_clients e),
                            rte_errored_clients := hs_remove client_id (rte_errored_clients e)\<rparr>
                  in if all_rejected_or_errored e
                     then
                       (let cancelled = snd (complete OutcomeAborted (rc_call_id ringing_call)
                                               (rc_caller_id ringing_call) (rte_source e) call_target e);
                            ringing_call = ringing_call\<lparr>rc_targets := hm_remove call_target (rc_targets ringing_call)\<rparr>;
                            (joined, leader) = active_call_snapshot call_id s
                        in (ringing_call,
                            [CancelRingingTarget cancelled,
                             UpdateParticipants
                               \<lparr>up_call_id = call_id, up_invited_participants = invited_participants ringing_call,
                                up_joined_participants = joined, up_conference_leader = leader\<rparr>]))
                     else (ringing_call\<lparr>rc_targets := hm_insert call_target e (rc_targets ringing_call)\<rparr>, [])))
          in (if all_targets_failed ringing_call
              then s\<lparr>ringing_calls := hm_remove call_id (ringing_calls s),
                     client_active_calls :=
                       (if list_ex (\<lambda>a. active_involves a (rc_caller_id ringing_call)) (hm_values (active_calls s))
                        then client_active_calls s
                        else hm_remove (rc_caller_id ringing_call) (client_active_calls s))\<rparr>
              else s\<lparr>ringing_calls := hm_insert call_id ringing_call (ringing_calls s)\<rparr>,
              actions @ new_actions)))"

definition cleanup_own_call :: "client_id \<Rightarrow> call_manager \<Rightarrow> call_manager \<times> update_call_action list" where
  "cleanup_own_call client_id s =
     (case hm_get (client_active_calls s) client_id of
        None \<Rightarrow> (s, [])
      | Some call_id \<Rightarrow>
          (let s = s\<lparr>client_active_calls := hm_remove client_id (client_active_calls s)\<rparr>;
               (s, ringing_actions) = cleanup_ringing_part call_id client_id s;
               (s, active_actions) = cleanup_active_part call_id client_id s
           in (s, ringing_actions @ active_actions)))"

definition cleanup_client_calls :: "client_id \<Rightarrow> call_manager \<Rightarrow> call_manager \<times> update_call_action list" where
  "cleanup_client_calls client_id s =
     (let (s, actions) = cleanup_own_call client_id s
      in case hm_get (client_incoming_calls s) client_id of
           None \<Rightarrow> (s, actions)
         | Some incoming \<Rightarrow>
             fold (cleanup_incoming_call client_id) incoming
               (s\<lparr>client_incoming_calls := hm_remove client_id (client_incoming_calls s)\<rparr>, actions))"

section \<open>Dead links\<close>

definition report_link_failure ::
  "instant \<Rightarrow> call_id \<Rightarrow> client_id \<Rightarrow> client_id \<Rightarrow> call_manager \<Rightarrow> call_manager \<times> link_report_outcome" where
  "report_link_failure now call_id reporter_id peer_id s =
     (if reporter_id = peer_id then (s, LR_InvalidReport)
      else case hm_get (active_calls s) call_id of
             None \<Rightarrow> (s, LR_InvalidReport)
           | Some active_call \<Rightarrow>
               if \<not> hm_contains_key reporter_id (ace_participants active_call) \<or>
                  \<not> hm_contains_key peer_id (ace_participants active_call)
               then (s, LR_InvalidReport)
               else
                 (let (active_call, confirmed) = record_link_report_at reporter_id peer_id now active_call;
                      s = s\<lparr>active_calls := hm_insert call_id active_call (active_calls s)\<rparr>
                  in if \<not> confirmed then (s, LR_Recorded)
                     else
                       (let evicted = later_joiner active_call reporter_id peer_id;
                            unreachable = (if evicted = reporter_id then peer_id else reporter_id)
                        in case end_call call_id evicted s of
                             (s, Some actions) \<Rightarrow> (s, LR_Evicted evicted unreachable actions)
                           | (s, None) \<Rightarrow> (s, LR_Recorded))))"

section \<open>Queries\<close>

definition call_state_if ::
  "call_id \<Rightarrow> (ringing_call_entry option \<Rightarrow> call_participants \<Rightarrow> call_participants \<Rightarrow> bool) \<Rightarrow> call_manager
    \<Rightarrow> update_participants option" where
  "call_state_if call_id involved s =
     (let ringing = hm_get (ringing_calls s) call_id;
          invited = (case ringing of Some r \<Rightarrow> invited_participants r | None \<Rightarrow> []);
          (joined, leader) = active_call_snapshot call_id s
      in if involved ringing invited joined
         then Some \<lparr>up_call_id = call_id, up_invited_participants = invited,
                    up_joined_participants = joined, up_conference_leader = leader\<rparr>
         else None)"

definition call_state_update :: "call_id \<Rightarrow> client_id \<Rightarrow> call_manager \<Rightarrow> update_participants option" where
  "call_state_update call_id client_id =
     call_state_if call_id (\<lambda>ringing _ joined.
       (case ringing of
          Some call \<Rightarrow> rc_caller_id call = client_id \<or>
            list_ex (\<lambda>e. cs_client_id (rte_source e) = client_id) (hm_values (rc_targets call))
        | None \<Rightarrow> False) \<or> hm_contains_key client_id joined)"

definition call_state_for_party :: "call_id \<Rightarrow> client_id \<Rightarrow> call_manager \<Rightarrow> update_participants option" where
  "call_state_for_party call_id client_id =
     call_state_if call_id (\<lambda>ringing invited joined.
       (case ringing of Some call \<Rightarrow> rc_caller_id call = client_id | None \<Rightarrow> False) \<or>
       hm_contains_key client_id invited \<or> hm_contains_key client_id joined)"

definition is_party :: "call_id \<Rightarrow> client_id \<Rightarrow> call_manager \<Rightarrow> bool" where
  "is_party call_id client_id s \<longleftrightarrow>
     (case hm_get (ringing_calls s) call_id of Some call \<Rightarrow> ringing_involves call client_id | None \<Rightarrow> False) \<or>
     (case hm_get (active_calls s) call_id of
        Some call \<Rightarrow> hm_contains_key client_id (ace_participants call) | None \<Rightarrow> False)"

text \<open>The two queries for the parties of a call agree.\<close>

lemma call_state_for_party_eq:
  "call_state_for_party c x s =
    (if is_party c x s
     then Some \<lparr>up_call_id = c,
       up_invited_participants = (case hm_get (ringing_calls s) c of Some r \<Rightarrow> invited_participants r | None \<Rightarrow> []),
       up_joined_participants = (case hm_get (active_calls s) c of Some a \<Rightarrow> ace_participants a | None \<Rightarrow> []),
       up_conference_leader = (case hm_get (active_calls s) c of Some a \<Rightarrow> ace_conference_leader a | None \<Rightarrow> None)\<rparr>
     else None)"
proof -
  have "hm_contains_key x (invited_participants r) \<longleftrightarrow> list_ex (\<lambda>e. x \<in> set (rte_notified_clients e)) (hm_values (rc_targets r))" for r
    unfolding hm_contains_key_iff invited_participants_def set_keys_collect
    by (force simp: list_ex_iff hm_values_def)
  then show ?thesis
    by (auto simp: is_party_def call_state_for_party_def call_state_if_def active_call_snapshot_def ringing_involves_def
        hm_contains_key_iff Let_def split: option.splits if_splits)
qed

end
