(* ===== verification/CallInvariant.thy ===== *)
theory CallInvariant
  imports CallManager
begin

text \<open>
  The invariant of the call manager and its preservation by every operation. The two indexes
  \<^verbatim>\<open>client_incoming_calls\<close> and \<^verbatim>\<open>client_active_calls\<close> are redundant: the invariant says
  they are exactly what the ringing and active calls determine (\<open>invited_as\<close> and \<open>busy_in\<close>),
  and that each call is locally well formed (\<open>call_ok\<close>). Every operation changes a single call,
  so its proof is a local fact about that call plus the effect on the two indexes, joined by the
  lemma \<open>inv_ex_update\<close>. The exception set of \<open>inv_ex\<close> covers the loop of the disconnect
  cleanup, which removes the client's index entry before it visits the calls.
\<close>

named_theorems call_lookup \<open>lookups after the call manager's map updates\<close>

section \<open>Local well-formedness\<close>

definition entry_ok :: "client_id \<Rightarrow> ringing_target_entry \<Rightarrow> bool" where
  "entry_ok caller e \<longleftrightarrow>
     distinct (rte_notified_clients e) \<and> rte_notified_clients e \<noteq> [] \<and>
     caller \<notin> set (rte_notified_clients e) \<and> cs_client_id (rte_source e) = caller \<and>
     set (rte_notified_clients e) \<inter> (set (rte_rejected_clients e) \<union> set (rte_errored_clients e)) = {}"

definition targets_ok :: "client_id \<Rightarrow> (call_target, ringing_target_entry) hash_map \<Rightarrow> bool" where
  "targets_ok caller ts \<longleftrightarrow>
     hm_ok ts \<and> (\<forall>(t, e) \<in> set ts. entry_ok caller e) \<and>
     distinct (concat (map rte_notified_clients (hm_values ts)))"

definition ring_ok :: "call_id \<Rightarrow> ringing_call_entry \<Rightarrow> bool" where
  "ring_ok c r \<longleftrightarrow>
     rc_call_id r = c \<and> rc_targets r \<noteq> [] \<and> targets_ok (rc_caller_id r) (rc_targets r)"

definition join_ok :: "active_call_entry \<Rightarrow> bool" where
  "join_ok a \<longleftrightarrow>
     hm_ok (ace_join_order a) \<and>
     set (hm_keys (ace_join_order a)) = set (hm_keys (ace_participants a)) \<and>
     distinct (hm_values (ace_join_order a)) \<and>
     (\<forall>n \<in> set (hm_values (ace_join_order a)). n < ace_next_join_seq a)"

definition links_ok :: "active_call_entry \<Rightarrow> bool" where
  "links_ok a \<longleftrightarrow>
     hm_ok (ace_link_reports a) \<and>
     (\<forall>((x, y), rep) \<in> set (ace_link_reports a).
        x < y \<and> x \<in> set (hm_keys (ace_participants a)) \<and> y \<in> set (hm_keys (ace_participants a)) \<and>
        set (lr_reporters rep) \<subseteq> {x, y})"

definition active_ok :: "call_id \<Rightarrow> active_call_entry \<Rightarrow> bool" where
  "active_ok c a \<longleftrightarrow>
     ace_call_id a = c \<and> hm_ok (ace_participants a) \<and> 2 \<le> length (ace_participants a) \<and>
     (ace_conference_leader a = None \<longleftrightarrow> length (ace_participants a) = 2) \<and>
     (case ace_conference_leader a of
        Some l \<Rightarrow> l \<in> set (hm_keys (ace_participants a)) | None \<Rightarrow> True) \<and>
     join_ok a \<and> links_ok a"

definition pair_ok :: "ringing_call_entry \<Rightarrow> active_call_entry \<Rightarrow> bool" where
  "pair_ok r a \<longleftrightarrow>
     rc_caller_id r \<in> set (hm_keys (ace_participants a)) \<and>
     (ace_conference_leader a \<noteq> None \<longrightarrow> ace_conference_leader a = Some (rc_caller_id r)) \<and>
     set (all_notified r) \<inter> set (hm_keys (ace_participants a)) = {}"

definition call_ok :: "call_id \<Rightarrow> ringing_call_entry option \<Rightarrow> active_call_entry option \<Rightarrow> bool" where
  "call_ok c R A \<longleftrightarrow>
     (case R of Some r \<Rightarrow> ring_ok c r | None \<Rightarrow> True) \<and>
     (case A of Some a \<Rightarrow> active_ok c a | None \<Rightarrow> True) \<and>
     (case (R, A) of (Some r, Some a) \<Rightarrow> pair_ok r a | _ \<Rightarrow> True)"

section \<open>The indexes and what determines them\<close>

definition invited_as :: "ringing_call_entry option \<Rightarrow> client_id \<Rightarrow> call_target option" where
  "invited_as R x = (case R of Some r \<Rightarrow> hm_get (invited_participants r) x | None \<Rightarrow> None)"

definition busy_in :: "ringing_call_entry option \<Rightarrow> active_call_entry option \<Rightarrow> client_id \<Rightarrow> bool" where
  "busy_in R A x \<longleftrightarrow>
     (case R of Some r \<Rightarrow> rc_caller_id r = x | None \<Rightarrow> False) \<or>
     (case A of Some a \<Rightarrow> x \<in> set (hm_keys (ace_participants a)) | None \<Rightarrow> False)"

definition inc_get ::
  "(client_id, (call_id, call_target) hash_map) hash_map \<Rightarrow> client_id \<Rightarrow> call_id \<Rightarrow> call_target option" where
  "inc_get m x c = (case hm_get m x of Some calls \<Rightarrow> hm_get calls c | None \<Rightarrow> None)"

definition inc_ok :: "(client_id, (call_id, call_target) hash_map) hash_map \<Rightarrow> bool" where
  "inc_ok m \<longleftrightarrow> hm_ok m \<and> (\<forall>(x, calls) \<in> set m. hm_ok calls \<and> calls \<noteq> [])"

definition inv_ex :: "(client_id \<times> call_id) set \<Rightarrow> call_manager \<Rightarrow> bool" where
  "inv_ex E s \<longleftrightarrow>
     hm_ok (ringing_calls s) \<and> hm_ok (active_calls s) \<and> inc_ok (client_incoming_calls s) \<and>
     hm_ok (client_active_calls s) \<and>
     (\<forall>c. call_ok c (hm_get (ringing_calls s) c) (hm_get (active_calls s) c)) \<and>
     (\<forall>x c. inc_get (client_incoming_calls s) x c =
              (if (x, c) \<in> E then None else invited_as (hm_get (ringing_calls s) c) x)) \<and>
     (\<forall>x c. hm_get (client_active_calls s) x = Some c \<longleftrightarrow>
              busy_in (hm_get (ringing_calls s) c) (hm_get (active_calls s) c) x)"

definition call_inv :: "call_manager \<Rightarrow> bool" where
  "call_inv s = inv_ex {} s"

section \<open>Index operations\<close>

lemma inc_okD: "inc_ok m \<Longrightarrow> hm_get m x = Some calls \<Longrightarrow> hm_ok calls \<and> calls \<noteq> []"
  by (auto simp: inc_ok_def dest: hm_get_SomeD)

lemma inc_ok_insert: "inc_ok m \<Longrightarrow> hm_ok calls \<Longrightarrow> calls \<noteq> [] \<Longrightarrow> inc_ok (hm_insert x calls m)"
  by (auto simp: inc_ok_def hm_set_insert)

lemma inc_ok_remove: "inc_ok m \<Longrightarrow> inc_ok (hm_remove x m)"
  by (auto simp: inc_ok_def hm_set_remove)

lemma inc_ok_insert_incoming [simp]: "inc_ok m \<Longrightarrow> inc_ok (insert_incoming c t x m)"
  using inc_okD [of m x] by (simp add: insert_incoming_def inc_ok_insert split: option.split)

lemma inc_ok_remove_incoming [simp]: "inc_ok m \<Longrightarrow> inc_ok (remove_incoming c x m)"
  using inc_okD [of m x] by (simp add: remove_incoming_def inc_ok_insert inc_ok_remove Let_def split: option.split)

lemma inc_get_insert_incoming [call_lookup]:
  "inc_get (insert_incoming c t x m) x' c' = (if x' = x \<and> c' = c then Some t else inc_get m x' c')"
  by (auto simp: inc_get_def insert_incoming_def split: option.splits)

lemma inc_get_remove_incoming [call_lookup]:
  "inc_get (remove_incoming c x m) x' c' = (if x' = x \<and> c' = c then None else inc_get m x' c')"
  by (auto simp: inc_get_def remove_incoming_def Let_def dest: hm_remove_eq_NilD split: option.splits)

lemma inc_ok_fold_insert [simp]: "inc_ok m \<Longrightarrow> inc_ok (fold (insert_incoming c t) xs m)"
  by (induction xs arbitrary: m) auto

lemma inc_ok_fold_remove [simp]: "inc_ok m \<Longrightarrow> inc_ok (fold (remove_incoming c) xs m)"
  by (induction xs arbitrary: m) auto

lemma inc_get_fold_insert [call_lookup]:
  "inc_get (fold (insert_incoming c t) xs m) x' c' =
     (if x' \<in> set xs \<and> c' = c then Some t else inc_get m x' c')"
  by (induction xs arbitrary: m) (auto simp: inc_get_insert_incoming)

lemma inc_get_fold_remove [call_lookup]:
  "inc_get (fold (remove_incoming c) xs m) x' c' =
     (if x' \<in> set xs \<and> c' = c then None else inc_get m x' c')"
  by (induction xs arbitrary: m) (auto simp: inc_get_remove_incoming)

lemma hm_ok_clear_busy [simp]: "hm_ok m \<Longrightarrow> hm_ok (clear_busy c x m)"
  by (simp add: clear_busy_def)

lemma hm_get_clear_busy [call_lookup]:
  "hm_get (clear_busy c x m) y = (if y = x \<and> hm_get m y = Some c then None else hm_get m y)"
  by (auto simp: clear_busy_def)

lemma hm_ok_fold_clear_busy [simp]: "hm_ok m \<Longrightarrow> hm_ok (fold (clear_busy c) xs m)"
  by (induction xs arbitrary: m) auto

lemma hm_get_fold_clear_busy [call_lookup]:
  "hm_get (fold (clear_busy c) xs m) y = (if y \<in> set xs \<and> hm_get m y = Some c then None else hm_get m y)"
  by (induction xs arbitrary: m) (auto simp: hm_get_clear_busy)

section \<open>Invited participants\<close>

lemma set_all_notified: "set (all_notified r) = (\<Union>p \<in> set (rc_targets r). set (rte_notified_clients (snd p)))"
  by (simp add: all_notified_def hm_values_def)

lemma mem_all_notified: "x \<in> set (all_notified r) \<longleftrightarrow> (\<exists>(t, e) \<in> set (rc_targets r). x \<in> set (rte_notified_clients e))"
  by (force simp: all_notified_def hm_values_def)

lemma targets_ok_notified_unique:
  assumes "targets_ok k ts" "(t, e) \<in> set ts" "(t', e') \<in> set ts"
    "x \<in> set (rte_notified_clients e)" "x \<in> set (rte_notified_clients e')"
  shows "t = t'"
proof -
  have mem: "x \<in> set (concat (map rte_notified_clients (hm_values us)))"
    if "(u, f) \<in> set us" "x \<in> set (rte_notified_clients f)" for u f us
    using that hm_values_mem by fastforce
  have "distinct (concat (map rte_notified_clients (hm_values ts)))"
    using assms(1) by (simp add: targets_ok_def)
  then show ?thesis
    using assms(2,3)
  proof (induction ts)
    case (Cons p ts)
    show ?case
    proof (cases "(t, e) \<in> set ts \<and> (t', e') \<in> set ts")
      case True
      with Cons show ?thesis by (cases p) auto
    next
      case False
      with Cons.prems mem [OF _ assms(4), of t ts] mem [OF _ assms(5), of t' ts] assms(4,5)
      show ?thesis by (cases p) auto
    qed
  qed simp
qed

lemma invited_participants_get:
  assumes "targets_ok k (rc_targets r)"
  shows "hm_get (invited_participants r) x = Some t \<longleftrightarrow>
     (\<exists>e. (t, e) \<in> set (rc_targets r) \<and> x \<in> set (rte_notified_clients e))"
proof -
  let ?xs = "concat (map (\<lambda>(target, e). map (\<lambda>client. (client, target)) (rte_notified_clients e)) (rc_targets r))"
  have mem: "(x, t') \<in> set ?xs \<longleftrightarrow> (\<exists>e. (t', e) \<in> set (rc_targets r) \<and> x \<in> set (rte_notified_clients e))" for t'
    by force
  show ?thesis
  proof (cases "\<exists>t'. (x, t') \<in> set ?xs")
    case True
    then obtain t' where t': "(x, t') \<in> set ?xs" by blast
    have "hm_get (invited_participants r) x = Some t'"
      unfolding invited_participants_def hm_get_collect
      using t' by (subst map_of_functional [where v = t'])
        (simp_all only: set_rev mem if_True, metis targets_ok_notified_unique [OF assms])
    with t' show ?thesis
      unfolding mem by (metis option.inject targets_ok_notified_unique [OF assms])
  next
    case False
    then have "hm_get (invited_participants r) x = None"
      unfolding invited_participants_def hm_get_collect map_of_eq_None_iff by force
    with False show ?thesis unfolding mem by simp
  qed
qed

lemma invited_participants_None:
  assumes "targets_ok k (rc_targets r)"
  shows "hm_get (invited_participants r) x = None \<longleftrightarrow> x \<notin> set (all_notified r)"
  using invited_participants_get [OF assms, of x] unfolding mem_all_notified
  by (cases "hm_get (invited_participants r) x") auto

section \<open>Consequences of the invariant\<close>

lemma inv_exD:
  assumes "inv_ex E s"
  shows "hm_ok (ringing_calls s)" "hm_ok (active_calls s)" "inc_ok (client_incoming_calls s)"
    "hm_ok (client_active_calls s)"
    "call_ok c (hm_get (ringing_calls s) c) (hm_get (active_calls s) c)"
    "inc_get (client_incoming_calls s) x c =
       (if (x, c) \<in> E then None else invited_as (hm_get (ringing_calls s) c) x)"
    "hm_get (client_active_calls s) x = Some c \<longleftrightarrow>
       busy_in (hm_get (ringing_calls s) c) (hm_get (active_calls s) c) x"
  using assms by (simp_all add: inv_ex_def)

lemma inv_ex_ring: "inv_ex E s \<Longrightarrow> hm_get (ringing_calls s) c = Some r \<Longrightarrow> ring_ok c r"
  using inv_exD(5) [of E s c] by (auto simp: call_ok_def)

lemma inv_ex_active: "inv_ex E s \<Longrightarrow> hm_get (active_calls s) c = Some a \<Longrightarrow> active_ok c a"
  using inv_exD(5) [of E s c] by (auto simp: call_ok_def)

lemma inv_ex_pair:
  "inv_ex E s \<Longrightarrow> hm_get (ringing_calls s) c = Some r \<Longrightarrow> hm_get (active_calls s) c = Some a \<Longrightarrow> pair_ok r a"
  using inv_exD(5) [of E s c] by (auto simp: call_ok_def)

lemma inv_ex_update:
  assumes inv: "inv_ex E s"
    and ok: "hm_ok (ringing_calls s')" "hm_ok (active_calls s')" "inc_ok (client_incoming_calls s')"
      "hm_ok (client_active_calls s')"
    and R: "\<And>c'. c' \<noteq> c \<Longrightarrow> hm_get (ringing_calls s') c' = hm_get (ringing_calls s) c'"
    and A: "\<And>c'. c' \<noteq> c \<Longrightarrow> hm_get (active_calls s') c' = hm_get (active_calls s) c'"
    and call: "call_ok c (hm_get (ringing_calls s') c) (hm_get (active_calls s') c)"
    and inc: "\<And>x c'. inc_get (client_incoming_calls s') x c' =
       (if c' = c then (if (x, c) \<in> E' then None else invited_as (hm_get (ringing_calls s') c) x)
        else inc_get (client_incoming_calls s) x c')"
    and E': "\<And>x c'. c' \<noteq> c \<Longrightarrow> (x, c') \<in> E' \<longleftrightarrow> (x, c') \<in> E"
    and busy: "\<And>x. hm_get (client_active_calls s') x = Some c \<longleftrightarrow>
       busy_in (hm_get (ringing_calls s') c) (hm_get (active_calls s') c) x"
    and other: "\<And>x c'. c' \<noteq> c \<Longrightarrow>
       hm_get (client_active_calls s') x = Some c' \<longleftrightarrow> hm_get (client_active_calls s) x = Some c'"
  shows "inv_ex E' s'"
  unfolding inv_ex_def
proof (intro conjI allI ok)
  fix x c'
  show "call_ok c' (hm_get (ringing_calls s') c') (hm_get (active_calls s') c')"
    using call R A inv_exD(5) [OF inv] by (cases "c' = c") auto
  show "inc_get (client_incoming_calls s') x c' =
      (if (x, c') \<in> E' then None else invited_as (hm_get (ringing_calls s') c') x)"
    using inc [of x c'] E' R inv_exD(6) [OF inv] by (cases "c' = c") auto
  show "hm_get (client_active_calls s') x = Some c' \<longleftrightarrow>
      busy_in (hm_get (ringing_calls s') c') (hm_get (active_calls s') c') x"
    using busy other [of c' x] R A inv_exD(7) [OF inv] by (cases "c' = c") auto
qed

section \<open>Inviting\<close>

lemma targets_ok_insert:
  assumes "targets_ok k ts" "entry_ok k e" "hm_get ts t = None"
    and "set (rte_notified_clients e) \<inter> set (concat (map rte_notified_clients (hm_values ts))) = {}"
  shows "targets_ok k (hm_insert t e ts)"
  using assms hm_ok_insert [of ts t e]
  by (auto simp: targets_ok_def hm_insert_new entry_ok_def)

lemma targets_ok_single: "entry_ok k e \<Longrightarrow> targets_ok k [(t, e)]"
  by (simp add: targets_ok_def entry_ok_def)

lemma entry_ok_new:
  "distinct ns \<Longrightarrow> ns \<noteq> [] \<Longrightarrow> cs_client_id src \<notin> set ns \<Longrightarrow> entry_ok (cs_client_id src) (ringing_target_entry_new src ns)"
  by (simp add: entry_ok_def ringing_target_entry_new_def)

lemma mem_all_notified_insert:
  assumes "hm_get (rc_targets r) t = None"
  shows "set (all_notified (r\<lparr>rc_targets := hm_insert t e (rc_targets r)\<rparr>)) =
     set (rte_notified_clients e) \<union> set (all_notified r)"
  by (simp add: set_all_notified hm_set_insert_new [OF assms])

definition invite_contract :: "client_id \<Rightarrow> call_source \<Rightarrow> client_id hash_set \<Rightarrow> bool" where
  "invite_contract caller_id source notified_clients \<longleftrightarrow>
     cs_client_id source = caller_id \<and> distinct notified_clients \<and> notified_clients \<noteq> [] \<and>
     caller_id \<notin> set notified_clients"

text \<open>What a successful validation gives: the caller is free and the call unknown, or it is the caller's call.\<close>

lemma validate_call_attempt_OK:
  assumes "validate_call_attempt c k t ns s = Inr u"
  shows "(hm_get (client_active_calls s) k = None \<and> hm_get (active_calls s) c = None \<and> hm_get (ringing_calls s) c = None) \<or>
    (hm_get (client_active_calls s) k = Some c \<and>
     (\<forall>a. hm_get (active_calls s) c = Some a \<longrightarrow>
        (ace_conference_leader a \<noteq> None \<longrightarrow> ace_conference_leader a = Some k) \<and>
        t \<notin> set (hm_values (ace_participants a)) \<and>
        set ns \<inter> set (hm_keys (ace_participants a)) = {}) \<and>
     (\<forall>r. hm_get (ringing_calls s) c = Some r \<longrightarrow>
        rc_caller_id r = k \<and> hm_get (rc_targets r) t = None \<and> set ns \<inter> set (all_notified r) = {}))"
  using assms
  by (cases "hm_get (active_calls s) c"; cases "hm_get (ringing_calls s) c")
    (force simp: validate_call_attempt_def Let_def hm_contains_key_def mem_all_notified hm_values_def
      hm_keys_def list_ex_iff split: option.splits if_splits)+

lemma call_inv_new: "call_inv (call_manager_new n)"
  by (simp add: call_inv_def inv_ex_def call_manager_new_def inc_ok_def call_ok_def inc_get_def
      invited_as_def busy_in_def)

lemma ring_ok_targets: "ring_ok c r \<Longrightarrow> targets_ok (rc_caller_id r) (rc_targets r)"
  by (simp add: ring_ok_def)

lemma invited_as_Some:
  "ring_ok c r \<Longrightarrow> invited_as (Some r) x = Some t \<longleftrightarrow>
     (\<exists>e. (t, e) \<in> set (rc_targets r) \<and> x \<in> set (rte_notified_clients e))"
  unfolding invited_as_def by (simp add: invited_participants_get [OF ring_ok_targets])

lemma invited_as_None: "invited_as None x = None"
  by (simp add: invited_as_def)

lemma invited_as_eq_None:
  "ring_ok c r \<Longrightarrow> invited_as (Some r) x = None \<longleftrightarrow> x \<notin> set (all_notified r)"
  unfolding invited_as_def by (simp add: invited_participants_None [OF ring_ok_targets])

lemma invited_as_add_target:
  assumes "ring_ok c r" "ring_ok c (add_target src t ns r)" "hm_get (rc_targets r) t = None"
    "set ns \<inter> set (all_notified r) = {}"
  shows "invited_as (Some (add_target src t ns r)) x = (if x \<in> set ns then Some t else invited_as (Some r) x)"
proof (rule option_eqI)
  fix v
  have disj: "\<And>x t e. x \<in> set ns \<Longrightarrow> (t, e) \<in> set (rc_targets r) \<Longrightarrow> x \<notin> set (rte_notified_clients e)"
    using assms(4) by (auto simp: mem_all_notified disjoint_iff)
  show "invited_as (Some (add_target src t ns r)) x = Some v \<longleftrightarrow>
      (if x \<in> set ns then Some t else invited_as (Some r) x) = Some v"
    unfolding invited_as_Some [OF assms(2)]
    using disj hm_set_insert_new [OF assms(3), of "ringing_target_entry_new src ns"]
    by (auto simp: invited_as_Some [OF assms(1)] add_target_def ringing_target_entry_new_def)
qed

lemma invited_as_new:
  assumes "ring_ok c (ringing_call_entry_new c k src t ns)"
  shows "invited_as (Some (ringing_call_entry_new c k src t ns)) x = (if x \<in> set ns then Some t else None)"
  by (intro option_eqI, unfold invited_as_Some [OF assms])
    (auto simp: ringing_call_entry_new_def ringing_target_entry_new_def)

lemma ring_ok_add_target:
  assumes "ring_ok c r" "invite_contract (rc_caller_id r) src ns" "hm_get (rc_targets r) t = None"
    "set ns \<inter> set (all_notified r) = {}"
  shows "ring_ok c (add_target src t ns r)"
  using assms entry_ok_new [of ns src]
  by (auto simp: ring_ok_def add_target_def invite_contract_def all_notified_def ringing_target_entry_new_def
      intro!: targets_ok_insert)

lemma ring_ok_new:
  assumes "invite_contract k src ns"
  shows "ring_ok c (ringing_call_entry_new c k src t ns)"
  using assms entry_ok_new [of ns src]
  by (auto simp: ring_ok_def ringing_call_entry_new_def invite_contract_def intro!: targets_ok_single)

lemma all_notified_add_target:
  "hm_get (rc_targets r) t = None \<Longrightarrow> set (all_notified (add_target src t ns r)) = set ns \<union> set (all_notified r)"
  by (simp add: add_target_def mem_all_notified_insert ringing_target_entry_new_def)

lemma all_notified_new: "set (all_notified (ringing_call_entry_new c k src t ns)) = set ns"
  by (simp add: all_notified_def ringing_call_entry_new_def ringing_target_entry_new_def)

text \<open>The ringing call after an accepted invitation.\<close>

definition invite_ringing :: "call_id \<Rightarrow> client_id \<Rightarrow> call_source \<Rightarrow> call_target \<Rightarrow> client_id hash_set
    \<Rightarrow> ringing_call_entry option \<Rightarrow> ringing_call_entry" where
  "invite_ringing c k src t ns R =
     (case R of Some r \<Rightarrow> add_target src t ns r | None \<Rightarrow> ringing_call_entry_new c k src t ns)"

lemma attempt_call_OK:
  assumes "validate_call_attempt c k t ns s = Inr u"
  shows "fst (attempt_call c k src t ns s) =
     s\<lparr>ringing_calls := hm_insert c (invite_ringing c k src t ns (hm_get (ringing_calls s) c)) (ringing_calls s),
       client_active_calls := hm_insert k c (client_active_calls s),
       client_incoming_calls := fold (insert_incoming c t) ns (client_incoming_calls s)\<rparr>"
  using assms by (simp add: attempt_call_def invite_ringing_def Let_def split: option.splits)

lemma attempt_call_error:
  "validate_call_attempt c k t ns s = Inl e \<Longrightarrow> attempt_call c k src t ns s = (s, Inl e)"
  by (simp add: attempt_call_def)

lemma attempt_call_inv:
  assumes inv: "call_inv s" and con: "invite_contract k src ns"
  shows "call_inv (fst (attempt_call c k src t ns s))"
proof (cases "validate_call_attempt c k t ns s")
  case (Inl e)
  with inv show ?thesis by (simp add: attempt_call_error)
next
  case (Inr u)
  let ?R = "hm_get (ringing_calls s) c" and ?A = "hm_get (active_calls s) c"
  let ?r = "invite_ringing c k src t ns ?R"
  note i = inv [unfolded call_inv_def]
  note v = validate_call_attempt_OK [OF Inr]
  have ring: "ring_ok c ?r"
    using v con i by (auto simp: invite_ringing_def split: option.splits
      intro!: ring_ok_new ring_ok_add_target dest: inv_ex_ring [OF i])
  have caller: "rc_caller_id ?r = k"
    using v by (auto simp: invite_ringing_def ringing_call_entry_new_def add_target_def split: option.splits)
  have inc: "invited_as (Some ?r) x = (if x \<in> set ns then Some t else invited_as ?R x)" for x
    using v ring inv_ex_ring [OF i]
    by (auto simp: invite_ringing_def invited_as_new invited_as_add_target [where c = c] invited_as_None split: option.splits)
  have pair: "pair_ok ?r a" if a: "?A = Some a" for a
  proof -
    have B: "hm_get (client_active_calls s) k = Some c" using v a by auto
    have k: "k \<in> set (hm_keys (ace_participants a))"
      using inv_exD(7) [OF i, of k c] B v a inv_ex_pair [OF i _ a]
      by (auto simp: busy_in_def pair_ok_def split: option.splits)
    have "set (all_notified ?r) \<inter> set (hm_keys (ace_participants a)) = {}"
      using v a inv_ex_pair [OF i _ a]
      by (auto simp: invite_ringing_def all_notified_new all_notified_add_target pair_ok_def split: option.splits)
    with k v a caller show ?thesis by (auto simp: pair_ok_def)
  qed
  have call: "call_ok c (Some ?r) ?A"
    using ring pair inv_ex_active [OF i] by (auto simp: call_ok_def split: option.splits)
  have busy: "busy_in (Some ?r) ?A x \<longleftrightarrow> x = k \<or> hm_get (client_active_calls s) x = Some c" for x
    unfolding inv_exD(7) [OF i] using v caller by (auto simp: busy_in_def split: option.splits)
  show ?thesis
    unfolding call_inv_def attempt_call_OK [OF Inr]
    using v call inv_exD(6) [OF i]
    by (intro inv_ex_update [OF i, where c = c])
      (auto simp: inv_exD(1-4) [OF i] inc busy inc_get_fold_insert)
qed

end
