(* ===== verification/CallRinging.thy ===== *)
theory CallRinging
  imports CallInvariant
begin

text \<open>
  The operations that shrink a ringing call keep the invariant: rejecting, failing a recipient and
  dropping a ringing target. Rejecting and failing differ only in the set a client moves to, which is
  the interface \<open>failure_mark\<close>; its lemmas are proved once and interpreted for
  \<^verbatim>\<open>mark_rejected\<close> and \<^verbatim>\<open>mark_errored\<close>. The last section says what
  the \<^verbatim>\<open>retain\<close> of an accept removes.
\<close>

section \<open>Shrinking a ringing call\<close>

lemma inv_ex_caller_busy:
  assumes "inv_ex E s" "hm_get (ringing_calls s) c = Some r"
  shows "hm_get (client_active_calls s) (rc_caller_id r) = Some c"
  unfolding inv_exD(7) [OF assms(1)] using assms(2) by (simp add: busy_in_def)

lemma inv_ex_participant_busy:
  assumes "inv_ex E s" "hm_get (active_calls s) c = Some a" "x \<in> set (hm_keys (ace_participants a))"
  shows "hm_get (client_active_calls s) x = Some c"
  unfolding inv_exD(7) [OF assms(1)] using assms(2,3) by (simp add: busy_in_def)

lemma caller_in_some_active_call:
  assumes inv: "inv_ex E s" and r: "hm_get (ringing_calls s) c = Some r"
  shows "list_ex (\<lambda>a. active_involves a (rc_caller_id r)) (hm_values (active_calls s)) \<longleftrightarrow>
    hm_get (active_calls s) c \<noteq> None"
proof
  assume "list_ex (\<lambda>a. active_involves a (rc_caller_id r)) (hm_values (active_calls s))"
  then obtain c' a where a: "(c', a) \<in> set (active_calls s)" "rc_caller_id r \<in> set (hm_keys (ace_participants a))"
    by (auto simp: list_ex_iff hm_values_def active_involves_def hm_contains_key_iff)
  then have a': "hm_get (active_calls s) c' = Some a"
    using inv_exD(2) [OF inv] by (simp add: hm_get_iff)
  with a inv_ex_participant_busy [OF inv a'] inv_ex_caller_busy [OF inv r] show "hm_get (active_calls s) c \<noteq> None"
    by simp
next
  assume "hm_get (active_calls s) c \<noteq> None"
  then obtain a where a: "hm_get (active_calls s) c = Some a" by blast
  then have "(c, a) \<in> set (active_calls s)" by (rule hm_get_SomeD)
  with inv_ex_pair [OF inv r a] show "list_ex (\<lambda>a. active_involves a (rc_caller_id r)) (hm_values (active_calls s))"
    by (force simp: list_ex_iff hm_values_def active_involves_def hm_contains_key_iff pair_ok_def)
qed

definition shrunk_ringing :: "ringing_call_entry \<Rightarrow> (call_target, ringing_target_entry) hash_map \<Rightarrow> ringing_call_entry option" where
  "shrunk_ringing r kept = (if kept = [] then None else Some (r\<lparr>rc_targets := kept\<rparr>))"

lemma shrink_ringing_inv:
  assumes inv: "inv_ex E s" and r: "hm_get (ringing_calls s) c = Some r"
    and ok: "targets_ok (rc_caller_id r) kept"
    and sub: "set (concat (map rte_notified_clients (hm_values kept))) \<subseteq> set (all_notified r)"
    and R': "ringing_calls s' = (if kept = [] then hm_remove c (ringing_calls s)
        else hm_insert c (r\<lparr>rc_targets := kept\<rparr>) (ringing_calls s))"
    and A': "active_calls s' = active_calls s"
    and B': "client_active_calls s' = (if kept = [] \<and> hm_get (active_calls s) c = None
        then hm_remove (rc_caller_id r) (client_active_calls s) else client_active_calls s)"
    and incok: "inc_ok (client_incoming_calls s')"
    and inc: "\<And>x c'. inc_get (client_incoming_calls s') x c' =
       (if c' = c then (if (x, c) \<in> E' then None else invited_as (shrunk_ringing r kept) x)
        else inc_get (client_incoming_calls s) x c')"
    and E': "\<And>x c'. c' \<noteq> c \<Longrightarrow> (x, c') \<in> E' \<longleftrightarrow> (x, c') \<in> E"
  shows "inv_ex E' s'"
proof -
  have get: "hm_get (ringing_calls s') c = shrunk_ringing r kept"
    by (simp add: R' shrunk_ringing_def)
  have notif: "set (all_notified (r\<lparr>rc_targets := kept\<rparr>)) \<subseteq> set (all_notified r)"
    using sub by (simp add: all_notified_def)
  have ring: "ring_ok c (r\<lparr>rc_targets := kept\<rparr>)" if "kept \<noteq> []"
    using that ok inv_ex_ring [OF inv r] by (simp add: ring_ok_def)
  have call: "call_ok c (shrunk_ringing r kept) (hm_get (active_calls s) c)"
    using ring inv_ex_active [OF inv, of c] inv_ex_pair [OF inv r] notif
    by (auto simp: call_ok_def shrunk_ringing_def pair_ok_def disjoint_iff split: option.splits)
  have busy: "busy_in (shrunk_ringing r kept) (hm_get (active_calls s) c) x \<longleftrightarrow>
      hm_get (client_active_calls s) x = Some c \<and> \<not> (kept = [] \<and> hm_get (active_calls s) c = None)" for x
    unfolding inv_exD(7) [OF inv] using r inv_ex_pair [OF inv r]
    by (auto simp: busy_in_def shrunk_ringing_def pair_ok_def split: option.splits)
  have alone: "hm_get (client_active_calls s) x = Some c \<longleftrightarrow> x = rc_caller_id r"
    if "hm_get (active_calls s) c = None" for x
    unfolding inv_exD(7) [OF inv] using r that by (auto simp: busy_in_def)
  show ?thesis
    using call get busy alone inv_ex_caller_busy [OF inv r] E' inc incok
    by (intro inv_ex_update [OF inv, where c = c and E' = E'])
      (auto simp: R' A' B' inv_exD(1-4) [OF inv])
qed

section \<open>Rejecting and failing a ringing client\<close>

text \<open>What the two ways to mark a notified client as failed have in common.\<close>

locale failure_mark =
  fixes mark_fn :: "ringing_target_entry \<Rightarrow> client_id \<Rightarrow> ringing_target_entry"
  assumes mark_notified: "x \<in> set (rte_notified_clients e) \<Longrightarrow>
      rte_notified_clients (mark_fn e x) = hs_remove x (rte_notified_clients e)"
    and mark_source: "rte_source (mark_fn e x) = rte_source e"
    and mark_failed: "x \<in> set (rte_notified_clients e) \<Longrightarrow>
      set (rte_rejected_clients (mark_fn e x)) \<union> set (rte_errored_clients (mark_fn e x)) =
        insert x (set (rte_rejected_clients e) \<union> set (rte_errored_clients e))"
begin

lemma mark_targets_Cons:
  assumes "entry_ok k e"
  shows "mark_targets mark_fn oc c k x ((t, e) # ts) =
     (let (kept, marked, term) = mark_targets mark_fn oc c k x ts
      in if x \<notin> set (rte_notified_clients e) then ((t, e) # kept, marked, term)
         else if hs_remove x (rte_notified_clients e) = []
         then (kept, True, snd (complete oc c k (rte_source e) t (mark_fn e x)) # term)
         else ((t, mark_fn e x) # kept, True, term))"
  using assms mark_notified [of x e]
  by (auto simp: has_notified_client_def has_failed_client_def all_rejected_or_errored_def entry_ok_def
      mark_source split: prod.splits)

declare mark_targets.simps(2) [simp del]

lemma mark_entry_ok:
  "entry_ok k e \<Longrightarrow> x \<in> set (rte_notified_clients e) \<Longrightarrow> hs_remove x (rte_notified_clients e) \<noteq> [] \<Longrightarrow>
   entry_ok k (mark_fn e x)"
  using mark_failed [of x e] by (auto simp: entry_ok_def mark_notified mark_source)

lemma mark_targets_spec:
  assumes "\<forall>(t, e) \<in> set ts. entry_ok k e"
    and "mark_targets mark_fn oc c k x ts = (kept, marked, term)"
  shows "concat (map rte_notified_clients (hm_values kept)) =
           hs_remove x (concat (map rte_notified_clients (hm_values ts))) \<and>
         (\<forall>(t, e) \<in> set kept. entry_ok k e) \<and>
         (marked \<longleftrightarrow> x \<in> set (concat (map rte_notified_clients (hm_values ts)))) \<and>
         set (hm_keys kept) \<subseteq> set (hm_keys ts) \<and>
         (hm_ok ts \<longrightarrow> hm_ok kept) \<and> (\<not> marked \<longrightarrow> kept = ts) \<and>
         length kept + length term = length ts \<and> (term \<noteq> [] \<longrightarrow> marked)"
  using assms
proof (induction ts arbitrary: kept marked "term")
  case Nil
  then show ?case by (simp add: hs_remove_def)
next
  case (Cons p ts)
  obtain t e where p: "p = (t, e)" by (cases p)
  obtain kept' marked' term' where rec: "mark_targets mark_fn oc c k x ts = (kept', marked', term')"
    by (metis prod_cases3)
  have e: "entry_ok k e" using Cons.prems(1) p by simp
  have ts: "\<forall>(t, e) \<in> set ts. entry_ok k e" using Cons.prems(1) by simp
  note IH = Cons.IH [OF ts rec]
  consider "x \<notin> set (rte_notified_clients e)"
    | "x \<in> set (rte_notified_clients e)" "hs_remove x (rte_notified_clients e) = []"
    | "x \<in> set (rte_notified_clients e)" "hs_remove x (rte_notified_clients e) \<noteq> []"
    by blast
  then show ?case
  proof cases
    case 1
    then have "kept = (t, e) # kept'" "marked = marked'" "term = term'"
      using Cons.prems(2) by (simp_all add: p rec mark_targets_Cons [OF e])
    with 1 IH e show ?thesis
      by (auto simp: p hs_remove_append hs_remove_notin hm_keys_image)
  next
    case 2
    then have "kept = kept'" "marked" "length term = Suc (length term')"
      using Cons.prems(2) by (auto simp: p rec mark_targets_Cons [OF e])
    with 2 IH show ?thesis
      by (auto simp: p hs_remove_append hm_keys_image)
  next
    case 3
    then have "kept = (t, mark_fn e x) # kept'" "marked" "term = term'"
      using Cons.prems(2) by (simp_all add: p rec mark_targets_Cons [OF e])
    with 3 IH mark_entry_ok [OF e] show ?thesis
      by (auto simp: p hs_remove_append mark_notified hm_keys_image)
  qed
qed

lemma mark_targets_mem:
  assumes "\<forall>(t, e) \<in> set ts. entry_ok k e"
    and "mark_targets mark_fn oc c k x ts = (kept, marked, term)"
  shows "(\<exists>e. (t, e) \<in> set kept \<and> y \<in> set (rte_notified_clients e)) \<longleftrightarrow>
           y \<noteq> x \<and> (\<exists>e. (t, e) \<in> set ts \<and> y \<in> set (rte_notified_clients e))"
  using assms
proof (induction ts arbitrary: kept marked "term")
  case (Cons p ts)
  obtain t' e where p: "p = (t', e)" by (cases p)
  obtain kept' marked' term' where rec: "mark_targets mark_fn oc c k x ts = (kept', marked', term')"
    by (metis prod_cases3)
  have e: "entry_ok k e" using Cons.prems(1) p by simp
  have IH: "(\<exists>e. (t, e) \<in> set kept' \<and> y \<in> set (rte_notified_clients e)) \<longleftrightarrow>
           y \<noteq> x \<and> (\<exists>e. (t, e) \<in> set ts \<and> y \<in> set (rte_notified_clients e))"
    using Cons.IH [OF _ rec] Cons.prems(1) by simp
  have own: "y \<in> set (hs_remove x (rte_notified_clients e)) \<longleftrightarrow> y \<noteq> x \<and> y \<in> set (rte_notified_clients e)"
    by auto
  show ?case
  proof (cases "x \<in> set (rte_notified_clients e)")
    case True
    with Cons.prems(2) IH own show ?thesis
      by (cases "hs_remove x (rte_notified_clients e) = []")
        (auto simp: p rec mark_targets_Cons [OF e] mark_notified)
  next
    case False
    with Cons.prems(2) IH show ?thesis
      by (auto simp: p rec mark_targets_Cons [OF e])
  qed
qed simp

end

lemma remove_uninvited_inv:
  assumes inv: "inv_ex E s" and "invited_as (hm_get (ringing_calls s) c) x = None"
  shows "inv_ex E (remove_client_incoming_call c x s)"
  using assms(2)
  by (intro inv_ex_update [OF inv, where c = c])
    (auto simp: remove_client_incoming_call_def inv_exD [OF inv] inc_get_remove_incoming)

context failure_mark
begin

lemma mark_client_marked:
  assumes "hm_get (ringing_calls s) c = Some r" "rc_caller_id r \<noteq> x"
    and "mark_targets mark_fn oc c (rc_caller_id r) x (rc_targets r) = (kept, True, term)"
  shows "fst (mark_client_within_ringing_calls mark_fn oc c x s) =
    s\<lparr>client_incoming_calls := remove_incoming c x (client_incoming_calls s),
      ringing_calls := (if kept = [] then hm_remove c (ringing_calls s)
        else hm_insert c (r\<lparr>rc_targets := kept\<rparr>) (ringing_calls s)),
      client_active_calls :=
        (if kept = [] \<and> \<not> list_ex (\<lambda>a. active_involves a (rc_caller_id r)) (hm_values (active_calls s))
         then hm_remove (rc_caller_id r) (client_active_calls s) else client_active_calls s)\<rparr>"
  using assms
  by (auto simp: mark_client_within_ringing_calls_def remove_client_incoming_call_def Let_def split: prod.splits)

lemma mark_client_unmarked:
  assumes "hm_get (ringing_calls s) c = Some r"
    and "rc_caller_id r = x \<or> mark_targets mark_fn oc c (rc_caller_id r) x (rc_targets r) = (rc_targets r, False, term)"
  shows "mark_client_within_ringing_calls mark_fn oc c x s =
    (remove_client_incoming_call c x s, CT_ClientNotNotified)"
  using assms
  by (auto simp: mark_client_within_ringing_calls_def remove_client_incoming_call_def Let_def hm_insert_same)

lemma mark_client_inv:
  assumes inv: "call_inv s"
  shows "call_inv (fst (mark_client_within_ringing_calls mark_fn oc c x s))"
proof (cases "hm_get (ringing_calls s) c")
  case None
  with inv remove_uninvited_inv [of "{}" s c x] show ?thesis
    by (simp add: mark_client_within_ringing_calls_def call_inv_def Let_def invited_as_None
        remove_client_incoming_call_def)
next
  case (Some r)
  note i = inv [unfolded call_inv_def]
  have ring: "ring_ok c r" by (rule inv_ex_ring [OF i Some])
  then have ok: "targets_ok (rc_caller_id r) (rc_targets r)" by (rule ring_ok_targets)
  obtain kept marked "term" where m:
    "mark_targets mark_fn oc c (rc_caller_id r) x (rc_targets r) = (kept, marked, term)"
    by (metis prod_cases3)
  note spec = mark_targets_spec [OF _ m]
  have entries: "\<forall>(t, e) \<in> set (rc_targets r). entry_ok (rc_caller_id r) e"
    using ok by (simp add: targets_ok_def)
  show ?thesis
  proof (cases "rc_caller_id r = x \<or> \<not> marked")
    case True
    have "x \<notin> set (all_notified r)"
    proof (cases "rc_caller_id r = x")
      case True
      with entries show ?thesis by (fastforce simp: mem_all_notified entry_ok_def)
    next
      case False
      with True spec [OF entries] show ?thesis by (auto simp: all_notified_def)
    qed
    then have "invited_as (Some r) x = None" using invited_as_eq_None [OF ring] by simp
    moreover have "mark_client_within_ringing_calls mark_fn oc c x s =
        (remove_client_incoming_call c x s, CT_ClientNotNotified)"
      using True spec [OF entries] m by (intro mark_client_unmarked [OF Some]) auto
    ultimately show ?thesis
      using remove_uninvited_inv [OF i] Some by (simp add: call_inv_def)
  next
    case False
    then have ne: "rc_caller_id r \<noteq> x" and m': "mark_targets mark_fn oc c (rc_caller_id r) x (rc_targets r) = (kept, True, term)"
      using m by auto
    note spec' = spec [OF entries]
    have notif: "concat (map rte_notified_clients (hm_values kept)) = hs_remove x (all_notified r)"
      and "\<forall>(t, e) \<in> set kept. entry_ok (rc_caller_id r) e" "hm_ok kept"
      using spec' ok unfolding all_notified_def targets_ok_def by blast+
    with ok have kept: "targets_ok (rc_caller_id r) kept"
      by (simp add: targets_ok_def all_notified_def)
    have inv_as: "invited_as (shrunk_ringing r kept) y = (if y = x then None else invited_as (Some r) y)" for y
    proof (cases "kept = []")
      case True
      with notif have "set (all_notified r) \<subseteq> {x}"
        by (simp add: hs_remove_eq_Nil [symmetric])
      with True invited_as_eq_None [OF ring, of y] show ?thesis
        by (auto simp: shrunk_ringing_def invited_as_None)
    next
      case False
      then have ring': "ring_ok c (r\<lparr>rc_targets := kept\<rparr>)" using ring kept by (simp add: ring_ok_def)
      show ?thesis
      proof (rule option_eqI)
        fix t
        show "invited_as (shrunk_ringing r kept) y = Some t \<longleftrightarrow>
            (if y = x then None else invited_as (Some r) y) = Some t"
          using False mark_targets_mem [OF entries m, of t y]
          by (simp add: shrunk_ringing_def invited_as_Some [OF ring'] invited_as_Some [OF ring])
      qed
    qed
    show ?thesis
      unfolding call_inv_def mark_client_marked [OF Some ne m']
      using Some notif
      by (intro shrink_ringing_inv [OF i Some kept])
        (auto simp: caller_in_some_active_call [OF i Some] inv_exD(3,6) [OF i] inv_as
          inc_get_remove_incoming)
  qed
qed

end

interpretation rejected: failure_mark mark_rejected
  by unfold_locales (auto simp: mark_rejected_def)

interpretation errored: failure_mark mark_errored
  by unfold_locales (auto simp: mark_errored_def)

lemma reject_call_inv: "call_inv s \<Longrightarrow> call_inv (fst (reject_call c x s))"
  by (simp add: reject_call_def rejected.mark_client_inv)

lemma fail_ringing_recipient_inv: "call_inv s \<Longrightarrow> call_inv (fst (fail_ringing_recipient c x reason s))"
  by (simp add: fail_ringing_recipient_def errored.mark_client_inv)

section \<open>Removing a ringing target\<close>

lemma targets_ok_remove: "targets_ok k ts \<Longrightarrow> targets_ok k (hm_remove t ts)"
  using distinct_concat_filter [of rte_notified_clients ts "\<lambda>(k', _). k' \<noteq> t"] hm_ok_remove [of ts t]
  by (auto simp: targets_ok_def hm_remove_filter)

lemma notified_remove:
  assumes ok: "targets_ok k ts" and e: "hm_get ts t = Some e"
  shows "(\<exists>e'. (t', e') \<in> set (hm_remove t ts) \<and> y \<in> set (rte_notified_clients e')) \<longleftrightarrow>
    y \<notin> set (rte_notified_clients e) \<and> (\<exists>e'. (t', e') \<in> set ts \<and> y \<in> set (rte_notified_clients e'))"
proof -
  have te: "(t, e) \<in> set ts" using e by (rule hm_get_SomeD)
  have same: "e' = e" if "(t, e') \<in> set ts" for e'
    using that te ok e hm_get_iff [of ts] by (metis option.inject targets_ok_def)
  show ?thesis
  proof
    assume "\<exists>e'. (t', e') \<in> set (hm_remove t ts) \<and> y \<in> set (rte_notified_clients e')"
    then obtain e' where e': "(t', e') \<in> set ts" "t' \<noteq> t" "y \<in> set (rte_notified_clients e')"
      by (auto simp: hm_set_remove)
    with targets_ok_notified_unique [OF ok te e'(1), of y]
    show "y \<notin> set (rte_notified_clients e) \<and> (\<exists>e'. (t', e') \<in> set ts \<and> y \<in> set (rte_notified_clients e'))"
      by blast
  next
    assume "y \<notin> set (rte_notified_clients e) \<and> (\<exists>e'. (t', e') \<in> set ts \<and> y \<in> set (rte_notified_clients e'))"
    then obtain e' where e': "(t', e') \<in> set ts" "y \<in> set (rte_notified_clients e')" "y \<notin> set (rte_notified_clients e)"
      by blast
    with same have "t' \<noteq> t" by blast
    with e' show "\<exists>e'. (t', e') \<in> set (hm_remove t ts) \<and> y \<in> set (rte_notified_clients e')"
      by (auto simp: hm_set_remove)
  qed
qed

lemma invited_as_remove_target:
  assumes ring: "ring_ok c r" and e: "hm_get (rc_targets r) t = Some e"
  shows "invited_as (shrunk_ringing r (hm_remove t (rc_targets r))) y =
    (if y \<in> set (rte_notified_clients e) then None else invited_as (Some r) y)"
proof (cases "hm_remove t (rc_targets r) = []")
  case True
  note mem = notified_remove [OF ring_ok_targets [OF ring] e]
  have "y \<in> set (rte_notified_clients e)" if "invited_as (Some r) y = Some t'" for t'
    using that mem [of t' y] True unfolding invited_as_Some [OF ring] by auto
  with True show ?thesis
    by (cases "invited_as (Some r) y") (auto simp: shrunk_ringing_def invited_as_None)
next
  case False
  then have ring': "ring_ok c (r\<lparr>rc_targets := hm_remove t (rc_targets r)\<rparr>)"
    using ring by (simp add: ring_ok_def targets_ok_remove)
  show ?thesis
  proof (rule option_eqI)
    fix t'
    show "invited_as (shrunk_ringing r (hm_remove t (rc_targets r))) y = Some t' \<longleftrightarrow>
        (if y \<in> set (rte_notified_clients e) then None else invited_as (Some r) y) = Some t'"
      using False notified_remove [OF ring_ok_targets [OF ring] e, of t' y]
      by (simp add: shrunk_ringing_def invited_as_Some [OF ring'] invited_as_Some [OF ring])
  qed
qed

lemma set_notified_remove_subset:
  "set (concat (map rte_notified_clients (hm_values (hm_remove t (rc_targets r))))) \<subseteq> set (all_notified r)"
  by (auto simp: all_notified_def hm_values_def hm_set_remove)

lemma fold_remove_client_incoming_call:
  "fold (remove_client_incoming_call c) xs s =
     s\<lparr>client_incoming_calls := fold (remove_incoming c) xs (client_incoming_calls s)\<rparr>"
  by (induction xs arbitrary: s) (auto simp: remove_client_incoming_call_def)

lemma active_call_snapshot_other [simp]:
  "active_call_snapshot c (s\<lparr>ringing_calls := R\<rparr>) = active_call_snapshot c s"
  "active_call_snapshot c (s\<lparr>client_incoming_calls := I\<rparr>) = active_call_snapshot c s"
  "active_call_snapshot c (s\<lparr>client_active_calls := B\<rparr>) = active_call_snapshot c s"
  by (simp_all add: active_call_snapshot_def)

lemma drop_ringing_target_state:
  assumes "hm_get (ringing_calls s) c = Some r" "hm_get (rc_targets r) t = Some e"
    "cs_client_id (rte_source e) = d"
  shows "fst (drop_ringing_target c d t reason s) =
    s\<lparr>ringing_calls := (if hm_remove t (rc_targets r) = [] then hm_remove c (ringing_calls s)
        else hm_insert c (r\<lparr>rc_targets := hm_remove t (rc_targets r)\<rparr>) (ringing_calls s)),
      client_incoming_calls := fold (remove_incoming c) (rte_notified_clients e) (client_incoming_calls s),
      client_active_calls :=
        (if hm_remove t (rc_targets r) = [] \<and> \<not> hm_contains_key (rc_caller_id r) (fst (active_call_snapshot c s))
         then clear_busy c (rc_caller_id r) (client_active_calls s) else client_active_calls s)\<rparr>"
  using assms
  by (auto simp: drop_ringing_target_def Let_def complete_def set_outcome_def fold_remove_client_incoming_call
      split: prod.splits)

lemma drop_ringing_target_inv:
  assumes inv: "call_inv s"
  shows "call_inv (fst (drop_ringing_target c d t reason s))"
proof (cases "\<exists>r e. hm_get (ringing_calls s) c = Some r \<and> hm_get (rc_targets r) t = Some e \<and>
    cs_client_id (rte_source e) = d")
  case False
  then have "fst (drop_ringing_target c d t reason s) = s"
    by (auto simp: drop_ringing_target_def split: option.splits)
  with inv show ?thesis by simp
next
  case True
  then obtain r e where r: "hm_get (ringing_calls s) c = Some r" and e: "hm_get (rc_targets r) t = Some e"
    and d: "cs_client_id (rte_source e) = d" by blast
  note i = inv [unfolded call_inv_def]
  note ring = inv_ex_ring [OF i r]
  have joined: "hm_contains_key (rc_caller_id r) (fst (active_call_snapshot c s)) \<longleftrightarrow> hm_get (active_calls s) c \<noteq> None"
    using inv_ex_pair [OF i r]
    by (auto simp: active_call_snapshot_def hm_contains_key_iff pair_ok_def split: option.splits)
  have busy: "clear_busy c (rc_caller_id r) (client_active_calls s) = hm_remove (rc_caller_id r) (client_active_calls s)"
    using inv_ex_caller_busy [OF i r] by (simp add: clear_busy_def)
  show ?thesis
    unfolding call_inv_def drop_ringing_target_state [OF r e d]
    using r set_notified_remove_subset [of t r]
    by (intro shrink_ringing_inv [OF i r targets_ok_remove [OF ring_ok_targets [OF ring]], of t])
      (auto simp: joined busy inv_exD(3,6) [OF i] invited_as_remove_target [OF ring e] inc_get_fold_remove)
qed

section \<open>Accepting\<close>

lemma accept_targets_none:
  "\<forall>(t, e) \<in> set ts. x \<notin> set (rte_notified_clients e) \<Longrightarrow> accept_targets c k x ts acc = (ts, acc)"
  by (induction ts) (auto simp: has_notified_client_def)

lemma accept_targets_one:
  assumes "hm_ok ts" "(t, e) \<in> set ts" "x \<in> set (rte_notified_clients e)"
    and "\<And>t' e'. (t', e') \<in> set ts \<Longrightarrow> x \<in> set (rte_notified_clients e') \<Longrightarrow> t' = t"
  shows "accept_targets c k x ts None =
    (hm_remove t ts, Some (snd (complete OutcomeAccepted c k (rte_source e) t e)))"
  using assms
proof (induction ts)
  case (Cons p ts)
  obtain t' e' where p: "p = (t', e')" by (cases p)
  show ?case
  proof (cases "t' = t")
    case True
    with Cons.prems(1) p have fresh: "t \<notin> fst ` set ts" by simp
    then have "(t, e) \<notin> set ts" by (force simp: image_iff)
    with Cons.prems(2) p have [simp]: "e' = e" by simp
    have "\<forall>(t', e') \<in> set ts. x \<notin> set (rte_notified_clients e')"
    proof (intro ballI, clarify)
      fix u f assume "(u, f) \<in> set ts" "x \<in> set (rte_notified_clients f)"
      with Cons.prems(4) [of u f] fresh show False by (force simp: image_iff)
    qed
    moreover have "hm_remove t ts = ts" using fresh by (simp add: hm_remove_def)
    ultimately show ?thesis
      using True p Cons.prems(3) by (simp add: has_notified_client_def accept_targets_none)
  next
    case False
    with Cons.prems(4) [of t' e'] p have "x \<notin> set (rte_notified_clients e')" by auto
    moreover have "accept_targets c k x ts None =
        (hm_remove t ts, Some (snd (complete OutcomeAccepted c k (rte_source e) t e)))"
    proof (rule Cons.IH)
      show "hm_ok ts" using Cons.prems(1) p by simp
      show "(t, e) \<in> set ts" using Cons.prems(2) p False by simp
      show "x \<in> set (rte_notified_clients e)" by (rule Cons.prems(3))
      show "\<And>u f. (u, f) \<in> set ts \<Longrightarrow> x \<in> set (rte_notified_clients f) \<Longrightarrow> u = t"
        by (rule Cons.prems(4)) simp_all
    qed
    ultimately show ?thesis using False p by (simp add: has_notified_client_def)
  qed
qed simp

lemma accept_targets_spec:
  assumes ring: "ring_ok c r"
  shows "invited_as (Some r) x = None \<Longrightarrow> accept_targets c k x (rc_targets r) None = (rc_targets r, None)"
    and "invited_as (Some r) x = Some t \<Longrightarrow> hm_get (rc_targets r) t = Some e \<Longrightarrow>
      x \<in> set (rte_notified_clients e) \<and>
      accept_targets c k x (rc_targets r) None =
        (hm_remove t (rc_targets r), Some (snd (complete OutcomeAccepted c k (rte_source e) t e)))"
proof -
  assume "invited_as (Some r) x = None"
  then show "accept_targets c k x (rc_targets r) None = (rc_targets r, None)"
    using invited_as_eq_None [OF ring] by (intro accept_targets_none) (auto simp: mem_all_notified)
next
  assume t: "invited_as (Some r) x = Some t" and e: "hm_get (rc_targets r) t = Some e"
  have ok: "hm_ok (rc_targets r)" using ring by (simp add: ring_ok_def targets_ok_def)
  from t obtain e' where e': "(t, e') \<in> set (rc_targets r)" "x \<in> set (rte_notified_clients e')"
    unfolding invited_as_Some [OF ring] by blast
  with e ok have "e' = e" by (simp add: hm_get_iff [symmetric])
  with e' show "x \<in> set (rte_notified_clients e) \<and>
      accept_targets c k x (rc_targets r) None =
        (hm_remove t (rc_targets r), Some (snd (complete OutcomeAccepted c k (rte_source e) t e)))"
    using accept_targets_one [OF ok] targets_ok_notified_unique [OF ring_ok_targets [OF ring]] by blast
qed

end
