(* ===== verification/CallActive.thy ===== *)
theory CallActive
  imports CallRinging
begin

text \<open>
  Joining, leaving and ending: the operations that change an active call keep the invariant, and
  \<^verbatim>\<open>end_call\<close> is characterised by its two specifications, \<open>erase_call\<close> when the call
  ends for everybody and \<open>leave_call\<close> when a member of a conference leaves.
\<close>

section \<open>Joining and leaving keep an active call well formed\<close>

lemma record_join_ok:
  assumes "join_ok a" "x \<notin> set (hm_keys (ace_participants a))"
    "ace_participants a' = hm_insert x t (ace_participants a)"
    "ace_join_order a' = ace_join_order a" "ace_next_join_seq a' = ace_next_join_seq a"
  shows "join_ok (record_join x a')"
proof -
  have new: "hm_get (ace_join_order a) x = None" using assms(1,2) by (simp add: join_ok_def hm_get_None_iff)
  have vals: "hm_values (hm_insert x n (ace_join_order a)) = hm_values (ace_join_order a) @ [n]" for n
    by (simp add: hm_insert_new [OF new])
  show ?thesis
    using assms(1) unfolding join_ok_def record_join_def
    by (auto simp: assms(3-5) vals less_Suc_eq)
qed

lemma links_ok_mono:
  assumes "links_ok a" "ace_link_reports a' = ace_link_reports a"
    "set (hm_keys (ace_participants a)) \<subseteq> set (hm_keys (ace_participants a'))"
  shows "links_ok a'"
proof -
  have "\<forall>((x, y), rep) \<in> set (ace_link_reports a).
      x \<in> set (hm_keys (ace_participants a')) \<and> y \<in> set (hm_keys (ace_participants a'))"
    using assms(1,3) by (fastforce simp: links_ok_def)
  with assms(1,2) show ?thesis by (fastforce simp: links_ok_def)
qed

lemma join_active_call_fields [simp]:
  "ace_call_id (join_active_call x rt a) = ace_call_id a"
  "ace_participants (join_active_call x rt a) = hm_insert x (rt_target rt) (ace_participants a)"
  "ace_link_reports (join_active_call x rt a) = ace_link_reports a"
  "ace_conference_leader (join_active_call x rt a) =
     (case ace_conference_leader a of Some l \<Rightarrow> Some l | None \<Rightarrow> Some (cs_client_id (rt_source rt)))"
  by (simp_all add: join_active_call_def Let_def record_join_def record_participants_def split: option.splits)

lemma join_ok_record_participants [simp]: "join_ok (record_participants n a) = join_ok a"
  by (simp add: join_ok_def record_participants_def)

lemma join_ok_leader [simp]: "join_ok (a\<lparr>ace_conference_leader := l\<rparr>) = join_ok a"
  by (simp add: join_ok_def)

lemma join_active_call_ok:
  assumes ok: "active_ok c a" and x: "x \<notin> set (hm_keys (ace_participants a))"
    and caller: "cs_client_id (rt_source rt) \<in> set (hm_keys (ace_participants a))"
  shows "active_ok c (join_active_call x rt a)"
proof -
  have len: "length (hm_insert x (rt_target rt) (ace_participants a)) = Suc (length (ace_participants a))"
    using x by (simp add: hm_insert_new hm_get_None_iff)
  have "join_ok (join_active_call x rt a)"
    using record_join_ok [of a x "a\<lparr>ace_participants := hm_insert x (rt_target rt) (ace_participants a)\<rparr>"] ok x
    by (simp add: join_active_call_def Let_def active_ok_def)
  moreover have "links_ok (join_active_call x rt a)"
    by (rule links_ok_mono [of a]) (use ok in \<open>simp_all add: active_ok_def subset_insertI\<close>)
  ultimately show ?thesis
    using ok caller len by (auto simp: active_ok_def split: option.splits)
qed

lemma open_active_call_ok:
  assumes "x \<noteq> rt_caller_id rt"
  shows "active_ok c (open_active_call now c x rt)"
    and "ace_participants (open_active_call now c x rt) =
      [(x, rt_target rt), (rt_caller_id rt, call_target_of_source (rt_source rt))]"
    and "ace_conference_leader (open_active_call now c x rt) = None"
  using assms
  by (auto simp: open_active_call_def active_ok_def active_call_entry_new_def record_join_def
      join_ok_def links_ok_def hm_collect_def hm_extend_def Let_def)

lemma remove_participant_fields [simp]:
  "ace_call_id (remove_participant x a) = ace_call_id a"
  "ace_participants (remove_participant x a) = hm_remove x (ace_participants a)"
  "ace_join_order (remove_participant x a) = hm_remove x (ace_join_order a)"
  "ace_next_join_seq (remove_participant x a) = ace_next_join_seq a"
  "ace_link_reports (remove_participant x a) =
     filter (\<lambda>((p, q), _). p \<noteq> x \<and> q \<noteq> x) (ace_link_reports a)"
  "ace_conference_leader (remove_participant x a) =
     (if length (hm_remove x (ace_participants a)) \<le> 2 then None else ace_conference_leader a)"
  by (simp_all add: remove_participant_def Let_def forget_participant_def)

lemma remove_participant_ok:
  assumes ok: "active_ok c a" and x: "x \<in> set (hm_keys (ace_participants a))"
    and many: "3 \<le> length (ace_participants a)" and leader: "ace_conference_leader a \<noteq> Some x"
  shows "active_ok c (remove_participant x a)"
proof -
  have part: "hm_ok (ace_participants a)" using ok by (simp add: active_ok_def)
  have len: "length (hm_remove x (ace_participants a)) = length (ace_participants a) - 1"
    using x part by (auto simp: hm_length_remove hm_get_None_iff)
  have vals: "set (hm_values (hm_remove x m)) \<subseteq> set (hm_values m)"
    "distinct (hm_values m) \<Longrightarrow> distinct (hm_values (hm_remove x m))" for m :: "(client_id, nat) hash_map"
    by (auto simp: hm_remove_filter hm_values_def intro: distinct_map_filter)
  have "join_ok (remove_participant x a)"
    using ok vals [of "ace_join_order a"] by (auto simp: active_ok_def join_ok_def)
  moreover have "links_ok (remove_participant x a)"
    using ok unfolding active_ok_def links_ok_def by auto
  ultimately show ?thesis
    using ok many leader len by (auto simp: active_ok_def split: option.splits)
qed

section \<open>Accepting\<close>

definition accepted_active ::
  "instant \<Rightarrow> call_id \<Rightarrow> client_id \<Rightarrow> ringing_target \<Rightarrow> active_call_entry option \<Rightarrow> active_call_entry" where
  "accepted_active now c x rt A =
     (case A of Some a \<Rightarrow> join_active_call x rt a | None \<Rightarrow> open_active_call now c x rt)"

definition accepted_target :: "call_id \<Rightarrow> client_id \<Rightarrow> call_target \<Rightarrow> ringing_target_entry \<Rightarrow> ringing_target" where
  "accepted_target c k t e = snd (complete OutcomeAccepted c k (rte_source e) t e)"

lemma accepted_target_fields [simp]:
  "rt_caller_id (accepted_target c k t e) = k" "rt_source (accepted_target c k t e) = rte_source e"
  "rt_target (accepted_target c k t e) = t" "rt_call_id (accepted_target c k t e) = c"
  "rt_notified_clients (accepted_target c k t e) = rte_notified_clients e"
  by (simp_all add: accepted_target_def complete_def set_outcome_def Let_def)

lemma accept_call_accepted:
  assumes "hm_get (client_active_calls s) x = None" "hm_get (ringing_calls s) c = Some r"
    and ring: "ring_ok c r" and t: "invited_as (Some r) x = Some t" and e: "hm_get (rc_targets r) t = Some e"
  shows "accept_call now c x s =
    (let kept = hm_remove t (rc_targets r); rt = accepted_target c (rc_caller_id r) t e;
         a = accepted_active now c x rt (hm_get (active_calls s) c)
     in (s\<lparr>ringing_calls := (if kept = [] then hm_remove c (ringing_calls s)
             else hm_insert c (r\<lparr>rc_targets := kept\<rparr>) (ringing_calls s)),
           client_incoming_calls := fold (remove_incoming c) (rte_notified_clients e) (client_incoming_calls s),
           active_calls := hm_insert c a (active_calls s),
           client_active_calls := hm_insert x c (client_active_calls s)\<rparr>,
         AC_Accepted rt
           \<lparr>up_call_id = c, up_invited_participants = invited_participants (r\<lparr>rc_targets := kept\<rparr>),
            up_joined_participants = ace_participants a, up_conference_leader = ace_conference_leader a\<rparr>))"
  using assms(1,2) accept_targets_spec(2) [OF ring t e, of "rc_caller_id r"]
  by (simp add: accept_call_def accepted_active_def hm_contains_key_iff hm_get_None_iff [symmetric] Let_def
      accepted_target_fields accepted_target_def [symmetric])

lemma accept_call_refused:
  assumes "hm_get (client_active_calls s) x \<noteq> None \<or> invited_as (hm_get (ringing_calls s) c) x = None"
    and ring: "\<And>r. hm_get (ringing_calls s) c = Some r \<Longrightarrow> ring_ok c r"
  shows "accept_call now c x s =
    (s, if hm_get (client_active_calls s) x \<noteq> None then AC_AcceptorBusy else AC_NotFound)"
proof (cases "hm_get (ringing_calls s) c")
  case None
  then show ?thesis
    by (auto simp: accept_call_def hm_contains_key_iff hm_get_None_iff [symmetric])
next
  case (Some r)
  note rk = ring [OF this]
  then have ne: "rc_targets r \<noteq> []" by (simp add: ring_ok_def)
  have same: "s\<lparr>ringing_calls := ringing_calls s\<rparr> = s" by simp
  show ?thesis
  proof (cases "hm_get (client_active_calls s) x")
    case None
    with assms(1) Some have "invited_as (Some r) x = None" by simp
    from accept_targets_spec(1) [OF rk this] None Some ne show ?thesis
      by (simp add: accept_call_def hm_contains_key_iff hm_get_None_iff [symmetric] hm_insert_same)
  next
    case (Some c')
    then show ?thesis by (auto simp: accept_call_def hm_contains_key_iff hm_get_None_iff [symmetric])
  qed
qed

lemma invited_asE:
  assumes "invited_as (Some r) x = Some t" "ring_ok c r"
  obtains e where "hm_get (rc_targets r) t = Some e" "(t, e) \<in> set (rc_targets r)"
    "x \<in> set (rte_notified_clients e)" "entry_ok (rc_caller_id r) e"
proof -
  from assms obtain e where e: "(t, e) \<in> set (rc_targets r)" "x \<in> set (rte_notified_clients e)"
    unfolding invited_as_Some [OF assms(2)] by blast
  moreover from assms(2) have ok: "hm_ok (rc_targets r)" "\<forall>(t, e) \<in> set (rc_targets r). entry_ok (rc_caller_id r) e"
    by (simp_all add: ring_ok_def targets_ok_def)
  ultimately show ?thesis using that [of e] by (auto simp: hm_get_iff)
qed

lemma accepted_active_ok:
  fixes now t
  assumes pair: "call_ok c (Some r) A" and e: "entry_ok (rc_caller_id r) e" and x: "x \<noteq> rc_caller_id r"
    and free: "\<And>a. A = Some a \<Longrightarrow> x \<notin> set (hm_keys (ace_participants a))"
  defines "a' \<equiv> accepted_active now c x (accepted_target c (rc_caller_id r) t e) A"
  shows "active_ok c a' \<and> rc_caller_id r \<in> set (hm_keys (ace_participants a')) \<and>
    (ace_conference_leader a' \<noteq> None \<longrightarrow> ace_conference_leader a' = Some (rc_caller_id r)) \<and>
    set (hm_keys (ace_participants a')) =
      insert x (insert (rc_caller_id r) (case A of Some a \<Rightarrow> set (hm_keys (ace_participants a)) | None \<Rightarrow> {}))"
proof (cases A)
  case None
  then show ?thesis
    using x open_active_call_ok [where rt = "accepted_target c (rc_caller_id r) t e" and c = c and now = now and x = x]
    by (simp add: a'_def accepted_active_def)
next
  case (Some a)
  with pair have a: "active_ok c a" "rc_caller_id r \<in> set (hm_keys (ace_participants a))"
    "ace_conference_leader a \<noteq> None \<longrightarrow> ace_conference_leader a = Some (rc_caller_id r)"
    by (simp_all add: call_ok_def pair_ok_def)
  have src: "cs_client_id (rte_source e) = rc_caller_id r" using e by (simp add: entry_ok_def)
  show ?thesis
    using Some a src free [OF Some]
    by (auto simp: a'_def accepted_active_def intro!: join_active_call_ok split: option.splits)
qed

lemma ring_caller_not_notified: "ring_ok c r \<Longrightarrow> rc_caller_id r \<notin> set (all_notified r)"
  by (auto simp: ring_ok_def targets_ok_def entry_ok_def mem_all_notified)

lemma accept_call_inv:
  assumes inv: "call_inv s"
  shows "call_inv (fst (accept_call now c x s))"
proof -
  note i = inv [unfolded call_inv_def]
  show ?thesis
  proof (cases "hm_get (client_active_calls s) x \<noteq> None \<or> invited_as (hm_get (ringing_calls s) c) x = None")
    case True
    with accept_call_refused [OF True] inv_ex_ring [OF i] inv show ?thesis by simp
  next
    case False
    then have free: "hm_get (client_active_calls s) x = None" by simp
    from False obtain r t where r: "hm_get (ringing_calls s) c = Some r" and t: "invited_as (Some r) x = Some t"
      by (cases "hm_get (ringing_calls s) c") (auto simp: invited_as_None)
    note ring = inv_ex_ring [OF i r]
    obtain e where e: "hm_get (rc_targets r) t = Some e" "(t, e) \<in> set (rc_targets r)"
      "x \<in> set (rte_notified_clients e)" "entry_ok (rc_caller_id r) e"
      using t ring by (rule invited_asE)
    let ?A = "hm_get (active_calls s) c" and ?kept = "hm_remove t (rc_targets r)"
    let ?a = "accepted_active now c x (accepted_target c (rc_caller_id r) t e) ?A"
    have ne: "x \<noteq> rc_caller_id r" using e(3,4) by (auto simp: entry_ok_def)
    have new: "x \<notin> set (hm_keys (ace_participants a))" if "?A = Some a" for a
      using inv_ex_participant_busy [OF i that, of x] free by auto
    have call: "call_ok c (Some r) ?A" using inv_exD(5) [OF i, of c] r by simp
    note a' = accepted_active_ok [OF call e(4) ne new, of now t]
    have kept: "targets_ok (rc_caller_id r) ?kept" by (rule targets_ok_remove [OF ring_ok_targets [OF ring]])
    have inv_as: "invited_as (shrunk_ringing r ?kept) y =
        (if y \<in> set (rte_notified_clients e) then None else invited_as (Some r) y)" for y
      by (rule invited_as_remove_target [OF ring e(1)])
    have notif: "y \<in> set (all_notified r) \<and> y \<noteq> x" if "y \<in> set (all_notified (r\<lparr>rc_targets := ?kept\<rparr>))" for y
    proof -
      have "?kept \<noteq> []" using that by (auto simp: all_notified_def)
      then have "invited_as (Some (r\<lparr>rc_targets := ?kept\<rparr>)) y \<noteq> None"
        using that ring kept invited_as_eq_None [of c "r\<lparr>rc_targets := ?kept\<rparr>" y] by (simp add: ring_ok_def)
      with inv_as [of y] e(3) \<open>?kept \<noteq> []\<close> invited_as_eq_None [OF ring, of y] show ?thesis
        by (auto simp: shrunk_ringing_def split: if_splits)
    qed
    have disj: "set (all_notified (r\<lparr>rc_targets := ?kept\<rparr>)) \<inter> set (hm_keys (ace_participants ?a)) = {}"
      using a' notif ring_caller_not_notified [OF ring] inv_ex_pair [OF i r]
      by (fastforce simp: pair_ok_def split: option.splits)
    have call': "call_ok c (shrunk_ringing r ?kept) (Some ?a)"
      using a' kept ring disj by (simp add: call_ok_def shrunk_ringing_def pair_ok_def ring_ok_def)
    have busy: "busy_in (shrunk_ringing r ?kept) (Some ?a) y \<longleftrightarrow> y = x \<or> hm_get (client_active_calls s) y = Some c" for y
      unfolding inv_exD(7) [OF i] using a' r by (auto simp: busy_in_def shrunk_ringing_def split: option.splits)
    show ?thesis
      unfolding call_inv_def accept_call_accepted [OF free r ring t e(1)] Let_def fst_conv
      using call' busy r free inv_as
      by (intro inv_ex_update [OF i, where c = c])
        (auto simp: inv_exD(1-4,6) [OF i] inc_get_fold_remove shrunk_ringing_def)
  qed
qed

section \<open>Leaving an active call\<close>

lemma leave_active_inv:
  assumes inv: "inv_ex E s" and a: "hm_get (active_calls s) c = Some a"
    and x: "x \<in> set (hm_keys (ace_participants a))"
    and many: "3 \<le> length (ace_participants a)" and leader: "ace_conference_leader a \<noteq> Some x"
  shows "inv_ex E (s\<lparr>active_calls := hm_insert c (remove_participant x a) (active_calls s),
    client_active_calls := clear_busy c x (client_active_calls s)\<rparr>)"
proof -
  let ?R = "hm_get (ringing_calls s) c" and ?a = "remove_participant x a"
  have B: "hm_get (client_active_calls s) x = Some c" by (rule inv_ex_participant_busy [OF inv a x])
  have ok: "active_ok c ?a" by (rule remove_participant_ok [OF inv_ex_active [OF inv a] x many leader])
  have caller: "ace_conference_leader a = Some (rc_caller_id r) \<and> rc_caller_id r \<noteq> x" if "?R = Some r" for r
    using inv_ex_pair [OF inv that a] inv_ex_active [OF inv a] many leader by (auto simp: pair_ok_def active_ok_def)
  have "pair_ok r ?a" if "?R = Some r" for r
    using inv_ex_pair [OF inv that a] caller [OF that] by (auto simp: pair_ok_def)
  then have call: "call_ok c ?R (Some ?a)"
    using ok inv_ex_ring [OF inv] by (auto simp: call_ok_def split: option.splits)
  have busy: "busy_in ?R (Some ?a) y \<longleftrightarrow> y \<noteq> x \<and> hm_get (client_active_calls s) y = Some c" for y
    unfolding inv_exD(7) [OF inv] using a caller by (auto simp: busy_in_def split: option.splits)
  show ?thesis
    using call busy B
    by (intro inv_ex_update [OF inv, where c = c])
      (auto simp: inv_exD(1-4,6) [OF inv] hm_get_clear_busy)
qed

lemma find_participant_Some: "find_participant t ps = Some x \<Longrightarrow> (x, t) \<in> set ps"
  by (auto simp: find_participant_def find_Some_iff in_set_conv_nth)

lemma drop_joined_participant_cases:
  "(fst (drop_joined_participant c d t reason s) = s \<and>
    (\<forall>y u. snd (drop_joined_participant c d t reason s) \<noteq> DT_ParticipantDropped y u)) \<or>
   (\<exists>a x. hm_get (active_calls s) c = Some a \<and> hm_contains_key d (ace_participants a) \<and> (x, t) \<in> set (ace_participants a) \<and>
      reason = Requested \<and> x \<noteq> d \<and> 3 \<le> length (ace_participants a) \<and> ace_conference_leader a = Some d \<and>
      fst (drop_joined_participant c d t reason s) =
        s\<lparr>active_calls := hm_insert c (remove_participant x a) (active_calls s),
          client_active_calls := clear_busy c x (client_active_calls s)\<rparr> \<and>
      (\<exists>u. snd (drop_joined_participant c d t reason s) = DT_ParticipantDropped x u))"
proof (cases "hm_get (active_calls s) c")
  case None
  then show ?thesis by (simp add: drop_joined_participant_def Let_def split: prod.splits)
next
  case (Some a)
  show ?thesis
  proof (cases "find_participant t (ace_participants a)")
    case None
    with Some show ?thesis by (simp add: drop_joined_participant_def Let_def split: prod.splits)
  next
    case f: (Some x)
    have mem: "(x, t) \<in> set (ace_participants a)" by (rule find_participant_Some [OF f])
    show ?thesis
    proof (cases "active_involves a d \<and> reason = Requested \<and> x \<noteq> d \<and> 3 \<le> length (ace_participants a) \<and>
        ace_conference_leader a = Some d")
      case True
      with Some f mem show ?thesis
        by (auto simp: drop_joined_participant_def active_involves_def Let_def split: prod.splits)
    next
      case False
      with Some f show ?thesis
        by (cases reason) (auto simp: drop_joined_participant_def Let_def split: prod.splits)
    qed
  qed
qed

lemma drop_joined_participant_inv:
  assumes inv: "call_inv s"
  shows "call_inv (fst (drop_joined_participant c d t reason s))"
  using drop_joined_participant_cases [of c d t reason s]
proof (elim disjE exE conjE)
  assume "fst (drop_joined_participant c d t reason s) = s"
  with inv show ?thesis by simp
next
  fix a x
  assume a: "hm_get (active_calls s) c = Some a" "(x, t) \<in> set (ace_participants a)" "x \<noteq> d"
    "3 \<le> length (ace_participants a)" "ace_conference_leader a = Some d"
    and s': "fst (drop_joined_participant c d t reason s) =
        s\<lparr>active_calls := hm_insert c (remove_participant x a) (active_calls s),
          client_active_calls := clear_busy c x (client_active_calls s)\<rparr>"
  show ?thesis
    unfolding s' call_inv_def
    using a by (intro leave_active_inv [OF inv [unfolded call_inv_def] a(1)]) (auto simp: hm_keys_def intro: rev_image_eqI)
qed

lemma drop_target_inv:
  assumes inv: "call_inv s"
  shows "call_inv (fst (drop_target c d t reason s))"
  using drop_ringing_target_inv [OF inv, of c d t reason] drop_joined_participant_inv [of _ c d t reason]
  by (auto simp: drop_target_def split: prod.splits option.splits)

section \<open>Ending a call\<close>

text \<open>
  The specification of a teardown: the call disappears from both call maps, its recipients from the
  incoming index, and every busy marker that names it is removed.
\<close>

definition erase_call :: "call_id \<Rightarrow> call_manager \<Rightarrow> call_manager" where
  "erase_call c s =
     s\<lparr>ringing_calls := hm_remove c (ringing_calls s),
       active_calls := hm_remove c (active_calls s),
       client_incoming_calls :=
         (case hm_get (ringing_calls s) c of
            Some r \<Rightarrow> fold (remove_incoming c) (all_notified r) (client_incoming_calls s)
          | None \<Rightarrow> client_incoming_calls s),
       client_active_calls := filter (\<lambda>(_, c'). c' \<noteq> c) (client_active_calls s)\<rparr>"

lemma erase_call_inv:
  assumes inv: "inv_ex E s"
  shows "inv_ex E (erase_call c s)"
proof -
  have inc: "invited_as (hm_get (ringing_calls s) c) x = None" if "\<And>r. hm_get (ringing_calls s) c = Some r \<Longrightarrow> x \<notin> set (all_notified r)" for x
    using that invited_as_eq_None [OF inv_ex_ring [OF inv]] by (cases "hm_get (ringing_calls s) c") (auto simp: invited_as_None)
  show ?thesis
    using inc
    by (intro inv_ex_update [OF inv, where c = c])
      (auto simp: erase_call_def inv_exD(1-4,6) [OF inv] call_ok_def invited_as_None busy_in_def
        hm_get_filter_value inc_get_fold_remove split: option.splits)
qed

lemma clear_busy_filter:
  assumes "hm_ok m"
  shows "clear_busy c x m = filter (\<lambda>(y, c'). \<not> (y = x \<and> c' = c)) m"
proof (cases "hm_get m x = Some c")
  case True
  then have "y \<noteq> x \<longleftrightarrow> \<not> (y = x \<and> c' = c)" if "(y, c') \<in> set m" for y c'
    using that assms by (auto simp: hm_get_iff [symmetric])
  with True show ?thesis by (auto simp: clear_busy_def hm_remove_filter intro!: filter_cong)
next
  case False
  then have "\<not> (y = x \<and> c' = c)" if "(y, c') \<in> set m" for y c'
    using that assms by (auto simp: hm_get_iff [symmetric])
  with False show ?thesis by (auto simp: clear_busy_def intro!: filter_True [symmetric])
qed

lemma fold_clear_busy_filter:
  "hm_ok m \<Longrightarrow> fold (clear_busy c) xs m = filter (\<lambda>(y, c'). \<not> (y \<in> set xs \<and> c' = c)) m"
proof (induction xs arbitrary: m)
  case (Cons x xs)
  then show ?case by (simp add: clear_busy_filter) (auto simp: clear_busy_filter intro!: filter_cong)
qed (simp add: filter_True)


lemma busy_only_participants:
  assumes inv: "inv_ex E s" and B: "(y, c) \<in> set (client_active_calls s)"
  shows "busy_in (hm_get (ringing_calls s) c) (hm_get (active_calls s) c) y"
  using B inv_exD(7) [OF inv, of y c] inv_exD(4) [OF inv] by (simp add: hm_get_iff)

lemma erase_busy_eq:
  assumes "hm_ok B" "\<And>y. (y, c) \<in> set B \<Longrightarrow> y \<in> set xs"
  shows "fold (clear_busy c) xs B = filter (\<lambda>(_, c'). c' \<noteq> c) B"
  unfolding fold_clear_busy_filter [OF assms(1)] using assms(2) by (auto intro!: filter_cong)

text \<open>
  The three ways out of a call: the leader, a side of a two-party call or the caller of an
  unanswered call ends it for everybody; another member of a conference only leaves.
\<close>

definition ends_for_all :: "client_id \<Rightarrow> ringing_call_entry option \<Rightarrow> active_call_entry option \<Rightarrow> bool" where
  "ends_for_all x R A \<longleftrightarrow>
     (case A of
        Some a \<Rightarrow> x \<in> set (hm_keys (ace_participants a)) \<and>
          (ace_conference_leader a = Some x \<or> length (ace_participants a) = 2)
      | None \<Rightarrow> (case R of Some r \<Rightarrow> rc_caller_id r = x | None \<Rightarrow> False))"

definition leaves :: "client_id \<Rightarrow> active_call_entry option \<Rightarrow> bool" where
  "leaves x A \<longleftrightarrow>
     (case A of
        Some a \<Rightarrow> x \<in> set (hm_keys (ace_participants a)) \<and>
          ace_conference_leader a \<noteq> Some x \<and> length (ace_participants a) \<noteq> 2
      | None \<Rightarrow> False)"

definition leave_call :: "call_id \<Rightarrow> client_id \<Rightarrow> active_call_entry \<Rightarrow> call_manager \<Rightarrow> call_manager" where
  "leave_call c x a s =
     s\<lparr>active_calls := hm_insert c (remove_participant x a) (active_calls s),
       client_active_calls := clear_busy c x (client_active_calls s)\<rparr>"

lemma hm_keys_without_self:
  "hm_keys (participants_without_self a x) = filter (\<lambda>y. y \<noteq> x) (hm_keys (ace_participants a))"
  by (simp add: participants_without_self_def hm_keys_def filter_map comp_def case_prod_unfold)

lemma length_without_self:
  assumes "active_ok c a" "x \<in> set (hm_keys (ace_participants a))"
  shows "length (participants_without_self a x) = length (ace_participants a) - 1"
proof -
  have "participants_without_self a x = hm_remove x (ace_participants a)"
    by (simp add: participants_without_self_def hm_remove_filter)
  with assms show ?thesis
    by (auto simp: active_ok_def hm_length_remove hm_get_None_iff)
qed

lemma end_call_ringing_state:
  "fst (end_call_ringing c x s) =
    (case hm_get (ringing_calls s) c of
       Some r \<Rightarrow>
         if rc_caller_id r = x
         then s\<lparr>ringing_calls := hm_remove c (ringing_calls s),
                client_incoming_calls := fold (remove_incoming (rc_call_id r)) (all_notified r) (client_incoming_calls s),
                client_active_calls := hm_remove x (client_active_calls s)\<rparr>
         else s
     | None \<Rightarrow> s)"
  by (simp add: end_call_ringing_def cleanup_client_incoming_calls_def split: option.splits)

lemma end_call_state: "fst (end_call c x s) = fst (end_call_active c x (fst (end_call_ringing c x s)))"
  by (simp add: end_call_def split: prod.splits)

lemma end_call_active_None:
  "(\<And>a. hm_get (active_calls s) c = Some a \<Longrightarrow> x \<notin> set (hm_keys (ace_participants a))) \<Longrightarrow>
   end_call_active c x s = (s, None)"
  by (auto simp: end_call_active_def active_involves_def hm_contains_key_iff split: option.splits)

lemma end_call_active_teardown:
  assumes "hm_get (active_calls s) c = Some a" "active_ok c a" "x \<in> set (hm_keys (ace_participants a))"
    "ace_conference_leader a = Some x \<or> length (ace_participants a) = 2"
  shows "end_call_active c x s =
    (let s' = s\<lparr>active_calls := hm_remove c (active_calls s),
                client_active_calls :=
                  clear_busy c x (fold (clear_busy c) (filter (\<lambda>y. y \<noteq> x) (hm_keys (ace_participants a))) (client_active_calls s))\<rparr>
     in (fst (cancel_pending_invitations c OutcomeCancelled s'),
         Some (map (DropParticipant c) (filter (\<lambda>y. y \<noteq> x) (hm_keys (ace_participants a))) @
               snd (cancel_pending_invitations c OutcomeCancelled s'))))"
proof -
  have "length (participants_without_self a x) = length (ace_participants a) - 1"
    by (rule length_without_self [OF assms(2,3)])
  moreover have "2 \<le> length (ace_participants a)" using assms(2) by (simp add: active_ok_def)
  ultimately have "participants_without_self a x \<noteq> []"
    "length (ace_participants a) = 2 \<Longrightarrow> length (participants_without_self a x) \<le> 1" by auto
  with assms show ?thesis
    by (auto simp: end_call_active_def active_involves_def hm_contains_key_iff Let_def hm_keys_without_self
        split: prod.splits)
qed

lemma end_call_active_leave:
  assumes "hm_get (active_calls s) c = Some a" "active_ok c a" "x \<in> set (hm_keys (ace_participants a))"
    "ace_conference_leader a \<noteq> Some x" "length (ace_participants a) \<noteq> 2"
  shows "end_call_active c x s =
    (leave_call c x a s,
     Some [UpdateParticipants
       \<lparr>up_call_id = c,
        up_invited_participants = (case hm_get (ringing_calls s) c of Some r \<Rightarrow> invited_participants r | None \<Rightarrow> []),
        up_joined_participants = ace_participants (remove_participant x a),
        up_conference_leader = ace_conference_leader (remove_participant x a)\<rparr>])"
proof -
  have "length (participants_without_self a x) = length (ace_participants a) - 1"
    by (rule length_without_self [OF assms(2,3)])
  moreover have "2 \<le> length (ace_participants a)" using assms(2) by (simp add: active_ok_def)
  ultimately have "participants_without_self a x \<noteq> []" "\<not> length (participants_without_self a x) \<le> Suc 0"
    using assms(5) by auto
  with assms show ?thesis
    by (simp add: end_call_active_def active_involves_def hm_contains_key_iff Let_def leave_call_def)
qed


lemma leaves_not_caller:
  assumes inv: "inv_ex E s" and r: "hm_get (ringing_calls s) c = Some r" and l: "leaves x (hm_get (active_calls s) c)"
  shows "rc_caller_id r \<noteq> x"
proof -
  from l obtain a where a: "hm_get (active_calls s) c = Some a" "ace_conference_leader a \<noteq> Some x"
    "length (ace_participants a) \<noteq> 2"
    by (auto simp: leaves_def split: option.splits)
  with inv_ex_pair [OF inv r a(1)] inv_ex_active [OF inv a(1)] show ?thesis
    by (auto simp: pair_ok_def active_ok_def)
qed

lemma end_call_erases:
  assumes inv: "inv_ex E s" and e: "ends_for_all x (hm_get (ringing_calls s) c) (hm_get (active_calls s) c)"
  shows "fst (end_call c x s) = erase_call c s"
proof -
  let ?R = "hm_get (ringing_calls s) c" and ?A = "hm_get (active_calls s) c" and ?B = "client_active_calls s"
  have okB: "hm_ok ?B" by (rule inv_exD(4) [OF inv])
  have rid: "rc_call_id r = c" if "?R = Some r" for r
    using inv_ex_ring [OF inv that] by (simp add: ring_ok_def)
  show ?thesis
  proof (cases ?A)
    case None
    with e obtain r where r: "?R = Some r" "rc_caller_id r = x" by (auto simp: ends_for_all_def split: option.splits)
    then have B: "hm_get ?B x = Some c" using inv_ex_caller_busy [OF inv] by auto
    have only: "y \<in> set [x]" if "(y, c) \<in> set ?B" for y
      using busy_only_participants [OF inv that] r None by (simp add: busy_in_def)
    have "hm_remove x ?B = filter (\<lambda>(_, c'). c' \<noteq> c) ?B"
      using erase_busy_eq [of ?B c "[x]"] okB only B by (simp add: clear_busy_def)
    with r None rid show ?thesis
      by (simp add: end_call_state end_call_ringing_state end_call_active_def erase_call_def hm_remove_absent)
  next
    case (Some a)
    with e have a: "x \<in> set (hm_keys (ace_participants a))"
      "ace_conference_leader a = Some x \<or> length (ace_participants a) = 2"
      by (simp_all add: ends_for_all_def)
    let ?others = "filter (\<lambda>y. y \<noteq> x) (hm_keys (ace_participants a))"
    have B: "hm_get ?B x = Some c" by (rule inv_ex_participant_busy [OF inv Some a(1)])
    have mem: "y = x \<or> y \<in> set ?others" if "(y, c) \<in> set ?B" for y
      using busy_only_participants [OF inv that] Some inv_ex_pair [OF inv _ Some]
      by (auto simp: busy_in_def pair_ok_def split: option.splits)
    have f1: "clear_busy c x (fold (clear_busy c) ?others ?B) = filter (\<lambda>(_, c'). c' \<noteq> c) ?B"
      using erase_busy_eq [of ?B c "?others @ [x]"] okB mem by auto
    have f2: "clear_busy c x (fold (clear_busy c) ?others (hm_remove x ?B)) = filter (\<lambda>(_, c'). c' \<noteq> c) ?B"
      using erase_busy_eq [of ?B c "x # ?others @ [x]"] okB mem B by (auto simp: clear_busy_def)
    note act = end_call_active_teardown [OF _ inv_ex_active [OF inv Some] a]
    show ?thesis
    proof (cases "\<exists>r. ?R = Some r \<and> rc_caller_id r = x")
      case True
      then obtain r where r: "?R = Some r" "rc_caller_id r = x" by blast
      with Some f2 rid show ?thesis
        by (simp add: end_call_state end_call_ringing_state act Let_def erase_call_def cancel_pending_invitations_def)
    next
      case False
      then have "fst (end_call_ringing c x s) = s" by (auto simp: end_call_ringing_state split: option.splits)
      with Some f1 rid show ?thesis
        by (auto simp: end_call_state act Let_def erase_call_def cancel_pending_invitations_def hm_remove_absent
            cleanup_client_incoming_calls_def split: option.splits)
    qed
  qed
qed

lemma end_call_leaves:
  assumes inv: "inv_ex E s" and a: "hm_get (active_calls s) c = Some a" and l: "leaves x (Some a)"
  shows "fst (end_call c x s) = leave_call c x a s"
    and "snd (end_call c x s) =
      Some [UpdateParticipants
       \<lparr>up_call_id = c,
        up_invited_participants = (case hm_get (ringing_calls s) c of Some r \<Rightarrow> invited_participants r | None \<Rightarrow> []),
        up_joined_participants = ace_participants (remove_participant x a),
        up_conference_leader = ace_conference_leader (remove_participant x a)\<rparr>]"
proof -
  have "end_call_ringing c x s = (s, None)"
    using leaves_not_caller [OF inv] a l by (auto simp: end_call_ringing_def split: option.splits)
  moreover have "x \<in> set (hm_keys (ace_participants a))" "ace_conference_leader a \<noteq> Some x"
    "length (ace_participants a) \<noteq> 2" using l by (simp_all add: leaves_def)
  note end_call_active_leave [OF a inv_ex_active [OF inv a] this]
  ultimately show "fst (end_call c x s) = leave_call c x a s" "snd (end_call c x s) =
      Some [UpdateParticipants
       \<lparr>up_call_id = c,
        up_invited_participants = (case hm_get (ringing_calls s) c of Some r \<Rightarrow> invited_participants r | None \<Rightarrow> []),
        up_joined_participants = ace_participants (remove_participant x a),
        up_conference_leader = ace_conference_leader (remove_participant x a)\<rparr>]"
    by (simp_all add: end_call_def)
qed

lemma end_call_stranger:
  assumes inv: "inv_ex E s" and "hm_get (client_active_calls s) x \<noteq> Some c"
  shows "end_call c x s = (s, None)"
proof -
  have "x \<notin> set (hm_keys (ace_participants a))" if "hm_get (active_calls s) c = Some a" for a
    using inv_ex_participant_busy [OF inv that] assms(2) by blast
  moreover have "end_call_ringing c x s = (s, None)"
    using inv_ex_caller_busy [OF inv] assms(2) by (auto simp: end_call_ringing_def split: option.splits)
  ultimately show ?thesis by (simp add: end_call_def end_call_active_None)
qed

text \<open>A client whose busy marker names the call either ends it or leaves it.\<close>

lemma busy_ends_or_leaves:
  assumes inv: "inv_ex E s" and B: "hm_get (client_active_calls s) x = Some c"
  shows "ends_for_all x (hm_get (ringing_calls s) c) (hm_get (active_calls s) c) \<longleftrightarrow>
    \<not> leaves x (hm_get (active_calls s) c)"
proof -
  have busy: "busy_in (hm_get (ringing_calls s) c) (hm_get (active_calls s) c) x"
    using B unfolding inv_exD(7) [OF inv] .
  show ?thesis
  proof (cases "hm_get (active_calls s) c")
    case None
    with busy show ?thesis by (auto simp: ends_for_all_def leaves_def busy_in_def split: option.splits)
  next
    case (Some a)
    with busy inv_ex_pair [OF inv _ Some] have "x \<in> set (hm_keys (ace_participants a))"
      by (auto simp: busy_in_def pair_ok_def split: option.splits)
    with Some show ?thesis by (auto simp: ends_for_all_def leaves_def)
  qed
qed

lemma leave_call_inv:
  assumes inv: "inv_ex E s" and a: "hm_get (active_calls s) c = Some a" and l: "leaves x (Some a)"
  shows "inv_ex E (leave_call c x a s)"
  using l inv_ex_active [OF inv a] unfolding leave_call_def
  by (intro leave_active_inv [OF inv a]) (auto simp: leaves_def active_ok_def)

lemma end_call_inv_ex:
  assumes inv: "inv_ex E s"
  shows "inv_ex E (fst (end_call c x s))"
proof (cases "hm_get (client_active_calls s) x = Some c")
  case False
  with inv end_call_stranger [OF inv False] show ?thesis by simp
next
  case True
  show ?thesis
  proof (cases "leaves x (hm_get (active_calls s) c)")
    case False
    with busy_ends_or_leaves [OF inv True] show ?thesis
      by (simp add: end_call_erases [OF inv] erase_call_inv [OF inv])
  next
    case l: True
    then obtain a where a: "hm_get (active_calls s) c = Some a" by (auto simp: leaves_def split: option.splits)
    with l have l': "leaves x (Some a)" by simp
    with end_call_leaves(1) [OF inv a l'] leave_call_inv [OF inv a l'] show ?thesis by simp
  qed
qed

lemma end_call_inv: "call_inv s \<Longrightarrow> call_inv (fst (end_call c x s))"
  by (simp add: call_inv_def end_call_inv_ex)

lemma call_error_op_inv:
  assumes "call_inv s"
  shows "call_inv (fst (call_error_op c x s))"
proof -
  obtain s1 oc where m: "mark_client_within_ringing_calls mark_errored (OutcomeError CallFailure) c x s = (s1, oc)"
    by (cases "mark_client_within_ringing_calls mark_errored (OutcomeError CallFailure) c x s")
  with errored.mark_client_inv [OF assms, of "OutcomeError CallFailure" c x] have "call_inv s1" by simp
  with end_call_inv [of s1 c x] show ?thesis
    by (auto simp: call_error_op_def m split: call_termination_outcome.splits prod.splits option.splits)
qed

end
