(* ===== verification/CallCleanup.thy ===== *)
theory CallCleanup
  imports CallActive
begin

text \<open>
  The disconnect cleanup and the dead-link reports keep the invariant. For the call a client is
  busy in the cleanup is the same as the client ending that call; the loop over the calls it is
  ringing for is proved with the exception set of \<open>inv_ex\<close>, which loses one pair per round.
\<close>

section \<open>Disconnect cleanup\<close>

text \<open>
  For the call the client is busy in, the cleanup is the same as the client ending the call.
  The actions differ only in their order.
\<close>

lemma complete_all_targets_outcome: "complete_all_targets oc r = complete_all_targets oc' r"
  by (simp add: complete_all_targets_def complete_def set_outcome_def)

lemma cleanup_ringing_part_eq:
  assumes "\<And>r. hm_get (ringing_calls s) c = Some r \<Longrightarrow> rc_call_id r = c"
    and B: "client_active_calls s' = hm_remove x (client_active_calls s)"
    and s': "s' = s\<lparr>client_active_calls := hm_remove x (client_active_calls s)\<rparr>"
  shows "cleanup_ringing_part c x s' =
     (fst (end_call_ringing c x s)\<lparr>client_active_calls := hm_remove x (client_active_calls s)\<rparr>,
      case snd (end_call_ringing c x s) of Some acts \<Rightarrow> acts | None \<Rightarrow> [])"
  using assms(1) unfolding s'
  by (auto simp: cleanup_ringing_part_def end_call_ringing_def cleanup_client_incoming_calls_def
      complete_all_targets_outcome [of OutcomeAborted _ OutcomeCancelled] split: option.splits)

lemma fold_clear_busy_remove:
  assumes "hm_ok B"
  shows "clear_busy c x (fold (clear_busy c) xs B) = fold (clear_busy c) xs (clear_busy c x B)"
proof -
  have "fold (clear_busy c) (xs @ [x]) B = fold (clear_busy c) (x # xs) B"
    unfolding fold_clear_busy_filter [OF assms] by (auto intro!: filter_cong)
  then show ?thesis by simp
qed

lemma cleanup_active_part_eq:
  assumes ok: "hm_ok (client_active_calls s)"
    and B: "clear_busy c x (client_active_calls s) = B'" "B' = hm_remove x (client_active_calls s)"
    and s': "s' = s\<lparr>client_active_calls := B'\<rparr>"
  shows "cleanup_active_part c x s' =
    (fst (end_call_active c x s)\<lparr>client_active_calls :=
       (if snd (end_call_active c x s) = None then B' else client_active_calls (fst (end_call_active c x s)))\<rparr>,
     case snd (end_call_active c x s) of Some acts \<Rightarrow> acts | None \<Rightarrow> [])"
  unfolding s'
  using B(1) fold_clear_busy_remove [OF ok, of c x]
  by (auto simp: cleanup_active_part_def end_call_active_def active_involves_def Let_def cancel_pending_invitations_def
      cleanup_client_incoming_calls_def complete_all_targets_outcome [of OutcomeAborted _ OutcomeCancelled]
      split: option.splits prod.splits)


lemma end_call_actions:
  "snd (end_call c x s) =
    (case (snd (end_call_active c x (fst (end_call_ringing c x s))), snd (end_call_ringing c x s)) of
       (Some active, Some ringing) \<Rightarrow> Some (active @ ringing)
     | (Some active, None) \<Rightarrow> Some active
     | (None, ringing) \<Rightarrow> ringing)"
  by (simp add: end_call_def case_prod_beta Let_def)

lemma end_call_active_eq_None:
  "snd (end_call_active c x s) = None \<longleftrightarrow>
     (\<forall>a. hm_get (active_calls s) c = Some a \<longrightarrow> x \<notin> set (hm_keys (ace_participants a)))"
  by (auto simp: end_call_active_def active_involves_def hm_contains_key_iff Let_def split: option.splits prod.splits)

lemma cleanup_own_call_is_end_call:
  assumes inv: "inv_ex E s" and B: "hm_get (client_active_calls s) x = Some c"
  shows "fst (cleanup_own_call x s) = fst (end_call c x s)"
    and "\<exists>ringing active. snd (cleanup_own_call x s) = ringing @ active \<and> snd (end_call c x s) = Some (active @ ringing)"
proof -
  let ?B = "client_active_calls s"
  let ?s1 = "fst (end_call_ringing c x s)"
  have okB: "hm_ok ?B" by (rule inv_exD(4) [OF inv])
  have rid: "\<And>r. hm_get (ringing_calls s) c = Some r \<Longrightarrow> rc_call_id r = c"
    using inv_ex_ring [OF inv] by (auto simp: ring_ok_def)
  have rem: "hm_remove x (hm_remove x ?B) = hm_remove x ?B" "clear_busy c x (hm_remove x ?B) = hm_remove x ?B"
    by (simp_all add: hm_remove_absent clear_busy_def)
  have B1: "clear_busy c x (client_active_calls ?s1) = hm_remove x ?B"
    "hm_ok (client_active_calls ?s1)" "hm_remove x ?B = hm_remove x (client_active_calls ?s1)"
    using okB B rem by (auto simp: end_call_ringing_state clear_busy_def split: option.splits)
  have ring: "cleanup_ringing_part c x (s\<lparr>client_active_calls := hm_remove x ?B\<rparr>) =
     (?s1\<lparr>client_active_calls := hm_remove x ?B\<rparr>,
      case snd (end_call_ringing c x s) of Some acts \<Rightarrow> acts | None \<Rightarrow> [])"
    by (rule cleanup_ringing_part_eq [OF rid]) simp_all
  have act: "cleanup_active_part c x (?s1\<lparr>client_active_calls := hm_remove x ?B\<rparr>) =
    (fst (end_call c x s)\<lparr>client_active_calls :=
       (if snd (end_call_active c x ?s1) = None then hm_remove x ?B
        else client_active_calls (fst (end_call c x s)))\<rparr>,
     case snd (end_call_active c x ?s1) of Some acts \<Rightarrow> acts | None \<Rightarrow> [])"
    unfolding end_call_state by (rule cleanup_active_part_eq [OF B1(2,1,3)]) simp
  have some: "snd (end_call_active c x ?s1) \<noteq> None \<or> snd (end_call_ringing c x s) \<noteq> None"
    and none: "snd (end_call_active c x ?s1) = None \<Longrightarrow> client_active_calls (fst (end_call c x s)) = hm_remove x ?B"
  proof -
    have A: "active_calls ?s1 = active_calls s" by (simp add: end_call_ringing_state split: option.splits)
    have busy: "busy_in (hm_get (ringing_calls s) c) (hm_get (active_calls s) c) x"
      using B unfolding inv_exD(7) [OF inv] .
    have caller: "\<exists>r. hm_get (ringing_calls s) c = Some r \<and> rc_caller_id r = x"
      if "snd (end_call_active c x ?s1) = None"
      using busy that unfolding end_call_active_eq_None A by (auto simp: busy_in_def split: option.splits)
    moreover have "snd (end_call_ringing c x s) \<noteq> None"
      if "\<exists>r. hm_get (ringing_calls s) c = Some r \<and> rc_caller_id r = x"
      using that by (auto simp: end_call_ringing_def Let_def)
    ultimately show "snd (end_call_active c x ?s1) \<noteq> None \<or> snd (end_call_ringing c x s) \<noteq> None"
      by blast
    assume n: "snd (end_call_active c x ?s1) = None"
    then have "fst (end_call_active c x ?s1) = ?s1"
      unfolding end_call_active_eq_None by (simp add: end_call_active_None)
    with caller [OF n] show "client_active_calls (fst (end_call c x s)) = hm_remove x ?B"
      by (auto simp: end_call_state end_call_ringing_state)
  qed
  from B ring act none show "fst (cleanup_own_call x s) = fst (end_call c x s)"
    by (auto simp: cleanup_own_call_def Let_def)
  from B ring act some
  show "\<exists>ringing active. snd (cleanup_own_call x s) = ringing @ active \<and> snd (end_call c x s) = Some (active @ ringing)"
    by (auto simp: cleanup_own_call_def Let_def end_call_actions split: option.splits)
qed


lemma cleanup_own_call_idle: "hm_get (client_active_calls s) x = None \<Longrightarrow> cleanup_own_call x s = (s, [])"
  by (simp add: cleanup_own_call_def)

lemma cleanup_own_call_inv: "inv_ex E s \<Longrightarrow> inv_ex E (fst (cleanup_own_call x s))"
  by (cases "hm_get (client_active_calls s) x")
    (simp_all add: cleanup_own_call_idle cleanup_own_call_is_end_call(1) end_call_inv_ex)

text \<open>One round of the loop over the incoming calls: the client disappears from its target.\<close>

definition without_client :: "client_id \<Rightarrow> ringing_target_entry \<Rightarrow> ringing_target_entry" where
  "without_client x e =
     e\<lparr>rte_notified_clients := hs_remove x (rte_notified_clients e),
       rte_rejected_clients := hs_remove x (rte_rejected_clients e),
       rte_errored_clients := hs_remove x (rte_errored_clients e)\<rparr>"

definition targets_without ::
  "client_id \<Rightarrow> call_target \<Rightarrow> ringing_target_entry \<Rightarrow> (call_target, ringing_target_entry) hash_map
    \<Rightarrow> (call_target, ringing_target_entry) hash_map" where
  "targets_without x t e ts =
     (if hs_remove x (rte_notified_clients e) = [] then hm_remove t ts else hm_insert t (without_client x e) ts)"

lemma entry_ok_without:
  "entry_ok k e \<Longrightarrow> hs_remove x (rte_notified_clients e) \<noteq> [] \<Longrightarrow> entry_ok k (without_client x e)"
  by (auto simp: entry_ok_def without_client_def)

lemma targets_without_ok:
  assumes ok: "targets_ok k ts" and e: "hm_get ts t = Some e"
  shows "targets_ok k (targets_without x t e ts)"
proof (cases "hs_remove x (rte_notified_clients e) = []")
  case True
  with ok show ?thesis by (simp add: targets_without_def targets_ok_remove)
next
  case False
  obtain us vs where ts: "ts = us @ (t, e) # vs" "t \<notin> set (hm_keys us)" using e by (rule hm_split)
  have "entry_ok k (without_client x e)"
    using ok ts False by (intro entry_ok_without) (auto simp: targets_ok_def)
  with False ok show ?thesis
    unfolding targets_without_def ts(1) hm_insert_split [OF ts(2)]
    by (auto simp: targets_ok_def hm_ok_def without_client_def)
qed

lemma notified_without:
  assumes ok: "targets_ok k ts" and e: "hm_get ts t = Some e" and x: "x \<in> set (rte_notified_clients e)"
  shows "(\<exists>e'. (t', e') \<in> set (targets_without x t e ts) \<and> y \<in> set (rte_notified_clients e')) \<longleftrightarrow>
    y \<noteq> x \<and> (\<exists>e'. (t', e') \<in> set ts \<and> y \<in> set (rte_notified_clients e'))"
proof -
  have te: "(t, e) \<in> set ts" using e by (rule hm_get_SomeD)
  have okts: "hm_ok ts" using ok by (simp add: targets_ok_def)
  have same: "e' = e" if "(t, e') \<in> set ts" for e'
    using that e okts by (simp add: hm_get_iff [symmetric])
  have other: "x \<notin> set (rte_notified_clients e')" if "(u, e') \<in> set ts" "u \<noteq> t" for u e'
    using targets_ok_notified_unique [OF ok te that(1) x] that(2) by blast
  show ?thesis
  proof (cases "hs_remove x (rte_notified_clients e) = []")
    case True
    then have "y \<in> set (rte_notified_clients e) \<longleftrightarrow> y = x"
      using x by (auto simp: hs_remove_eq_Nil)
    with True notified_remove [OF ok e, of t' y] show ?thesis by (simp add: targets_without_def)
  next
    case False
    then have mem: "(t', e') \<in> set (targets_without x t e ts) \<longleftrightarrow>
        (if t' = t then e' = without_client x e else (t', e') \<in> set ts)" for e'
      by (auto simp: targets_without_def hm_set_insert [OF okts])
    have own: "(\<exists>e'. (t, e') \<in> set ts \<and> y \<in> set (rte_notified_clients e')) \<longleftrightarrow> y \<in> set (rte_notified_clients e)"
      using te same by blast
    show ?thesis
    proof (cases "t' = t")
      case True
      with mem own show ?thesis by (auto simp: without_client_def)
    next
      case False
      with mem other show ?thesis by auto
    qed
  qed
qed

lemma invited_as_without:
  assumes ring: "ring_ok c r" and e: "hm_get (rc_targets r) t = Some e" and x: "x \<in> set (rte_notified_clients e)"
  shows "invited_as (shrunk_ringing r (targets_without x t e (rc_targets r))) y =
    (if y = x then None else invited_as (Some r) y)"
proof (rule option_eqI)
  fix t'
  let ?kept = "targets_without x t e (rc_targets r)"
  note mem = notified_without [OF ring_ok_targets [OF ring] e x, of t' y]
  show "invited_as (shrunk_ringing r ?kept) y = Some t' \<longleftrightarrow> (if y = x then None else invited_as (Some r) y) = Some t'"
  proof (cases "?kept = []")
    case True
    with mem show ?thesis by (auto simp: shrunk_ringing_def invited_as_None invited_as_Some [OF ring])
  next
    case False
    then have ring': "ring_ok c (r\<lparr>rc_targets := ?kept\<rparr>)"
      using ring targets_without_ok [OF ring_ok_targets [OF ring] e] by (simp add: ring_ok_def)
    show ?thesis
      using mem False by (simp add: shrunk_ringing_def invited_as_Some [OF ring'] invited_as_Some [OF ring])
  qed
qed

lemma set_notified_without_subset:
  assumes ok: "targets_ok k (rc_targets r)" and e: "hm_get (rc_targets r) t = Some e"
    and x: "x \<in> set (rte_notified_clients e)"
  shows "set (concat (map rte_notified_clients (hm_values (targets_without x t e (rc_targets r))))) \<subseteq> set (all_notified r)"
proof
  fix y
  assume "y \<in> set (concat (map rte_notified_clients (hm_values (targets_without x t e (rc_targets r)))))"
  then obtain t' e' where "(t', e') \<in> set (targets_without x t e (rc_targets r))" "y \<in> set (rte_notified_clients e')"
    by (auto simp: hm_values_def)
  with notified_without [OF ok e x, of t' y] obtain e'' where "(t', e'') \<in> set (rc_targets r)" "y \<in> set (rte_notified_clients e'')"
    by blast
  then show "y \<in> set (all_notified r)" by (auto simp: mem_all_notified)
qed

lemma all_targets_failed_Nil:
  "targets_ok k (rc_targets r) \<Longrightarrow> all_targets_failed r \<longleftrightarrow> rc_targets r = []"
  by (cases "rc_targets r")
    (auto simp: all_targets_failed_def all_rejected_or_errored_def targets_ok_def entry_ok_def)

lemma cleanup_incoming_call_state:
  assumes ring: "ring_ok c r" and r: "hm_get (ringing_calls s) c = Some r" and e: "hm_get (rc_targets r) t = Some e"
  shows "fst (cleanup_incoming_call x (c, t) (s, acts)) =
    (let kept = targets_without x t e (rc_targets r)
     in if kept = []
        then s\<lparr>ringing_calls := hm_remove c (ringing_calls s),
               client_active_calls :=
                 (if list_ex (\<lambda>a. active_involves a (rc_caller_id r)) (hm_values (active_calls s))
                  then client_active_calls s else hm_remove (rc_caller_id r) (client_active_calls s))\<rparr>
        else s\<lparr>ringing_calls := hm_insert c (r\<lparr>rc_targets := kept\<rparr>) (ringing_calls s)\<rparr>)"
proof -
  let ?kept = "targets_without x t e (rc_targets r)"
  have "all_targets_failed (r\<lparr>rc_targets := ?kept\<rparr>) \<longleftrightarrow> ?kept = []"
    using targets_without_ok [OF ring_ok_targets [OF ring] e, of x]
    by (intro all_targets_failed_Nil [of "rc_caller_id r" "r\<lparr>rc_targets := ?kept\<rparr>", simplified])
  then show ?thesis
    using r e
    by (cases "hs_remove x (rte_notified_clients e) = []")
      (auto simp: cleanup_incoming_call_def all_rejected_or_errored_def targets_without_def without_client_def Let_def
        split: prod.splits)
qed

lemma cleanup_incoming_call_inv:
  assumes inv: "inv_ex E s" and r: "hm_get (ringing_calls s) c = Some r"
    and t: "invited_as (Some r) x = Some t" and x: "(x, c) \<in> E"
  shows "inv_ex (E - {(x, c)}) (fst (cleanup_incoming_call x (c, t) (s, acts)))"
proof -
  note ring = inv_ex_ring [OF inv r]
  obtain e where e: "hm_get (rc_targets r) t = Some e" "x \<in> set (rte_notified_clients e)"
    using t ring by (rule invited_asE)
  note ok = ring_ok_targets [OF ring]
  show ?thesis
    unfolding cleanup_incoming_call_state [OF ring r e(1)] Let_def
    using r x
    by (intro shrink_ringing_inv [OF inv r targets_without_ok [OF ok e(1), of x] set_notified_without_subset [OF ok e]])
      (auto simp: caller_in_some_active_call [OF inv r] inv_exD(3,6) [OF inv] invited_as_without [OF ring e])
qed

lemma cleanup_incoming_call_frame:
  assumes "ring_ok c r" "hm_get (ringing_calls s) c = Some r" "hm_get (rc_targets r) t = Some e"
  shows "c' \<noteq> c \<Longrightarrow> hm_get (ringing_calls (fst (cleanup_incoming_call x (c, t) (s, acts)))) c' = hm_get (ringing_calls s) c'"
    and "client_incoming_calls (fst (cleanup_incoming_call x (c, t) (s, acts))) = client_incoming_calls s"
    and "hm_get (client_active_calls (fst (cleanup_incoming_call x (c, t) (s, acts)))) y \<in>
      {None, hm_get (client_active_calls s) y}"
  by (simp_all add: cleanup_incoming_call_state [OF assms] Let_def)

lemma cleanup_loop_inv:
  assumes "inv_ex ({x} \<times> set (hm_keys cs)) s" "hm_ok cs"
    and "\<And>c t. (c, t) \<in> set cs \<Longrightarrow> invited_as (hm_get (ringing_calls s) c) x = Some t"
  shows "inv_ex {} (fst (fold (cleanup_incoming_call x) cs (s, acts))) \<and>
    client_incoming_calls (fst (fold (cleanup_incoming_call x) cs (s, acts))) = client_incoming_calls s \<and>
    hm_get (client_active_calls (fst (fold (cleanup_incoming_call x) cs (s, acts)))) y \<in>
      {None, hm_get (client_active_calls s) y}"
  using assms
proof (induction cs arbitrary: s acts)
  case (Cons p cs)
  obtain c t where p: "p = (c, t)" by (cases p)
  have t: "invited_as (hm_get (ringing_calls s) c) x = Some t" using Cons.prems(3) p by simp
  then obtain r where r: "hm_get (ringing_calls s) c = Some r"
    by (cases "hm_get (ringing_calls s) c") (auto simp: invited_as_None)
  note ring = inv_ex_ring [OF Cons.prems(1) r]
  have t': "invited_as (Some r) x = Some t" using t r by simp
  obtain e where e: "hm_get (rc_targets r) t = Some e" using t' ring by (rule invited_asE)
  obtain s1 acts1 where s1: "cleanup_incoming_call x (c, t) (s, acts) = (s1, acts1)"
    by (cases "cleanup_incoming_call x (c, t) (s, acts)")
  note frame = cleanup_incoming_call_frame [OF ring r e, where x = x and acts = acts, unfolded s1 fst_conv]
  have fresh: "c \<notin> set (hm_keys cs)" using Cons.prems(2) p by (simp add: hm_keys_image)
  have "{x} \<times> set (hm_keys (p # cs)) - {(x, c)} = {x} \<times> set (hm_keys cs)" using fresh p by auto
  moreover have "inv_ex ({x} \<times> set (hm_keys (p # cs)) - {(x, c)}) s1"
    using cleanup_incoming_call_inv [OF Cons.prems(1) r t', of acts] s1 p by simp
  ultimately have inv1: "inv_ex ({x} \<times> set (hm_keys cs)) s1" by simp
  have inv_as: "invited_as (hm_get (ringing_calls s1) c') x = Some t''" if "(c', t'') \<in> set cs" for c' t''
  proof -
    have "c' \<in> set (hm_keys cs)" using that by (force simp: hm_keys_def)
    then have "c' \<noteq> c" using fresh by auto
    from frame(1) [OF this] Cons.prems(3) [of c' t''] that show ?thesis by simp
  qed
  have ok: "hm_ok cs" using Cons.prems(2) p by simp
  from Cons.IH [OF inv1 ok inv_as, of acts1] frame(2) frame(3) [of y] show ?case by (auto simp: p s1)
qed simp

lemma inc_get_remove_client [simp]: "inc_get (hm_remove x m) y c = (if y = x then None else inc_get m y c)"
  by (simp add: inc_get_def)

lemma inc_ok_remove_client [simp]: "inc_ok m \<Longrightarrow> inc_ok (hm_remove x m)"
  by (auto simp: inc_ok_def hm_set_remove)

lemma end_call_frees:
  assumes inv: "inv_ex E s" and B: "hm_get (client_active_calls s) x = Some c"
  shows "hm_get (client_active_calls (fst (end_call c x s))) x = None"
proof (cases "leaves x (hm_get (active_calls s) c)")
  case False
  with busy_ends_or_leaves [OF inv B] B show ?thesis
    by (simp add: end_call_erases [OF inv] erase_call_def hm_get_filter_value inv_exD(4) [OF inv])
next
  case True
  then obtain a where a: "hm_get (active_calls s) c = Some a" by (auto simp: leaves_def split: option.splits)
  with True have "leaves x (Some a)" by simp
  from end_call_leaves(1) [OF inv a this] B show ?thesis by (simp add: leave_call_def hm_get_clear_busy)
qed

lemma cleanup_client_calls_spec:
  assumes inv: "call_inv s"
  shows "call_inv (fst (cleanup_client_calls x s)) \<and>
    hm_get (client_active_calls (fst (cleanup_client_calls x s))) x = None \<and>
    hm_get (client_incoming_calls (fst (cleanup_client_calls x s))) x = None"
proof -
  obtain s1 acts1 where s1: "cleanup_own_call x s = (s1, acts1)" by (cases "cleanup_own_call x s")
  have i1: "inv_ex {} s1" using cleanup_own_call_inv [of "{}" s x] inv s1 by (simp add: call_inv_def)
  have B1: "hm_get (client_active_calls s1) x = None"
  proof (cases "hm_get (client_active_calls s) x")
    case None
    with s1 show ?thesis by (simp add: cleanup_own_call_idle)
  next
    case (Some c)
    note i = inv [unfolded call_inv_def]
    from cleanup_own_call_is_end_call(1) [OF i Some] end_call_frees [OF i Some] s1 show ?thesis by simp
  qed
  show ?thesis
  proof (cases "hm_get (client_incoming_calls s1) x")
    case None
    with s1 i1 B1 show ?thesis by (simp add: cleanup_client_calls_def call_inv_def)
  next
    case (Some incoming)
    let ?s2 = "s1\<lparr>client_incoming_calls := hm_remove x (client_incoming_calls s1)\<rparr>"
    have ok: "hm_ok incoming" using inc_okD [OF inv_exD(3) [OF i1] Some] by simp
    have idx: "invited_as (hm_get (ringing_calls s1) c) x = hm_get incoming c" for c
      using inv_exD(6) [OF i1, of x c] Some by (simp add: inc_get_def)
    have "inv_ex ({x} \<times> set (hm_keys incoming)) ?s2"
      unfolding inv_ex_def using i1 idx
      by (auto simp: inv_exD(1-7) [OF i1] hm_get_None_iff [symmetric])
    from cleanup_loop_inv [OF this ok, of acts1 x] idx ok B1 Some s1 show ?thesis
      by (auto simp: cleanup_client_calls_def call_inv_def hm_get_iff)
  qed
qed

section \<open>Dead links\<close>

lemma link_key_pair:
  assumes "x \<noteq> y"
  obtains p q where "link_key x y = (p, q)" "p < q" "{p, q} = {x, y}"
proof (cases "x \<le> y")
  case True
  with assms show ?thesis by (intro that [of x y]) (auto simp: link_key_def)
next
  case False
  with assms show ?thesis by (intro that [of y x]) (auto simp: link_key_def)
qed

lemma link_key_commute: "link_key x y = link_key y x"
  by (auto simp: link_key_def)

lemma record_link_report_shape:
  assumes "links_ok a" "x \<noteq> y"
  obtains rep where "ace_link_reports (fst (record_link_report_at x y now a)) = hm_insert (link_key x y) rep (ace_link_reports a)"
    "set (lr_reporters rep) \<subseteq> {x, y}"
proof -
  have old: "set (lr_reporters rep) \<subseteq> {x, y}" if "hm_get (ace_link_reports a) (link_key x y) = Some rep" for rep
  proof -
    obtain p q where k: "link_key x y = (p, q)" "{p, q} = {x, y}" using assms(2) by (rule link_key_pair)
    have "(link_key x y, rep) \<in> set (ace_link_reports a)" using that by (rule hm_get_SomeD)
    with assms(1) k(1) have "set (lr_reporters rep) \<subseteq> {p, q}" by (auto simp: links_ok_def)
    with k(2) show ?thesis by simp
  qed
  show ?thesis
    by (rule that, simp add: record_link_report_at_def Let_def) (use old in \<open>auto split: option.splits\<close>)
qed

lemma links_ok_record:
  assumes "links_ok a" "x \<noteq> y" "x \<in> set (hm_keys (ace_participants a))" "y \<in> set (hm_keys (ace_participants a))"
  shows "links_ok (fst (record_link_report_at x y now a))"
proof -
  obtain rep where rep: "ace_link_reports (fst (record_link_report_at x y now a)) = hm_insert (link_key x y) rep (ace_link_reports a)"
    "set (lr_reporters rep) \<subseteq> {x, y}"
    using assms(1,2) by (rule record_link_report_shape)
  obtain p q where k: "link_key x y = (p, q)" "p < q" "{p, q} = {x, y}" using assms(2) by (rule link_key_pair)
  then have "p \<in> set (hm_keys (ace_participants a))" "q \<in> set (hm_keys (ace_participants a))"
    "set (lr_reporters rep) \<subseteq> {p, q}"
    using assms(3,4) rep(2) by (auto simp: doubleton_eq_iff)
  moreover have "ace_participants (fst (record_link_report_at x y now a)) = ace_participants a"
    by (simp add: record_link_report_at_def Let_def)
  ultimately show ?thesis
    using assms(1) k(2) unfolding links_ok_def rep(1) k(1) by (auto simp: hm_set_insert)
qed

lemma record_link_report_fields [simp]:
  "ace_participants (fst (record_link_report_at x y now a)) = ace_participants a"
  "ace_call_id (fst (record_link_report_at x y now a)) = ace_call_id a"
  "ace_conference_leader (fst (record_link_report_at x y now a)) = ace_conference_leader a"
  "ace_join_order (fst (record_link_report_at x y now a)) = ace_join_order a"
  "ace_next_join_seq (fst (record_link_report_at x y now a)) = ace_next_join_seq a"
  by (simp_all add: record_link_report_at_def Let_def)

lemma active_ok_record:
  assumes "active_ok c a" "x \<noteq> y" "x \<in> set (hm_keys (ace_participants a))" "y \<in> set (hm_keys (ace_participants a))"
  shows "active_ok c (fst (record_link_report_at x y now a))"
  using assms links_ok_record [of a x y now] by (simp add: active_ok_def join_ok_def split: option.splits)

lemma record_report_inv:
  assumes inv: "inv_ex E s" and a: "hm_get (active_calls s) c = Some a" and "x \<noteq> y"
    "x \<in> set (hm_keys (ace_participants a))" "y \<in> set (hm_keys (ace_participants a))"
  shows "inv_ex E (s\<lparr>active_calls := hm_insert c (fst (record_link_report_at x y now a)) (active_calls s)\<rparr>)"
proof -
  let ?a = "fst (record_link_report_at x y now a)" and ?R = "hm_get (ringing_calls s) c"
  have "call_ok c ?R (Some ?a)"
    using active_ok_record [OF inv_ex_active [OF inv a] assms(3-5)] inv_exD(5) [OF inv, of c] a
    by (auto simp: call_ok_def pair_ok_def split: option.splits)
  moreover have "busy_in ?R (Some ?a) z \<longleftrightarrow> hm_get (client_active_calls s) z = Some c" for z
    unfolding inv_exD(7) [OF inv] using a by (simp add: busy_in_def)
  ultimately show ?thesis
    by (intro inv_ex_update [OF inv, where c = c]) (auto simp: inv_exD(1-4,6) [OF inv])
qed

lemma report_link_failure_inv:
  assumes "call_inv s"
  shows "call_inv (fst (report_link_failure now c x y s))"
proof (cases "\<exists>a. hm_get (active_calls s) c = Some a \<and> x \<noteq> y \<and>
    x \<in> set (hm_keys (ace_participants a)) \<and> y \<in> set (hm_keys (ace_participants a))")
  case True
  then obtain a where a: "hm_get (active_calls s) c = Some a" "x \<noteq> y"
    "x \<in> set (hm_keys (ace_participants a))" "y \<in> set (hm_keys (ace_participants a))" by blast
  obtain a' confirmed where rec: "record_link_report_at x y now a = (a', confirmed)"
    by (cases "record_link_report_at x y now a")
  let ?s = "s\<lparr>active_calls := hm_insert c a' (active_calls s)\<rparr>"
  have "call_inv ?s" using record_report_inv [of "{}" s c a x y now] assms a rec by (simp add: call_inv_def)
  with end_call_inv [of ?s c "later_joiner a' x y"] show ?thesis
    using a by (auto simp: report_link_failure_def hm_contains_key_iff rec Let_def split: prod.splits option.splits)
next
  case False
  then have "fst (report_link_failure now c x y s) = s"
    by (auto simp: report_link_failure_def hm_contains_key_iff split: option.splits)
  with assms show ?thesis by simp
qed

text \<open>A client that neither index mentions is a party of no call.\<close>

lemma not_party:
  assumes i: "inv_ex {} s" and idle: "hm_get (client_active_calls s) x = None" "hm_get (client_incoming_calls s) x = None"
  shows "\<not> is_party c x s"
proof -
  have "\<not> busy_in (hm_get (ringing_calls s) c) (hm_get (active_calls s) c) x"
    using inv_exD(7) [OF i, of x c] idle(1) by simp
  moreover have "x \<notin> set (all_notified r)" if "hm_get (ringing_calls s) c = Some r" for r
  proof -
    have "invited_as (Some r) x = None" using inv_exD(6) [OF i, of x c] that idle(2) by (simp add: inc_get_def)
    then show ?thesis by (simp add: invited_as_eq_None [OF inv_ex_ring [OF i that]])
  qed
  ultimately show ?thesis
    by (auto simp: is_party_def ringing_involves_def busy_in_def hm_contains_key_iff list_ex_iff hm_values_def
        mem_all_notified split: option.splits)
qed

end
