(* ===== verification/CallSystem.thy ===== *)
theory CallSystem
  imports CallCleanup
begin

text \<open>
  The call manager as a transition system: the operations the message layer calls, in any order
  and for any number of calls and clients. An invitation has a contract, which the handlers
  establish: the source names the caller and the notified clients are a non-empty set without the
  caller. The invariant holds in every reachable state; the theorems below are its consequences
  and the functional behaviour of the operations in reachable states.
\<close>

section \<open>Operations and reachable states\<close>

datatype call_op =
    AttemptCall call_id client_id call_source call_target "client_id list"
  | AcceptCall instant call_id client_id
  | RejectCall call_id client_id
  | FailRingingRecipient call_id client_id call_error_reason
  | DropTarget call_id client_id call_target call_drop_reason
  | EndCall call_id client_id
  | CallErrorOp call_id client_id
  | ReportLinkFailure instant call_id client_id client_id
  | CleanupClientCalls client_id

fun exec_op :: "call_op \<Rightarrow> call_manager \<Rightarrow> call_manager" where
  "exec_op (AttemptCall c k src t ns) s = fst (attempt_call c k src t ns s)"
| "exec_op (AcceptCall now c x) s = fst (accept_call now c x s)"
| "exec_op (RejectCall c x) s = fst (reject_call c x s)"
| "exec_op (FailRingingRecipient c x reason) s = fst (fail_ringing_recipient c x reason s)"
| "exec_op (DropTarget c x t reason) s = fst (drop_target c x t reason s)"
| "exec_op (EndCall c x) s = fst (end_call c x s)"
| "exec_op (CallErrorOp c x) s = fst (call_error_op c x s)"
| "exec_op (ReportLinkFailure now c x y) s = fst (report_link_failure now c x y s)"
| "exec_op (CleanupClientCalls x) s = fst (cleanup_client_calls x s)"

fun op_contract :: "call_op \<Rightarrow> bool" where
  "op_contract (AttemptCall c k src t ns) = invite_contract k src ns"
| "op_contract _ = True"

inductive call_reachable :: "u32 \<Rightarrow> call_manager \<Rightarrow> bool" for n :: u32 where
  call_reachable_init: "call_reachable n (call_manager_new n)"
| call_reachable_step: "call_reachable n s \<Longrightarrow> op_contract x \<Longrightarrow> call_reachable n (exec_op x s)"

lemma exec_op_inv: "op_contract x \<Longrightarrow> call_inv s \<Longrightarrow> call_inv (exec_op x s)"
  by (cases x)
    (simp_all add: attempt_call_inv accept_call_inv reject_call_inv fail_ringing_recipient_inv drop_target_inv
      end_call_inv call_error_op_inv report_link_failure_inv cleanup_client_calls_spec)

interpretation call_sys: invariant_system exec_op op_contract call_inv "call_manager_new n" for n
  by unfold_locales (simp_all add: call_inv_new exec_op_inv)

lemma call_reachable_inv: "call_reachable n s \<Longrightarrow> call_inv s"
  by (induction rule: call_reachable.induct) (simp_all add: call_inv_new exec_op_inv)

lemma call_reachable_run: "list_all op_contract xs \<Longrightarrow> call_reachable n s \<Longrightarrow> call_reachable n (run exec_op xs s)"
  by (induction xs arbitrary: s) (auto intro: call_reachable_step)

lemma call_reachable_ops:
  "call_reachable n s \<longleftrightarrow> (\<exists>xs. list_all op_contract xs \<and> s = run exec_op xs (call_manager_new n))"
proof
  assume "call_reachable n s"
  then show "\<exists>xs. list_all op_contract xs \<and> s = run exec_op xs (call_manager_new n)"
  proof induction
    case call_reachable_init
    show ?case by (rule exI [of _ "[]"]) simp
  next
    case (call_reachable_step s x)
    then obtain xs where "list_all op_contract xs" "s = run exec_op xs (call_manager_new n)" by blast
    with call_reachable_step show ?case by (intro exI [of _ "xs @ [x]"]) simp
  qed
qed (auto intro: call_reachable_run call_reachable_init)

section \<open>A scenario\<close>

text \<open>Three clients; the first invites the second, then the third, and both accept.\<close>

definition alice :: client_id where "alice = ClientId ''A''"
definition bob :: client_id where "bob = ClientId ''B''"
definition carol :: client_id where "carol = ClientId ''C''"
definition dave :: client_id where "dave = ClientId ''D''"
definition call1 :: call_id where "call1 = CallId 1"
definition alice_source :: call_source where
  "alice_source = \<lparr>cs_client_id = alice, cs_position_id = None, cs_station_id = Some (StationId ''S'')\<rparr>"

definition scenario_ringing :: "call_op list" where
  "scenario_ringing = [AttemptCall call1 alice alice_source (Station (StationId ''T'')) [bob, dave]]"

definition scenario_pair :: "call_op list" where
  "scenario_pair = scenario_ringing @ [AcceptCall 5 call1 bob]"

definition scenario_conference :: "call_op list" where
  "scenario_conference = scenario_pair @
     [AttemptCall call1 alice alice_source (Client carol) [carol], AcceptCall 7 call1 carol]"

definition scenario_pending :: "call_op list" where
  "scenario_pending = scenario_conference @ [AttemptCall call1 alice alice_source (Client dave) [dave]]"

definition after :: "call_op list \<Rightarrow> call_manager" where
  "after xs = run exec_op xs (call_manager_new 5)"

lemmas scenario_defs = alice_def bob_def carol_def dave_def call1_def alice_source_def scenario_ringing_def
  scenario_pair_def scenario_conference_def scenario_pending_def

lemma scenario_contracts:
  "list_all op_contract scenario_ringing" "list_all op_contract scenario_pair"
  "list_all op_contract scenario_conference" "list_all op_contract scenario_pending"
  by (simp_all add: scenario_defs invite_contract_def)

lemma scenario_reachable:
  "call_reachable 5 (after scenario_ringing)" "call_reachable 5 (after scenario_pair)"
  "call_reachable 5 (after scenario_conference)" "call_reachable 5 (after scenario_pending)"
  by (simp_all add: after_def call_reachable_run scenario_contracts call_reachable_init)

section \<open>Structure of reachable states\<close>

text \<open>
  C2: whatever operations the message layer runs, the call manager keeps its invariant: both call
  maps are well formed and both client indexes are exactly what the calls determine.
\<close>

theorem call_manager_invariant:
  "list_all op_contract ops \<Longrightarrow> call_inv (run exec_op ops (call_manager_new n))"
  by (rule call_sys.inv_reachable)

theorem call_manager_invariant_witness:
  "list_all op_contract scenario_pending \<and> call_inv (run exec_op scenario_pending (call_manager_new 5))"
  using call_manager_invariant [of scenario_pending 5] scenario_contracts by simp

text \<open>
  C5: a client takes part in at most one call at a time, whether it started the ringing or has joined.
\<close>

theorem one_call_per_client:
  assumes "call_reachable n s"
    and "busy_in (hm_get (ringing_calls s) c) (hm_get (active_calls s) c) x"
    and "busy_in (hm_get (ringing_calls s) c') (hm_get (active_calls s) c') x"
  shows "c = c'"
  using assms inv_exD(7) [OF call_reachable_inv [OF assms(1), unfolded call_inv_def]] by (metis option.inject)

theorem one_call_per_client_witness:
  "call_reachable 5 (after scenario_pair) \<and> CallId (2 - 1) = call1"
proof -
  have b: "busy_in (hm_get (ringing_calls (after scenario_pair)) call1) (hm_get (active_calls (after scenario_pair)) call1) bob"
    "busy_in (hm_get (ringing_calls (after scenario_pair)) (CallId (2 - 1)))
       (hm_get (active_calls (after scenario_pair)) (CallId (2 - 1))) bob" by code_simp+
  show ?thesis using one_call_per_client [OF scenario_reachable(2) b(2,1)] scenario_reachable(2) by blast
qed

text \<open>
  The two indexes are exact. The busy marker of a client names a call iff the client started
  its ringing or has joined it, and the incoming index names a target iff the client is still
  being rung under that target.
\<close>

theorem indexes_exact:
  assumes "call_reachable n s"
  shows "(hm_get (client_active_calls s) x = Some c \<longleftrightarrow>
      (\<exists>r. hm_get (ringing_calls s) c = Some r \<and> rc_caller_id r = x) \<or>
      (\<exists>a. hm_get (active_calls s) c = Some a \<and> hm_contains_key x (ace_participants a))) \<and>
    (inc_get (client_incoming_calls s) x c = Some t \<longleftrightarrow>
      (\<exists>r e. hm_get (ringing_calls s) c = Some r \<and> hm_get (rc_targets r) t = Some e \<and> has_notified_client e x))"
proof
  note i = call_reachable_inv [OF assms, unfolded call_inv_def]
  show "hm_get (client_active_calls s) x = Some c \<longleftrightarrow>
      (\<exists>r. hm_get (ringing_calls s) c = Some r \<and> rc_caller_id r = x) \<or>
      (\<exists>a. hm_get (active_calls s) c = Some a \<and> hm_contains_key x (ace_participants a))"
    unfolding inv_exD(7) [OF i] by (auto simp: busy_in_def hm_contains_key_iff split: option.splits)
  show "inc_get (client_incoming_calls s) x c = Some t \<longleftrightarrow>
      (\<exists>r e. hm_get (ringing_calls s) c = Some r \<and> hm_get (rc_targets r) t = Some e \<and> has_notified_client e x)"
  proof (cases "hm_get (ringing_calls s) c")
    case None
    then show ?thesis by (simp add: inv_exD(6) [OF i] invited_as_None)
  next
    case (Some r)
    note ring = inv_ex_ring [OF i Some]
    then have "hm_ok (rc_targets r)" by (simp add: ring_ok_def targets_ok_def)
    with Some show ?thesis
      by (simp add: inv_exD(6) [OF i] invited_as_Some [OF ring] hm_get_iff has_notified_client_def)
  qed
qed

theorem indexes_exact_witness:
  "call_reachable 5 (after scenario_ringing) \<and>
   hm_get (client_active_calls (after scenario_ringing)) alice = Some call1 \<and>
   inc_get (client_incoming_calls (after scenario_ringing)) dave call1 = Some (Station (StationId ''T''))"
proof -
  have "\<exists>r. hm_get (ringing_calls (after scenario_ringing)) call1 = Some r \<and> rc_caller_id r = alice \<and>
     (\<exists>e. hm_get (rc_targets r) (Station (StationId ''T'')) = Some e \<and> has_notified_client e dave)"
    by (simp add: after_def scenario_defs attempt_call_def validate_call_attempt_def call_manager_new_def
        ringing_call_entry_new_def ringing_target_entry_new_def has_notified_client_def hm_contains_key_def)
  then show ?thesis
    using indexes_exact [OF scenario_reachable(1)] scenario_reachable(1) by blast
qed

text \<open>
  C6: an active call has at least two participants and has a leader iff it is a conference of three
  or more; the leader is one of its participants, and while invitations are pending their caller has
  joined the call and is that leader.
\<close>

theorem conference_shape:
  assumes "call_reachable n s" and "hm_get (active_calls s) c = Some a"
  shows "2 \<le> length (ace_participants a) \<and>
    (ace_conference_leader a = None \<longleftrightarrow> length (ace_participants a) = 2) \<and>
    (case ace_conference_leader a of Some l \<Rightarrow> hm_contains_key l (ace_participants a) | None \<Rightarrow> True) \<and>
    (case hm_get (ringing_calls s) c of
       Some r \<Rightarrow> hm_contains_key (rc_caller_id r) (ace_participants a) \<and>
         ace_conference_leader a \<in> {None, Some (rc_caller_id r)}
     | None \<Rightarrow> True)"
proof -
  note i = call_reachable_inv [OF assms(1), unfolded call_inv_def]
  show ?thesis
    using inv_ex_active [OF i assms(2)] inv_ex_pair [OF i _ assms(2)]
    by (auto simp: active_ok_def pair_ok_def hm_contains_key_iff split: option.splits)
qed

theorem conference_shape_witness:
  "call_reachable 5 (after scenario_pending) \<and>
   (\<exists>a. hm_get (active_calls (after scenario_pending)) call1 = Some a \<and> 2 \<le> length (ace_participants a) \<and>
      ace_conference_leader a = Some alice)"
proof -
  obtain a where a: "hm_get (active_calls (after scenario_pending)) call1 = Some a" "ace_conference_leader a = Some alice"
  proof -
    have "map_option ace_conference_leader (hm_get (active_calls (after scenario_pending)) call1) = Some (Some alice)"
      by code_simp
    then show ?thesis using that by (cases "hm_get (active_calls (after scenario_pending)) call1") auto
  qed
  with conference_shape [OF scenario_reachable(4) a(1)] scenario_reachable(4) show ?thesis by blast
qed

end
