(* ===== verification/CallBehaviour.thy ===== *)
theory CallBehaviour
  imports CallSystem "HOL-Library.Multiset"
begin

text \<open>
  The functional behaviour of the call manager's operations in reachable states: ending and leaving,
  accepting, rejecting, inviting, dropping, dead-link eviction, disconnecting, and the queries the
  message layer uses. Each section proves the operation's effect on the two call maps and the two
  client indexes on every branch.
\<close>

section \<open>Ending and leaving\<close>

lemma end_call_erase_actions:
  assumes inv: "inv_ex E s" and e: "ends_for_all x (hm_get (ringing_calls s) c) (hm_get (active_calls s) c)"
  shows "snd (end_call c x s) =
    Some (map (DropParticipant c)
            (case hm_get (active_calls s) c of
               Some a \<Rightarrow> filter (\<lambda>y. y \<noteq> x) (hm_keys (ace_participants a)) | None \<Rightarrow> []) @
          map CancelRingingTarget
            (case hm_get (ringing_calls s) c of
               Some r \<Rightarrow> complete_all_targets OutcomeCancelled r | None \<Rightarrow> []))"
proof (cases "hm_get (active_calls s) c")
  case None
  with e obtain r where "hm_get (ringing_calls s) c = Some r" "rc_caller_id r = x"
    by (auto simp: ends_for_all_def split: option.splits)
  with None show ?thesis
    by (simp add: end_call_actions end_call_ringing_def cleanup_client_incoming_calls_def end_call_active_def)
next
  case (Some a)
  let ?R = "hm_get (ringing_calls s) c"
  from Some e have a: "x \<in> set (hm_keys (ace_participants a))"
    "ace_conference_leader a = Some x \<or> length (ace_participants a) = 2" by (simp_all add: ends_for_all_def)
  note act = end_call_active_teardown [OF _ inv_ex_active [OF inv Some] a]
  show ?thesis
  proof (cases "\<exists>r. ?R = Some r \<and> rc_caller_id r = x")
    case True
    then obtain r where "?R = Some r" "rc_caller_id r = x" by blast
    with Some show ?thesis
      by (simp add: end_call_actions end_call_ringing_def cleanup_client_incoming_calls_def act Let_def
          cancel_pending_invitations_def)
  next
    case False
    then have "end_call_ringing c x s = (s, None)" by (auto simp: end_call_ringing_def split: option.splits)
    with Some show ?thesis
      by (auto simp: end_call_actions act Let_def cancel_pending_invitations_def split: option.splits)
  qed
qed

lemma erase_call_gone:
  assumes inv: "inv_ex E s"
  shows "hm_get (ringing_calls (erase_call c s)) c = None" "hm_get (active_calls (erase_call c s)) c = None"
    "hm_get (client_active_calls (erase_call c s)) y =
       (if hm_get (client_active_calls s) y = Some c then None else hm_get (client_active_calls s) y)"
    "inc_get (client_incoming_calls (erase_call c s)) y c' =
       (if c' = c then None else inc_get (client_incoming_calls s) y c')"
proof -
  show "inc_get (client_incoming_calls (erase_call c s)) y c' =
      (if c' = c then None else inc_get (client_incoming_calls s) y c')"
  proof (cases "c' = c")
    case True
    then show ?thesis
      using inv_exD(6) [OF erase_call_inv [OF inv, of c], of y c] by (simp add: erase_call_def invited_as_None)
  next
    case False
    then show ?thesis by (simp add: erase_call_def inc_get_fold_remove split: option.splits)
  qed
qed (simp_all add: erase_call_def hm_get_filter_value inv_exD(4) [OF inv])

text \<open>
  C26: when the leader of a conference, either side of a two-party call or the caller of an
  unanswered call ends it, the call is gone for everybody: it is in neither call map, no client is
  busy with it or rung for it, no other call and no client outside it is affected, and the actions
  are one drop per other participant and one cancellation per pending target.
\<close>

theorem end_call_for_all:
  assumes "call_reachable n s"
    and "ends_for_all x (hm_get (ringing_calls s) c) (hm_get (active_calls s) c)"
    and "end_call c x s = (s', actions)"
  shows "hm_get (ringing_calls s') c = None \<and> hm_get (active_calls s') c = None \<and>
    (\<forall>y. hm_get (client_active_calls s') y =
       (if hm_get (client_active_calls s) y = Some c then None else hm_get (client_active_calls s) y)) \<and>
    (\<forall>y c'. inc_get (client_incoming_calls s') y c' =
       (if c' = c then None else inc_get (client_incoming_calls s) y c')) \<and>
    actions = Some (map (DropParticipant c)
            (case hm_get (active_calls s) c of
               Some a \<Rightarrow> filter (\<lambda>y. y \<noteq> x) (hm_keys (ace_participants a)) | None \<Rightarrow> []) @
          map CancelRingingTarget
            (case hm_get (ringing_calls s) c of
               Some r \<Rightarrow> complete_all_targets OutcomeCancelled r | None \<Rightarrow> []))"
proof -
  note i = call_reachable_inv [OF assms(1), unfolded call_inv_def]
  have "s' = erase_call c s" using end_call_erases [OF i assms(2)] assms(3) by simp
  with erase_call_gone [OF i] end_call_erase_actions [OF i assms(2)] assms(3) show ?thesis by simp
qed

theorem end_call_for_all_witness:
  "call_reachable 5 (after scenario_pending) \<and>
   ends_for_all alice (hm_get (ringing_calls (after scenario_pending)) call1) (hm_get (active_calls (after scenario_pending)) call1) \<and>
   hm_get (active_calls (fst (end_call call1 alice (after scenario_pending)))) call1 = None"
proof -
  have e: "ends_for_all alice (hm_get (ringing_calls (after scenario_pending)) call1)
      (hm_get (active_calls (after scenario_pending)) call1)" by code_simp
  from end_call_for_all [OF scenario_reachable(4) e prod.collapse [symmetric]] e scenario_reachable(4)
  show ?thesis by blast
qed

text \<open>
  When any other participant of a conference ends the call it only leaves: the remaining
  participants keep their targets and busy markers, pending invitations keep ringing, the leader
  stays unless two participants are left, and the others are told the new composition.
\<close>

theorem end_call_leave:
  assumes "call_reachable n s" and "hm_get (active_calls s) c = Some a"
    and "hm_contains_key x (ace_participants a)" and "ace_conference_leader a = Some l" and "l \<noteq> x"
    and "end_call c x s = (s', actions)"
  shows "\<exists>a'. hm_get (active_calls s') c = Some a' \<and>
    hm_get (ace_participants a') = (hm_get (ace_participants a))(x := None) \<and>
    ace_conference_leader a' = (if length (ace_participants a) = 3 then None else Some l) \<and>
    ringing_calls s' = ringing_calls s \<and> client_incoming_calls s' = client_incoming_calls s \<and>
    hm_get (client_active_calls s') = (hm_get (client_active_calls s))(x := None) \<and>
    (\<exists>u. actions = Some [UpdateParticipants u] \<and> up_joined_participants u = ace_participants a' \<and>
      up_conference_leader u = ace_conference_leader a')"
proof -
  note i = call_reachable_inv [OF assms(1), unfolded call_inv_def]
  note ok = inv_ex_active [OF i assms(2)]
  have x: "x \<in> set (hm_keys (ace_participants a))" using assms(3) by (simp add: hm_contains_key_iff)
  have len: "length (ace_participants a) \<noteq> 2" "2 \<le> length (ace_participants a)"
    "length (hm_remove x (ace_participants a)) = length (ace_participants a) - 1"
    using ok assms(4) x by (auto simp: active_ok_def hm_length_remove hm_get_None_iff)
  have l: "leaves x (Some a)" using x len assms(4,5) by (simp add: leaves_def)
  have B: "hm_get (client_active_calls s) x = Some c" by (rule inv_ex_participant_busy [OF i assms(2) x])
  have lead: "ace_conference_leader (remove_participant x a) = (if length (ace_participants a) = 3 then None else Some l)"
    using len assms(4) by auto
  have "s' = leave_call c x a s" using end_call_leaves(1) [OF i assms(2) l] assms(6) by simp
  moreover have "actions = snd (end_call c x s)" using assms(6) by simp
  ultimately show ?thesis
    using lead B unfolding end_call_leaves(2) [OF i assms(2) l]
    by (intro exI [of _ "remove_participant x a"]) (auto simp: leave_call_def hm_get_clear_busy fun_eq_iff)
qed

theorem end_call_leave_witness:
  "call_reachable 5 (after scenario_pending) \<and>
   (\<exists>a. hm_get (active_calls (fst (end_call call1 carol (after scenario_pending)))) call1 = Some a \<and>
      ace_conference_leader a = None)"
proof -
  have "map_option (\<lambda>a. (hm_contains_key carol (ace_participants a), length (ace_participants a), ace_conference_leader a))
      (hm_get (active_calls (after scenario_pending)) call1) = Some (True, 3, Some alice)" by code_simp
  then obtain a where a: "hm_get (active_calls (after scenario_pending)) call1 = Some a"
    "hm_contains_key carol (ace_participants a)" "ace_conference_leader a = Some alice" "length (ace_participants a) = 3"
    by auto
  have ne: "alice \<noteq> carol" by (simp add: scenario_defs)
  from end_call_leave [OF scenario_reachable(4) a(1-3) ne prod.collapse [symmetric]] a(4) scenario_reachable(4)
  show ?thesis by auto
qed

text \<open>
  Ending a call one takes no part in changes nothing and yields no actions.
\<close>

theorem end_call_stranger_ignored:
  assumes "call_reachable n s" and "hm_get (client_active_calls s) x \<noteq> Some c"
  shows "end_call c x s = (s, None)"
  by (rule end_call_stranger [OF call_reachable_inv [OF assms(1), unfolded call_inv_def] assms(2)])

theorem end_call_stranger_ignored_witness:
  "end_call call1 dave (after scenario_pending) = (after scenario_pending, None)"
proof -
  have "hm_get (client_active_calls (after scenario_pending)) dave \<noteq> Some call1" by code_simp
  then show ?thesis by (rule end_call_stranger_ignored [OF scenario_reachable(4)])
qed

section \<open>Accepting\<close>

lemma notified_of_target:
  assumes ring: "ring_ok c r" and e: "hm_get (rc_targets r) t = Some e"
  shows "set (rte_notified_clients e) = {y. invited_as (Some r) y = Some t}"
proof -
  have ok: "hm_ok (rc_targets r)" using ring by (simp add: ring_ok_def targets_ok_def)
  have "(t, e') \<in> set (rc_targets r) \<longleftrightarrow> e' = e" for e'
    using hm_get_iff [OF ok, of t e'] e by auto
  then show ?thesis unfolding invited_as_Some [OF ring] by auto
qed

text \<open>
  A rung client that is not busy joins by accepting. It joins under the target it was rung for;
  the caller is a participant too and leads the call as soon as it has three; every client rung
  under the same target stops ringing, and all others keep ringing.
\<close>

theorem accept_call_joins:
  assumes "call_reachable n s" and free: "hm_get (client_active_calls s) x = None"
    and rung: "inc_get (client_incoming_calls s) x c = Some t"
    and acc: "accept_call now c x s = (s', outcome)"
  shows "\<exists>r a' rt u. hm_get (ringing_calls s) c = Some r \<and> hm_get (active_calls s') c = Some a' \<and>
    hm_get (ace_participants a') x = Some t \<and> hm_contains_key (rc_caller_id r) (ace_participants a') \<and>
    ace_conference_leader a' = (if hm_get (active_calls s) c = None then None else Some (rc_caller_id r)) \<and>
    (\<forall>y c'. inc_get (client_incoming_calls s') y c' =
      (if c' = c \<and> inc_get (client_incoming_calls s) y c = Some t then None
       else inc_get (client_incoming_calls s) y c')) \<and>
    hm_get (client_active_calls s') = (hm_get (client_active_calls s))(x \<mapsto> c) \<and>
    outcome = AC_Accepted rt u \<and> rt_target rt = t \<and>
    set (rt_notified_clients rt) = {y. inc_get (client_incoming_calls s) y c = Some t} \<and>
    up_joined_participants u = ace_participants a'"
proof -
  note i = call_reachable_inv [OF assms(1), unfolded call_inv_def]
  have inc: "inc_get (client_incoming_calls s) y c' = invited_as (hm_get (ringing_calls s) c') y" for y c'
    by (simp add: inv_exD(6) [OF i])
  with rung obtain r where r: "hm_get (ringing_calls s) c = Some r" and t: "invited_as (Some r) x = Some t"
    by (cases "hm_get (ringing_calls s) c") (auto simp: invited_as_None)
  note ring = inv_ex_ring [OF i r]
  obtain e where e: "hm_get (rc_targets r) t = Some e" "entry_ok (rc_caller_id r) e" "x \<in> set (rte_notified_clients e)"
    using t ring by (rule invited_asE)
  let ?A = "hm_get (active_calls s) c" and ?rt = "accepted_target c (rc_caller_id r) t e"
  let ?a = "accepted_active now c x ?rt ?A"
  have ne: "x \<noteq> rc_caller_id r" using e by (auto simp: entry_ok_def)
  have new: "x \<notin> set (hm_keys (ace_participants a))" if "?A = Some a" for a
    using inv_ex_participant_busy [OF i that, of x] free by auto
  have call: "call_ok c (Some r) ?A" using inv_exD(5) [OF i, of c] r by simp
  note a' = accepted_active_ok [OF call e(2) ne new, of now t]
  have src: "cs_client_id (rte_source e) = rc_caller_id r" using e by (simp add: entry_ok_def)
  have lead: "ace_conference_leader ?a = (if ?A = None then None else Some (rc_caller_id r))"
    using inv_ex_pair [OF i r] ne src
    by (auto simp: accepted_active_def pair_ok_def open_active_call_ok split: option.splits)
  have part: "hm_get (ace_participants ?a) x = Some t"
    using ne by (simp add: accepted_active_def open_active_call_ok split: option.splits)
  define a where "a = ?a"
  note eq = accept_call_accepted [OF free r ring t e(1), of now, unfolded acc Let_def prod.inject, folded a_def]
  obtain u where u: "outcome = AC_Accepted ?rt u" "up_joined_participants u = ace_participants a"
    using eq [THEN conjunct2] by simp
  have caller: "hm_contains_key (rc_caller_id r) (ace_participants a)"
    using a' by (simp add: a_def hm_contains_key_iff)
  have I: "inc_get (client_incoming_calls s') y c' =
      (if c' = c \<and> inc_get (client_incoming_calls s) y c = Some t then None
       else inc_get (client_incoming_calls s) y c')" for y c'
    unfolding eq [THEN conjunct1] using notified_of_target [OF ring e(1)] r by (auto simp: inc inc_get_fold_remove)
  have notif: "set (rt_notified_clients ?rt) = {y. inc_get (client_incoming_calls s) y c = Some t}"
    using notified_of_target [OF ring e(1)] r by (simp add: inc)
  have maps: "hm_get (active_calls s') c = Some a" "hm_get (client_active_calls s') = (hm_get (client_active_calls s))(x \<mapsto> c)"
    unfolding eq [THEN conjunct1] by simp_all
  show ?thesis
    by (intro exI [of _ r] exI [of _ a] exI [of _ ?rt] exI [of _ u] conjI allI r maps caller I notif u)
      (simp_all add: lead part a_def)
qed

theorem accept_call_joins_witness:
  "call_reachable 5 (after scenario_ringing) \<and>
   (\<exists>a. hm_get (active_calls (fst (accept_call 9 call1 dave (after scenario_ringing)))) call1 = Some a \<and>
      hm_get (ace_participants a) dave = Some (Station (StationId ''T'')))"
proof -
  have h: "hm_get (client_active_calls (after scenario_ringing)) dave = None"
    "inc_get (client_incoming_calls (after scenario_ringing)) dave call1 = Some (Station (StationId ''T''))"
    by code_simp+
  from accept_call_joins [OF scenario_reachable(1) h prod.collapse [symmetric], of 9] scenario_reachable(1)
  show ?thesis by blast
qed

lemma accept_call_succeeds:
  assumes i: "inv_ex {} s" and free: "hm_get (client_active_calls s) x = None"
    and rung: "inc_get (client_incoming_calls s) x c = Some t"
  shows "(\<exists>rt u. snd (accept_call now c x s) = AC_Accepted rt u) \<and>
    hm_get (client_active_calls (fst (accept_call now c x s))) x = Some c"
proof -
  from rung obtain r where r: "hm_get (ringing_calls s) c = Some r" and t: "invited_as (Some r) x = Some t"
    by (cases "hm_get (ringing_calls s) c") (auto simp: invited_as_None inv_exD(6) [OF i])
  note ring = inv_ex_ring [OF i r]
  obtain e where e: "hm_get (rc_targets r) t = Some e" using t ring by (rule invited_asE)
  show ?thesis unfolding accept_call_accepted [OF free r ring t e] Let_def by simp
qed

text \<open>
  Accepting is refused, without any effect, exactly when the client is busy or is not rung for
  the call; a busy client is told so.
\<close>

theorem accept_call_refusals:
  assumes "call_reachable n s"
  shows "(snd (accept_call now c x s) = AC_AcceptorBusy \<longleftrightarrow> hm_get (client_active_calls s) x \<noteq> None) \<and>
    (snd (accept_call now c x s) = AC_NotFound \<longleftrightarrow>
      hm_get (client_active_calls s) x = None \<and> inc_get (client_incoming_calls s) x c = None) \<and>
    (\<forall>rt u. snd (accept_call now c x s) \<noteq> AC_Accepted rt u) = (fst (accept_call now c x s) = s)"
proof -
  note i = call_reachable_inv [OF assms, unfolded call_inv_def]
  show ?thesis
  proof (cases "hm_get (client_active_calls s) x \<noteq> None \<or> inc_get (client_incoming_calls s) x c = None")
    case True
    then have ref: "hm_get (client_active_calls s) x \<noteq> None \<or> invited_as (hm_get (ringing_calls s) c) x = None"
      by (simp add: inv_exD(6) [OF i])
    have "accept_call now c x s =
        (s, if hm_get (client_active_calls s) x \<noteq> None then AC_AcceptorBusy else AC_NotFound)"
      by (rule accept_call_refused [OF ref inv_ex_ring [OF i]])
    with True show ?thesis by auto
  next
    case False
    then obtain t where h: "hm_get (client_active_calls s) x = None" "inc_get (client_incoming_calls s) x c = Some t" by auto
    from accept_call_succeeds [OF i h] h show ?thesis by (metis accept_call_outcome.distinct option.distinct(1))
  qed
qed

theorem accept_call_refusals_witness:
  "snd (accept_call 9 call1 bob (after scenario_pair)) = AC_AcceptorBusy"
proof -
  have "hm_get (client_active_calls (after scenario_pair)) bob \<noteq> None" by code_simp
  with accept_call_refusals [OF scenario_reachable(2), of 9 call1 bob] show ?thesis by blast
qed

section \<open>Rejecting and failing\<close>

context failure_mark
begin

lemma mark_targets_term:
  assumes "\<forall>(t, e) \<in> set ts. entry_ok k e" and "mark_targets mark_fn oc c k x ts = (kept, marked, term)"
  shows "map rt_target term = map fst (filter (\<lambda>(t, e). set (rte_notified_clients e) = {x}) ts)"
  using assms
proof (induction ts arbitrary: kept marked "term")
  case (Cons p ts)
  obtain t e where p: "p = (t, e)" by (cases p)
  obtain kept' marked' term' where rec: "mark_targets mark_fn oc c k x ts = (kept', marked', term')"
    by (metis prod_cases3)
  have e: "entry_ok k e" using Cons.prems(1) p by simp
  have IH: "map rt_target term' = map fst (filter (\<lambda>(t, e). set (rte_notified_clients e) = {x}) ts)"
    using Cons.IH [OF _ rec] Cons.prems(1) by simp
  have last: "x \<in> set (rte_notified_clients e) \<and> hs_remove x (rte_notified_clients e) = [] \<longleftrightarrow> set (rte_notified_clients e) = {x}"
    using e by (auto simp: hs_remove_eq_Nil entry_ok_def)
  show ?case
  proof (cases "set (rte_notified_clients e) = {x}")
    case True
    with Cons.prems(2) IH last show ?thesis
      by (auto simp: p rec mark_targets_Cons [OF e] complete_def set_outcome_def)
  next
    case False
    with Cons.prems(2) IH last show ?thesis
      by (cases "x \<in> set (rte_notified_clients e)") (auto simp: p rec mark_targets_Cons [OF e])
  qed
qed simp

lemma mark_client_outcome:
  assumes "hm_get (ringing_calls s) c = Some r" "rc_caller_id r \<noteq> x"
    and "mark_targets mark_fn oc c (rc_caller_id r) x (rc_targets r) = (kept, True, term)"
  shows "snd (mark_client_within_ringing_calls mark_fn oc c x s) =
    (if term = [] then CT_Continued
     else CT_TargetFailed term
       \<lparr>up_call_id = c, up_invited_participants = invited_participants (r\<lparr>rc_targets := kept\<rparr>),
        up_joined_participants = fst (active_call_snapshot c s),
        up_conference_leader = snd (active_call_snapshot c s)\<rparr>)"
  using assms
  by (auto simp: mark_client_within_ringing_calls_def remove_client_incoming_call_def Let_def split: prod.splits)

lemma remove_client_incoming_absent:
  assumes "inc_ok (client_incoming_calls s)" "inc_get (client_incoming_calls s) x c = None"
  shows "remove_client_incoming_call c x s = s"
proof -
  have "remove_incoming c x (client_incoming_calls s) = client_incoming_calls s"
    using assms inc_okD [OF assms(1), of x]
    by (auto simp: remove_incoming_def inc_get_def hm_remove_absent hm_insert_same Let_def split: option.splits)
  then show ?thesis by (simp add: remove_client_incoming_call_def)
qed

lemma mark_client_not_rung:
  assumes i: "inv_ex {} s" and none: "inc_get (client_incoming_calls s) x c = None"
  shows "mark_client_within_ringing_calls mark_fn oc c x s =
    (s, if hm_get (ringing_calls s) c = None then CT_CallNotFound else CT_ClientNotNotified)"
proof (cases "hm_get (ringing_calls s) c")
  case None
  with remove_client_incoming_absent [OF inv_exD(3) [OF i] none] show ?thesis
    by (simp add: mark_client_within_ringing_calls_def)
next
  case (Some r)
  note ring = inv_ex_ring [OF i Some]
  obtain kept marked "term" where m: "mark_targets mark_fn oc c (rc_caller_id r) x (rc_targets r) = (kept, marked, term)"
    by (metis prod_cases3)
  have entries: "\<forall>(t, e) \<in> set (rc_targets r). entry_ok (rc_caller_id r) e"
    using ring by (simp add: ring_ok_def targets_ok_def)
  have "x \<notin> set (all_notified r)"
    using none Some invited_as_eq_None [OF ring, of x] by (simp add: inv_exD(6) [OF i])
  with mark_targets_spec [OF entries m]
  have m': "mark_targets mark_fn oc c (rc_caller_id r) x (rc_targets r) = (rc_targets r, False, term)"
    using m by (auto simp: all_notified_def)
  have "mark_client_within_ringing_calls mark_fn oc c x s = (remove_client_incoming_call c x s, CT_ClientNotNotified)"
    using m' by (intro mark_client_unmarked [OF Some]) blast
  with remove_client_incoming_absent [OF inv_exD(3) [OF i] none] Some show ?thesis by simp
qed

text \<open>What marking a rung client does, seen through the indexes.\<close>

lemma mark_client_rung:
  assumes i: "inv_ex {} s" and rung: "inc_get (client_incoming_calls s) x c = Some t"
    and res: "mark_client_within_ringing_calls mark_fn oc c x s = (s', outcome)"
  shows "(\<forall>y c'. inc_get (client_incoming_calls s') y c' =
      (if y = x \<and> c' = c then None else inc_get (client_incoming_calls s) y c')) \<and>
    active_calls s' = active_calls s \<and>
    (if \<forall>y. inc_get (client_incoming_calls s) y c = Some t \<longrightarrow> y = x
     then \<exists>ts u. outcome = CT_TargetFailed ts u \<and> map rt_target ts = [t]
     else outcome = CT_Continued)"
proof -
  have inc: "inc_get (client_incoming_calls s) y c' = invited_as (hm_get (ringing_calls s) c') y" for y c'
    by (simp add: inv_exD(6) [OF i])
  with rung obtain r where r: "hm_get (ringing_calls s) c = Some r" and t: "invited_as (Some r) x = Some t"
    by (cases "hm_get (ringing_calls s) c") (auto simp: invited_as_None)
  note ring = inv_ex_ring [OF i r]
  obtain e where e: "hm_get (rc_targets r) t = Some e" "(t, e) \<in> set (rc_targets r)" "x \<in> set (rte_notified_clients e)"
      "entry_ok (rc_caller_id r) e"
    using t ring by (rule invited_asE)
  have ne: "rc_caller_id r \<noteq> x" using e by (auto simp: entry_ok_def)
  obtain kept marked "term" where m: "mark_targets mark_fn oc c (rc_caller_id r) x (rc_targets r) = (kept, marked, term)"
    by (metis prod_cases3)
  have entries: "\<forall>(t, e) \<in> set (rc_targets r). entry_ok (rc_caller_id r) e"
    using ring by (simp add: ring_ok_def targets_ok_def)
  have "x \<in> set (all_notified r)" using e by (auto simp: mem_all_notified)
  with mark_targets_spec [OF entries m] m
  have m': "mark_targets mark_fn oc c (rc_caller_id r) x (rc_targets r) = (kept, True, term)"
    by (simp add: all_notified_def)
  have okt: "targets_ok (rc_caller_id r) (rc_targets r)" by (rule ring_ok_targets [OF ring])
  have only: "set (rte_notified_clients f) = {x} \<longleftrightarrow> u = t \<and> set (rte_notified_clients e) = {x}"
    if "(u, f) \<in> set (rc_targets r)" for u f
  proof -
    have "hm_ok (rc_targets r)" using okt by (simp add: targets_ok_def)
    then have "u = t \<Longrightarrow> f = e" using that e(1) by (simp add: hm_get_iff [symmetric])
    moreover have "x \<in> set (rte_notified_clients f) \<Longrightarrow> u = t"
      using targets_ok_notified_unique [OF okt that e(2)] e(3) by blast
    ultimately show ?thesis by auto
  qed
  have "filter (\<lambda>(u, f). set (rte_notified_clients f) = {x}) (rc_targets r) =
      filter (\<lambda>(u, f). u = t \<and> set (rte_notified_clients e) = {x}) (rc_targets r)"
    using only by (intro filter_cong) auto
  moreover have "filter (\<lambda>(u, f). u = t) (rc_targets r) = [(t, e)]"
  proof -
    obtain us vs where sp: "rc_targets r = us @ (t, e) # vs" "t \<notin> set (hm_keys us)" using e(1) by (rule hm_split)
    moreover have "t \<notin> set (hm_keys vs)" using okt by (auto simp: targets_ok_def sp(1) hm_ok_def hm_keys_def)
    moreover have "filter (\<lambda>(u, f). u = t) ws = []" if "t \<notin> set (hm_keys ws)" for ws :: "(call_target, ringing_target_entry) hash_map"
      using that by (induction ws) auto
    ultimately show ?thesis by simp
  qed
  ultimately have "term": "map rt_target term = (if set (rte_notified_clients e) = {x} then [t] else [])"
    using mark_targets_term [OF entries m] by simp
  have last: "set (rte_notified_clients e) = {x} \<longleftrightarrow> (\<forall>y. inc_get (client_incoming_calls s) y c = Some t \<longrightarrow> y = x)"
    using notified_of_target [OF ring e(1)] e(3) r by (auto simp: inc)
  have s': "s' = fst (mark_client_within_ringing_calls mark_fn oc c x s)" and
    oc: "outcome = snd (mark_client_within_ringing_calls mark_fn oc c x s)" using res by simp_all
  show ?thesis
    using "term" unfolding last [symmetric] s' oc mark_client_marked [OF r ne m'] mark_client_outcome [OF r ne m']
    by (cases "set (rte_notified_clients e) = {x}") (auto simp: inc_get_remove_incoming)
qed

end

text \<open>
  Rejecting removes the client from the ringing of that one call and from nothing else. The
  target ends exactly when its last rung client rejects; until then the call continues. A client
  that is not rung changes nothing.
\<close>

theorem reject_call_behaviour:
  assumes "call_reachable n s" and "reject_call c x s = (s', outcome)"
  shows "(\<forall>y c'. inc_get (client_incoming_calls s') y c' =
      (if y = x \<and> c' = c then None else inc_get (client_incoming_calls s) y c')) \<and>
    active_calls s' = active_calls s \<and>
    (case inc_get (client_incoming_calls s) x c of
       Some t \<Rightarrow>
         if \<forall>y. inc_get (client_incoming_calls s) y c = Some t \<longrightarrow> y = x
         then \<exists>ts u. outcome = CT_TargetFailed ts u \<and> map rt_target ts = [t]
         else outcome = CT_Continued
     | None \<Rightarrow> s' = s \<and> outcome = (if hm_get (ringing_calls s) c = None then CT_CallNotFound else CT_ClientNotNotified))"
proof -
  note i = call_reachable_inv [OF assms(1), unfolded call_inv_def]
  note res = assms(2) [unfolded reject_call_def]
  show ?thesis
  proof (cases "inc_get (client_incoming_calls s) x c")
    case None
    with rejected.mark_client_not_rung [OF i None, of OutcomeRejected] res show ?thesis by auto
  next
    case (Some t)
    with rejected.mark_client_rung [OF i Some res] show ?thesis unfolding Some option.case by blast
  qed
qed

theorem reject_call_behaviour_witness:
  "call_reachable 5 (after scenario_ringing) \<and>
   snd (reject_call call1 bob (after scenario_ringing)) = CT_Continued"
proof -
  have h: "inc_get (client_incoming_calls (after scenario_ringing)) bob call1 = Some (Station (StationId ''T''))"
    "inc_get (client_incoming_calls (after scenario_ringing)) dave call1 = Some (Station (StationId ''T''))"
    by code_simp+
  have "dave \<noteq> bob" by (simp add: scenario_defs)
  with h(2) have "\<not> (\<forall>y. inc_get (client_incoming_calls (after scenario_ringing)) y call1 = Some (Station (StationId ''T'')) \<longrightarrow> y = bob)"
    by blast
  with reject_call_behaviour [OF scenario_reachable(1) prod.collapse [symmetric], of call1 bob, unfolded h(1) option.case]
    scenario_reachable(1)
  show ?thesis by presburger
qed

section \<open>Inviting\<close>

text \<open>
  An invitation is refused without any effect. The caller is busy with another call, or it is
  free but the call already exists, or it is in the call but does not lead it, or the target or one
  of the clients to notify already takes part in the call; in all other cases it rings.
\<close>

theorem attempt_call_refusals:
  assumes "call_reachable n s" and "attempt_call c k src t notified_clients s = (s', res)"
  shows "(res = Inl ST_CallerBusy \<longleftrightarrow> (\<exists>c'. hm_get (client_active_calls s) k = Some c' \<and> c' \<noteq> c)) \<and>
    (res = Inl ST_NotParticipant \<longleftrightarrow>
      hm_get (client_active_calls s) k = None \<and> (hm_contains_key c (ringing_calls s) \<or> hm_contains_key c (active_calls s))) \<and>
    (res = Inl ST_NotConferenceLeader \<longrightarrow>
      (\<exists>a. hm_get (active_calls s) c = Some a \<and> hm_contains_key k (ace_participants a) \<and> ace_conference_leader a \<noteq> Some k) \<and>
      hm_get (client_active_calls s) k = Some c) \<and>
    (\<forall>err. res = Inl err \<longrightarrow> s' = s)"
proof -
  note i = call_reachable_inv [OF assms(1), unfolded call_inv_def]
  have v: "res = Inl err \<longleftrightarrow> validate_call_attempt c k t notified_clients s = Inl err" for err
    using assms(2) by (auto simp: attempt_call_def Let_def split: sum.splits option.splits prod.splits)
  have same: "s' = s" if "res = Inl err" for err
    using assms(2) that attempt_call_error [of c k t notified_clients s err src] v [of err] by simp
  have 1: "res = Inl ST_CallerBusy \<longleftrightarrow> (\<exists>c'. hm_get (client_active_calls s) k = Some c' \<and> c' \<noteq> c)"
    unfolding v by (auto simp: validate_call_attempt_def Let_def split: option.splits if_splits)
  have 2: "res = Inl ST_NotParticipant \<longleftrightarrow>
      hm_get (client_active_calls s) k = None \<and> (hm_contains_key c (ringing_calls s) \<or> hm_contains_key c (active_calls s))"
    unfolding v by (auto simp: validate_call_attempt_def Let_def split: option.splits if_splits)
  have 3: "(\<exists>a. hm_get (active_calls s) c = Some a \<and> hm_contains_key k (ace_participants a) \<and> ace_conference_leader a \<noteq> Some k) \<and>
      hm_get (client_active_calls s) k = Some c" if "res = Inl ST_NotConferenceLeader"
  proof -
    from that have B: "hm_get (client_active_calls s) k = Some c"
      unfolding v by (auto simp: validate_call_attempt_def Let_def split: option.splits if_splits)
    then have busy: "busy_in (hm_get (ringing_calls s) c) (hm_get (active_calls s) c) k" unfolding inv_exD(7) [OF i] .
    from that B consider l a where "hm_get (active_calls s) c = Some a" "ace_conference_leader a = Some l" "l \<noteq> k"
      | r where "hm_get (ringing_calls s) c = Some r" "rc_caller_id r \<noteq> k"
      unfolding v by (auto simp: validate_call_attempt_def Let_def split: option.splits if_splits)
    then show ?thesis
    proof cases
      case (1 l a)
      have "k \<in> set (hm_keys (ace_participants a))"
        using busy 1(1) inv_ex_pair [OF i _ 1(1)] by (auto simp: busy_in_def pair_ok_def split: option.splits)
      with 1 B show ?thesis by (auto simp: hm_contains_key_iff)
    next
      case (2 r)
      with busy obtain a where a: "hm_get (active_calls s) c = Some a" "k \<in> set (hm_keys (ace_participants a))"
        by (auto simp: busy_in_def split: option.splits)
      with inv_ex_pair [OF i 2(1) a(1)] 2 B show ?thesis by (auto simp: pair_ok_def hm_contains_key_iff)
    qed
  qed
  show ?thesis using 1 2 3 same by blast
qed

theorem attempt_call_refusals_witness:
  "call_reachable 5 (after scenario_pair) \<and>
   snd (attempt_call (CallId 2) bob alice_source (Client dave) [dave] (after scenario_pair)) = Inl ST_CallerBusy"
proof -
  have "hm_get (client_active_calls (after scenario_pair)) bob = Some call1" "call1 \<noteq> CallId 2" by code_simp+
  with attempt_call_refusals [OF scenario_reachable(2) prod.collapse [symmetric], of "CallId 2" bob]
    scenario_reachable(2)
  show ?thesis by blast
qed

text \<open>
  An accepted invitation rings exactly the given clients under the given target, makes the
  caller busy with the call and leaves everything else alone.
\<close>

theorem attempt_call_rings:
  assumes "call_reachable n s" and "invite_contract k src ns" and "attempt_call c k src t ns s = (s', Inr (ringing, joined))"
  shows "(\<forall>y c'. inc_get (client_incoming_calls s') y c' =
      (if c' = c \<and> y \<in> set ns then Some t else inc_get (client_incoming_calls s) y c')) \<and>
    hm_get (client_active_calls s') = (hm_get (client_active_calls s))(k \<mapsto> c) \<and>
    active_calls s' = active_calls s \<and>
    (\<exists>r. hm_get (ringing_calls s') c = Some r \<and> rc_caller_id r = k) \<and>
    (\<forall>y. hm_get ringing y = inc_get (client_incoming_calls s') y c)"
proof -
  note i = call_reachable_inv [OF assms(1), unfolded call_inv_def]
  obtain u where v: "validate_call_attempt c k t ns s = Inr u"
    using assms(3) attempt_call_error [of c k t ns s] by (cases "validate_call_attempt c k t ns s") auto
  let ?r = "invite_ringing c k src t ns (hm_get (ringing_calls s) c)"
  have s': "s' = fst (attempt_call c k src t ns s)" using assms(3) by simp
  have inv': "inv_ex {} s'"
    using attempt_call_inv [OF call_reachable_inv [OF assms(1)] assms(2), of c t] s' by (simp add: call_inv_def)
  have R': "hm_get (ringing_calls s') c = Some ?r" unfolding s' attempt_call_OK [OF v] by simp
  have caller: "rc_caller_id ?r = k"
    using validate_call_attempt_OK [OF v]
    by (auto simp: invite_ringing_def ringing_call_entry_new_def add_target_def split: option.splits)
  have ringing: "hm_get ringing y = hm_get (invited_participants ?r) y" for y
    using assms(3) v
    by (auto simp: attempt_call_def invite_ringing_def Let_def invited_participants_def ringing_call_entry_new_def
        ringing_target_entry_new_def split: option.splits)
  have "hm_get ringing y = inc_get (client_incoming_calls s') y c" for y
    using inv_exD(6) [OF inv', of y c] by (simp add: R' invited_as_def ringing)
  with R' caller show ?thesis
    unfolding s' attempt_call_OK [OF v] by (auto simp: inc_get_fold_insert)
qed

theorem attempt_call_rings_witness:
  "call_reachable 5 (after scenario_pair) \<and>
   inc_get (client_incoming_calls (fst (attempt_call call1 alice alice_source (Client dave) [dave] (after scenario_pair)))) dave call1
     = Some (Client dave)"
proof -
  have con: "invite_contract alice alice_source [dave]" by (simp add: invite_contract_def scenario_defs)
  have "\<not> isl (snd (attempt_call call1 alice alice_source (Client dave) [dave] (after scenario_pair)))" by code_simp
  then obtain s' q j where "attempt_call call1 alice alice_source (Client dave) [dave] (after scenario_pair) = (s', Inr (q, j))"
    by (cases "attempt_call call1 alice alice_source (Client dave) [dave] (after scenario_pair)")
      (auto simp: isl_def split: sum.splits, metis isl_def old.sum.exhaust surj_pair)
  with attempt_call_rings [OF scenario_reachable(2) con] scenario_reachable(2) show ?thesis by fastforce
qed

section \<open>Dropping\<close>

text \<open>
  Only the leader of a conference removes a joined participant, never itself and never below
  two participants, and only the client that invited a target cancels its ringing; every other
  request leaves the state unchanged.
\<close>

theorem drop_target_permission:
  assumes "call_reachable n s" and "fst (drop_target c d t reason s) \<noteq> s"
  shows "(\<exists>r e. hm_get (ringing_calls s) c = Some r \<and> hm_get (rc_targets r) t = Some e \<and>
       rc_caller_id r = d \<and> cs_client_id (rte_source e) = d) \<or>
    (\<exists>a x. hm_get (active_calls s) c = Some a \<and> (x, t) \<in> set (ace_participants a) \<and> x \<noteq> d \<and>
       ace_conference_leader a = Some d \<and> 3 \<le> length (ace_participants a) \<and> reason = Requested)"
proof -
  note i = call_reachable_inv [OF assms(1), unfolded call_inv_def]
  show ?thesis
  proof (cases "\<exists>r e. hm_get (ringing_calls s) c = Some r \<and> hm_get (rc_targets r) t = Some e")
    case True
    then obtain r e where re: "hm_get (ringing_calls s) c = Some r" "hm_get (rc_targets r) t = Some e" by blast
    have "cs_client_id (rte_source e) = d"
      using assms(2) re by (auto simp: drop_target_def drop_ringing_target_def split: if_splits)
    moreover have "(t, e) \<in> set (rc_targets r)" using re(2) by (rule hm_get_SomeD)
    with inv_ex_ring [OF i re(1)] have "cs_client_id (rte_source e) = rc_caller_id r"
      by (auto simp: ring_ok_def targets_ok_def entry_ok_def)
    ultimately show ?thesis using re by auto
  next
    case False
    then have "drop_ringing_target c d t reason s = (s, None)"
      by (auto simp: drop_ringing_target_def split: option.splits)
    then have "fst (drop_joined_participant c d t reason s) \<noteq> s" using assms(2) by (simp add: drop_target_def)
    with drop_joined_participant_cases [of c d t reason s] show ?thesis by blast
  qed
qed

theorem drop_target_permission_witness:
  "call_reachable 5 (after scenario_conference) \<and>
   (\<exists>a. hm_get (active_calls (after scenario_conference)) call1 = Some a \<and> ace_conference_leader a = Some alice)"
proof -
  have ne: "fst (drop_target call1 alice (Client carol) Requested (after scenario_conference)) \<noteq> after scenario_conference"
  proof -
    have "hm_get (client_active_calls (fst (drop_target call1 alice (Client carol) Requested (after scenario_conference)))) carol = None"
      "hm_get (client_active_calls (after scenario_conference)) carol \<noteq> None" by code_simp+
    then show ?thesis by metis
  qed
  have "hm_get (ringing_calls (after scenario_conference)) call1 = None" by code_simp
  with drop_target_permission [OF scenario_reachable(3) ne] scenario_reachable(3) show ?thesis by auto
qed

text \<open>
  An automatic hangup never removes a joined participant.
\<close>

theorem auto_hangup_keeps_participants:
  "active_calls (fst (drop_target c d t DropAutoHangup s)) = active_calls s"
proof -
  have "active_calls (fst (drop_ringing_target c d t DropAutoHangup s)) = active_calls s"
    by (auto simp: drop_ringing_target_def fold_remove_client_incoming_call Let_def split: option.splits prod.splits)
  moreover have "fst (drop_joined_participant c d t DropAutoHangup s') = s'" for s'
    using drop_joined_participant_cases [of c d t DropAutoHangup s'] by auto
  ultimately show ?thesis by (auto simp: drop_target_def split: prod.splits option.splits)
qed


section \<open>Dead links\<close>

lemma report_link_failure_valid:
  assumes "hm_get (active_calls s) c = Some a" "x \<noteq> y" "hm_contains_key x (ace_participants a)" "hm_contains_key y (ace_participants a)"
  shows "report_link_failure now c x y s =
    (let a' = fst (record_link_report_at x y now a);
         s' = s\<lparr>active_calls := hm_insert c a' (active_calls s)\<rparr>
     in if snd (record_link_report_at x y now a)
        then let evicted = later_joiner a' x y in
          (case end_call c evicted s' of
             (s'', Some actions) \<Rightarrow> (s'', LR_Evicted evicted (if evicted = x then y else x) actions)
           | (s'', None) \<Rightarrow> (s'', LR_Recorded))
        else (s', LR_Recorded))"
  using assms by (auto simp: report_link_failure_def Let_def split: prod.splits)

lemma end_call_busy_Some:
  assumes inv: "inv_ex E s" and B: "hm_get (client_active_calls s) x = Some c"
  shows "snd (end_call c x s) \<noteq> None"
  using cleanup_own_call_is_end_call(2) [OF inv B] by auto

lemma record_link_report_confirmed:
  "snd (record_link_report_at x y now a) \<longleftrightarrow>
    x = y \<or>
    (\<exists>rep. hm_get (ace_link_reports a) (link_key x y) = Some rep \<and>
       now - lr_refreshed_at rep < LINK_REPORT_TTL \<and> y \<in> set (lr_reporters rep))"
  by (auto simp: record_link_report_at_def Let_def split: option.splits)

lemma later_joiner_mem: "later_joiner a x y \<in> {x, y}"
  by (simp add: later_joiner_def Let_def)

text \<open>
  C27: a participant is evicted for a dead link only when both ends of the link are participants and
  the other end had reported the same link less than the time to live before; the one that joined
  later goes, and it is in no call afterwards.
\<close>

theorem link_eviction_two_sided:
  assumes "call_reachable n s" and "report_link_failure now c x y s = (s', LR_Evicted evicted unreachable actions)"
  shows "\<exists>a rep. hm_get (active_calls s) c = Some a \<and> x \<noteq> y \<and>
    hm_contains_key x (ace_participants a) \<and> hm_contains_key y (ace_participants a) \<and>
    hm_get (ace_link_reports a) (link_key x y) = Some rep \<and> y \<in> set (lr_reporters rep) \<and>
    now - lr_refreshed_at rep < LINK_REPORT_TTL \<and> {evicted, unreachable} = {x, y} \<and>
    the (hm_get (ace_join_order a) unreachable) < the (hm_get (ace_join_order a) evicted) \<and>
    hm_get (client_active_calls s') evicted = None"
proof -
  note i = call_reachable_inv [OF assms(1), unfolded call_inv_def]
  from assms(2) obtain a where a: "hm_get (active_calls s) c = Some a" "x \<noteq> y"
    "hm_contains_key x (ace_participants a)" "hm_contains_key y (ace_participants a)"
    by (auto simp: report_link_failure_def split: if_splits option.splits)
  have mem: "x \<in> set (hm_keys (ace_participants a))" "y \<in> set (hm_keys (ace_participants a))"
    using a by (simp_all add: hm_contains_key_iff)
  let ?a = "fst (record_link_report_at x y now a)"
  let ?s = "s\<lparr>active_calls := hm_insert c ?a (active_calls s)\<rparr>"
  note eq = assms(2) [unfolded report_link_failure_valid [OF a] Let_def]
  have conf: "snd (record_link_report_at x y now a)" using eq by (auto split: if_splits)
  have ev: "evicted = later_joiner ?a x y" "unreachable = (if evicted = x then y else x)"
    "s' = fst (end_call c evicted ?s)"
    using eq conf by (auto split: prod.splits option.splits)
  have inv: "inv_ex {} ?s" by (rule record_report_inv [OF i a(1,2) mem])
  have "hm_get (client_active_calls ?s) evicted = Some c"
    using inv_ex_participant_busy [OF i a(1)] mem later_joiner_mem [of ?a x y] ev(1) by auto
  then have free: "hm_get (client_active_calls s') evicted = None"
    unfolding ev(3) by (rule end_call_frees [OF inv])
  have ok: "join_ok a" using inv_ex_active [OF i a(1)] by (simp add: active_ok_def)
  then obtain p q where pq: "hm_get (ace_join_order a) x = Some p" "hm_get (ace_join_order a) y = Some q"
    using mem unfolding join_ok_def set_hm_keys by blast
  have "p \<noteq> q"
  proof
    assume "p = q"
    moreover have "(x, p) \<in> set (ace_join_order a)" "(y, q) \<in> set (ace_join_order a)"
      using pq by (simp_all add: hm_get_SomeD)
    moreover have "inj_on snd (set (ace_join_order a))"
      using ok by (simp add: join_ok_def hm_values_def distinct_map)
    ultimately show False using a(2) inj_onD [of snd "set (ace_join_order a)" "(x, p)" "(y, q)"] by simp
  qed
  with pq ev a(2) have "the (hm_get (ace_join_order a) unreachable) < the (hm_get (ace_join_order a) evicted)"
    by (auto simp: later_joiner_def Let_def)
  moreover have "{evicted, unreachable} = {x, y}" using ev later_joiner_mem [of ?a x y] by auto
  ultimately show ?thesis using a free conf unfolding record_link_report_confirmed by auto
qed


definition both_reported :: "call_op list" where
  "both_reported = scenario_pair @ [ReportLinkFailure 10 call1 alice bob]"

lemma after_append: "after (xs @ ys) = run exec_op ys (after xs)"
  by (simp add: after_def)

lemma both_reported_reachable: "call_reachable 5 (after both_reported)"
proof -
  have "list_all op_contract both_reported" using scenario_contracts by (simp add: both_reported_def)
  then show ?thesis by (simp add: after_def call_reachable_run call_reachable_init)
qed

theorem link_eviction_two_sided_witness:
  "call_reachable 5 (after both_reported) \<and>
   hm_get (client_active_calls (fst (report_link_failure 20 call1 bob alice (after both_reported)))) bob = None"
proof -
  obtain s' oc where r: "report_link_failure 20 call1 bob alice (after both_reported) = (s', oc)" by (meson surj_pair)
  have "(case snd (report_link_failure 20 call1 bob alice (after both_reported)) of
      LR_Evicted e u acts \<Rightarrow> e = bob | _ \<Rightarrow> False)" by code_simp
  then obtain u acts where "oc = LR_Evicted bob u acts"
    unfolding r by (auto split: link_report_outcome.splits)
  with link_eviction_two_sided [OF both_reported_reachable, of 20 call1 bob alice s' bob u acts] r both_reported_reachable
  show ?thesis by auto
qed

text \<open>
  Two opposite reports of the same link evict a participant exactly when the second arrives
  before the first has expired; an expired half report has no effect on the call.
\<close>

theorem opposite_reports_evict:
  assumes "call_reachable n s" and "report_link_failure t1 c y x s = (s1, LR_Recorded)"
  shows "(\<exists>evicted unreachable actions.
      snd (report_link_failure t2 c x y s1) = LR_Evicted evicted unreachable actions) \<longleftrightarrow> t2 - t1 < LINK_REPORT_TTL"
proof -
  note i = call_reachable_inv [OF assms(1), unfolded call_inv_def]
  from assms(2) obtain a where a: "hm_get (active_calls s) c = Some a" "y \<noteq> x"
    "hm_contains_key y (ace_participants a)" "hm_contains_key x (ace_participants a)"
    by (auto simp: report_link_failure_def split: if_splits option.splits)
  have mem: "y \<in> set (hm_keys (ace_participants a))" "x \<in> set (hm_keys (ace_participants a))"
    using a by (simp_all add: hm_contains_key_iff)
  let ?a = "fst (record_link_report_at y x t1 a)"
  let ?s = "s\<lparr>active_calls := hm_insert c ?a (active_calls s)\<rparr>"
  have inv: "inv_ex {} ?s" by (rule record_report_inv [OF i a(1,2) mem])
  have busy: "hm_get (client_active_calls ?s) (later_joiner a' y x) = Some c" for a'
    using inv_ex_participant_busy [OF i a(1)] mem later_joiner_mem [of a' y x] by auto
  obtain s0 acts where e0: "end_call c (later_joiner ?a y x) ?s = (s0, Some acts)"
    using end_call_busy_Some [OF inv busy, of ?a] by (cases "end_call c (later_joiner ?a y x) ?s") auto
  have s1: "s1 = ?s"
    using assms(2) unfolding report_link_failure_valid [OF a] Let_def e0 by (simp split: if_splits)
  have rep: "\<exists>rep. hm_get (ace_link_reports ?a) (link_key x y) = Some rep \<and> lr_refreshed_at rep = t1 \<and> y \<in> set (lr_reporters rep)"
    by (simp add: record_link_report_at_def Let_def link_key_commute [of x y])
  have a1: "hm_get (active_calls s1) c = Some ?a" "x \<noteq> y" "hm_contains_key x (ace_participants ?a)"
    "hm_contains_key y (ace_participants ?a)" using a by (simp_all add: s1)
  have inv1: "inv_ex {} s1" using inv s1 by simp
  let ?a2 = "fst (record_link_report_at x y t2 ?a)"
  let ?s2 = "s1\<lparr>active_calls := hm_insert c ?a2 (active_calls s1)\<rparr>"
  have inv2: "inv_ex {} ?s2"
    using a1 by (intro record_report_inv [OF inv1 a1(1,2)]) (simp_all add: hm_contains_key_iff)
  have busy2: "hm_get (client_active_calls ?s2) (later_joiner a' x y) = Some c" for a'
    using inv_ex_participant_busy [OF i a(1)] mem later_joiner_mem [of a' x y] s1 by auto
  obtain s3 acts3 where e2: "end_call c (later_joiner ?a2 x y) ?s2 = (s3, Some acts3)"
    using end_call_busy_Some [OF inv2 busy2, of ?a2] by (cases "end_call c (later_joiner ?a2 x y) ?s2") auto
  have "snd (record_link_report_at x y t2 ?a) \<longleftrightarrow> t2 - t1 < LINK_REPORT_TTL"
    using rep a(2) unfolding record_link_report_confirmed by auto
  then show ?thesis
    unfolding report_link_failure_valid [OF a1] Let_def e2 by simp
qed

theorem opposite_reports_evict_witness:
  "(\<exists>e u acts. snd (report_link_failure 20 call1 bob alice (after both_reported)) = LR_Evicted e u acts) \<and>
   20 - (10 :: nat) < LINK_REPORT_TTL"
proof -
  have "snd (report_link_failure 10 call1 alice bob (after scenario_pair)) = LR_Recorded" by code_simp
  moreover have "fst (report_link_failure 10 call1 alice bob (after scenario_pair)) = after both_reported"
    unfolding both_reported_def after_append by simp
  ultimately have r: "report_link_failure 10 call1 alice bob (after scenario_pair) = (after both_reported, LR_Recorded)"
    by (metis prod.collapse)
  have "20 - (10 :: nat) < LINK_REPORT_TTL" by (simp add: LINK_REPORT_TTL_def from_secs_def)
  with opposite_reports_evict [OF scenario_reachable(2) r, of 20] show ?thesis by blast
qed

section \<open>Disconnecting\<close>

text \<open>
  After the cleanup of a disconnected client no call mentions it: it is busy with no call, rung
  for no call, caller or participant of none, and the invariant still holds.
\<close>

theorem cleanup_leaves_no_trace:
  assumes "call_reachable n s" and "cleanup_client_calls x s = (s', actions)"
  shows "call_inv s' \<and> (\<forall>c. \<not> is_party c x s') \<and> hm_get (client_active_calls s') x = None \<and>
    hm_get (client_incoming_calls s') x = None"
proof -
  have spec: "call_inv s'" "hm_get (client_active_calls s') x = None" "hm_get (client_incoming_calls s') x = None"
    using cleanup_client_calls_spec [OF call_reachable_inv [OF assms(1)], of x] assms(2) by auto
  note i = spec(1) [unfolded call_inv_def]
  from not_party [OF i spec(2,3)] spec show ?thesis by blast
qed

theorem cleanup_leaves_no_trace_witness:
  "call_reachable 5 (after scenario_pending) \<and> \<not> is_party call1 dave (fst (cleanup_client_calls dave (after scenario_pending)))"
  using cleanup_leaves_no_trace [OF scenario_reachable(4) prod.collapse [symmetric], of dave] scenario_reachable(4) by blast

text \<open>
  For the call a client is busy with, the disconnect cleanup has the same effect as the client
  ending the call, and collects the same actions in another order.
\<close>

theorem cleanup_is_end_call:
  assumes "call_reachable n s" and "hm_get (client_active_calls s) x = Some c"
  shows "fst (cleanup_own_call x s) = fst (end_call c x s) \<and>
    (\<exists>actions. snd (end_call c x s) = Some actions \<and> mset actions = mset (snd (cleanup_own_call x s)))"
  using cleanup_own_call_is_end_call [OF call_reachable_inv [OF assms(1), unfolded call_inv_def] assms(2)] by auto

theorem cleanup_is_end_call_witness:
  "fst (cleanup_own_call alice (after scenario_pending)) = fst (end_call call1 alice (after scenario_pending))"
proof -
  have "hm_get (client_active_calls (after scenario_pending)) alice = Some call1" by code_simp
  from cleanup_is_end_call [OF scenario_reachable(4) this] show ?thesis by blast
qed

section \<open>Queries\<close>

text \<open>
  The two queries for the parties of a call agree: a client is a party iff it is given the
  call's state, and that state is the current composition of the call.
\<close>

theorem party_iff_call_state:
  "call_state_for_party c x s =
    (if is_party c x s
     then Some \<lparr>up_call_id = c,
       up_invited_participants = (case hm_get (ringing_calls s) c of Some r \<Rightarrow> invited_participants r | None \<Rightarrow> []),
       up_joined_participants = (case hm_get (active_calls s) c of Some a \<Rightarrow> ace_participants a | None \<Rightarrow> []),
       up_conference_leader = (case hm_get (active_calls s) c of Some a \<Rightarrow> ace_conference_leader a | None \<Rightarrow> None)\<rparr>
     else None)"
  by (rule call_state_for_party_eq)

text \<open>
  A participant update never lists the recipient's own target among the invited ones, and
  lists every other invited target.
\<close>

theorem for_recipient_targets:
  "set (cu_invited_targets (for_recipient u x)) =
     {t \<in> set (hm_values (up_invited_participants u)). hm_get (up_invited_participants u) x \<noteq> Some t}"
  by (auto simp: for_recipient_def Let_def)

end
