(* ===== verification/CallBounds.thy ===== *)
theory CallBounds
  imports CallSystem
begin

text \<open>
  What the operations of the call manager cannot do: no operation but an invitation makes a call
  larger or brings a new client into the manager. \<open>call_size\<close> counts what the conference limit
  counts (joined participants, ringing targets, a caller that has not joined), \<open>known_clients\<close> are
  the clients of the two indexes, that is all parties of calls. The relation \<open>shrinks\<close> says that
  neither grows; the server relies on it for the conference limit and for the rule that every
  party of a call is connected.
\<close>

section \<open>Measures\<close>

definition call_size :: "ringing_call_entry option \<Rightarrow> active_call_entry option \<Rightarrow> nat" where
  "call_size R A =
     (case A of Some a \<Rightarrow> length (ace_participants a) | None \<Rightarrow> 0) +
     (case R of
        Some r \<Rightarrow> length (rc_targets r) +
          (if (case A of Some a \<Rightarrow> rc_caller_id r \<in> set (hm_keys (ace_participants a)) | None \<Rightarrow> False) then 0 else 1)
      | None \<Rightarrow> 0)"

abbreviation size_of :: "call_manager \<Rightarrow> call_id \<Rightarrow> nat" where
  "size_of s c \<equiv> call_size (hm_get (ringing_calls s) c) (hm_get (active_calls s) c)"

definition known_clients :: "call_manager \<Rightarrow> client_id set" where
  "known_clients s = set (hm_keys (client_active_calls s)) \<union> set (hm_keys (client_incoming_calls s))"

definition shrinks :: "call_manager \<Rightarrow> call_manager \<Rightarrow> bool" where
  "shrinks s s' \<longleftrightarrow>
     known_clients s' \<subseteq> known_clients s \<and> max_conf_size s' = max_conf_size s \<and> (\<forall>c. size_of s' c \<le> size_of s c)"

lemma shrinks_refl [simp, intro]: "shrinks s s"
  by (simp add: shrinks_def)

lemma shrinks_trans:
  assumes "shrinks s1 s2" "shrinks s2 s3"
  shows "shrinks s1 s3"
  unfolding shrinks_def
proof (intro conjI allI)
  show "known_clients s3 \<subseteq> known_clients s1" "max_conf_size s3 = max_conf_size s1"
    using assms by (auto simp: shrinks_def)
  show "size_of s3 c \<le> size_of s1 c" for c
    using assms unfolding shrinks_def by (metis order.trans)
qed

section \<open>Shrinking updates\<close>

lemma set_keys_remove_incoming: "set (hm_keys (remove_incoming c x m)) \<subseteq> set (hm_keys m)"
proof (cases "hm_get m x")
  case (Some calls)
  then have "x \<in> set (hm_keys m)" by (auto simp: set_hm_keys)
  with Some show ?thesis by (auto simp: remove_incoming_def Let_def)
qed (simp add: remove_incoming_def)

lemma set_keys_fold_remove_incoming: "set (hm_keys (fold (remove_incoming c) xs m)) \<subseteq> set (hm_keys m)"
proof (induction xs arbitrary: m)
  case (Cons x xs)
  from Cons.IH [of "remove_incoming c x m"] set_keys_remove_incoming [of c x m] show ?case by auto
qed simp

lemma set_keys_clear_busy: "set (hm_keys (clear_busy c x m)) \<subseteq> set (hm_keys m)"
  by (auto simp: clear_busy_def)

lemma set_keys_filter: "set (hm_keys (filter P m)) \<subseteq> set (hm_keys m)"
  by (auto simp: hm_keys_def)

lemmas key_subsets = set_keys_remove_incoming set_keys_fold_remove_incoming set_keys_clear_busy set_keys_filter
lemmas key_memD = key_subsets [THEN subsetD]

lemma call_size_fewer_targets:
  "length kept \<le> length (rc_targets r) \<Longrightarrow>
     call_size (if kept = [] then None else Some (r\<lparr>rc_targets := kept\<rparr>)) A \<le> call_size (Some r) A"
  by (auto simp: call_size_def split: option.splits)

lemma shrinks_ringing:
  assumes r: "hm_get (ringing_calls s) c = Some r" and kept: "length kept \<le> length (rc_targets r)"
    and s': "hm_get (ringing_calls s') =
      (hm_get (ringing_calls s))(c := if kept = [] then None else Some (r\<lparr>rc_targets := kept\<rparr>))"
    "active_calls s' = active_calls s" "max_conf_size s' = max_conf_size s"
    "set (hm_keys (client_active_calls s')) \<subseteq> set (hm_keys (client_active_calls s))"
    "set (hm_keys (client_incoming_calls s')) \<subseteq> set (hm_keys (client_incoming_calls s))"
  shows "shrinks s s'"
  unfolding shrinks_def
proof (intro conjI allI)
  show "known_clients s' \<subseteq> known_clients s" using s'(4,5) by (auto simp: known_clients_def)
  show "size_of s' c' \<le> size_of s c'" for c'
    using r call_size_fewer_targets [OF kept] by (simp add: s'(1,2))
qed (fact s'(3))

lemma shrinks_indexes:
  assumes "ringing_calls s' = ringing_calls s" "active_calls s' = active_calls s" "max_conf_size s' = max_conf_size s"
    "set (hm_keys (client_active_calls s')) \<subseteq> set (hm_keys (client_active_calls s))"
    "set (hm_keys (client_incoming_calls s')) \<subseteq> set (hm_keys (client_incoming_calls s))"
  shows "shrinks s s'"
  using assms by (auto simp: shrinks_def known_clients_def)

section \<open>The operations\<close>

lemma length_mark_targets: "length (fst (mark_targets f oc c k x ts)) \<le> length ts"
proof (induction ts)
  case (Cons p ts)
  obtain t e where p: "p = (t, e)" by (cases p)
  obtain kept m tm where "mark_targets f oc c k x ts = (kept, m, tm)" by (metis prod_cases3)
  with Cons.IH show ?case by (auto simp: p mark_targets.simps(2) Let_def)
qed simp

lemma mark_client_shrinks: "shrinks s (fst (mark_client_within_ringing_calls f oc c x s))"
proof (cases "hm_get (ringing_calls s) c")
  case None
  then show ?thesis
    by (auto simp: mark_client_within_ringing_calls_def remove_client_incoming_call_def Let_def intro!: shrinks_indexes
        dest: key_memD)
next
  case (Some r)
  obtain kept m tm where mt: "mark_targets f oc c (rc_caller_id r) x (rc_targets r) = (kept, m, tm)" by (metis prod_cases3)
  have len: "length kept \<le> length (rc_targets r)"
    using length_mark_targets [of f oc c "rc_caller_id r" x "rc_targets r"] mt by simp
  have inc: "set (hm_keys (remove_incoming c x (client_incoming_calls s))) \<subseteq> set (hm_keys (client_incoming_calls s))"
    by (rule set_keys_remove_incoming)
  let ?s = "fst (mark_client_within_ringing_calls f oc c x s)"
  show ?thesis
  proof (cases "rc_caller_id r = x")
    case True
    with Some inc show ?thesis
      by (auto simp: mark_client_within_ringing_calls_def remove_client_incoming_call_def Let_def intro!: shrinks_indexes)
  next
    case False
    show ?thesis
    proof (cases "m \<or> kept \<noteq> []")
      case True
      with False Some mt inc len show ?thesis
        by (intro shrinks_ringing [OF Some, of kept])
          (auto simp: mark_client_within_ringing_calls_def remove_client_incoming_call_def Let_def split: prod.splits)
    next
      case noop: False
      have "\<not> m \<Longrightarrow> kept = rc_targets r"
      proof -
        have "\<not> fst (snd (mark_targets f oc c k x ts)) \<Longrightarrow> fst (mark_targets f oc c k x ts) = ts" for k ts
        proof (induction ts)
          case (Cons p ts)
          obtain t e where p: "p = (t, e)" by (cases p)
          obtain k1 m1 t1 where "mark_targets f oc c k x ts = (k1, m1, t1)" by (metis prod_cases3)
          with Cons show ?case by (auto simp: p mark_targets.simps(2) Let_def split: if_splits)
        qed simp
        from this [of "rc_caller_id r" "rc_targets r"] mt show "\<not> m \<Longrightarrow> kept = rc_targets r" by simp
      qed
      with noop have "kept = rc_targets r" "\<not> m" by auto
      with False Some mt inc show ?thesis
        by (auto simp: mark_client_within_ringing_calls_def remove_client_incoming_call_def Let_def hm_insert_same
            intro!: shrinks_indexes)
    qed
  qed
qed

lemma erase_call_shrinks: "shrinks s (erase_call c s)"
  unfolding shrinks_def
proof (intro conjI allI)
  show "known_clients (erase_call c s) \<subseteq> known_clients s"
    by (auto simp: known_clients_def erase_call_def split: option.splits dest: key_memD)
  show "size_of (erase_call c s) c' \<le> size_of s c'" for c'
    by (simp add: erase_call_def call_size_def)
qed (simp add: erase_call_def)

lemma length_remove_participant:
  "length (ace_participants (remove_participant x a)) \<le> length (ace_participants a)"
  "hm_keys (ace_participants (remove_participant x a)) = filter (\<lambda>y. y \<noteq> x) (hm_keys (ace_participants a))"
proof -
  have p: "ace_participants (remove_participant x a) = hm_remove x (ace_participants a)" by simp
  show "length (ace_participants (remove_participant x a)) \<le> length (ace_participants a)"
    unfolding p hm_remove_filter by simp
  show "hm_keys (ace_participants (remove_participant x a)) = filter (\<lambda>y. y \<noteq> x) (hm_keys (ace_participants a))"
    unfolding p by (rule hm_keys_remove)
qed

text \<open>A participant that is not the caller of the pending invitations leaves.\<close>

lemma shrinks_leave:
  assumes a: "hm_get (active_calls s) c = Some a"
    and caller: "\<And>r. hm_get (ringing_calls s) c = Some r \<Longrightarrow> rc_caller_id r \<noteq> x"
  shows "shrinks s (s\<lparr>active_calls := hm_insert c (remove_participant x a) (active_calls s),
    client_active_calls := clear_busy c x (client_active_calls s)\<rparr>)" (is "shrinks s ?s")
  unfolding shrinks_def
proof (intro conjI allI)
  show "known_clients ?s \<subseteq> known_clients s"
    by (auto simp: known_clients_def dest: key_memD)
  fix c'
  have "call_size (hm_get (ringing_calls s) c) (Some (remove_participant x a)) \<le> size_of s c"
    using length_remove_participant [of x a] a caller by (auto simp: call_size_def split: option.splits)
  then show "size_of ?s c' \<le> size_of s c'" by simp
qed simp

lemma end_call_shrinks:
  assumes inv: "inv_ex E s"
  shows "shrinks s (fst (end_call c x s))"
proof (cases "hm_get (client_active_calls s) x = Some c")
  case False
  with end_call_stranger [OF inv False] show ?thesis by simp
next
  case True
  show ?thesis
  proof (cases "leaves x (hm_get (active_calls s) c)")
    case False
    with busy_ends_or_leaves [OF inv True] show ?thesis
      by (simp add: end_call_erases [OF inv] erase_call_shrinks)
  next
    case l: True
    then obtain a where a: "hm_get (active_calls s) c = Some a" by (auto simp: leaves_def split: option.splits)
    with l have l': "leaves x (Some a)" by simp
    show ?thesis
      unfolding end_call_leaves(1) [OF inv a l'] leave_call_def
      by (rule shrinks_leave [OF a leaves_not_caller [OF inv _ l]])
  qed
qed

lemma call_error_op_shrinks:
  assumes inv: "call_inv s"
  shows "shrinks s (fst (call_error_op c x s))"
proof -
  let ?m = "mark_client_within_ringing_calls mark_errored (OutcomeError CallFailure) c x s"
  have s1: "shrinks s (fst ?m)" by (rule mark_client_shrinks)
  have "inv_ex {} (fst ?m)" using errored.mark_client_inv [OF inv] by (simp add: call_inv_def)
  from shrinks_trans [OF s1 end_call_shrinks [OF this, of c x]] s1 show ?thesis
    by (auto simp: call_error_op_def split: call_termination_outcome.splits prod.splits option.splits)
qed

lemma drop_ringing_target_shrinks: "shrinks s (fst (drop_ringing_target c d t reason s))"
proof (cases "\<exists>r e. hm_get (ringing_calls s) c = Some r \<and> hm_get (rc_targets r) t = Some e \<and> cs_client_id (rte_source e) = d")
  case False
  then have "fst (drop_ringing_target c d t reason s) = s" by (auto simp: drop_ringing_target_def split: option.splits)
  then show ?thesis by simp
next
  case True
  then obtain r e where r: "hm_get (ringing_calls s) c = Some r" and e: "hm_get (rc_targets r) t = Some e"
    and d: "cs_client_id (rte_source e) = d" by blast
  have "length (hm_remove t (rc_targets r)) \<le> length (rc_targets r)" by (simp add: hm_remove_filter)
  then show ?thesis
    by (intro shrinks_ringing [OF r, of "hm_remove t (rc_targets r)"]) (auto simp: drop_ringing_target_state [OF r e d] dest: key_memD)
qed

lemma drop_joined_participant_shrinks:
  assumes inv: "call_inv s"
  shows "shrinks s (fst (drop_joined_participant c d t reason s))"
  using drop_joined_participant_cases [of c d t reason s]
proof (elim disjE exE conjE)
  fix a x
  assume a: "hm_get (active_calls s) c = Some a" "x \<noteq> d" "ace_conference_leader a = Some d"
    and s': "fst (drop_joined_participant c d t reason s) =
        s\<lparr>active_calls := hm_insert c (remove_participant x a) (active_calls s),
          client_active_calls := clear_busy c x (client_active_calls s)\<rparr>"
  have "rc_caller_id r \<noteq> x" if "hm_get (ringing_calls s) c = Some r" for r
    using inv_ex_pair [OF inv [unfolded call_inv_def] that a(1)] a(2,3) by (auto simp: pair_ok_def)
  then show ?thesis unfolding s' by (rule shrinks_leave [OF a(1)])
qed simp

lemma drop_target_shrinks:
  assumes inv: "call_inv s"
  shows "shrinks s (fst (drop_target c d t reason s))"
proof -
  obtain s1 oc where d: "drop_ringing_target c d t reason s = (s1, oc)" by (cases "drop_ringing_target c d t reason s")
  have s1: "shrinks s s1" using drop_ringing_target_shrinks [of s c d t reason] d by simp
  have "call_inv s1" using drop_ringing_target_inv [OF inv, of c d t reason] d by simp
  from shrinks_trans [OF s1 drop_joined_participant_shrinks [OF this, of c d t reason]] s1 show ?thesis
    by (simp add: drop_target_def d split: option.splits)
qed

lemma report_link_failure_shrinks:
  assumes inv: "call_inv s"
  shows "shrinks s (fst (report_link_failure now c x y s))"
proof (cases "\<exists>a. hm_get (active_calls s) c = Some a \<and> x \<noteq> y \<and>
    x \<in> set (hm_keys (ace_participants a)) \<and> y \<in> set (hm_keys (ace_participants a))")
  case True
  then obtain a where a: "hm_get (active_calls s) c = Some a" "x \<noteq> y"
    "x \<in> set (hm_keys (ace_participants a))" "y \<in> set (hm_keys (ace_participants a))" by blast
  obtain a' confirmed where rec: "record_link_report_at x y now a = (a', confirmed)"
    by (cases "record_link_report_at x y now a")
  let ?s = "s\<lparr>active_calls := hm_insert c a' (active_calls s)\<rparr>"
  have "ace_participants a' = ace_participants a" using record_link_report_fields(1) [of x y now a] rec by simp
  then have s1: "shrinks s ?s" using a(1) by (auto simp: shrinks_def known_clients_def call_size_def split: option.splits)
  have "inv_ex {} ?s" using record_report_inv [of "{}" s c a x y now] inv a rec by (simp add: call_inv_def)
  from shrinks_trans [OF s1 end_call_shrinks [OF this, of c "later_joiner a' x y"]] s1 show ?thesis
    using a by (auto simp: report_link_failure_def hm_contains_key_iff rec Let_def split: prod.splits option.splits)
next
  case False
  then have "fst (report_link_failure now c x y s) = s"
    by (auto simp: report_link_failure_def hm_contains_key_iff split: option.splits)
  then show ?thesis by simp
qed

lemma cleanup_incoming_call_shrinks: "shrinks s (fst (cleanup_incoming_call x (c, t) (s, acts)))"
proof (cases "hm_get (ringing_calls s) c")
  case None
  then show ?thesis by (simp add: cleanup_incoming_call_def)
next
  case (Some r)
  define e' :: "ringing_target_entry \<Rightarrow> ringing_target_entry" where "e' = (\<lambda>e. e\<lparr>rte_notified_clients := hs_remove x (rte_notified_clients e),
    rte_rejected_clients := hs_remove x (rte_rejected_clients e),
    rte_errored_clients := hs_remove x (rte_errored_clients e)\<rparr>)"
  define ts where "ts = (case hm_get (rc_targets r) t of
      None \<Rightarrow> rc_targets r
    | Some e \<Rightarrow> if all_rejected_or_errored (e' e) then hm_remove t (rc_targets r) else hm_insert t (e' e) (rc_targets r))"
  have len: "length ts \<le> length (rc_targets r)"
    by (auto simp: ts_def hm_remove_filter hm_length_insert split: option.splits)
  have failed: "all_targets_failed (r\<lparr>rc_targets := []\<rparr>)" by (simp add: all_targets_failed_def)
  have "fst (cleanup_incoming_call x (c, t) (s, acts)) =
    (if all_targets_failed (r\<lparr>rc_targets := ts\<rparr>)
     then s\<lparr>ringing_calls := hm_remove c (ringing_calls s),
            client_active_calls :=
              (if list_ex (\<lambda>a. active_involves a (rc_caller_id r)) (hm_values (active_calls s))
               then client_active_calls s else hm_remove (rc_caller_id r) (client_active_calls s))\<rparr>
     else s\<lparr>ringing_calls := hm_insert c (r\<lparr>rc_targets := ts\<rparr>) (ringing_calls s)\<rparr>)"
    using Some by (auto simp: cleanup_incoming_call_def ts_def e'_def Let_def split: option.splits prod.splits)
  note state = this
  show ?thesis
  proof (cases "all_targets_failed (r\<lparr>rc_targets := ts\<rparr>)")
    case True
    then show ?thesis unfolding state by (intro shrinks_ringing [OF Some, of "[]"]) auto
  next
    case False
    with failed have "ts \<noteq> []" by auto
    with False len show ?thesis unfolding state by (intro shrinks_ringing [OF Some, of ts]) auto
  qed
qed

lemma cleanup_client_calls_shrinks:
  assumes inv: "call_inv s"
  shows "shrinks s (fst (cleanup_client_calls x s))"
proof -
  obtain s1 acts1 where s1: "cleanup_own_call x s = (s1, acts1)" by (cases "cleanup_own_call x s")
  have 1: "shrinks s s1"
  proof (cases "hm_get (client_active_calls s) x")
    case None
    with s1 show ?thesis by (simp add: cleanup_own_call_idle)
  next
    case (Some c)
    note i = inv [unfolded call_inv_def]
    from cleanup_own_call_is_end_call(1) [OF i Some] end_call_shrinks [OF i, of c x] s1 show ?thesis by simp
  qed
  have loop: "shrinks st (fst (fold (cleanup_incoming_call x) cs (st, acts)))" for st cs acts
  proof (induction cs arbitrary: st acts)
    case (Cons p cs)
    obtain c t where p: "p = (c, t)" by (cases p)
    obtain st1 acts1 where "cleanup_incoming_call x (c, t) (st, acts) = (st1, acts1)"
      by (cases "cleanup_incoming_call x (c, t) (st, acts)")
    with Cons.IH [of st1 acts1] cleanup_incoming_call_shrinks [of st x c t acts] show ?case
      by (auto simp: p intro: shrinks_trans)
  qed simp
  let ?s2 = "s1\<lparr>client_incoming_calls := hm_remove x (client_incoming_calls s1)\<rparr>"
  have "shrinks s1 ?s2" by (intro shrinks_indexes) auto
  with 1 have "shrinks s ?s2" by (rule shrinks_trans)
  then have "shrinks s (fst (fold (cleanup_incoming_call x) cs (?s2, acts1)))" for cs by (rule shrinks_trans [OF _ loop])
  with 1 s1 show ?thesis by (simp add: cleanup_client_calls_def split: option.splits)
qed

lemma accept_call_shrinks:
  assumes inv: "call_inv s"
  shows "shrinks s (fst (accept_call now c x s))"
proof (cases "hm_get (client_active_calls s) x \<noteq> None \<or> invited_as (hm_get (ringing_calls s) c) x = None")
  case True
  then show ?thesis
    using accept_call_refused [OF True, of now] inv_ex_ring [OF inv [unfolded call_inv_def]] by simp
next
  case False
  note i = inv [unfolded call_inv_def]
  from False obtain r t where r: "hm_get (ringing_calls s) c = Some r" and t: "invited_as (Some r) x = Some t"
    and free: "hm_get (client_active_calls s) x = None"
    by (cases "hm_get (ringing_calls s) c") (auto simp: invited_as_None)
  note ring = inv_ex_ring [OF i r]
  obtain e where e: "hm_get (rc_targets r) t = Some e" "x \<in> set (rte_notified_clients e)" using t ring by (rule invited_asE)
  let ?rt = "accepted_target c (rc_caller_id r) t e"
  let ?a = "accepted_active now c x ?rt (hm_get (active_calls s) c)"
  let ?kept = "hm_remove t (rc_targets r)"
  have state: "fst (accept_call now c x s) =
    s\<lparr>ringing_calls := (if ?kept = [] then hm_remove c (ringing_calls s) else hm_insert c (r\<lparr>rc_targets := ?kept\<rparr>) (ringing_calls s)),
      client_incoming_calls := fold (remove_incoming c) (rte_notified_clients e) (client_incoming_calls s),
      active_calls := hm_insert c ?a (active_calls s), client_active_calls := hm_insert x c (client_active_calls s)\<rparr>"
    using accept_call_accepted [OF free r ring t e(1), of now] by (simp add: Let_def)
  have "inc_get (client_incoming_calls s) x c = Some t" using inv_exD(6) [OF i, of x c] r t by simp
  then have known: "x \<in> set (hm_keys (client_incoming_calls s))" by (auto simp: inc_get_def set_hm_keys split: option.splits)
  have "hm_ok (rc_targets r)" using ring by (simp add: ring_ok_def targets_ok_def)
  then have len: "Suc (length ?kept) = length (rc_targets r)" using e(1) by (cases "rc_targets r") (auto simp: hm_length_remove)
  have size: "call_size (if ?kept = [] then None else Some (r\<lparr>rc_targets := ?kept\<rparr>)) (Some ?a) \<le> size_of s c"
  proof (cases "hm_get (active_calls s) c")
    case None
    have "length (ace_participants ?a) \<le> 2"
      using None by (simp add: accepted_active_def open_active_call_def hm_collect_def hm_extend_def record_join_def
          active_call_entry_new_def Let_def)
    moreover have "rc_caller_id r \<in> set (hm_keys (ace_participants ?a))"
      using None by (simp add: accepted_active_def open_active_call_def hm_collect_def hm_extend_def record_join_def
          active_call_entry_new_def Let_def)
    ultimately show ?thesis using len None r by (auto simp: call_size_def)
  next
    case (Some a)
    have "length (ace_participants ?a) \<le> Suc (length (ace_participants a))"
      using Some by (simp add: accepted_active_def hm_length_insert)
    moreover have "rc_caller_id r \<in> set (hm_keys (ace_participants a))" using inv_ex_pair [OF i r Some] by (simp add: pair_ok_def)
    moreover have "rc_caller_id r \<in> set (hm_keys (ace_participants ?a))" using Some calculation(2) by (simp add: accepted_active_def)
    ultimately show ?thesis using len Some r by (auto simp: call_size_def)
  qed
  show ?thesis
    unfolding shrinks_def state
  proof (intro conjI allI)
    fix c'
    show "size_of (s\<lparr>ringing_calls := (if ?kept = [] then hm_remove c (ringing_calls s) else hm_insert c (r\<lparr>rc_targets := ?kept\<rparr>) (ringing_calls s)),
      client_incoming_calls := fold (remove_incoming c) (rte_notified_clients e) (client_incoming_calls s),
      active_calls := hm_insert c ?a (active_calls s), client_active_calls := hm_insert x c (client_active_calls s)\<rparr>) c' \<le> size_of s c'"
      using size by auto
  qed (use known in \<open>auto simp: known_clients_def dest: key_memD\<close>)
qed

section \<open>Invitations\<close>

fun is_attempt :: "call_op \<Rightarrow> bool" where
  "is_attempt (AttemptCall c k src t ns) = True"
| "is_attempt _ = False"

fun newcomers :: "call_op \<Rightarrow> client_id set" where
  "newcomers (AttemptCall c k src t ns) = insert k (set ns)"
| "newcomers _ = {}"

lemma exec_op_shrinks: "call_inv s \<Longrightarrow> \<not> is_attempt x \<Longrightarrow> shrinks s (exec_op x s)"
  by (cases x)
    (simp_all add: accept_call_shrinks mark_client_shrinks reject_call_def fail_ringing_recipient_def drop_target_shrinks
      end_call_shrinks call_error_op_shrinks report_link_failure_shrinks cleanup_client_calls_shrinks call_inv_def)

lemma set_keys_fold_insert_incoming:
  "set (hm_keys (fold (insert_incoming c t) ns m)) = set (hm_keys m) \<union> set ns"
  by (induction ns arbitrary: m) (auto simp: insert_incoming_def)

lemma exec_op_known:
  assumes "call_inv s"
  shows "known_clients (exec_op x s) \<subseteq> known_clients s \<union> newcomers x"
proof (cases "is_attempt x")
  case False
  with exec_op_shrinks [OF assms] show ?thesis by (auto simp: shrinks_def)
next
  case True
  then obtain c k src t ns where x: "x = AttemptCall c k src t ns" by (cases x) auto
  show ?thesis
  proof (cases "validate_call_attempt c k t ns s")
    case (Inl err)
    then show ?thesis by (auto simp: x attempt_call_error)
  next
    case (Inr u)
    then show ?thesis by (auto simp: x attempt_call_OK [OF Inr] known_clients_def set_keys_fold_insert_incoming)
  qed
qed

text \<open>A successful attempt adds one target to its call, and a caller that has not joined.\<close>

definition open_size :: "call_manager \<Rightarrow> call_id \<Rightarrow> client_id \<Rightarrow> nat" where
  "open_size s c k =
     (case hm_get (ringing_calls s) c of Some r \<Rightarrow> length (rc_targets r) | None \<Rightarrow> 0) +
     (case hm_get (active_calls s) c of
        Some a \<Rightarrow> length (ace_participants a) + (if k \<in> set (hm_keys (ace_participants a)) then 0 else 1)
      | None \<Rightarrow> 1)"

text \<open>A target that an invitation to the call adds, as the conference limit counts it.\<close>

definition new_target :: "call_manager \<Rightarrow> call_id \<Rightarrow> call_target \<Rightarrow> bool" where
  "new_target s c t \<longleftrightarrow>
     (case hm_get (ringing_calls s) c of Some r \<Rightarrow> \<not> hm_contains_key t (rc_targets r) | None \<Rightarrow> True) \<and>
     (case hm_get (active_calls s) c of Some a \<Rightarrow> t \<notin> set (hm_values (ace_participants a)) | None \<Rightarrow> True)"

lemma invite_exceeds_iff:
  "invite_exceeds_max_conf_size c k ts s \<longleftrightarrow>
     open_size s c k + length (filter (new_target s c) ts) > unat (max_conf_size s)"
proof -
  have "filter (\<lambda>target.
      \<not> (case hm_get (ringing_calls s) c of Some call \<Rightarrow> hm_contains_key target (rc_targets call) | None \<Rightarrow> False) \<and>
      \<not> (case hm_get (active_calls s) c of Some call \<Rightarrow> target \<in> set (hm_values (ace_participants call)) | None \<Rightarrow> False)) ts =
    filter (new_target s c) ts"
    by (rule filter_cong [OF refl]) (simp add: new_target_def split: option.splits)
  then show ?thesis
    unfolding invite_exceeds_max_conf_size_def Let_def
    by (cases "hm_get (ringing_calls s) c"; cases "hm_get (active_calls s) c")
      (auto simp: open_size_def hm_contains_key_iff)
qed

lemma size_le_open_size:
  "(\<And>r. hm_get (ringing_calls s) c = Some r \<Longrightarrow> rc_caller_id r = k) \<Longrightarrow> size_of s c \<le> open_size s c k"
  by (auto simp: call_size_def open_size_def split: option.splits)

lemma validate_new_target:
  assumes "validate_call_attempt c k t ns s = Inr u"
  shows "new_target s c t"
  using validate_call_attempt_OK [OF assms] by (auto simp: new_target_def hm_contains_key_def split: option.splits)

lemma attempt_call_adds:
  fixes src
  assumes "validate_call_attempt c k t ns s = Inr u"
  defines "s' \<equiv> fst (attempt_call c k src t ns s)"
  shows "open_size s' c k = Suc (open_size s c k)"
    and "\<And>t'. new_target s' c t' \<Longrightarrow> new_target s c t'"
    and "\<And>r. hm_get (ringing_calls s') c = Some r \<Longrightarrow> rc_caller_id r = k"
    and "\<And>c'. c' \<noteq> c \<Longrightarrow> size_of s' c' = size_of s c'"
    and "max_conf_size s' = max_conf_size s"
proof -
  note st = attempt_call_OK [OF assms(1), of src, folded s'_def]
  note new = validate_new_target [OF assms(1)]
  have caller: "rc_caller_id r = k" if "hm_get (ringing_calls s) c = Some r" for r
    using validate_call_attempt_OK [OF assms(1)] that by auto
  show "open_size s' c k = Suc (open_size s c k)"
    using new by (cases "hm_get (ringing_calls s) c"; cases "hm_get (active_calls s) c")
      (auto simp: st open_size_def invite_ringing_def new_target_def add_target_def ringing_call_entry_new_def
        hm_length_insert hm_contains_key_def)
  show "new_target s' c t' \<Longrightarrow> new_target s c t'" for t'
    by (auto simp: st new_target_def invite_ringing_def add_target_def hm_contains_key_iff split: option.splits)
  show "hm_get (ringing_calls s') c = Some r \<Longrightarrow> rc_caller_id r = k" for r
    using caller by (auto simp: st invite_ringing_def add_target_def ringing_call_entry_new_def split: option.splits)
  show "c' \<noteq> c \<Longrightarrow> size_of s' c' = size_of s c'" for c' by (simp add: st)
  show "max_conf_size s' = max_conf_size s" by (simp add: st)
qed

end
