(* ===== verification/Clients.thy ===== *)
theory Clients
  imports Network
begin

text \<open>
  The client manager of \<^verbatim>\<open>vacs-server/src/state/clients\<close>: sessions
  (\<^verbatim>\<open>session.rs\<close>), the maps of clients, online positions, positions known from VATSIM only and
  online stations (\<^verbatim>\<open>manager.rs\<close>), with adding and removing clients and the station
  queries; and the indexing of the VATSIM controllers (\<^verbatim>\<open>vacs-vatsim/src/lib.rs\<close>). A method
  is one step; \<^verbatim>\<open>add_client\<close> and \<^verbatim>\<open>remove_client\<close> release their locks midway in the code, and
  what another task does in between is not modelled. Messages a method sends are returned in order; the answer of the VATSIM data
  feed is an argument. Replacing the network and synchronising with the data feed follow in the
  theory \<open>ClientSync\<close>. Not modelled: the web socket tasks of a session, metrics.
\<close>

section \<open>Controllers\<close>

record controller_info =
  ctl_cid :: client_id
  ctl_callsign :: string
  ctl_frequency :: string
  ctl_facility_type :: facility_type
  ctl_visual_range :: "u32 option"

text \<open>The declaration order of the facility types is their order.\<close>

fun facility_index :: "facility_type \<Rightarrow> nat" where
  "facility_index FacilityUnknown = 0"
| "facility_index TrafficFlow = 1"
| "facility_index Radio = 2"
| "facility_index Ramp = 3"
| "facility_index Delivery = 4"
| "facility_index Ground = 5"
| "facility_index Tower = 6"
| "facility_index Approach = 7"
| "facility_index Departure = 8"
| "facility_index Enroute = 9"
| "facility_index FlightServiceStation = 10"

definition rank :: "controller_info \<Rightarrow> nat \<times> nat \<times> nat \<times> string" where
  "rank c =
     ((case ctl_facility_type c of
         FacilityUnknown \<Rightarrow> 0
       | TrafficFlow \<Rightarrow> 1 | Radio \<Rightarrow> 1
       | _ \<Rightarrow> 2),
      (case ctl_visual_range c of Some v \<Rightarrow> if v = 0 then 0 else 2 | None \<Rightarrow> 1),
      facility_index (ctl_facility_type c),
      ctl_callsign c)"

definition index_step :: "controller_info \<Rightarrow> (client_id, controller_info) hash_map \<Rightarrow> (client_id, controller_info) hash_map" where
  "index_step c m =
     (if suffix ''_SUP'' (ctl_callsign c) then m
      else case hm_get m (ctl_cid c) of
             Some old \<Rightarrow> if rank c > rank old then hm_insert (ctl_cid c) c m else m
           | None \<Rightarrow> hm_insert (ctl_cid c) c m)"

definition index_by_cid :: "controller_info list \<Rightarrow> (client_id, controller_info) hash_map" where
  "index_by_cid controllers = fold index_step controllers []"

section \<open>Sessions\<close>

record client_session =
  sess_client_info :: client_info
  sess_active_profile :: "profile_id active_profile"
  sess_connected_at :: instant
  sess_pending_disconnect :: bool

definition client_session_new :: "instant \<Rightarrow> client_info \<Rightarrow> profile_id active_profile \<Rightarrow> client_session" where
  "client_session_new now info profile =
     \<lparr>sess_client_info = info, sess_active_profile = profile, sess_connected_at = now, sess_pending_disconnect = False\<rparr>"

definition sess_id :: "client_session \<Rightarrow> client_id" where
  "sess_id s = info_id (sess_client_info s)"

definition sess_position_id :: "client_session \<Rightarrow> position_id option" where
  "sess_position_id s = info_position_id (sess_client_info s)"

definition is_within_position_grace_period :: "instant \<Rightarrow> duration \<Rightarrow> client_session \<Rightarrow> bool" where
  "is_within_position_grace_period now grace s \<longleftrightarrow> now - sess_connected_at s < grace"

definition mark_pending_disconnect :: "client_session \<Rightarrow> client_session" where
  "mark_pending_disconnect s = s\<lparr>sess_pending_disconnect := True\<rparr>"

definition take_pending_disconnect :: "client_session \<Rightarrow> client_session \<times> bool" where
  "take_pending_disconnect s = (s\<lparr>sess_pending_disconnect := False\<rparr>, sess_pending_disconnect s)"

definition set_position_id :: "position_id option \<Rightarrow> client_session \<Rightarrow> client_session" where
  "set_position_id p s = s\<lparr>sess_client_info := (sess_client_info s)\<lparr>info_position_id := p\<rparr>\<rparr>"

definition update_client_info :: "controller_info \<Rightarrow> client_session \<Rightarrow> client_session \<times> bool" where
  "update_client_info c s =
     (let info = sess_client_info s;
          name_changed = (info_display_name info \<noteq> ctl_callsign c);
          freq_changed = (info_frequency info \<noteq> ctl_frequency c);
          info = (if name_changed then info\<lparr>info_display_name := ctl_callsign c\<rparr> else info);
          info = (if freq_changed then info\<lparr>info_frequency := ctl_frequency c\<rparr> else info)
      in (s\<lparr>sess_client_info := info\<rparr>, name_changed \<or> freq_changed))"

definition protocol_profile_of :: "profile \<Rightarrow> protocol_profile" where
  "protocol_profile_of p = \<lparr>pp_id = prof_id p, pp_view = prof_view p, pp_type = prof_type p\<rparr>"

definition update_active_profile ::
  "profile_id option \<Rightarrow> network \<Rightarrow> client_session \<Rightarrow> client_session \<times> session_profile" where
  "update_active_profile new_profile_id net s =
     (case (sess_active_profile s, new_profile_id) of
        (Custom, _) \<Rightarrow> (s, Unchanged)
      | (NoProfile, None) \<Rightarrow> (s, Unchanged)
      | (active, Some new) \<Rightarrow>
          if active = Specific new then (s, Unchanged)
          else (case get_profile net new of
                  Some profile \<Rightarrow>
                    (s\<lparr>sess_active_profile := Specific new\<rparr>, Changed (Specific (protocol_profile_of profile)))
                | None \<Rightarrow> (s\<lparr>sess_active_profile := NoProfile\<rparr>, Changed NoProfile))
      | (_, None) \<Rightarrow> (s\<lparr>sess_active_profile := NoProfile\<rparr>, Changed NoProfile))"

section \<open>State\<close>

datatype client_manager_error = DuplicateClient string | MessageSendError string

record client_manager =
  position_grace_period :: duration
  conf_size_limit :: u32
  cm_network :: network
  clients :: "(client_id, client_session) hash_map"
  online_positions :: "(position_id, client_id hash_set) hash_map"
  vatsim_only_positions :: "(position_id, client_id hash_set) hash_map"
  online_stations :: "(station_id, position_id) hash_map"

text \<open>What a method sends: to all sessions, to one session, or the shutdown signal of a session.\<close>

datatype outgoing =
    Broadcast server_message
  | Direct client_id server_message
  | Shutdown client_id "disconnect_reason option"

definition client_manager_new :: "network \<Rightarrow> duration \<Rightarrow> u32 \<Rightarrow> client_manager" where
  "client_manager_new net grace n =
     \<lparr>position_grace_period = grace, conf_size_limit = n, cm_network = net, clients = [], online_positions = [],
      vatsim_only_positions = [], online_stations = []\<rparr>"

section \<open>Queries\<close>

definition clients_for_position :: "client_manager \<Rightarrow> position_id \<Rightarrow> client_id hash_set" where
  "clients_for_position m position_id =
     (case hm_get (online_positions m) position_id of Some cids \<Rightarrow> cids | None \<Rightarrow> [])"

definition clients_for_station :: "client_manager \<Rightarrow> station_id \<Rightarrow> client_id hash_set" where
  "clients_for_station m station_id =
     (case hm_get (online_stations m) station_id of
        None \<Rightarrow> []
      | Some position_id \<Rightarrow> clients_for_position m position_id)"

definition get_client :: "client_manager \<Rightarrow> client_id \<Rightarrow> client_session option" where
  "get_client m client_id = hm_get (clients m) client_id"

definition is_client_connected :: "client_manager \<Rightarrow> client_id \<Rightarrow> bool" where
  "is_client_connected m client_id = hm_contains_key client_id (clients m)"

definition list_clients :: "client_manager \<Rightarrow> client_id option \<Rightarrow> client_info list" where
  "list_clients m self_client_id =
     sort_key info_id
       (map sess_client_info (filter (\<lambda>c. self_client_id \<noteq> Some (sess_id c)) (hm_values (clients m))))"

definition list_stations :: "client_manager \<Rightarrow> profile_id active_profile \<Rightarrow> position_id option \<Rightarrow> station_info list" where
  "list_stations m profile self_position_id =
     (let visible = (\<lambda>id. case hm_get (online_stations m) id of
            Some controller \<Rightarrow>
              if hm_contains_key controller (online_positions m)
              then Some \<lparr>si_id = id, si_own = (self_position_id = Some controller)\<rparr> else None
          | None \<Rightarrow> None)
      in case relevant_stations_of (cm_network m) profile of
           NoStations \<Rightarrow> []
         | AllStations \<Rightarrow> sort_key si_id (List.map_filter visible (hm_keys (online_stations m)))
         | Subset ids \<Rightarrow> sort_key si_id (List.map_filter visible ids))"

definition all_positions :: "client_manager \<Rightarrow> position_id hash_set" where
  "all_positions m = hs_collect (hm_keys (online_positions m) @ hm_keys (vatsim_only_positions m))"

record station_coverage_info =
  scov_station_id :: station_id
  scov_controlling_position_id :: position_id
  scov_controller_ids :: "client_id hash_set"
  scov_vatsim_only :: bool

record position_coverage_info =
  pcov_position_id :: position_id
  pcov_controller_ids :: "client_id hash_set"
  pcov_vatsim_only :: bool

definition controllers_of :: "client_manager \<Rightarrow> position_id \<Rightarrow> client_id hash_set \<times> bool" where
  "controllers_of m pid =
     (case hm_get (vatsim_only_positions m) pid of
        Some cids \<Rightarrow> (cids, True)
      | None \<Rightarrow> (case hm_get (online_positions m) pid of Some cids \<Rightarrow> cids | None \<Rightarrow> [], False))"

definition station_coverage_of :: "client_manager \<Rightarrow> station_id \<Rightarrow> position_id \<Rightarrow> station_coverage_info" where
  "station_coverage_of m sid pid =
     \<lparr>scov_station_id = sid, scov_controlling_position_id = pid, scov_controller_ids = fst (controllers_of m pid),
      scov_vatsim_only = snd (controllers_of m pid)\<rparr>"

definition station_coverage :: "client_manager \<Rightarrow> station_id \<Rightarrow> station_coverage_info option" where
  "station_coverage m station_id =
     (case hm_get (online_stations m) station_id of
        None \<Rightarrow> None
      | Some pid \<Rightarrow> Some (station_coverage_of m station_id pid))"

definition coverage_snapshot :: "client_manager \<Rightarrow> position_coverage_info list \<times> station_coverage_info list" where
  "coverage_snapshot m =
     (sort_key pcov_position_id
        (map (\<lambda>(pid, cids). \<lparr>pcov_position_id = pid, pcov_controller_ids = cids, pcov_vatsim_only = False\<rparr>) (online_positions m) @
         map (\<lambda>(pid, cids). \<lparr>pcov_position_id = pid, pcov_controller_ids = cids, pcov_vatsim_only = True\<rparr>) (vatsim_only_positions m)),
      sort_key scov_station_id (map (\<lambda>(sid, pid). station_coverage_of m sid pid) (online_stations m)))"

definition pending_disconnect_count :: "client_manager \<Rightarrow> nat" where
  "pending_disconnect_count m = length (filter sess_pending_disconnect (hm_values (clients m)))"

section \<open>Station changes\<close>

fun apply_station_change :: "station_change \<Rightarrow> (station_id, position_id) hash_map \<Rightarrow> (station_id, position_id) hash_map" where
  "apply_station_change (Online s p) m = hm_insert s p m"
| "apply_station_change (Offline s) m = hm_remove s m"
| "apply_station_change (Handoff s _ p) m = hm_insert s p m"

definition update_online_stations :: "station_change list \<Rightarrow> client_manager \<Rightarrow> client_manager" where
  "update_online_stations changes m =
     (if changes = [] then m
      else m\<lparr>online_stations := fold apply_station_change changes (online_stations m)\<rparr>)"

fun visible_change :: "position_id set \<Rightarrow> position_id set \<Rightarrow> station_change \<Rightarrow> station_change option" where
  "visible_change from_online to_online (Online s p) = (if p \<in> to_online then Some (Online s p) else None)"
| "visible_change from_online to_online (Handoff s p q) =
     (case (p \<in> from_online, q \<in> to_online) of
        (True, True) \<Rightarrow> Some (Handoff s p q)
      | (True, False) \<Rightarrow> Some (Offline s)
      | (False, True) \<Rightarrow> Some (Online s q)
      | (False, False) \<Rightarrow> None)"
| "visible_change from_online to_online (Offline s) = Some (Offline s)"

definition client_visible_changes ::
  "station_change list \<Rightarrow> position_id set \<Rightarrow> position_id set \<Rightarrow> station_change list" where
  "client_visible_changes changes from_online to_online = List.map_filter (visible_change from_online to_online) changes"

definition compute_station_diff ::
  "(station_id, position_id) hash_map \<Rightarrow> (station_id, position_id) hash_map \<Rightarrow> station_change list" where
  "compute_station_diff old new =
     sort (List.map_filter (\<lambda>(station_id, old_pos_id).
             case hm_get new station_id of
               None \<Rightarrow> Some (Offline station_id)
             | Some new_pos_id \<Rightarrow>
                 if new_pos_id \<noteq> old_pos_id then Some (Handoff station_id old_pos_id new_pos_id) else None) old @
           List.map_filter (\<lambda>(station_id, new_pos_id).
             if \<not> hm_contains_key station_id old then Some (Online station_id new_pos_id) else None) new)"

text \<open>The changes one profile sees, and the fan-out with its per-profile cache.\<close>

definition filter_changes :: "network \<Rightarrow> profile_id active_profile \<Rightarrow> station_change list \<Rightarrow> station_change list" where
  "filter_changes net profile changes =
     (case relevant_stations_of net profile of
        AllStations \<Rightarrow> changes
      | Subset ids \<Rightarrow> if ids = [] then [] else filter (\<lambda>ch. station_change_station_id ch \<in> set ids) changes
      | NoStations \<Rightarrow> [])"

definition broadcast_step ::
  "network \<Rightarrow> station_change list \<Rightarrow> client_session
    \<Rightarrow> (profile_id active_profile, station_change list) hash_map \<times> outgoing list
    \<Rightarrow> (profile_id active_profile, station_change list) hash_map \<times> outgoing list" where
  "broadcast_step net changes client = (\<lambda>(cache, out).
     let profile = sess_active_profile client;
         (cache, changes_to_send) =
           (case hm_get cache profile of
              Some cached \<Rightarrow> (cache, cached)
            | None \<Rightarrow>
                (let filtered = filter_changes net profile changes
                 in (hm_insert profile filtered cache, filtered)))
     in (cache, if changes_to_send = [] then out
                else out @ [Direct (sess_id client) (StationChanges changes_to_send)]))"

definition broadcast_station_changes :: "station_change list \<Rightarrow> client_manager \<Rightarrow> outgoing list" where
  "broadcast_station_changes changes m =
     (if changes = [] then []
      else snd (fold (broadcast_step (cm_network m) changes) (hm_values (clients m)) ([], [])))"

section \<open>Positions going online and offline\<close>

definition occupy_position :: "position_id \<Rightarrow> client_id \<Rightarrow> client_manager \<Rightarrow> client_manager \<times> station_change list" where
  "occupy_position position_id client_id m =
     (case hm_get (online_positions m) position_id of
        Some (cid # cids) \<Rightarrow>
          (m\<lparr>online_positions := hm_insert position_id (hs_insert client_id (cid # cids)) (online_positions m)\<rparr>, [])
      | _ \<Rightarrow>
          if hm_contains_key position_id (vatsim_only_positions m)
          then
            (m\<lparr>vatsim_only_positions := hm_remove position_id (vatsim_only_positions m),
               online_positions := hm_insert position_id [client_id] (online_positions m)\<rparr>,
             map (\<lambda>(station_id, _). Online station_id position_id)
               (filter (\<lambda>(_, controlling_pos). controlling_pos = position_id) (online_stations m)))
          else
            (let all_changes = coverage_changes (cm_network m) None (Some position_id) (all_positions m);
                 m = m\<lparr>online_positions := hm_insert position_id [client_id] (online_positions m)\<rparr>;
                 m = update_online_stations all_changes m;
                 pos_keys = set (hm_keys (online_positions m))
             in (m, client_visible_changes all_changes pos_keys pos_keys)))"

definition add_client ::
  "instant \<Rightarrow> client_info \<Rightarrow> profile_id active_profile \<Rightarrow> client_manager
    \<Rightarrow> client_manager \<times> (client_manager_error + client_session) \<times> outgoing list" where
  "add_client now info profile m =
     (if hm_contains_key (info_id info) (clients m)
      then (m, Inl (DuplicateClient (client_id_str (info_id info))), [])
      else
        (let client = client_session_new now info profile;
             m = m\<lparr>clients := hm_insert (info_id info) client (clients m)\<rparr>;
             (m, changes) =
               (case sess_position_id client of
                  Some position_id \<Rightarrow> occupy_position position_id (info_id info) m
                | None \<Rightarrow> (m, []))
         in (m, Inr client, Broadcast (ClientConnected info) # broadcast_station_changes changes m)))"

definition rebuild_vatsim_only ::
  "network \<Rightarrow> (client_id, controller_info) hash_map \<Rightarrow> client_id set \<Rightarrow> position_id set
    \<Rightarrow> (position_id, client_id hash_set) hash_map" where
  "rebuild_vatsim_only net controllers vacs_client_ids online =
     fold (\<lambda>(cid, controller) new_vatsim_only.
         if ctl_facility_type controller = FacilityUnknown \<or> cid \<in> vacs_client_ids then new_vatsim_only
         else case find_positions net (ctl_callsign controller) (ctl_frequency controller) (ctl_facility_type controller) of
                [position] \<Rightarrow>
                  if pos_id position \<notin> online
                  then hm_insert (pos_id position)
                         (hs_insert cid (case hm_get new_vatsim_only (pos_id position) of Some cids \<Rightarrow> cids | None \<Rightarrow> []))
                         new_vatsim_only
                  else new_vatsim_only
              | _ \<Rightarrow> new_vatsim_only)
       controllers []"

text \<open>
  The position of a removed client. The argument \<open>feed\<close> is the answer of the data feed, which
  the source fetches only when the client is the last one on the position.
\<close>

definition vacate_position ::
  "controller_info list option \<Rightarrow> position_id \<Rightarrow> client_id \<Rightarrow> client_manager \<Rightarrow> client_manager \<times> station_change list" where
  "vacate_position feed position_id client_id m =
     (case hm_get (online_positions m) position_id of
        None \<Rightarrow> (m, [])
      | Some cids \<Rightarrow>
          if length cids = 1
          then
            (let vatsim_cids =
               (case feed of
                  Some controllers \<Rightarrow>
                    hm_get (rebuild_vatsim_only (cm_network m) (index_by_cid controllers) (set (hm_keys (clients m)))
                              (set (hm_keys (hm_remove position_id (online_positions m)))))
                      position_id
                | None \<Rightarrow> None)
             in case vatsim_cids of
                  Some cids \<Rightarrow>
                    (m\<lparr>vatsim_only_positions := hm_insert position_id cids (vatsim_only_positions m),
                       online_positions := hm_remove position_id (online_positions m)\<rparr>,
                     map (\<lambda>(station_id, _). Offline station_id)
                       (filter (\<lambda>(_, controlling_pos). controlling_pos = position_id) (online_stations m)))
                | None \<Rightarrow>
                    (let before_all = all_positions m;
                         after_all = hs_remove position_id before_all;
                         all_changes = coverage_diff (cm_network m) before_all after_all;
                         m = update_online_stations all_changes m;
                         pos_keys = set (hm_keys (online_positions m));
                         changes = client_visible_changes all_changes pos_keys pos_keys
                     in (m\<lparr>online_positions := hm_remove position_id (online_positions m)\<rparr>, changes)))
          else
            (m\<lparr>online_positions := hm_insert position_id (hs_remove client_id cids) (online_positions m)\<rparr>, []))"

definition remove_client ::
  "controller_info list option \<Rightarrow> client_id \<Rightarrow> disconnect_reason option \<Rightarrow> client_manager \<Rightarrow> client_manager \<times> outgoing list" where
  "remove_client feed client_id disconnect_reason m =
     (case hm_get (clients m) client_id of
        None \<Rightarrow> (m, [])
      | Some client \<Rightarrow>
          (let m = m\<lparr>clients := hm_remove client_id (clients m)\<rparr>;
               (m, changes) =
                 (case sess_position_id client of
                    Some position_id \<Rightarrow> vacate_position feed position_id client_id m
                  | None \<Rightarrow> (m, []));
               out = [Shutdown client_id disconnect_reason, Broadcast (ClientDisconnected client_id)]
           in if clients m = []
              then (m\<lparr>vatsim_only_positions := [], online_stations := []\<rparr>, out)
              else (m, out @ broadcast_station_changes changes m)))"

end
