(* ===== verification/ClientSync.thy ===== *)
theory ClientSync
  imports Clients
begin

text \<open>
  The two bulk operations of \<^verbatim>\<open>vacs-server/src/state/clients/manager.rs\<close>: replacing the
  network after a dataset reload, and synchronising the clients and their positions with the VATSIM
  data feed. Each is one step; the messages they send are returned in order. The current
  time is an argument.
\<close>

section \<open>Replacing the network\<close>

type_synonym session_update = "client_session \<times> session_info"

definition session_info_for :: "u32 \<Rightarrow> client_session \<Rightarrow> session_profile \<Rightarrow> station_id list \<Rightarrow> session_info" where
  "session_info_for max_conf_size session profile sources =
     \<lparr>ses_client = sess_client_info session, ses_profile = profile, ses_default_call_sources = sources,
      ses_max_conf_size = Some max_conf_size\<rparr>"

text \<open>A client of a position that the new network no longer has.\<close>

definition clear_position ::
  "network \<Rightarrow> u32 \<Rightarrow> client_id \<Rightarrow> (client_id, client_session) hash_map \<times> session_update list
    \<Rightarrow> (client_id, client_session) hash_map \<times> session_update list" where
  "clear_position net limit client_id = (\<lambda>(cs, updates).
     case hm_get cs client_id of
       None \<Rightarrow> (cs, updates)
     | Some session \<Rightarrow>
         (let session = set_position_id None session;
              (session, session_profile) = update_active_profile None net session
          in (hm_insert client_id session cs, updates @ [(session, session_info_for limit session session_profile [])])))"

definition remove_stale_position ::
  "network \<Rightarrow> u32 \<Rightarrow> position_id
    \<Rightarrow> (position_id, client_id hash_set) hash_map \<times> (client_id, client_session) hash_map \<times> session_update list
    \<Rightarrow> (position_id, client_id hash_set) hash_map \<times> (client_id, client_session) hash_map \<times> session_update list" where
  "remove_stale_position net limit stale = (\<lambda>(ops, cs, updates).
     case hm_get ops stale of
       None \<Rightarrow> (ops, cs, updates)
     | Some client_ids \<Rightarrow> (hm_remove stale ops, fold (clear_position net limit) client_ids (cs, updates)))"

text \<open>A client of a surviving position: the resolved profile is always sent again.\<close>

definition refresh_client ::
  "network \<Rightarrow> u32 \<Rightarrow> profile_id option \<Rightarrow> station_id list \<Rightarrow> client_id
    \<Rightarrow> (client_id, client_session) hash_map \<times> session_update list
    \<Rightarrow> (client_id, client_session) hash_map \<times> session_update list" where
  "refresh_client net limit new_profile_id sources client_id = (\<lambda>(cs, updates).
     case hm_get cs client_id of
       None \<Rightarrow> (cs, updates)
     | Some session \<Rightarrow>
         (let (session, tracked) = update_active_profile new_profile_id net session;
              session_profile =
                (case tracked of
                   Changed _ \<Rightarrow> Some tracked
                 | Unchanged \<Rightarrow>
                     (case sess_active_profile session of
                        Specific profile_id \<Rightarrow>
                          (case get_profile net profile_id of
                             Some profile \<Rightarrow> Some (Changed (Specific (protocol_profile_of profile)))
                           | None \<Rightarrow> Some (Changed NoProfile))
                      | _ \<Rightarrow> None))
          in (hm_insert client_id session cs,
              case session_profile of
                Some p \<Rightarrow> updates @ [(session, session_info_for limit session p sources)]
              | None \<Rightarrow> updates)))"

definition refresh_position ::
  "network \<Rightarrow> u32 \<Rightarrow> position_id \<times> client_id hash_set
    \<Rightarrow> (client_id, client_session) hash_map \<times> session_update list
    \<Rightarrow> (client_id, client_session) hash_map \<times> session_update list" where
  "refresh_position net limit = (\<lambda>(position_id, client_ids).
     let (new_profile_id, sources) =
       (case get_position net position_id of
          Some p \<Rightarrow> (pos_profile_id p, pos_default_call_sources p)
        | None \<Rightarrow> (None, []))
     in fold (refresh_client net limit new_profile_id sources) client_ids)"

definition covered_station_map :: "network \<Rightarrow> position_id hash_set \<Rightarrow> (station_id, position_id) hash_map" where
  "covered_station_map net online =
     fold (\<lambda>covered m.
         case controlling_position net (st_id (cov_station covered)) (set online) of
           Some controlling_pos \<Rightarrow> hm_insert (st_id (cov_station covered)) (pos_id controlling_pos) m
         | None \<Rightarrow> m)
       (covered_stations net None (set online)) []"

definition replace_network :: "network \<Rightarrow> client_manager \<Rightarrow> client_manager \<times> outgoing list" where
  "replace_network net m =
     (let old_online_stations = online_stations m;
          stale_positions = filter (\<lambda>p. get_position net p = None) (hm_keys (online_positions m));
          (ops, cs, updates) =
            fold (remove_stale_position net (conf_size_limit m)) stale_positions (online_positions m, clients m, []);
          stale_vatsim_only = filter (\<lambda>p. get_position net p = None) (hm_keys (vatsim_only_positions m));
          vatsim_only = fold hm_remove stale_vatsim_only (vatsim_only_positions m);
          (cs, updates) = fold (refresh_position net (conf_size_limit m)) ops (cs, updates);
          new_online_stations = covered_station_map net (hs_collect (hm_keys ops @ hm_keys vatsim_only));
          all_changes = compute_station_diff old_online_stations new_online_stations;
          m = m\<lparr>cm_network := net, clients := cs, online_positions := ops, vatsim_only_positions := vatsim_only\<rparr>;
          m = update_online_stations all_changes m;
          pos_keys = set (hm_keys ops);
          station_changes = client_visible_changes all_changes pos_keys pos_keys
      in (m, map (\<lambda>(session, info). Direct (sess_id session) (SessionInfo info)) updates @
             broadcast_station_changes station_changes m))"

section \<open>Synchronising with the data feed\<close>

record client_position_sync =
  disconnected_clients :: "(client_id \<times> disconnect_reason) list"
  session_info_updates :: "session_update list"
  station_list_updates :: "(client_session \<times> profile_id active_profile \<times> position_id option) list"
  client_info_updates :: "server_message list"
  self_handoff_clients :: "(client_session \<times> position_id) list"
  departure_handoff_clients :: "(client_session \<times> position_id) list"
  positions_changed :: bool
  marked_pending :: nat

definition client_position_sync_new :: client_position_sync where
  "client_position_sync_new =
     \<lparr>disconnected_clients = [], session_info_updates = [], station_list_updates = [], client_info_updates = [],
      self_handoff_clients = [], departure_handoff_clients = [], positions_changed = False, marked_pending = 0\<rparr>"

definition disconnect_or_mark_pending ::
  "instant \<Rightarrow> duration \<Rightarrow> client_id \<Rightarrow> client_session \<Rightarrow> client_position_sync \<Rightarrow> client_session \<times> client_position_sync" where
  "disconnect_or_mark_pending now grace_period cid session result =
     (if is_within_position_grace_period now grace_period session then (session, result)
      else
        (let (session, pending) = take_pending_disconnect session
         in if pending
            then (session, result\<lparr>disconnected_clients := disconnected_clients result @ [(cid, NoActiveVatsimConnection)]\<rparr>)
            else (mark_pending_disconnect session, result\<lparr>marked_pending := marked_pending result + 1\<rparr>)))"

definition leave_position ::
  "client_id \<Rightarrow> client_session \<Rightarrow> position_id
    \<Rightarrow> (position_id, client_id hash_set) hash_map \<times> client_position_sync
    \<Rightarrow> (position_id, client_id hash_set) hash_map \<times> client_position_sync" where
  "leave_position cid session old = (\<lambda>(ops, result).
     case hm_get ops old of
       None \<Rightarrow> (ops, result)
     | Some cids \<Rightarrow>
         if length cids \<le> 1
         then (hm_remove old ops, result\<lparr>positions_changed := True\<rparr>)
         else (hm_insert old (hs_remove cid cids) ops,
               result\<lparr>departure_handoff_clients := departure_handoff_clients result @ [(session, old)]\<rparr>))"

definition enter_position ::
  "client_id \<Rightarrow> client_session \<Rightarrow> position_id
    \<Rightarrow> (position_id, client_id hash_set) hash_map \<times> client_position_sync
    \<Rightarrow> (position_id, client_id hash_set) hash_map \<times> client_position_sync" where
  "enter_position cid session new = (\<lambda>(ops, result).
     let before = (case hm_get ops new of Some cids \<Rightarrow> cids | None \<Rightarrow> []);
         cids = hs_insert cid before;
         result = (if cid \<notin> set before \<and> length cids = 1 then result\<lparr>positions_changed := True\<rparr> else result);
         result = (if length cids > 1
                   then result\<lparr>self_handoff_clients := self_handoff_clients result @ [(session, new)]\<rparr> else result)
     in (hm_insert new cids ops, result))"

definition change_position ::
  "network \<Rightarrow> u32 \<Rightarrow> client_id \<Rightarrow> position option \<Rightarrow> client_session
    \<Rightarrow> (position_id, client_id hash_set) hash_map \<Rightarrow> client_position_sync
    \<Rightarrow> client_session \<times> (position_id, client_id hash_set) hash_map \<times> client_position_sync" where
  "change_position net limit cid new_position session ops result =
     (let old_position_id = sess_position_id session;
          new_position_id = map_option pos_id new_position;
          sources = (case new_position of Some p \<Rightarrow> pos_default_call_sources p | None \<Rightarrow> []);
          session = set_position_id new_position_id session;
          (ops, result) = (case old_position_id of Some old \<Rightarrow> leave_position cid session old (ops, result) | None \<Rightarrow> (ops, result));
          (ops, result) = (case new_position_id of Some new \<Rightarrow> enter_position cid session new (ops, result) | None \<Rightarrow> (ops, result));
          (session, session_profile) = update_active_profile (Option.bind new_position pos_profile_id) net session;
          result = result\<lparr>station_list_updates :=
            station_list_updates result @ [(session, sess_active_profile session, new_position_id)]\<rparr>;
          result = result\<lparr>session_info_updates :=
            session_info_updates result @ [(session, session_info_for limit session session_profile sources)]\<rparr>
      in (session, ops, result))"

text \<open>One client against the feed: \<^verbatim>\<open>continue\<close> ends its turn.\<close>

definition sync_client ::
  "instant \<Rightarrow> client_manager \<Rightarrow> (client_id, controller_info) hash_map \<Rightarrow> bool \<Rightarrow> client_id \<Rightarrow> client_session
    \<Rightarrow> (position_id, client_id hash_set) hash_map \<Rightarrow> client_position_sync
    \<Rightarrow> client_session \<times> (position_id, client_id hash_set) hash_map \<times> client_position_sync" where
  "sync_client now m controllers require_active_connection cid session ops result =
     (let missing =
        (if require_active_connection
         then (let (session, result) = disconnect_or_mark_pending now (position_grace_period m) cid session result
               in (session, ops, result))
         else (session, ops, result))
      in case hm_get controllers cid of
           None \<Rightarrow> missing
         | Some controller \<Rightarrow>
             if ctl_facility_type controller = FacilityUnknown then missing
             else
               (let session = fst (take_pending_disconnect session)
                in if is_within_position_grace_period now (position_grace_period m) session then (session, ops, result)
                   else
                     (let (session, updated) = update_client_info controller session
                      in if \<not> updated then (session, ops, result)
                         else
                           (let old_position_id = sess_position_id session;
                                new_positions = find_positions (cm_network m) (ctl_callsign controller)
                                                  (ctl_frequency controller) (ctl_facility_type controller)
                            in if length new_positions > 1
                               then (session, ops,
                                     result\<lparr>disconnected_clients := disconnected_clients result @
                                       [(cid, AmbiguousVatsimPosition (map pos_id new_positions))]\<rparr>)
                               else
                                 (let new_position = (if length new_positions = 1 then Some (hd new_positions) else None);
                                      (session, ops, result) =
                                        (if old_position_id \<noteq> map_option pos_id new_position
                                         then change_position (cm_network m) (conf_size_limit m) cid new_position session ops result
                                         else (session, ops, result))
                                  in (session, ops,
                                      result\<lparr>client_info_updates :=
                                        client_info_updates result @ [ClientInfo (sess_client_info session)]\<rparr>))))))"

definition sync_step ::
  "instant \<Rightarrow> client_manager \<Rightarrow> (client_id, controller_info) hash_map \<Rightarrow> bool \<Rightarrow> client_id \<times> client_session
    \<Rightarrow> (client_id, client_session) hash_map \<times> (position_id, client_id hash_set) hash_map \<times> client_position_sync
    \<Rightarrow> (client_id, client_session) hash_map \<times> (position_id, client_id hash_set) hash_map \<times> client_position_sync" where
  "sync_step now m controllers require_active_connection = (\<lambda>(cid, session) (cs, ops, result).
     let (session, ops, result) = sync_client now m controllers require_active_connection cid session ops result
     in (cs @ [(cid, session)], ops, result))"

definition sync_client_positions ::
  "instant \<Rightarrow> client_manager \<Rightarrow> (client_id, controller_info) hash_map \<Rightarrow> bool
    \<Rightarrow> (client_id, client_session) hash_map \<times> (position_id, client_id hash_set) hash_map \<times> client_position_sync" where
  "sync_client_positions now m controllers require_active_connection =
     fold (sync_step now m controllers require_active_connection) (clients m)
       ([], online_positions m, client_position_sync_new)"

definition compute_self_handoffs ::
  "network \<Rightarrow> (client_session \<times> position_id) list \<Rightarrow> station_change list \<Rightarrow> position_id set
    \<Rightarrow> (client_session \<times> station_change list) list" where
  "compute_self_handoffs net handoff_clients global_changes all_online =
     List.map_filter (\<lambda>(session, new_pos_id).
         case get_position net new_pos_id of
           None \<Rightarrow> None
         | Some position \<Rightarrow>
             (let self_handoffs =
                sort (List.map_filter (\<lambda>station_id.
                    case controlling_position net station_id all_online of
                      None \<Rightarrow> None
                    | Some controller \<Rightarrow>
                        if pos_id controller = new_pos_id then Some (Handoff station_id new_pos_id new_pos_id) else None)
                  (filter (\<lambda>sid. sid \<notin> set (map station_change_station_id global_changes)) (pos_controlled_stations position)))
              in if self_handoffs = [] then None else Some (session, self_handoffs)))
       handoff_clients"

text \<open>Stations whose position keeps covering them but moves between vacs and VATSIM-only coverage.\<close>

definition callability_changes ::
  "(station_id, position_id) hash_map \<Rightarrow> station_id set \<Rightarrow> position_id set \<Rightarrow> position_id set \<Rightarrow> station_change list" where
  "callability_changes stations changed_station_ids was_online is_online =
     List.map_filter (\<lambda>(station_id, position_id).
         if station_id \<in> changed_station_ids then None
         else case (position_id \<in> was_online, position_id \<in> is_online) of
                (True, False) \<Rightarrow> Some (Offline station_id)
              | (False, True) \<Rightarrow> Some (Online station_id position_id)
              | _ \<Rightarrow> None)
       stations"

definition apply_position_changes ::
  "position_id hash_set \<Rightarrow> position_id set \<Rightarrow> client_manager \<Rightarrow> client_manager \<times> station_change list" where
  "apply_position_changes start_all start_online_keys m =
     (let end_all = all_positions m;
          all_changes = coverage_diff (cm_network m) start_all end_all;
          m = update_online_stations all_changes m;
          to_online = set (hm_keys (online_positions m))
      in (m, client_visible_changes all_changes start_online_keys to_online @
             callability_changes (online_stations m) (set (map station_change_station_id all_changes)) start_online_keys to_online))"

text \<open>Equality of two \<^verbatim>\<open>HashMap<PositionId, HashSet<ClientId>>\<close>.\<close>

definition hm_same :: "('k, 'a hash_set) hash_map \<Rightarrow> ('k, 'a hash_set) hash_map \<Rightarrow> bool" where
  "hm_same a b \<longleftrightarrow>
     list_all (\<lambda>k. case (hm_get a k, hm_get b k) of (Some x, Some y) \<Rightarrow> set x = set y | _ \<Rightarrow> False) (hm_keys a @ hm_keys b)"

definition sync_vatsim_state ::
  "instant \<Rightarrow> (client_id, controller_info) hash_map \<Rightarrow> bool \<Rightarrow> client_manager
    \<Rightarrow> client_manager \<times> outgoing list \<times> (client_id \<times> disconnect_reason) list" where
  "sync_vatsim_state now controllers require_active_connection m =
     (let start_all = all_positions m;
          start_online_keys = set (hm_keys (online_positions m));
          (cs, ops, sync) = sync_client_positions now m controllers require_active_connection;
          new_vatsim_only = rebuild_vatsim_only (cm_network m) controllers (set (hm_keys cs)) (set (hm_keys ops));
          vatsim_changed = (\<not> hm_same (vatsim_only_positions m) new_vatsim_only);
          m = m\<lparr>clients := cs, online_positions := ops,
                vatsim_only_positions := (if vatsim_changed then new_vatsim_only else vatsim_only_positions m)\<rparr>;
          (m, global_changes) =
            (if positions_changed sync \<or> vatsim_changed then apply_position_changes start_all start_online_keys m else (m, []));
          per_client_changes =
            compute_self_handoffs (cm_network m) (self_handoff_clients sync @ departure_handoff_clients sync)
              global_changes (set (all_positions m))
      in (m,
          map (\<lambda>(session, info). Direct (sess_id session) (SessionInfo info)) (session_info_updates sync) @
          map (\<lambda>(session, profile, position_id). Direct (sess_id session) (StationList (list_stations m profile position_id)))
            (station_list_updates sync) @
          map (\<lambda>(session, changes). Direct (sess_id session) (StationChanges changes)) per_client_changes @
          map Broadcast (client_info_updates sync) @
          broadcast_station_changes global_changes m,
          disconnected_clients sync))"

end
