(* ===== verification/ClientCoverage.thy ===== *)
theory ClientCoverage
  imports ClientSync
begin

text \<open>
  Correctness of the client manager. \<open>coverage_inv\<close> relates the four maps: the online positions
  are exactly the positions of the connected clients with their clients, VATSIM-only positions are
  other positions, and the online stations are exactly the stations the network assigns to some
  online position, under the position that controls them. Every operation keeps it. The station
  changes an operation sends turn the callable stations before it into the callable stations after
  it.
\<close>

section \<open>Station differences\<close>

text \<open>The controlling position of a station after a change.\<close>

fun new_controller :: "station_change \<Rightarrow> position_id option" where
  "new_controller (Online s p) = Some p"
| "new_controller (Offline s) = None"
| "new_controller (Handoff s p q) = Some q"

text \<open>A change that fits the controlling positions before and after.\<close>

fun change_fits :: "(station_id \<Rightarrow> position_id option) \<Rightarrow> (station_id \<Rightarrow> position_id option) \<Rightarrow> station_change \<Rightarrow> bool" where
  "change_fits before after (Online s p) \<longleftrightarrow> before s = None \<and> after s = Some p"
| "change_fits before after (Offline s) \<longleftrightarrow> before s \<noteq> None \<and> after s = None"
| "change_fits before after (Handoff s p q) \<longleftrightarrow> before s = Some p \<and> after s = Some q \<and> p \<noteq> q"

definition is_station_diff ::
  "(station_id \<Rightarrow> position_id option) \<Rightarrow> (station_id \<Rightarrow> position_id option) \<Rightarrow> station_change list \<Rightarrow> bool" where
  "is_station_diff before after chs \<longleftrightarrow>
     (\<forall>ch \<in> set chs. change_fits before after ch) \<and>
     (\<forall>s. before s \<noteq> after s \<longrightarrow> s \<in> station_change_station_id ` set chs)"

text \<open>The stations a client can call: those whose controlling position has a client.\<close>

definition callable :: "(station_id \<Rightarrow> position_id option) \<Rightarrow> position_id set \<Rightarrow> station_id \<Rightarrow> position_id option" where
  "callable ctl online s = (case ctl s of Some p \<Rightarrow> if p \<in> online then Some p else None | None \<Rightarrow> None)"

lemma hm_get_apply_station_change:
  "hm_get (apply_station_change ch m) = (hm_get m)(station_change_station_id ch := new_controller ch)"
  by (cases ch) auto

lemma hm_get_apply_station_changes:
  assumes "\<And>ch. ch \<in> set chs \<Longrightarrow> station_change_station_id ch = s \<Longrightarrow> new_controller ch = v"
  shows "hm_get (fold apply_station_change chs m) s =
    (if s \<in> station_change_station_id ` set chs then v else hm_get m s)"
  using assms
proof (induction chs arbitrary: m)
  case (Cons ch chs)
  then have "hm_get (fold apply_station_change chs (apply_station_change ch m)) s =
    (if s \<in> station_change_station_id ` set chs then v else hm_get (apply_station_change ch m) s)" by simp
  with Cons.prems [of ch] show ?case by (auto simp: hm_get_apply_station_change)
qed simp

lemma hm_ok_apply_station_changes: "hm_ok m \<Longrightarrow> hm_ok (fold apply_station_change chs m)"
proof (induction chs arbitrary: m)
  case (Cons ch chs)
  then have "hm_ok (apply_station_change ch m)" by (cases ch) auto
  with Cons.IH show ?case by simp
qed simp

lemma change_fits_new: "change_fits before after ch \<Longrightarrow> new_controller ch = after (station_change_station_id ch)"
  by (cases ch) auto

lemma apply_station_diff:
  assumes "is_station_diff before after chs" "hm_get m = before"
  shows "hm_get (fold apply_station_change chs m) = after"
proof
  fix s
  have "new_controller ch = after s" if "ch \<in> set chs" "station_change_station_id ch = s" for ch
    using assms(1) that change_fits_new unfolding is_station_diff_def by blast
  from hm_get_apply_station_changes [OF this] assms show "hm_get (fold apply_station_change chs m) s = after s"
    by (auto simp: is_station_diff_def)
qed

lemma visible_change_fits:
  assumes "change_fits before after ch"
  shows "case visible_change F T ch of
      Some ch' \<Rightarrow> station_change_station_id ch' = station_change_station_id ch \<and>
        new_controller ch' = callable after T (station_change_station_id ch)
    | None \<Rightarrow> callable before F (station_change_station_id ch) = None \<and>
        callable after T (station_change_station_id ch) = None"
  using assms by (cases ch) (auto simp: callable_def split: bool.splits)

text \<open>
  The visible changes of a difference, applied to the callable stations before, give the callable
  stations after on the stations that changed, and nothing else changes.
\<close>

lemma apply_visible_changes:
  assumes d: "is_station_diff before after chs" and v: "hm_get view = callable before F"
  shows "hm_get (fold apply_station_change (client_visible_changes chs F T) view) s =
    (if s \<in> station_change_station_id ` set chs then callable after T s else callable before F s)"
proof -
  let ?vis = "client_visible_changes chs F T"
  have mem: "ch' \<in> set ?vis \<longleftrightarrow> (\<exists>ch \<in> set chs. visible_change F T ch = Some ch')" for ch'
    by (simp add: client_visible_changes_def set_map_filter)
  have fits: "change_fits before after ch" if "ch \<in> set chs" for ch
    using d that by (simp add: is_station_diff_def)
  have new: "new_controller ch' = callable after T s \<and> s \<in> station_change_station_id ` set chs"
    if ch': "ch' \<in> set ?vis" "station_change_station_id ch' = s" for ch'
  proof -
    from ch'(1) obtain ch where ch: "ch \<in> set chs" "visible_change F T ch = Some ch'" unfolding mem by blast
    with visible_change_fits [OF fits [OF ch(1)], of F T] ch' show ?thesis by auto
  qed
  have lost: "callable before F s = None \<and> callable after T s = None"
    if s: "s \<in> station_change_station_id ` set chs" "s \<notin> station_change_station_id ` set ?vis"
  proof -
    from s(1) obtain ch where ch: "ch \<in> set chs" "station_change_station_id ch = s" by blast
    have "visible_change F T ch = None"
    proof (cases "visible_change F T ch")
      case (Some ch')
      then have "ch' \<in> set ?vis" unfolding mem using ch(1) by blast
      moreover have "station_change_station_id ch' = s"
        using visible_change_fits [OF fits [OF ch(1)], of F T] Some ch(2) by simp
      ultimately show ?thesis using s(2) by blast
    qed
    with visible_change_fits [OF fits [OF ch(1)], of F T] ch(2) show ?thesis by simp
  qed
  have "hm_get (fold apply_station_change ?vis view) s =
    (if s \<in> station_change_station_id ` set ?vis then callable after T s else hm_get view s)"
    using new by (intro hm_get_apply_station_changes) blast
  moreover have "s \<in> station_change_station_id ` set chs" if "s \<in> station_change_station_id ` set ?vis"
    using that new by blast
  ultimately show ?thesis using lost v by auto
qed

section \<open>The differences the manager computes\<close>

abbreviation station_map :: "network \<Rightarrow> position_id set \<Rightarrow> station_id \<Rightarrow> position_id option" where
  "station_map net A s \<equiv> map_option pos_id (controlling_position net s A)"

lemma station_change_between_fits:
  "station_change_between s b a = Some ch \<Longrightarrow> before s = map_option pos_id b \<Longrightarrow> after s = map_option pos_id a \<Longrightarrow>
     station_change_station_id ch = s \<and> change_fits before after ch"
  by (cases b; cases a) (auto simp: station_change_between_def split: if_splits)

lemma station_change_between_None:
  "map_option pos_id b \<noteq> map_option pos_id a \<Longrightarrow> \<exists>ch. station_change_between s b a = Some ch"
  by (cases b; cases a) (auto simp: station_change_between_def)

lemma coverage_diff_is_diff:
  assumes wf: "network_wf net"
  shows "is_station_diff (station_map net (set A)) (station_map net (set B)) (coverage_diff net A B)"
  unfolding is_station_diff_def
proof (intro conjI ballI allI impI)
  fix ch assume "ch \<in> set (coverage_diff net A B)"
  then show "change_fits (station_map net (set A)) (station_map net (set B)) ch"
    unfolding coverage_diff_mem [OF wf] by (elim exE conjE) (rule conjunct2, erule station_change_between_fits, simp_all)
next
  fix s assume ne: "station_map net (set A) s \<noteq> station_map net (set B) s"
  then obtain ch where ch: "station_change_between s (controlling_position net s (set A)) (controlling_position net s (set B)) = Some ch"
    using station_change_between_None by blast
  from ne obtain station where "hm_get (net_stations net) s = Some station"
    by (auto simp: controlling_position_def split: option.splits)
  with ch have "ch \<in> set (coverage_diff net A B)" unfolding coverage_diff_mem [OF wf] by blast
  moreover have "station_change_station_id ch = s"
    using station_change_between_fits [OF ch, of "station_map net (set A)" "station_map net (set B)"] by simp
  ultimately show "s \<in> station_change_station_id ` set (coverage_diff net A B)" by blast
qed

lemma compute_station_diff_mem:
  assumes "hm_ok old" "hm_ok new"
  shows "ch \<in> set (compute_station_diff old new) \<longleftrightarrow>
    (\<exists>s p. hm_get old s = Some p \<and>
       (case hm_get new s of None \<Rightarrow> ch = Offline s | Some q \<Rightarrow> q \<noteq> p \<and> ch = Handoff s p q)) \<or>
    (\<exists>s q. hm_get new s = Some q \<and> hm_get old s = None \<and> ch = Online s q)"
proof -
  have a: "(\<exists>x \<in> set old. (case x of (s, p) \<Rightarrow> (case hm_get new s of None \<Rightarrow> Some (Offline s)
        | Some q \<Rightarrow> if q \<noteq> p then Some (Handoff s p q) else None)) = Some ch) \<longleftrightarrow>
      (\<exists>s p. hm_get old s = Some p \<and>
         (case hm_get new s of None \<Rightarrow> ch = Offline s | Some q \<Rightarrow> q \<noteq> p \<and> ch = Handoff s p q))"
    by (auto simp: hm_get_iff [OF assms(1)] split: option.splits if_splits) force+
  have b: "(\<exists>x \<in> set new. (case x of (s, q) \<Rightarrow> if \<not> hm_contains_key s old then Some (Online s q) else None) = Some ch) \<longleftrightarrow>
      (\<exists>s q. hm_get new s = Some q \<and> hm_get old s = None \<and> ch = Online s q)"
    by (auto simp: hm_get_iff [OF assms(2)] hm_contains_key_def split: if_splits) force+
  show ?thesis unfolding compute_station_diff_def set_sort set_append set_map_filter Un_iff mem_Collect_eq a b ..
qed

lemma compute_station_diff_is_diff:
  assumes "hm_ok old" "hm_ok new"
  shows "is_station_diff (hm_get old) (hm_get new) (compute_station_diff old new)"
  unfolding is_station_diff_def
proof (intro conjI ballI allI impI)
  fix ch assume "ch \<in> set (compute_station_diff old new)"
  then show "change_fits (hm_get old) (hm_get new) ch"
    unfolding compute_station_diff_mem [OF assms] by (auto split: option.splits)
next
  fix s assume ne: "hm_get old s \<noteq> hm_get new s"
  define ch where "ch = (case hm_get old s of None \<Rightarrow> Online s (the (hm_get new s))
    | Some p \<Rightarrow> (case hm_get new s of None \<Rightarrow> Offline s | Some q \<Rightarrow> Handoff s p q))"
  have "ch \<in> set (compute_station_diff old new)"
    using ne unfolding compute_station_diff_mem [OF assms] ch_def
    by (cases "hm_get old s"; cases "hm_get new s") (auto intro!: exI [of _ s])
  moreover have "station_change_station_id ch = s" by (simp add: ch_def split: option.splits)
  ultimately show "s \<in> station_change_station_id ` set (compute_station_diff old new)" by blast
qed

section \<open>Positions of the clients\<close>

definition position_of :: "(client_id, client_session) hash_map \<Rightarrow> client_id \<Rightarrow> position_id option" where
  "position_of cs c = Option.bind (hm_get cs c) sess_position_id"

definition entry_match :: "(client_id \<Rightarrow> position_id option) \<Rightarrow> position_id \<Rightarrow> client_id hash_set option \<Rightarrow> bool" where
  "entry_match pos p e \<longleftrightarrow>
     (case e of
        None \<Rightarrow> \<forall>c. pos c \<noteq> Some p
      | Some cids \<Rightarrow> cids \<noteq> [] \<and> distinct cids \<and> set cids = {c. pos c = Some p})"

definition positions_match :: "(client_id \<Rightarrow> position_id option) \<Rightarrow> (position_id, client_id hash_set) hash_map \<Rightarrow> bool" where
  "positions_match pos ops \<longleftrightarrow> hm_ok ops \<and> (\<forall>p. entry_match pos p (hm_get ops p))"

lemma position_of_insert [simp]: "position_of (hm_insert c s cs) = (position_of cs)(c := sess_position_id s)"
  by (auto simp: position_of_def fun_eq_iff)

lemma position_of_remove [simp]: "position_of (hm_remove c cs) = (position_of cs)(c := None)"
  by (auto simp: position_of_def fun_eq_iff)

lemma entry_match_Some [simp]:
  "entry_match pos p (Some cids) \<longleftrightarrow> cids \<noteq> [] \<and> distinct cids \<and> set cids = {c. pos c = Some p}"
  by (simp add: entry_match_def)

lemma entry_match_None [simp]: "entry_match pos p None \<longleftrightarrow> (\<forall>c. pos c \<noteq> Some p)"
  by (simp add: entry_match_def)

lemma entry_match_cong: "(\<And>c. pos c = Some p \<longleftrightarrow> pos' c = Some p) \<Longrightarrow> entry_match pos p e \<longleftrightarrow> entry_match pos' p e"
  by (cases e) simp_all

lemma positions_match_ok: "positions_match pos ops \<Longrightarrow> hm_ok ops"
  by (simp add: positions_match_def)

lemma positions_match_entry: "positions_match pos ops \<Longrightarrow> entry_match pos p (hm_get ops p)"
  by (simp add: positions_match_def)

lemma positions_match_Some:
  "positions_match pos ops \<Longrightarrow> hm_get ops p = Some cids \<Longrightarrow> cids \<noteq> [] \<and> distinct cids \<and> set cids = {c. pos c = Some p}"
  by (metis positions_match_entry entry_match_Some)

lemma positions_match_None: "positions_match pos ops \<Longrightarrow> hm_get ops p = None \<Longrightarrow> pos c \<noteq> Some p"
  by (metis positions_match_entry entry_match_None)

lemma positions_match_keys:
  assumes "positions_match pos ops"
  shows "p \<in> set (hm_keys ops) \<longleftrightarrow> (\<exists>c. pos c = Some p)"
proof (cases "hm_get ops p")
  case None
  with positions_match_None [OF assms] show ?thesis by (auto simp: set_hm_keys)
next
  case (Some cids)
  with positions_match_Some [OF assms] have "{c. pos c = Some p} \<noteq> {}" by fastforce
  with Some show ?thesis by (auto simp: set_hm_keys)
qed

lemma positions_match_insert:
  assumes pm: "positions_match pos ops" and free: "pos c = None"
    and cids: "cids = hs_insert c (case hm_get ops p of Some cids \<Rightarrow> cids | None \<Rightarrow> [])"
  shows "positions_match (pos(c := Some p)) (hm_insert p cids ops)"
  unfolding positions_match_def
proof (intro conjI allI)
  show "hm_ok (hm_insert p cids ops)" using positions_match_ok [OF pm] by simp
next
  fix q
  have "entry_match (pos(c := Some p)) p (Some cids)"
  proof (cases "hm_get ops p")
    case None
    with positions_match_None [OF pm] show ?thesis by (auto simp: cids hs_insert_def)
  next
    case (Some old)
    then have "cids = hs_insert c old" by (simp add: cids)
    with positions_match_Some [OF pm Some] show ?thesis by (auto simp: hs_insert_def split: if_splits)
  qed
  moreover have "entry_match (pos(c := Some p)) q (hm_get ops q)" if "q \<noteq> p"
    using positions_match_entry [OF pm, of q] that free by (subst entry_match_cong [of _ _ pos]) auto
  ultimately show "entry_match (pos(c := Some p)) q (hm_get (hm_insert p cids ops) q)"
    by (cases "q = p") simp_all
qed

lemma positions_match_clear:
  assumes pm: "positions_match pos ops" and cs: "\<And>c q. pos' c = Some q \<longleftrightarrow> pos c = Some q \<and> q \<noteq> p"
  shows "positions_match pos' (hm_remove p ops)"
  unfolding positions_match_def
proof (intro conjI allI)
  show "hm_ok (hm_remove p ops)" using positions_match_ok [OF pm] by simp
next
  fix q
  show "entry_match pos' q (hm_get (hm_remove p ops) q)"
  proof (cases "q = p")
    case False
    then show ?thesis using positions_match_entry [OF pm, of q] cs by (subst entry_match_cong [of _ _ pos]) auto
  qed (simp add: cs)
qed

lemma singleton_cids: "distinct cids \<Longrightarrow> c \<in> set cids \<Longrightarrow> length cids \<le> 1 \<Longrightarrow> cids = [c]"
  by (cases cids) auto

lemma positions_match_leave:
  assumes pm: "positions_match pos ops" and c: "pos c = Some p" and get: "hm_get ops p = Some cids"
  shows "length cids \<le> 1 \<Longrightarrow> positions_match (pos(c := None)) (hm_remove p ops)"
    and "\<not> length cids \<le> 1 \<Longrightarrow> positions_match (pos(c := None)) (hm_insert p (hs_remove c cids) ops)"
proof -
  note cids = positions_match_Some [OF pm get]
  { assume "length cids \<le> 1"
    with cids c have "cids = [c]" by (intro singleton_cids) auto
    with cids have "{d. pos d = Some p} = {c}" by auto
    then show "positions_match (pos(c := None)) (hm_remove p ops)"
      using c by (intro positions_match_clear [OF pm]) auto }
  { assume long: "\<not> length cids \<le> 1"
    have "hs_remove c cids \<noteq> []"
    proof
      assume "hs_remove c cids = []"
      then have "set cids \<subseteq> {c}" by (simp add: hs_remove_eq_Nil)
      with cids long show False using card_mono [of "{c}" "set cids"] distinct_card [of cids] by simp
    qed
    with cids have "entry_match (pos(c := None)) p (Some (hs_remove c cids))" by auto
    moreover have "entry_match (pos(c := None)) q (hm_get ops q)" if "q \<noteq> p" for q
      using positions_match_entry [OF pm, of q] that c by (subst entry_match_cong [of _ _ pos]) auto
    ultimately show "positions_match (pos(c := None)) (hm_insert p (hs_remove c cids) ops)"
      using positions_match_ok [OF pm] unfolding positions_match_def by simp }
qed

section \<open>The invariant\<close>

text \<open>The coverage maps for given positions of the clients.\<close>

definition coverage_ok :: "(client_id \<Rightarrow> position_id option) \<Rightarrow> client_manager \<Rightarrow> bool" where
  "coverage_ok pos m \<longleftrightarrow>
     network_wf (cm_network m) \<and> hm_ok (vatsim_only_positions m) \<and> hm_ok (online_stations m) \<and>
     positions_match pos (online_positions m) \<and>
     set (hm_keys (online_positions m)) \<inter> set (hm_keys (vatsim_only_positions m)) = {} \<and>
     hm_get (online_stations m) = station_map (cm_network m) (set (all_positions m))"

definition sessions_ok :: "(client_id, client_session) hash_map \<Rightarrow> bool" where
  "sessions_ok cs \<longleftrightarrow> hm_ok cs \<and> (\<forall>c s. hm_get cs c = Some s \<longrightarrow> sess_id s = c)"

definition coverage_inv :: "client_manager \<Rightarrow> bool" where
  "coverage_inv m \<longleftrightarrow> sessions_ok (clients m) \<and> coverage_ok (position_of (clients m)) m"

lemma coverage_okI:
  assumes "network_wf (cm_network m)" "hm_ok (vatsim_only_positions m)" "hm_ok (online_stations m)"
    "positions_match pos (online_positions m)"
    "set (hm_keys (online_positions m)) \<inter> set (hm_keys (vatsim_only_positions m)) = {}"
    "hm_get (online_stations m) = station_map (cm_network m) (set (all_positions m))"
  shows "coverage_ok pos m"
  using assms unfolding coverage_ok_def by blast

lemma coverage_okD:
  assumes "coverage_ok pos m"
  shows "network_wf (cm_network m)" "hm_ok (vatsim_only_positions m)" "hm_ok (online_stations m)"
    "positions_match pos (online_positions m)"
    "set (hm_keys (online_positions m)) \<inter> set (hm_keys (vatsim_only_positions m)) = {}"
    "hm_get (online_stations m) = station_map (cm_network m) (set (all_positions m))"
  using assms unfolding coverage_ok_def by blast+

lemma set_all_positions [simp]:
  "set (all_positions m) = set (hm_keys (online_positions m)) \<union> set (hm_keys (vatsim_only_positions m))"
  by (simp add: all_positions_def)

lemma station_map_empty: "station_map net {} s = None"
  by (cases "controlling_position net s {}") (auto simp: controlling_position_def dest!: find_map_Some split: option.splits)

lemma update_online_stations_sel [simp]:
  "online_stations (update_online_stations chs m) = fold apply_station_change chs (online_stations m)"
  "clients (update_online_stations chs m) = clients m"
  "cm_network (update_online_stations chs m) = cm_network m"
  "online_positions (update_online_stations chs m) = online_positions m"
  "vatsim_only_positions (update_online_stations chs m) = vatsim_only_positions m"
  by (simp_all add: update_online_stations_def)

lemma online_stations_diff:
  assumes "network_wf net" "hm_get stations = station_map net (set A)"
  shows "hm_get (fold apply_station_change (coverage_diff net A B) stations) = station_map net (set B)"
  by (rule apply_station_diff [OF coverage_diff_is_diff [OF assms(1)] assms(2)])

lemma coverage_inv_new: "network_wf net \<Longrightarrow> coverage_inv (client_manager_new net grace n)"
  unfolding coverage_inv_def
  by (intro conjI coverage_okI)
    (auto simp: sessions_ok_def client_manager_new_def positions_match_def position_of_def all_positions_def hs_collect_def
      hs_extend_def fun_eq_iff station_map_empty)

section \<open>The callable stations\<close>

definition view :: "client_manager \<Rightarrow> station_id \<Rightarrow> position_id option" where
  "view m = callable (hm_get (online_stations m)) (set (hm_keys (online_positions m)))"

text \<open>
  A client that knows the callable stations before and applies the changes knows those after. The
  changes name each station once; only an unknown station comes online and only a known one is
  handed off, from the position that controls it to another one.
\<close>

definition plain_changes :: "(station_id \<Rightarrow> position_id option) \<Rightarrow> station_change list \<Rightarrow> bool" where
  "plain_changes v chs \<longleftrightarrow>
     distinct (map station_change_station_id chs) \<and>
     (\<forall>ch \<in> set chs. case ch of Online s p \<Rightarrow> v s = None | Handoff s p q \<Rightarrow> v s = Some p \<and> p \<noteq> q | Offline s \<Rightarrow> True)"

definition tracks :: "station_change list \<Rightarrow> client_manager \<Rightarrow> client_manager \<Rightarrow> bool" where
  "tracks chs m m' \<longleftrightarrow>
     plain_changes (view m) chs \<and> (\<forall>v. hm_get v = view m \<longrightarrow> hm_get (fold apply_station_change chs v) = view m')"

lemma plain_Nil [simp]: "plain_changes v []"
  by (simp add: plain_changes_def)

lemma plain_append:
  "plain_changes v (xs @ ys) \<longleftrightarrow> plain_changes v xs \<and> plain_changes v ys \<and>
     station_change_station_id ` set xs \<inter> station_change_station_id ` set ys = {}"
  by (auto simp: plain_changes_def)

lemma distinct_map_map_filter:
  assumes "distinct (map f xs)" "\<And>x y. x \<in> set xs \<Longrightarrow> g x = Some y \<Longrightarrow> h y = f x"
  shows "distinct (map h (List.map_filter g xs))"
  using assms
proof (induction xs)
  case (Cons x xs)
  have "h y \<noteq> f x" if "y \<in> set (List.map_filter g xs)" for y
  proof -
    from that obtain z where z: "z \<in> set xs" "g z = Some y" by (auto simp: set_map_filter)
    with Cons.prems(2) [of z y] have "h y = f z" by simp
    moreover have "f z \<in> f ` set xs" using z(1) by (rule imageI)
    ultimately show ?thesis using Cons.prems(1) by auto
  qed
  with Cons show ?case by (force simp: map_filter_simps split: option.splits)
qed (simp add: map_filter_simps)

lemma coverage_diff_distinct:
  assumes wf: "network_wf net"
  shows "distinct (map station_change_station_id (coverage_diff net A B))"
proof -
  define f where "f = (\<lambda>station_id. case hm_get (net_stations net) station_id of None \<Rightarrow> None
    | Some station \<Rightarrow> station_change_between (st_id station)
        (controlling_position net (st_id station) (set A)) (controlling_position net (st_id station) (set B)))"
  have id: "station_change_station_id ch = s" if "f s = Some ch" for s ch
    using that network_wfD(2) [OF wf]
    by (auto simp: f_def station_change_between_def split: option.splits if_splits)
  have "distinct (map station_change_station_id (List.map_filter f (candidate_stations net xs)))" for xs
    by (rule distinct_map_map_filter [where f = "\<lambda>s. s"]) (auto simp: candidate_stations_def id)
  then have "distinct (map station_change_station_id (sort (List.map_filter f (candidate_stations net xs))))" for xs
    by (simp add: distinct_map)
  then show ?thesis unfolding coverage_diff_def f_def Let_def by simp
qed

lemma plain_visible:
  assumes d: "is_station_diff before after chs" and "distinct (map station_change_station_id chs)"
  shows "plain_changes (callable before F) (client_visible_changes chs F T)"
proof -
  have fits: "change_fits before after ch" if "ch \<in> set chs" for ch using d that by (simp add: is_station_diff_def)
  have "distinct (map station_change_station_id (client_visible_changes chs F T))"
    unfolding client_visible_changes_def
    by (rule distinct_map_map_filter [OF assms(2)]) (use visible_change_fits [OF fits, of _ F T] in fastforce)
  moreover have "case ch' of Online s p \<Rightarrow> callable before F s = None | Handoff s p q \<Rightarrow> callable before F s = Some p \<and> p \<noteq> q | Offline s \<Rightarrow> True"
    if "ch' \<in> set (client_visible_changes chs F T)" for ch'
  proof -
    from that obtain ch where "ch \<in> set chs" "visible_change F T ch = Some ch'"
      by (auto simp: client_visible_changes_def set_map_filter)
    with fits [of ch] show ?thesis by (cases ch) (auto simp: callable_def split: if_splits bool.splits)
  qed
  ultimately show ?thesis by (simp add: plain_changes_def)
qed

lemma callability_changes_mem:
  assumes "hm_ok os"
  shows "ch \<in> set (callability_changes os changed F T) \<longleftrightarrow>
    (\<exists>s p. hm_get os s = Some p \<and> s \<notin> changed \<and> (p \<in> F) \<noteq> (p \<in> T) \<and> ch = (if p \<in> F then Offline s else Online s p))"
  unfolding callability_changes_def set_map_filter mem_Collect_eq
  by (auto simp: hm_get_iff [OF assms] split: if_splits bool.splits) force+

lemma plain_callability:
  assumes d: "is_station_diff before after chs" and os: "hm_ok os" "hm_get os = after"
  shows "plain_changes (callable before F) (callability_changes os (set (map station_change_station_id chs)) F T)"
proof -
  let ?cal = "callability_changes os (set (map station_change_station_id chs)) F T"
  have "distinct (map station_change_station_id ?cal)"
    unfolding callability_changes_def
    by (rule distinct_map_map_filter [where f = fst]) (use os(1) in \<open>auto simp: hm_ok_def split: if_splits bool.splits\<close>)
  moreover have "case ch of Online s p \<Rightarrow> callable before F s = None | Handoff s p q \<Rightarrow> callable before F s = Some p \<and> p \<noteq> q | Offline s \<Rightarrow> True"
    if ch: "ch \<in> set ?cal" for ch
  proof -
    have "before s = after s" if "s \<notin> set (map station_change_station_id chs)" for s
      using d that by (auto simp: is_station_diff_def)
    with ch show ?thesis
      unfolding callability_changes_mem [OF os(1)] os(2) by (auto simp: callable_def split: if_splits)
  qed
  ultimately show ?thesis by (simp add: plain_changes_def)
qed

lemma plain_sync:
  assumes d: "is_station_diff before after chs" and "distinct (map station_change_station_id chs)" and os: "hm_ok os" "hm_get os = after"
  shows "plain_changes (callable before F)
    (client_visible_changes chs F T @ callability_changes os (set (map station_change_station_id chs)) F T)"
proof -
  have fits: "change_fits before after ch" if "ch \<in> set chs" for ch using d that by (simp add: is_station_diff_def)
  have vis: "station_change_station_id ch' \<in> station_change_station_id ` set chs"
    if ch': "ch' \<in> set (client_visible_changes chs F T)" for ch'
  proof -
    from ch' obtain ch where "ch \<in> set chs" "visible_change F T ch = Some ch'"
      by (auto simp: client_visible_changes_def set_map_filter)
    with visible_change_fits [OF fits, of ch F T] show ?thesis by auto
  qed
  have cal: "station_change_station_id ch \<notin> station_change_station_id ` set chs"
    if "ch \<in> set (callability_changes os (set (map station_change_station_id chs)) F T)" for ch
    using that unfolding callability_changes_mem [OF os(1)] by (auto split: if_splits)
  have "station_change_station_id ` set (client_visible_changes chs F T) \<subseteq> station_change_station_id ` set chs"
    by (rule image_subsetI) (rule vis)
  moreover have "station_change_station_id ` set (callability_changes os (set (map station_change_station_id chs)) F T) \<subseteq>
      - station_change_station_id ` set chs"
    by (rule image_subsetI) (rule Compl_iff [THEN iffD2], rule cal)
  ultimately show ?thesis
    unfolding plain_append by (intro conjI plain_visible [OF d assms(2)] plain_callability [OF d os]) blast
qed

lemma station_map_mem: "network_wf net \<Longrightarrow> station_map net A s = Some p \<Longrightarrow> p \<in> A"
  using controlling_position_pos by fastforce

lemma callable_cong:
  assumes "network_wf net" "F \<inter> A = F' \<inter> A"
  shows "callable (station_map net A) F = callable (station_map net A) F'"
proof
  fix s
  have "p \<in> F \<longleftrightarrow> p \<in> F'" if "station_map net A s = Some p" for p
    using station_map_mem [OF assms(1) that] assms(2) by blast
  then show "callable (station_map net A) F s = callable (station_map net A) F' s"
    by (cases "controlling_position net s A") (simp_all add: callable_def)
qed

lemma tracks_Nil: "view m = view m' \<Longrightarrow> tracks [] m m'"
  by (simp add: tracks_def)

lemma tracks_diff:
  assumes wf: "network_wf net"
    and before: "hm_get (online_stations m) = station_map net (set A)" "set (hm_keys (online_positions m)) \<inter> set A = F \<inter> set A"
    and after: "hm_get (online_stations m') = station_map net (set B)" "set (hm_keys (online_positions m')) \<inter> set B = T \<inter> set B"
    and same: "\<And>s p. station_map net (set A) s = Some p \<Longrightarrow> station_map net (set B) s = Some p \<Longrightarrow> p \<in> F \<longleftrightarrow> p \<in> T"
  shows "tracks (client_visible_changes (coverage_diff net A B) F T) m m'"
  unfolding tracks_def
proof (intro conjI allI impI)
  have "view m = callable (station_map net (set A)) F"
    using callable_cong [OF wf before(2)] by (simp add: view_def before(1))
  then show "plain_changes (view m) (client_visible_changes (coverage_diff net A B) F T)"
    using plain_visible [OF coverage_diff_is_diff [OF wf] coverage_diff_distinct [OF wf]] by metis
next
  fix v assume "hm_get v = view m"
  then have v: "hm_get v = callable (station_map net (set A)) F"
    using callable_cong [OF wf before(2)] by (simp add: view_def before(1))
  note diff = coverage_diff_is_diff [OF wf, of A B]
  have "hm_get (fold apply_station_change (client_visible_changes (coverage_diff net A B) F T) v) s =
    callable (station_map net (set B)) T s" for s
  proof (cases "s \<in> station_change_station_id ` set (coverage_diff net A B)")
    case False
    then have "station_map net (set A) s = station_map net (set B) s" using diff unfolding is_station_diff_def by blast
    with same [of s] have "callable (station_map net (set A)) F s = callable (station_map net (set B)) T s"
      by (auto simp: callable_def split: option.splits)
    with False apply_visible_changes [OF diff v, of T s] show ?thesis by simp
  qed (simp add: apply_visible_changes [OF diff v])
  then show "hm_get (fold apply_station_change (client_visible_changes (coverage_diff net A B) F T) v) = view m'"
    using callable_cong [OF wf after(2)] by (simp add: view_def after(1) fun_eq_iff)
qed

lemma plain_online:
  "distinct (map fst os) \<Longrightarrow> plain_changes v (map (\<lambda>(s, _). Online s p) (filter (\<lambda>(_, q). q = p) os)) \<longleftrightarrow>
     (\<forall>s. (s, p) \<in> set os \<longrightarrow> v s = None)"
  by (induction os) (auto simp: plain_changes_def image_iff split: if_splits)

lemma plain_offline: "hm_ok os \<Longrightarrow> plain_changes v (map (\<lambda>(s, _). Offline s) (filter (\<lambda>(_, q). q = p) os))"
  by (induction os) (auto simp: plain_changes_def hm_ok_def image_iff)

lemma hm_get_fold_Online:
  "hm_get (fold apply_station_change (map (\<lambda>(s, _). Online s p) (filter (\<lambda>(_, q). q = p) os)) v) s =
     (if (s, p) \<in> set os then Some p else hm_get v s)"
  by (subst hm_get_apply_station_changes [where v = "Some p"]) force+

lemma hm_get_fold_Offline:
  "hm_get (fold apply_station_change (map (\<lambda>(s, _). Offline s) (filter (\<lambda>(_, q). q = p) os)) v) s =
     (if (s, p) \<in> set os then None else hm_get v s)"
  by (subst hm_get_apply_station_changes [where v = "None"]) force+

section \<open>A client comes\<close>

lemma occupy_position_shared:
  assumes ok: "coverage_ok pos m" and free: "pos c = None" and get: "hm_get (online_positions m) p = Some cids"
    and m': "m' = m\<lparr>online_positions := hm_insert p (hs_insert c cids) (online_positions m)\<rparr>"
  shows "coverage_ok (pos(c := Some p)) m' \<and> view m' = view m"
proof -
  have "p \<in> set (hm_keys (online_positions m))" using get by (auto simp: set_hm_keys)
  then have keys: "set (hm_keys (online_positions m')) = set (hm_keys (online_positions m))" by (auto simp: m')
  then have "set (all_positions m') = set (all_positions m)" by (simp add: m')
  moreover have "positions_match (pos(c := Some p)) (online_positions m')"
    using positions_match_insert [OF coverage_okD(4) [OF ok] free, of "hs_insert c cids" p] get by (simp add: m')
  ultimately have "coverage_ok (pos(c := Some p)) m'"
    using coverage_okD [OF ok] keys by (intro coverage_okI) (simp_all add: m')
  moreover have "view m' = view m" using keys by (simp add: view_def m')
  ultimately show ?thesis ..
qed

lemma occupy_position_was_vatsim_only:
  assumes ok: "coverage_ok pos m" and free: "pos c = None" and get: "hm_get (online_positions m) p = None"
    and vo: "p \<in> set (hm_keys (vatsim_only_positions m))"
    and m': "m' = m\<lparr>vatsim_only_positions := hm_remove p (vatsim_only_positions m),
      online_positions := hm_insert p [c] (online_positions m)\<rparr>"
  shows "coverage_ok (pos(c := Some p)) m' \<and>
    tracks (map (\<lambda>(s, _). Online s p) (filter (\<lambda>(_, q). q = p) (online_stations m))) m m'"
proof -
  have all: "set (all_positions m') = set (all_positions m)" using vo by (auto simp: m')
  have "positions_match (pos(c := Some p)) (online_positions m')"
    using positions_match_insert [OF coverage_okD(4) [OF ok] free, of "[c]" p] get by (simp add: m' hs_insert_def)
  then have "coverage_ok (pos(c := Some p)) m'"
    using coverage_okD [OF ok] all by (intro coverage_okI) (auto simp: m')
  moreover have "plain_changes (view m) (map (\<lambda>(s, _). Online s p) (filter (\<lambda>(_, q). q = p) (online_stations m)))"
    using coverage_okD(3) [OF ok] get
    by (auto simp: plain_online hm_ok_def hm_get_None_iff view_def callable_def hm_get_iff)
  moreover have "\<forall>v. hm_get v = view m \<longrightarrow>
      hm_get (fold apply_station_change (map (\<lambda>(s, _). Online s p) (filter (\<lambda>(_, q). q = p) (online_stations m))) v) = view m'"
    by (auto simp: fun_eq_iff hm_get_fold_Online view_def callable_def m' hm_get_iff [OF coverage_okD(3) [OF ok], symmetric]
        split: option.splits)
  ultimately show ?thesis by (simp add: tracks_def)
qed

lemma occupy_position_new:
  assumes ok: "coverage_ok pos m" and free: "pos c = None" and get: "hm_get (online_positions m) p = None"
    and vo: "p \<notin> set (hm_keys (vatsim_only_positions m))"
    and chs: "chs = coverage_changes (cm_network m) None (Some p) (all_positions m)"
    and m': "m' = update_online_stations chs (m\<lparr>online_positions := hm_insert p [c] (online_positions m)\<rparr>)"
  shows "coverage_ok (pos(c := Some p)) m' \<and>
    tracks (client_visible_changes chs (set (hm_keys (online_positions m'))) (set (hm_keys (online_positions m')))) m m'"
proof -
  let ?A = "all_positions m" and ?B = "hs_insert p (all_positions m)"
  note wf = coverage_okD(1) [OF ok]
  have p: "p \<notin> set ?A" using get vo by (auto simp: set_hm_keys)
  then have chs': "chs = coverage_diff (cm_network m) ?A ?B" by (simp add: chs coverage_changes_def)
  have all: "set (all_positions m') = set ?B" by (auto simp: m')
  have st: "hm_get (online_stations m') = station_map (cm_network m) (set ?B)"
    using online_stations_diff [OF wf coverage_okD(6) [OF ok], of ?B] by (simp add: m' chs')
  have "positions_match (pos(c := Some p)) (online_positions m')"
    using positions_match_insert [OF coverage_okD(4) [OF ok] free, of "[c]" p] get by (simp add: m' hs_insert_def)
  then have "coverage_ok (pos(c := Some p)) m'"
    using coverage_okD(1,2,3,5) [OF ok] st vo
    by (intro coverage_okI) (simp_all only: all, simp_all add: m' hm_ok_apply_station_changes)
  moreover have "tracks (client_visible_changes chs (set (hm_keys (online_positions m'))) (set (hm_keys (online_positions m')))) m m'"
    unfolding chs' using p by (intro tracks_diff [OF wf coverage_okD(6) [OF ok] _ st]) (auto simp: m')
  ultimately show ?thesis ..
qed

lemma occupy_position_ok:
  assumes ok: "coverage_ok pos m" and free: "pos c = None" and run: "occupy_position p c m = (m', chs)"
  shows "coverage_ok (pos(c := Some p)) m' \<and> tracks chs m m' \<and> clients m' = clients m"
proof (cases "hm_get (online_positions m) p")
  case (Some cids)
  with positions_match_Some [OF coverage_okD(4) [OF ok]] have "cids \<noteq> []" by blast
  with run Some have "m' = m\<lparr>online_positions := hm_insert p (hs_insert c cids) (online_positions m)\<rparr>" "chs = []"
    by (auto simp: occupy_position_def split: list.splits)
  with occupy_position_shared [OF ok free Some] show ?thesis by (auto intro: tracks_Nil)
next
  case None
  show ?thesis
  proof (cases "p \<in> set (hm_keys (vatsim_only_positions m))")
    case True
    with occupy_position_was_vatsim_only [OF ok free None True refl] run None show ?thesis
      by (auto simp: occupy_position_def hm_contains_key_iff)
  next
    case False
    with occupy_position_new [OF ok free None False refl refl] run None show ?thesis
      by (auto simp: occupy_position_def hm_contains_key_iff Let_def)
  qed
qed

lemma view_clients [simp]: "view (m\<lparr>clients := cs\<rparr>) = view m"
  by (simp add: view_def)

lemma tracks_clients [simp]: "tracks chs (m\<lparr>clients := cs\<rparr>) m' \<longleftrightarrow> tracks chs m m'"
  by (simp add: tracks_def)

lemma coverage_ok_clients [simp]: "coverage_ok pos (m\<lparr>clients := cs\<rparr>) \<longleftrightarrow> coverage_ok pos m"
  by (simp add: coverage_ok_def all_positions_def)

lemma sessions_ok_insert: "sessions_ok cs \<Longrightarrow> sess_id s = c \<Longrightarrow> sessions_ok (hm_insert c s cs)"
  by (auto simp: sessions_ok_def split: if_splits)

lemma sessions_ok_remove: "sessions_ok cs \<Longrightarrow> sessions_ok (hm_remove c cs)"
  by (auto simp: sessions_ok_def split: if_splits)

lemma session_new_sel [simp]:
  "sess_id (client_session_new now info profile) = info_id info"
  "sess_position_id (client_session_new now info profile) = info_position_id info"
  by (simp_all add: client_session_new_def sess_id_def sess_position_id_def)

text \<open>
  An accepted client: the manager afterwards, the station changes, the messages.
\<close>

lemma add_client_accepted:
  assumes inv: "coverage_inv m" and new: "hm_get (clients m) (info_id info) = None"
  obtains m' chs where
    "add_client now info profile m =
      (m', Inr (client_session_new now info profile), Broadcast (ClientConnected info) # broadcast_station_changes chs m')"
    "coverage_inv m'" "tracks chs m m'"
    "clients m' = hm_insert (info_id info) (client_session_new now info profile) (clients m)"
proof -
  let ?c = "info_id info" and ?s = "client_session_new now info profile"
  let ?m = "m\<lparr>clients := hm_insert ?c ?s (clients m)\<rparr>"
  have ok: "coverage_ok (position_of (clients m)) ?m" and ses: "sessions_ok (clients ?m)"
    using inv by (auto simp: coverage_inv_def intro: sessions_ok_insert)
  have free: "position_of (clients m) ?c = None" using new by (simp add: position_of_def)
  define r where "r = (case info_position_id info of Some p \<Rightarrow> occupy_position p ?c ?m | None \<Rightarrow> (?m, []))"
  obtain m' chs where r: "r = (m', chs)" by (cases r)
  have "coverage_ok ((position_of (clients m))(?c := info_position_id info)) m' \<and> tracks chs ?m m' \<and> clients m' = clients ?m"
  proof (cases "info_position_id info")
    case None
    with r ok fun_upd_triv [of "position_of (clients m)" ?c] free show ?thesis by (auto simp: r_def intro!: tracks_Nil)
  next
    case (Some p)
    with r occupy_position_ok [OF ok free] show ?thesis by (simp add: r_def)
  qed
  with ses have "coverage_inv m'" "tracks chs m m'" "clients m' = clients ?m" by (auto simp: coverage_inv_def)
  moreover have "add_client now info profile m =
    (m', Inr ?s, Broadcast (ClientConnected info) # broadcast_station_changes chs m')"
    using r new by (simp add: add_client_def hm_contains_key_def r_def Let_def)
  ultimately show ?thesis using that by simp
qed

lemma add_client_inv: "coverage_inv m \<Longrightarrow> coverage_inv (fst (add_client now info profile m))"
  by (cases "hm_get (clients m) (info_id info)")
    (auto elim: add_client_accepted [of m info now profile] simp: add_client_def hm_contains_key_def)

section \<open>A client goes\<close>

lemma vacate_position_last:
  assumes ok: "coverage_ok pos m" and c: "pos c = Some p" and get: "hm_get (online_positions m) p = Some cids"
    and one: "length cids \<le> 1"
    and m': "m' = (update_online_stations chs m)\<lparr>online_positions := hm_remove p (online_positions m)\<rparr>"
    and chs: "chs = coverage_diff (cm_network m) (all_positions m) (hs_remove p (all_positions m))"
  shows "coverage_ok (pos(c := None)) m' \<and>
    tracks (client_visible_changes chs (set (hm_keys (online_positions m))) (set (hm_keys (online_positions m)))) m m'"
proof -
  let ?A = "all_positions m" and ?B = "hs_remove p (all_positions m)"
  note wf = coverage_okD(1) [OF ok]
  have p: "p \<in> set (hm_keys (online_positions m))" using get by (auto simp: set_hm_keys)
  with coverage_okD(5) [OF ok] have all: "set (all_positions m') = set ?B" by (auto simp: m')
  with coverage_okD(6) [OF ok] have keys: "set (hm_keys (online_positions m')) \<inter> set (hm_keys (vatsim_only_positions m')) = {}"
    using coverage_okD(5) [OF ok] by (auto simp: m')
  have st: "hm_get (online_stations m') = station_map (cm_network m) (set ?B)"
    using online_stations_diff [OF wf coverage_okD(6) [OF ok], of ?B] by (simp add: m' chs)
  have "positions_match (pos(c := None)) (online_positions m')"
    using positions_match_leave(1) [OF coverage_okD(4) [OF ok] c get one] by (simp add: m')
  then have "coverage_ok (pos(c := None)) m'"
    using coverage_okD(1,2,3) [OF ok] st keys
    by (intro coverage_okI) (simp_all only: all, simp_all add: m' hm_ok_apply_station_changes)
  moreover have "tracks (client_visible_changes chs (set (hm_keys (online_positions m))) (set (hm_keys (online_positions m)))) m m'"
    unfolding chs by (intro tracks_diff [OF wf coverage_okD(6) [OF ok] _ st]) (auto simp: m')
  ultimately show ?thesis ..
qed

lemma vacate_position_to_vatsim_only:
  assumes ok: "coverage_ok pos m" and c: "pos c = Some p" and get: "hm_get (online_positions m) p = Some cids"
    and one: "length cids \<le> 1"
    and m': "m' = m\<lparr>vatsim_only_positions := hm_insert p vcids (vatsim_only_positions m),
      online_positions := hm_remove p (online_positions m)\<rparr>"
  shows "coverage_ok (pos(c := None)) m' \<and>
    tracks (map (\<lambda>(s, _). Offline s) (filter (\<lambda>(_, q). q = p) (online_stations m))) m m'"
proof -
  have p: "p \<in> set (hm_keys (online_positions m))" using get by (auto simp: set_hm_keys)
  then have all: "set (all_positions m') = set (all_positions m)" by (auto simp: m')
  have "positions_match (pos(c := None)) (online_positions m')"
    using positions_match_leave(1) [OF coverage_okD(4) [OF ok] c get one] by (simp add: m')
  then have "coverage_ok (pos(c := None)) m'"
    using coverage_okD [OF ok] all by (intro coverage_okI) (auto simp: m')
  moreover have "plain_changes (view m) (map (\<lambda>(s, _). Offline s) (filter (\<lambda>(_, q). q = p) (online_stations m)))"
    using coverage_okD(3) [OF ok] by (simp add: plain_offline)
  moreover have "\<forall>v. hm_get v = view m \<longrightarrow>
      hm_get (fold apply_station_change (map (\<lambda>(s, _). Offline s) (filter (\<lambda>(_, q). q = p) (online_stations m))) v) = view m'"
    by (auto simp: fun_eq_iff hm_get_fold_Offline view_def callable_def m' hm_get_iff [OF coverage_okD(3) [OF ok], symmetric]
        split: option.splits)
  ultimately show ?thesis by (simp add: tracks_def)
qed

lemma vacate_position_shared:
  assumes ok: "coverage_ok pos m" and c: "pos c = Some p" and get: "hm_get (online_positions m) p = Some cids"
    and many: "\<not> length cids \<le> 1"
    and m': "m' = m\<lparr>online_positions := hm_insert p (hs_remove c cids) (online_positions m)\<rparr>"
  shows "coverage_ok (pos(c := None)) m' \<and> view m' = view m"
proof -
  have "p \<in> set (hm_keys (online_positions m))" using get by (auto simp: set_hm_keys)
  then have keys: "set (hm_keys (online_positions m')) = set (hm_keys (online_positions m))" by (auto simp: m')
  then have "set (all_positions m') = set (all_positions m)" by (simp add: m')
  moreover have "positions_match (pos(c := None)) (online_positions m')"
    using positions_match_leave(2) [OF coverage_okD(4) [OF ok] c get many] by (simp add: m')
  ultimately have "coverage_ok (pos(c := None)) m'"
    using coverage_okD [OF ok] keys by (intro coverage_okI) (simp_all add: m')
  moreover have "view m' = view m" using keys by (simp add: view_def m')
  ultimately show ?thesis ..
qed

lemma vacate_position_ok:
  assumes ok: "coverage_ok pos m" and c: "pos c = Some p" and run: "vacate_position feed p c m = (m', chs)"
  shows "coverage_ok (pos(c := None)) m' \<and> tracks chs m m' \<and> clients m' = clients m"
proof (cases "hm_get (online_positions m) p")
  case None
  with positions_match_None [OF coverage_okD(4) [OF ok]] c show ?thesis by blast
next
  case (Some cids)
  note cids = positions_match_Some [OF coverage_okD(4) [OF ok] Some]
  show ?thesis
  proof (cases "length cids = 1")
    case False
    with cids have many: "\<not> length cids \<le> 1" by (cases cids) auto
    with vacate_position_shared [OF ok c Some many refl] False run Some show ?thesis
      by (auto simp: vacate_position_def intro: tracks_Nil)
  next
    case True
    then have one: "length cids \<le> 1" by simp
    define vcids where "vcids = (case feed of
        Some controllers \<Rightarrow>
          hm_get (rebuild_vatsim_only (cm_network m) (index_by_cid controllers) (set (hm_keys (clients m)))
                    (set (hm_keys (hm_remove p (online_positions m))))) p
      | None \<Rightarrow> None)"
    have eq: "vacate_position feed p c m =
      (case vcids of
         Some vcids \<Rightarrow>
           (m\<lparr>vatsim_only_positions := hm_insert p vcids (vatsim_only_positions m),
              online_positions := hm_remove p (online_positions m)\<rparr>,
            map (\<lambda>(s, _). Offline s) (filter (\<lambda>(_, q). q = p) (online_stations m)))
       | None \<Rightarrow>
           (let chs = coverage_diff (cm_network m) (all_positions m) (hs_remove p (all_positions m))
            in ((update_online_stations chs m)\<lparr>online_positions := hm_remove p (online_positions m)\<rparr>,
                client_visible_changes chs (set (hm_keys (online_positions m))) (set (hm_keys (online_positions m))))))"
      using Some True unfolding vacate_position_def vcids_def [symmetric] by (simp add: Let_def split: option.splits)
    show ?thesis
    proof (cases vcids)
      case None
      with vacate_position_last [OF ok c Some one refl refl] run show ?thesis
        unfolding eq by (auto simp: Let_def)
    next
      case (Some v)
      with vacate_position_to_vatsim_only [OF ok c \<open>hm_get (online_positions m) p = Some cids\<close> one refl] run show ?thesis
        unfolding eq by auto
    qed
  qed
qed

lemma coverage_ok_empty:
  assumes ok: "coverage_ok pos m" and none: "\<And>c. pos c = None"
  shows "coverage_ok pos (m\<lparr>vatsim_only_positions := [], online_stations := []\<rparr>)"
proof -
  have "p \<notin> set (hm_keys (online_positions m))" for p
    using positions_match_keys [OF coverage_okD(4) [OF ok]] none by simp
  then have "set (hm_keys (online_positions m)) = {}" by (metis all_not_in_conv)
  with coverage_okD [OF ok] show ?thesis by (intro coverage_okI) (simp_all add: fun_eq_iff station_map_empty)
qed

text \<open>A removed client: the manager afterwards, the station changes, the messages.\<close>

lemma remove_client_known:
  assumes inv: "coverage_inv m" and known: "hm_get (clients m) c = Some s"
  obtains m' chs where
    "coverage_inv m'" "tracks chs m m'" "clients m' = hm_remove c (clients m)"
    "hm_remove c (clients m) \<noteq> [] \<Longrightarrow> remove_client feed c reason m =
       (m', [Shutdown c reason, Broadcast (ClientDisconnected c)] @ broadcast_station_changes chs m')"
    "hm_remove c (clients m) = [] \<Longrightarrow> remove_client feed c reason m =
       (m'\<lparr>vatsim_only_positions := [], online_stations := []\<rparr>, [Shutdown c reason, Broadcast (ClientDisconnected c)])"
proof -
  let ?m = "m\<lparr>clients := hm_remove c (clients m)\<rparr>"
  have ok: "coverage_ok (position_of (clients m)) ?m" and ses: "sessions_ok (clients ?m)"
    using inv by (auto simp: coverage_inv_def intro: sessions_ok_remove)
  have pos: "position_of (clients m) c = sess_position_id s" using known by (simp add: position_of_def)
  define r where "r = (case sess_position_id s of Some p \<Rightarrow> vacate_position feed p c ?m | None \<Rightarrow> (?m, []))"
  obtain m' chs where r: "r = (m', chs)" by (cases r)
  have res: "coverage_ok ((position_of (clients m))(c := None)) m' \<and> tracks chs ?m m' \<and> clients m' = clients ?m"
  proof (cases "sess_position_id s")
    case None
    with r ok fun_upd_triv [of "position_of (clients m)" c] pos show ?thesis by (auto simp: r_def intro!: tracks_Nil)
  next
    case (Some p)
    with r have run: "vacate_position feed p c ?m = (m', chs)" by (simp add: r_def)
    show ?thesis by (rule vacate_position_ok [OF ok _ run]) (simp add: pos Some)
  qed
  have cl: "clients m' = hm_remove c (clients m)" using res by simp
  have "coverage_inv m'" using res ses by (simp add: coverage_inv_def)
  moreover have "tracks chs m m'" using res by simp
  moreover have "remove_client feed c reason m =
    (if clients m' = []
     then (m'\<lparr>vatsim_only_positions := [], online_stations := []\<rparr>, [Shutdown c reason, Broadcast (ClientDisconnected c)])
     else (m', [Shutdown c reason, Broadcast (ClientDisconnected c)] @ broadcast_station_changes chs m'))"
    using r known by (simp add: remove_client_def r_def Let_def)
  ultimately show ?thesis using cl that [of m' chs] by simp
qed

lemma remove_client_inv: "coverage_inv m \<Longrightarrow> coverage_inv (fst (remove_client feed c reason m))"
proof (cases "hm_get (clients m) c")
  case (Some s)
  assume inv: "coverage_inv m"
  from Some show ?thesis
  proof (rule remove_client_known [OF inv, where feed = feed and reason = reason])
    fix m' chs
    assume m': "coverage_inv m'" "clients m' = hm_remove c (clients m)"
      and ne: "hm_remove c (clients m) \<noteq> [] \<Longrightarrow> remove_client feed c reason m =
        (m', [Shutdown c reason, Broadcast (ClientDisconnected c)] @ broadcast_station_changes chs m')"
      and em: "hm_remove c (clients m) = [] \<Longrightarrow> remove_client feed c reason m =
        (m'\<lparr>vatsim_only_positions := [], online_stations := []\<rparr>, [Shutdown c reason, Broadcast (ClientDisconnected c)])"
    show ?thesis
    proof (cases "hm_remove c (clients m) = []")
      case True
      with m' have "coverage_ok (position_of []) (m'\<lparr>vatsim_only_positions := [], online_stations := []\<rparr>)"
        by (intro coverage_ok_empty) (auto simp: coverage_inv_def position_of_def)
      with True m' em show ?thesis by (simp add: coverage_inv_def)
    qed (simp add: ne m')
  qed
qed (simp add: remove_client_def)

section \<open>Synchronisation\<close>

lemma rebuild_vatsim_only_ok:
  "hm_ok (rebuild_vatsim_only net controllers vacs online) \<and>
   set (hm_keys (rebuild_vatsim_only net controllers vacs online)) \<inter> online = {}"
  unfolding rebuild_vatsim_only_def
  by (rule fold_inv) (auto split: prod.splits list.splits option.splits if_splits)

lemma hm_same_keys: "hm_same a b \<Longrightarrow> set (hm_keys a) = set (hm_keys b)"
  unfolding hm_same_def list_all_iff by (auto simp: set_hm_keys split: option.splits)

text \<open>What one client's turn does to the online positions and the session.\<close>

definition turn_ok ::
  "(client_id \<Rightarrow> position_id option) \<Rightarrow> client_id \<Rightarrow> client_session \<Rightarrow> (position_id, client_id hash_set) hash_map \<Rightarrow> client_position_sync
    \<Rightarrow> client_session \<Rightarrow> (position_id, client_id hash_set) hash_map \<Rightarrow> client_position_sync \<Rightarrow> bool" where
  "turn_ok pos c s ops r s' ops' r' \<longleftrightarrow>
     positions_match (pos(c := sess_position_id s')) ops' \<and> sess_id s' = sess_id s \<and>
     (positions_changed r \<longrightarrow> positions_changed r') \<and>
     (\<not> positions_changed r' \<longrightarrow> set (hm_keys ops') = set (hm_keys ops))"

lemma leave_position_ok:
  assumes pm: "positions_match pos ops" and c: "pos c = Some p" and run: "leave_position c s p (ops, r) = (ops', r')"
  shows "positions_match (pos(c := None)) ops' \<and> (positions_changed r \<longrightarrow> positions_changed r') \<and>
    (\<not> positions_changed r' \<longrightarrow> set (hm_keys ops') = set (hm_keys ops))"
proof (cases "hm_get ops p")
  case None
  with positions_match_None [OF pm] c show ?thesis by blast
next
  case (Some cids)
  then have "p \<in> set (hm_keys ops)" by (auto simp: set_hm_keys)
  with positions_match_leave [OF pm c Some] run Some show ?thesis
    by (auto simp: leave_position_def split: if_splits)
qed

lemma enter_position_ok:
  assumes pm: "positions_match pos ops" and c: "pos c = None" and run: "enter_position c s p (ops, r) = (ops', r')"
  shows "positions_match (pos(c := Some p)) ops' \<and> (positions_changed r \<longrightarrow> positions_changed r') \<and>
    (\<not> positions_changed r' \<longrightarrow> set (hm_keys ops') = set (hm_keys ops))"
proof -
  let ?old = "case hm_get ops p of Some cids \<Rightarrow> cids | None \<Rightarrow> []"
  have ops': "ops' = hm_insert p (hs_insert c ?old) ops" using run by (simp add: enter_position_def Let_def split: if_splits)
  have "positions_changed r'" if "hm_get ops p = None"
    using run that by (auto simp: enter_position_def hs_insert_def Let_def)
  moreover have "positions_changed r \<longrightarrow> positions_changed r'"
    using run by (auto simp: enter_position_def Let_def split: if_splits)
  moreover have "p \<in> set (hm_keys ops)" if "hm_get ops p \<noteq> None" using that by (auto simp: set_hm_keys)
  ultimately show ?thesis
    using positions_match_insert [OF pm c refl, of p] unfolding ops' by auto
qed

lemma session_updates_sel [simp]:
  "sess_id (set_position_id p s) = sess_id s"
  "sess_position_id (set_position_id p s) = p"
  "sess_id (fst (update_active_profile pid net s)) = sess_id s"
  "sess_position_id (fst (update_active_profile pid net s)) = sess_position_id s"
  "sess_id (fst (update_client_info ctl s)) = sess_id s"
  "sess_position_id (fst (update_client_info ctl s)) = sess_position_id s"
  "sess_id (fst (take_pending_disconnect s)) = sess_id s"
  "sess_position_id (fst (take_pending_disconnect s)) = sess_position_id s"
  "sess_id (mark_pending_disconnect s) = sess_id s"
  "sess_position_id (mark_pending_disconnect s) = sess_position_id s"
  by (auto simp: set_position_id_def sess_id_def sess_position_id_def update_active_profile_def update_client_info_def
      take_pending_disconnect_def mark_pending_disconnect_def Let_def split: active_profile.splits option.splits)

lemma change_position_ok:
  assumes pm: "positions_match pos ops" and c: "pos c = sess_position_id s"
    and run: "change_position net limit c new s ops r = (s', ops', r')"
  shows "turn_ok pos c s ops r s' ops' r'"
proof -
  let ?s = "set_position_id (map_option pos_id new) s"
  define l where "l = (case sess_position_id s of Some old \<Rightarrow> leave_position c ?s old (ops, r) | None \<Rightarrow> (ops, r))"
  obtain ops1 r1 where l: "l = (ops1, r1)" by (cases l)
  define e where "e = (case map_option pos_id new of Some p \<Rightarrow> enter_position c ?s p (ops1, r1) | None \<Rightarrow> (ops1, r1))"
  obtain ops2 r2 where e: "e = (ops2, r2)" by (cases e)
  have 1: "positions_match (pos(c := None)) ops1 \<and> (positions_changed r \<longrightarrow> positions_changed r1) \<and>
    (\<not> positions_changed r1 \<longrightarrow> set (hm_keys ops1) = set (hm_keys ops))"
  proof (cases "sess_position_id s")
    case None
    with c l pm fun_upd_triv [of pos c] show ?thesis by (simp add: l_def)
  next
    case (Some old)
    with c l leave_position_ok [OF pm] show ?thesis by (simp add: l_def)
  qed
  have 2: "positions_match (pos(c := map_option pos_id new)) ops2 \<and> (positions_changed r1 \<longrightarrow> positions_changed r2) \<and>
    (\<not> positions_changed r2 \<longrightarrow> set (hm_keys ops2) = set (hm_keys ops1))"
  proof (cases "map_option pos_id new")
    case None
    with e 1 show ?thesis by (simp add: e_def)
  next
    case (Some p)
    have "positions_match ((pos(c := None))(c := Some p)) ops2 \<and> (positions_changed r1 \<longrightarrow> positions_changed r2) \<and>
      (\<not> positions_changed r2 \<longrightarrow> set (hm_keys ops2) = set (hm_keys ops1))"
      using e Some by (intro enter_position_ok [OF conjunct1 [OF 1]]) (simp_all add: e_def)
    then show ?thesis unfolding Some fun_upd_upd .
  qed
  have "ops' = ops2 \<and> positions_changed r' = positions_changed r2 \<and>
    s' = fst (update_active_profile (Option.bind new pos_profile_id) net ?s)"
    using run unfolding change_position_def Let_def l_def [symmetric] l prod.case e_def [symmetric] e
    by (auto split: prod.splits)
  with 1 2 show ?thesis by (auto simp: turn_ok_def)
qed

lemma turn_ok_refl:
  assumes "positions_match pos ops" "pos c = sess_position_id s" "sess_position_id s' = sess_position_id s" "sess_id s' = sess_id s"
    "positions_changed r' = positions_changed r"
  shows "turn_ok pos c s ops r s' ops r'"
  using assms fun_upd_triv [of pos c] by (simp add: turn_ok_def)

lemma disconnect_or_mark_pending_sel:
  assumes "disconnect_or_mark_pending now grace c s r = (s', r')"
  shows "sess_position_id s' = sess_position_id s \<and> sess_id s' = sess_id s \<and> positions_changed r' = positions_changed r"
  using assms session_updates_sel(7-10) [of s] session_updates_sel(9,10) [of "fst (take_pending_disconnect s)"]
  by (auto simp: disconnect_or_mark_pending_def take_pending_disconnect_def split: if_splits)

lemma sync_client_missing_ok:
  assumes pm: "positions_match pos ops" and c: "pos c = sess_position_id s"
    and run: "(if req then (let (s, r) = disconnect_or_mark_pending now grace c s r in (s, ops, r)) else (s, ops, r)) = (s', ops', r')"
  shows "turn_ok pos c s ops r s' ops' r'"
  using run pm c disconnect_or_mark_pending_sel [of now grace c s r]
  by (auto intro!: turn_ok_refl split: if_splits prod.splits)

text \<open>A client found in the feed, after its pending mark was cleared.\<close>

lemma sync_client_found_ok:
  assumes pm: "positions_match pos ops" and c: "pos c = sess_position_id s"
    and upd: "update_client_info controller s = (s1, updated)"
    and run: "(if old \<noteq> map_option pos_id new then change_position net limit c new s1 ops r else (s1, ops, r)) = (s', ops', r')"
  shows "turn_ok pos c s ops r s' ops' r'"
proof -
  have s1: "sess_id s1 = sess_id s" "sess_position_id s1 = sess_position_id s"
    using session_updates_sel(5,6) [of controller s] upd by simp_all
  show ?thesis
  proof (cases "old = map_option pos_id new")
    case True
    with run s1 pm c show ?thesis by (auto intro!: turn_ok_refl)
  next
    case False
    with run have "change_position net limit c new s1 ops r = (s', ops', r')" by simp
    from change_position_ok [OF pm _ this] c s1 show ?thesis by (simp add: turn_ok_def)
  qed
qed

lemma turn_ok_messages [simp]:
  "turn_ok pos c s ops r s' ops' (r'\<lparr>client_info_updates := us\<rparr>) = turn_ok pos c s ops r s' ops' r'"
  "turn_ok pos c (fst (take_pending_disconnect s)) ops r s' ops' r' = turn_ok pos c s ops r s' ops' r'"
  by (simp_all add: turn_ok_def)

lemma sync_client_ok:
  assumes pm: "positions_match pos ops" and c: "pos c = sess_position_id s"
    and run: "sync_client now m controllers req c s ops r = (s', ops', r')"
  shows "turn_ok pos c s ops r s' ops' r'"
proof (cases "hm_get controllers c")
  case None
  then show ?thesis using run by (intro sync_client_missing_ok [OF pm c]) (simp add: sync_client_def Let_def)
next
  case (Some controller)
  let ?s0 = "fst (take_pending_disconnect s)"
  obtain s1 updated where upd: "update_client_info controller ?s0 = (s1, updated)" by (cases "update_client_info controller ?s0")
  have s1: "sess_id s1 = sess_id s" "sess_position_id s1 = sess_position_id s"
    using session_updates_sel(5,6) [of controller ?s0] upd by simp_all
  let ?ps = "find_positions (cm_network m) (ctl_callsign controller) (ctl_frequency controller) (ctl_facility_type controller)"
  define new where "new = (if length ?ps = 1 then Some (hd ?ps) else None)"
  show ?thesis
  proof (cases "ctl_facility_type controller = FacilityUnknown")
    case True
    then show ?thesis using run Some by (intro sync_client_missing_ok [OF pm c]) (simp add: sync_client_def Let_def)
  next
    case known: False
    show ?thesis
    proof (cases "is_within_position_grace_period now (position_grace_period m) ?s0 \<or> \<not> updated \<or> length ?ps > 1")
      case True
      then show ?thesis using run Some known upd s1 pm c
        by (auto simp: sync_client_def Let_def intro!: turn_ok_refl split: if_splits)
    next
      case False
      obtain s2 ops2 r2 where ch: "(if sess_position_id s1 \<noteq> map_option pos_id new
          then change_position (cm_network m) (conf_size_limit m) c new s1 ops r else (s1, ops, r)) = (s2, ops2, r2)"
        by (metis prod_cases3)
      have "turn_ok pos c ?s0 ops r s2 ops2 r2"
        using c by (intro sync_client_found_ok [OF pm _ upd ch]) simp
      moreover have "sync_client now m controllers req c s ops r =
        (case (if sess_position_id s1 \<noteq> map_option pos_id new
               then change_position (cm_network m) (conf_size_limit m) c new s1 ops r else (s1, ops, r)) of
           (s, ops, r) \<Rightarrow> (s, ops, r\<lparr>client_info_updates := client_info_updates r @ [ClientInfo (sess_client_info s)]\<rparr>))"
        using Some known False upd unfolding sync_client_def Let_def new_def by (simp del: One_nat_def)
      then have "s' = s2 \<and> ops' = ops2 \<and> r' = r2\<lparr>client_info_updates := client_info_updates r2 @ [ClientInfo (sess_client_info s2)]\<rparr>"
        unfolding ch run by simp
      ultimately show ?thesis by simp
    qed
  qed
qed

lemma sync_steps_ok:
  assumes "sessions_ok (done @ rest)" "positions_match (position_of (done @ rest)) ops"
    and "fold (sync_step now m controllers req) rest (done, ops, r) = (cs, ops', r')"
  shows "sessions_ok cs \<and> positions_match (position_of cs) ops' \<and> hm_keys cs = hm_keys (done @ rest) \<and>
    (positions_changed r \<longrightarrow> positions_changed r') \<and> (\<not> positions_changed r' \<longrightarrow> set (hm_keys ops') = set (hm_keys ops))"
  using assms
proof (induction rest arbitrary: "done" ops r)
  case (Cons x rest)
  obtain c s where x: "x = (c, s)" by (cases x)
  obtain s' ops1 r1 where t: "sync_client now m controllers req c s ops r = (s', ops1, r1)" by (metis prod_cases3)
  have ok: "hm_ok (done @ (c, s) # rest)" using Cons.prems(1) x by (simp add: sessions_ok_def)
  then have get: "hm_get (done @ (c, s) # rest) c = Some s" by (subst hm_get_iff) simp_all
  have upd: "hm_insert c s' (done @ (c, s) # rest) = done @ (c, s') # rest"
    using ok by (intro hm_insert_split) (auto simp: hm_ok_def hm_keys_def)
  have pos: "position_of (done @ (c, s) # rest) c = sess_position_id s" using get by (simp add: position_of_def)
  have turn: "turn_ok (position_of (done @ (c, s) # rest)) c s ops r s' ops1 r1"
    using Cons.prems(2) x pos t by (intro sync_client_ok) simp_all
  have "sess_id s = c" using Cons.prems(1) get x by (simp add: sessions_ok_def)
  with turn Cons.prems(1) x have ses: "sessions_ok ((done @ [(c, s')]) @ rest)"
    using sessions_ok_insert [of "done @ (c, s) # rest" s' c] by (simp add: turn_ok_def upd)
  have pm: "positions_match (position_of ((done @ [(c, s')]) @ rest)) ops1"
    using turn position_of_insert [of c s' "done @ (c, s) # rest"] by (simp add: turn_ok_def upd)
  have "fold (sync_step now m controllers req) rest (done @ [(c, s')], ops1, r1) = (cs, ops', r')"
    using Cons.prems(3) t x by (simp add: sync_step_def)
  from Cons.IH [OF ses pm this] turn show ?case by (auto simp: turn_ok_def x hm_keys_def)
qed simp

lemma sync_client_positions_ok:
  assumes inv: "coverage_inv m" and run: "sync_client_positions now m controllers req = (cs, ops, r)"
  shows "sessions_ok cs \<and> positions_match (position_of cs) ops \<and> hm_keys cs = hm_keys (clients m) \<and>
    (\<not> positions_changed r \<longrightarrow> set (hm_keys ops) = set (hm_keys (online_positions m)))"
  using sync_steps_ok [of "[]" "clients m" "online_positions m" now m controllers req client_position_sync_new cs ops r]
    coverage_okD(4) inv run by (auto simp: coverage_inv_def sync_client_positions_def)

text \<open>
  The changes of a synchronisation: the visible part of the coverage difference and the changes of
  callability of the other stations.
\<close>

lemma apply_sync_changes:
  assumes d: "is_station_diff before after chs" and os: "hm_ok os" "hm_get os = after"
    and v: "hm_get v = callable before F"
  shows "hm_get (fold apply_station_change
    (client_visible_changes chs F T @ callability_changes os (set (map station_change_station_id chs)) F T) v) = callable after T"
proof
  fix s
  let ?changed = "set (map station_change_station_id chs)"
  let ?cal = "callability_changes os ?changed F T"
  let ?v = "fold apply_station_change (client_visible_changes chs F T) v"
  have v1: "hm_get ?v s = (if s \<in> ?changed then callable after T s else callable before F s)"
    using apply_visible_changes [OF d v, of T s] by simp
  have same: "before s = after s" if "s \<notin> ?changed" using d that by (auto simp: is_station_diff_def)
  have new: "new_controller ch = callable after T s" if "ch \<in> set ?cal" "station_change_station_id ch = s" for ch
    using that unfolding callability_changes_mem [OF os(1)] os(2) by (auto simp: callable_def split: if_splits)
  have "hm_get ?v s = callable after T s" if "s \<notin> station_change_station_id ` set ?cal"
  proof (cases "s \<in> ?changed")
    case True
    then show ?thesis by (simp add: v1)
  next
    case False
    have "(p \<in> F) = (p \<in> T)" if p: "after s = Some p" for p
    proof (rule ccontr)
      assume "(p \<in> F) \<noteq> (p \<in> T)"
      then have "(if p \<in> F then Offline s else Online s p) \<in> set ?cal"
        unfolding callability_changes_mem [OF os(1)] os(2) using p False by blast
      moreover have "station_change_station_id (if p \<in> F then Offline s else Online s p) = s" by simp
      ultimately show False using \<open>s \<notin> station_change_station_id ` set ?cal\<close> by (metis image_eqI)
    qed
    with False same show ?thesis by (auto simp: v1 callable_def split: option.splits)
  qed
  then show "hm_get (fold apply_station_change (client_visible_changes chs F T @ ?cal) v) s = callable after T s"
    using hm_get_apply_station_changes [of ?cal s "callable after T s" ?v] new by simp
qed

lemma apply_position_changes_ok:
  assumes ok: "coverage_ok pos m"
    and m1: "cm_network m1 = cm_network m" "online_stations m1 = online_stations m" "hm_ok (vatsim_only_positions m1)"
      "positions_match pos' (online_positions m1)"
      "set (hm_keys (online_positions m1)) \<inter> set (hm_keys (vatsim_only_positions m1)) = {}"
    and run: "apply_position_changes (all_positions m) (set (hm_keys (online_positions m))) m1 = (m', chs)"
  shows "coverage_ok pos' m' \<and> tracks chs m m' \<and> clients m' = clients m1"
proof -
  let ?net = "cm_network m"
  let ?diff = "coverage_diff ?net (all_positions m) (all_positions m1)"
  have m': "m' = update_online_stations ?diff m1" using run m1 by (simp add: apply_position_changes_def Let_def)
  then have all: "all_positions m' = all_positions m1" by (simp add: all_positions_def)
  have st: "hm_get (online_stations m') = station_map ?net (set (all_positions m1))"
    using online_stations_diff [OF coverage_okD(1,6) [OF ok]] by (simp add: m' m1(2))
  have os: "hm_ok (online_stations m')"
    using coverage_okD(3) [OF ok] by (simp add: m' m1(2) hm_ok_apply_station_changes)
  have "coverage_ok pos' m'"
    using coverage_okD(1) [OF ok] m1 os st by (intro coverage_okI) (simp_all only: all, simp_all add: m')
  moreover have "tracks chs m m'"
    unfolding tracks_def
  proof (intro conjI allI impI)
    have chs: "chs = client_visible_changes ?diff (set (hm_keys (online_positions m))) (set (hm_keys (online_positions m1))) @
        callability_changes (online_stations m') (set (map station_change_station_id ?diff))
          (set (hm_keys (online_positions m))) (set (hm_keys (online_positions m1)))"
      using run m1 by (simp add: apply_position_changes_def Let_def m')
    show "plain_changes (view m) chs"
      unfolding chs view_def coverage_okD(6) [OF ok]
      by (rule plain_sync [OF coverage_diff_is_diff [OF coverage_okD(1) [OF ok]] coverage_diff_distinct [OF coverage_okD(1) [OF ok]] os st])
  next
    fix v assume "hm_get v = view m"
    then have v: "hm_get v = callable (station_map ?net (set (all_positions m))) (set (hm_keys (online_positions m)))"
      by (simp add: view_def coverage_okD(6) [OF ok])
    have "chs = client_visible_changes ?diff (set (hm_keys (online_positions m))) (set (hm_keys (online_positions m1))) @
        callability_changes (online_stations m') (set (map station_change_station_id ?diff))
          (set (hm_keys (online_positions m))) (set (hm_keys (online_positions m1)))"
      using run m1 by (simp add: apply_position_changes_def Let_def m')
    with apply_sync_changes [OF coverage_diff_is_diff [OF coverage_okD(1) [OF ok]] os st v]
    have "hm_get (fold apply_station_change chs v) =
      callable (station_map ?net (set (all_positions m1))) (set (hm_keys (online_positions m1)))" by (simp only:)
    also have "\<dots> = view m'" unfolding view_def st by (simp add: m')
    finally show "hm_get (fold apply_station_change chs v) = view m'" .
  qed
  ultimately show ?thesis by (simp add: m')
qed

definition sync_changes ::
  "instant \<Rightarrow> (client_id, controller_info) hash_map \<Rightarrow> bool \<Rightarrow> client_manager \<Rightarrow> client_manager \<times> station_change list" where
  "sync_changes now controllers req m =
     (let (cs, ops, sync) = sync_client_positions now m controllers req;
          new_vatsim_only = rebuild_vatsim_only (cm_network m) controllers (set (hm_keys cs)) (set (hm_keys ops));
          vatsim_changed = (\<not> hm_same (vatsim_only_positions m) new_vatsim_only);
          m1 = m\<lparr>clients := cs, online_positions := ops,
                vatsim_only_positions := (if vatsim_changed then new_vatsim_only else vatsim_only_positions m)\<rparr>
      in if positions_changed sync \<or> vatsim_changed
         then apply_position_changes (all_positions m) (set (hm_keys (online_positions m))) m1 else (m1, []))"

lemma sync_vatsim_state_changes:
  obtains out disconnected m' chs where
    "sync_changes now controllers req m = (m', chs)"
    "sync_vatsim_state now controllers req m = (m', out @ broadcast_station_changes chs m', disconnected)"
proof -
  obtain cs ops sync where s: "sync_client_positions now m controllers req = (cs, ops, sync)" by (metis prod_cases3)
  obtain m' chs where c: "sync_changes now controllers req m = (m', chs)" by (cases "sync_changes now controllers req m")
  have "\<exists>out disconnected. sync_vatsim_state now controllers req m = (m', out @ broadcast_station_changes chs m', disconnected)"
    using c unfolding sync_vatsim_state_def sync_changes_def Let_def s prod.case by simp
  with c that show ?thesis by blast
qed

lemma sync_changes_ok:
  assumes inv: "coverage_inv m" and run: "sync_changes now controllers req m = (m', chs)"
  shows "coverage_inv m' \<and> tracks chs m m' \<and> hm_keys (clients m') = hm_keys (clients m)"
proof -
  obtain cs ops sync where s: "sync_client_positions now m controllers req = (cs, ops, sync)" by (metis prod_cases3)
  note cs = sync_client_positions_ok [OF inv s]
  define new where "new = rebuild_vatsim_only (cm_network m) controllers (set (hm_keys cs)) (set (hm_keys ops))"
  define m1 where "m1 = m\<lparr>clients := cs, online_positions := ops,
    vatsim_only_positions := (if \<not> hm_same (vatsim_only_positions m) new then new else vatsim_only_positions m)\<rparr>"
  have ok: "coverage_ok (position_of (clients m)) m" using inv by (simp add: coverage_inv_def)
  have new_ok: "hm_ok new" "set (hm_keys new) \<inter> set (hm_keys ops) = {}"
    using rebuild_vatsim_only_ok unfolding new_def by blast+
  have vo: "hm_ok (vatsim_only_positions m1)" "set (hm_keys (vatsim_only_positions m1)) = set (hm_keys new)"
    using new_ok(1) coverage_okD(2) [OF ok] hm_same_keys by (auto simp: m1_def)
  have disj: "set (hm_keys (online_positions m1)) \<inter> set (hm_keys (vatsim_only_positions m1)) = {}"
    unfolding vo(2) using new_ok(2) by (auto simp: m1_def)
  have eq: "sync_changes now controllers req m =
    (if positions_changed sync \<or> \<not> hm_same (vatsim_only_positions m) new
     then apply_position_changes (all_positions m) (set (hm_keys (online_positions m))) m1 else (m1, []))"
    unfolding sync_changes_def Let_def s prod.case new_def [symmetric] m1_def [symmetric] by simp
  show ?thesis
  proof (cases "positions_changed sync \<or> \<not> hm_same (vatsim_only_positions m) new")
    case True
    then have "apply_position_changes (all_positions m) (set (hm_keys (online_positions m))) m1 = (m', chs)"
      using run eq by simp
    then have "coverage_ok (position_of cs) m' \<and> tracks chs m m' \<and> clients m' = clients m1"
      using cs disj vo(1) by (intro apply_position_changes_ok [OF ok]) (simp_all add: m1_def)
    then show ?thesis using cs by (simp add: coverage_inv_def m1_def)
  next
    case False
    then have m': "m' = m1" "chs = []" using run eq by simp_all
    have keys: "set (hm_keys ops) = set (hm_keys (online_positions m))" using cs False by blast
    then have "set (all_positions m1) = set (all_positions m)" using False by (simp add: m1_def)
    then have "coverage_ok (position_of cs) m1"
      using coverage_okD [OF ok] vo(1) disj cs by (intro coverage_okI) (simp_all add: m1_def del: set_all_positions)
    moreover have "view m1 = view m" using keys by (simp add: view_def m1_def)
    ultimately show ?thesis using cs m' by (auto simp: coverage_inv_def m1_def intro: tracks_Nil)
  qed
qed

lemma sync_vatsim_state_inv: "coverage_inv m \<Longrightarrow> coverage_inv (fst (sync_vatsim_state now controllers req m))"
  by (rule sync_vatsim_state_changes [of now controllers req m]) (auto dest: sync_changes_ok)

section \<open>Replacing the network\<close>

lemma clear_positions_ok:
  assumes "sessions_ok cs" "fold (clear_position net limit) cids (cs, us) = (cs', us')"
  shows "sessions_ok cs' \<and> position_of cs' = (\<lambda>c. if c \<in> set cids then None else position_of cs c)"
  using assms
proof (induction cids arbitrary: cs us)
  case (Cons c cids)
  obtain cs1 us1 where c: "clear_position net limit c (cs, us) = (cs1, us1)" by (cases "clear_position net limit c (cs, us)")
  have "sessions_ok cs1 \<and> position_of cs1 = (position_of cs)(c := None)"
  proof (cases "hm_get cs c")
    case None
    then have "position_of cs c = None" by (simp add: position_of_def)
    with None c Cons.prems(1) fun_upd_triv [of "position_of cs" c] show ?thesis by (auto simp: clear_position_def)
  next
    case (Some s)
    let ?s = "fst (update_active_profile None net (set_position_id None s))"
    have "cs1 = hm_insert c ?s cs" using c Some by (auto simp: clear_position_def Let_def split: prod.splits)
    moreover have "sess_id ?s = c" using Some Cons.prems(1) by (simp add: sessions_ok_def)
    ultimately show ?thesis using Cons.prems(1) by (simp add: sessions_ok_insert)
  qed
  with Cons.IH [of cs1 us1] Cons.prems(2) c show ?case by (auto simp: fun_eq_iff)
qed simp

lemma remove_stale_ok:
  assumes "sessions_ok cs" "positions_match (position_of cs) ops"
    and "fold (remove_stale_position net limit) ps (ops, cs, us) = (ops', cs', us')"
  shows "sessions_ok cs' \<and> positions_match (position_of cs') ops' \<and> set (hm_keys ops') = set (hm_keys ops) - set ps"
  using assms
proof (induction ps arbitrary: ops cs us)
  case (Cons p ps)
  obtain ops1 cs1 us1 where r: "remove_stale_position net limit p (ops, cs, us) = (ops1, cs1, us1)" by (metis prod_cases3)
  have "sessions_ok cs1 \<and> positions_match (position_of cs1) ops1 \<and> set (hm_keys ops1) = set (hm_keys ops) - {p}"
  proof (cases "hm_get ops p")
    case None
    then have "p \<notin> set (hm_keys ops)" by (simp add: hm_get_None_iff)
    with None r Cons.prems show ?thesis by (auto simp: remove_stale_position_def)
  next
    case (Some cids)
    with r have ops1: "ops1 = hm_remove p ops" and f: "fold (clear_position net limit) cids (cs, us) = (cs1, us1)"
      by (auto simp: remove_stale_position_def)
    note cl = clear_positions_ok [OF Cons.prems(1) f] and cids = positions_match_Some [OF Cons.prems(2) Some]
    have "positions_match (position_of cs1) ops1"
      unfolding ops1 using cl cids by (intro positions_match_clear [OF Cons.prems(2)]) auto
    with cl ops1 show ?thesis by simp
  qed
  with Cons.IH [of cs1 ops1 us1] Cons.prems(3) r show ?case by auto
qed simp

lemma refresh_client_ok:
  assumes "sessions_ok cs" "refresh_client net limit pid src c (cs, us) = (cs', us')"
  shows "sessions_ok cs' \<and> position_of cs' = position_of cs"
proof (cases "hm_get cs c")
  case None
  with assms show ?thesis by (simp add: refresh_client_def)
next
  case (Some s)
  let ?s = "fst (update_active_profile pid net s)"
  have "cs' = hm_insert c ?s cs" using assms(2) Some by (auto simp: refresh_client_def Let_def split: prod.splits)
  moreover have "sess_id ?s = c" using Some assms(1) by (simp add: sessions_ok_def)
  moreover have "position_of cs c = sess_position_id s" using Some by (simp add: position_of_def)
  ultimately show ?thesis using assms(1) fun_upd_triv [of "position_of cs" c] by (simp add: sessions_ok_insert)
qed

lemma refresh_positions_ok:
  assumes "sessions_ok cs" "fold (refresh_position net limit) ops (cs, us) = (cs', us')"
  shows "sessions_ok cs' \<and> position_of cs' = position_of cs"
proof -
  define P where "P x \<longleftrightarrow> sessions_ok (fst x) \<and> position_of (fst x) = position_of cs"
    for x :: "(client_id, client_session) hash_map \<times> session_update list"
  have client: "P (refresh_client net limit pid src c x)" if "P x" for pid src c x
  proof (cases x)
    case (Pair cs1 us1)
    with that refresh_client_ok [of cs1 net limit pid src c us1] show ?thesis
      by (cases "refresh_client net limit pid src c (cs1, us1)") (simp add: P_def)
  qed
  have "P (refresh_position net limit x st)" if "P st" for x st
    unfolding refresh_position_def case_prod_unfold Let_def by (rule fold_inv [where P = P], fact that, rule client)
  then have "P (fold (refresh_position net limit) ops (cs, us))"
    by (intro fold_inv [where P = P]) (simp_all add: P_def assms(1))
  with assms(2) show ?thesis by (simp add: P_def)
qed

lemma covered_stations_mem:
  assumes wf: "network_wf net"
  shows "s \<in> (\<lambda>c. st_id (cov_station c)) ` set (covered_stations net pid A) \<longleftrightarrow> station_map net A s \<noteq> None"
proof -
  have ok: "hm_ok (net_stations net)" using wf by (simp add: network_wf_def)
  have "s \<in> (\<lambda>c. st_id (cov_station c)) ` set (covered_stations net pid A) \<longleftrightarrow>
    (\<exists>st \<in> set (hm_values (net_stations net)). st_id st = s \<and> controlling_position net s A \<noteq> None)"
  proof
    assume "s \<in> (\<lambda>c. st_id (cov_station c)) ` set (covered_stations net pid A)"
    then show "\<exists>st \<in> set (hm_values (net_stations net)). st_id st = s \<and> controlling_position net s A \<noteq> None"
      unfolding covered_stations_def set_sort set_map_filter by fastforce
  next
    assume "\<exists>st \<in> set (hm_values (net_stations net)). st_id st = s \<and> controlling_position net s A \<noteq> None"
    then obtain st p where st: "st \<in> set (hm_values (net_stations net))" "st_id st = s" "controlling_position net s A = Some p" by blast
    then have "\<lparr>cov_station = st, cov_is_self_controlled = (pid = Some (pos_id p))\<rparr> \<in> set (covered_stations net pid A)"
      unfolding covered_stations_def set_sort set_map_filter by (auto intro!: bexI [of _ st])
    with st(2) show "s \<in> (\<lambda>c. st_id (cov_station c)) ` set (covered_stations net pid A)" by force
  qed
  also have "\<dots> \<longleftrightarrow> station_map net A s \<noteq> None"
  proof
    assume "station_map net A s \<noteq> None"
    moreover from this obtain st where st: "hm_get (net_stations net) s = Some st"
      by (auto simp: controlling_position_def split: option.splits)
    moreover have "st \<in> set (hm_values (net_stations net))" using hm_values_mem hm_get_SomeD [OF st] by fastforce
    ultimately show "\<exists>st \<in> set (hm_values (net_stations net)). st_id st = s \<and> controlling_position net s A \<noteq> None"
      using network_wfD(2) [OF wf st] by auto
  qed auto
  finally show ?thesis .
qed

lemma covered_station_map_ok:
  assumes wf: "network_wf net"
  shows "hm_ok (covered_station_map net A) \<and> hm_get (covered_station_map net A) = station_map net (set A)"
proof
  show "hm_ok (covered_station_map net A)"
    unfolding covered_station_map_def by (rule fold_inv) (auto split: option.splits)
next
  define f where "f = (\<lambda>c :: covered_station. \<lambda>m.
    case controlling_position net (st_id (cov_station c)) (set A) of
      Some p \<Rightarrow> hm_insert (st_id (cov_station c)) (pos_id p) m | None \<Rightarrow> m)"
  have "hm_get (fold f cs m) s =
    (if s \<in> (\<lambda>c. st_id (cov_station c)) ` set cs \<and> station_map net (set A) s \<noteq> None
     then station_map net (set A) s else hm_get m s)" for cs s m
    by (induction cs arbitrary: m) (auto simp: f_def split: option.splits)
  then show "hm_get (covered_station_map net A) = station_map net (set A)"
    using covered_stations_mem [OF wf] by (auto simp: covered_station_map_def f_def [symmetric] fun_eq_iff)
qed

lemma replace_network_inv:
  assumes inv: "coverage_inv m" and wf: "network_wf net"
  shows "coverage_inv (fst (replace_network net m))"
proof -
  note ok = coverage_okD [OF conjunct2 [OF inv [unfolded coverage_inv_def]]]
  let ?stale = "filter (\<lambda>p. get_position net p = None)"
  obtain ops cs us where st: "fold (remove_stale_position net (conf_size_limit m)) (?stale (hm_keys (online_positions m)))
    (online_positions m, clients m, []) = (ops, cs, us)" by (metis prod_cases3)
  obtain cs' us' where rf: "fold (refresh_position net (conf_size_limit m)) ops (cs, us) = (cs', us')"
    by (cases "fold (refresh_position net (conf_size_limit m)) ops (cs, us)")
  define vo where "vo = fold hm_remove (?stale (hm_keys (vatsim_only_positions m))) (vatsim_only_positions m)"
  define new where "new = covered_station_map net (hs_collect (hm_keys ops @ hm_keys vo))"
  have 1: "sessions_ok cs \<and> positions_match (position_of cs) ops \<and>
      set (hm_keys ops) = set (hm_keys (online_positions m)) - set (?stale (hm_keys (online_positions m)))"
    using inv by (intro remove_stale_ok [OF _ ok(4) st]) (simp add: coverage_inv_def)
  have 2: "sessions_ok cs' \<and> position_of cs' = position_of cs" using refresh_positions_ok [OF _ rf] 1 by blast
  have vo: "hm_ok vo" "set (hm_keys vo) \<subseteq> set (hm_keys (vatsim_only_positions m))"
    unfolding vo_def using hm.ok_fold_del [OF ok(2)] hm.get_fold_del [OF ok(2)] by (auto simp: set_hm_keys split: if_splits)
  have new: "hm_ok new" "hm_get new = station_map net (set (hm_keys ops) \<union> set (hm_keys vo))"
    using covered_station_map_ok [OF wf] by (simp_all add: new_def)
  have os: "hm_ok (fold apply_station_change (compute_station_diff (online_stations m) new) (online_stations m))"
      "hm_get (fold apply_station_change (compute_station_diff (online_stations m) new) (online_stations m)) = hm_get new"
    using hm_ok_apply_station_changes [OF ok(3)] apply_station_diff [OF compute_station_diff_is_diff [OF ok(3) new(1)] refl]
    by simp_all
  have "fst (replace_network net m) =
    update_online_stations (compute_station_diff (online_stations m) new)
      (m\<lparr>cm_network := net, clients := cs', online_positions := ops, vatsim_only_positions := vo\<rparr>)"
    unfolding replace_network_def Let_def st prod.case rf vo_def [symmetric] new_def [symmetric] by simp
  moreover have "set (hm_keys ops) \<inter> set (hm_keys vo) = {}" using 1 vo(2) ok(5) by blast
  ultimately show ?thesis using 1 2 wf vo(1) os new(2) by (auto simp: coverage_inv_def intro!: coverage_okI)
qed

end
