(* ===== verification/ClientBehaviour.thy ===== *)
theory ClientBehaviour
  imports ClientCoverage
begin

text \<open>
  The client manager as a whole: the invariant of every sequence of operations, what the station
  lookups return, what a connected client is told about the callable stations, when a
  synchronisation disconnects a client, and which of a controller's connections the feed index
  keeps.
\<close>

section \<open>Sequences of operations\<close>

datatype client_op =
    AddClient instant client_info "profile_id active_profile"
  | RemoveClient "controller_info list option" client_id "disconnect_reason option"
  | ReplaceNetwork network
  | SyncVatsim instant "(client_id, controller_info) hash_map" bool

fun exec_client_op :: "client_op \<Rightarrow> client_manager \<Rightarrow> client_manager" where
  "exec_client_op (AddClient now info profile) m = fst (add_client now info profile m)"
| "exec_client_op (RemoveClient feed c reason) m = fst (remove_client feed c reason m)"
| "exec_client_op (ReplaceNetwork net) m = fst (replace_network net m)"
| "exec_client_op (SyncVatsim now controllers req) m = fst (sync_vatsim_state now controllers req m)"

text \<open>A replacing network was loaded without errors.\<close>

fun client_contract :: "client_op \<Rightarrow> bool" where
  "client_contract (ReplaceNetwork net) \<longleftrightarrow> network_wf net"
| "client_contract _ \<longleftrightarrow> True"

interpretation client_sys: step_invariant exec_client_op client_contract coverage_inv
proof
  fix x m assume "client_contract x" "coverage_inv m"
  then show "coverage_inv (exec_client_op x m)"
    by (cases x) (simp_all add: add_client_inv remove_client_inv replace_network_inv sync_vatsim_state_inv)
qed

lemma client_run_inv:
  "network_wf net \<Longrightarrow> list_all client_contract xs \<Longrightarrow> coverage_inv (run exec_client_op xs (client_manager_new net grace n))"
  by (rule client_sys.inv_run [OF coverage_inv_new])

section \<open>What one client is told\<close>

lemma view_list:
  assumes "coverage_inv m"
  shows "\<exists>w. hm_get w = view m"
proof -
  have ok: "hm_ok (online_stations m)" using assms by (simp add: coverage_inv_def coverage_ok_def)
  show ?thesis
    by (rule exI [of _ "filter (\<lambda>(_, p). p \<in> set (hm_keys (online_positions m))) (online_stations m)"])
      (simp add: hm_get_filter [OF ok] view_def callable_def fun_eq_iff split: option.splits)
qed

definition relevant_station :: "network \<Rightarrow> profile_id active_profile \<Rightarrow> station_id \<Rightarrow> bool" where
  "relevant_station net profile s =
     (case relevant_stations_of net profile of AllStations \<Rightarrow> True | Subset ids \<Rightarrow> s \<in> set ids | NoStations \<Rightarrow> False)"

definition visible_view :: "client_manager \<Rightarrow> profile_id active_profile \<Rightarrow> station_id \<Rightarrow> position_id option" where
  "visible_view m profile s = (if relevant_station (cm_network m) profile s then view m s else None)"

lemma filter_changes_relevant:
  "filter_changes net profile chs = filter (\<lambda>ch. relevant_station net profile (station_change_station_id ch)) chs"
  by (auto simp: filter_changes_def relevant_station_def split: relevant_stations.splits)

lemma apply_filtered_changes:
  assumes "\<And>s. P s \<Longrightarrow> hm_get v s = hm_get w s" "\<And>s. \<not> P s \<Longrightarrow> hm_get v s = None"
  shows "hm_get (fold apply_station_change (filter (\<lambda>ch. P (station_change_station_id ch)) chs) v) s =
    (if P s then hm_get (fold apply_station_change chs w) s else None)"
  using assms
proof (induction chs arbitrary: v w)
  case (Cons ch chs)
  show ?case
  proof (cases "P (station_change_station_id ch)")
    case True
    have "hm_get (fold apply_station_change (filter (\<lambda>ch. P (station_change_station_id ch)) chs) (apply_station_change ch v)) s =
      (if P s then hm_get (fold apply_station_change chs (apply_station_change ch w)) s else None)"
      by (rule Cons.IH) (use Cons.prems True in \<open>auto simp: hm_get_apply_station_change\<close>)
    with True show ?thesis by simp
  next
    case False
    have "hm_get (fold apply_station_change (filter (\<lambda>ch. P (station_change_station_id ch)) chs) v) s =
      (if P s then hm_get (fold apply_station_change chs (apply_station_change ch w)) s else None)"
      by (rule Cons.IH) (use Cons.prems False in \<open>auto simp: hm_get_apply_station_change\<close>)
    with False show ?thesis by simp
  qed
qed simp

lemma filter_changes_tracks:
  assumes inv: "coverage_inv m" and tr: "tracks chs m m'" and net: "cm_network m' = cm_network m"
    and v: "hm_get v = visible_view m profile"
  shows "hm_get (fold apply_station_change (filter_changes (cm_network m) profile chs) v) = visible_view m' profile"
proof
  fix s
  obtain w where w: "hm_get w = view m" using view_list [OF inv] by blast
  have "hm_get (fold apply_station_change chs w) = view m'" using tr w by (simp add: tracks_def)
  then show "hm_get (fold apply_station_change (filter_changes (cm_network m) profile chs) v) s = visible_view m' profile s"
    unfolding filter_changes_relevant
    by (subst apply_filtered_changes [where w = w]) (auto simp: v w visible_view_def net)
qed

text \<open>The fan-out without its cache.\<close>

definition broadcast_to :: "network \<Rightarrow> station_change list \<Rightarrow> client_session \<Rightarrow> outgoing list" where
  "broadcast_to net chs s =
     (if filter_changes net (sess_active_profile s) chs = [] then []
      else [Direct (sess_id s) (StationChanges (filter_changes net (sess_active_profile s) chs))])"

lemma broadcast_fold:
  assumes "\<And>pr fs. hm_get cache pr = Some fs \<Longrightarrow> fs = filter_changes net pr chs"
  shows "snd (fold (broadcast_step net chs) ss (cache, out)) = out @ concat (map (broadcast_to net chs) ss)"
  using assms
proof (induction ss arbitrary: cache out)
  case (Cons s ss)
  define cache' where "cache' = (case hm_get cache (sess_active_profile s) of Some _ \<Rightarrow> cache
    | None \<Rightarrow> hm_insert (sess_active_profile s) (filter_changes net (sess_active_profile s) chs) cache)"
  have "broadcast_step net chs s (cache, out) = (cache', out @ broadcast_to net chs s)"
    using Cons.prems by (auto simp: broadcast_step_def cache'_def broadcast_to_def Let_def split: option.splits)
  moreover have "fs = filter_changes net pr chs" if "hm_get cache' pr = Some fs" for pr fs
    using that Cons.prems by (auto simp: cache'_def split: option.splits if_splits)
  ultimately show ?case using Cons.IH [of cache' "out @ broadcast_to net chs s"] by simp
qed simp

lemma broadcast_station_changes_uncached:
  "broadcast_station_changes chs m = concat (map (broadcast_to (cm_network m) chs) (hm_values (clients m)))"
proof (cases "chs = []")
  case True
  then have "filter_changes net pr chs = []" for net pr by (simp add: filter_changes_relevant)
  then show ?thesis using True by (simp add: broadcast_station_changes_def broadcast_to_def)
next
  case False
  then show ?thesis using broadcast_fold [of "[]" "cm_network m" chs "hm_values (clients m)" "[]"]
    by (simp add: broadcast_station_changes_def)
qed

text \<open>The station changes among some messages that go to one client.\<close>

fun station_changes_for :: "client_id \<Rightarrow> outgoing list \<Rightarrow> station_change list" where
  "station_changes_for c [] = []"
| "station_changes_for c (Direct d (StationChanges chs) # out) =
     (if d = c then chs else []) @ station_changes_for c out"
| "station_changes_for c (_ # out) = station_changes_for c out"

lemma station_changes_for_append [simp]:
  "station_changes_for c (out @ out') = station_changes_for c out @ station_changes_for c out'"
  by (induction c out rule: station_changes_for.induct) simp_all

lemma broadcast_reaches:
  assumes "sessions_ok (clients m)" "hm_get (clients m) c = Some s"
  shows "station_changes_for c (broadcast_station_changes chs m) = filter_changes (cm_network m) (sess_active_profile s) chs"
proof -
  obtain us vs where cs: "clients m = us @ (c, s) # vs" "c \<notin> set (hm_keys us)" using assms(2) by (rule hm_split)
  have one: "station_changes_for c (broadcast_to net chs t) =
      (if sess_id t = c then filter_changes net (sess_active_profile t) chs else [])" for net t
    by (simp add: broadcast_to_def)
  have id: "sess_id t = d" if "(d, t) \<in> set (clients m)" for d t
    using assms(1) that by (auto simp: sessions_ok_def hm_get_iff)
  have none: "station_changes_for c (concat (map (broadcast_to net chs) (hm_values ws))) = []"
    if "c \<notin> set (hm_keys ws)" "set ws \<subseteq> set (clients m)" for net ws
    using that by (induction ws) (auto simp: one dest: id)
  have "c \<notin> set (hm_keys vs)" using assms(1) cs(1) by (auto simp: sessions_ok_def hm_ok_def hm_keys_def)
  moreover have "set us \<subseteq> set (clients m)" "set vs \<subseteq> set (clients m)" by (auto simp: cs(1))
  ultimately have "station_changes_for c (concat (map (broadcast_to (cm_network m) chs) (hm_values ws))) = []"
    if "ws \<in> {us, vs}" for ws using that none [of ws] cs(2) by blast
  then show ?thesis using cs id [of c s] by (simp add: broadcast_station_changes_uncached one)
qed

section \<open>Lookups\<close>

lemma clients_for_position_spec:
  assumes "coverage_inv m"
  shows "set (clients_for_position m p) = {c. \<exists>s. get_client m c = Some s \<and> sess_position_id s = Some p}"
proof -
  have pm: "positions_match (position_of (clients m)) (online_positions m)"
    using assms by (simp add: coverage_inv_def coverage_ok_def)
  have "{c. position_of (clients m) c = Some p} = {c. \<exists>s. get_client m c = Some s \<and> sess_position_id s = Some p}"
    by (auto simp: position_of_def get_client_def bind_eq_Some_conv)
  moreover have "set (clients_for_position m p) = {c. position_of (clients m) c = Some p}"
    using positions_match_Some [OF pm, of p] positions_match_None [OF pm, of p]
    by (cases "hm_get (online_positions m) p") (simp_all add: clients_for_position_def)
  ultimately show ?thesis by simp
qed

text \<open>
  C3: In every state the client manager reaches from a loaded network, by adding and removing
  clients, replacing the network and synchronising with the data feed, in any order: the online
  positions are the positions of the connected clients with exactly those clients, VATSIM-only
  positions are none of them, and the online stations are exactly the stations the network
  assigns to an online position, each under the position that controls it.
\<close>

theorem client_manager_invariant:
  assumes "network_wf net" "list_all client_contract xs"
  shows "coverage_inv (run exec_client_op xs (client_manager_new net grace n))"
  by (rule client_run_inv [OF assms])

text \<open>
  In every reachable state the clients a call to a station rings are exactly the connected
  clients on the position that controls the station among all online positions, VATSIM-only ones
  included: a station controlled by a VATSIM-only position has no clients.
\<close>

theorem clients_for_station_correct:
  assumes "network_wf net" "list_all client_contract xs"
    and "m = run exec_client_op xs (client_manager_new net grace n)"
  shows "set (clients_for_station m st) =
    {c. \<exists>s p. get_client m c = Some s \<and> sess_position_id s = Some p \<and>
       map_option pos_id (controlling_position (cm_network m) st (set (all_positions m))) = Some p}"
proof -
  have inv: "coverage_inv m" using client_run_inv [OF assms(1,2)] assms(3) by simp
  then have "hm_get (online_stations m) st = station_map (cm_network m) (set (all_positions m)) st"
    by (simp add: coverage_inv_def coverage_ok_def)
  then show ?thesis using clients_for_position_spec [OF inv]
    by (cases "controlling_position (cm_network m) st (set (all_positions m))") (auto simp: clients_for_station_def)
qed

lemma station_changes_for_connected [simp]:
  "station_changes_for c (Broadcast msg # out) = station_changes_for c out"
  "station_changes_for c (Shutdown d r # out) = station_changes_for c out"
  by simp_all

lemma add_client_network [simp]: "cm_network (fst (add_client now info profile m)) = cm_network m"
  by (auto simp: add_client_def occupy_position_def Let_def split: option.splits list.splits)

lemma remove_client_network [simp]: "cm_network (fst (remove_client feed c reason m)) = cm_network m"
  by (auto simp: remove_client_def vacate_position_def Let_def split: option.splits)

text \<open>
  When a client is added, every client that was connected before is sent exactly the station
  changes that keep its picture right: if it knows the callable stations of its profile and applies
  the changes it is sent in order, it knows the callable stations of its profile afterwards.
\<close>

theorem add_client_keeps_views:
  assumes "coverage_inv m" "hm_get (clients m) (info_id info) = None" "hm_get (clients m) c = Some s"
    and "add_client now info profile m = (m', res, out)"
    and "hm_get v = visible_view m (sess_active_profile s)"
  shows "hm_get (fold apply_station_change (station_changes_for c out) v) = visible_view m' (sess_active_profile s)"
proof (rule add_client_accepted [OF assms(1,2), of now profile])
  fix m1 chs
  assume eq: "add_client now info profile m = (m1, Inr (client_session_new now info profile),
      Broadcast (ClientConnected info) # broadcast_station_changes chs m1)"
    and inv: "coverage_inv m1" and tr: "tracks chs m m1"
    and cl: "clients m1 = hm_insert (info_id info) (client_session_new now info profile) (clients m)"
  have net: "cm_network m1 = cm_network m" using eq add_client_network [of now info profile m] by simp
  have "hm_get (clients m1) c = Some s" using assms(2,3) cl by auto
  with inv have "station_changes_for c (broadcast_station_changes chs m1) = filter_changes (cm_network m) (sess_active_profile s) chs"
    by (subst broadcast_reaches) (simp_all add: coverage_inv_def net)
  with eq assms(4) filter_changes_tracks [OF assms(1) tr net assms(5)] show ?thesis by simp
qed

text \<open>
  When a client is removed, every client that stays connected is sent exactly the station
  changes that keep its picture right, whether the removed client's position stays online with
  others, becomes VATSIM-only or goes offline.
\<close>

theorem remove_client_keeps_views:
  assumes "coverage_inv m" "hm_get (clients m) d = Some t" "hm_get (clients m) c = Some s" "c \<noteq> d"
    and "remove_client feed d reason m = (m', out)"
    and "hm_get v = visible_view m (sess_active_profile s)"
  shows "hm_get (fold apply_station_change (station_changes_for c out) v) = visible_view m' (sess_active_profile s)"
proof (rule remove_client_known [OF assms(1,2), where feed = feed and reason = reason])
  fix m1 chs
  assume inv: "coverage_inv m1" and tr: "tracks chs m m1" and cl: "clients m1 = hm_remove d (clients m)"
    and eq: "hm_remove d (clients m) \<noteq> [] \<Longrightarrow> remove_client feed d reason m =
      (m1, [Shutdown d reason, Broadcast (ClientDisconnected d)] @ broadcast_station_changes chs m1)"
  have s: "hm_get (clients m1) c = Some s" using assms(3,4) cl by auto
  then have "hm_remove d (clients m) \<noteq> []" using cl by (metis map_of.simps(1) option.distinct(1))
  note eq = eq [OF this]
  have net: "cm_network m1 = cm_network m" using eq remove_client_network [of feed d reason m] by simp
  from inv s have "station_changes_for c (broadcast_station_changes chs m1) = filter_changes (cm_network m) (sess_active_profile s) chs"
    by (subst broadcast_reaches) (simp_all add: coverage_inv_def net)
  with eq assms(5) filter_changes_tracks [OF assms(1) tr net assms(6)] show ?thesis by simp
qed

text \<open>The picture of a client that has followed every change.\<close>

definition known_stations :: "client_manager \<Rightarrow> profile_id active_profile \<Rightarrow> (station_id, position_id) hash_map" where
  "known_stations m profile =
     filter (\<lambda>(s, p). p \<in> set (hm_keys (online_positions m)) \<and> relevant_station (cm_network m) profile s) (online_stations m)"

lemma known_stations_view: "coverage_inv m \<Longrightarrow> hm_get (known_stations m profile) = visible_view m profile"
  by (auto simp: known_stations_def coverage_inv_def coverage_ok_def hm_get_filter visible_view_def view_def callable_def fun_eq_iff
      split: option.splits)

lemma known_all: "coverage_inv m \<Longrightarrow> hm_get (known_stations m Custom) = view m"
  using known_stations_view [of m Custom] by (simp add: visible_view_def relevant_station_def relevant_stations_of_def fun_eq_iff)

text \<open>Changes that turn one view into another say of every station they name what it has become.\<close>

lemma tracks_new_controller:
  assumes "coverage_inv m" "tracks chs m m'" "ch \<in> set chs"
  shows "view m' (station_change_station_id ch) = new_controller ch"
proof -
  from known_all [OF assms(1)] assms(2) have "view m' = hm_get (fold apply_station_change chs (known_stations m Custom))" by (simp add: tracks_def)
  moreover have "inj_on station_change_station_id (set chs)" using assms(2) by (simp add: tracks_def plain_changes_def distinct_map)
  then have "new_controller c = new_controller ch" if "c \<in> set chs" "station_change_station_id c = station_change_station_id ch" for c
    using inj_onD that assms(3) by metis
  note hm_get_apply_station_changes [of chs "station_change_station_id ch" "new_controller ch", OF this]
  ultimately show ?thesis using assms(3) by simp
qed

lemma tracks_complete:
  assumes "coverage_inv m" "tracks chs m m'" "view m s \<noteq> view m' s"
  shows "s \<in> station_change_station_id ` set chs"
proof (rule ccontr)
  assume "s \<notin> station_change_station_id ` set chs"
  then have "hm_get (fold apply_station_change chs v) s = hm_get v s" for v
    using hm_get_apply_station_changes [of chs s None v] by auto
  then show False using known_all [OF assms(1)] assms(2,3) by (metis tracks_def)
qed

text \<open>
  C21: A synchronisation with the data feed broadcasts, as its last messages, station changes, however
  many clients changed their position and however the VATSIM-only positions changed. They name every
  station whose controlling position among those with clients differs before and after, and no station twice.
  What they say is true: a station that comes online was not callable and is now, at the position
  named; one that is handed off was callable at the one position and is now at the other; one that goes
  offline is not callable afterwards. (A station that was not callable before may be told
  to go offline once more.) So applying them in order turns the callable stations before the
  synchronisation into those after it.
\<close>

theorem sync_changes_exact:
  assumes "coverage_inv m"
  shows "\<exists>m' out chs disconnected.
    sync_vatsim_state now controllers req m = (m', out @ broadcast_station_changes chs m', disconnected) \<and>
    distinct (map station_change_station_id chs) \<and>
    (\<forall>s. view m s \<noteq> view m' s \<longrightarrow> s \<in> station_change_station_id ` set chs) \<and>
    (\<forall>ch \<in> set chs. case ch of
        Online s p \<Rightarrow> view m s = None \<and> view m' s = Some p
      | Handoff s p q \<Rightarrow> view m s = Some p \<and> view m' s = Some q \<and> p \<noteq> q
      | Offline s \<Rightarrow> view m' s = None) \<and>
    (\<forall>v. hm_get v = view m \<longrightarrow> hm_get (fold apply_station_change chs v) = view m')"
proof (rule sync_vatsim_state_changes [of now controllers req m])
  fix out disconnected m' chs
  assume "sync_changes now controllers req m = (m', chs)"
    and eq: "sync_vatsim_state now controllers req m = (m', out @ broadcast_station_changes chs m', disconnected)"
  with sync_changes_ok [OF assms] have tr: "tracks chs m m'" by blast
  have "case ch of
        Online s p \<Rightarrow> view m s = None \<and> view m' s = Some p
      | Handoff s p q \<Rightarrow> view m s = Some p \<and> view m' s = Some q \<and> p \<noteq> q
      | Offline s \<Rightarrow> view m' s = None" if "ch \<in> set chs" for ch
    using tracks_new_controller [OF assms tr that] tr that by (cases ch) (auto simp: tracks_def plain_changes_def)
  with eq tr tracks_complete [OF assms tr] show ?thesis unfolding tracks_def plain_changes_def by blast
qed

text \<open>
  The station list a client is sent holds exactly the callable stations of its profile, sorted,
  each marked as its own when the client's position controls it.
\<close>

theorem list_stations_exact:
  "set (list_stations m profile self) =
     {\<lparr>si_id = st, si_own = (self = Some p)\<rparr> | st p. visible_view m profile st = Some p} \<and>
   sorted (map si_id (list_stations m profile self))"
proof
  define vis where "vis = (\<lambda>id. case hm_get (online_stations m) id of
      Some controller \<Rightarrow>
        if hm_contains_key controller (online_positions m)
        then Some \<lparr>si_id = id, si_own = (self = Some controller)\<rparr> else None
    | None \<Rightarrow> None)"
  have vis: "vis id = map_option (\<lambda>p. \<lparr>si_id = id, si_own = (self = Some p)\<rparr>) (view m id)" for id
    by (simp add: vis_def view_def callable_def hm_contains_key_iff split: option.splits)
  have eq: "list_stations m profile self = (case relevant_stations_of (cm_network m) profile of
      NoStations \<Rightarrow> []
    | AllStations \<Rightarrow> sort_key si_id (List.map_filter vis (hm_keys (online_stations m)))
    | Subset ids \<Rightarrow> sort_key si_id (List.map_filter vis ids))"
    unfolding list_stations_def vis_def Let_def by (rule refl)
  show "sorted (map si_id (list_stations m profile self))"
    by (simp add: eq split: relevant_stations.splits)
  have dom: "id \<in> set (hm_keys (online_stations m))" if "view m id = Some p" for id p
    using that by (auto simp: view_def callable_def set_hm_keys split: option.splits if_splits)
  show "set (list_stations m profile self) =
      {\<lparr>si_id = st, si_own = (self = Some p)\<rparr> | st p. visible_view m profile st = Some p}"
    using dom by (auto simp: eq set_map_filter vis visible_view_def relevant_station_def split: relevant_stations.splits)
qed

section \<open>Disconnecting clients without a VATSIM connection\<close>

definition missed :: "(client_id, controller_info) hash_map \<Rightarrow> client_id \<Rightarrow> bool" where
  "missed controllers c \<longleftrightarrow>
     (case hm_get controllers c of None \<Rightarrow> True | Some ctl \<Rightarrow> ctl_facility_type ctl = FacilityUnknown)"

text \<open>Whom a synchronisation reports, client by client.\<close>

definition sync_verdict ::
  "instant \<Rightarrow> client_manager \<Rightarrow> (client_id, controller_info) hash_map \<Rightarrow> bool \<Rightarrow> client_id \<times> client_session
    \<Rightarrow> (client_id \<times> disconnect_reason) list" where
  "sync_verdict now m controllers req = (\<lambda>(c, s).
     if is_within_position_grace_period now (position_grace_period m) s then []
     else if missed controllers c then (if req \<and> sess_pending_disconnect s then [(c, NoActiveVatsimConnection)] else [])
     else
       (let ctl = the (hm_get controllers c);
            positions = find_positions (cm_network m) (ctl_callsign ctl) (ctl_frequency ctl) (ctl_facility_type ctl)
        in if (info_display_name (sess_client_info s) \<noteq> ctl_callsign ctl \<or> info_frequency (sess_client_info s) \<noteq> ctl_frequency ctl) \<and>
              length positions > 1
           then [(c, AmbiguousVatsimPosition (map pos_id positions))] else []))"

lemma move_disconnected [simp]:
  "disconnected_clients (snd (leave_position c s p (ops, r))) = disconnected_clients r"
  "disconnected_clients (snd (enter_position c s p (ops, r))) = disconnected_clients r"
  by (auto simp: leave_position_def enter_position_def Let_def split: option.splits)

lemma change_position_disconnected [simp]:
  "disconnected_clients (snd (snd (change_position net limit c new s ops r))) = disconnected_clients r"
proof -
  have l: "disconnected_clients (snd (leave_position c s' p x)) = disconnected_clients (snd x)"
    and e: "disconnected_clients (snd (enter_position c s' p x)) = disconnected_clients (snd x)" for s' p x
    by (cases x; simp)+
  show ?thesis
    unfolding change_position_def Let_def case_prod_unfold
    by (cases "sess_position_id s"; cases new) (simp_all add: l e)
qed

lemma grace_take_pending [simp]:
  "is_within_position_grace_period now g (fst (take_pending_disconnect s)) = is_within_position_grace_period now g s"
  by (simp add: is_within_position_grace_period_def take_pending_disconnect_def)

lemma sync_client_missed:
  assumes "missed controllers c"
  shows "sync_client now m controllers req c s ops r =
    (if req \<and> \<not> is_within_position_grace_period now (position_grace_period m) s
     then (s\<lparr>sess_pending_disconnect := \<not> sess_pending_disconnect s\<rparr>, ops,
           if sess_pending_disconnect s
           then r\<lparr>disconnected_clients := disconnected_clients r @ [(c, NoActiveVatsimConnection)]\<rparr>
           else r\<lparr>marked_pending := marked_pending r + 1\<rparr>)
     else (s, ops, r))"
  using assms
  by (auto simp: sync_client_def missed_def disconnect_or_mark_pending_def take_pending_disconnect_def
      mark_pending_disconnect_def Let_def split: option.splits)

lemma sync_client_found:
  assumes "\<not> missed controllers c" "hm_get controllers c = Some ctl"
  shows "disconnected_clients (snd (snd (sync_client now m controllers req c s ops r))) =
    disconnected_clients r @ sync_verdict now m controllers req (c, s)"
proof -
  have known: "ctl_facility_type ctl \<noteq> FacilityUnknown" using assms by (simp add: missed_def)
  let ?s0 = "fst (take_pending_disconnect s)"
  have upd: "snd (update_client_info ctl ?s0) \<longleftrightarrow>
      info_display_name (sess_client_info s) \<noteq> ctl_callsign ctl \<or> info_frequency (sess_client_info s) \<noteq> ctl_frequency ctl"
    by (simp add: update_client_info_def take_pending_disconnect_def Let_def)
  show ?thesis
    unfolding sync_client_def sync_verdict_def Let_def case_prod_unfold
    using assms known by (simp add: upd)
qed

lemma sync_client_disconnected:
  "disconnected_clients (snd (snd (sync_client now m controllers req c s ops r))) =
   disconnected_clients r @ sync_verdict now m controllers req (c, s)"
proof (cases "missed controllers c")
  case True
  then show ?thesis by (simp add: sync_client_missed sync_verdict_def)
next
  case False
  then obtain ctl where "hm_get controllers c = Some ctl" by (auto simp: missed_def split: option.splits)
  with False show ?thesis by (rule sync_client_found)
qed

lemma sync_steps_disconnected:
  "disconnected_clients (snd (snd (fold (sync_step now m controllers req) rest (cs, ops, r)))) =
   disconnected_clients r @ concat (map (sync_verdict now m controllers req) rest)"
proof (induction rest arbitrary: cs ops r)
  case (Cons x rest)
  obtain c s where x: "x = (c, s)" by (cases x)
  obtain s' ops' r' where t: "sync_client now m controllers req c s ops r = (s', ops', r')" by (metis prod_cases3)
  have "disconnected_clients r' = disconnected_clients r @ sync_verdict now m controllers req (c, s)"
    using sync_client_disconnected [of now m controllers req c s ops r] t by simp
  with Cons.IH [of "cs @ [(c, s')]" ops' r'] show ?case by (simp add: x sync_step_def t)
qed simp

lemma sync_disconnected_spec:
  "snd (snd (sync_vatsim_state now controllers req m)) = concat (map (sync_verdict now m controllers req) (clients m))"
  using sync_steps_disconnected [of now m controllers req "clients m" "[]" "online_positions m" client_position_sync_new]
  unfolding sync_vatsim_state_def sync_client_positions_def Let_def case_prod_unfold
  by (simp add: client_position_sync_new_def)

lemma sync_steps_get:
  assumes "hm_ok (done @ rest)" "hm_get rest c = Some s"
  shows "\<exists>o1 r1. hm_get (fst (fold (sync_step now m controllers req) rest (done, ops, r))) c =
    Some (fst (sync_client now m controllers req c s o1 r1))"
proof -
  obtain us vs where rest: "rest = us @ (c, s) # vs" "c \<notin> set (hm_keys us)" using assms(2) by (rule hm_split)
  have grow: "\<exists>ws. fst (fold (sync_step now m controllers req) xs (d, o1, r1)) = d @ ws \<and> hm_keys ws = hm_keys xs"
    for xs d o1 r1
  proof (induction xs arbitrary: d o1 r1)
    case (Cons x xs)
    obtain e t where x: "x = (e, t)" by (cases x)
    obtain t' o2 r2 where t: "sync_client now m controllers req e t o1 r1 = (t', o2, r2)" by (metis prod_cases3)
    from Cons.IH [of "d @ [(e, t')]" o2 r2] show ?case by (auto simp: x sync_step_def t)
  qed simp
  obtain d1 o1 r1 where f: "fold (sync_step now m controllers req) us (done, ops, r) = (d1, o1, r1)" by (metis prod_cases3)
  obtain s' o2 r2 where t: "sync_client now m controllers req c s o1 r1 = (s', o2, r2)" by (metis prod_cases3)
  obtain ws where d1: "d1 = done @ ws" "hm_keys ws = hm_keys us" using grow [of us "done" ops r] f by auto
  obtain zs where "fst (fold (sync_step now m controllers req) vs (d1 @ [(c, s')], o2, r2)) = (d1 @ [(c, s')]) @ zs"
    using grow by blast
  moreover have "hm_get d1 c = None"
    using assms(1) rest d1 by (auto simp: hm_get_None_iff hm_ok_def hm_keys_def)
  moreover have "sync_step now m controllers req (c, s) (d1, o1, r1) = (d1 @ [(c, s')], o2, r2)"
    by (simp add: sync_step_def t)
  ultimately have "hm_get (fst (fold (sync_step now m controllers req) rest (done, ops, r))) c = Some s'"
    by (simp add: rest(1) f map_add_def)
  with t show ?thesis by (metis fst_conv)
qed

lemma sync_clients:
  "clients (fst (sync_vatsim_state now controllers req m)) = fst (sync_client_positions now m controllers req)"
  by (auto simp: sync_vatsim_state_def apply_position_changes_def Let_def split: prod.splits)

lemma sync_session:
  assumes "coverage_inv m" "hm_get (clients m) c = Some s"
  shows "\<exists>o1 r1. hm_get (clients (fst (sync_vatsim_state now controllers req m))) c =
    Some (fst (sync_client now m controllers req c s o1 r1))"
  using sync_steps_get [of "[]" "clients m" c s] assms
  by (simp add: sync_clients sync_client_positions_def coverage_inv_def sessions_ok_def)

text \<open>
  A synchronisation reports exactly these clients for disconnection, in the order of the
  sessions: those outside their grace period that were already marked and still have no usable
  VATSIM connection (when an active connection is required), and those whose callsign or frequency
  changed to one that several positions match, with these positions.
\<close>

theorem sync_disconnects:
  "snd (snd (sync_vatsim_state now controllers req m)) = concat (map (sync_verdict now m controllers req) (clients m))"
  by (rule sync_disconnected_spec)

text \<open>
  A client is disconnected for a missing VATSIM connection only after two consecutive
  synchronisations outside its grace period that missed it: the first marks it, the second reports
  it.
\<close>

theorem two_misses_disconnect:
  assumes "coverage_inv m" "hm_get (clients m) c = Some s" "\<not> sess_pending_disconnect s"
    and "\<not> is_within_position_grace_period t1 (position_grace_period m) s" "t1 \<le> t2"
    and "missed feed1 c" "missed feed2 c"
    and "sync_vatsim_state t1 feed1 True m = (m1, out1, d1)" "sync_vatsim_state t2 feed2 True m1 = (m2, out2, d2)"
  shows "(c, NoActiveVatsimConnection) \<notin> set d1 \<and> (c, NoActiveVatsimConnection) \<in> set d2"
proof -
  have d1: "d1 = concat (map (sync_verdict t1 m feed1 True) (clients m))"
    using sync_disconnected_spec [of t1 feed1 True m] assms(8) by simp
  have d2: "d2 = concat (map (sync_verdict t2 m1 feed2 True) (clients m1))"
    using sync_disconnected_spec [of t2 feed2 True m1] assms(9) by simp
  have only: "fst y = d" if "y \<in> set (sync_verdict now n feed req (d, t))" for y now n feed req d t
    using that by (auto simp: sync_verdict_def Let_def split: if_splits)
  have "(c, NoActiveVatsimConnection) \<notin> set (sync_verdict t1 m feed1 True (d, t))" if t: "(d, t) \<in> set (clients m)" for d t
  proof (cases "d = c")
    case True
    then have "t = s" using t assms(1,2) by (auto simp: coverage_inv_def sessions_ok_def hm_get_iff [symmetric])
    with True assms(3,6) show ?thesis by (simp add: sync_verdict_def)
  next
    case False
    with only [of "(c, NoActiveVatsimConnection)" t1 m feed1 True d t] show ?thesis by auto
  qed
  then have "(c, NoActiveVatsimConnection) \<notin> set d1" unfolding d1 by auto
  moreover obtain s1 where s1: "hm_get (clients m1) c = Some s1" "s1 = s\<lparr>sess_pending_disconnect := True\<rparr>"
    using sync_session [OF assms(1,2), of t1 feed1 True] assms(3,4,8) sync_client_missed [OF assms(6)] by auto
  moreover have "position_grace_period m1 = position_grace_period m"
    using assms(8) by (auto simp: sync_vatsim_state_def apply_position_changes_def update_online_stations_def Let_def split: prod.splits if_splits)
  then have "\<not> is_within_position_grace_period t2 (position_grace_period m1) s1"
    using assms(4,5) s1(2) by (auto simp: is_within_position_grace_period_def)
  then have "(c, NoActiveVatsimConnection) \<in> set (sync_verdict t2 m1 feed2 True (c, s1))"
    using assms(7) s1(2) by (simp add: sync_verdict_def)
  then have "(c, NoActiveVatsimConnection) \<in> set d2"
    unfolding d2 using hm_get_SomeD [OF s1(1)] by auto
  ultimately show ?thesis by blast
qed

section \<open>Several connections of one controller\<close>

lemma index_step_inv:
  assumes "index_step c m = m'"
    and "case hm_get m cid of None \<Rightarrow> \<forall>d \<in> A. ctl_cid d = cid \<longrightarrow> suffix ''_SUP'' (ctl_callsign d)
      | Some b \<Rightarrow> b \<in> A \<and> ctl_cid b = cid \<and> \<not> suffix ''_SUP'' (ctl_callsign b) \<and>
          (\<forall>d \<in> A. ctl_cid d = cid \<longrightarrow> \<not> suffix ''_SUP'' (ctl_callsign d) \<longrightarrow> rank d \<le> rank b)"
  shows "case hm_get m' cid of None \<Rightarrow> \<forall>d \<in> insert c A. ctl_cid d = cid \<longrightarrow> suffix ''_SUP'' (ctl_callsign d)
      | Some b \<Rightarrow> b \<in> insert c A \<and> ctl_cid b = cid \<and> \<not> suffix ''_SUP'' (ctl_callsign b) \<and>
          (\<forall>d \<in> insert c A. ctl_cid d = cid \<longrightarrow> \<not> suffix ''_SUP'' (ctl_callsign d) \<longrightarrow> rank d \<le> rank b)"
proof (cases "ctl_cid c = cid \<and> \<not> suffix ''_SUP'' (ctl_callsign c)")
  case True
  show ?thesis
  proof (cases "hm_get m cid")
    case None
    with True assms show ?thesis by (auto simp: index_step_def)
  next
    case (Some b)
    with True assms show ?thesis
      by (cases "rank b < rank c") (auto simp: index_step_def, meson less_imp_le order.trans)
  qed
next
  case False
  then have "hm_get m' cid = hm_get m cid"
    using assms(1) by (auto simp: index_step_def split: if_splits option.splits)
  with False assms(2) show ?thesis by (auto split: option.splits)
qed

lemma index_by_cid_spec:
  "case hm_get (index_by_cid cs) cid of None \<Rightarrow> \<forall>d \<in> set cs. ctl_cid d = cid \<longrightarrow> suffix ''_SUP'' (ctl_callsign d)
   | Some b \<Rightarrow> b \<in> set cs \<and> ctl_cid b = cid \<and> \<not> suffix ''_SUP'' (ctl_callsign b) \<and>
       (\<forall>d \<in> set cs. ctl_cid d = cid \<longrightarrow> \<not> suffix ''_SUP'' (ctl_callsign d) \<longrightarrow> rank d \<le> rank b)"
proof (induction cs rule: rev_induct)
  case (snoc c cs)
  have "index_step c (index_by_cid cs) = index_by_cid (cs @ [c])" by (simp add: index_by_cid_def)
  moreover have "set (cs @ [c]) = insert c (set cs)" by simp
  ultimately show ?case using index_step_inv [OF _ snoc.IH] by (simp only:)
qed (simp add: index_by_cid_def)

text \<open>
  The feed index keeps, for every controller, a connection of highest rank among its
  non-supervisor connections, and no connection only when it has none; so when connections of one
  controller with equal rank are equal, the index does not depend on the order of the feed.
\<close>

theorem index_by_cid_order_free:
  assumes "set feed = set feed'"
    and "\<And>c d. c \<in> set feed \<Longrightarrow> d \<in> set feed \<Longrightarrow> ctl_cid c = ctl_cid d \<Longrightarrow> rank c = rank d \<Longrightarrow> c = d"
  shows "hm_get (index_by_cid feed) cid = hm_get (index_by_cid feed') cid"
proof (cases "hm_get (index_by_cid feed) cid")
  case None
  then show ?thesis
    using index_by_cid_spec [of feed cid] index_by_cid_spec [of feed' cid] assms(1) by (auto split: option.splits)
next
  case (Some b)
  note b = index_by_cid_spec [of feed cid, unfolded Some option.case]
  show ?thesis
  proof (cases "hm_get (index_by_cid feed') cid")
    case None
    with index_by_cid_spec [of feed' cid] b assms(1) show ?thesis by auto
  next
    case (Some b')
    note b' = index_by_cid_spec [of feed' cid, unfolded Some option.case]
    from b b' assms(1) have "rank b = rank b'" by (auto intro: antisym)
    with assms b b' have "b = b'" by auto
    with Some \<open>hm_get (index_by_cid feed) cid = Some b\<close> show ?thesis by simp
  qed
qed

section \<open>Examples\<close>

definition demo_info :: "string \<Rightarrow> string \<Rightarrow> string \<Rightarrow> client_info" where
  "demo_info c name pos =
     \<lparr>info_id = ClientId c, info_display_name = name, info_frequency = ''119.400'',
      info_position_id = (if pos = [] then None else Some (PositionId pos))\<rparr>"

definition demo_controller :: "string \<Rightarrow> string \<Rightarrow> string \<Rightarrow> facility_type \<Rightarrow> client_id \<times> controller_info" where
  "demo_controller c callsign freq ft =
     (ClientId c, \<lparr>ctl_cid = ClientId c, ctl_callsign = callsign, ctl_frequency = freq, ctl_facility_type = ft, ctl_visual_range = None\<rparr>)"

text \<open>
  Client 1 works the tower, client 2 no position; controller 3, who is not a client, works the
  approach, which the synchronisation finds in the feed.
\<close>

definition demo_feed :: "(client_id, controller_info) hash_map" where
  "demo_feed =
     [demo_controller ''1'' ''LOWW_TWR'' ''119.400'' Tower, demo_controller ''3'' ''LOWW_APP'' ''134.675'' Approach]"

definition demo_ops :: "client_op list" where
  "demo_ops =
     [AddClient 0 (demo_info ''1'' ''LOWW_TWR'' ''LOWW_TWR'') Custom, AddClient 0 (demo_info ''2'' ''OBS'' []) Custom,
      SyncVatsim 100 demo_feed False]"

definition demo_manager :: client_manager where
  "demo_manager = run exec_client_op demo_ops (client_manager_new demo_network 30 5)"

text \<open>The same region without the tower position: its station is left to the approach.\<close>

definition demo_fir_reduced :: fir_raw where
  "demo_fir_reduced =
     demo_fir\<lparr>fr_stations :=
        [\<lparr>sr_id = StationId ''LOWW_TWR'', sr_parent_id = Some (StationId ''LOWW_APP''), sr_controlled_by = []\<rparr>,
         \<lparr>sr_id = StationId ''LOWW_APP'', sr_parent_id = None, sr_controlled_by = [PositionId ''LOWW_APP'']\<rparr>],
      fr_positions := [demo_position ''LOWW_APP'' ''134.675'' Approach]\<rparr>"

definition demo_network_reduced :: network where
  "demo_network_reduced = (case build_network demo_freq [demo_fir_reduced] [] of Inr net \<Rightarrow> net | Inl _ \<Rightarrow> empty_network)"

lemma demo_network_reduced_wf: "network_wf demo_network_reduced"
proof -
  have "\<not> isl (build_network demo_freq [demo_fir_reduced] [])" by code_simp
  then have "build_network demo_freq [demo_fir_reduced] [] = Inr demo_network_reduced"
    by (cases "build_network demo_freq [demo_fir_reduced] []") (simp_all add: demo_network_reduced_def)
  then show ?thesis by (rule build_network_consistent)
qed

lemma demo_ops_contract: "list_all client_contract demo_ops"
  by (simp add: demo_ops_def)

lemma demo_manager_inv: "coverage_inv demo_manager"
  unfolding demo_manager_def by (rule client_run_inv [OF demo_network_wf demo_ops_contract])

text \<open>
  Replacing the network can leave a client with a station that nobody can answer any more.
  The tower station is callable before (client 1 works the tower position) and not after (the
  new network has no tower position; the station falls to the approach, which only a VATSIM
  controller works), yet the client without a position is sent no change of the station: the
  visible changes are computed with the positions that are left, so the handoff from the removed
  position counts as one between two VATSIM-only positions.
\<close>

theorem replace_network_misses_offline:
  "visible_view demo_manager Custom (StationId ''LOWW_TWR'') = Some (PositionId ''LOWW_TWR'') \<and>
   (case replace_network demo_network_reduced demo_manager of (m', out) \<Rightarrow>
      network_wf (cm_network m') \<and> visible_view m' Custom (StationId ''LOWW_TWR'') = None \<and>
      map_option sess_active_profile (get_client m' (ClientId ''2'')) = Some Custom \<and>
      station_changes_for (ClientId ''2'') out = [])"
proof -
  have net: "cm_network (fst (replace_network net m)) = net" for net m
    by (simp add: replace_network_def Let_def case_prod_unfold)
  have "visible_view demo_manager Custom (StationId ''LOWW_TWR'') = Some (PositionId ''LOWW_TWR'')" by code_simp
  moreover have "visible_view (fst (replace_network demo_network_reduced demo_manager)) Custom (StationId ''LOWW_TWR'') = None"
    by code_simp
  moreover have "map_option sess_active_profile (get_client (fst (replace_network demo_network_reduced demo_manager)) (ClientId ''2'')) =
    Some Custom" by code_simp
  moreover have "station_changes_for (ClientId ''2'') (snd (replace_network demo_network_reduced demo_manager)) = []" by code_simp
  ultimately show ?thesis using demo_network_reduced_wf by (simp add: case_prod_unfold net)
qed

theorem client_manager_invariant_witness:
  "network_wf demo_network \<and> list_all client_contract demo_ops \<and>
   coverage_inv (run exec_client_op demo_ops (client_manager_new demo_network 30 5))"
  using client_manager_invariant [OF demo_network_wf demo_ops_contract, of 30 5] demo_network_wf demo_ops_contract by blast

theorem clients_for_station_correct_witness:
  "\<exists>s p. get_client demo_manager (ClientId ''1'') = Some s \<and> sess_position_id s = Some p \<and>
     map_option pos_id (controlling_position (cm_network demo_manager) (StationId ''LOWW_TWR'') (set (all_positions demo_manager))) = Some p"
proof -
  have "clients_for_station demo_manager (StationId ''LOWW_TWR'') = [ClientId ''1'']" by code_simp
  with clients_for_station_correct [OF demo_network_wf demo_ops_contract demo_manager_def, of "StationId ''LOWW_TWR''"]
  show ?thesis by auto
qed

lemma demo_client:
  "map_option sess_active_profile (hm_get (clients demo_manager) (ClientId ''2'')) = Some Custom"
  "hm_get (clients demo_manager) (ClientId ''4'') = None"
  "hm_get (clients demo_manager) (ClientId ''1'') \<noteq> None"
  by code_simp+

theorem add_client_keeps_views_witness:
  "case add_client 200 (demo_info ''4'' ''LOWW_APP'' ''LOWW_APP'') Custom demo_manager of (m', res, out) \<Rightarrow>
     hm_get (fold apply_station_change (station_changes_for (ClientId ''2'') out) (known_stations demo_manager Custom)) =
       visible_view m' Custom \<and>
     station_changes_for (ClientId ''2'') out = [Online (StationId ''LOWW_APP'') (PositionId ''LOWW_APP'')]"
proof -
  let ?r = "add_client 200 (demo_info ''4'' ''LOWW_APP'' ''LOWW_APP'') Custom demo_manager"
  obtain s where s: "hm_get (clients demo_manager) (ClientId ''2'') = Some s" "sess_active_profile s = Custom"
    using demo_client(1) by auto
  have new: "hm_get (clients demo_manager) (info_id (demo_info ''4'' ''LOWW_APP'' ''LOWW_APP'')) = None"
    using demo_client(2) by (simp add: demo_info_def)
  have "?r = (fst ?r, fst (snd ?r), snd (snd ?r))" by simp
  from add_client_keeps_views [OF demo_manager_inv new s(1) this, of "known_stations demo_manager Custom"]
  have "hm_get (fold apply_station_change (station_changes_for (ClientId ''2'') (snd (snd ?r))) (known_stations demo_manager Custom)) =
      visible_view (fst ?r) Custom"
    using known_stations_view [OF demo_manager_inv] s(2) by simp
  moreover have "station_changes_for (ClientId ''2'') (snd (snd ?r)) = [Online (StationId ''LOWW_APP'') (PositionId ''LOWW_APP'')]"
    by code_simp
  ultimately show ?thesis by (simp add: case_prod_unfold)
qed

theorem remove_client_keeps_views_witness:
  "case remove_client None (ClientId ''1'') None demo_manager of (m', out) \<Rightarrow>
     hm_get (fold apply_station_change (station_changes_for (ClientId ''2'') out) (known_stations demo_manager Custom)) =
       visible_view m' Custom \<and>
     station_changes_for (ClientId ''2'') out = [Offline (StationId ''LOWW_TWR'')]"
proof -
  let ?r = "remove_client None (ClientId ''1'') None demo_manager"
  obtain s where s: "hm_get (clients demo_manager) (ClientId ''2'') = Some s" "sess_active_profile s = Custom"
    using demo_client(1) by auto
  obtain t where t: "hm_get (clients demo_manager) (ClientId ''1'') = Some t" using demo_client(3) by blast
  have "?r = (fst ?r, snd ?r)" by simp
  from remove_client_keeps_views [OF demo_manager_inv t s(1) _ this, of "known_stations demo_manager Custom"]
  have "hm_get (fold apply_station_change (station_changes_for (ClientId ''2'') (snd ?r)) (known_stations demo_manager Custom)) =
      visible_view (fst ?r) Custom"
    using known_stations_view [OF demo_manager_inv] s(2) by simp
  moreover have "station_changes_for (ClientId ''2'') (snd ?r) = [Offline (StationId ''LOWW_TWR'')]" by code_simp
  ultimately show ?thesis by (simp add: case_prod_unfold)
qed

theorem sync_changes_exact_witness:
  "\<exists>m' out chs disconnected.
     sync_vatsim_state 200 [] False demo_manager = (m', out @ broadcast_station_changes chs m', disconnected) \<and>
     distinct (map station_change_station_id chs) \<and>
     (\<forall>s. view demo_manager s \<noteq> view m' s \<longrightarrow> s \<in> station_change_station_id ` set chs)"
  using sync_changes_exact [OF demo_manager_inv, of 200 "[]" False] by blast

theorem two_misses_disconnect_witness:
  "case sync_vatsim_state 200 [] True demo_manager of (m1, out1, d1) \<Rightarrow>
     (case sync_vatsim_state 300 [] True m1 of (m2, out2, d2) \<Rightarrow>
        (ClientId ''1'', NoActiveVatsimConnection) \<notin> set d1 \<and> (ClientId ''1'', NoActiveVatsimConnection) \<in> set d2)"
proof -
  let ?r1 = "sync_vatsim_state 200 [] True demo_manager"
  let ?r2 = "sync_vatsim_state 300 [] True (fst ?r1)"
  have "map_option (\<lambda>s. sess_pending_disconnect s \<or> is_within_position_grace_period 200 (position_grace_period demo_manager) s)
      (hm_get (clients demo_manager) (ClientId ''1'')) = Some False" by code_simp
  then obtain s where s: "hm_get (clients demo_manager) (ClientId ''1'') = Some s" "\<not> sess_pending_disconnect s"
    "\<not> is_within_position_grace_period 200 (position_grace_period demo_manager) s" by auto
  have "?r1 = (fst ?r1, fst (snd ?r1), snd (snd ?r1))" "?r2 = (fst ?r2, fst (snd ?r2), snd (snd ?r2))" by simp_all
  from two_misses_disconnect [OF demo_manager_inv s _ _ _ this]
  show ?thesis by (simp add: case_prod_unfold missed_def)
qed

theorem index_by_cid_order_free_witness:
  "hm_get (index_by_cid [snd (demo_controller ''1'' ''LOWW_TWR'' ''119.400'' Tower), snd (demo_controller ''1'' ''LOWW_ATIS'' ''122.000'' Radio)])
     (ClientId ''1'') =
   hm_get (index_by_cid [snd (demo_controller ''1'' ''LOWW_ATIS'' ''122.000'' Radio), snd (demo_controller ''1'' ''LOWW_TWR'' ''119.400'' Tower)])
     (ClientId ''1'')"
  by (rule index_by_cid_order_free) (auto simp: demo_controller_def rank_def)

end
