(* ===== verification/RateLimit.thy ===== *)
theory RateLimit
  imports Protocol
begin

text \<open>
  The rate limiters of \<^verbatim>\<open>vacs-server/src/ratelimit.rs\<close>. The limiter itself is the crate
  \<^verbatim>\<open>governor\<close>, a parameter: \<open>keyed\<close> makes a limiter for a quota, \<open>check_key\<close> and
  \<open>check_key_n\<close> charge a key one or several cells at an instant and answer. A quota is the
  constructor the source builds it with.
\<close>

section \<open>The governor interface\<close>

datatype quota = WithPeriod duration u32 | PerMinute u32 u32

datatype limiter_answer =
    Conforming
  | NotUntil duration
  | InsufficientCapacity

record 'l governor =
  keyed :: "quota \<Rightarrow> 'l"
  check_key :: "'l \<Rightarrow> instant \<Rightarrow> string \<Rightarrow> 'l \<times> duration option"
  check_key_n :: "'l \<Rightarrow> instant \<Rightarrow> string \<Rightarrow> u32 \<Rightarrow> 'l \<times> limiter_answer"

section \<open>Policies\<close>

record policy =
  pol_enabled :: bool
  pol_per_seconds :: u64
  pol_burst :: u32

definition policy_new :: "u64 \<Rightarrow> u32 \<Rightarrow> policy" where
  "policy_new per_seconds burst = \<lparr>pol_enabled = True, pol_per_seconds = per_seconds, pol_burst = burst\<rparr>"

definition policy_disabled :: "policy \<Rightarrow> policy" where
  "policy_disabled p = p\<lparr>pol_enabled := False\<rparr>"

definition policy_quota :: "policy \<Rightarrow> quota" where
  "policy_quota p = WithPeriod (from_secs (unat (max (pol_per_seconds p) 1))) (pol_burst p)"

record rate_limiters_config =
  cfg_enabled :: bool
  cfg_call_invite :: policy
  cfg_call_invite_per_minute :: u32
  cfg_failed_auth :: policy
  cfg_failed_auth_per_minute :: u32
  cfg_version_update :: policy
  cfg_version_update_per_minute :: u32
  cfg_vatsim_token :: policy
  cfg_vatsim_token_per_minute :: u32

definition rate_limiters_config_default :: rate_limiters_config where
  "rate_limiters_config_default =
     \<lparr>cfg_enabled = True, cfg_call_invite = policy_new 10 8, cfg_call_invite_per_minute = 40,
      cfg_failed_auth = policy_disabled (policy_new 60 5), cfg_failed_auth_per_minute = 0,
      cfg_version_update = policy_new 1 10, cfg_version_update_per_minute = 60,
      cfg_vatsim_token = policy_new 30 3, cfg_vatsim_token_per_minute = 10\<rparr>"

section \<open>Limiters\<close>

record 'l rate_limiters =
  lim_call_invite :: "'l option"
  lim_call_invite_per_minute :: "'l option"
  lim_failed_auth :: "'l option"
  lim_failed_auth_per_minute :: "'l option"
  lim_version_update :: "'l option"
  lim_version_update_per_minute :: "'l option"
  lim_vatsim_token :: "'l option"
  lim_vatsim_token_per_minute :: "'l option"

datatype call_invite_rejection = InviteRateLimited duration | TooManyTargets

definition policy_limiter :: "'l governor \<Rightarrow> policy \<Rightarrow> 'l option" where
  "policy_limiter g p = (if pol_enabled p then Some (keyed g (policy_quota p)) else None)"

definition per_minute_limiter :: "'l governor \<Rightarrow> u32 \<Rightarrow> 'l option" where
  "per_minute_limiter g n = (if n > 0 then Some (keyed g (PerMinute n n)) else None)"

definition rate_limiters_from :: "'l governor \<Rightarrow> rate_limiters_config \<Rightarrow> 'l rate_limiters" where
  "rate_limiters_from g c =
     (if \<not> cfg_enabled c
      then \<lparr>lim_call_invite = None, lim_call_invite_per_minute = None, lim_failed_auth = None,
            lim_failed_auth_per_minute = None, lim_version_update = None, lim_version_update_per_minute = None,
            lim_vatsim_token = None, lim_vatsim_token_per_minute = None\<rparr>
      else \<lparr>lim_call_invite = policy_limiter g (cfg_call_invite c),
            lim_call_invite_per_minute = per_minute_limiter g (cfg_call_invite_per_minute c),
            lim_failed_auth = policy_limiter g (cfg_failed_auth c),
            lim_failed_auth_per_minute = per_minute_limiter g (cfg_failed_auth_per_minute c),
            lim_version_update = policy_limiter g (cfg_version_update c),
            lim_version_update_per_minute = per_minute_limiter g (cfg_version_update_per_minute c),
            lim_vatsim_token = policy_limiter g (cfg_vatsim_token c),
            lim_vatsim_token_per_minute = per_minute_limiter g (cfg_vatsim_token_per_minute c)\<rparr>)"

definition limiter_check :: "'l governor \<Rightarrow> instant \<Rightarrow> 'l option \<Rightarrow> string \<Rightarrow> 'l option \<times> duration option" where
  "limiter_check g now limiter key =
     (case limiter of
        None \<Rightarrow> (None, None)
      | Some l \<Rightarrow> (let (l, wait) = check_key g l now key in (Some l, wait)))"

definition limiter_check_n ::
  "'l governor \<Rightarrow> instant \<Rightarrow> 'l option \<Rightarrow> string \<Rightarrow> u32 \<Rightarrow> 'l option \<times> call_invite_rejection option" where
  "limiter_check_n g now limiter key n =
     (case limiter of
        None \<Rightarrow> (None, None)
      | Some l \<Rightarrow>
          (let (l, answer) = check_key_n g l now key n
           in (Some l, case answer of
                         Conforming \<Rightarrow> None
                       | NotUntil wait \<Rightarrow> Some (InviteRateLimited wait)
                       | InsufficientCapacity \<Rightarrow> Some TooManyTargets)))"

text \<open>The number of cells an invite is charged: at least one, saturating at \<^verbatim>\<open>u32::MAX\<close>.\<close>

definition invite_cells :: "nat \<Rightarrow> u32" where
  "invite_cells targets = max (if targets < 2 ^ 32 then word_of_nat targets else - 1) 1"

definition check_call_invite ::
  "'l governor \<Rightarrow> instant \<Rightarrow> client_id \<Rightarrow> nat \<Rightarrow> 'l rate_limiters \<Rightarrow> 'l rate_limiters \<times> call_invite_rejection option" where
  "check_call_invite g now client_id targets ls =
     (let key = client_id_str client_id; n = invite_cells targets;
          (l, rejection) = limiter_check_n g now (lim_call_invite ls) key n;
          ls = ls\<lparr>lim_call_invite := l\<rparr>
      in case rejection of
           Some r \<Rightarrow> (ls, Some r)
         | None \<Rightarrow>
             (let (l, rejection) = limiter_check_n g now (lim_call_invite_per_minute ls) key n
              in (ls\<lparr>lim_call_invite_per_minute := l\<rparr>, rejection)))"

definition check_failed_auth ::
  "'l governor \<Rightarrow> instant \<Rightarrow> string \<Rightarrow> 'l rate_limiters \<Rightarrow> 'l rate_limiters \<times> duration option" where
  "check_failed_auth g now key ls =
     (let (l, wait) = limiter_check g now (lim_failed_auth_per_minute ls) key;
          ls = ls\<lparr>lim_failed_auth_per_minute := l\<rparr>
      in case wait of
           Some w \<Rightarrow> (ls, Some w)
         | None \<Rightarrow> (let (l, wait) = limiter_check g now (lim_failed_auth ls) key in (ls\<lparr>lim_failed_auth := l\<rparr>, wait)))"

definition check_version_update ::
  "'l governor \<Rightarrow> instant \<Rightarrow> string \<Rightarrow> 'l rate_limiters \<Rightarrow> 'l rate_limiters \<times> duration option" where
  "check_version_update g now key ls =
     (let (l, wait) = limiter_check g now (lim_version_update_per_minute ls) key;
          ls = ls\<lparr>lim_version_update_per_minute := l\<rparr>
      in case wait of
           Some w \<Rightarrow> (ls, Some w)
         | None \<Rightarrow> (let (l, wait) = limiter_check g now (lim_version_update ls) key in (ls\<lparr>lim_version_update := l\<rparr>, wait)))"

definition check_vatsim_token ::
  "'l governor \<Rightarrow> instant \<Rightarrow> string \<Rightarrow> 'l rate_limiters \<Rightarrow> 'l rate_limiters \<times> duration option" where
  "check_vatsim_token g now key ls =
     (let (l, wait) = limiter_check g now (lim_vatsim_token_per_minute ls) key;
          ls = ls\<lparr>lim_vatsim_token_per_minute := l\<rparr>
      in case wait of
           Some w \<Rightarrow> (ls, Some w)
         | None \<Rightarrow> (let (l, wait) = limiter_check g now (lim_vatsim_token ls) key in (ls\<lparr>lim_vatsim_token := l\<rparr>, wait)))"

section \<open>Properties\<close>

lemma unat_max_u32: "unat (- 1 :: u32) = 2 ^ 32 - 1"
  by (simp add: unsigned_minus_1_eq_mask mask_eq_exp_minus_1)

text \<open>
  An invite is charged one cell per resolved target, at least one, and never wraps: the count
  saturates at \<^verbatim>\<open>u32::MAX\<close>, so no number of targets is charged as fewer.
\<close>

theorem invite_cells_clamped: "unat (invite_cells n) = max 1 (min n (2 ^ 32 - 1))"
proof (cases "n < 2 ^ 32")
  case True
  then have "unat (word_of_nat n :: u32) = n" by (simp add: unat_of_nat)
  with True show ?thesis by (auto simp: invite_cells_def max_def word_le_nat_alt)
next
  case False
  then show ?thesis by (simp add: invite_cells_def max_def word_le_nat_alt unat_max_u32)
qed

end
