(* ===== verification/Server.thy ===== *)
theory Server
  imports CallManager ClientSync RateLimit
begin

text \<open>
  The signaling server around the two managers: the application state and its operations
  (\<^verbatim>\<open>vacs-server/src/state.rs\<close>), the handlers of the client messages
  (\<^verbatim>\<open>vacs-server/src/ws/application_message.rs\<close>), the cleanup of a disconnecting client
  (\<^verbatim>\<open>send_cleanup_action\<close> of \<^verbatim>\<open>state/calls/manager.rs\<close>) and the refresh of queued call
  updates (\<^verbatim>\<open>state/clients/session.rs\<close>).

  A handler runs as one step on the state. Messages go to the outbox in the order they are sent.
  The environment is a parameter: the rate limiter, whether the channel of a session still takes a
  message (after what was sent so far), and the answers of the VATSIM data feed. Logging, metrics
  and the token store are left out.
\<close>

section \<open>State and environment\<close>

record 'l app_state =
  app_clients :: client_manager
  app_calls :: call_manager
  app_limiters :: "'l rate_limiters"
  outbox :: "outgoing list"

record 'l env =
  env_governor :: "'l governor"
  channel_open :: "outgoing list \<Rightarrow> client_id \<Rightarrow> bool"
  data_feed :: "outgoing list \<Rightarrow> controller_info list option"

section \<open>Sending\<close>

text \<open>\<^verbatim>\<open>ClientSession::send_message\<close>: fails when the receiving task is gone.\<close>

definition session_send :: "'l env \<Rightarrow> client_id \<Rightarrow> server_message \<Rightarrow> 'l app_state \<Rightarrow> 'l app_state \<times> bool" where
  "session_send e client_id msg st =
     (if channel_open e (outbox st) client_id
      then (st\<lparr>outbox := outbox st @ [Direct client_id msg]\<rparr>, True) else (st, False))"

definition send_message :: "'l env \<Rightarrow> client_id \<Rightarrow> server_message \<Rightarrow> 'l app_state \<Rightarrow> 'l app_state \<times> error_message option" where
  "send_message e client_id msg st =
     (case get_client (app_clients st) client_id of
        Some client \<Rightarrow>
          (case session_send e (sess_id client) msg st of
             (st, True) \<Rightarrow> (st, None)
           | (st, False) \<Rightarrow> (st, Some \<lparr>em_reason = PeerConnection, em_client_id = Some client_id, em_call_id = None\<rparr>))
      | None \<Rightarrow> (st, Some \<lparr>em_reason = ClientNotFound, em_client_id = Some client_id, em_call_id = None\<rparr>))"

text \<open>A send whose failure is only logged.\<close>

definition notify :: "'l env \<Rightarrow> server_message \<Rightarrow> client_id \<Rightarrow> 'l app_state \<Rightarrow> 'l app_state" where
  "notify e msg client_id st = fst (send_message e client_id msg st)"

definition send_call_error ::
  "'l env \<Rightarrow> client_session \<Rightarrow> call_id \<Rightarrow> call_error_reason \<Rightarrow> string option \<Rightarrow> 'l app_state \<Rightarrow> 'l app_state" where
  "send_call_error e client call_id reason message st =
     fst (session_send e (sess_id client)
            (CallError \<lparr>cerr_call_id = call_id, cerr_reason = reason, cerr_message = message\<rparr>) st)"

definition send_error :: "'l env \<Rightarrow> client_session \<Rightarrow> error_message \<Rightarrow> 'l app_state \<Rightarrow> 'l app_state" where
  "send_error e client err st = fst (session_send e (sess_id client) (Error err) st)"

definition send_call_update :: "'l env \<Rightarrow> update_participants \<Rightarrow> client_id \<Rightarrow> 'l app_state \<Rightarrow> 'l app_state" where
  "send_call_update e update participant_id =
     notify e (CallUpdate (for_recipient update participant_id)) participant_id"

definition send_call_cancelled :: "'l env \<Rightarrow> client_id list \<Rightarrow> call_cancelled \<Rightarrow> 'l app_state \<Rightarrow> 'l app_state" where
  "send_call_cancelled e recipients cancelled = fold (notify e (CallCancelled cancelled)) recipients"

definition cancel_ringing :: "'l env \<Rightarrow> call_id \<Rightarrow> ringing_target \<Rightarrow> call_cancel_reason \<Rightarrow> 'l app_state \<Rightarrow> 'l app_state" where
  "cancel_ringing e call_id ringing_target reason =
     send_call_cancelled e (rt_notified_clients ringing_target)
       \<lparr>cc_call_id = call_id, cc_targets = [rt_target ringing_target], cc_reason = reason\<rparr>"

definition send_updates :: "'l env \<Rightarrow> update_participants \<Rightarrow> 'l app_state \<Rightarrow> 'l app_state" where
  "send_updates e update = fold (send_call_update e update) (map fst (all_participants update))"

definition broadcast_call_update :: "'l env \<Rightarrow> update_participants \<Rightarrow> client_id \<Rightarrow> 'l app_state \<Rightarrow> 'l app_state" where
  "broadcast_call_update e update dropping_id =
     fold (send_call_update e update) (hs_insert dropping_id (hs_collect (map fst (all_participants update))))"

definition cancel_failed_target ::
  "'l env \<Rightarrow> call_id \<Rightarrow> ringing_target list \<Rightarrow> call_cancel_reason \<Rightarrow> 'l app_state \<Rightarrow> 'l app_state" where
  "cancel_failed_target e call_id ringing_targets reason st =
     (case ringing_targets of
        [] \<Rightarrow> st
      | r # _ \<Rightarrow>
          notify e (CallCancelled \<lparr>cc_call_id = call_id, cc_targets = hs_collect (map rt_target ringing_targets), cc_reason = reason\<rparr>)
            (rt_caller_id r) st)"

definition fail_ringing_targets ::
  "'l env \<Rightarrow> call_id \<Rightarrow> ringing_target list \<Rightarrow> update_participants \<Rightarrow> call_error_reason \<Rightarrow> 'l app_state \<Rightarrow> 'l app_state" where
  "fail_ringing_targets e call_id ringing_targets update reason st =
     (case ringing_targets of
        [] \<Rightarrow> st
      | r # _ \<Rightarrow>
          fold (send_call_update e update) (map fst (all_participants_without_self update (rt_caller_id r)))
            (cancel_failed_target e call_id ringing_targets (Errored reason) st))"

section \<open>Inviting\<close>

definition resolve_target :: "client_session \<Rightarrow> client_manager \<Rightarrow> call_target \<Rightarrow> client_id hash_set" where
  "resolve_target client m target =
     filter (\<lambda>client_id. client_id \<noteq> sess_id client)
       (case target of
          Client client_id \<Rightarrow> if is_client_connected m client_id then [client_id] else []
        | Position position_id \<Rightarrow> clients_for_position m position_id
        | Station station_id \<Rightarrow> clients_for_station m station_id)"

definition resolve_targets ::
  "client_session \<Rightarrow> client_manager \<Rightarrow> call_target list \<Rightarrow> (call_target \<times> client_id hash_set) list \<times> call_target hash_set" where
  "resolve_targets client m targets =
     (map (\<lambda>t. (t, resolve_target client m t)) (filter (\<lambda>t. resolve_target client m t \<noteq> []) targets),
      hs_collect (filter (\<lambda>t. resolve_target client m t = []) targets))"

record invite_progress =
  prog_invited :: call_participants
  prog_joined :: call_participants
  prog_targets :: "(client_id, call_target) hash_map"

text \<open>The loop over the resolved targets; \<open>None\<close> when the handler returns from inside it.\<close>

fun attempt_targets ::
  "'l env \<Rightarrow> client_session \<Rightarrow> call_invite \<Rightarrow> (call_target \<times> client_id hash_set) list \<Rightarrow> invite_progress \<Rightarrow> 'l app_state
    \<Rightarrow> 'l app_state \<times> invite_progress option" where
  "attempt_targets e client invite [] prog st = (st, Some prog)"
| "attempt_targets e client invite ((target, target_clients) # rest) prog st =
     (let (cm, result) = attempt_call (ci_call_id invite) (sess_id client) (ci_source invite) target target_clients (app_calls st);
          st = st\<lparr>app_calls := cm\<rparr>
      in case result of
           Inr (invited, joined) \<Rightarrow>
             attempt_targets e client invite rest
               \<lparr>prog_invited = invited, prog_joined = joined,
                prog_targets = hm_extend (map (\<lambda>target_client. (target_client, target)) target_clients) (prog_targets prog)\<rparr> st
         | Inl ST_CallerBusy \<Rightarrow> (send_call_error e client (ci_call_id invite) CallActive None st, None)
         | Inl ST_NotParticipant \<Rightarrow> (send_call_error e client (ci_call_id invite) NotParticipant None st, None)
         | Inl ST_AlreadyParticipant \<Rightarrow>
             attempt_targets e client invite rest prog
               (send_call_error e client (ci_call_id invite) (AlreadyParticipant target) None st)
         | Inl ST_NotConferenceLeader \<Rightarrow>
             attempt_targets e client invite rest prog
               (send_call_error e client (ci_call_id invite) (NotConferenceLeader target) None st))"

text \<open>One invitation of the fan-out, with the targets that failed so far.\<close>

definition send_invitation ::
  "'l env \<Rightarrow> call_invite \<Rightarrow> invite_progress \<Rightarrow> client_id option \<Rightarrow> client_id \<times> call_target
    \<Rightarrow> 'l app_state \<times> call_target hash_set \<Rightarrow> 'l app_state \<times> call_target hash_set" where
  "send_invitation e invite prog leader = (\<lambda>(callee_id, target) (st, failed_targets).
     let invited_targets = hs_collect (hm_values (prog_invited prog));
         invitation =
           \<lparr>inv_call_id = ci_call_id invite, inv_source = ci_source invite, inv_target = target,
            inv_invited_targets = filter (\<lambda>invited_target. invited_target \<noteq> target) invited_targets,
            inv_joined_participants = prog_joined prog, inv_conference_leader = leader, inv_prio = ci_prio invite\<rparr>
     in case send_message e callee_id (CallInvitation invitation) st of
          (st, None) \<Rightarrow> (st, failed_targets)
        | (st, Some err) \<Rightarrow>
            (let (cm, outcome) = call_error_op (ci_call_id invite) callee_id (app_calls st);
                 st = st\<lparr>app_calls := cm\<rparr>
             in case outcome of
                  CT_Continued \<Rightarrow> (st, failed_targets)
                | CT_TargetFailed ringing_targets _ \<Rightarrow>
                    (cancel_failed_target e (ci_call_id invite) ringing_targets (Errored CallFailure) st,
                     hs_insert target failed_targets)
                | _ \<Rightarrow> (st, hs_insert target failed_targets)))"

definition invite_fan_out :: "'l env \<Rightarrow> call_invite \<Rightarrow> invite_progress \<Rightarrow> 'l app_state \<Rightarrow> 'l app_state" where
  "invite_fan_out e invite prog st =
     (let leader = Option.bind (active_call_of (ci_call_id invite) (app_calls st)) ac_conference_leader;
          (st, failed_targets) = fold (send_invitation e invite prog leader) (prog_targets prog) (st, []);
          update =
            \<lparr>up_call_id = ci_call_id invite,
             up_invited_participants = filter (\<lambda>(_, invited_target). invited_target \<notin> set failed_targets) (prog_invited prog),
             up_joined_participants = prog_joined prog, up_conference_leader = leader\<rparr>
      in fold (\<lambda>participant_id st.
             if failed_targets = [] \<and> hm_contains_key participant_id (prog_targets prog) then st
             else send_call_update e update participant_id st)
           (map fst (prog_invited prog @ prog_joined prog)) st)"

definition handle_call_invite :: "'l env \<Rightarrow> instant \<Rightarrow> client_session \<Rightarrow> call_invite \<Rightarrow> 'l app_state \<Rightarrow> 'l app_state" where
  "handle_call_invite e now client invite st =
     (let call_id = ci_call_id invite; caller_id = sess_id client
      in if cs_client_id (ci_source invite) \<noteq> caller_id
         then send_call_error e client call_id Other (Some ''Source client ID mismatch'') st
         else if ci_targets invite = []
         then send_call_error e client call_id Other (Some ''No targets specified'') st
         else
           (let (resolved_targets, not_found_targets) = resolve_targets client (app_clients st) (ci_targets invite)
            in if resolved_targets = []
               then send_call_error e client call_id (TargetsNotFound not_found_targets) None st
               else if invite_exceeds_max_conf_size call_id caller_id (hs_collect (map fst resolved_targets)) (app_calls st)
               then send_call_error e client call_id (MaxConferenceSizeReached (ci_targets invite)) None st
               else
                 (let (ls, rejection) =
                    check_call_invite (env_governor e) now caller_id (length resolved_targets) (app_limiters st);
                    st = st\<lparr>app_limiters := ls\<rparr>
                  in case rejection of
                       Some (InviteRateLimited until) \<Rightarrow>
                         send_error e client
                           \<lparr>em_reason = RateLimited (ci_targets invite) (as_secs until), em_client_id = None, em_call_id = Some call_id\<rparr> st
                     | Some TooManyTargets \<Rightarrow> send_call_error e client call_id Other (Some ''Too many targets'') st
                     | None \<Rightarrow>
                         (case attempt_targets e client invite resolved_targets
                                 \<lparr>prog_invited = [], prog_joined = [], prog_targets = []\<rparr> st of
                            (st, None) \<Rightarrow> st
                          | (st, Some prog) \<Rightarrow>
                              if not_found_targets = [] then invite_fan_out e invite prog st
                              else
                                (let st = send_call_error e client call_id (TargetsNotFound not_found_targets) None st
                                 in if prog_invited prog = [] \<and> prog_joined prog = [] then st
                                    else invite_fan_out e invite prog st)))))"

section \<open>Accepting and rejecting\<close>

text \<open>What follows from ending the call for a participant the acceptance could not be sent to.\<close>

definition accept_failure_action ::
  "'l env \<Rightarrow> call_id \<Rightarrow> client_id \<Rightarrow> update_call_action \<Rightarrow> 'l app_state \<Rightarrow> 'l app_state" where
  "accept_failure_action e call_id participant_id action st =
     (case action of
        CancelRingingTarget ringing_target \<Rightarrow> cancel_ringing e call_id ringing_target CallerCancelled st
      | DropParticipant _ dropped_participant_id \<Rightarrow>
          notify e (CallEnd \<lparr>ce_call_id = call_id, ce_ending_client_id = participant_id\<rparr>) dropped_participant_id
            (notify e (CallError \<lparr>cerr_call_id = call_id, cerr_reason = SignalingFailure participant_id, cerr_message = None\<rparr>)
               dropped_participant_id st)
      | UpdateParticipants update \<Rightarrow> send_updates e update st)"

definition send_acceptance ::
  "'l env \<Rightarrow> call_id \<Rightarrow> update_participants \<Rightarrow> client_id \<Rightarrow> 'l app_state \<Rightarrow> 'l app_state" where
  "send_acceptance e call_id update participant_id st =
     (case send_message e participant_id (CallUpdate (for_recipient update participant_id)) st of
        (st, None) \<Rightarrow> st
      | (st, Some err) \<Rightarrow>
          (let (cm, ended) = end_call call_id participant_id (app_calls st);
               st = st\<lparr>app_calls := cm\<rparr>
           in case ended of
                None \<Rightarrow> st
              | Some actions \<Rightarrow> fold (accept_failure_action e call_id participant_id) actions st))"

definition handle_call_accept :: "'l env \<Rightarrow> instant \<Rightarrow> client_session \<Rightarrow> call_accept \<Rightarrow> 'l app_state \<Rightarrow> 'l app_state" where
  "handle_call_accept e now client accept st =
     (let call_id = ca_call_id accept; answerer_id = sess_id client
      in if ca_accepting_client_id accept \<noteq> answerer_id
         then send_call_error e client call_id Other (Some ''Accepting client ID mismatch'') st
         else
           (let (cm, outcome) = accept_call now call_id answerer_id (app_calls st);
                st = st\<lparr>app_calls := cm\<rparr>
            in case outcome of
                 AC_Accepted target update \<Rightarrow>
                   (let st = fold (send_call_update e update) (hm_keys (up_invited_participants update)) st;
                        st = fold (send_acceptance e call_id update) (hm_keys (up_joined_participants update)) st
                    in if length (rt_notified_clients target) > 1
                       then send_call_cancelled e (filter (\<lambda>callee_id. callee_id \<noteq> answerer_id) (rt_notified_clients target))
                              \<lparr>cc_call_id = call_id, cc_targets = [], cc_reason = AnsweredElsewhere answerer_id\<rparr> st
                       else st)
               | AC_AcceptorBusy \<Rightarrow>
                   (let st = send_call_error e client call_id CallActive None st;
                        (cm, failed) = fail_ringing_recipient call_id answerer_id CallActive (app_calls st);
                        st = st\<lparr>app_calls := cm\<rparr>
                    in case failed of
                         CT_TargetFailed ringing_targets update \<Rightarrow>
                           fail_ringing_targets e call_id ringing_targets update CallActive st
                       | _ \<Rightarrow> st)
               | AC_NotFound \<Rightarrow> send_call_error e client call_id CallFailure None st))"

definition handle_call_reject :: "'l env \<Rightarrow> client_session \<Rightarrow> call_reject \<Rightarrow> 'l app_state \<Rightarrow> 'l app_state" where
  "handle_call_reject e client reject st =
     (let call_id = cr_call_id reject; rejecter_id = sess_id client
      in if cr_rejecting_client_id reject \<noteq> rejecter_id
         then send_call_error e client call_id Other (Some ''Rejecting client ID mismatch'') st
         else
           (let (cm, outcome) = reject_call call_id rejecter_id (app_calls st);
                st = st\<lparr>app_calls := cm\<rparr>
            in case outcome of
                 CT_CallNotFound \<Rightarrow> send_call_error e client call_id CallFailure None st
               | CT_ClientNotNotified \<Rightarrow> send_call_error e client call_id CallFailure None st
               | CT_Continued \<Rightarrow> st
               | CT_TargetFailed ringing_targets update \<Rightarrow>
                   send_updates e update (cancel_failed_target e call_id ringing_targets (Rejected (cr_reason reject)) st)
               | CT_Changed _ \<Rightarrow> st))"

section \<open>Ending and failing\<close>

definition end_action ::
  "'l env \<Rightarrow> client_session \<Rightarrow> call_end \<Rightarrow> update_call_action \<Rightarrow> 'l app_state \<Rightarrow> 'l app_state" where
  "end_action e client end_msg action st =
     (case action of
        CancelRingingTarget ringing_target \<Rightarrow> cancel_ringing e (ce_call_id end_msg) ringing_target CallerCancelled st
      | DropParticipant _ participant_id \<Rightarrow>
          (case send_message e participant_id (CallEnd end_msg) st of
             (st, None) \<Rightarrow> st
           | (st, Some err) \<Rightarrow> send_call_error e client (ce_call_id end_msg) (SignalingFailure participant_id) None st)
      | UpdateParticipants update \<Rightarrow> send_updates e update st)"

definition handle_call_end :: "'l env \<Rightarrow> client_session \<Rightarrow> call_end \<Rightarrow> 'l app_state \<Rightarrow> 'l app_state" where
  "handle_call_end e client end_msg st =
     (let call_id = ce_call_id end_msg; ender_id = sess_id client
      in if ce_ending_client_id end_msg \<noteq> ender_id
         then send_call_error e client call_id Other (Some ''Ending client ID mismatch'') st
         else
           (let (cm, ended) = end_call call_id ender_id (app_calls st);
                st = st\<lparr>app_calls := cm\<rparr>
            in case ended of
                 None \<Rightarrow> send_call_error e client call_id CallNotFound None st
               | Some actions \<Rightarrow> fold (end_action e client end_msg) actions st))"

definition link_action :: "'l env \<Rightarrow> call_id \<Rightarrow> client_id \<Rightarrow> update_call_action \<Rightarrow> 'l app_state \<Rightarrow> 'l app_state" where
  "link_action e call_id evicted action st =
     (case action of
        CancelRingingTarget ringing_target \<Rightarrow> cancel_ringing e call_id ringing_target CallerCancelled st
      | DropParticipant _ participant_id \<Rightarrow>
          notify e (CallEnd \<lparr>ce_call_id = call_id, ce_ending_client_id = evicted\<rparr>) participant_id st
      | UpdateParticipants update \<Rightarrow> send_updates e update st)"

definition handle_link_failure_report ::
  "'l env \<Rightarrow> instant \<Rightarrow> client_session \<Rightarrow> call_id \<Rightarrow> client_id \<Rightarrow> 'l app_state \<Rightarrow> 'l app_state" where
  "handle_link_failure_report e now client call_id peer_id st =
     (let (cm, outcome) = report_link_failure now call_id (sess_id client) peer_id (app_calls st);
          st = st\<lparr>app_calls := cm\<rparr>
      in case outcome of
           LR_InvalidReport \<Rightarrow> st
         | LR_Recorded \<Rightarrow> st
         | LR_Evicted evicted unreachable actions \<Rightarrow>
             (let st = notify e (CallError \<lparr>cerr_call_id = call_id, cerr_reason = PeerConnectionFailed unreachable, cerr_message = None\<rparr>)
                         evicted st;
                  st = notify e (CallEnd \<lparr>ce_call_id = call_id, ce_ending_client_id = evicted\<rparr>) evicted st
              in fold (link_action e call_id evicted) actions st))"

text \<open>Survivors only learn of failures that name the erroring client.\<close>

definition survivor_error :: "call_error_reason \<Rightarrow> bool" where
  "survivor_error reason =
     (case reason of WebrtcFailure _ \<Rightarrow> True | AudioFailure _ \<Rightarrow> True | SignalingFailure _ \<Rightarrow> True | _ \<Rightarrow> False)"

definition error_action ::
  "'l env \<Rightarrow> call_id \<Rightarrow> client_id \<Rightarrow> call_error_reason \<Rightarrow> update_call_action \<Rightarrow> 'l app_state \<Rightarrow> 'l app_state" where
  "error_action e call_id erroring_id reason action st =
     (let error_msg = CallError \<lparr>cerr_call_id = call_id, cerr_reason = reason, cerr_message = None\<rparr>
      in case action of
           CancelRingingTarget ringing_target \<Rightarrow> cancel_ringing e call_id ringing_target CallerCancelled st
         | DropParticipant _ client_id \<Rightarrow>
             notify e (CallEnd \<lparr>ce_call_id = call_id, ce_ending_client_id = erroring_id\<rparr>) client_id (notify e error_msg client_id st)
         | UpdateParticipants updates \<Rightarrow>
             fold (\<lambda>client_id st.
                 send_call_update e updates client_id (if survivor_error reason then notify e error_msg client_id st else st))
               (map fst (all_participants updates)) st)"

definition handle_call_failure ::
  "'l env \<Rightarrow> client_session \<Rightarrow> call_id \<Rightarrow> call_error_reason \<Rightarrow> 'l app_state \<Rightarrow> 'l app_state" where
  "handle_call_failure e client call_id reason st =
     (let (cm, outcome) = call_error_op call_id (sess_id client) (app_calls st);
          st = st\<lparr>app_calls := cm\<rparr>
      in case outcome of
           CT_CallNotFound \<Rightarrow> send_call_error e client call_id CallFailure None st
         | CT_ClientNotNotified \<Rightarrow> send_call_error e client call_id CallFailure None st
         | CT_Continued \<Rightarrow> st
         | CT_TargetFailed ringing_targets update \<Rightarrow> fail_ringing_targets e call_id ringing_targets update reason st
         | CT_Changed actions \<Rightarrow> fold (error_action e call_id (sess_id client) reason) actions st)"

definition handle_call_error :: "'l env \<Rightarrow> instant \<Rightarrow> client_session \<Rightarrow> call_error \<Rightarrow> 'l app_state \<Rightarrow> 'l app_state" where
  "handle_call_error e now client error st =
     (let call_id = cerr_call_id error; erroring_id = sess_id client;
          own = (\<lambda>client_id.
            if erroring_id \<noteq> client_id
            then send_call_error e client call_id Other (Some ''Erroring client ID mismatch'') st
            else handle_call_failure e client call_id (cerr_reason error) st)
      in case cerr_reason error of
           WebrtcFailure client_id \<Rightarrow> own client_id
         | AudioFailure client_id \<Rightarrow> own client_id
         | SignalingFailure client_id \<Rightarrow> own client_id
         | CallFailure \<Rightarrow> handle_call_failure e client call_id CallFailure st
         | Other \<Rightarrow> handle_call_failure e client call_id Other st
         | PeerConnectionFailed peer_id \<Rightarrow> handle_link_failure_report e now client call_id peer_id st
         | _ \<Rightarrow> st)"

definition handle_call_drop_target :: "'l env \<Rightarrow> client_session \<Rightarrow> call_drop_target \<Rightarrow> 'l app_state \<Rightarrow> 'l app_state" where
  "handle_call_drop_target e client drop_msg st =
     (let call_id = cdt_call_id drop_msg; dropping_id = sess_id client;
          (cm, outcome) = drop_target call_id dropping_id (cdt_target drop_msg) (cdt_reason drop_msg) (app_calls st);
          st = st\<lparr>app_calls := cm\<rparr>
      in case outcome of
           DT_CallNotFound \<Rightarrow> send_call_error e client call_id CallNotFound None st
         | DT_NotPermitted \<Rightarrow>
             (let st = send_call_error e client call_id (NotConferenceLeader (cdt_target drop_msg)) None st
              in case call_state_update call_id dropping_id (app_calls st) of
                   Some update \<Rightarrow> send_call_update e update dropping_id st
                 | None \<Rightarrow> st)
         | DT_Obsolete update \<Rightarrow> send_call_update e update dropping_id st
         | DT_RingingTargetCancelled ringing_target update \<Rightarrow>
             broadcast_call_update e update dropping_id
               (cancel_ringing e call_id ringing_target
                  (case cdt_reason drop_msg of Requested \<Rightarrow> CallerCancelled | DropAutoHangup \<Rightarrow> Errored AutoHangup) st)
         | DT_ParticipantDropped dropped_client_id update \<Rightarrow>
             broadcast_call_update e update dropping_id
               (notify e (CallEnd \<lparr>ce_call_id = call_id, ce_ending_client_id = dropping_id\<rparr>) dropped_client_id st))"

section \<open>Relaying WebRTC messages\<close>

definition check_webrtc_relay ::
  "'l env \<Rightarrow> client_session \<Rightarrow> call_id \<Rightarrow> client_id \<Rightarrow> client_id \<Rightarrow> 'l app_state \<Rightarrow> 'l app_state \<times> bool" where
  "check_webrtc_relay e client call_id from_client_id to_client_id st =
     (if from_client_id \<noteq> sess_id client
      then (send_call_error e client call_id Other (Some ''Source client ID mismatch'') st, False)
      else if \<not> has_active_call call_id (sess_id client) (app_calls st)
      then (send_call_error e client call_id CallFailure None st, False)
      else if \<not> has_active_call call_id to_client_id (app_calls st) then (st, False)
      else (st, True))"

definition relay_webrtc_message ::
  "'l env \<Rightarrow> client_session \<Rightarrow> call_id \<Rightarrow> client_id \<Rightarrow> server_message \<Rightarrow> 'l app_state \<Rightarrow> 'l app_state" where
  "relay_webrtc_message e client call_id to_client_id msg st =
     (case send_message e to_client_id msg st of
        (st, None) \<Rightarrow> st
      | (st, Some err) \<Rightarrow> send_call_error e client call_id (SignalingFailure to_client_id) None st)"

definition handle_webrtc ::
  "'l env \<Rightarrow> client_session \<Rightarrow> (webrtc_message \<Rightarrow> server_message) \<Rightarrow> webrtc_message \<Rightarrow> 'l app_state \<Rightarrow> 'l app_state" where
  "handle_webrtc e client wrap msg st =
     (case check_webrtc_relay e client (wm_call_id msg) (wm_from_client_id msg) (wm_to_client_id msg) st of
        (st, True) \<Rightarrow> relay_webrtc_message e client (wm_call_id msg) (wm_to_client_id msg) (wrap msg) st
      | (st, False) \<Rightarrow> st)"

section \<open>Dispatch\<close>

record login =
  login_token :: string
  login_protocol_version :: string
  login_custom_profile :: bool
  login_position_id :: "position_id option"

datatype client_message =
    MsgLogin login
  | MsgLogout
  | MsgCallInvite call_invite
  | MsgCallAccept call_accept
  | MsgCallEnd call_end
  | MsgCallReject call_reject
  | MsgCallError call_error
  | MsgCallDropTarget call_drop_target
  | MsgWebrtcOffer webrtc_message
  | MsgWebrtcAnswer webrtc_message
  | MsgWebrtcIceCandidate webrtc_message
  | MsgListClients
  | MsgListStations
  | MsgDisconnect
  | MsgError error_message

datatype control_flow = Continue | Break

definition handle_application_message ::
  "'l env \<Rightarrow> instant \<Rightarrow> client_session \<Rightarrow> client_message \<Rightarrow> 'l app_state \<Rightarrow> 'l app_state \<times> control_flow" where
  "handle_application_message e now client message st =
     (case message of
        MsgListClients \<Rightarrow>
          (fst (session_send e (sess_id client) (ClientList (list_clients (app_clients st) (Some (sess_id client)))) st), Continue)
      | MsgListStations \<Rightarrow>
          (fst (session_send e (sess_id client)
                  (StationList (list_stations (app_clients st) (sess_active_profile client) (sess_position_id client))) st), Continue)
      | MsgCallInvite m \<Rightarrow> (handle_call_invite e now client m st, Continue)
      | MsgCallAccept m \<Rightarrow> (handle_call_accept e now client m st, Continue)
      | MsgCallReject m \<Rightarrow> (handle_call_reject e client m st, Continue)
      | MsgCallEnd m \<Rightarrow> (handle_call_end e client m st, Continue)
      | MsgCallError m \<Rightarrow> (handle_call_error e now client m st, Continue)
      | MsgCallDropTarget m \<Rightarrow> (handle_call_drop_target e client m st, Continue)
      | MsgWebrtcOffer m \<Rightarrow> (handle_webrtc e client WebrtcOffer m st, Continue)
      | MsgWebrtcAnswer m \<Rightarrow> (handle_webrtc e client WebrtcAnswer m st, Continue)
      | MsgWebrtcIceCandidate m \<Rightarrow> (handle_webrtc e client WebrtcIceCandidate m st, Continue)
      | MsgLogout \<Rightarrow> (st, Break)
      | MsgDisconnect \<Rightarrow> (st, Break)
      | MsgLogin _ \<Rightarrow> (st, Continue)
      | MsgError _ \<Rightarrow> (st, Continue))"

section \<open>Connecting and disconnecting\<close>

definition send_cleanup_action :: "'l env \<Rightarrow> client_id \<Rightarrow> update_call_action \<Rightarrow> 'l app_state \<Rightarrow> 'l app_state" where
  "send_cleanup_action e client_id action st =
     (case action of
        CancelRingingTarget ringing_target \<Rightarrow>
          (let (recipients, reason) =
             (if rt_caller_id ringing_target = client_id then (rt_notified_clients ringing_target, CallerCancelled)
              else (rt_caller_id ringing_target # rt_notified_clients ringing_target, Disconnected))
           in send_call_cancelled e recipients
                \<lparr>cc_call_id = rt_call_id ringing_target, cc_targets = [rt_target ringing_target], cc_reason = reason\<rparr> st)
      | DropParticipant call_id participant_id \<Rightarrow>
          notify e (CallEnd \<lparr>ce_call_id = call_id, ce_ending_client_id = client_id\<rparr>) participant_id st
      | UpdateParticipants update \<Rightarrow> send_updates e update st)"

definition unregister_client :: "'l env \<Rightarrow> client_id \<Rightarrow> disconnect_reason option \<Rightarrow> 'l app_state \<Rightarrow> 'l app_state" where
  "unregister_client e client_id reason st =
     (let (m, out) = remove_client (data_feed e (outbox st)) client_id reason (app_clients st);
          st = st\<lparr>app_clients := m, outbox := outbox st @ out\<rparr>;
          (cm, actions) = cleanup_client_calls client_id (app_calls st);
          st = st\<lparr>app_calls := cm\<rparr>
      in fold (send_cleanup_action e client_id) actions st)"

definition update_vatsim_controllers :: "'l env \<Rightarrow> instant \<Rightarrow> bool \<Rightarrow> 'l app_state \<Rightarrow> 'l app_state" where
  "update_vatsim_controllers e now require_active_connection st =
     (case data_feed e (outbox st) of
        None \<Rightarrow> st
      | Some controllers \<Rightarrow>
          (let (m, out, disconnected) =
             sync_vatsim_state now (index_by_cid controllers) require_active_connection (app_clients st);
             st = st\<lparr>app_clients := m, outbox := outbox st @ out\<rparr>
           in fold (\<lambda>(cid, reason). unregister_client e cid (Some reason)) disconnected st))"

definition register_client ::
  "'l env \<Rightarrow> instant \<Rightarrow> client_info \<Rightarrow> profile_id active_profile \<Rightarrow> 'l app_state
    \<Rightarrow> 'l app_state \<times> (client_manager_error + client_session)" where
  "register_client e now info profile st =
     (let st = (if clients (app_clients st) = [] then update_vatsim_controllers e now False st else st);
          (m, result, out) = add_client now info profile (app_clients st)
      in (st\<lparr>app_clients := m, outbox := outbox st @ out\<rparr>, result))"

definition app_replace_network :: "network \<Rightarrow> 'l app_state \<Rightarrow> 'l app_state" where
  "app_replace_network net st =
     (let (m, out) = replace_network net (app_clients st) in st\<lparr>app_clients := m, outbox := outbox st @ out\<rparr>)"

section \<open>Forwarding queued updates\<close>

text \<open>A queued call update is brought up to date when it is forwarded.\<close>

definition refresh_call_update :: "client_id \<Rightarrow> 'l app_state \<Rightarrow> server_message \<Rightarrow> server_message" where
  "refresh_call_update client_id st message =
     (case message of
        CallUpdate update \<Rightarrow>
          (case call_state_for_party (cu_call_id update) client_id (app_calls st) of
             Some current \<Rightarrow> CallUpdate (for_recipient current client_id)
           | None \<Rightarrow> message)
      | _ \<Rightarrow> message)"

end
