(* ===== verification/ServerInvariant.thy ===== *)
theory ServerInvariant
  imports Server ClientCoverage CallBounds
begin

text \<open>
  The server refines its two managers: a message handler only sends messages and runs operations of
  the call manager within their contract, so that every state the server reaches holds a reachable
  call manager state and a coverage invariant. The parties of calls are connected clients, and no
  call exceeds the conference limit.
\<close>

section \<open>Handlers send and run call operations\<close>

text \<open>The messages the server relays between clients; all others are its own.\<close>

fun relayed :: "server_message \<Rightarrow> webrtc_message option" where
  "relayed (WebrtcOffer m) = Some m"
| "relayed (WebrtcAnswer m) = Some m"
| "relayed (WebrtcIceCandidate m) = Some m"
| "relayed _ = None"

fun relays :: "outgoing \<Rightarrow> bool" where
  "relays (Direct c msg) \<longleftrightarrow> relayed msg \<noteq> None"
| "relays _ \<longleftrightarrow> False"

definition sends_own :: "'l app_state \<Rightarrow> 'l app_state \<Rightarrow> bool" where
  "sends_own st st' \<longleftrightarrow> (\<exists>out. outbox st' = outbox st @ out \<and> list_all (\<lambda>x. \<not> relays x) out)"

definition only_sends :: "'l app_state \<Rightarrow> 'l app_state \<Rightarrow> bool" where
  "only_sends st st' \<longleftrightarrow> (\<exists>out. st' = st\<lparr>outbox := outbox st @ out\<rparr> \<and> list_all (\<lambda>x. \<not> relays x) out)"

definition call_steps :: "(call_op \<Rightarrow> bool) \<Rightarrow> 'l app_state \<Rightarrow> 'l app_state \<Rightarrow> bool" where
  "call_steps P st st' \<longleftrightarrow>
     app_clients st' = app_clients st \<and> (\<exists>ops. list_all P ops \<and> app_calls st' = run exec_op ops (app_calls st)) \<and>
     sends_own st st'"

abbreviation quiet :: "'l app_state \<Rightarrow> 'l app_state \<Rightarrow> bool" where
  "quiet \<equiv> call_steps (\<lambda>x. \<not> is_attempt x)"

named_theorems sends

lemma only_sends_refl [sends]: "only_sends st st"
  unfolding only_sends_def by (rule exI [of _ "[]"]) simp

lemma only_sends_trans: "only_sends a b \<Longrightarrow> only_sends b c \<Longrightarrow> only_sends a c"
  unfolding only_sends_def by (auto 4 4 intro: list_all_append [THEN iffD2])

lemma sends_own_refl: "outbox st' = outbox st \<Longrightarrow> sends_own st st'"
  unfolding sends_own_def by simp

lemma sends_own_trans: "sends_own a b \<Longrightarrow> sends_own b c \<Longrightarrow> sends_own a c"
  unfolding sends_own_def by clarsimp

lemma only_sends_fold:
  "(\<And>x st. only_sends st (f x st)) \<Longrightarrow> only_sends st (fold f xs st)"
  by (induction xs arbitrary: st) (auto intro: sends only_sends_trans)

lemma only_sendsD:
  "only_sends st st' \<Longrightarrow>
     app_calls st' = app_calls st \<and> app_clients st' = app_clients st \<and> app_limiters st' = app_limiters st \<and> sends_own st st'"
  by (auto simp: only_sends_def sends_own_def)

lemma call_steps_refl: "call_steps P st st"
  unfolding call_steps_def by (auto intro: exI [of _ "[]"] sends_own_refl)

lemma call_steps_trans: "call_steps P a b \<Longrightarrow> call_steps P b c \<Longrightarrow> call_steps P a c"
  unfolding call_steps_def by (clarsimp simp: sends_own_trans) (metis list_all_append run_append)

lemma call_steps_sends: "only_sends a b \<Longrightarrow> call_steps P a b"
  using only_sendsD [of a b] unfolding call_steps_def by (auto intro!: exI [of _ "[]"])

lemma call_steps_op:
  "P x \<Longrightarrow> cm = exec_op x (app_calls st) \<Longrightarrow> call_steps P st (st\<lparr>app_calls := cm\<rparr>)"
  unfolding call_steps_def by (auto intro: exI [of _ "[x]"] sends_own_refl)

lemma call_steps_mono: "call_steps P a b \<Longrightarrow> (\<And>x. P x \<Longrightarrow> Q x) \<Longrightarrow> call_steps Q a b"
  unfolding call_steps_def by (auto simp: list_all_iff)

lemma call_steps_fold: "(\<And>x st. call_steps P st (f x st)) \<Longrightarrow> call_steps P st (fold f xs st)"
  by (induction xs arbitrary: st) (auto intro: call_steps_refl call_steps_trans)

text \<open>An operation followed by what the handler sends about its outcome.\<close>

lemma quiet_op_sends:
  "\<not> is_attempt x \<Longrightarrow> fst r = exec_op x (app_calls st) \<Longrightarrow> (only_sends (st\<lparr>app_calls := fst r\<rparr>) st') \<Longrightarrow> quiet st st'"
  by (rule call_steps_trans [OF call_steps_op call_steps_sends]) auto

section \<open>Sending\<close>

lemma session_send_sends [sends]: "relayed msg = None \<Longrightarrow> only_sends st (fst (session_send e c msg st))"
  by (auto simp: session_send_def only_sends_def intro: exI [of _ "[]"])

lemma send_message_sends [sends]: "only_sends st (fst (send_message e c msg st))" if "relayed msg = None"
proof (cases "get_client (app_clients st) c")
  case (Some client)
  obtain st' ok where s: "session_send e (sess_id client) msg st = (st', ok)" by (cases "session_send e (sess_id client) msg st")
  with session_send_sends [OF that, of st e "sess_id client"] Some show ?thesis
    by (cases ok) (simp_all add: send_message_def)
qed (simp add: send_message_def only_sends_refl)

lemma notify_sends [sends]:
  "only_sends st (notify e (CallEnd a) c st)" "only_sends st (notify e (CallError b) c st)"
  "only_sends st (notify e (CallUpdate u) c st)" "only_sends st (notify e (CallCancelled d) c st)"
  unfolding notify_def by (intro sends, simp)+

lemma send_call_error_sends [sends]: "only_sends st (send_call_error e client c reason msg st)"
  unfolding send_call_error_def by (intro sends) simp

lemma send_error_sends [sends]: "only_sends st (send_error e client err st)"
  unfolding send_error_def by (intro sends) simp

lemma send_call_update_sends [sends]: "only_sends st (send_call_update e update c st)"
  unfolding send_call_update_def by (rule sends)

lemmas sends_after = only_sends_trans [OF _ notify_sends(1)] only_sends_trans [OF _ notify_sends(2)]
  only_sends_trans [OF _ send_call_error_sends]
  only_sends_trans [OF _ send_call_update_sends]

lemma send_call_cancelled_sends [sends]: "only_sends st (send_call_cancelled e cs cancelled st)"
  unfolding send_call_cancelled_def by (intro only_sends_fold sends)

lemma cancel_ringing_sends [sends]: "only_sends st (cancel_ringing e c rt reason st)"
  unfolding cancel_ringing_def by (rule sends)

lemma send_updates_sends [sends]: "only_sends st (send_updates e update st)"
  unfolding send_updates_def by (intro only_sends_fold sends)

lemma broadcast_call_update_sends [sends]: "only_sends st (broadcast_call_update e update c st)"
  unfolding broadcast_call_update_def by (intro only_sends_fold sends)

lemma cancel_failed_target_sends [sends]: "only_sends st (cancel_failed_target e c rts reason st)"
  by (auto simp: cancel_failed_target_def intro: sends split: list.splits)

lemma fail_ringing_targets_sends [sends]: "only_sends st (fail_ringing_targets e c rts update reason st)"
proof (cases rts)
  case (Cons r rs)
  then show ?thesis
    unfolding fail_ringing_targets_def
    by simp (intro only_sends_trans [OF cancel_failed_target_sends only_sends_fold] send_call_update_sends)
qed (simp add: fail_ringing_targets_def only_sends_refl)

lemma accept_failure_action_sends [sends]: "only_sends st (accept_failure_action e c p action st)"
  by (cases action) (auto simp: accept_failure_action_def intro: sends sends_after)

lemma end_action_sends [sends]: "only_sends st (end_action e client msg action st)"
proof (cases action)
  case (DropParticipant c p)
  obtain st' err where s: "send_message e p (CallEnd msg) st = (st', err)" by (cases "send_message e p (CallEnd msg) st")
  with send_message_sends [of "CallEnd msg" st e p] DropParticipant show ?thesis
    by (auto simp: end_action_def intro: sends_after split: option.splits)
qed (auto simp: end_action_def intro: sends)

lemma link_action_sends [sends]: "only_sends st (link_action e c x action st)"
  by (cases action) (auto simp: link_action_def intro: sends)

lemma error_action_sends [sends]: "only_sends st (error_action e c x reason action st)"
proof (cases action)
  case (UpdateParticipants u)
  have "only_sends st (send_call_update e u x (if survivor_error reason then notify e msg x st else st))"
    if "relayed msg = None" for msg x st
    using that by (auto simp: notify_def intro: only_sends_trans [OF _ send_call_update_sends] sends)
  with UpdateParticipants show ?thesis
    by (simp add: error_action_def Let_def only_sends_fold)
qed (auto simp: error_action_def Let_def intro: sends sends_after)

lemma send_cleanup_action_sends [sends]: "only_sends st (send_cleanup_action e c action st)"
  by (cases action) (auto simp: send_cleanup_action_def Let_def intro: sends)

lemma check_webrtc_relay_sends [sends]: "only_sends st (fst (check_webrtc_relay e client c x y st))"
  by (auto simp: check_webrtc_relay_def intro: sends)

text \<open>
  A relayed message goes to the addressee, from the client that names itself as the sender, and both
  are participants of the call.
\<close>

lemma handle_webrtc_relay:
  assumes ses: "sessions_ok (clients (app_clients st))"
  obtains "only_sends st (handle_webrtc e client wrap msg st)"
  | "handle_webrtc e client wrap msg st = st\<lparr>outbox := outbox st @ [Direct (wm_to_client_id msg) (wrap msg)]\<rparr>"
    "wm_from_client_id msg = sess_id client" "has_active_call (wm_call_id msg) (sess_id client) (app_calls st)"
    "has_active_call (wm_call_id msg) (wm_to_client_id msg) (app_calls st)"
proof (cases "wm_from_client_id msg = sess_id client \<and> has_active_call (wm_call_id msg) (sess_id client) (app_calls st) \<and>
    has_active_call (wm_call_id msg) (wm_to_client_id msg) (app_calls st)")
  case False
  then have "handle_webrtc e client wrap msg st =
    fst (check_webrtc_relay e client (wm_call_id msg) (wm_from_client_id msg) (wm_to_client_id msg) st)"
    by (auto simp: handle_webrtc_def check_webrtc_relay_def)
  with that(1) check_webrtc_relay_sends show ?thesis by metis
next
  case True
  let ?to = "wm_to_client_id msg"
  have h: "handle_webrtc e client wrap msg st = relay_webrtc_message e client (wm_call_id msg) ?to (wrap msg) st"
    using True by (simp add: handle_webrtc_def check_webrtc_relay_def)
  show ?thesis
  proof (cases "get_client (app_clients st) ?to")
    case None
    then have "handle_webrtc e client wrap msg st = send_call_error e client (wm_call_id msg) (SignalingFailure ?to) None st"
      by (simp add: h relay_webrtc_message_def send_message_def)
    with that(1) send_call_error_sends show ?thesis by metis
  next
    case (Some s)
    then have id: "sess_id s = ?to" using ses by (simp add: sessions_ok_def get_client_def)
    show ?thesis
    proof (cases "channel_open e (outbox st) ?to")
      case live: True
      show ?thesis
        by (rule that(2)) (use True Some id live in \<open>simp_all add: h relay_webrtc_message_def send_message_def session_send_def\<close>)
    next
      case False
      with Some id have "handle_webrtc e client wrap msg st =
        send_call_error e client (wm_call_id msg) (SignalingFailure ?to) None st"
        by (simp add: h relay_webrtc_message_def send_message_def session_send_def)
      with that(1) send_call_error_sends show ?thesis by metis
    qed
  qed
qed

lemma handle_webrtc_calls: "app_calls (handle_webrtc e client wrap msg st) = app_calls st"
  "app_clients (handle_webrtc e client wrap msg st) = app_clients st"
proof -
  have send: "app_calls (fst (session_send e c m st')) = app_calls st' \<and> app_clients (fst (session_send e c m st')) = app_clients st'"
    for c m and st' :: "'a app_state" by (simp add: session_send_def)
  have "app_calls (fst (send_message e c m st')) = app_calls st' \<and> app_clients (fst (send_message e c m st')) = app_clients st'"
    for c m and st' :: "'a app_state"
    using send by (auto simp: send_message_def split: option.splits prod.splits bool.splits) (metis fst_conv)+
  then have "app_calls (handle_webrtc e client wrap msg st) = app_calls st \<and> app_clients (handle_webrtc e client wrap msg st) = app_clients st"
    using send
    by (simp add: handle_webrtc_def check_webrtc_relay_def relay_webrtc_message_def send_call_error_def case_prod_unfold
        split: option.splits)
  then show "app_calls (handle_webrtc e client wrap msg st) = app_calls st"
    "app_clients (handle_webrtc e client wrap msg st) = app_clients st" by simp_all
qed

section \<open>The handlers\<close>

lemma send_acceptance_quiet: "quiet st (send_acceptance e c update p st)"
proof -
  obtain st' err where s: "send_message e p (CallUpdate (for_recipient update p)) st = (st', err)"
    by (cases "send_message e p (CallUpdate (for_recipient update p)) st")
  have sent: "quiet st st'" using send_message_sends [of "CallUpdate (for_recipient update p)" st e p] s
    by (simp add: call_steps_sends)
  show ?thesis
  proof (cases err)
    case None
    with s sent show ?thesis by (simp add: send_acceptance_def)
  next
    case (Some x)
    obtain cm ended where r: "end_call c p (app_calls st') = (cm, ended)" by (cases "end_call c p (app_calls st')")
    have "quiet st' (send_acceptance e c update p st)"
      by (rule quiet_op_sends [of "EndCall c p" "end_call c p (app_calls st')"])
        (auto simp: send_acceptance_def s Some r Let_def intro: only_sends_fold sends split: option.splits)
    with sent show ?thesis by (rule call_steps_trans)
  qed
qed

lemma handle_call_accept_quiet: "quiet st (handle_call_accept e now client accept st)"
proof (cases "ca_accepting_client_id accept = sess_id client")
  case True
  let ?c = "ca_call_id accept" and ?x = "sess_id client"
  obtain cm outcome where r: "accept_call now ?c ?x (app_calls st) = (cm, outcome)"
    by (cases "accept_call now ?c ?x (app_calls st)")
  define st1 where "st1 = st\<lparr>app_calls := cm\<rparr>"
  have op: "quiet st st1"
    unfolding st1_def by (rule call_steps_op [of _ "AcceptCall now ?c ?x"]) (simp_all add: r)
  have "quiet st1 (handle_call_accept e now client accept st)"
  proof (cases outcome)
    case (AC_Accepted target update)
    define st2 where "st2 = fold (send_acceptance e ?c update) (hm_keys (up_joined_participants update))
      (fold (send_call_update e update) (hm_keys (up_invited_participants update)) st1)"
    have 2: "quiet st1 st2"
      unfolding st2_def
      by (rule call_steps_trans [OF call_steps_sends [OF only_sends_fold] call_steps_fold])
        (auto intro: sends send_acceptance_quiet)
    show ?thesis
      unfolding handle_call_accept_def
      using True AC_Accepted 2 call_steps_trans [OF 2 call_steps_sends [OF send_call_cancelled_sends]]
      by (simp add: r Let_def st1_def [symmetric] st2_def [symmetric])
  next
    case AC_AcceptorBusy
    define st2 where "st2 = send_call_error e client ?c CallActive None st1"
    have 2: "quiet st1 st2" unfolding st2_def by (intro call_steps_sends sends)
    obtain cm' failed where f: "fail_ringing_recipient ?c ?x CallActive (app_calls st2) = (cm', failed)"
      by (cases "fail_ringing_recipient ?c ?x CallActive (app_calls st2)")
    have "quiet st2 (handle_call_accept e now client accept st)"
      by (rule quiet_op_sends [of "FailRingingRecipient ?c ?x CallActive" "(cm', failed)"])
        (auto simp: handle_call_accept_def True r AC_AcceptorBusy Let_def st1_def [symmetric] st2_def [symmetric] f
          intro: sends split: call_termination_outcome.splits)
    with 2 show ?thesis by (rule call_steps_trans)
  next
    case AC_NotFound
    then show ?thesis
      by (auto simp: handle_call_accept_def True r Let_def st1_def [symmetric] intro: call_steps_sends sends)
  qed
  with op show ?thesis by (rule call_steps_trans)
qed (auto simp: handle_call_accept_def intro: call_steps_sends sends)

lemma handle_call_reject_quiet: "quiet st (handle_call_reject e client reject st)"
proof (cases "cr_rejecting_client_id reject = sess_id client")
  case True
  let ?r = "reject_call (cr_call_id reject) (sess_id client) (app_calls st)"
  obtain cm outcome where r: "?r = (cm, outcome)" by (cases ?r)
  show ?thesis
    by (rule quiet_op_sends [of "RejectCall (cr_call_id reject) (sess_id client)" ?r])
      (auto simp: handle_call_reject_def True r Let_def intro: sends only_sends_trans [OF cancel_failed_target_sends send_updates_sends]
        split: call_termination_outcome.splits)
qed (auto simp: handle_call_reject_def intro: call_steps_sends sends)

lemma handle_call_end_quiet: "quiet st (handle_call_end e client msg st)"
proof (cases "ce_ending_client_id msg = sess_id client")
  case True
  let ?r = "end_call (ce_call_id msg) (sess_id client) (app_calls st)"
  obtain cm ended where r: "?r = (cm, ended)" by (cases ?r)
  show ?thesis
    by (rule quiet_op_sends [of "EndCall (ce_call_id msg) (sess_id client)" ?r])
      (auto simp: handle_call_end_def True r Let_def intro: sends only_sends_fold split: option.splits)
qed (auto simp: handle_call_end_def intro: call_steps_sends sends)

lemma handle_link_failure_report_quiet: "quiet st (handle_link_failure_report e now client c peer st)"
proof -
  let ?r = "report_link_failure now c (sess_id client) peer (app_calls st)"
  obtain cm outcome where r: "?r = (cm, outcome)" by (cases ?r)
  show ?thesis
    by (rule quiet_op_sends [of "ReportLinkFailure now c (sess_id client) peer" ?r])
      (auto simp: handle_link_failure_report_def r Let_def
        intro: sends sends_after only_sends_trans [OF only_sends_trans [OF notify_sends(2) notify_sends(1)] only_sends_fold]
        split: link_report_outcome.splits)
qed

lemma handle_call_failure_quiet: "quiet st (handle_call_failure e client c reason st)"
proof -
  let ?r = "call_error_op c (sess_id client) (app_calls st)"
  obtain cm outcome where r: "?r = (cm, outcome)" by (cases ?r)
  show ?thesis
    by (rule quiet_op_sends [of "CallErrorOp c (sess_id client)" ?r])
      (auto simp: handle_call_failure_def r Let_def intro: sends only_sends_fold split: call_termination_outcome.splits)
qed

lemma handle_call_error_quiet: "quiet st (handle_call_error e now client error st)"
  by (auto simp: handle_call_error_def Let_def handle_call_failure_quiet handle_link_failure_report_quiet
      intro: call_steps_sends sends split: call_error_reason.splits)

lemma handle_call_drop_target_quiet: "quiet st (handle_call_drop_target e client msg st)"
proof -
  let ?r = "drop_target (cdt_call_id msg) (sess_id client) (cdt_target msg) (cdt_reason msg) (app_calls st)"
  obtain cm outcome where r: "?r = (cm, outcome)" by (cases ?r)
  show ?thesis
    by (rule quiet_op_sends [of "DropTarget (cdt_call_id msg) (sess_id client) (cdt_target msg) (cdt_reason msg)" ?r])
      (auto simp: handle_call_drop_target_def r Let_def
        intro: sends sends_after only_sends_trans [OF cancel_ringing_sends broadcast_call_update_sends]
          only_sends_trans [OF notify_sends(1) broadcast_call_update_sends]
        split: drop_target_outcome.splits option.splits)
qed

section \<open>Invitations\<close>

abbreviation connected :: "'l app_state \<Rightarrow> client_id set" where
  "connected st \<equiv> set (hm_keys (clients (app_clients st)))"

lemma resolve_target_ok:
  assumes "coverage_inv m"
  shows "distinct (resolve_target client m t)" and "sess_id client \<notin> set (resolve_target client m t)"
    and "set (resolve_target client m t) \<subseteq> set (hm_keys (clients m))"
proof -
  have pm: "positions_match (position_of (clients m)) (online_positions m)"
    using assms by (simp add: coverage_inv_def coverage_ok_def)
  have pos: "distinct (clients_for_position m p) \<and> set (clients_for_position m p) \<subseteq> set (hm_keys (clients m))" for p
  proof (cases "hm_get (online_positions m) p")
    case (Some cids)
    from positions_match_Some [OF pm Some] have "distinct cids" "set cids = {c. position_of (clients m) c = Some p}" by auto
    with Some show ?thesis by (auto simp: clients_for_position_def position_of_def set_hm_keys bind_eq_Some_conv)
  qed (simp add: clients_for_position_def)
  have st: "distinct (clients_for_station m s) \<and> set (clients_for_station m s) \<subseteq> set (hm_keys (clients m))" for s
    using pos by (auto simp: clients_for_station_def split: option.splits)
  show "distinct (resolve_target client m t)"
    using pos st by (auto simp: resolve_target_def split: call_target.splits)
  show "sess_id client \<notin> set (resolve_target client m t)" by (simp add: resolve_target_def)
  show "set (resolve_target client m t) \<subseteq> set (hm_keys (clients m))"
    using pos st by (auto simp: resolve_target_def is_client_connected_def hm_contains_key_iff split: call_target.splits)
qed

text \<open>The operations an invitation of a client may run: its own attempts on connected clients.\<close>

definition attempt_ok :: "client_id set \<Rightarrow> call_op \<Rightarrow> bool" where
  "attempt_ok online x \<longleftrightarrow> op_contract x \<and> newcomers x \<subseteq> online"

lemma quiet_attempt_ok: "\<not> is_attempt x \<Longrightarrow> attempt_ok online x"
  by (cases x) (auto simp: attempt_ok_def)

lemma attempt_targets_steps:
  assumes "cs_client_id (ci_source invite) = sess_id client" "sess_id client \<in> online"
    and "\<And>t ns. (t, ns) \<in> set rs \<Longrightarrow> distinct ns \<and> ns \<noteq> [] \<and> sess_id client \<notin> set ns \<and> set ns \<subseteq> online"
  shows "call_steps (attempt_ok online) st (fst (attempt_targets e client invite rs prog st))"
  using assms(3)
proof (induction rs arbitrary: prog st)
  case Nil
  show ?case by (simp add: call_steps_refl)
next
  case (Cons p rs)
  obtain t ns where p: "p = (t, ns)" by (cases p)
  let ?r = "attempt_call (ci_call_id invite) (sess_id client) (ci_source invite) t ns (app_calls st)"
  obtain cm result where r: "?r = (cm, result)" by (cases ?r)
  let ?st = "st\<lparr>app_calls := cm\<rparr>"
  let ?x = "AttemptCall (ci_call_id invite) (sess_id client) (ci_source invite) t ns"
  have "attempt_ok online ?x" using assms(1,2) Cons.prems [of t ns] by (auto simp: p attempt_ok_def invite_contract_def)
  then have op: "call_steps (attempt_ok online) st ?st" by (rule call_steps_op) (simp add: r)
  have IH: "call_steps (attempt_ok online) st (fst (attempt_targets e client invite rs prog' st'))"
    if "call_steps (attempt_ok online) st st'" for prog' st'
    by (rule call_steps_trans [OF that Cons.IH]) (use Cons.prems in auto)
  have sent: "call_steps (attempt_ok online) st (send_call_error e client c reason msg ?st)" for c reason msg
    by (rule call_steps_trans [OF op]) (intro call_steps_sends sends)
  show ?case
    using op sent by (cases result) (auto simp: p r Let_def intro!: IH split: start_call_error.splits)
qed

text \<open>
  How much larger the call may still get: the attempts of the loop that can succeed, each adding one
  target.
\<close>

definition room :: "call_manager \<Rightarrow> call_id \<Rightarrow> client_id \<Rightarrow> call_target set \<Rightarrow> nat" where
  "room s c k ts = open_size s c k + card {t \<in> ts. new_target s c t}"

lemma length_filter_collect: "length (filter P (hs_collect xs)) = card {x \<in> set xs. P x}"
proof -
  have "length (filter P (hs_collect xs)) = card (set (filter P (hs_collect xs)))"
    by (rule distinct_card [symmetric]) simp
  then show ?thesis by (simp add: Collect_conj_eq Int_commute)
qed

lemma attempt_call_room:
  assumes ok: "validate_call_attempt c k t ns s = Inr u" and "t \<in> ts" "finite ts"
  shows "room (fst (attempt_call c k src t ns s)) c k ts \<le> room s c k ts"
proof -
  let ?s = "fst (attempt_call c k src t ns s)"
  note adds = attempt_call_adds [OF ok, where src = src]
  have "\<not> new_target ?s c t"
    unfolding attempt_call_OK [OF ok] new_target_def
    by (auto simp: invite_ringing_def add_target_def ringing_call_entry_new_def hm_contains_key_def split: option.splits)
  then have "{t \<in> ts. new_target ?s c t} \<subseteq> {t' \<in> ts. new_target s c t'} - {t}" using adds(2) by auto
  then have "card {t \<in> ts. new_target ?s c t} \<le> card ({t' \<in> ts. new_target s c t'} - {t})"
    using assms(3) by (intro card_mono) auto
  also have "\<dots> = card {t' \<in> ts. new_target s c t'} - 1"
    using assms(2) validate_new_target [OF ok] by (subst card_Diff_singleton) auto
  finally have "card {t \<in> ts. new_target ?s c t} \<le> card {t' \<in> ts. new_target s c t'} - 1" .
  moreover have "card {t' \<in> ts. new_target s c t'} > 0"
    using assms(2,3) validate_new_target [OF ok] by (auto simp: card_gt_0_iff)
  ultimately show ?thesis by (simp add: room_def adds(1))
qed

lemma attempt_targets_size:
  assumes "room (app_calls st) (ci_call_id invite) (sess_id client) ts \<le> n" "fst ` set rs \<subseteq> ts" "finite ts"
    and "\<And>c. size_of (app_calls st) c \<le> n"
  shows "size_of (app_calls (fst (attempt_targets e client invite rs prog st))) c \<le> n"
  using assms
proof (induction rs arbitrary: prog st)
  case Nil
  then show ?case by simp
next
  case (Cons p rs)
  obtain t ns where p: "p = (t, ns)" by (cases p)
  let ?c = "ci_call_id invite" and ?k = "sess_id client"
  let ?r = "attempt_call ?c ?k (ci_source invite) t ns (app_calls st)"
  obtain cm result where r: "?r = (cm, result)" by (cases ?r)
  have sent: "app_calls (send_call_error e client c reason msg st') = app_calls st'" for c reason msg and st' :: "'a app_state"
    using only_sendsD [OF send_call_error_sends] by blast
  show ?case
  proof (cases "validate_call_attempt ?c ?k t ns (app_calls st)")
    case (Inl err)
    then have cm: "cm = app_calls st" and res: "result = Inl err" using r attempt_call_error [OF Inl] by auto
    have IH: "size_of (app_calls (fst (attempt_targets e client invite rs prog' st'))) c \<le> n"
      if "app_calls st' = app_calls st" for prog' st'
      by (rule Cons.IH) (use Cons.prems that in auto)
    show ?thesis
      using Cons.prems(4) by (cases err) (auto simp: p r res cm sent intro!: IH)
  next
    case (Inr u)
    obtain inv joined where res: "result = Inr (inv, joined)"
      using r Inr by (auto simp: attempt_call_def Let_def split: prod.splits)
    have room': "room cm ?c ?k ts \<le> n"
      using attempt_call_room [OF Inr, of ts "ci_source invite"] Cons.prems(1-3) r by (auto simp: p)
    have "size_of cm c' \<le> n" for c'
    proof (cases "c' = ?c")
      case True
      have "size_of cm ?c \<le> open_size cm ?c ?k"
        using attempt_call_adds(3) [OF Inr, where src = "ci_source invite"] r by (intro size_le_open_size) auto
      with room' True show ?thesis by (simp add: room_def)
    next
      case False
      with attempt_call_adds(4) [OF Inr False, where src = "ci_source invite"] r Cons.prems(4) show ?thesis by simp
    qed
    with room' Cons.prems show ?thesis by (auto simp: p r res intro!: Cons.IH)
  qed
qed

lemma send_invitation_quiet: "quiet st (fst (send_invitation e invite prog leader p (st, failed)))"
proof -
  obtain callee t where p: "p = (callee, t)" by (cases p)
  let ?msg = "CallInvitation
    \<lparr>inv_call_id = ci_call_id invite, inv_source = ci_source invite, inv_target = t,
     inv_invited_targets = filter (\<lambda>x. x \<noteq> t) (hs_collect (hm_values (prog_invited prog))),
     inv_joined_participants = prog_joined prog, inv_conference_leader = leader, inv_prio = ci_prio invite\<rparr>"
  obtain st' err where s: "send_message e callee ?msg st = (st', err)" by (cases "send_message e callee ?msg st")
  have sent: "quiet st st'" using send_message_sends [of ?msg st e callee] s by (simp add: call_steps_sends)
  let ?r = "call_error_op (ci_call_id invite) callee (app_calls st')"
  obtain cm outcome where r: "?r = (cm, outcome)" by (cases ?r)
  show ?thesis
  proof (cases err)
    case None
    with s sent show ?thesis by (simp add: p send_invitation_def)
  next
    case (Some x)
    have "quiet st' (fst (send_invitation e invite prog leader p (st, failed)))"
      by (rule quiet_op_sends [of "CallErrorOp (ci_call_id invite) callee" ?r])
        (auto simp: p send_invitation_def s Some r Let_def intro: sends split: call_termination_outcome.splits)
    with sent show ?thesis by (rule call_steps_trans)
  qed
qed

lemma send_invitations_quiet: "quiet st (fst (fold (send_invitation e invite prog leader) ps (st, failed)))"
proof (induction ps arbitrary: st failed)
  case (Cons p ps)
  obtain st' failed' where "send_invitation e invite prog leader p (st, failed) = (st', failed')"
    by (cases "send_invitation e invite prog leader p (st, failed)")
  with send_invitation_quiet [of st e invite prog leader p failed] Cons.IH [of st' failed'] show ?case
    by (auto intro: call_steps_trans)
qed (simp add: call_steps_refl)

lemma invite_fan_out_quiet: "quiet st (invite_fan_out e invite prog st)"
proof -
  define leader where "leader = Option.bind (active_call_of (ci_call_id invite) (app_calls st)) ac_conference_leader"
  obtain st' failed where f: "fold (send_invitation e invite prog leader) (prog_targets prog) (st, []) = (st', failed)"
    by (cases "fold (send_invitation e invite prog leader) (prog_targets prog) (st, [])")
  have 1: "quiet st st'" using send_invitations_quiet [of st e invite prog leader "prog_targets prog" "[]"] f by simp
  have 2: "only_sends st' (invite_fan_out e invite prog st)"
    unfolding invite_fan_out_def leader_def [symmetric] f Let_def prod.case
    by (intro only_sends_fold) (auto intro: sends)
  from 1 call_steps_sends [OF 2] show ?thesis by (rule call_steps_trans)
qed

text \<open>
  A handler of a message first runs the attempts of an invitation, which respect the limit \<open>n\<close> and
  bring in only clients of \<open>X\<close>, then operations that only shrink calls.
\<close>

definition handled :: "nat \<Rightarrow> client_id set \<Rightarrow> 'l app_state \<Rightarrow> 'l app_state \<Rightarrow> bool" where
  "handled n X st st' \<longleftrightarrow>
     (\<exists>st1. call_steps (attempt_ok X) st st1 \<and> (\<forall>c. size_of (app_calls st1) c \<le> n) \<and> quiet st1 st')"

lemma handled_quiet: "(\<And>c. size_of (app_calls st) c \<le> n) \<Longrightarrow> quiet st st' \<Longrightarrow> handled n X st st'"
  unfolding handled_def by (blast intro: call_steps_refl)

lemma handled_sends: "(\<And>c. size_of (app_calls st) c \<le> n) \<Longrightarrow> only_sends st st' \<Longrightarrow> handled n X st st'"
  by (blast intro: handled_quiet call_steps_sends)

lemma handled_invite:
  assumes "call_steps (attempt_ok X) st st1" "\<And>c. size_of (app_calls st1) c \<le> n" "quiet st1 st'"
  shows "handled n X st st'"
  using assms unfolding handled_def by blast

lemma handle_call_invite_handled:
  assumes cov: "coverage_inv (app_clients st)" and con: "sess_id client \<in> X" "connected st \<subseteq> X"
    and size: "\<And>c. size_of (app_calls st) c \<le> unat (max_conf_size (app_calls st))"
  shows "handled (unat (max_conf_size (app_calls st))) X st (handle_call_invite e now client invite st)"
proof -
  let ?n = "unat (max_conf_size (app_calls st))"
  let ?c = "ci_call_id invite" and ?k = "sess_id client"
  obtain rs nf where rs: "resolve_targets client (app_clients st) (ci_targets invite) = (rs, nf)"
    by (cases "resolve_targets client (app_clients st) (ci_targets invite)")
  obtain ls rejection where ls: "check_call_invite (env_governor e) now ?k (length rs) (app_limiters st) = (ls, rejection)"
    by (cases "check_call_invite (env_governor e) now ?k (length rs) (app_limiters st)")
  define st0 where "st0 = st\<lparr>app_limiters := ls\<rparr>"
  have st0: "app_calls st0 = app_calls st" "app_clients st0 = app_clients st" by (simp_all add: st0_def)
  have "outbox st0 = outbox st" by (simp add: st0_def)
  then have to0: "call_steps P st st0" for P
    using st0 by (auto simp: call_steps_def intro: exI [of _ "[]"] sends_own_refl)
  have limited: "handled ?n X st st'" if "only_sends st0 st'" for st'
    by (rule handled_quiet [OF size call_steps_trans [OF to0 call_steps_sends [OF that]]])
  define prog0 :: invite_progress where "prog0 = \<lparr>prog_invited = [], prog_joined = [], prog_targets = []\<rparr>"
  obtain st1 prog where at: "attempt_targets e client invite rs prog0 st0 = (st1, prog)"
    by (cases "attempt_targets e client invite rs prog0 st0")
  have tried: "handled ?n X st st'"
    if src: "cs_client_id (ci_source invite) = ?k"
      and fits: "\<not> invite_exceeds_max_conf_size ?c ?k (hs_collect (map fst rs)) (app_calls st)" and q: "quiet st1 st'" for st'
  proof (rule handled_invite [OF _ _ q])
    have rs_ok: "distinct ns \<and> ns \<noteq> [] \<and> ?k \<notin> set ns \<and> set ns \<subseteq> X" if "(t, ns) \<in> set rs" for t ns
      using rs that con(2) resolve_target_ok [OF cov, of client t] by (auto simp: resolve_targets_def)
    have "call_steps (attempt_ok X) st0 (fst (attempt_targets e client invite rs prog0 st0))"
      by (rule attempt_targets_steps [OF src con(1) rs_ok])
    then have "call_steps (attempt_ok X) st0 st1" by (simp add: at)
    with to0 show "call_steps (attempt_ok X) st st1" by (rule call_steps_trans)
    have "room (app_calls st0) ?c ?k (set (map fst rs)) \<le> ?n"
      using fits unfolding invite_exceeds_iff length_filter_collect by (simp add: room_def st0)
    then show "size_of (app_calls st1) c \<le> ?n" for c
      using attempt_targets_size [of st0 invite client "set (map fst rs)" ?n rs e prog0 c] size at by (auto simp: st0)
  qed
  note error = call_steps_sends [OF send_call_error_sends]
  note attempted = tried [OF _ _ call_steps_refl] tried [OF _ _ error] tried [OF _ _ invite_fan_out_quiet]
    tried [OF _ _ call_steps_trans [OF error invite_fan_out_quiet]]
  show ?thesis
    unfolding handle_call_invite_def Let_def rs prod.case ls st0_def [symmetric] prog0_def [symmetric] at
    by (simp add: attempted limited send_error_sends send_call_error_sends handled_sends [OF size]
        split: option.split call_invite_rejection.split)
qed

text \<open>The message a client asks to relay.\<close>

fun claimed_relay :: "client_message \<Rightarrow> webrtc_message option" where
  "claimed_relay (MsgWebrtcOffer m) = Some m"
| "claimed_relay (MsgWebrtcAnswer m) = Some m"
| "claimed_relay (MsgWebrtcIceCandidate m) = Some m"
| "claimed_relay _ = None"

lemma handle_relay_message:
  "claimed_relay msg = Some m \<Longrightarrow>
     \<exists>wrap. fst (handle_application_message e now client msg st) = handle_webrtc e client wrap m st \<and> relayed (wrap m) = Some m"
  by (cases msg) (auto simp: handle_application_message_def)

lemma handle_message_handled:
  assumes cov: "coverage_inv (app_clients st)" and con: "sess_id client \<in> X" "connected st \<subseteq> X"
    and size: "\<And>c. size_of (app_calls st) c \<le> unat (max_conf_size (app_calls st))"
    and own: "claimed_relay msg = None"
  shows "handled (unat (max_conf_size (app_calls st))) X st (fst (handle_application_message e now client msg st))"
  using own
  by (cases msg)
    (simp_all add: handle_application_message_def handle_call_invite_handled [OF cov con size]
      handled_sends [OF size] handled_quiet [OF size] session_send_sends only_sends_refl handle_call_accept_quiet
      handle_call_reject_quiet handle_call_end_quiet handle_call_error_quiet handle_call_drop_target_quiet)

section \<open>The core invariant\<close>

text \<open>
  The state of the two managers, with all connected clients and all parties of calls in \<open>X\<close>, and no
  call above the conference limit.
\<close>

definition core :: "u32 \<Rightarrow> client_id set \<Rightarrow> 'l app_state \<Rightarrow> bool" where
  "core n X st \<longleftrightarrow>
     call_reachable n (app_calls st) \<and> coverage_inv (app_clients st) \<and>
     known_clients (app_calls st) \<subseteq> X \<and> connected st \<subseteq> X \<and> (\<forall>c. size_of (app_calls st) c \<le> unat n)"

lemma coreD:
  assumes "core n X st"
  shows "call_reachable n (app_calls st)" "coverage_inv (app_clients st)" "known_clients (app_calls st) \<subseteq> X"
    "connected st \<subseteq> X" "size_of (app_calls st) c \<le> unat n"
  using assms by (auto simp: core_def)

lemma core_mono: "core n X st \<Longrightarrow> X \<subseteq> Y \<Longrightarrow> core n Y st"
  by (auto simp: core_def)

lemma exec_op_max_conf_size: "call_inv s \<Longrightarrow> max_conf_size (exec_op x s) = max_conf_size s"
proof (cases "is_attempt x")
  case True
  then obtain c k src t ns where x: "x = AttemptCall c k src t ns" by (cases x) auto
  show ?thesis
    by (cases "validate_call_attempt c k t ns s") (simp_all add: x attempt_call_error attempt_call_OK)
qed (auto dest: exec_op_shrinks simp: shrinks_def)

lemma call_reachable_max_conf_size: "call_reachable n s \<Longrightarrow> max_conf_size s = n"
  by (induction rule: call_reachable.induct)
    (simp_all add: call_manager_new_def exec_op_max_conf_size call_reachable_inv)

lemma run_attempt_ok:
  assumes "call_reachable n s" "list_all (attempt_ok X) ops" "known_clients s \<subseteq> X"
  shows "call_reachable n (run exec_op ops s) \<and> known_clients (run exec_op ops s) \<subseteq> X"
  using assms
proof (induction ops arbitrary: s)
  case (Cons x ops)
  have "call_reachable n (exec_op x s)" using Cons.prems by (auto simp: attempt_ok_def intro: call_reachable_step)
  moreover have "known_clients (exec_op x s) \<subseteq> X"
    using exec_op_known [OF call_reachable_inv [OF Cons.prems(1)], of x] Cons.prems(2,3) by (auto simp: attempt_ok_def)
  ultimately show ?case using Cons by simp
qed simp

lemma run_quiet_shrinks:
  assumes "call_inv s" "list_all (\<lambda>x. \<not> is_attempt x) ops"
  shows "shrinks s (run exec_op ops s)"
  using assms
proof (induction ops arbitrary: s)
  case (Cons x ops)
  have op: "op_contract x" using Cons.prems(2) by (cases x) auto
  have "call_inv (exec_op x s)" using Cons.prems op by (simp add: exec_op_inv)
  with Cons have "shrinks (exec_op x s) (run exec_op ops (exec_op x s))" by simp
  with exec_op_shrinks [of s x] Cons.prems show ?case by (auto intro: shrinks_trans)
qed simp

lemma core_quiet:
  assumes c: "core n X st" and q: "quiet st st'"
  shows "core n X st'"
proof -
  obtain ops where cl: "app_clients st' = app_clients st" and ops: "list_all (\<lambda>x. \<not> is_attempt x) ops"
    "app_calls st' = run exec_op ops (app_calls st)"
    using q by (auto simp: call_steps_def)
  have "list_all (attempt_ok X) ops" using ops(1) by (auto simp: list_all_iff intro: quiet_attempt_ok)
  from run_attempt_ok [OF coreD(1) [OF c] this coreD(3) [OF c]]
  have 1: "call_reachable n (app_calls st')" "known_clients (app_calls st') \<subseteq> X" by (simp_all add: ops(2))
  have "shrinks (app_calls st) (app_calls st')"
    using run_quiet_shrinks [OF call_reachable_inv [OF coreD(1) [OF c]] ops(1)] by (simp add: ops(2))
  then have "size_of (app_calls st') k \<le> unat n" for k
    using coreD(5) [OF c, of k] unfolding shrinks_def by (metis order.trans)
  with 1 c cl show ?thesis by (simp add: core_def)
qed

lemma core_sends: "core n X st \<Longrightarrow> only_sends st st' \<Longrightarrow> core n X st'"
  by (rule core_quiet) (auto intro: call_steps_sends)

lemma core_handled:
  assumes c: "core n X st" and h: "handled (unat n) X st st'"
  shows "core n X st'"
proof -
  obtain st1 where st1: "call_steps (attempt_ok X) st st1" "\<And>c. size_of (app_calls st1) c \<le> unat n" "quiet st1 st'"
    using h by (auto simp: handled_def)
  from st1(1) obtain ops where ops: "app_clients st1 = app_clients st" "list_all (attempt_ok X) ops"
    "app_calls st1 = run exec_op ops (app_calls st)" by (auto simp: call_steps_def)
  have "core n X st1"
    using run_attempt_ok [OF coreD(1) [OF c] ops(2) coreD(3) [OF c]] st1(2) ops c by (simp add: core_def)
  from core_quiet [OF this st1(3)] show ?thesis .
qed

lemma core_message:
  assumes c: "core n X st" and x: "sess_id client \<in> X"
  shows "core n X (fst (handle_application_message e now client msg st))"
proof -
  have n: "max_conf_size (app_calls st) = n" by (rule call_reachable_max_conf_size [OF coreD(1) [OF c]])
  show ?thesis
  proof (cases "claimed_relay msg")
    case None
    with handle_message_handled [OF coreD(2) [OF c] x coreD(4) [OF c], of msg e now] coreD(5) [OF c] show ?thesis
      by (intro core_handled [OF c]) (simp add: n)
  next
    case (Some m)
    with handle_relay_message [of msg m e now client st] c show ?thesis by (auto simp: core_def handle_webrtc_calls)
  qed
qed

section \<open>Connecting and disconnecting\<close>

lemma keys_add_client:
  "set (hm_keys (clients (fst (add_client now info profile m)))) \<subseteq> insert (info_id info) (set (hm_keys (clients m)))"
  if "coverage_inv m"
proof (cases "hm_get (clients m) (info_id info)")
  case None
  then show ?thesis by (rule add_client_accepted [OF that, where now = now and profile = profile]) simp
qed (auto simp: add_client_def hm_contains_key_def)

lemma keys_remove_client:
  assumes "coverage_inv m"
  shows "set (hm_keys (clients (fst (remove_client feed c reason m)))) = set (hm_keys (clients m)) - {c}"
proof (cases "hm_get (clients m) c")
  case None
  then show ?thesis by (auto simp: remove_client_def set_hm_keys)
next
  case (Some s)
  have keys: "set (hm_keys (hm_remove c (clients m))) = set (hm_keys (clients m)) - {c}" by (auto simp: set_hm_keys)
  from Some show ?thesis
    unfolding keys [symmetric]
    by (rule remove_client_known [OF assms, where feed = feed and reason = reason])
      (cases "hm_remove c (clients m) = []", simp_all)
qed

lemma keys_sync:
  assumes "coverage_inv m"
  shows "hm_keys (clients (fst (sync_vatsim_state now controllers req m))) = hm_keys (clients m)"
  by (rule sync_vatsim_state_changes [of now controllers req m]) (use assms in \<open>auto dest: sync_changes_ok\<close>)

lemma core_unregister:
  assumes c: "core n X st"
  shows "core n (X - {x}) (unregister_client e x reason st)"
proof -
  obtain m out where m: "remove_client (data_feed e (outbox st)) x reason (app_clients st) = (m, out)"
    by (cases "remove_client (data_feed e (outbox st)) x reason (app_clients st)")
  obtain cm actions where cm: "cleanup_client_calls x (app_calls st) = (cm, actions)"
    by (cases "cleanup_client_calls x (app_calls st)")
  define st1 where "st1 = st\<lparr>app_clients := m, outbox := outbox st @ out, app_calls := cm\<rparr>"
  note inv = call_reachable_inv [OF coreD(1) [OF c]]
  have sh: "shrinks (app_calls st) cm" using cleanup_client_calls_shrinks [OF inv, of x] cm by simp
  have gone: "x \<notin> known_clients cm"
    using cleanup_client_calls_spec [OF inv, of x] cm by (auto simp: known_clients_def set_hm_keys)
  have "core n (X - {x}) st1"
    unfolding core_def
  proof (intro conjI allI)
    show "call_reachable n (app_calls st1)"
      using call_reachable_step [OF coreD(1) [OF c], of "CleanupClientCalls x"] cm by (simp add: st1_def)
    show "coverage_inv (app_clients st1)"
      using remove_client_inv [OF coreD(2) [OF c], of "data_feed e (outbox st)" x reason] m by (simp add: st1_def)
    show "known_clients (app_calls st1) \<subseteq> X - {x}"
      using sh gone coreD(3) [OF c] by (auto simp: shrinks_def st1_def)
    show "connected st1 \<subseteq> X - {x}"
      using keys_remove_client [OF coreD(2) [OF c], of "data_feed e (outbox st)" x reason] m coreD(4) [OF c]
      by (auto simp: st1_def)
    show "size_of (app_calls st1) k \<le> unat n" for k
      using sh coreD(5) [OF c, of k] by (auto simp: shrinks_def st1_def intro: order_trans)
  qed
  then have "core n (X - {x}) (fold (send_cleanup_action e x) actions st1)"
    by (rule core_sends) (intro only_sends_fold sends)
  then show ?thesis by (simp add: unregister_client_def m cm Let_def st1_def)
qed

lemma core_unregister_mono: "core n X st \<Longrightarrow> core n X (unregister_client e x reason st)"
  by (rule core_mono [OF core_unregister]) auto

lemma core_clients:
  assumes "core n X st" "coverage_inv m" "set (hm_keys (clients m)) \<subseteq> X"
  shows "core n X (st\<lparr>app_clients := m, outbox := out\<rparr>)"
  using assms by (simp add: core_def)

lemma core_update_vatsim:
  assumes c: "core n X st"
  shows "core n X (update_vatsim_controllers e now req st)"
proof (cases "data_feed e (outbox st)")
  case (Some controllers)
  obtain m out dis where s: "sync_vatsim_state now (index_by_cid controllers) req (app_clients st) = (m, out, dis)"
    by (metis prod_cases3)
  have "core n X (st\<lparr>app_clients := m, outbox := outbox st @ out\<rparr>)"
    using sync_vatsim_state_inv [OF coreD(2) [OF c], of now "index_by_cid controllers" req]
      keys_sync [OF coreD(2) [OF c], of now "index_by_cid controllers" req] coreD(4) [OF c] s
    by (intro core_clients [OF c]) simp_all
  then have "core n X (fold (\<lambda>(cid, reason). unregister_client e cid (Some reason)) dis (st\<lparr>app_clients := m, outbox := outbox st @ out\<rparr>))"
    by (rule fold_inv [where P = "core n X"]) (auto intro: core_unregister_mono)
  then show ?thesis by (simp add: update_vatsim_controllers_def Some s)
qed (simp add: update_vatsim_controllers_def c)

lemma core_register:
  assumes c: "core n X st"
  shows "core n (insert (info_id info) X) (fst (register_client e now info profile st))"
proof -
  define st1 where "st1 = (if clients (app_clients st) = [] then update_vatsim_controllers e now False st else st)"
  have c1: "core n X st1" using c core_update_vatsim [OF c] by (simp add: st1_def)
  obtain m result out where a: "add_client now info profile (app_clients st1) = (m, result, out)" by (metis prod_cases3)
  have "core n (insert (info_id info) X) (st1\<lparr>app_clients := m, outbox := outbox st1 @ out\<rparr>)"
    using add_client_inv [OF coreD(2) [OF c1], of now info profile]
      keys_add_client [OF coreD(2) [OF c1], of now info profile] coreD(4) [OF c1] a
    by (intro core_clients [OF core_mono [OF c1]]) auto
  then show ?thesis by (simp add: register_client_def st1_def [symmetric] a)
qed

end
