(* ===== verification/Session.thy ===== *)
theory Session
  imports Server Tokens
begin

text \<open>
  The life of a websocket connection: the login (\<^verbatim>\<open>vacs-server/src/ws/auth.rs\<close>), the
  registration and its failure (\<^verbatim>\<open>ws/handler.rs\<close>), and the session loop with its reader and ping
  tasks (\<^verbatim>\<open>handle_interaction\<close> of \<^verbatim>\<open>state/clients/session.rs\<close>, \<^verbatim>\<open>receive_message\<close>
  of \<^verbatim>\<open>ws/message.rs\<close>). What the tasks wait for is an event; the loop handles one event at a
  time, and the order in which events become ready is arbitrary. The parsing of JSON and of semantic
  versions, the range of compatible versions and the VATSIM slurper are parameters.
\<close>

section \<open>Receiving\<close>

datatype ws_frame = TextFrame string | PingFrame | PongFrame | CloseFrame | OtherFrame

datatype message_result =
    ApplicationMessage client_message
  | ControlMessage
  | ResultDisconnected
  | ResultError

text \<open>The next item of the stream: none, a transport error, or a frame.\<close>

definition receive_message :: "(string \<Rightarrow> client_message option) \<Rightarrow> (unit + ws_frame) option \<Rightarrow> message_result" where
  "receive_message deserialize item =
     (case item of
        None \<Rightarrow> ResultDisconnected
      | Some (Inl _) \<Rightarrow> ResultError
      | Some (Inr (TextFrame raw)) \<Rightarrow>
          (case deserialize raw of Some message \<Rightarrow> ApplicationMessage message | None \<Rightarrow> ResultError)
      | Some (Inr PingFrame) \<Rightarrow> ControlMessage
      | Some (Inr PongFrame) \<Rightarrow> ControlMessage
      | Some (Inr CloseFrame) \<Rightarrow> ResultDisconnected
      | Some (Inr OtherFrame) \<Rightarrow> ResultError)"

section \<open>Login\<close>

record 'v login_env =
  parse_version :: "string \<Rightarrow> 'v option"
  compatible_protocol :: "'v \<Rightarrow> bool"
  require_active :: bool
  slurper :: "client_id \<Rightarrow> controller_info option option"

datatype login_outcome =
    LoginFailed login_failure_reason
  | LoginError error_reason
  | LoginDisconnected

definition is_protocol_compatible :: "'v login_env \<Rightarrow> string \<Rightarrow> bool" where
  "is_protocol_compatible le protocol_version =
     (case parse_version le protocol_version of Some version \<Rightarrow> compatible_protocol le version | None \<Rightarrow> False)"

text \<open>The profile a login activates.\<close>

definition login_profile :: "bool \<Rightarrow> position option \<Rightarrow> profile_id active_profile" where
  "login_profile custom_profile position =
     (if custom_profile then Custom
      else case Option.bind position pos_profile_id of Some p \<Rightarrow> Specific p | None \<Rightarrow> NoProfile)"

definition resolve_vatsim_position ::
  "'v login_env \<Rightarrow> client_manager \<Rightarrow> client_id \<Rightarrow> bool \<Rightarrow> position_id option
    \<Rightarrow> login_outcome + client_info \<times> profile_id active_profile" where
  "resolve_vatsim_position le m cid custom_profile position_id =
     (case slurper le cid of
        None \<Rightarrow> Inl (LoginError (Internal ''Failed to retrieve VATSIM connection info''))
      | Some None \<Rightarrow> Inl (LoginFailed LoginNoActiveVatsimConnection)
      | Some (Some controller) \<Rightarrow>
          if ctl_facility_type controller = FacilityUnknown then Inl (LoginFailed LoginNoActiveVatsimConnection)
          else
            (let positions = find_positions (cm_network m) (ctl_callsign controller) (ctl_frequency controller)
                               (ctl_facility_type controller);
                 position =
                   (if positions = [] then Inr None
                    else if length positions = 1 then Inr (Some (hd positions))
                    else case position_id of
                           Some target_pid \<Rightarrow>
                             (case find (\<lambda>p. pos_id p = target_pid) positions of
                                Some position \<Rightarrow> Inr (Some position)
                              | None \<Rightarrow> Inl InvalidVatsimPosition)
                         | None \<Rightarrow> Inl (LoginAmbiguousVatsimPosition (map pos_id positions)))
             in case position of
                  Inl reason \<Rightarrow> Inl (LoginFailed reason)
                | Inr position \<Rightarrow>
                    Inr (\<lparr>info_id = cid, info_display_name = ctl_callsign controller,
                          info_frequency = ctl_frequency controller, info_position_id = map_option pos_id position\<rparr>,
                         login_profile custom_profile position)))"

definition process_login_request ::
  "'v login_env \<Rightarrow> instant \<Rightarrow> client_manager \<Rightarrow> login \<Rightarrow> client_id memory_store
    \<Rightarrow> client_id memory_store \<times> (login_outcome + client_info \<times> profile_id active_profile)" where
  "process_login_request le now m login store =
     (if \<not> is_protocol_compatible le (login_protocol_version login)
      then (store, Inl (LoginFailed IncompatibleProtocolVersion))
      else
        case verify_ws_auth_token now (login_token login) store of
          (store, None) \<Rightarrow> (store, Inl (LoginFailed InvalidCredentials))
        | (store, Some cid) \<Rightarrow>
            (store,
             if require_active le then resolve_vatsim_position le m cid (login_custom_profile login) (login_position_id login)
             else
               (let position = Option.bind (login_position_id login) (get_position (cm_network m))
                in Inr (\<lparr>info_id = cid, info_display_name = client_id_str cid, info_frequency = [],
                         info_position_id = map_option pos_id position\<rparr>,
                        login_profile (login_custom_profile login) position))))"

text \<open>
  The login loop over the messages that arrive before the timeout: it ends with the first message
  that is no control message, and with the timeout when none comes.
\<close>

fun login_loop ::
  "'v login_env \<Rightarrow> instant \<Rightarrow> client_manager \<Rightarrow> message_result list \<Rightarrow> client_id memory_store
    \<Rightarrow> client_id memory_store \<times> (login_outcome + client_info \<times> profile_id active_profile)" where
  "login_loop le now m [] store = (store, Inl (LoginFailed LoginTimeout))"
| "login_loop le now m (ApplicationMessage (MsgLogin login) # rest) store = process_login_request le now m login store"
| "login_loop le now m (ApplicationMessage message # rest) store = (store, Inl (LoginFailed Unauthorized))"
| "login_loop le now m (ControlMessage # rest) store = login_loop le now m rest store"
| "login_loop le now m (ResultDisconnected # rest) store = (store, Inl LoginDisconnected)"
| "login_loop le now m (ResultError # rest) store = (store, Inl LoginDisconnected)"

text \<open>What the connection is sent about a login that did not succeed.\<close>

definition handle_login_outcome :: "login_outcome \<Rightarrow> server_message list" where
  "handle_login_outcome outcome =
     (case outcome of
        LoginFailed reason \<Rightarrow> [LoginFailure reason]
      | LoginError reason \<Rightarrow> [Error \<lparr>em_reason = reason, em_client_id = None, em_call_id = None\<rparr>]
      | LoginDisconnected \<Rightarrow> [])"

text \<open>
  \<^verbatim>\<open>handle_socket\<close> up to the session loop: the new state, the session of a registered client,
  and what a failed login is sent.
\<close>

definition open_session ::
  "'l env \<Rightarrow> 'v login_env \<Rightarrow> instant \<Rightarrow> message_result list \<Rightarrow> client_id memory_store \<Rightarrow> 'l app_state
    \<Rightarrow> client_id memory_store \<times> 'l app_state \<times> (server_message list + client_session)" where
  "open_session e le now received store st =
     (case login_loop le now (app_clients st) received store of
        (store, Inl outcome) \<Rightarrow> (store, st, Inl (handle_login_outcome outcome))
      | (store, Inr (info, profile)) \<Rightarrow>
          (case register_client e now info profile st of
             (st, Inr client) \<Rightarrow> (store, st, Inr client)
           | (st, Inl _) \<Rightarrow> (store, st, Inl [LoginFailure DuplicateId])))"

section \<open>The session loop\<close>

datatype session_end =
    Closed
  | ReceiveError
  | PongTimeout
  | PingFailed
  | Logout
  | DisconnectedEnd "disconnect_reason option"
  | Removed
  | ServerShutdown

text \<open>What a session is sent before its loop.\<close>

definition session_greeting :: "'l app_state \<Rightarrow> client_session \<Rightarrow> server_message list" where
  "session_greeting st client =
     [SessionInfo
        \<lparr>ses_client = sess_client_info client,
         ses_profile = Changed
           (case sess_active_profile client of
              Specific profile_id \<Rightarrow>
                (case get_profile (cm_network (app_clients st)) profile_id of
                   Some p \<Rightarrow> Specific (protocol_profile_of p)
                 | None \<Rightarrow> NoProfile)
            | Custom \<Rightarrow> Custom
            | NoProfile \<Rightarrow> NoProfile),
         ses_default_call_sources =
           (case Option.bind (sess_position_id client) (get_position (cm_network (app_clients st))) of
              Some p \<Rightarrow> pos_default_call_sources p
            | None \<Rightarrow> []),
         ses_max_conf_size = Some (max_conf_size (app_calls st))\<rparr>,
      ClientList (list_clients (app_clients st) (Some (sess_id client))),
      StationList (list_stations (app_clients st) (sess_active_profile client) (sess_position_id client))]"

text \<open>The branches of the \<^verbatim>\<open>select!\<close>, with what each received.\<close>

datatype session_event =
    AppShutdown
  | PingEnded "session_end option"
  | Inbound client_message
  | InboundClosed "session_end option"
  | DirectMessage server_message
  | DirectClosed "disconnect_reason option"
  | BroadcastMessage server_message
  | BroadcastLagged
  | BroadcastClosed

text \<open>One turn of the loop: the new state, what is written to the websocket, and the end if it breaks.\<close>

definition session_turn ::
  "'l env \<Rightarrow> instant \<Rightarrow> client_session \<Rightarrow> session_event \<Rightarrow> 'l app_state
    \<Rightarrow> 'l app_state \<times> server_message list \<times> session_end option" where
  "session_turn e now client event st =
     (case event of
        AppShutdown \<Rightarrow> (st, [], Some ServerShutdown)
      | PingEnded end \<Rightarrow> (st, [], Some (case end of Some end \<Rightarrow> end | None \<Rightarrow> PingFailed))
      | Inbound msg \<Rightarrow>
          (case handle_application_message e now client msg st of
             (st, Continue) \<Rightarrow> (st, [], None)
           | (st, Break) \<Rightarrow> (st, [], Some Logout))
      | InboundClosed end \<Rightarrow> (st, [], Some (case end of Some end \<Rightarrow> end | None \<Rightarrow> ReceiveError))
      | DirectMessage msg \<Rightarrow> (st, [refresh_call_update (sess_id client) st msg], None)
      | DirectClosed reason \<Rightarrow>
          (st, [], Some (case reason of Some _ \<Rightarrow> DisconnectedEnd reason | None \<Rightarrow> Removed))
      | BroadcastMessage msg \<Rightarrow>
          (case msg of
             ClientInfo info \<Rightarrow> if info_id info = sess_id client then (st, [], None) else (st, [msg], None)
           | _ \<Rightarrow> (st, [msg], None))
      | BroadcastLagged \<Rightarrow> (st, [], None)
      | BroadcastClosed \<Rightarrow> (st, [], None))"

section \<open>The reader, writer and ping tasks\<close>

text \<open>
  One turn of the reader: an inbound message, an answer of the peer at \<open>now\<close>, or the end of the task.
  \<open>app_alive\<close> tells whether the session loop still takes messages.
\<close>

datatype reader_event =
    ReaderAppShutdown
  | ReaderClientShutdown "disconnect_reason option"
  | Received message_result

datatype reader_turn = Forward client_message | Pong instant | ReaderEnd session_end

definition reader_step :: "instant \<Rightarrow> bool \<Rightarrow> reader_event \<Rightarrow> reader_turn" where
  "reader_step now app_alive ev =
     (case ev of
        ReaderAppShutdown \<Rightarrow> ReaderEnd ServerShutdown
      | ReaderClientShutdown reason \<Rightarrow> ReaderEnd (DisconnectedEnd reason)
      | Received (ApplicationMessage message) \<Rightarrow> if app_alive then Forward message else ReaderEnd Removed
      | Received ControlMessage \<Rightarrow> Pong now
      | Received ResultDisconnected \<Rightarrow> ReaderEnd Closed
      | Received ResultError \<Rightarrow> ReaderEnd ReceiveError)"

text \<open>
  One turn of the writer: what it tries to write to the websocket, and whether it goes on. \<open>sent\<close>
  tells whether the websocket took the message.
\<close>

datatype ws_output = MessageOut server_message | PingOut | CloseOut

datatype writer_event =
    WriterAppShutdown
  | WriterClientShutdown "disconnect_reason option"
  | Outbound ws_output
  | OutboundClosed

definition writer_step :: "bool \<Rightarrow> writer_event \<Rightarrow> ws_output list \<times> bool" where
  "writer_step sent ev =
     (case ev of
        WriterAppShutdown \<Rightarrow> ([CloseOut], False)
      | WriterClientShutdown reason \<Rightarrow>
          ((case reason of Some reason \<Rightarrow> [MessageOut (Disconnected_msg reason)] | None \<Rightarrow> []) @ [CloseOut], False)
      | Outbound msg \<Rightarrow> if sent then ([msg], True) else ([msg, CloseOut], False)
      | OutboundClosed \<Rightarrow> ([CloseOut], False))"

definition CLIENT_WEBSOCKET_PING_INTERVAL :: duration where
  "CLIENT_WEBSOCKET_PING_INTERVAL = from_secs 10"

definition CLIENT_WEBSOCKET_PONG_TIMEOUT :: duration where
  "CLIENT_WEBSOCKET_PONG_TIMEOUT = from_secs 30"

text \<open>
  The outbound queue is bounded, so queueing a ping waits for room in it: it succeeds or finds the queue closed after
  some time, or never returns when the writer has stalled. A tick of the ping task ends the task at
  a time, lets it go on at a time, or never returns.
\<close>

datatype ping_send = PingQueued duration | PingRefused duration | PingBlocked

datatype ping_outcome = TaskEnds instant session_end | TaskGoesOn instant | TaskBlocked

definition ping_tick :: "instant \<Rightarrow> instant \<Rightarrow> ping_send \<Rightarrow> ping_outcome" where
  "ping_tick now last_pong send =
     (if now - last_pong > CLIENT_WEBSOCKET_PONG_TIMEOUT then TaskEnds now PongTimeout
      else case send of
             PingQueued delay \<Rightarrow> TaskGoesOn (now + delay)
           | PingRefused delay \<Rightarrow> TaskEnds (now + delay) PingFailed
           | PingBlocked \<Rightarrow> TaskBlocked)"

text \<open>
  The ticks of the task from its start: the number of the tick that ends it, when and how, within
  \<open>fuel\<close> ticks. \<open>last_pong k\<close> and \<open>send k\<close> are what the \<open>k\<close>-th tick finds. It happens when it is due, or at once
  when the task gets to it later than that (at time \<open>t\<close>).
\<close>

fun ping_task ::
  "instant \<Rightarrow> (nat \<Rightarrow> instant) \<Rightarrow> (nat \<Rightarrow> ping_send) \<Rightarrow> nat \<Rightarrow> instant \<Rightarrow> nat \<Rightarrow> (nat \<times> instant \<times> session_end) option" where
  "ping_task start last_pong send k t 0 = None"
| "ping_task start last_pong send k t (Suc fuel) =
     (case ping_tick (max t (start + k * CLIENT_WEBSOCKET_PING_INTERVAL)) (last_pong k) (send k) of
        TaskEnds t end \<Rightarrow> Some (k, t, end)
      | TaskGoesOn t \<Rightarrow> ping_task start last_pong send (Suc k) t fuel
      | TaskBlocked \<Rightarrow> None)"

section \<open>The end of a connection\<close>

text \<open>\<^verbatim>\<open>handle_socket\<close> after the loop, and the route that terminates a connection.\<close>

definition close_session :: "'l env \<Rightarrow> client_session \<Rightarrow> 'l app_state \<Rightarrow> 'l app_state" where
  "close_session e client st = unregister_client e (sess_id client) None st"

definition terminate_connection :: "'l env \<Rightarrow> client_id \<Rightarrow> 'l app_state \<Rightarrow> 'l app_state" where
  "terminate_connection e cid st = unregister_client e cid (Some Terminated) st"

section \<open>Properties of the login\<close>

text \<open>
  C28: A login only succeeds for a client whose websocket token verifies and whose protocol version is
  compatible, and then for exactly the client the token verifies as. If an active VATSIM
  connection is required, then besides the slurper knows a connection of that client with a known facility
  type, from which the client's name and frequency are taken, and the client's position, if it has one, matches
  the connection: it is the only matching one or the one the client selected among several; it has none
  only if none matches. If none is required, nothing is said of the position.
\<close>

theorem login_success:
  assumes "process_login_request le now m login store = (store', Inr (info, profile))"
  shows "is_protocol_compatible le (login_protocol_version login) \<and>
    snd (verify_ws_auth_token now (login_token login) store) = Some (info_id info) \<and>
    (require_active le \<longrightarrow>
      (\<exists>controller. slurper le (info_id info) = Some (Some controller) \<and> ctl_facility_type controller \<noteq> FacilityUnknown \<and>
        info_display_name info = ctl_callsign controller \<and> info_frequency info = ctl_frequency controller \<and>
        (let positions = map pos_id (find_positions (cm_network m) (ctl_callsign controller) (ctl_frequency controller)
                                       (ctl_facility_type controller))
         in (case info_position_id info of
               None \<Rightarrow> positions = []
             | Some p \<Rightarrow> p \<in> set positions \<and> (positions = [p] \<or> login_position_id login = Some p)))))"
proof -
  obtain cid where tok: "snd (verify_ws_auth_token now (login_token login) store) = Some cid"
    and compat: "is_protocol_compatible le (login_protocol_version login)"
    and res: "Inr (info, profile) =
      (if require_active le then resolve_vatsim_position le m cid (login_custom_profile login) (login_position_id login)
       else (let position = Option.bind (login_position_id login) (get_position (cm_network m))
             in Inr (\<lparr>info_id = cid, info_display_name = client_id_str cid, info_frequency = [],
                      info_position_id = map_option pos_id position\<rparr>,
                     login_profile (login_custom_profile login) position)))"
    using assms by (auto simp: process_login_request_def split: if_splits prod.splits option.splits)
  show ?thesis
  proof (cases "require_active le")
    case False
    with res tok compat show ?thesis by (simp add: Let_def)
  next
    case True
    then have r: "resolve_vatsim_position le m cid (login_custom_profile login) (login_position_id login) = Inr (info, profile)"
      using res by simp
    then obtain controller where c: "slurper le cid = Some (Some controller)" "ctl_facility_type controller \<noteq> FacilityUnknown"
      by (auto simp: resolve_vatsim_position_def split: option.splits if_splits)
    define ps where "ps = find_positions (cm_network m) (ctl_callsign controller) (ctl_frequency controller) (ctl_facility_type controller)"
    have "info_id info = cid \<and> info_display_name info = ctl_callsign controller \<and> info_frequency info = ctl_frequency controller \<and>
      (case info_position_id info of
         None \<Rightarrow> map pos_id ps = []
       | Some p \<Rightarrow> p \<in> set (map pos_id ps) \<and> (map pos_id ps = [p] \<or> login_position_id login = Some p))"
    proof (cases ps)
      case Nil
      with r c show ?thesis by (auto simp: resolve_vatsim_position_def ps_def [symmetric] Let_def)
    next
      case (Cons q qs)
      show ?thesis
      proof (cases "qs = []")
        case True
        with r c Cons show ?thesis by (auto simp: resolve_vatsim_position_def ps_def [symmetric] Let_def)
      next
        case False
        with r c Cons obtain p where p: "login_position_id login = Some (pos_id p)" "p \<in> set ps"
          "info = \<lparr>info_id = cid, info_display_name = ctl_callsign controller,
             info_frequency = ctl_frequency controller, info_position_id = Some (pos_id p)\<rparr>"
          by (auto simp: resolve_vatsim_position_def ps_def [symmetric] Let_def find_Some_iff in_set_conv_nth
              split: option.splits if_splits)
        then show ?thesis by simp
      qed
    qed
    with tok compat c show ?thesis unfolding Let_def ps_def by auto
  qed
qed

definition demo_login_env :: "string login_env" where
  "demo_login_env =
     \<lparr>parse_version = Some, compatible_protocol = (\<lambda>v. v = ''2.0.0''), require_active = True,
      slurper = (\<lambda>cid. Some (Some \<lparr>ctl_cid = cid, ctl_callsign = ''LOWW_TWR'', ctl_frequency = ''119.400'',
        ctl_facility_type = Tower, ctl_visual_range = None\<rparr>))\<rparr>"

definition demo_tower :: position where
  "demo_tower =
     \<lparr>pos_id = PositionId ''LOWW_TWR'', pos_prefixes = [''LOWW''], pos_frequency = ''119.400'', pos_facility_type = Tower,
      pos_profile_id = None, pos_default_call_sources = [], pos_fir_id = FirId ''LOVV'', pos_controlled_stations = []\<rparr>"

definition demo_login :: login where
  "demo_login =
     \<lparr>login_token = ''t'', login_protocol_version = ''2.0.0'', login_custom_profile = False, login_position_id = None\<rparr>"

definition demo_login_manager :: client_manager where
  "demo_login_manager =
     client_manager_new (empty_network\<lparr>net_positions := hm_collect [(PositionId ''LOWW_TWR'', demo_tower)]\<rparr>) 0 5"

text \<open>The login of client 1 succeeds, at the position of its VATSIM connection.\<close>

theorem login_success_witness:
  "\<exists>store info profile.
     process_login_request demo_login_env (from_secs 5) demo_login_manager demo_login
       (generate_ws_auth_token 0 ''t'' (ClientId ''1'') []) = (store, Inr (info, profile)) \<and>
     info_id info = ClientId ''1'' \<and> info_position_id info = Some (PositionId ''LOWW_TWR'') \<and>
     (\<exists>controller. slurper demo_login_env (ClientId ''1'') = Some (Some controller) \<and> info_display_name info = ctl_callsign controller)"
proof -
  let ?store = "generate_ws_auth_token 0 ''t'' (ClientId ''1'') []"
  let ?info = "\<lparr>info_id = ClientId ''1'', info_display_name = ''LOWW_TWR'', info_frequency = ''119.400'',
    info_position_id = Some (PositionId ''LOWW_TWR'')\<rparr>"
  have login: "process_login_request demo_login_env (from_secs 5) demo_login_manager demo_login ?store = (?store, Inr (?info, NoProfile))"
    by code_simp
  from login_success [OF this] have "\<exists>controller. slurper demo_login_env (ClientId ''1'') = Some (Some controller) \<and>
      info_display_name ?info = ctl_callsign controller"
    by (auto simp: demo_login_env_def)
  with login show ?thesis by auto
qed

text \<open>
  The login loop answers the first message that is not a control message, however many control
  messages come before it; without one it times out.
\<close>

theorem login_loop_first_message:
  "login_loop le now m (replicate n ControlMessage @ rest) store =
     (case rest of
        [] \<Rightarrow> (store, Inl (LoginFailed LoginTimeout))
      | ControlMessage # rest \<Rightarrow> login_loop le now m rest store
      | ApplicationMessage (MsgLogin login) # _ \<Rightarrow> process_login_request le now m login store
      | ApplicationMessage _ # _ \<Rightarrow> (store, Inl (LoginFailed Unauthorized))
      | _ # _ \<Rightarrow> (store, Inl LoginDisconnected))"
  by (induction n) (auto split: list.splits message_result.splits client_message.splits)

section \<open>Properties of the session\<close>

definition queued_within :: "duration \<Rightarrow> ping_send \<Rightarrow> bool" where
  "queued_within limit send =
     (case send of PingQueued delay \<Rightarrow> delay \<le> limit | PingRefused delay \<Rightarrow> delay \<le> limit | PingBlocked \<Rightarrow> False)"

definition timeout_justified :: "(nat \<Rightarrow> instant) \<Rightarrow> (nat \<Rightarrow> ping_send) \<Rightarrow> nat \<times> instant \<times> session_end \<Rightarrow> bool" where
  "timeout_justified last_pong send = (\<lambda>(k, t, end).
     end = PongTimeout \<and> last_pong k + CLIENT_WEBSOCKET_PONG_TIMEOUT < t \<or>
     end = PingFailed \<and> (\<exists>delay. send k = PingRefused delay))"

lemma ping_task_ends:
  assumes pong: "\<And>k. last_pong k \<le> p" and send: "\<And>k. queued_within limit (send k)"
    and "t \<le> p + CLIENT_WEBSOCKET_PONG_TIMEOUT + max limit CLIENT_WEBSOCKET_PING_INTERVAL"
    and "start + k * CLIENT_WEBSOCKET_PING_INTERVAL \<le> p + CLIENT_WEBSOCKET_PONG_TIMEOUT + CLIENT_WEBSOCKET_PING_INTERVAL"
    and "p + CLIENT_WEBSOCKET_PONG_TIMEOUT + CLIENT_WEBSOCKET_PING_INTERVAL < start + (k + fuel) * CLIENT_WEBSOCKET_PING_INTERVAL"
  shows "\<exists>k' t' end. ping_task start last_pong send k t fuel = Some (k', t', end) \<and>
    t' \<le> p + CLIENT_WEBSOCKET_PONG_TIMEOUT + max limit CLIENT_WEBSOCKET_PING_INTERVAL \<and>
    timeout_justified last_pong send (k', t', end)"
  using assms(3-)
proof (induction fuel arbitrary: k t)
  case (Suc fuel)
  let ?I = CLIENT_WEBSOCKET_PING_INTERVAL and ?T = CLIENT_WEBSOCKET_PONG_TIMEOUT
  define now where "now = max t (start + k * ?I)"
  have now: "now \<le> p + ?T + max limit ?I" using Suc.prems by (simp add: now_def)
  show ?case
  proof (cases "now - last_pong k > ?T")
    case True
    with now show ?thesis by (auto simp: ping_tick_def timeout_justified_def now_def [symmetric])
  next
    case False
    with pong [of k] have early: "now \<le> p + ?T" by linarith
    have due: "start + Suc k * ?I \<le> p + ?T + ?I" using early by (simp add: now_def)
    show ?thesis
    proof (cases "send k")
      case (PingQueued delay)
      with send [of k] early have "now + delay \<le> p + ?T + max limit ?I" by (simp add: queued_within_def)
      from Suc.IH [OF this due] Suc.prems(3) PingQueued False show ?thesis by (simp add: ping_tick_def now_def [symmetric])
    next
      case (PingRefused delay)
      with send [of k] early False show ?thesis
        by (auto simp: ping_tick_def timeout_justified_def queued_within_def now_def [symmetric])
    next
      case PingBlocked
      with send [of k] show ?thesis by (simp add: queued_within_def)
    qed
  qed
qed simp

text \<open>
  C29: The ping task ends the session of a peer that has stopped answering, as long as its pings can be
  queued: if the last answer came at \<open>p\<close> and every attempt to queue a ping returns within \<open>limit\<close>, the task ends at most
  thirty seconds and the larger of \<open>limit\<close> and ten seconds after \<open>p\<close>. It ends because of a timeout only when the last
  answer it knows is more than thirty seconds old, and otherwise only because the queue was closed.
\<close>

theorem pong_timeout_bounded:
  assumes "\<forall>k. last_pong k \<le> p" and "start \<le> p" and "\<forall>k. queued_within limit (send k)"
    and "fuel > 4 + (p - start) div CLIENT_WEBSOCKET_PING_INTERVAL"
  shows "\<exists>k t end. ping_task start last_pong send 0 start fuel = Some (k, t, end) \<and>
    t \<le> p + from_secs 30 + max limit (from_secs 10) \<and>
    (end = PongTimeout \<and> last_pong k + from_secs 30 < t \<or> end = PingFailed \<and> (\<exists>delay. send k = PingRefused delay))"
proof -
  let ?I = CLIENT_WEBSOCKET_PING_INTERVAL and ?T = CLIENT_WEBSOCKET_PONG_TIMEOUT
  have I: "?I = 10000000000" "?T = 30000000000"
    by (simp_all add: CLIENT_WEBSOCKET_PING_INTERVAL_def CLIENT_WEBSOCKET_PONG_TIMEOUT_def from_secs_def)
  have "(p - start) mod ?I < ?I" using I by simp
  then have "p - start < ((p - start) div ?I + 1) * ?I"
    using div_mult_mod_eq [of "p - start" ?I] by (simp only: add_mult_distrib)
  moreover have "((p - start) div ?I + 1) * ?I + 4 * ?I \<le> fuel * ?I"
    using mult_le_mono1 [of "5 + (p - start) div ?I" fuel ?I] assms(4) by (simp add: add_mult_distrib)
  ultimately have "p + ?T + ?I < start + (0 + fuel) * ?I" using assms(2) I by simp
  with ping_task_ends [of last_pong p limit send start start 0 fuel] assms(1-3) show ?thesis
    unfolding timeout_justified_def by (simp add: CLIENT_WEBSOCKET_PING_INTERVAL_def CLIENT_WEBSOCKET_PONG_TIMEOUT_def)
qed

theorem pong_timeout_bounded_witness:
  "\<exists>k t end. ping_task 0 (\<lambda>_. from_secs 15) (\<lambda>k. PingQueued (from_secs (min k 4))) 0 0 9 = Some (k, t, end) \<and>
     t \<le> from_secs 55 \<and> end = PongTimeout"
proof -
  have "\<forall>k. queued_within (from_secs 4) (PingQueued (from_secs (min k 4)))" by (simp add: queued_within_def from_secs_def)
  with pong_timeout_bounded [of "\<lambda>_. from_secs 15" "from_secs 15" 0 "from_secs 4" "\<lambda>k. PingQueued (from_secs (min k 4))" 9]
  show ?thesis by (auto simp: CLIENT_WEBSOCKET_PING_INTERVAL_def from_secs_def)
qed

text \<open>
  The proviso is needed. Once the queue is full and the writer does not take anything from it any more, because the peer
  does not read, the task waits for room in the queue and never looks at the time again: it does not end, however long
  the peer has been silent.
\<close>

theorem stalled_writer_never_times_out:
  assumes "\<forall>j < k. \<exists>delay. send j = PingQueued delay \<and> delay \<le> CLIENT_WEBSOCKET_PING_INTERVAL" and "send k = PingBlocked"
    and "\<forall>j \<le> k. start + j * CLIENT_WEBSOCKET_PING_INTERVAL \<le> last_pong j + CLIENT_WEBSOCKET_PONG_TIMEOUT"
  shows "ping_task start last_pong send 0 start fuel = None"
proof -
  have "ping_task start last_pong send j t fuel = None" if "j \<le> k" "t \<le> start + j * CLIENT_WEBSOCKET_PING_INTERVAL" for j t
    using that
  proof (induction fuel arbitrary: j t)
    case (Suc fuel)
    let ?now = "start + j * CLIENT_WEBSOCKET_PING_INTERVAL"
    have "?now \<le> last_pong j + CLIENT_WEBSOCKET_PONG_TIMEOUT" using Suc.prems(1) assms(3) by blast
    then have due: "max t ?now = ?now" "\<not> ?now - last_pong j > CLIENT_WEBSOCKET_PONG_TIMEOUT" using Suc.prems(2) by linarith+
    show ?case
    proof (cases "j = k")
      case True
      with due assms(2) show ?thesis by (simp add: ping_tick_def)
    next
      case False
      with Suc.prems(1) have "j < k" by simp
      with assms(1) obtain delay where "send j = PingQueued delay" "delay \<le> CLIENT_WEBSOCKET_PING_INTERVAL" by blast
      with Suc.IH [of "Suc j" "?now + delay"] Suc.prems False due show ?thesis by (simp add: ping_tick_def)
    qed
  qed simp
  from this [of 0 start] show ?thesis by simp
qed

text \<open>
  A call update that waited in the queue of a session is replaced, when it is forwarded, by the
  current state of the call as long as the client is a party of it, and every other message is
  forwarded as it is.
\<close>

theorem forwarded_update_is_current:
  "session_turn e now client (DirectMessage msg) st =
     (st,
      [case msg of
         CallUpdate update \<Rightarrow>
           (if is_party (cu_call_id update) (sess_id client) (app_calls st)
            then CallUpdate (for_recipient
              \<lparr>up_call_id = cu_call_id update,
               up_invited_participants =
                 (case hm_get (ringing_calls (app_calls st)) (cu_call_id update) of Some r \<Rightarrow> invited_participants r | None \<Rightarrow> []),
               up_joined_participants =
                 (case hm_get (active_calls (app_calls st)) (cu_call_id update) of Some a \<Rightarrow> ace_participants a | None \<Rightarrow> []),
               up_conference_leader =
                 (case hm_get (active_calls (app_calls st)) (cu_call_id update) of
                    Some a \<Rightarrow> ace_conference_leader a | None \<Rightarrow> None)\<rparr> (sess_id client))
            else msg)
       | _ \<Rightarrow> msg],
      None)"
  by (cases msg) (simp_all add: session_turn_def refresh_call_update_def call_state_for_party_eq)

end
