(* ===== verification/ServerSystem.thy ===== *)
theory ServerSystem
  imports ServerInvariant Session ClientBehaviour
begin

text \<open>
  The server as a transition system: clients connect, the session tasks handle the messages of their
  clients and end, connections are terminated, the VATSIM feed is synchronised and the network is
  replaced, in any order. A session task keeps its own copy of the session it registered, and goes on
  for a while after its client was removed by another task. The theorems are about all states the
  server reaches.
\<close>

section \<open>States, events and steps\<close>

record 'l server =
  srv_app :: "'l app_state"
  srv_sessions :: "client_session list"

definition server_new :: "network \<Rightarrow> duration \<Rightarrow> u32 \<Rightarrow> 'l rate_limiters \<Rightarrow> 'l server" where
  "server_new net grace n limiters =
     \<lparr>srv_app = \<lparr>app_clients = client_manager_new net grace n, app_calls = call_manager_new n, app_limiters = limiters,
                outbox = []\<rparr>, srv_sessions = []\<rparr>"

datatype server_event =
    Connect instant client_info "profile_id active_profile"
  | SessionEvent instant client_session session_event
  | EndSession client_session
  | Terminate client_id
  | SyncFeed instant bool
  | LoadNetwork network

fun server_step :: "'l env \<Rightarrow> server_event \<Rightarrow> 'l server \<Rightarrow> 'l server" where
  "server_step e (Connect now info profile) s =
     (case register_client e now info profile (srv_app s) of
        (st, Inr client) \<Rightarrow> \<lparr>srv_app = st, srv_sessions = srv_sessions s @ [client]\<rparr>
      | (st, Inl _) \<Rightarrow> s\<lparr>srv_app := st\<rparr>)"
| "server_step e (SessionEvent now client ev) s = s\<lparr>srv_app := fst (session_turn e now client ev (srv_app s))\<rparr>"
| "server_step e (EndSession client) s =
     \<lparr>srv_app = close_session e client (srv_app s), srv_sessions = remove1 client (srv_sessions s)\<rparr>"
| "server_step e (Terminate cid) s = s\<lparr>srv_app := terminate_connection e cid (srv_app s)\<rparr>"
| "server_step e (SyncFeed now req) s = s\<lparr>srv_app := update_vatsim_controllers e now req (srv_app s)\<rparr>"
| "server_step e (LoadNetwork net) s = s\<lparr>srv_app := app_replace_network net (srv_app s)\<rparr>"

text \<open>A session task acts only while it runs, and a network is only loaded if it has no errors.\<close>

fun server_enabled :: "server_event \<Rightarrow> 'l server \<Rightarrow> bool" where
  "server_enabled (SessionEvent now client ev) s \<longleftrightarrow> client \<in> set (srv_sessions s)"
| "server_enabled (EndSession client) s \<longleftrightarrow> client \<in> set (srv_sessions s)"
| "server_enabled (LoadNetwork net) s \<longleftrightarrow> network_wf net"
| "server_enabled _ s \<longleftrightarrow> True"

inductive server_reachable :: "'l env \<Rightarrow> u32 \<Rightarrow> 'l server \<Rightarrow> bool" for e :: "'l env" and n :: u32 where
  server_init: "network_wf net \<Longrightarrow> server_reachable e n (server_new net grace n limiters)"
| server_next: "server_reachable e n s \<Longrightarrow> server_enabled ev s \<Longrightarrow> server_reachable e n (server_step e ev s)"

inductive_cases server_reachableE: "server_reachable e n s"

section \<open>The invariant\<close>

definition session_ids :: "'l server \<Rightarrow> client_id set" where
  "session_ids s = sess_id ` set (srv_sessions s)"

lemma keys_clear_position:
  "set (hm_keys (fst (clear_position net limit c x))) = set (hm_keys (fst x))"
  by (cases x) (auto simp: clear_position_def Let_def set_hm_keys split: option.splits prod.splits)

lemma keys_refresh_client:
  "set (hm_keys (fst (refresh_client net limit pid src c x))) = set (hm_keys (fst x))"
  by (cases x) (auto simp: refresh_client_def Let_def set_hm_keys split: option.splits prod.splits)

lemma keys_replace_network:
  "set (hm_keys (clients (fst (replace_network net m)))) = set (hm_keys (clients m))"
proof -
  define P where "P x \<longleftrightarrow> set (hm_keys (fst x)) = set (hm_keys (clients m))"
    for x :: "(client_id, client_session) hash_map \<times> session_update list"
  define Q where "Q x \<longleftrightarrow> P (snd x)" for x :: "(position_id, client_id hash_set) hash_map \<times>
    (client_id, client_session) hash_map \<times> session_update list"
  have clear: "P (fold (clear_position net l) cids x)" if "P x" for l cids x
    by (rule fold_inv [where P = P, OF that]) (simp add: P_def keys_clear_position)
  have stale: "Q (remove_stale_position net l p x)" if "Q x" for l p x
    using that clear by (cases x) (auto simp: Q_def remove_stale_position_def split: option.splits)
  have "P (fold (refresh_client net l pid src) cids x)" if "P x" for l pid src cids x
    by (rule fold_inv [where P = P, OF that]) (simp add: P_def keys_refresh_client)
  then have refresh: "P (refresh_position net l p x)" if "P x" for l p x
    using that by (simp add: refresh_position_def case_prod_unfold Let_def)
  let ?stale = "filter (\<lambda>p. get_position net p = None) (hm_keys (online_positions m))"
  obtain ops cs us where st: "fold (remove_stale_position net (conf_size_limit m)) ?stale (online_positions m, clients m, []) = (ops, cs, us)"
    by (metis prod_cases3)
  have "Q (fold (remove_stale_position net (conf_size_limit m)) ?stale (online_positions m, clients m, []))"
    by (rule fold_inv [where P = Q]) (simp_all add: Q_def P_def stale [unfolded Q_def P_def])
  then have "P (cs, us)" by (simp add: st Q_def)
  then have "P (fold (refresh_position net (conf_size_limit m)) ops (cs, us))"
    by (rule fold_inv [where P = P]) (rule refresh)
  then show ?thesis by (simp add: replace_network_def st Let_def P_def case_prod_unfold)
qed

lemma core_turn:
  assumes c: "core n X st" and x: "sess_id client \<in> X"
  shows "core n X (fst (session_turn e now client ev st))"
proof (cases ev)
  case (Inbound msg)
  obtain st' flow where "handle_application_message e now client msg st = (st', flow)"
    by (cases "handle_application_message e now client msg st")
  with core_message [OF c x, of e now msg] Inbound show ?thesis by (cases flow) (simp_all add: session_turn_def)
next
  case (BroadcastMessage msg)
  with c show ?thesis by (cases msg) (simp_all add: session_turn_def)
qed (simp_all add: session_turn_def c)

lemma core_load_network:
  assumes c: "core n X st" and wf: "network_wf net"
  shows "core n X (app_replace_network net st)"
proof -
  obtain m out where r: "replace_network net (app_clients st) = (m, out)" by (cases "replace_network net (app_clients st)")
  have "core n X (st\<lparr>app_clients := m, outbox := outbox st @ out\<rparr>)"
    using replace_network_inv [OF coreD(2) [OF c] wf] keys_replace_network [of net "app_clients st"] coreD(4) [OF c] r
    by (intro core_clients [OF c]) simp_all
  then show ?thesis by (simp add: app_replace_network_def r)
qed

lemma register_client_session:
  "snd (register_client e now info profile st) = Inr client \<Longrightarrow> sess_id client = info_id info"
  by (auto simp: register_client_def add_client_def Let_def split: if_splits prod.splits)

lemma core_step:
  assumes c: "core n (session_ids s) (srv_app s)" and en: "server_enabled ev s"
  shows "core n (session_ids (server_step e ev s)) (srv_app (server_step e ev s))"
proof (cases ev)
  case (Connect now info profile)
  obtain st res where r: "register_client e now info profile (srv_app s) = (st, res)"
    by (cases "register_client e now info profile (srv_app s)")
  show ?thesis
  proof (cases res)
    case (Inr client)
    with r register_client_session [of e now info profile "srv_app s" client] core_register [OF c, of info e now profile] show ?thesis
      by (auto simp: Connect session_ids_def intro: core_mono)
  next
    case (Inl err)
    define st1 where "st1 = (if clients (app_clients (srv_app s)) = []
      then update_vatsim_controllers e now False (srv_app s) else srv_app s)"
    have c1: "core n (session_ids s) st1" using c core_update_vatsim [OF c] by (simp add: st1_def)
    have "st = st1"
      using r Inl by (auto simp: register_client_def st1_def [symmetric] add_client_def Let_def split: if_splits prod.splits)
    with c1 show ?thesis by (simp add: Connect r Inl session_ids_def)
  qed
next
  case (EndSession client)
  have "session_ids s - {sess_id client} \<subseteq> session_ids (server_step e ev s)"
  proof
    fix i assume "i \<in> session_ids s - {sess_id client}"
    then obtain x where "x \<in> set (srv_sessions s)" "x \<noteq> client" "i = sess_id x" by (auto simp: session_ids_def)
    then show "i \<in> session_ids (server_step e ev s)" by (simp add: EndSession session_ids_def in_set_remove1)
  qed
  with core_unregister [OF c, of "sess_id client" e None] show ?thesis
    by (auto simp: EndSession close_session_def intro: core_mono)
qed (use c en in \<open>auto simp: session_ids_def terminate_connection_def
      intro: core_turn core_unregister_mono core_update_vatsim core_load_network\<close>)

lemma core_new: "network_wf net \<Longrightarrow> core n {} (srv_app (server_new net grace n limiters))"
  using call_reachable_init [of n] coverage_inv_new [of net grace n]
  by (simp add: core_def server_new_def known_clients_def call_manager_new_def call_size_def client_manager_new_def)

lemma server_reachable_core: "server_reachable e n s \<Longrightarrow> core n (session_ids s) (srv_app s)"
proof (induction rule: server_reachable.induct)
  case (server_init net grace limiters)
  then show ?case by (rule core_mono [OF core_new]) simp
next
  case (server_next s ev)
  then show ?case by (blast intro: core_step)
qed

section \<open>Refinement of the managers\<close>

text \<open>A step of the server on its managers: contract-respecting operations of each.\<close>

definition simulates :: "'l app_state \<Rightarrow> 'l app_state \<Rightarrow> bool" where
  "simulates st st' \<longleftrightarrow>
     (\<exists>ops. list_all op_contract ops \<and> app_calls st' = run exec_op ops (app_calls st)) \<and>
     (\<exists>ops. list_all client_contract ops \<and> app_clients st' = run exec_client_op ops (app_clients st))"

lemma simulates_refl: "app_calls st' = app_calls st \<Longrightarrow> app_clients st' = app_clients st \<Longrightarrow> simulates st st'"
  unfolding simulates_def by (auto intro!: exI [of _ "[]"])

lemma simulates_trans: "simulates a b \<Longrightarrow> simulates b c \<Longrightarrow> simulates a c"
  unfolding simulates_def by clarsimp (metis list_all_append run_append)

lemma simulates_client_op:
  "client_contract x \<Longrightarrow> app_clients st' = exec_client_op x (app_clients st) \<Longrightarrow> app_calls st' = app_calls st \<Longrightarrow> simulates st st'"
  unfolding simulates_def by (auto intro: exI [of _ "[]"] exI [of _ "[x]"])

lemma simulates_call_steps: "call_steps P st st' \<Longrightarrow> (\<And>x. P x \<Longrightarrow> op_contract x) \<Longrightarrow> simulates st st'"
  unfolding call_steps_def simulates_def by (auto simp: list_all_iff intro: exI [of _ "[]"])

lemma simulates_sends: "only_sends st st' \<Longrightarrow> simulates st st'"
  by (auto dest: only_sendsD intro: simulates_refl)

lemma simulates_quiet: "quiet st st' \<Longrightarrow> simulates st st'"
  by (erule simulates_call_steps) (auto dest: quiet_attempt_ok [of _ UNIV] simp: attempt_ok_def)

lemma simulates_turn:
  assumes c: "core n X st" and x: "sess_id client \<in> X"
  shows "simulates st (fst (session_turn e now client ev st))"
proof (cases ev)
  case (Inbound msg)
  have n: "max_conf_size (app_calls st) = n" by (rule call_reachable_max_conf_size [OF coreD(1) [OF c]])
  have "simulates st (fst (handle_application_message e now client msg st))"
  proof (cases "claimed_relay msg")
    case None
    with handle_message_handled [OF coreD(2) [OF c] x coreD(4) [OF c], of msg e now] coreD(5) [OF c]
    have "handled (unat n) X st (fst (handle_application_message e now client msg st))" by (simp add: n)
    then obtain st1 where "call_steps (attempt_ok X) st st1" "quiet st1 (fst (handle_application_message e now client msg st))"
      by (auto simp: handled_def)
    then show ?thesis
      by (auto simp: attempt_ok_def intro: simulates_trans [OF simulates_call_steps [where P = "attempt_ok X"] simulates_quiet])
  next
    case (Some m)
    with handle_relay_message [of msg m e now client st] show ?thesis by (auto simp: handle_webrtc_calls intro: simulates_refl)
  qed
  moreover obtain st' flow where "handle_application_message e now client msg st = (st', flow)"
    by (cases "handle_application_message e now client msg st")
  ultimately show ?thesis using Inbound by (cases flow) (simp_all add: session_turn_def)
next
  case (BroadcastMessage msg)
  then show ?thesis by (cases msg) (simp_all add: session_turn_def simulates_refl)
qed (simp_all add: session_turn_def simulates_refl)

lemma simulates_unregister: "simulates st (unregister_client e x reason st)"
proof -
  obtain m out where m: "remove_client (data_feed e (outbox st)) x reason (app_clients st) = (m, out)"
    by (cases "remove_client (data_feed e (outbox st)) x reason (app_clients st)")
  obtain cm actions where cm: "cleanup_client_calls x (app_calls st) = (cm, actions)"
    by (cases "cleanup_client_calls x (app_calls st)")
  let ?st1 = "st\<lparr>app_clients := m, outbox := outbox st @ out\<rparr>"
  have "simulates st ?st1"
    by (rule simulates_client_op [of "RemoveClient (data_feed e (outbox st)) x reason"]) (simp_all add: m)
  moreover have "simulates ?st1 (?st1\<lparr>app_calls := cm\<rparr>)"
    by (rule simulates_call_steps [OF call_steps_op [of op_contract "CleanupClientCalls x"]]) (simp_all add: cm)
  moreover have "simulates (?st1\<lparr>app_calls := cm\<rparr>) (fold (send_cleanup_action e x) actions (?st1\<lparr>app_calls := cm\<rparr>))"
    by (intro simulates_sends only_sends_fold sends)
  ultimately show ?thesis by (simp add: unregister_client_def m cm Let_def) (blast intro: simulates_trans)
qed

lemma simulates_update_vatsim: "simulates st (update_vatsim_controllers e now req st)"
proof (cases "data_feed e (outbox st)")
  case (Some controllers)
  obtain m out dis where s: "sync_vatsim_state now (index_by_cid controllers) req (app_clients st) = (m, out, dis)"
    by (metis prod_cases3)
  let ?st1 = "st\<lparr>app_clients := m, outbox := outbox st @ out\<rparr>"
  have 1: "simulates st ?st1"
    by (rule simulates_client_op [of "SyncVatsim now (index_by_cid controllers) req"]) (simp_all add: s)
  have "simulates st (fold (\<lambda>(cid, reason). unregister_client e cid (Some reason)) dis ?st1)"
    by (rule fold_inv [where P = "simulates st"]) (auto intro: 1 simulates_trans [OF _ simulates_unregister])
  then show ?thesis by (simp add: update_vatsim_controllers_def Some s)
qed (simp add: update_vatsim_controllers_def simulates_refl)

lemma simulates_register: "simulates st (fst (register_client e now info profile st))"
proof -
  define st1 where "st1 = (if clients (app_clients st) = [] then update_vatsim_controllers e now False st else st)"
  have 1: "simulates st st1" by (simp add: st1_def simulates_update_vatsim simulates_refl)
  obtain m result out where a: "add_client now info profile (app_clients st1) = (m, result, out)" by (metis prod_cases3)
  have "simulates st1 (st1\<lparr>app_clients := m, outbox := outbox st1 @ out\<rparr>)"
    by (rule simulates_client_op [of "AddClient now info profile"]) (simp_all add: a)
  with 1 show ?thesis by (auto simp: register_client_def st1_def [symmetric] a intro: simulates_trans)
qed

lemma simulates_step:
  assumes c: "core n (session_ids s) (srv_app s)" and en: "server_enabled ev s"
  shows "simulates (srv_app s) (srv_app (server_step e ev s))"
proof (cases ev)
  case (Connect now info profile)
  obtain st res where r: "register_client e now info profile (srv_app s) = (st, res)"
    by (cases "register_client e now info profile (srv_app s)")
  with simulates_register [of "srv_app s" e now info profile] Connect show ?thesis by (cases res) simp_all
next
  case (SessionEvent now client ev')
  with en have "sess_id client \<in> session_ids s" by (simp add: session_ids_def)
  with simulates_turn [OF c] SessionEvent show ?thesis by simp
next
  case (LoadNetwork net)
  obtain m out where r: "replace_network net (app_clients (srv_app s)) = (m, out)"
    by (cases "replace_network net (app_clients (srv_app s))")
  with en LoadNetwork show ?thesis
    by (auto simp: app_replace_network_def intro!: simulates_client_op [of "ReplaceNetwork net"])
qed (auto simp: close_session_def terminate_connection_def simulates_unregister simulates_update_vatsim)

end
