(* ===== verification/ServerBehaviour.thy ===== *)
theory ServerBehaviour
  imports ServerSystem
begin

text \<open>
  What the server guarantees in every state it reaches and in every order of events: it refines its
  managers, keeps the conference limit, leaves no call to a client without a session, believes no
  message about its sender, and relays WebRTC messages between participants only. Two further
  theorems show where the source falls short: a session task answers from a stale copy of its session,
  and the end of an old connection removes the client's new one.
\<close>

section \<open>A concrete server\<close>

definition demo_governor :: "unit governor" where
  "demo_governor = \<lparr>keyed = (\<lambda>_. ()), check_key = (\<lambda>l _ _. (l, None)), check_key_n = (\<lambda>l _ _ _. (l, Conforming))\<rparr>"

definition demo_env :: "controller_info list option \<Rightarrow> unit env" where
  "demo_env feed = \<lparr>env_governor = demo_governor, channel_open = (\<lambda>_ _. True), data_feed = (\<lambda>_. feed)\<rparr>"

definition demo_server :: "unit server" where
  "demo_server = server_new demo_network 30 5 (rate_limiters_from demo_governor rate_limiters_config_default)"

definition demo_session :: "nat \<Rightarrow> string \<Rightarrow> string \<Rightarrow> string \<Rightarrow> client_session" where
  "demo_session now c name pos = client_session_new now (demo_info c name pos) Custom"

abbreviation demo_call :: "client_id \<Rightarrow> call_target list \<Rightarrow> call_invite" where
  "demo_call caller targets \<equiv>
     \<lparr>ci_call_id = CallId 1, ci_source = \<lparr>cs_client_id = caller, cs_position_id = None, cs_station_id = None\<rparr>,
      ci_targets = targets, ci_prio = False\<rparr>"

text \<open>The tower and an observer connect, and the observer calls the tower station, which answers.\<close>

definition demo_events :: "server_event list" where
  "demo_events =
     [Connect 0 (demo_info ''1'' ''LOWW_TWR'' ''LOWW_TWR'') Custom, Connect 0 (demo_info ''2'' ''OBS'' []) Custom,
      SessionEvent 1 (demo_session 0 ''2'' ''OBS'' []) (Inbound (MsgCallInvite (demo_call (ClientId ''2'') [Station (StationId ''LOWW_TWR'')]))),
      SessionEvent 2 (demo_session 0 ''1'' ''LOWW_TWR'' ''LOWW_TWR'')
        (Inbound (MsgCallAccept \<lparr>ca_call_id = CallId 1, ca_accepting_client_id = ClientId ''1''\<rparr>))]"

text \<open>Enabledness of the events other than loading a network, which can be evaluated.\<close>

fun task_enabled :: "server_event \<Rightarrow> 'l server \<Rightarrow> bool" where
  "task_enabled (SessionEvent now client ev) s \<longleftrightarrow> client \<in> set (srv_sessions s)"
| "task_enabled (EndSession client) s \<longleftrightarrow> client \<in> set (srv_sessions s)"
| "task_enabled (LoadNetwork net) s \<longleftrightarrow> False"
| "task_enabled _ s \<longleftrightarrow> True"

lemma task_enabledD: "task_enabled ev s \<Longrightarrow> server_enabled ev s"
  by (cases ev) simp_all

fun enabled_run :: "'l env \<Rightarrow> server_event list \<Rightarrow> 'l server \<Rightarrow> bool" where
  "enabled_run e [] s \<longleftrightarrow> True"
| "enabled_run e (ev # evs) s \<longleftrightarrow> task_enabled ev s \<and> enabled_run e evs (server_step e ev s)"

lemma enabled_run_reachable:
  "server_reachable e n s \<Longrightarrow> enabled_run e evs s \<Longrightarrow> server_reachable e n (run (server_step e) evs s)"
  by (induction evs arbitrary: s) (auto intro: server_next task_enabledD)

definition demo_run :: "unit server" where
  "demo_run = run (server_step (demo_env None)) demo_events demo_server"

lemma demo_server_reachable: "server_reachable e 5 demo_server"
  unfolding demo_server_def by (rule server_init [OF demo_network_wf])

lemma demo_run_reachable: "server_reachable (demo_env None) 5 demo_run"
  unfolding demo_run_def
proof (rule enabled_run_reachable [OF demo_server_reachable])
  show "enabled_run (demo_env None) demo_events demo_server" by code_simp
qed

text \<open>What the examples below read off the state after the run.\<close>

definition demo_offer :: webrtc_message where
  "demo_offer = \<lparr>wm_call_id = CallId 1, wm_from_client_id = ClientId ''2'', wm_to_client_id = ClientId ''1'', wm_payload = ''sdp''\<rparr>"

definition run_facts :: "unit server \<Rightarrow> bool" where
  "run_facts s \<longleftrightarrow>
     map_option (length \<circ> ace_participants) (hm_get (active_calls (app_calls (srv_app s))) (CallId 1)) = Some 2 \<and>
     hm_get (ringing_calls (app_calls (srv_app s))) (CallId 1) = None \<and>
     task_enabled (EndSession (demo_session 0 ''2'' ''OBS'' [])) s \<and>
     map sess_id (srv_sessions (server_step (demo_env None) (EndSession (demo_session 0 ''2'' ''OBS'' [])) s)) = [ClientId ''1''] \<and>
     demo_session 0 ''2'' ''OBS'' [] \<in> set (srv_sessions s) \<and>
     outbox (fst (handle_application_message (demo_env None) 9 (demo_session 0 ''2'' ''OBS'' []) (MsgWebrtcOffer demo_offer) (srv_app s))) =
       outbox (srv_app s) @ [Direct (ClientId ''1'') (WebrtcOffer demo_offer)]"

lemma demo_run_facts: "run_facts demo_run"
  by code_simp

section \<open>Guarantees\<close>

text \<open>
  C1: The server refines its managers. In every state it reaches, each step, whatever task takes it,
  acts on the call manager as a sequence of its operations within their contract and on the client
  manager likewise, so that the call manager is in a reachable state of its own and the client manager
  keeps its invariant.
\<close>

theorem server_refines_managers:
  assumes "server_reachable e n s" and "server_enabled ev s"
  shows "simulates (srv_app s) (srv_app (server_step e ev s)) \<and>
    call_reachable n (app_calls (srv_app (server_step e ev s))) \<and>
    coverage_inv (app_clients (srv_app (server_step e ev s)))"
proof -
  note c = server_reachable_core [OF assms(1)]
  from coreD [OF core_step [OF c assms(2)]] simulates_step [OF c assms(2)] show ?thesis by blast
qed

theorem server_refines_managers_witness:
  "server_enabled (Terminate (ClientId ''1'')) demo_run \<and>
   simulates (srv_app demo_run) (srv_app (server_step (demo_env None) (Terminate (ClientId ''1'')) demo_run))"
  using server_refines_managers [OF demo_run_reachable, of "Terminate (ClientId ''1'')"] by simp

text \<open>
  C4: The conference limit holds in every reachable state: the joined participants of a call, its
  ringing targets and a caller that has not joined are together at most the configured limit, however
  invitations, answers and disconnects interleave.
\<close>

theorem conference_limit:
  assumes "server_reachable e n s"
  shows "(case hm_get (active_calls (app_calls (srv_app s))) c of Some a \<Rightarrow> length (ace_participants a) | None \<Rightarrow> 0) +
    (case hm_get (ringing_calls (app_calls (srv_app s))) c of
       Some r \<Rightarrow> length (rc_targets r) +
         (if (case hm_get (active_calls (app_calls (srv_app s))) c of
                Some a \<Rightarrow> hm_contains_key (rc_caller_id r) (ace_participants a) | None \<Rightarrow> False) then 0 else 1)
     | None \<Rightarrow> 0) \<le> unat n"
  using coreD(5) [OF server_reachable_core [OF assms], of c]
  by (simp only: call_size_def hm_contains_key_iff)

theorem conference_limit_witness:
  "\<exists>a. hm_get (active_calls (app_calls (srv_app demo_run))) (CallId 1) = Some a \<and> length (ace_participants a) = 2 \<and>
     length (ace_participants a) \<le> 5"
proof -
  have "map_option (length \<circ> ace_participants) (hm_get (active_calls (app_calls (srv_app demo_run))) (CallId 1)) = Some 2"
    "hm_get (ringing_calls (app_calls (srv_app demo_run))) (CallId 1) = None"
    using demo_run_facts unfolding run_facts_def by blast+
  then show ?thesis using conference_limit [OF demo_run_reachable, of "CallId 1"] by auto
qed

text \<open>
  C8: A client whose session tasks have all ended takes part in no call and is not connected, and a
  connected client, like every party of a call, has a session task.
\<close>

theorem no_session_no_call:
  assumes "server_reachable e n s" and "x \<notin> session_ids s"
  shows "\<not> is_client_connected (app_clients (srv_app s)) x \<and> \<not> is_party c x (app_calls (srv_app s))"
proof -
  note core = coreD [OF server_reachable_core [OF assms(1)]]
  note i = call_reachable_inv [OF core(1), unfolded call_inv_def]
  have "x \<notin> known_clients (app_calls (srv_app s))" using core(3) assms(2) by blast
  then have idle: "hm_get (client_active_calls (app_calls (srv_app s))) x = None"
    "hm_get (client_incoming_calls (app_calls (srv_app s))) x = None" by (auto simp: known_clients_def set_hm_keys)
  have "\<not> is_party c x (app_calls (srv_app s))" using not_party [OF i idle] .
  moreover have "\<not> is_client_connected (app_clients (srv_app s)) x"
    using core(4) assms(2) by (auto simp: is_client_connected_def hm_contains_key_iff)
  ultimately show ?thesis by blast
qed

theorem no_session_no_call_witness:
  "\<not> is_party (CallId 1) (ClientId ''2'')
     (app_calls (srv_app (server_step (demo_env None) (EndSession (demo_session 0 ''2'' ''OBS'' [])) demo_run)))"
proof -
  let ?ev = "EndSession (demo_session 0 ''2'' ''OBS'' [])"
  have "task_enabled ?ev demo_run" using demo_run_facts unfolding run_facts_def by blast
  from task_enabledD [OF this] have r: "server_reachable (demo_env None) 5 (server_step (demo_env None) ?ev demo_run)"
    by (rule server_next [OF demo_run_reachable])
  have "map sess_id (srv_sessions (server_step (demo_env None) ?ev demo_run)) = [ClientId ''1'']"
    using demo_run_facts unfolding run_facts_def by blast
  then have "ClientId ''2'' \<notin> session_ids (server_step (demo_env None) ?ev demo_run)"
    by (simp add: session_ids_def flip: set_map)
  from no_session_no_call [OF r this] show ?thesis by blast
qed

text \<open>The client a message names as its sender, with the call.\<close>

fun claimed_sender :: "client_message \<Rightarrow> (call_id \<times> client_id) option" where
  "claimed_sender (MsgCallInvite m) = Some (ci_call_id m, cs_client_id (ci_source m))"
| "claimed_sender (MsgCallAccept m) = Some (ca_call_id m, ca_accepting_client_id m)"
| "claimed_sender (MsgCallReject m) = Some (cr_call_id m, cr_rejecting_client_id m)"
| "claimed_sender (MsgCallEnd m) = Some (ce_call_id m, ce_ending_client_id m)"
| "claimed_sender (MsgCallError m) =
     (case cerr_reason m of
        WebrtcFailure x \<Rightarrow> Some (cerr_call_id m, x)
      | AudioFailure x \<Rightarrow> Some (cerr_call_id m, x)
      | SignalingFailure x \<Rightarrow> Some (cerr_call_id m, x)
      | _ \<Rightarrow> None)"
| "claimed_sender (MsgWebrtcOffer m) = Some (wm_call_id m, wm_from_client_id m)"
| "claimed_sender (MsgWebrtcAnswer m) = Some (wm_call_id m, wm_from_client_id m)"
| "claimed_sender (MsgWebrtcIceCandidate m) = Some (wm_call_id m, wm_from_client_id m)"
| "claimed_sender _ = None"

text \<open>
  C9: A message that names another client as its sender has no effect but an error to the client that
  sent it: no call, no session and no rate limit changes.
\<close>

theorem spoofed_sender_refused:
  assumes "claimed_sender msg = Some (c, x)" and "x \<noteq> sess_id client"
  shows "\<exists>why. handle_application_message e now client msg st =
    (if channel_open e (outbox st) (sess_id client)
     then st\<lparr>outbox := outbox st @
       [Direct (sess_id client) (CallError \<lparr>cerr_call_id = c, cerr_reason = Other, cerr_message = Some why\<rparr>)]\<rparr>
     else st, Continue)"
proof -
  have err: "send_call_error e client c Other (Some why) st =
    (if channel_open e (outbox st) (sess_id client)
     then st\<lparr>outbox := outbox st @
       [Direct (sess_id client) (CallError \<lparr>cerr_call_id = c, cerr_reason = Other, cerr_message = Some why\<rparr>)]\<rparr>
     else st)" for why
    by (simp add: send_call_error_def session_send_def)
  have "\<exists>why. handle_application_message e now client msg st = (send_call_error e client c Other (Some why) st, Continue)"
    using assms
    by (cases msg)
      (auto simp: handle_application_message_def handle_call_invite_def handle_call_accept_def handle_call_reject_def
        handle_call_end_def handle_call_error_def handle_webrtc_def check_webrtc_relay_def Let_def split: call_error_reason.splits)
  then show ?thesis unfolding err .
qed

theorem spoofed_sender_refused_witness:
  "app_calls (fst (handle_application_message (demo_env None) 9 (demo_session 0 ''2'' ''OBS'' [])
     (MsgCallEnd \<lparr>ce_call_id = CallId 1, ce_ending_client_id = ClientId ''1''\<rparr>) (srv_app demo_run))) = app_calls (srv_app demo_run)"
  using spoofed_sender_refused [of "MsgCallEnd \<lparr>ce_call_id = CallId 1, ce_ending_client_id = ClientId ''1''\<rparr>" "CallId 1"
      "ClientId ''1''" "demo_session 0 ''2'' ''OBS'' []" "demo_env None" 9 "srv_app demo_run"]
  by (auto simp: demo_session_def demo_info_def sess_id_def client_session_new_def)

text \<open>
  C10: A WebRTC message reaches a client only as the relay of a message that its sender sent under its
  own name to that client, in a call both have joined at that moment.
\<close>

theorem webrtc_relay_confined:
  assumes "server_reachable e n s" and "client \<in> set (srv_sessions s)"
    and "outbox (fst (handle_application_message e now client msg (srv_app s))) = outbox (srv_app s) @ out"
    and "Direct y (WebrtcOffer m) \<in> set out \<or> Direct y (WebrtcAnswer m) \<in> set out \<or> Direct y (WebrtcIceCandidate m) \<in> set out"
  shows "claimed_relay msg = Some m \<and> wm_from_client_id m = sess_id client \<and> wm_to_client_id m = y \<and>
    has_active_call (wm_call_id m) (sess_id client) (app_calls (srv_app s)) \<and>
    has_active_call (wm_call_id m) y (app_calls (srv_app s))"
proof -
  let ?st = "srv_app s" and ?st' = "fst (handle_application_message e now client msg (srv_app s))"
  note c = server_reachable_core [OF assms(1)]
  have x: "sess_id client \<in> session_ids s" using assms(2) by (simp add: session_ids_def)
  have relay: "\<not> list_all (\<lambda>x. \<not> relays x) out" using assms(4) by (force simp: list_all_iff)
  have not_own: "\<not> sends_own ?st ?st'" using relay assms(3) by (auto simp: sends_own_def)
  show ?thesis
  proof (cases "claimed_relay msg")
    case None
    have n: "max_conf_size (app_calls ?st) = n" by (rule call_reachable_max_conf_size [OF coreD(1) [OF c]])
    from None handle_message_handled [OF coreD(2) [OF c] x coreD(4) [OF c], of msg e now] coreD(5) [OF c]
    have "handled (unat n) (session_ids s) ?st ?st'" by (simp add: n)
    then have "sends_own ?st ?st'" by (auto simp: handled_def call_steps_def intro: sends_own_trans)
    with not_own show ?thesis by simp
  next
    case (Some m')
    then obtain wrap where w: "?st' = handle_webrtc e client wrap m' ?st" "relayed (wrap m') = Some m'"
      using handle_relay_message by blast
    have "sessions_ok (clients (app_clients ?st))" using coreD(2) [OF c] by (simp add: coverage_inv_def)
    then show ?thesis
    proof (cases rule: handle_webrtc_relay [where e = e and client = client and wrap = wrap and msg = m'])
      case 1
      with not_own show ?thesis by (simp add: w(1) only_sendsD)
    next
      case 2
      then have "out = [Direct (wm_to_client_id m') (wrap m')]" using assms(3) by (simp add: w(1))
      then have "y = wm_to_client_id m'" "relayed (wrap m') = Some m"
        using assms(4) by (auto dest: sym [of _ "wrap m'"])
      with 2 w(2) Some show ?thesis by simp
    qed
  qed
qed

theorem webrtc_relay_confined_witness:
  "has_active_call (CallId 1) (ClientId ''1'') (app_calls (srv_app demo_run))"
proof -
  let ?c = "demo_session 0 ''2'' ''OBS'' []"
  have "?c \<in> set (srv_sessions demo_run)"
    "outbox (fst (handle_application_message (demo_env None) 9 ?c (MsgWebrtcOffer demo_offer) (srv_app demo_run))) =
      outbox (srv_app demo_run) @ [Direct (ClientId ''1'') (WebrtcOffer demo_offer)]"
    using demo_run_facts unfolding run_facts_def by blast+
  then show ?thesis using webrtc_relay_confined [OF demo_run_reachable, of ?c 9 "MsgWebrtcOffer demo_offer"
      "[Direct (ClientId ''1'') (WebrtcOffer demo_offer)]" "ClientId ''1''" demo_offer] by (simp add: demo_offer_def)
qed

section \<open>Where sessions go stale\<close>

definition stale_env :: "unit env" where
  "stale_env = demo_env (Some [snd (demo_controller ''2'' ''LOWW_TWR'' ''119.400'' Tower)])"

definition stale_run :: "unit server" where
  "stale_run = run (server_step stale_env) [Connect 0 (demo_info ''2'' ''OBS'' []) Custom, SyncFeed 100 False] demo_server"

text \<open>
  After the feed has moved a client to a position, its session task still answers a request for
  the stations from the copy of the session it took at login: the station the client now controls is
  not marked as its own, which it is in the list for its current session.
\<close>

theorem list_stations_from_stale_session:
  "server_reachable stale_env 5 stale_run \<and>
   demo_session 0 ''2'' ''OBS'' [] \<in> set (srv_sessions stale_run) \<and>
   (case get_client (app_clients (srv_app stale_run)) (ClientId ''2'') of
      None \<Rightarrow> False
    | Some current \<Rightarrow>
        sess_position_id current = Some (PositionId ''LOWW_TWR'') \<and>
        last (outbox (fst (session_turn stale_env 101 (demo_session 0 ''2'' ''OBS'' []) (Inbound MsgListStations) (srv_app stale_run)))) =
          Direct (ClientId ''2'') (StationList [\<lparr>si_id = StationId ''LOWW_TWR'', si_own = False\<rparr>]) \<and>
        list_stations (app_clients (srv_app stale_run)) (sess_active_profile current) (sess_position_id current) =
          [\<lparr>si_id = StationId ''LOWW_TWR'', si_own = True\<rparr>])"
proof (intro conjI)
  show "server_reachable stale_env 5 stale_run"
    unfolding stale_run_def
  proof (rule enabled_run_reachable [OF demo_server_reachable])
    show "enabled_run stale_env [Connect 0 (demo_info ''2'' ''OBS'' []) Custom, SyncFeed 100 False] demo_server" by code_simp
  qed
  show "demo_session 0 ''2'' ''OBS'' [] \<in> set (srv_sessions stale_run)" by code_simp
qed code_simp

definition reconnect_events :: "server_event list" where
  "reconnect_events =
     [Connect 0 (demo_info ''1'' ''LOWW_TWR'' ''LOWW_TWR'') Custom, Terminate (ClientId ''1''),
      Connect 5 (demo_info ''1'' ''LOWW_TWR'' ''LOWW_TWR'') Custom, EndSession (demo_session 0 ''1'' ''LOWW_TWR'' ''LOWW_TWR'')]"

text \<open>
  A client that terminates its connection and connects again loses the new connection if the
  session task of the old one ends only then: the task unregisters the client by its id, although its
  own session was already gone, and the running new session is no longer connected.
\<close>

theorem old_session_removes_new:
  "enabled_run (demo_env None) reconnect_events demo_server \<and>
   (let s = run (server_step (demo_env None)) (butlast reconnect_events) demo_server;
        s' = run (server_step (demo_env None)) reconnect_events demo_server
    in is_client_connected (app_clients (srv_app s)) (ClientId ''1'') \<and>
       srv_sessions s' = [demo_session 5 ''1'' ''LOWW_TWR'' ''LOWW_TWR''] \<and>
       \<not> is_client_connected (app_clients (srv_app s')) (ClientId ''1''))"
  by code_simp

section \<open>An invitation end to end\<close>

lemma send_invitations_all:
  assumes "\<And>y. y \<in> set ns \<Longrightarrow> get_client (app_clients st) y \<noteq> None" "sessions_ok (clients (app_clients st))"
    and "\<And>sent c. channel_open e sent c"
  shows "fold (send_invitation e invite prog leader) (map (\<lambda>y. (y, t)) ns) (st, failed) =
    (st\<lparr>outbox := outbox st @ map (\<lambda>y. Direct y (CallInvitation
       \<lparr>inv_call_id = ci_call_id invite, inv_source = ci_source invite, inv_target = t,
        inv_invited_targets = filter (\<lambda>x. x \<noteq> t) (hs_collect (hm_values (prog_invited prog))),
        inv_joined_participants = prog_joined prog, inv_conference_leader = leader, inv_prio = ci_prio invite\<rparr>)) ns\<rparr>, failed)"
  using assms(1,2)
proof (induction ns arbitrary: st)
  case (Cons y ns)
  obtain sess where s: "get_client (app_clients st) y = Some sess" "sess_id sess = y"
    using Cons.prems(1) [of y] Cons.prems(2) by (auto simp: get_client_def sessions_ok_def)
  define msg where "msg = CallInvitation
    \<lparr>inv_call_id = ci_call_id invite, inv_source = ci_source invite, inv_target = t,
     inv_invited_targets = filter (\<lambda>x. x \<noteq> t) (hs_collect (hm_values (prog_invited prog))),
     inv_joined_participants = prog_joined prog, inv_conference_leader = leader, inv_prio = ci_prio invite\<rparr>"
  have "send_invitation e invite prog leader (y, t) (st, failed) = (st\<lparr>outbox := outbox st @ [Direct y msg]\<rparr>, failed)"
    by (simp add: send_invitation_def send_message_def session_send_def s assms(3) msg_def [symmetric])
  with Cons.IH [of "st\<lparr>outbox := outbox st @ [Direct y msg]\<rparr>"] Cons.prems show ?case by (simp add: msg_def)
qed simp

lemma hm_extend_distinct:
  "distinct (map fst kvs) \<Longrightarrow> fst ` set kvs \<inter> set (hm_keys m) = {} \<Longrightarrow> hm_extend kvs m = m @ kvs"
proof (induction kvs arbitrary: m)
  case (Cons kv kvs)
  obtain k v where kv: "kv = (k, v)" by (cases kv)
  have "hm_insert k v m = m @ [(k, v)]"
    using Cons.prems by (intro hm_insert_new) (auto simp: kv set_hm_keys)
  with Cons show ?case by (auto simp: kv hm_extend_def hm_keys_def)
qed (simp add: hm_extend_def)

lemma extend_same_target: "distinct ns \<Longrightarrow> hm_extend (map (\<lambda>y. (y, t)) ns) [] = map (\<lambda>y. (y, t)) ns"
  by (subst hm_extend_distinct) (simp_all add: comp_def hm_keys_def)

lemma attempt_fresh_call:
  assumes free: "hm_get (client_active_calls s) k = None" and fresh: "hm_get (ringing_calls s) c = None" "hm_get (active_calls s) c = None"
    and ns: "distinct ns" "k \<notin> set ns"
  shows "\<exists>s'. attempt_call c k src t ns s = (s', Inr (map (\<lambda>y. (y, t)) ns, [])) \<and>
    (\<forall>y\<in>set ns. inc_get (client_incoming_calls s') y c = Some t) \<and> hm_get (client_active_calls s') k = Some c \<and>
    hm_get (active_calls s') c = None"
proof -
  have v: "validate_call_attempt c k t ns s = Inr ()"
    using assms by (simp add: validate_call_attempt_def hm_contains_key_def)
  show ?thesis
    using v assms attempt_call_OK [OF v, of src]
    by (auto simp: attempt_call_def Let_def hm_collect_def extend_same_target inc_get_fold_insert)
qed

text \<open>
  C7: An invitation reaches everybody it rings: when a free client calls a target that other clients
  answer for, with a new call id, within the limits and with open channels, each of these clients is
  sent the invitation, all of them ring under the target, and the caller is busy with the call.
\<close>

theorem invitation_delivered:
  assumes "server_reachable e n s" and "2 \<le> unat n" and "\<forall>sent c. channel_open e sent c"
    and "cs_client_id (ci_source invite) = sess_id client" and "ci_targets invite = [t]"
    and "resolve_target client (app_clients (srv_app s)) t \<noteq> []"
    and "snd (check_call_invite (env_governor e) now (sess_id client) 1 (app_limiters (srv_app s))) = None"
    and "hm_get (client_active_calls (app_calls (srv_app s))) (sess_id client) = None"
    and "hm_get (ringing_calls (app_calls (srv_app s))) (ci_call_id invite) = None"
    and "hm_get (active_calls (app_calls (srv_app s))) (ci_call_id invite) = None"
    and "st' = handle_call_invite e now client invite (srv_app s)"
  shows "outbox st' = outbox (srv_app s) @ map (\<lambda>y. Direct y (CallInvitation
      \<lparr>inv_call_id = ci_call_id invite, inv_source = ci_source invite, inv_target = t, inv_invited_targets = [],
       inv_joined_participants = [], inv_conference_leader = None, inv_prio = ci_prio invite\<rparr>))
      (resolve_target client (app_clients (srv_app s)) t) \<and>
    (\<forall>y. y \<in> set (resolve_target client (app_clients (srv_app s)) t) \<longrightarrow>
       inc_get (client_incoming_calls (app_calls st')) y (ci_call_id invite) = Some t) \<and>
    hm_get (client_active_calls (app_calls st')) (sess_id client) = Some (ci_call_id invite)"
proof -
  let ?st = "srv_app s" and ?c = "ci_call_id invite" and ?k = "sess_id client"
  define ns where "ns = resolve_target client (app_clients ?st) t"
  note core = coreD [OF server_reachable_core [OF assms(1)]]
  have ns: "distinct ns" "?k \<notin> set ns" "set ns \<subseteq> connected ?st" "ns \<noteq> []"
    using resolve_target_ok [OF core(2), of client t] assms(6) by (simp_all add: ns_def)
  have ses: "sessions_ok (clients (app_clients ?st))" using core(2) by (simp add: coverage_inv_def)
  obtain cm where cm: "attempt_call ?c ?k (ci_source invite) t ns (app_calls ?st) = (cm, Inr (map (\<lambda>y. (y, t)) ns, []))"
    "\<And>y. y \<in> set ns \<Longrightarrow> inc_get (client_incoming_calls cm) y ?c = Some t" "hm_get (client_active_calls cm) ?k = Some ?c"
    "hm_get (active_calls cm) ?c = None"
    using attempt_fresh_call [OF assms(8-10) ns(1,2), of "ci_source invite" t] by blast
  obtain ls where ls: "check_call_invite (env_governor e) now ?k 1 (app_limiters ?st) = (ls, None)"
    using assms(7) by (metis prod.collapse)
  have resolved: "resolve_targets client (app_clients ?st) (ci_targets invite) = ([(t, ns)], [])"
    using ns(4) by (simp add: resolve_targets_def assms(5) ns_def hs_collect_def hs_extend_def)
  have fits: "\<not> invite_exceeds_max_conf_size ?c ?k (hs_collect (map fst [(t, ns)])) (app_calls ?st)"
  proof -
    have "open_size (app_calls ?st) ?c ?k = 1" by (simp add: open_size_def assms(9,10))
    moreover have "new_target (app_calls ?st) ?c t" by (simp add: new_target_def assms(9,10))
    ultimately show ?thesis
      unfolding invite_exceeds_iff using assms(2) call_reachable_max_conf_size [OF core(1)]
      by (simp add: hs_collect_def hs_extend_def hs_insert_def)
  qed
  define prog where "prog = \<lparr>prog_invited = map (\<lambda>y. (y, t)) ns, prog_joined = [], prog_targets = map (\<lambda>y. (y, t)) ns\<rparr>"
  define st1 where "st1 = ?st\<lparr>app_limiters := ls, app_calls := cm\<rparr>"
  have st': "st' = invite_fan_out e invite prog st1"
    unfolding assms(11) handle_call_invite_def Let_def resolved prod.case
    using fits assms(4,5) ls cm(1) by (simp add: extend_same_target ns(1) prog_def st1_def)
  have targets: "filter (\<lambda>x. x \<noteq> t) (hs_collect (hm_values (prog_invited prog))) = []"
    by (auto simp: filter_empty_conv prog_def hm_values_def)
  have "get_client (app_clients st1) y \<noteq> None" if "y \<in> set ns" for y
    using ns(3) that by (auto simp: st1_def get_client_def set_hm_keys)
  from send_invitations_all [of ns st1 e invite prog None t "[]", OF this]
  have sent: "fold (send_invitation e invite prog None) (prog_targets prog) (st1, []) =
    (st1\<lparr>outbox := outbox ?st @ map (\<lambda>y. Direct y (CallInvitation
       \<lparr>inv_call_id = ?c, inv_source = ci_source invite, inv_target = t, inv_invited_targets = [],
        inv_joined_participants = [], inv_conference_leader = None, inv_prio = ci_prio invite\<rparr>)) ns\<rparr>, [])"
    using assms(3) ses targets by (simp add: prog_def st1_def)
  have skip: "fold (\<lambda>x st. if hm_contains_key x (map (\<lambda>y. (y, t)) ns) then st else f x st) ms u = u" if "set ms \<subseteq> set ns" for f ms u
    using that by (induction ms) (auto simp: hm_contains_key_iff hm_keys_def)
  have "active_call_of ?c cm = None" using cm(4) by (simp add: active_call_of_def)
  then have "st' = st1\<lparr>outbox := outbox ?st @ map (\<lambda>y. Direct y (CallInvitation
       \<lparr>inv_call_id = ?c, inv_source = ci_source invite, inv_target = t, inv_invited_targets = [],
        inv_joined_participants = [], inv_conference_leader = None, inv_prio = ci_prio invite\<rparr>)) ns\<rparr>"
    unfolding st' invite_fan_out_def Let_def using sent skip [of ns] by (simp add: st1_def prog_def comp_def)
  then show ?thesis using cm(2,3) by (simp add: st1_def ns_def [symmetric])
qed

definition demo_idle :: "unit server" where
  "demo_idle = run (server_step (demo_env None)) (take 2 demo_events) demo_server"

lemma demo_idle_reachable: "server_reachable (demo_env None) 5 demo_idle"
  unfolding demo_idle_def
proof (rule enabled_run_reachable [OF demo_server_reachable])
  show "enabled_run (demo_env None) (take 2 demo_events) demo_server" by code_simp
qed

definition idle_facts :: "unit server \<Rightarrow> bool" where
  "idle_facts s \<longleftrightarrow>
     resolve_target (demo_session 0 ''2'' ''OBS'' []) (app_clients (srv_app s)) (Station (StationId ''LOWW_TWR'')) = [ClientId ''1''] \<and>
     snd (check_call_invite (env_governor (demo_env None)) 1 (ClientId ''2'') 1 (app_limiters (srv_app s))) = None \<and>
     hm_get (client_active_calls (app_calls (srv_app s))) (ClientId ''2'') = None \<and>
     hm_get (ringing_calls (app_calls (srv_app s))) (CallId 1) = None \<and>
     hm_get (active_calls (app_calls (srv_app s))) (CallId 1) = None"

lemma demo_idle_facts: "idle_facts demo_idle"
  by code_simp

theorem invitation_delivered_witness:
  "inc_get (client_incoming_calls (app_calls (handle_call_invite (demo_env None) 1 (demo_session 0 ''2'' ''OBS'' [])
      (demo_call (ClientId ''2'') [Station (StationId ''LOWW_TWR'')]) (srv_app demo_idle)))) (ClientId ''1'') (CallId 1) =
   Some (Station (StationId ''LOWW_TWR''))"
proof -
  let ?c = "demo_session 0 ''2'' ''OBS'' []" and ?t = "Station (StationId ''LOWW_TWR'')"
  have id: "sess_id ?c = ClientId ''2''" by code_simp
  note facts = demo_idle_facts [unfolded idle_facts_def]
  then have res: "resolve_target ?c (app_clients (srv_app demo_idle)) ?t = [ClientId ''1'']" by blast
  from facts have "snd (check_call_invite (env_governor (demo_env None)) 1 (sess_id ?c) 1 (app_limiters (srv_app demo_idle))) = None"
    "hm_get (client_active_calls (app_calls (srv_app demo_idle))) (sess_id ?c) = None"
    "hm_get (ringing_calls (app_calls (srv_app demo_idle))) (CallId 1) = None"
    "hm_get (active_calls (app_calls (srv_app demo_idle))) (CallId 1) = None"
    unfolding id by blast+
  then show ?thesis
    using invitation_delivered [OF demo_idle_reachable _ _ _ _ _ _ _ _ _ refl,
        where client = ?c and invite = "demo_call (ClientId ''2'') [?t]" and t = ?t and now = 1]
    by (simp add: res id demo_env_def)
qed

end
