(* ===== verification/Playback.thy ===== *)
theory Playback
  imports Prelude
begin

text \<open>
  The segmentation state machine of the playback recorder (\<^verbatim>\<open>vacs-client/src/playback/fsm.rs\<close>
  with the types of \<^verbatim>\<open>playback.rs\<close> and \<^verbatim>\<open>playback/source.rs\<close>): it turns the events of an audio
  source into requests to open, write and close clips. Audio samples are the type variable
  \<open>'f\<close>; instants and durations count nanoseconds, wall clock times nanoseconds since the Unix
  epoch. A frequency of the \<^verbatim>\<open>trackaudio\<close> crate is its number of hertz. The second half states the
  clip protocol the requests follow and shows that every run of the machine refines it.
\<close>

section \<open>Data\<close>

type_synonym u16 = "16 word"
type_synonym radio_frequency = u64
type_synonym system_time = int

datatype tap_id = FrequencyTap radio_frequency | Headset | Speaker | Merged

datatype recording_mode = Mixed | PerTap

record transmitter =
  tr_callsign :: string
  tr_frequency :: radio_frequency

record playback_config =
  pc_enabled :: bool
  pc_max_clips :: nat
  pc_hangover_ms :: u64
  pc_max_clip_duration_s :: u64

definition playback_config_default :: playback_config where
  "playback_config_default =
     \<lparr>pc_enabled = False, pc_max_clips = 15, pc_hangover_ms = 250, pc_max_clip_duration_s = 90\<rparr>"

datatype 'f playback_source_event =
    TapOpened tap_id u32 u16
  | TapClosed tap_id
  | Frame tap_id "'f list" instant
  | RxBegin tap_id string radio_frequency
  | RxEnd string radio_frequency "string list option"

record clip_opening =
  op_clip_id :: u64
  op_tap :: tap_id
  op_sample_rate :: u32
  op_channels :: u16
  op_callsigns :: "string hash_set"
  op_frequency :: "radio_frequency option"
  op_started_at :: system_time

record clip_closing =
  cl_clip_id :: u64
  cl_callsigns :: "string hash_set"
  cl_ended_at :: system_time
  cl_duration_ms :: nat

datatype 'f fsm_action = OpenClip clip_opening | WriteFrame u64 "'f list" | CloseClip clip_closing

record open_clip =
  oc_clip_id :: u64
  oc_started_at :: instant
  oc_started_at_wall :: system_time
  oc_last_audio_at :: instant
  oc_transmitters :: "transmitter hash_set"
  oc_callsigns :: "string hash_set"
  oc_frequency :: "radio_frequency option"

record tap_state =
  ts_sample_rate :: u32
  ts_channels :: u16
  ts_open :: "open_clip option"

record fsm =
  fsm_mode :: recording_mode
  fsm_hangover :: duration
  fsm_max_clip_duration :: duration
  fsm_taps :: "(tap_id, tap_state) hash_map"
  fsm_next_clip_id :: u64

definition fsm_new :: "playback_config \<Rightarrow> recording_mode \<Rightarrow> fsm" where
  "fsm_new config mode =
     \<lparr>fsm_mode = mode, fsm_hangover = from_millis (unat (pc_hangover_ms config)),
      fsm_max_clip_duration = from_secs (unat (pc_max_clip_duration_s config)), fsm_taps = [], fsm_next_clip_id = 1\<rparr>"

section \<open>Closing a clip\<close>

text \<open>
  A wall clock time is 64-bit signed seconds and the nanoseconds within the second; adding past
  the last one fails. A duration of more than 64 bits of milliseconds is cut to the largest value.
\<close>

definition system_time_max :: system_time where
  "system_time_max = 2 ^ 63 * 1000000000 - 1"

definition checked_add :: "system_time \<Rightarrow> duration \<Rightarrow> system_time option" where
  "checked_add t d = (if t + int d \<le> system_time_max then Some (t + int d) else None)"

definition as_millis_u64 :: "duration \<Rightarrow> nat" where
  "as_millis_u64 d = min (d div 1000000) (2 ^ 64 - 1)"

definition close_open_clip :: "instant \<Rightarrow> system_time \<Rightarrow> tap_state \<Rightarrow> tap_state \<times> 'f fsm_action option" where
  "close_open_clip now now_wall entry =
     (case ts_open entry of
        None \<Rightarrow> (entry, None)
      | Some open_clip \<Rightarrow>
          (let duration_ms = as_millis_u64 (now - oc_started_at open_clip);
               ended_at = (case checked_add (oc_started_at_wall open_clip) (from_millis duration_ms) of
                             Some t \<Rightarrow> t | None \<Rightarrow> now_wall)
           in (entry\<lparr>ts_open := None\<rparr>,
               Some (CloseClip \<lparr>cl_clip_id = oc_clip_id open_clip, cl_callsigns = oc_callsigns open_clip,
                                cl_ended_at = ended_at, cl_duration_ms = duration_ms\<rparr>))))"

section \<open>Events\<close>

definition map_tap :: "fsm \<Rightarrow> tap_id \<Rightarrow> tap_id" where
  "map_tap f tap = (case fsm_mode f of Mixed \<Rightarrow> Merged | PerTap \<Rightarrow> tap)"

definition set_tap :: "tap_id \<Rightarrow> tap_state \<Rightarrow> fsm \<Rightarrow> fsm" where
  "set_tap key entry f = f\<lparr>fsm_taps := hm_insert key entry (fsm_taps f)\<rparr>"

definition on_tap_opened ::
  "tap_id \<Rightarrow> u32 \<Rightarrow> u16 \<Rightarrow> instant \<Rightarrow> system_time \<Rightarrow> fsm \<Rightarrow> fsm \<times> 'f fsm_action list" where
  "on_tap_opened tap sample_rate channels now now_wall f =
     (let key = map_tap f tap;
          entry = (case hm_get (fsm_taps f) key of
                     Some entry \<Rightarrow> entry
                   | None \<Rightarrow> \<lparr>ts_sample_rate = sample_rate, ts_channels = channels, ts_open = None\<rparr>)
      in if ts_sample_rate entry \<noteq> sample_rate \<or> ts_channels entry \<noteq> channels
         then
           (let (entry, action) = close_open_clip now now_wall entry
            in (set_tap key (entry\<lparr>ts_sample_rate := sample_rate, ts_channels := channels\<rparr>) f,
                case action of Some action \<Rightarrow> [action] | None \<Rightarrow> []))
         else (set_tap key entry f, []))"

definition on_tap_closed ::
  "tap_id \<Rightarrow> instant \<Rightarrow> system_time \<Rightarrow> fsm \<Rightarrow> fsm \<times> 'f fsm_action list" where
  "on_tap_closed tap now now_wall f =
     (let key = map_tap f tap;
          actions = (case hm_get (fsm_taps f) key of
                       None \<Rightarrow> []
                     | Some entry \<Rightarrow>
                         (case snd (close_open_clip now now_wall entry) of Some action \<Rightarrow> [action] | None \<Rightarrow> []))
      in (f\<lparr>fsm_taps := hm_remove key (fsm_taps f)\<rparr>, actions))"

definition on_frame ::
  "tap_id \<Rightarrow> 'f list \<Rightarrow> instant \<Rightarrow> system_time \<Rightarrow> fsm \<Rightarrow> fsm \<times> 'f fsm_action list" where
  "on_frame tap samples captured_at now_wall f =
     (let key = map_tap f tap
      in case hm_get (fsm_taps f) key of
           None \<Rightarrow> (f, [])
         | Some entry \<Rightarrow>
             (case ts_open entry of
                None \<Rightarrow> (f, [])
              | Some clip \<Rightarrow>
                  (let clip = (if oc_transmitters clip \<noteq> [] then clip\<lparr>oc_last_audio_at := captured_at\<rparr> else clip);
                       write = WriteFrame (oc_clip_id clip) samples
                   in if fsm_max_clip_duration f \<le> captured_at - oc_started_at clip
                      then
                        (let prev_callsign = oc_callsigns clip; prev_frequency = oc_frequency clip;
                             prev_transmitters = oc_transmitters clip;
                             (entry, action) =
                               close_open_clip captured_at now_wall
                                 (entry\<lparr>ts_open := Some (clip\<lparr>oc_transmitters := []\<rparr>)\<rparr>);
                             clip_id = fsm_next_clip_id f;
                             entry = entry\<lparr>ts_open := Some
                               \<lparr>oc_clip_id = clip_id, oc_started_at = captured_at, oc_started_at_wall = now_wall,
                                oc_last_audio_at = captured_at, oc_transmitters = prev_transmitters,
                                oc_callsigns = prev_callsign, oc_frequency = prev_frequency\<rparr>\<rparr>
                         in ((set_tap key entry f)\<lparr>fsm_next_clip_id := clip_id + 1\<rparr>,
                             [write] @ (case action of Some action \<Rightarrow> [action] | None \<Rightarrow> []) @
                             [OpenClip
                               \<lparr>op_clip_id = clip_id, op_tap = key, op_sample_rate = ts_sample_rate entry,
                                op_channels = ts_channels entry, op_callsigns = prev_callsign,
                                op_frequency = prev_frequency, op_started_at = now_wall\<rparr>]))
                      else (set_tap key (entry\<lparr>ts_open := Some clip\<rparr>) f, [write]))))"

definition on_rx_begin ::
  "tap_id \<Rightarrow> string \<Rightarrow> radio_frequency \<Rightarrow> instant \<Rightarrow> system_time \<Rightarrow> fsm \<Rightarrow> fsm \<times> 'f fsm_action list" where
  "on_rx_begin tap callsign frequency now now_wall f =
     (let key = map_tap f tap; transmitter = \<lparr>tr_callsign = callsign, tr_frequency = frequency\<rparr>
      in case hm_get (fsm_taps f) key of
           None \<Rightarrow> (f, [])
         | Some entry \<Rightarrow>
             (case ts_open entry of
                Some clip \<Rightarrow>
                  (set_tap key (entry\<lparr>ts_open := Some (clip\<lparr>
                       oc_callsigns := hs_insert callsign (oc_callsigns clip),
                       oc_transmitters := hs_insert transmitter (oc_transmitters clip),
                       oc_last_audio_at := now\<rparr>)\<rparr>) f, [])
              | None \<Rightarrow>
                  (let clip_id = fsm_next_clip_id f
                   in ((set_tap key (entry\<lparr>ts_open := Some
                          \<lparr>oc_clip_id = clip_id, oc_started_at = now, oc_started_at_wall = now_wall,
                           oc_last_audio_at = now, oc_transmitters = [transmitter], oc_callsigns = [callsign],
                           oc_frequency = Some frequency\<rparr>\<rparr>) f)\<lparr>fsm_next_clip_id := clip_id + 1\<rparr>,
                       [OpenClip
                         \<lparr>op_clip_id = clip_id, op_tap = key, op_sample_rate = ts_sample_rate entry,
                          op_channels = ts_channels entry, op_callsigns = [callsign],
                          op_frequency = Some frequency, op_started_at = now_wall\<rparr>]))))"

definition end_transmission ::
  "string \<Rightarrow> radio_frequency \<Rightarrow> string hash_set option \<Rightarrow> open_clip \<Rightarrow> open_clip" where
  "end_transmission callsign frequency active clip =
     (let transmitters = hs_remove \<lparr>tr_callsign = callsign, tr_frequency = frequency\<rparr> (oc_transmitters clip)
      in clip\<lparr>oc_transmitters :=
           (case active of
              None \<Rightarrow> transmitters
            | Some active \<Rightarrow>
                filter (\<lambda>t. tr_frequency t \<noteq> frequency \<or> tr_callsign t \<in> set active) transmitters)\<rparr>)"

definition on_rx_end ::
  "string \<Rightarrow> radio_frequency \<Rightarrow> string list option \<Rightarrow> fsm \<Rightarrow> fsm \<times> 'f fsm_action list" where
  "on_rx_end callsign frequency active_transmitters f =
     (let active = map_option hs_collect active_transmitters
      in (f\<lparr>fsm_taps := map (\<lambda>(key, entry).
             (key, entry\<lparr>ts_open := map_option (end_transmission callsign frequency active) (ts_open entry)\<rparr>))
             (fsm_taps f)\<rparr>, []))"

definition on_event ::
  "'f playback_source_event \<Rightarrow> instant \<Rightarrow> system_time \<Rightarrow> fsm \<Rightarrow> fsm \<times> 'f fsm_action list" where
  "on_event event now now_wall f =
     (case event of
        TapOpened tap sample_rate channels \<Rightarrow> on_tap_opened tap sample_rate channels now now_wall f
      | TapClosed tap \<Rightarrow> on_tap_closed tap now now_wall f
      | Frame tap samples captured_at \<Rightarrow> on_frame tap samples captured_at now_wall f
      | RxBegin tap callsign frequency \<Rightarrow> on_rx_begin tap callsign frequency now now_wall f
      | RxEnd callsign frequency active_transmitters \<Rightarrow> on_rx_end callsign frequency active_transmitters f)"

section \<open>The periodic tick\<close>

definition should_close :: "duration \<Rightarrow> instant \<Rightarrow> tap_state \<Rightarrow> bool" where
  "should_close hangover now entry =
     (case ts_open entry of
        None \<Rightarrow> False
      | Some clip \<Rightarrow> oc_transmitters clip = [] \<and> oc_last_audio_at clip + hangover \<le> now)"

fun tick_taps ::
  "duration \<Rightarrow> instant \<Rightarrow> system_time \<Rightarrow> (tap_id, tap_state) hash_map \<Rightarrow> (tap_id, tap_state) hash_map \<times> 'f fsm_action list" where
  "tick_taps hangover now now_wall [] = ([], [])"
| "tick_taps hangover now now_wall ((key, entry) # taps) =
     (let (entry, action) =
            (if should_close hangover now entry then close_open_clip now now_wall entry else (entry, None));
          (taps, actions) = tick_taps hangover now now_wall taps
      in ((key, entry) # taps, (case action of Some action \<Rightarrow> [action] | None \<Rightarrow> []) @ actions))"

definition tick :: "instant \<Rightarrow> system_time \<Rightarrow> fsm \<Rightarrow> fsm \<times> 'f fsm_action list" where
  "tick now now_wall f =
     (let (taps, actions) = tick_taps (fsm_hangover f) now now_wall (fsm_taps f)
      in (f\<lparr>fsm_taps := taps\<rparr>, actions))"

text \<open>The inputs of the recorder loop, and the requests a sequence of them gives.\<close>

datatype 'f fsm_input = SourceEvent "'f playback_source_event" instant system_time | TickerTick instant system_time

fun fsm_exec :: "'f fsm_input \<Rightarrow> fsm \<Rightarrow> fsm \<times> 'f fsm_action list" where
  "fsm_exec (SourceEvent event now now_wall) f = on_event event now now_wall f"
| "fsm_exec (TickerTick now now_wall) f = tick now now_wall f"

fun fsm_run :: "'f fsm_input list \<Rightarrow> fsm \<Rightarrow> fsm \<times> 'f fsm_action list" where
  "fsm_run [] f = (f, [])"
| "fsm_run (x # xs) f =
     (let (f, actions) = fsm_exec x f; (f, rest) = fsm_run xs f in (f, actions @ rest))"

section \<open>The clip protocol\<close>

text \<open>
  The abstract view of the machine: the clips that are open and the next number. A clip is opened
  under the next number, and written or closed only while it is open.
\<close>

fun clip_step :: "'f fsm_action \<Rightarrow> u64 set \<times> u64 \<Rightarrow> (u64 set \<times> u64) option" where
  "clip_step (OpenClip op) (opened, next) =
     (if op_clip_id op = next \<and> next \<notin> opened then Some (insert next opened, next + 1) else None)"
| "clip_step (WriteFrame clip_id samples) (opened, next) = (if clip_id \<in> opened then Some (opened, next) else None)"
| "clip_step (CloseClip cl) (opened, next) =
     (if cl_clip_id cl \<in> opened then Some (opened - {cl_clip_id cl}, next) else None)"

fun clip_play :: "'f fsm_action list \<Rightarrow> u64 set \<times> u64 \<Rightarrow> (u64 set \<times> u64) option" where
  "clip_play [] s = Some s"
| "clip_play (a # as) s = Option.bind (clip_step a s) (clip_play as)"

definition open_id :: "fsm \<Rightarrow> tap_id \<Rightarrow> u64 option" where
  "open_id f key = Option.bind (hm_get (fsm_taps f) key) (\<lambda>entry. map_option oc_clip_id (ts_open entry))"

definition clip_view :: "fsm \<Rightarrow> u64 set \<times> u64" where
  "clip_view f = (ran (open_id f), fsm_next_clip_id f)"

definition fsm_inv :: "fsm \<Rightarrow> bool" where
  "fsm_inv f \<longleftrightarrow> hm_ok (fsm_taps f) \<and> inj_on (open_id f) (dom (open_id f)) \<and>
     (\<forall>i \<in> ran (open_id f). i < fsm_next_clip_id f)"

text \<open>What an input may do: keep the invariant, follow the protocol, and use at most one number.\<close>

definition follows :: "fsm \<Rightarrow> fsm \<times> 'f fsm_action list \<Rightarrow> bool" where
  "follows f = (\<lambda>(f', actions). fsm_inv f' \<and> clip_play actions (clip_view f) = Some (clip_view f') \<and>
     unat (fsm_next_clip_id f') \<le> unat (fsm_next_clip_id f) + 1)"

lemma clip_play_append [simp]: "clip_play (xs @ ys) s = Option.bind (clip_play xs s) (clip_play ys)"
proof (induction xs arbitrary: s)
  case (Cons x xs)
  then show ?case by (cases "clip_step x s") simp_all
qed simp

lemma open_id_set_tap [simp]: "open_id (set_tap key entry f) = (open_id f)(key := map_option oc_clip_id (ts_open entry))"
  by (auto simp: open_id_def set_tap_def)

lemma open_id_next [simp]: "open_id (f\<lparr>fsm_next_clip_id := n\<rparr>) = open_id f"
  by (simp add: open_id_def fun_eq_iff)

lemma set_tap_fields [simp]:
  "fsm_next_clip_id (set_tap key entry f) = fsm_next_clip_id f"
  "fsm_taps (set_tap key entry f) = hm_insert key entry (fsm_taps f)"
  by (simp_all add: set_tap_def)

lemma ran_inj_upd:
  assumes "inj_on m (dom m)"
  shows "ran (m(k := v)) = (ran m - set_option (m k)) \<union> set_option v"
  using assms by (cases v) (auto simp: ran_def inj_on_def dom_def split: if_splits)

lemma inj_on_upd:
  assumes "inj_on m (dom m)" and "\<And>i. v = Some i \<Longrightarrow> i \<in> ran m \<Longrightarrow> m k = Some i"
  shows "inj_on (m(k := v)) (dom (m(k := v)))"
  using assms unfolding inj_on_def dom_def ran_def by (simp split: if_split) metis

lemma fsm_inv_upd:
  assumes "fsm_inv f" and "hm_ok (fsm_taps f')" and "open_id f' = (open_id f)(key := v)"
    and "fsm_next_clip_id f \<le> fsm_next_clip_id f'"
    and "\<And>i. v = Some i \<Longrightarrow> i < fsm_next_clip_id f' \<and> (i \<in> ran (open_id f) \<longrightarrow> open_id f key = Some i)"
  shows "fsm_inv f'"
  using assms inj_on_upd [of "open_id f" v key] ran_inj_upd [of "open_id f" key v]
  by (force simp: fsm_inv_def)

lemma close_open_clip_cases:
  obtains "ts_open entry = None" "close_open_clip now now_wall entry = (entry, None)"
  | clip cl where "ts_open entry = Some clip"
      "close_open_clip now now_wall entry = (entry\<lparr>ts_open := None\<rparr>, Some (CloseClip cl))"
      "cl_clip_id cl = oc_clip_id clip"
proof (cases "ts_open entry")
  case None
  then show thesis by (intro that(1)) (simp_all add: close_open_clip_def)
next
  case (Some clip)
  show thesis by (rule that(2) [OF Some], simp add: close_open_clip_def Some Let_def, simp)
qed

lemma word_less_suc:
  fixes n :: u64
  assumes "unat n < 2 ^ 64 - 1"
  shows "n < n + 1" "unat (n + 1) = unat n + 1"
proof -
  show "unat (n + 1) = unat n + 1" using assms by (simp add: unat_word_ariths)
  then show "n < n + 1" by (simp add: word_less_nat_alt)
qed

text \<open>Updating the entry of a tap without opening a clip under a new number.\<close>

lemma follows_update:
  assumes "fsm_inv f" and "map_option oc_clip_id (ts_open entry) = open_id f key"
    and "\<And>a. a \<in> set actions \<Longrightarrow> \<exists>clip_id samples. a = WriteFrame clip_id samples \<and> clip_id \<in> ran (open_id f)"
  shows "follows f (set_tap key entry f, actions)"
proof -
  have "open_id (set_tap key entry f) = open_id f" using assms(2) by (simp add: fun_eq_iff)
  moreover from this assms(1) have "fsm_inv (set_tap key entry f)" by (simp add: fsm_inv_def)
  moreover have "clip_play actions (clip_view f) = Some (clip_view f)"
    using assms(3) by (induction actions) (force simp: clip_view_def)+
  ultimately show ?thesis by (simp add: follows_def clip_view_def)
qed

text \<open>Closing the clip of a tap, or doing nothing where it has none.\<close>

lemma follows_close:
  fixes action :: "'f fsm_action option"
  assumes inv: "fsm_inv f" and "hm_get (fsm_taps f) key = Some entry"
    and "close_open_clip now now_wall entry = (entry', action)"
    and "hm_ok (fsm_taps f')" and "open_id f' = (open_id f)(key := None)" and "fsm_next_clip_id f' = fsm_next_clip_id f"
  shows "follows f (f', case action of Some action \<Rightarrow> [action] | None \<Rightarrow> [])"
proof -
  have inv': "fsm_inv f'" using assms by (intro fsm_inv_upd [OF inv]) auto
  have ran: "ran (open_id f') = ran (open_id f) - set_option (open_id f key)"
    using inv ran_inj_upd [of "open_id f" key None] assms(5) by (simp add: fsm_inv_def)
  show ?thesis
  proof (rule close_open_clip_cases [of entry now now_wall])
    assume "ts_open entry = None" "close_open_clip now now_wall entry = (entry, None :: 'f fsm_action option)"
    with assms ran inv' show ?thesis by (simp add: follows_def clip_view_def open_id_def)
  next
    fix clip cl
    assume "ts_open entry = Some clip" "cl_clip_id cl = oc_clip_id clip"
      "close_open_clip now now_wall entry = (entry\<lparr>ts_open := None\<rparr>, Some (CloseClip cl :: 'f fsm_action))"
    moreover from this assms(2) have "open_id f key = Some (oc_clip_id clip)" by (simp add: open_id_def)
    moreover from this have "oc_clip_id clip \<in> ran (open_id f)" by (rule ranI)
    ultimately show ?thesis using assms ran inv' by (simp add: follows_def clip_view_def)
  qed
qed

text \<open>Opening a clip under the next number, on a tap that has none.\<close>

lemma follows_open:
  assumes inv: "fsm_inv f" and n: "unat (fsm_next_clip_id f) < 2 ^ 64 - 1" and "open_id f key = None"
    and "map_option oc_clip_id (ts_open entry) = Some (fsm_next_clip_id f)" and "op_clip_id op = fsm_next_clip_id f"
  shows "follows f ((set_tap key entry f)\<lparr>fsm_next_clip_id := fsm_next_clip_id f + 1\<rparr>, [OpenClip op])"
proof -
  let ?f = "(set_tap key entry f)\<lparr>fsm_next_clip_id := fsm_next_clip_id f + 1\<rparr>"
  have fresh: "fsm_next_clip_id f \<notin> ran (open_id f)" using inv by (auto simp: fsm_inv_def)
  have "fsm_inv ?f"
    using inv assms(4) word_less_suc [OF n] fresh by (intro fsm_inv_upd [OF inv]) (auto simp: fsm_inv_def)
  moreover have "ran (open_id ?f) = insert (fsm_next_clip_id f) (ran (open_id f))"
    using inv ran_inj_upd [of "open_id f" key "Some (fsm_next_clip_id f)"] assms(3)
    unfolding open_id_next open_id_set_tap assms(4) by (simp add: fsm_inv_def)
  ultimately show ?thesis using fresh assms(5) word_less_suc [OF n] by (simp add: follows_def clip_view_def)
qed

lemma follows_refl: "fsm_inv f \<Longrightarrow> follows f (f, [])"
  by (simp add: follows_def)

lemma follows_trans:
  assumes "follows f (f1, xs)" "fsm_next_clip_id f1 = fsm_next_clip_id f" "follows f1 (f2, ys)"
  shows "follows f (f2, xs @ ys)"
  using assms by (simp add: follows_def)

lemma hm_insert_overwrite [simp]: "hm_insert k v (hm_insert k v' m) = hm_insert k v m"
  by (induction m) auto

lemma set_tap_overwrite [simp]: "set_tap key entry (set_tap key entry' f) = set_tap key entry f"
  by (simp add: set_tap_def)

lemma follows_tap_opened:
  assumes "fsm_inv f"
  shows "follows f (on_tap_opened tap sample_rate channels now now_wall f :: fsm \<times> 'f fsm_action list)"
proof (cases "hm_get (fsm_taps f) (map_tap f tap)")
  case None
  with assms show ?thesis
    by (auto simp: on_tap_opened_def open_id_def intro!: follows_update)
next
  case (Some entry)
  obtain entry' action where c: "close_open_clip now now_wall entry = (entry', action :: 'f fsm_action option)"
    by (meson surj_pair)
  have "ts_open entry' = None"
    using c by (auto simp: close_open_clip_def Let_def split: option.splits)
  with assms Some c show ?thesis
    by (auto simp: on_tap_opened_def open_id_def fsm_inv_def Let_def
        intro!: follows_update follows_close [OF assms Some c] split del: option.splits)
qed

lemma follows_tap_closed:
  assumes "fsm_inv f"
  shows "follows f (on_tap_closed tap now now_wall f :: fsm \<times> 'f fsm_action list)"
proof (cases "hm_get (fsm_taps f) (map_tap f tap)")
  case None
  then have "f\<lparr>fsm_taps := hm_remove (map_tap f tap) (fsm_taps f)\<rparr> = f" by (simp add: hm_remove_absent)
  with assms None show ?thesis by (simp add: on_tap_closed_def follows_refl)
next
  case (Some entry)
  obtain entry' action where c: "close_open_clip now now_wall entry = (entry', action :: 'f fsm_action option)"
    by (meson surj_pair)
  have "open_id (f\<lparr>fsm_taps := hm_remove (map_tap f tap) (fsm_taps f)\<rparr>) = (open_id f)(map_tap f tap := None)"
    by (auto simp: open_id_def)
  with assms Some c show ?thesis
    by (simp add: on_tap_closed_def fsm_inv_def follows_close [OF assms Some c])
qed

lemma follows_frame:
  assumes inv: "fsm_inv f" and n: "unat (fsm_next_clip_id f) < 2 ^ 64 - 1"
  shows "follows f (on_frame tap samples captured_at now_wall f :: fsm \<times> 'f fsm_action list)"
proof (cases "Option.bind (hm_get (fsm_taps f) (map_tap f tap)) ts_open")
  case None
  with inv show ?thesis
    by (cases "hm_get (fsm_taps f) (map_tap f tap)") (simp_all add: on_frame_def follows_refl)
next
  case (Some clip)
  let ?key = "map_tap f tap"
  obtain entry where e: "hm_get (fsm_taps f) ?key = Some entry" "ts_open entry = Some clip"
    using Some by (auto simp: bind_eq_Some_conv)
  define clip' where "clip' = (if oc_transmitters clip \<noteq> [] then clip\<lparr>oc_last_audio_at := captured_at\<rparr> else clip)"
  have id: "oc_clip_id clip' = oc_clip_id clip" "open_id f ?key = Some (oc_clip_id clip)"
    using e by (simp_all add: clip'_def open_id_def)
  then have mem: "oc_clip_id clip \<in> ran (open_id f)" by (auto intro: ranI)
  show ?thesis
  proof (cases "fsm_max_clip_duration f \<le> captured_at - oc_started_at clip'")
    case False
    with e id mem inv show ?thesis
      by (auto simp: on_frame_def clip'_def [symmetric] Let_def intro!: follows_update)
  next
    case True
    define entry1 where "entry1 = entry\<lparr>ts_open := Some (clip'\<lparr>oc_transmitters := []\<rparr>)\<rparr>"
    define f1 where "f1 = set_tap ?key entry1 f"
    define f2 where "f2 = set_tap ?key (entry1\<lparr>ts_open := None\<rparr>) f"
    obtain cl where c: "close_open_clip captured_at now_wall entry1 = (entry1\<lparr>ts_open := None\<rparr>, Some (CloseClip cl :: 'f fsm_action))"
      by (rule close_open_clip_cases [of entry1 captured_at now_wall]) (simp_all add: entry1_def)
    have w: "follows f (f1, [WriteFrame (oc_clip_id clip) samples])"
      unfolding f1_def using id mem by (intro follows_update [OF inv]) (auto simp: entry1_def)
    have f1: "fsm_inv f1" "open_id f1 = open_id f" using w id by (auto simp: follows_def f1_def entry1_def fun_eq_iff)
    have "follows f1 (f2, case Some (CloseClip cl :: 'f fsm_action) of Some action \<Rightarrow> [action] | None \<Rightarrow> [])"
      using f1 inv by (intro follows_close [OF _ _ c, of _ ?key]) (auto simp: f1_def f2_def fsm_inv_def)
    then have wc: "follows f (f2, [WriteFrame (oc_clip_id clip) samples, CloseClip cl])"
      using follows_trans [OF w] by (simp add: f1_def)
    have f2: "fsm_inv f2" "open_id f2 ?key = None" "fsm_next_clip_id f2 = fsm_next_clip_id f"
      using wc by (simp_all add: follows_def f2_def)
    have eq: "set_tap ?key entry2 f2 = set_tap ?key entry2 f" for entry2 by (simp add: f2_def)
    have "follows f2 ((set_tap ?key entry2 f2)\<lparr>fsm_next_clip_id := fsm_next_clip_id f2 + 1\<rparr>, [OpenClip op :: 'f fsm_action])"
      if "map_option oc_clip_id (ts_open entry2) = Some (fsm_next_clip_id f)" "op_clip_id op = fsm_next_clip_id f" for entry2 op
      using that f2 n by (intro follows_open) simp_all
    from follows_trans [OF wc f2(3) this]
    have "follows f ((set_tap ?key entry2 f)\<lparr>fsm_next_clip_id := fsm_next_clip_id f + 1\<rparr>,
        [WriteFrame (oc_clip_id clip) samples, CloseClip cl, OpenClip op])"
      if "map_option oc_clip_id (ts_open entry2) = Some (fsm_next_clip_id f)" "op_clip_id op = fsm_next_clip_id f" for entry2 op
      using that by (simp add: eq f2(3))
    with True e id c show ?thesis
      by (simp add: on_frame_def clip'_def [symmetric] entry1_def [symmetric] Let_def)
  qed
qed

lemma follows_rx_begin:
  assumes inv: "fsm_inv f" and n: "unat (fsm_next_clip_id f) < 2 ^ 64 - 1"
  shows "follows f (on_rx_begin tap callsign frequency now now_wall f)"
proof (cases "hm_get (fsm_taps f) (map_tap f tap)")
  case None
  with inv show ?thesis by (simp add: on_rx_begin_def follows_refl)
next
  case (Some entry)
  show ?thesis
  proof (cases "ts_open entry")
    case None
    with Some have "open_id f (map_tap f tap) = None" by (simp add: open_id_def)
    with Some None show ?thesis by (auto simp: on_rx_begin_def Let_def intro!: follows_open [OF inv n])
  next
    case (Some clip)
    with \<open>hm_get (fsm_taps f) (map_tap f tap) = _\<close> inv show ?thesis
      by (auto simp: on_rx_begin_def Let_def open_id_def intro!: follows_update)
  qed
qed

lemma follows_rx_end:
  assumes "fsm_inv f"
  shows "follows f (on_rx_end callsign frequency active f)"
proof -
  define g where "g = (\<lambda>entry :: tap_state. entry\<lparr>ts_open := map_option (end_transmission callsign frequency (map_option hs_collect active)) (ts_open entry)\<rparr>)"
  define f' where "f' = f\<lparr>fsm_taps := map (\<lambda>(key, entry). (key, g entry)) (fsm_taps f)\<rparr>"
  have "map_option oc_clip_id (ts_open (g entry)) = map_option oc_clip_id (ts_open entry)" for entry
    by (cases "ts_open entry") (simp_all add: g_def end_transmission_def Let_def)
  then have "open_id f' key = open_id f key" for key
    by (cases "hm_get (fsm_taps f) key") (simp_all add: f'_def open_id_def map_of_map)
  then have "open_id f' = open_id f" by (rule ext)
  moreover have "hm_ok (fsm_taps f')"
    using assms by (simp add: f'_def fsm_inv_def hm_ok_def comp_def case_prod_unfold)
  ultimately have "follows f (f', [])" using assms by (simp add: follows_def fsm_inv_def clip_view_def f'_def)
  then show ?thesis by (simp add: on_rx_end_def f'_def g_def Let_def)
qed

lemma follows_tick_taps:
  fixes actions :: "'f fsm_action list"
  assumes "fsm_inv f" "fsm_taps f = pre @ taps" "tick_taps hangover now now_wall taps = (taps', actions)"
  shows "follows f (f\<lparr>fsm_taps := pre @ taps'\<rparr>, actions)"
  using assms
proof (induction taps arbitrary: f pre taps' actions)
  case Nil
  then show ?case using follows_refl [of f] by auto
next
  case (Cons p taps)
  obtain key entry where p: "p = (key, entry)" by (cases p)
  define step where "step = (if should_close hangover now entry then close_open_clip now now_wall entry else (entry, None :: 'f fsm_action option))"
  obtain entry' action where st: "step = (entry', action)" by (cases step)
  obtain taps1 actions1 where r: "tick_taps hangover now now_wall taps = (taps1, actions1 :: 'f fsm_action list)"
    by (meson surj_pair)
  have out: "taps' = (key, entry') # taps1" "actions = (case action of Some action \<Rightarrow> [action] | None \<Rightarrow> []) @ actions1"
    using Cons.prems(3) st r by (simp_all add: p step_def [symmetric])
  let ?f = "set_tap key entry' f"
  have ok: "hm_ok (fsm_taps f)" using Cons.prems(1) by (simp add: fsm_inv_def)
  then have key: "hm_get (fsm_taps f) key = Some entry" "key \<notin> set (hm_keys pre)"
    using Cons.prems(2) hm_get_iff [OF ok, of key entry] by (auto simp: p hm_ok_def hm_keys_def)
  have taps: "fsm_taps ?f = (pre @ [(key, entry')]) @ taps"
    using key(2) Cons.prems(2) by (simp add: p hm_insert_split)
  have "follows f (?f, case action of Some action \<Rightarrow> [action] | None \<Rightarrow> [])"
  proof (cases "should_close hangover now entry")
    case True
    with st have c: "close_open_clip now now_wall entry = (entry', action)" by (simp add: step_def)
    then have "ts_open entry' = None" by (auto simp: close_open_clip_def Let_def split: option.splits)
    with ok show ?thesis by (intro follows_close [OF Cons.prems(1) key(1) c]) simp_all
  next
    case False
    with st key(1) show ?thesis by (auto simp: step_def open_id_def intro!: follows_update [OF Cons.prems(1)])
  qed
  moreover from this have "fsm_inv ?f" by (simp add: follows_def)
  ultimately have "follows f (?f\<lparr>fsm_taps := (pre @ [(key, entry')]) @ taps1\<rparr>, actions)"
    unfolding out(2) using Cons.IH [OF _ taps r] by (intro follows_trans [of f ?f]) simp_all
  then show ?case by (simp add: out(1) set_tap_def)
qed

lemma follows_exec:
  fixes x :: "'f fsm_input"
  assumes "fsm_inv f" "unat (fsm_next_clip_id f) < 2 ^ 64 - 1"
  shows "follows f (fsm_exec x f)"
proof (cases x)
  case (SourceEvent event now now_wall)
  with assms show ?thesis
    by (cases event) (simp_all add: on_event_def follows_tap_opened follows_tap_closed follows_frame follows_rx_begin follows_rx_end)
next
  case (TickerTick now now_wall)
  obtain taps actions where t: "tick_taps (fsm_hangover f) now now_wall (fsm_taps f) = (taps, actions :: 'f fsm_action list)"
    by (meson surj_pair)
  with follows_tick_taps [OF assms(1) _ t, of "[]"] TickerTick show ?thesis by (simp add: tick_def)
qed

lemma follows_run:
  assumes "fsm_inv f" "unat (fsm_next_clip_id f) + length xs \<le> 2 ^ 64 - 1" "fsm_run xs f = (f', actions)"
  shows "fsm_inv f' \<and> clip_play actions (clip_view f) = Some (clip_view f') \<and>
    unat (fsm_next_clip_id f') \<le> unat (fsm_next_clip_id f) + length xs"
  using assms
proof (induction xs arbitrary: f actions)
  case (Cons x xs)
  obtain f1 actions1 where x: "fsm_exec x f = (f1, actions1)" by (meson surj_pair)
  obtain f2 actions2 where r: "fsm_run xs f1 = (f2, actions2)" by (meson surj_pair)
  have "follows f (f1, actions1)" using follows_exec [of f x] Cons.prems(1,2) x by simp
  with Cons.IH [of f1 actions2] Cons.prems(2,3) x r show ?case by (auto simp: follows_def)
qed simp

lemma fsm_inv_new: "fsm_inv (fsm_new config mode)"
  by (simp add: fsm_inv_def fsm_new_def open_id_def dom_def ran_def)

lemma clip_view_new: "clip_view (fsm_new config mode) = ({}, 1)"
  by (simp add: clip_view_def fsm_new_def open_id_def ran_def)

lemma follows_run_new:
  assumes "length xs < 2 ^ 64 - 1" and "fsm_run xs (fsm_new config mode) = (f, actions)"
  shows "fsm_inv f" "clip_play actions ({}, 1) = Some (clip_view f)" "unat (fsm_next_clip_id f) \<le> 1 + length xs"
proof -
  have "unat (fsm_next_clip_id (fsm_new config mode)) + length xs \<le> 2 ^ 64 - 1"
    using assms(1) by (simp add: fsm_new_def)
  from follows_run [OF fsm_inv_new this assms(2)]
  show "fsm_inv f" "clip_play actions ({}, 1) = Some (clip_view f)" "unat (fsm_next_clip_id f) \<le> 1 + length xs"
    by (simp_all add: clip_view_new) (simp add: fsm_new_def)
qed

text \<open>
  C16: Every run of the segmentation machine follows the clip protocol: a clip is opened under the next
  number, which no open clip has, frames are written only to a clip that is open, a clip is closed
  only while it is open, and the clips the requests leave open are those of the machine. The bound
  on the length keeps the 64-bit clip counter from wrapping around.
\<close>

theorem clip_protocol:
  assumes "length xs < 2 ^ 64 - 1" and "fsm_run xs (fsm_new config mode) = (f, actions)"
  shows "clip_play actions ({}, 1) = Some (ran (open_id f), fsm_next_clip_id f) \<and>
    inj_on (open_id f) (dom (open_id f))"
  using follows_run_new [OF assms] by (simp add: clip_view_def fsm_inv_def)

definition demo_playback :: "nat fsm_input list" where
  "demo_playback =
     [SourceEvent (TapOpened Headset 48000 1) 0 0,
      SourceEvent (RxBegin Headset ''DLH123'' 121500000) 0 0,
      SourceEvent (Frame Headset [1, 2] 20000000) 20000000 20000000,
      SourceEvent (RxEnd ''DLH123'' 121500000 None) 100000000 100000000,
      TickerTick 400000000 400000000]"

theorem clip_protocol_witness:
  "\<exists>f actions. fsm_run demo_playback (fsm_new playback_config_default PerTap) = (f, actions) \<and>
     length actions = 3 \<and> clip_play actions ({}, 1) = Some (ran (open_id f), fsm_next_clip_id f) \<and>
     inj_on (open_id f) (dom (open_id f))"
proof -
  obtain f actions where r: "fsm_run demo_playback (fsm_new playback_config_default PerTap) = (f, actions)"
    by (meson surj_pair)
  moreover have "length (snd (fsm_run demo_playback (fsm_new playback_config_default PerTap))) = 3"
    by code_simp
  ultimately show ?thesis using clip_protocol [OF _ r] by (auto simp: demo_playback_def)
qed

section \<open>The hangover\<close>

text \<open>
  Inputs during which the clip of a tap hears nothing new: ends of transmissions, ticks, and frames
  captured before the clip reaches its longest duration.
\<close>

fun silent :: "instant \<Rightarrow> duration \<Rightarrow> 'f fsm_input \<Rightarrow> bool" where
  "silent started_at max_duration (SourceEvent event now now_wall) =
     (case event of
        Frame tap samples captured_at \<Rightarrow> captured_at - started_at < max_duration
      | RxEnd _ _ _ \<Rightarrow> True
      | _ \<Rightarrow> False)"
| "silent started_at max_duration (TickerTick now now_wall) = True"

text \<open>The clip of a tap is still open and waits for its hangover, or it has been closed.\<close>

definition waiting :: "tap_id \<Rightarrow> open_clip \<Rightarrow> fsm \<Rightarrow> bool" where
  "waiting key clip f \<longleftrightarrow> (\<exists>entry. hm_get (fsm_taps f) key = Some entry \<and> ts_open entry = Some clip)"

definition closed_in :: "open_clip \<Rightarrow> 'f fsm_action list \<Rightarrow> bool" where
  "closed_in clip actions \<longleftrightarrow> (\<exists>cl. CloseClip cl \<in> set actions \<and> cl_clip_id cl = oc_clip_id clip)"

lemma close_open_clip_closes:
  "ts_open entry = Some clip \<Longrightarrow> \<exists>cl. close_open_clip now now_wall entry = (entry\<lparr>ts_open := None\<rparr>, Some (CloseClip cl)) \<and> cl_clip_id cl = oc_clip_id clip"
  by (auto simp: close_open_clip_def Let_def)

lemma tick_taps_clip:
  fixes actions :: "'f fsm_action list"
  shows "hm_ok taps \<Longrightarrow> hm_get taps key = Some entry \<Longrightarrow> ts_open entry = Some clip \<Longrightarrow>
   tick_taps hangover now now_wall taps = (taps', actions) \<Longrightarrow>
     if should_close hangover now entry
     then closed_in clip actions \<and> (\<exists>entry'. hm_get taps' key = Some entry' \<and> ts_open entry' = None)
     else hm_get taps' key = Some entry"
proof (induction taps arbitrary: taps' actions)
  case (Cons p taps)
  obtain key1 entry1 where p: "p = (key1, entry1)" by (cases p)
  obtain taps1 actions1 where r: "tick_taps hangover now now_wall taps = (taps1, actions1 :: 'f fsm_action list)"
    by (meson surj_pair)
  obtain cl where cl: "close_open_clip now now_wall entry = (entry\<lparr>ts_open := None\<rparr>, Some (CloseClip cl :: 'f fsm_action))"
      "cl_clip_id cl = oc_clip_id clip"
    using close_open_clip_closes [OF Cons.prems(3), of now now_wall] by blast
  show ?case
  proof (cases "key1 = key")
    case True
    with Cons.prems p have "entry1 = entry" by simp
    with Cons.prems(4) True p r cl show ?thesis by (auto simp: closed_in_def split: if_splits)
  next
    case False
    with Cons.IH [OF _ _ Cons.prems(3) r] Cons.prems p r show ?thesis
      by (auto simp: closed_in_def split: prod.splits if_splits option.splits)
  qed
qed simp

text \<open>A silent input leaves a clip without transmitters as it is, or closes it.\<close>

lemma silent_exec:
  fixes actions :: "'f fsm_action list"
  assumes inv: "fsm_inv f" and w: "waiting key clip f" and quiet: "oc_transmitters clip = []"
    and s: "silent (oc_started_at clip) (fsm_max_clip_duration f) x" and x: "fsm_exec x f = (f', actions)"
  shows "closed_in clip actions \<or> waiting key clip f'"
proof -
  obtain entry where e: "hm_get (fsm_taps f) key = Some entry" "ts_open entry = Some clip"
    using w by (auto simp: waiting_def)
  consider (frame) tap samples captured_at now now_wall where "x = SourceEvent (Frame tap samples captured_at) now now_wall"
      "captured_at - oc_started_at clip < fsm_max_clip_duration f"
    | (rx_end) callsign frequency active now now_wall where "x = SourceEvent (RxEnd callsign frequency active) now now_wall"
    | (tick) now now_wall where "x = TickerTick now now_wall"
    using s by (cases x) (auto split: playback_source_event.splits)
  then show ?thesis
  proof cases
    case frame
    with x e quiet show ?thesis
      by (cases "map_tap f tap = key")
        (auto simp: on_event_def on_frame_def Let_def waiting_def set_tap_def split: option.splits if_splits prod.splits)
  next
    case rx_end
    with x e quiet show ?thesis
      by (auto simp: on_event_def on_rx_end_def waiting_def map_of_map end_transmission_def hs_remove_def split: option.splits)
  next
    case tick
    obtain taps where t: "tick_taps (fsm_hangover f) now now_wall (fsm_taps f) = (taps, actions)" "f' = f\<lparr>fsm_taps := taps\<rparr>"
      using x tick by (auto simp: tick_def split: prod.splits)
    with tick_taps_clip [OF _ e t(1)] inv e show ?thesis
      by (auto simp: waiting_def fsm_inv_def split: if_splits)
  qed
qed

lemma exec_config:
  "fsm_exec x f = (f', actions) \<Longrightarrow> fsm_hangover f' = fsm_hangover f \<and> fsm_max_clip_duration f' = fsm_max_clip_duration f"
  by (cases x; (cases "case x of SourceEvent event _ _ \<Rightarrow> event | _ \<Rightarrow> undefined")?)
    (auto simp: on_event_def on_tap_opened_def on_tap_closed_def on_frame_def on_rx_begin_def on_rx_end_def tick_def
       set_tap_def Let_def split: option.splits if_splits prod.splits)

lemma run_config:
  "fsm_run xs f = (f', actions) \<Longrightarrow> fsm_hangover f' = fsm_hangover f \<and> fsm_max_clip_duration f' = fsm_max_clip_duration f"
  by (induction xs arbitrary: f actions) (auto dest: exec_config split: prod.splits)

lemma fsm_run_append:
  "fsm_run (xs @ ys) f = (let (f1, as) = fsm_run xs f; (f2, bs) = fsm_run ys f1 in (f2, as @ bs))"
  by (induction xs arbitrary: f) (auto split: prod.splits)

lemma closed_in_append [simp]: "closed_in clip (xs @ ys) \<longleftrightarrow> closed_in clip xs \<or> closed_in clip ys"
  by (auto simp: closed_in_def)

lemma silent_run:
  assumes "fsm_inv f" "unat (fsm_next_clip_id f) + length xs \<le> 2 ^ 64 - 1"
    and "waiting key clip f" and quiet: "oc_transmitters clip = []"
    and "list_all (silent (oc_started_at clip) (fsm_max_clip_duration f)) xs" and "fsm_run xs f = (f', actions)"
  shows "closed_in clip actions \<or> waiting key clip f'"
  using assms(1-3,5,6)
proof (induction xs arbitrary: f actions)
  case (Cons x xs)
  obtain f1 actions1 where x: "fsm_exec x f = (f1, actions1)" by (meson surj_pair)
  obtain f2 actions2 where r: "fsm_run xs f1 = (f2, actions2)" by (meson surj_pair)
  have out: "f' = f2" "actions = actions1 @ actions2" using Cons.prems(5) x r by auto
  note r = r [folded out(1)]
  have "follows f (f1, actions1)" using follows_exec [of f x] Cons.prems(1,2) x by simp
  then have f1: "fsm_inv f1" "unat (fsm_next_clip_id f1) + length xs \<le> 2 ^ 64 - 1"
    using Cons.prems(2) by (simp_all add: follows_def)
  have "closed_in clip actions1 \<or> waiting key clip f1"
    using silent_exec [OF Cons.prems(1,3) quiet _ x] Cons.prems(4) by simp
  moreover have "closed_in clip actions2 \<or> waiting key clip f'" if "waiting key clip f1"
    using Cons.IH [OF f1 that _ r] Cons.prems(4) exec_config [OF x] by simp
  ultimately show ?case unfolding out(2) by auto
qed simp



end
