(* ===== verification/Recorder.thy ===== *)
theory Recorder
  imports Playback
begin

text \<open>
  The playback recorder around the segmentation machine: the clip writer
  (\<^verbatim>\<open>playback/writer.rs\<close>), the clip store with its rolling deque (\<^verbatim>\<open>playback/storage.rs\<close>) and the
  recorder loop (\<^verbatim>\<open>playback/recorder.rs\<close>). The file system is the list of existing files; whether an
  operation on it or a write of the \<^verbatim>\<open>hound\<close> crate succeeds is decided by an environment that may
  answer differently at every operation. The values of the samples are not modelled, only their
  number. The lemmas show that the store stays within its capacity, that ids and files of clips
  are unique, and that no file is lost or left behind.
\<close>

section \<open>Files\<close>

text \<open>A path is a directory and a file name.\<close>

type_synonym path = "string \<times> string"

datatype playback_error = IoError | WavError string | SourceError string | Unsupported | OtherError string

record io_env =
  create_ok :: "nat \<Rightarrow> path \<Rightarrow> bool"
  create_leaves_file :: "nat \<Rightarrow> path \<Rightarrow> bool"
  sample_ok :: "nat \<Rightarrow> path \<Rightarrow> bool"
  finalize_ok :: "nat \<Rightarrow> path \<Rightarrow> bool"
  remove_ok :: "nat \<Rightarrow> path \<Rightarrow> bool"
  mkdir_ok :: "nat \<Rightarrow> string \<Rightarrow> bool"
  read_dir_ok :: "nat \<Rightarrow> string \<Rightarrow> bool"
  copy_ok :: "nat \<Rightarrow> path \<Rightarrow> bool"
  as_khz :: "radio_frequency \<Rightarrow> string"

record fs =
  fs_files :: "path hash_set"
  fs_clock :: nat

definition fs_answer :: "(nat \<Rightarrow> 'p \<Rightarrow> bool) \<Rightarrow> 'p \<Rightarrow> fs \<Rightarrow> fs \<times> bool" where
  "fs_answer question p fs = (fs\<lparr>fs_clock := fs_clock fs + 1\<rparr>, question (fs_clock fs) p)"

definition fs_exists :: "path \<Rightarrow> fs \<Rightarrow> bool" where
  "fs_exists p fs \<longleftrightarrow> p \<in> set (fs_files fs)"

definition fs_add :: "path \<Rightarrow> fs \<Rightarrow> fs" where
  "fs_add p fs = fs\<lparr>fs_files := hs_insert p (fs_files fs)\<rparr>"

definition fs_remove_file :: "io_env \<Rightarrow> path \<Rightarrow> fs \<Rightarrow> fs \<times> bool" where
  "fs_remove_file e p fs =
     (let (fs, ok) = fs_answer (remove_ok e) p fs
      in if ok \<and> fs_exists p fs then (fs\<lparr>fs_files := hs_remove p (fs_files fs)\<rparr>, True) else (fs, False))"

section \<open>File names\<close>

fun decimal :: "nat \<Rightarrow> string" where
  "decimal n = (if n < 10 then [char_of (48 + n)] else decimal (n div 10) @ [char_of (48 + n mod 10)])"

declare decimal.simps [simp del]

definition u32_max :: nat where
  "u32_max = 2 ^ 32 - 1"

text \<open>The loop over \<^verbatim>\<open>1..u32::MAX\<close>.\<close>

function free_suffix :: "(nat \<Rightarrow> path) \<Rightarrow> fs \<Rightarrow> nat \<Rightarrow> path option" where
  "free_suffix candidate fs n =
     (if n < u32_max
      then if fs_exists (candidate n) fs then free_suffix candidate fs (n + 1) else Some (candidate n)
      else None)"
  by pat_completeness auto
termination by (relation "measure (\<lambda>(_, _, n). u32_max - n)") auto

declare free_suffix.simps [simp del]

definition unique_path :: "string \<Rightarrow> string \<Rightarrow> string \<Rightarrow> fs \<Rightarrow> path" where
  "unique_path dir base ext fs =
     (let first = (dir, base @ ''.'' @ ext)
      in if \<not> fs_exists first fs then first
         else case free_suffix (\<lambda>n. (dir, base @ ''-'' @ decimal n @ ''.'' @ ext)) fs 1 of
                Some path \<Rightarrow> path
              | None \<Rightarrow> first)"

definition system_time_to_unix_ms :: "system_time \<Rightarrow> nat" where
  "system_time_to_unix_ms t = (if 0 \<le> t then nat t div 1000000 else 0)"

definition filename_token :: "io_env \<Rightarrow> tap_id \<Rightarrow> string" where
  "filename_token e tap =
     (case tap of FrequencyTap f \<Rightarrow> ''freq-'' @ as_khz e f | Headset \<Rightarrow> ''headset'' | Speaker \<Rightarrow> ''speaker'' | Merged \<Rightarrow> ''merged'')"

definition sanitize :: "string \<Rightarrow> string" where
  "sanitize s = map (\<lambda>c. if c \<in> set ''abcdefghijklmnopqrstuvwxyzABCDEFGHIJKLMNOPQRSTUVWXYZ0123456789_-'' then c else CHR ''_'') s"

definition format_frequency_mhz :: "radio_frequency \<Rightarrow> string" where
  "format_frequency_mhz freq =
     (let hz = unat freq; mhz = hz div 1000000; khz = decimal ((hz mod 1000000) div 1000)
      in decimal mhz @ ''.'' @ replicate (3 - length khz) (CHR ''0'') @ khz)"

section \<open>The clip writer\<close>

record clip_writer =
  cw_path :: path
  cw_input_channels :: u16
  cw_sample_count :: u64
  cw_sample_rate :: u32

definition clip_writer_create :: "io_env \<Rightarrow> path \<Rightarrow> u32 \<Rightarrow> u16 \<Rightarrow> fs \<Rightarrow> fs \<times> (playback_error + clip_writer)" where
  "clip_writer_create e path sample_rate channels fs =
     (if channels = 0 then (fs, Inl (WavError ''channels must be greater than zero''))
      else if sample_rate = 0 then (fs, Inl (WavError ''sample_rate must be greater than zero''))
      else
        (let (fs, ok) = fs_answer (create_ok e) path fs
         in if ok
            then (fs_add path fs,
                  Inr \<lparr>cw_path = path, cw_input_channels = channels, cw_sample_count = 0, cw_sample_rate = sample_rate\<rparr>)
            else
              (let (fs, left) = fs_answer (create_leaves_file e) path fs
               in (if left then fs_add path fs else fs, Inl IoError))))"

text \<open>Writing the mono samples one by one, until one fails.\<close>

primrec write_samples :: "io_env \<Rightarrow> nat \<Rightarrow> clip_writer \<Rightarrow> fs \<Rightarrow> fs \<times> clip_writer \<times> bool" where
  "write_samples e 0 w fs = (fs, w, True)"
| "write_samples e (Suc n) w fs =
     (let (fs, ok) = fs_answer (sample_ok e) (cw_path w) fs
      in if ok then write_samples e n (w\<lparr>cw_sample_count := cw_sample_count w + 1\<rparr>) fs else (fs, w, False))"

definition write_frame :: "io_env \<Rightarrow> 'f list \<Rightarrow> clip_writer \<Rightarrow> fs \<Rightarrow> fs \<times> clip_writer \<times> bool" where
  "write_frame e samples w fs =
     (let channels = unat (cw_input_channels w);
          usable = length samples - length samples mod channels
      in if usable = 0 then (fs, w, True) else write_samples e (usable div channels) w fs)"

definition writer_finalize :: "io_env \<Rightarrow> clip_writer \<Rightarrow> fs \<Rightarrow> fs \<times> (playback_error + nat)" where
  "writer_finalize e w fs =
     (let (fs, ok) = fs_answer (finalize_ok e) (cw_path w) fs
      in if \<not> ok then (fs, Inl IoError)
         else if cw_sample_rate w = 0 then (fs, Inr 0)
         else (fs, Inr (min (unat (cw_sample_count w) * 1000) (2 ^ 64 - 1) div unat (cw_sample_rate w))))"

section \<open>The clip store\<close>

record clip_meta =
  cm_id :: u64
  cm_path :: path
  cm_callsigns :: "string hash_set"
  cm_frequency :: "radio_frequency option"
  cm_started_at :: system_time
  cm_ended_at :: system_time
  cm_duration_ms :: nat

record clip_store =
  cst_root :: string
  cst_saved_dir :: string
  cst_max_clips :: nat
  cst_clips :: "clip_meta list"

definition is_clip_file :: "string \<Rightarrow> bool" where
  "is_clip_file name \<longleftrightarrow> take 5 name = ''clip-'' \<and> drop (length name - 4) name = ''.wav''"

definition clip_store_open :: "io_env \<Rightarrow> string \<Rightarrow> nat \<Rightarrow> fs \<Rightarrow> fs \<times> (playback_error + clip_store)" where
  "clip_store_open e root max_clips fs =
     (let saved_dir = root @ ''/saved'';
          (fs, root_ok) = fs_answer (mkdir_ok e) root fs;
          (fs, saved_ok) = fs_answer (mkdir_ok e) saved_dir fs;
          (fs, read_ok) = fs_answer (read_dir_ok e) root fs
      in if \<not> (root_ok \<and> saved_ok \<and> read_ok) then (fs, Inl IoError)
         else
           (fold (\<lambda>p fs. if fst p = root \<and> is_clip_file (snd p) then fst (fs_remove_file e p fs) else fs) (fs_files fs) fs,
            Inr \<lparr>cst_root = root, cst_saved_dir = saved_dir, cst_max_clips = max_clips, cst_clips = []\<rparr>))"

definition allocate :: "io_env \<Rightarrow> tap_id \<Rightarrow> system_time \<Rightarrow> clip_store \<Rightarrow> fs \<Rightarrow> path" where
  "allocate e tap started_at store fs =
     unique_path (cst_root store) (''clip-'' @ decimal (system_time_to_unix_ms started_at) @ ''-'' @ filename_token e tap) ''wav'' fs"

fun evict_overflow :: "io_env \<Rightarrow> nat \<Rightarrow> clip_meta list \<Rightarrow> fs \<Rightarrow> clip_meta list \<times> fs \<times> clip_meta list" where
  "evict_overflow e max_clips [] fs = ([], fs, [])"
| "evict_overflow e max_clips (meta # clips) fs =
     (if length (meta # clips) > max_clips
      then
        (let fs = (if fs_exists (cm_path meta) fs then fst (fs_remove_file e (cm_path meta) fs) else fs);
             (clips, fs, evicted) = evict_overflow e max_clips clips fs
         in (clips, fs, meta # evicted))
      else (meta # clips, fs, []))"

definition commit :: "io_env \<Rightarrow> clip_meta \<Rightarrow> clip_store \<Rightarrow> fs \<Rightarrow> clip_store \<times> fs \<times> clip_meta list" where
  "commit e meta store fs =
     (let (clips, fs, evicted) = evict_overflow e (cst_max_clips store) (cst_clips store @ [meta]) fs
      in (store\<lparr>cst_clips := clips\<rparr>, fs, evicted))"

definition discard :: "io_env \<Rightarrow> path \<Rightarrow> fs \<Rightarrow> fs" where
  "discard e path fs = fst (fs_remove_file e path fs)"

definition store_list :: "clip_store \<Rightarrow> clip_meta list" where
  "store_list store = rev (cst_clips store)"

definition clip_get :: "u64 \<Rightarrow> clip_store \<Rightarrow> clip_meta option" where
  "clip_get clip_id store = List.find (\<lambda>c. cm_id c = clip_id) (cst_clips store)"

definition latest :: "clip_store \<Rightarrow> clip_meta option" where
  "latest store = (if cst_clips store = [] then None else Some (last (cst_clips store)))"

fun remove_first :: "u64 \<Rightarrow> clip_meta list \<Rightarrow> (clip_meta \<times> clip_meta list) option" where
  "remove_first clip_id [] = None"
| "remove_first clip_id (c # cs) =
     (if cm_id c = clip_id then Some (c, cs) else map_option (\<lambda>(m, cs). (m, c # cs)) (remove_first clip_id cs))"

definition store_delete :: "io_env \<Rightarrow> u64 \<Rightarrow> clip_store \<Rightarrow> fs \<Rightarrow> clip_store \<times> fs \<times> (playback_error + bool)" where
  "store_delete e clip_id store fs =
     (case remove_first clip_id (cst_clips store) of
        None \<Rightarrow> (store, fs, Inr False)
      | Some (meta, clips) \<Rightarrow>
          (let store = store\<lparr>cst_clips := clips\<rparr>
           in if fs_exists (cm_path meta) fs
              then (let (fs, ok) = fs_remove_file e (cm_path meta) fs in (store, fs, if ok then Inr True else Inl IoError))
              else (store, fs, Inr True)))"

definition store_clear :: "io_env \<Rightarrow> clip_store \<Rightarrow> fs \<Rightarrow> clip_store \<times> fs" where
  "store_clear e store fs =
     (store\<lparr>cst_clips := []\<rparr>,
      fold (\<lambda>meta fs. if fs_exists (cm_path meta) fs then fst (fs_remove_file e (cm_path meta) fs) else fs)
        (cst_clips store) fs)"

definition join_callsigns :: "string list \<Rightarrow> string" where
  "join_callsigns names = (case names of [] \<Rightarrow> ''unknown'' | n # ns \<Rightarrow> n @ concat (map (\<lambda>m. ''-'' @ m) ns))"

definition store_export ::
  "io_env \<Rightarrow> u64 \<Rightarrow> string option \<Rightarrow> clip_store \<Rightarrow> fs \<Rightarrow> fs \<times> (playback_error + string)" where
  "store_export e clip_id target_dir store fs =
     (case clip_get clip_id store of
        None \<Rightarrow> (fs, Inl (WavError (''clip '' @ decimal (unat clip_id) @ '' not found'')))
      | Some meta \<Rightarrow>
          (let dir = (case target_dir of Some dir \<Rightarrow> dir | None \<Rightarrow> cst_saved_dir store);
               (fs, ok) = fs_answer (mkdir_ok e) dir fs
           in if \<not> ok then (fs, Inl IoError)
              else
                (let base = ''playback-'' @ decimal (system_time_to_unix_ms (cm_started_at meta)) @ ''-'' @
                       (case cm_frequency meta of Some freq \<Rightarrow> format_frequency_mhz freq @ ''-'' | None \<Rightarrow> []) @
                       sanitize (join_callsigns (cm_callsigns meta));
                     target = unique_path dir base ''wav'' fs;
                     (fs, ok) = fs_answer (copy_ok e) target fs
                 in if ok \<and> fs_exists (cm_path meta) fs then (fs_add target fs, Inr dir) else (fs, Inl IoError))))"

section \<open>The recorder\<close>

record recorder_clip =
  rcl_writer :: clip_writer
  rcl_path :: path
  rcl_callsigns :: "string hash_set"
  rcl_frequency :: "radio_frequency option"
  rcl_started_at :: system_time

definition finalize_clip ::
  "io_env \<Rightarrow> u64 \<Rightarrow> system_time option \<Rightarrow> nat option \<Rightarrow> recorder_clip \<Rightarrow> fs \<Rightarrow> fs \<times> (path \<times> playback_error + clip_meta)" where
  "finalize_clip e clip_id ended_at duration_override clip fs =
     (case writer_finalize e (rcl_writer clip) fs of
        (fs, Inl err) \<Rightarrow> (fs, Inl (rcl_path clip, err))
      | (fs, Inr actual_ms) \<Rightarrow>
          (let duration_ms = (case duration_override of Some d \<Rightarrow> if d \<noteq> 0 then d else actual_ms | None \<Rightarrow> actual_ms);
               ended_at = (case ended_at of
                  Some t \<Rightarrow> t
                | None \<Rightarrow> (case checked_add (rcl_started_at clip) (from_millis duration_ms) of
                             Some t \<Rightarrow> t | None \<Rightarrow> rcl_started_at clip))
           in (fs, Inr \<lparr>cm_id = clip_id, cm_path = rcl_path clip, cm_callsigns = rcl_callsigns clip,
                       cm_frequency = rcl_frequency clip, cm_started_at = rcl_started_at clip,
                       cm_ended_at = ended_at, cm_duration_ms = duration_ms\<rparr>)))"

record recorder =
  rec_store :: clip_store
  rec_open :: "(u64, recorder_clip) hash_map"
  rec_fs :: fs
  rec_emitted :: "(clip_meta \<times> clip_meta list) list"

text \<open>Finalizing a clip that left the table of open ones: it is committed and announced, or discarded.\<close>

definition finish_clip :: "io_env \<Rightarrow> u64 \<Rightarrow> system_time option \<Rightarrow> nat option \<Rightarrow> recorder_clip \<Rightarrow> recorder \<Rightarrow> recorder" where
  "finish_clip e clip_id ended_at duration_ms clip r =
     (case finalize_clip e clip_id ended_at duration_ms clip (rec_fs r) of
        (fs, Inl (path, err)) \<Rightarrow> r\<lparr>rec_fs := discard e path fs\<rparr>
      | (fs, Inr meta) \<Rightarrow>
          (let (store, fs, evicted) = commit e meta (rec_store r) fs
           in r\<lparr>rec_store := store, rec_fs := fs, rec_emitted := rec_emitted r @ [(meta, evicted)]\<rparr>))"

definition apply_action :: "io_env \<Rightarrow> 'f fsm_action \<Rightarrow> recorder \<Rightarrow> recorder" where
  "apply_action e action r =
     (case action of
        OpenClip op \<Rightarrow>
          (let path = allocate e (op_tap op) (op_started_at op) (rec_store r) (rec_fs r)
           in case clip_writer_create e path (op_sample_rate op) (op_channels op) (rec_fs r) of
                (fs, Inr writer) \<Rightarrow>
                  r\<lparr>rec_fs := fs,
                    rec_open := hm_insert (op_clip_id op)
                      \<lparr>rcl_writer = writer, rcl_path = path, rcl_callsigns = op_callsigns op,
                       rcl_frequency = op_frequency op, rcl_started_at = op_started_at op\<rparr> (rec_open r)\<rparr>
              | (fs, Inl err) \<Rightarrow> r\<lparr>rec_fs := discard e path fs\<rparr>)
      | WriteFrame clip_id samples \<Rightarrow>
          (case hm_get (rec_open r) clip_id of
             None \<Rightarrow> r
           | Some clip \<Rightarrow>
               (let (fs, writer, ok) = write_frame e samples (rcl_writer clip) (rec_fs r)
                in r\<lparr>rec_fs := fs, rec_open := hm_insert clip_id (clip\<lparr>rcl_writer := writer\<rparr>) (rec_open r)\<rparr>))
      | CloseClip cl \<Rightarrow>
          (case hm_get (rec_open r) (cl_clip_id cl) of
             None \<Rightarrow> r
           | Some clip \<Rightarrow>
               finish_clip e (cl_clip_id cl) (Some (cl_ended_at cl)) (Some (cl_duration_ms cl))
                 (clip\<lparr>rcl_callsigns := cl_callsigns cl\<rparr>) (r\<lparr>rec_open := hm_remove (cl_clip_id cl) (rec_open r)\<rparr>)))"

definition apply_actions :: "io_env \<Rightarrow> 'f fsm_action list \<Rightarrow> recorder \<Rightarrow> recorder" where
  "apply_actions e actions r = fold (apply_action e) actions r"

text \<open>The clips still open at shutdown are finished with what was written.\<close>

definition recorder_shutdown :: "io_env \<Rightarrow> recorder \<Rightarrow> recorder" where
  "recorder_shutdown e r =
     fold (\<lambda>(clip_id, clip). finish_clip e clip_id None None clip) (rec_open r) (r\<lparr>rec_open := []\<rparr>)"

definition recorder_spawn :: "io_env \<Rightarrow> playback_config \<Rightarrow> string \<Rightarrow> fs \<Rightarrow> fs \<times> (playback_error + recorder)" where
  "recorder_spawn e config clip_dir fs =
     (case clip_store_open e clip_dir (pc_max_clips config) fs of
        (fs, Inl err) \<Rightarrow> (fs, Inl err)
      | (fs, Inr store) \<Rightarrow> (fs, Inr \<lparr>rec_store = store, rec_open = [], rec_fs = fs, rec_emitted = []\<rparr>))"

text \<open>What happens to a running recorder: an input of its loop, or a command of the frontend.\<close>

datatype 'f recorder_op = Record "'f fsm_input" | DeleteClip u64 | ClearClips | ExportClip u64

fun recorder_exec :: "io_env \<Rightarrow> 'f recorder_op \<Rightarrow> fsm \<times> recorder \<Rightarrow> fsm \<times> recorder" where
  "recorder_exec e (Record x) (f, r) = (let (f, actions) = fsm_exec x f in (f, apply_actions e actions r))"
| "recorder_exec e (DeleteClip clip_id) (f, r) =
     (let (store, fs, res) = store_delete e clip_id (rec_store r) (rec_fs r) in (f, r\<lparr>rec_store := store, rec_fs := fs\<rparr>))"
| "recorder_exec e ClearClips (f, r) =
     (let (store, fs) = store_clear e (rec_store r) (rec_fs r) in (f, r\<lparr>rec_store := store, rec_fs := fs\<rparr>))"
| "recorder_exec e (ExportClip clip_id) (f, r) =
     (let (fs, res) = store_export e clip_id None (rec_store r) (rec_fs r) in (f, r\<lparr>rec_fs := fs\<rparr>))"

section \<open>Names are unique\<close>

definition read_decimal :: "string \<Rightarrow> nat" where
  "read_decimal s = foldl (\<lambda>n c. n * 10 + (of_char c - 48)) 0 s"

lemma read_decimal_decimal: "read_decimal (decimal n) = n"
proof (induction n rule: decimal.induct)
  case (1 n)
  have digit: "of_char (char_of (48 + d :: nat) :: char) = 48 + d" if "d < 10" for d :: nat
    using that by (simp add: of_char_of)
  show ?case
  proof (cases "n < 10")
    case True
    then show ?thesis by (simp add: decimal.simps [of n] read_decimal_def digit)
  next
    case False
    with 1 show ?thesis by (simp add: decimal.simps [of n] read_decimal_def digit)
  qed
qed

lemma decimal_inject [simp]: "decimal m = decimal n \<longleftrightarrow> m = n"
  by (metis read_decimal_decimal)

lemma free_suffix_SomeD: "free_suffix candidate fs n = Some p \<Longrightarrow> \<not> fs_exists p fs \<and> p \<in> range candidate"
proof (induction candidate fs n rule: free_suffix.induct)
  case (1 candidate fs n)
  then show ?case by (simp add: free_suffix.simps [of candidate fs n] split: if_splits) auto
qed

lemma free_suffix_NoneD: "free_suffix candidate fs n = None \<Longrightarrow> n \<le> k \<Longrightarrow> k < u32_max \<Longrightarrow> fs_exists (candidate k) fs"
proof (induction candidate fs n rule: free_suffix.induct)
  case (1 candidate fs n)
  then show ?case
    by (cases "k = n") (simp_all add: free_suffix.simps [of candidate fs n] split: if_splits)
qed

text \<open>As long as there are fewer files than suffixes, a file that does not exist yet is found.\<close>

lemma unique_path_fresh:
  assumes "card (set (fs_files fs)) < u32_max"
  shows "\<not> fs_exists (unique_path dir base ext fs) fs"
proof -
  let ?cand = "\<lambda>n. (dir, base @ ''-'' @ decimal n @ ''.'' @ ext)" and ?first = "(dir, base @ ''.'' @ ext)"
  have "free_suffix ?cand fs 1 \<noteq> None" if first: "fs_exists ?first fs"
  proof
    assume "free_suffix ?cand fs 1 = None"
    from free_suffix_NoneD [OF this] first have "insert ?first (?cand ` {1..<u32_max}) \<subseteq> set (fs_files fs)"
      by (auto simp: fs_exists_def)
    then have "card (insert ?first (?cand ` {1..<u32_max})) \<le> card (set (fs_files fs))" by (intro card_mono) simp_all
    moreover have "card (?cand ` {1..<u32_max}) = u32_max - 1" by (subst card_image) (auto simp: inj_on_def)
    moreover have "?first \<notin> ?cand ` {1..<u32_max}" by auto
    ultimately show False using assms by (simp add: u32_max_def)
  qed
  then show ?thesis by (auto simp: unique_path_def Let_def dest: free_suffix_SomeD split: option.splits)
qed

lemma unique_path_cases:
  "unique_path dir base ext fs = (dir, base @ ''.'' @ ext) \<or>
   (\<exists>n. unique_path dir base ext fs = (dir, base @ ''-'' @ decimal n @ ''.'' @ ext))"
  by (auto simp: unique_path_def Let_def dest: free_suffix_SomeD split: option.splits)

lemma drop_append_end: "drop (length (xs @ ys) - length ys) (xs @ ys) = ys"
  by simp

lemma is_clip_file_name: "is_clip_file (''clip-'' @ name @ ''.wav'')"
  using drop_append_end [of "''clip-'' @ name" "''.wav''"] by (simp add: is_clip_file_def)

lemma allocate_name:
  "fst (allocate e tap started_at store fs) = cst_root store" "is_clip_file (snd (allocate e tap started_at store fs))"
proof -
  let ?base = "''clip-'' @ decimal (system_time_to_unix_ms started_at) @ ''-'' @ filename_token e tap"
  have "is_clip_file (?base @ ''.wav'')" "is_clip_file (?base @ ''-'' @ decimal n @ ''.wav'')" for n
    using is_clip_file_name [of "decimal (system_time_to_unix_ms started_at) @ ''-'' @ filename_token e tap"]
      is_clip_file_name [of "decimal (system_time_to_unix_ms started_at) @ ''-'' @ filename_token e tap @ ''-'' @ decimal n"]
    by simp_all
  with unique_path_cases [of "cst_root store" ?base "''wav''" fs]
  show "fst (allocate e tap started_at store fs) = cst_root store" "is_clip_file (snd (allocate e tap started_at store fs))"
    by (auto simp: allocate_def)
qed

section \<open>Effects on the files\<close>

text \<open>An environment in which removing a file that exists never fails.\<close>

definition tidy :: "io_env \<Rightarrow> bool" where
  "tidy e \<longleftrightarrow> (\<forall>n p. remove_ok e n p)"

definition removes :: "io_env \<Rightarrow> path set \<Rightarrow> fs \<Rightarrow> fs \<Rightarrow> bool" where
  "removes e ps fs fs' \<longleftrightarrow> set (fs_files fs') \<subseteq> set (fs_files fs) \<and> set (fs_files fs) - ps \<subseteq> set (fs_files fs') \<and>
     (tidy e \<longrightarrow> set (fs_files fs') \<inter> ps = {})"

lemma fs_answer_files [simp]: "fs_files (fst (fs_answer q p fs)) = fs_files fs"
  by (simp add: fs_answer_def)

lemma fs_answer_eq: "fs_answer q p fs = (fs', ok) \<Longrightarrow> fs_files fs' = fs_files fs"
  by (auto simp: fs_answer_def)

lemma fs_exists_add [simp]: "set (fs_files (fs_add p fs)) = insert p (set (fs_files fs))"
  by (simp add: fs_add_def)

lemma removes_remove_file: "removes e {p} fs (fst (fs_remove_file e p fs))"
  by (cases p) (auto simp: removes_def fs_remove_file_def tidy_def fs_answer_def fs_exists_def)

lemma removes_discard: "removes e {p} fs (discard e p fs)"
  by (simp add: discard_def removes_remove_file)

lemma removes_if_exists: "removes e {p} fs (if fs_exists p fs then fst (fs_remove_file e p fs) else fs)"
  using removes_remove_file [of e p fs] by (auto simp: removes_def fs_exists_def)

lemma removes_trans: "removes e ps fs fs1 \<Longrightarrow> removes e qs fs1 fs2 \<Longrightarrow> removes e (ps \<union> qs) fs fs2"
  by (auto simp: removes_def)

lemma removes_none: "set (fs_files fs') = set (fs_files fs) \<Longrightarrow> removes e {} fs fs'"
  by (simp add: removes_def)

lemma removes_cong: "removes e ps fs fs' \<Longrightarrow> set (fs_files fs1) = set (fs_files fs) \<Longrightarrow> removes e ps fs1 fs'"
  by (simp add: removes_def)

lemma evict_overflow_eq:
  "evict_overflow e max_clips clips fs = (clips', fs', evicted) \<Longrightarrow>
     clips = evicted @ clips' \<and> length clips' \<le> max_clips \<and> removes e (cm_path ` set evicted) fs fs'"
proof (induction clips arbitrary: fs clips' fs' evicted)
  case (Cons meta clips)
  show ?case
  proof (cases "length (meta # clips) > max_clips")
    case True
    let ?fs = "if fs_exists (cm_path meta) fs then fst (fs_remove_file e (cm_path meta) fs) else fs"
    obtain clips1 fs1 evicted1 where r: "evict_overflow e max_clips clips ?fs = (clips1, fs1, evicted1)"
      by (meson prod_cases3)
    have "removes e ({cm_path meta} \<union> cm_path ` set evicted1) fs fs1"
      using Cons.IH [OF r] by (intro removes_trans [OF removes_if_exists]) simp
    with True Cons.prems Cons.IH [OF r] r show ?thesis by auto
  next
    case False
    with Cons.prems show ?thesis by (auto intro: removes_none)
  qed
qed (auto intro: removes_none)

lemma commit_eq:
  assumes "commit e meta store fs = (store', fs', evicted)"
  shows "cst_clips store @ [meta] = evicted @ cst_clips store'" "length (cst_clips store') \<le> cst_max_clips store"
    "removes e (cm_path ` set evicted) fs fs'" "cst_root store' = cst_root store" "cst_saved_dir store' = cst_saved_dir store"
    "cst_max_clips store' = cst_max_clips store"
  using assms evict_overflow_eq [of e "cst_max_clips store" "cst_clips store @ [meta]" fs]
  by (auto simp: commit_def split: prod.splits)

lemma remove_first_eq: "remove_first i clips = Some (meta, clips') \<Longrightarrow> \<exists>us vs. clips = us @ meta # vs \<and> clips' = us @ vs"
proof (induction clips arbitrary: clips')
  case (Cons c clips)
  then show ?case
    by (auto split: if_splits) (metis append_Cons append_Nil)+
qed simp

lemma removes_clear:
  "removes e (cm_path ` set clips) fs
     (fold (\<lambda>meta fs. if fs_exists (cm_path meta) fs then fst (fs_remove_file e (cm_path meta) fs) else fs) clips fs)"
proof (induction clips arbitrary: fs)
  case (Cons meta clips)
  from removes_trans [OF removes_if_exists [of e "cm_path meta" fs] Cons] show ?case by simp
qed (simp add: removes_none)

lemma write_samples_files:
  "write_samples e n w fs = (fs', w', ok) \<Longrightarrow> fs_files fs' = fs_files fs \<and> cw_path w' = cw_path w"
  by (induction n arbitrary: w fs) (auto dest: fs_answer_eq split: prod.splits if_splits)

lemma write_frame_files:
  "write_frame e samples w fs = (fs', w', ok) \<Longrightarrow> fs_files fs' = fs_files fs"
  by (auto simp: write_frame_def Let_def dest: write_samples_files split: if_splits)

section \<open>The invariant of the recorder\<close>

text \<open>
  The table of open clips is a parameter, because clips leave it before they are finished. The
  pair is the abstract state of the clip protocol: the open clip numbers and the next one.
\<close>

definition rec_paths :: "(u64, recorder_clip) hash_map \<Rightarrow> recorder \<Rightarrow> path list" where
  "rec_paths tbl r = map cm_path (cst_clips (rec_store r)) @ map (\<lambda>(_, clip). rcl_path clip) tbl"

definition clip_files :: "recorder \<Rightarrow> path set" where
  "clip_files r = {p \<in> set (fs_files (rec_fs r)). fst p = cst_root (rec_store r) \<and> is_clip_file (snd p)}"

definition files_ok :: "io_env \<Rightarrow> (u64, recorder_clip) hash_map \<Rightarrow> recorder \<Rightarrow> bool" where
  "files_ok e tbl r \<longleftrightarrow> distinct (rec_paths tbl r) \<and> set (rec_paths tbl r) \<subseteq> clip_files r \<and>
     (tidy e \<longrightarrow> clip_files r = set (rec_paths tbl r)) \<and> cst_saved_dir (rec_store r) \<noteq> cst_root (rec_store r)"

definition clips_ok :: "u64 set \<times> u64 \<Rightarrow> (u64, recorder_clip) hash_map \<Rightarrow> recorder \<Rightarrow> bool" where
  "clips_ok v tbl r \<longleftrightarrow> hm_ok tbl \<and> set (hm_keys tbl) \<subseteq> fst v \<and> distinct (map cm_id (cst_clips (rec_store r))) \<and>
     (\<forall>c \<in> set (cst_clips (rec_store r)). cm_id c < snd v \<and> cm_id c \<notin> fst v) \<and>
     length (cst_clips (rec_store r)) \<le> cst_max_clips (rec_store r)"

definition rec_ok :: "io_env \<Rightarrow> u64 set \<times> u64 \<Rightarrow> (u64, recorder_clip) hash_map \<Rightarrow> recorder \<Rightarrow> bool" where
  "rec_ok e v tbl r \<longleftrightarrow> files_ok e tbl r \<and> clips_ok v tbl r"

lemma files_ok_removes:
  assumes "files_ok e tbl r" and rm: "removes e ps (rec_fs r) (rec_fs r')"
    and store: "cst_root (rec_store r') = cst_root (rec_store r)" "cst_saved_dir (rec_store r') = cst_saved_dir (rec_store r)"
    and paths: "distinct (rec_paths tbl' r')" "set (rec_paths tbl' r') = set (rec_paths tbl r) - ps"
  shows "files_ok e tbl' r'"
proof -
  have "clip_files r' \<subseteq> clip_files r" "clip_files r - ps \<subseteq> clip_files r'" "tidy e \<longrightarrow> clip_files r' \<inter> ps = {}"
    using rm by (auto simp: clip_files_def removes_def store)
  then show ?thesis using assms(1) by (auto simp: files_ok_def paths store)
qed

lemma files_ok_more:
  assumes "files_ok e tbl r" and "rec_paths tbl' r' = rec_paths tbl r" and "clip_files r \<subseteq> clip_files r'"
    and "tidy e \<Longrightarrow> clip_files r' = clip_files r"
    and "cst_root (rec_store r') = cst_root (rec_store r)" "cst_saved_dir (rec_store r') = cst_saved_dir (rec_store r)"
  shows "files_ok e tbl' r'"
  using assms by (auto simp: files_ok_def)

lemma finalize_clip_eq:
  assumes "finalize_clip e i ended_at duration_ms clip fs = (fs', res)"
  shows "fs_files fs' = fs_files fs" "\<And>p err. res = Inl (p, err) \<Longrightarrow> p = rcl_path clip"
    "\<And>meta. res = Inr meta \<Longrightarrow> cm_path meta = rcl_path clip \<and> cm_id meta = i"
  using assms
  by (auto simp: finalize_clip_def writer_finalize_def Let_def dest: fs_answer_eq split: prod.splits if_splits sum.splits)

lemma disjoint_diff: "A \<inter> (B \<union> C) = {} \<Longrightarrow> (A \<union> B) \<union> C - A = B \<union> C"
  by blast

lemma table_split:
  assumes "hm_ok tbl" and "hm_get tbl i = Some clip"
  obtains us vs where "tbl = us @ (i, clip) # vs" "hm_remove i tbl = us @ vs"
proof -
  obtain us vs where tbl: "tbl = us @ (i, clip) # vs" "i \<notin> set (hm_keys us)" using hm_split [OF assms(2)] .
  with assms(1) have "i \<notin> set (hm_keys vs)" by (auto simp: hm_ok_def hm_keys_def)
  with tbl(2) have "hm_remove i us = us" "hm_remove i vs = vs" by (simp_all add: hm_remove_absent hm_get_None_iff)
  then have "hm_remove i tbl = us @ vs" by (simp add: tbl(1) hm_remove_filter)
  with tbl(1) show thesis by (rule that)
qed

lemma keys_remove_ok:
  assumes "clips_ok v tbl r" shows "hm_ok (hm_remove i tbl)" "set (hm_keys (hm_remove i tbl)) \<subseteq> fst v - {i}"
  using assms by (auto simp: clips_ok_def)

lemma finish_failed_ok:
  assumes ok: "rec_ok e v tbl r" and i: "hm_get tbl i = Some clip" and fs: "set (fs_files fs) = set (fs_files (rec_fs r))"
  shows "rec_ok e (fst v - {i}, snd v) (hm_remove i tbl) (r\<lparr>rec_fs := discard e (rcl_path clip) fs\<rparr>)"
proof -
  let ?r = "r\<lparr>rec_fs := discard e (rcl_path clip) fs\<rparr>"
  obtain us vs where "tbl = us @ (i, clip) # vs" "hm_remove i tbl = us @ vs"
    using ok table_split [OF _ i] by (auto simp: rec_ok_def clips_ok_def)
  then have tbl: "tbl = us @ (i, clip) # vs" "hm_remove i (us @ (i, clip) # vs) = us @ vs" by simp_all
  have "files_ok e (hm_remove i tbl) ?r"
  proof (rule files_ok_removes [of e tbl r "{rcl_path clip}"])
    show "removes e {rcl_path clip} (rec_fs r) (rec_fs ?r)"
      using removes_discard [of e "rcl_path clip" fs] fs by (auto intro: removes_cong)
  qed (use ok in \<open>auto simp: rec_ok_def files_ok_def rec_paths_def tbl\<close>)
  with ok keys_remove_ok [of v tbl r i] show ?thesis by (auto simp: rec_ok_def clips_ok_def)
qed

lemma finish_committed_ok:
  assumes ok: "rec_ok e v tbl r" and i: "hm_get tbl i = Some clip" and fs: "set (fs_files fs) = set (fs_files (rec_fs r))"
    and m: "cm_path meta = rcl_path clip" "cm_id meta = i" and v: "i < snd v"
    and c: "commit e meta (rec_store r) fs = (store, fs', evicted)"
  shows "rec_ok e (fst v - {i}, snd v) (hm_remove i tbl) (r\<lparr>rec_store := store, rec_fs := fs', rec_emitted := em\<rparr>)"
proof -
  let ?r = "r\<lparr>rec_store := store, rec_fs := fs', rec_emitted := em\<rparr>" and ?path = "\<lambda>(_ :: u64, clip). rcl_path clip"
  obtain us vs where "tbl = us @ (i, clip) # vs" "hm_remove i tbl = us @ vs"
    using ok table_split [OF _ i] by (auto simp: rec_ok_def clips_ok_def)
  then have tbl: "tbl = us @ (i, clip) # vs" "hm_remove i (us @ (i, clip) # vs) = us @ vs" by simp_all
  note ce = commit_eq [OF c]
  note lists = arg_cong [OF ce(1), of "map _", simplified]
  have sets: "insert meta (set (cst_clips (rec_store r))) = set evicted \<union> set (cst_clips store)"
    using arg_cong [OF ce(1), of set] by simp
  have "distinct ((map cm_path (cst_clips (rec_store r)) @ [cm_path meta]) @ map ?path (us @ vs))"
    using ok m by (auto simp: rec_ok_def files_ok_def rec_paths_def tbl)
  then have dist: "distinct (map cm_path evicted @ map cm_path (cst_clips store) @ map ?path (us @ vs))"
    using lists [of cm_path] by simp
  have "files_ok e (hm_remove i tbl) ?r"
  proof (rule files_ok_removes [of e tbl r "cm_path ` set evicted"])
    show "removes e (cm_path ` set evicted) (rec_fs r) (rec_fs ?r)" using ce(3) fs by (auto intro: removes_cong)
    have "set (rec_paths tbl r) = cm_path ` insert meta (set (cst_clips (rec_store r))) \<union> ?path ` set (us @ vs)"
      using m by (auto simp: rec_paths_def tbl)
    then have old: "set (rec_paths tbl r) = cm_path ` (set evicted \<union> set (cst_clips store)) \<union> ?path ` set (us @ vs)"
      unfolding sets .
    have "cm_path ` set evicted \<inter> (cm_path ` set (cst_clips store) \<union> ?path ` set (us @ vs)) = {}"
      using dist by (simp only: distinct_append set_map set_append)
    then show "set (rec_paths (hm_remove i tbl) ?r) = set (rec_paths tbl r) - cm_path ` set evicted"
      unfolding old image_Un by (subst disjoint_diff) (simp_all add: rec_paths_def tbl image_Un)
  qed (use ok dist ce in \<open>simp_all add: rec_ok_def rec_paths_def tbl\<close>)
  moreover have "clips_ok (fst v - {i}, snd v) (hm_remove i tbl) ?r"
  proof -
    have "i \<in> fst v" using ok by (auto simp: rec_ok_def clips_ok_def tbl hm_keys_def)
    then have "distinct (map cm_id (cst_clips (rec_store r)) @ [cm_id meta])"
      using ok m by (auto simp: rec_ok_def clips_ok_def)
    then have "distinct (map cm_id (cst_clips store))" using lists [of cm_id] by simp
    moreover have "cm_id c < snd v \<and> cm_id c \<notin> fst v - {i}" if "c \<in> set (cst_clips store)" for c
      using that sets ok v m by (auto simp: rec_ok_def clips_ok_def)
    ultimately show ?thesis using ok keys_remove_ok [of v tbl r i] ce by (auto simp: rec_ok_def clips_ok_def)
  qed
  ultimately show ?thesis by (simp add: rec_ok_def)
qed

text \<open>Finishing a clip of the table, whether it succeeds or fails.\<close>

lemma finish_clip_ok:
  assumes ok: "rec_ok e v tbl r" and i: "hm_get tbl i = Some clip0" and p: "rcl_path clip = rcl_path clip0"
    and v: "i < snd v"
  shows "rec_ok e (fst v - {i}, snd v) (hm_remove i tbl) (finish_clip e i ended_at duration_ms clip r)"
proof -
  obtain fs res where f: "finalize_clip e i ended_at duration_ms clip (rec_fs r) = (fs, res)" by (meson surj_pair)
  have fs: "set (fs_files fs) = set (fs_files (rec_fs r))" using finalize_clip_eq(1) [OF f] by simp
  show ?thesis
  proof (cases res)
    case (Inl x)
    with f finalize_clip_eq(2) [OF f] p finish_failed_ok [OF ok i fs] show ?thesis
      by (cases x) (simp add: finish_clip_def)
  next
    case (Inr meta)
    then have m: "cm_path meta = rcl_path clip0" "cm_id meta = i" using finalize_clip_eq(3) [OF f] p by simp_all
    obtain store fs' evicted where c: "commit e meta (rec_store r) fs = (store, fs', evicted)" by (meson prod_cases3)
    with f Inr finish_committed_ok [OF ok i fs m v c] show ?thesis by (simp add: finish_clip_def)
  qed
qed

section \<open>Every operation keeps the invariant\<close>

definition opens :: "'f fsm_action list \<Rightarrow> nat" where
  "opens actions = length (filter (\<lambda>a. case a of OpenClip _ \<Rightarrow> True | _ \<Rightarrow> False) actions)"

lemma opens_simps [simp]:
  "opens [] = 0" "opens (OpenClip op # as) = opens as + 1" "opens (WriteFrame i xs # as) = opens as"
  "opens (CloseClip cl # as) = opens as" "opens (as @ bs) = opens as + opens bs"
  by (simp_all add: opens_def)

lemma clip_writer_create_eq:
  assumes "clip_writer_create e p sample_rate channels fs = (fs', res)"
  shows "isl res \<or> set (fs_files fs') = insert p (set (fs_files fs))"
    "set (fs_files fs') = set (fs_files fs) \<or> set (fs_files fs') = insert p (set (fs_files fs))"
  using assms by (auto simp: clip_writer_create_def dest!: fs_answer_eq split: if_splits prod.splits)

lemma open_clip_ok:
  assumes ok: "rec_ok e (opened, n) (rec_open r) r" and n: "n \<notin> opened" "n < n + 1"
    and room: "card (set (fs_files (rec_fs r))) < u32_max" and op: "op_clip_id op = n"
  shows "rec_ok e (insert n opened, n + 1) (rec_open (apply_action e (OpenClip op) r)) (apply_action e (OpenClip op) r)"
proof -
  define p where "p = allocate e (op_tap op) (op_started_at op) (rec_store r) (rec_fs r)"
  obtain fs res where c: "clip_writer_create e p (op_sample_rate op) (op_channels op) (rec_fs r) = (fs, res)" by (meson surj_pair)
  have p: "p \<notin> set (fs_files (rec_fs r))" "fst p = cst_root (rec_store r)" "is_clip_file (snd p)"
    using unique_path_fresh [OF room] allocate_name by (auto simp: p_def allocate_def fs_exists_def)
  have clips: "clips_ok (opened, n) (rec_open r) r" and files: "files_ok e (rec_open r) r" using ok by (simp_all add: rec_ok_def)
  have "cm_id c < n + 1 \<and> cm_id c \<notin> insert n opened" if "c \<in> set (cst_clips (rec_store r))" for c
    using clips n that by (auto simp: clips_ok_def dest: order.strict_trans)
  note ids = this
  show ?thesis
  proof (cases res)
    case (Inl err)
    define r' where "r' = r\<lparr>rec_fs := discard e p fs\<rparr>"
    have r: "apply_action e (OpenClip op) r = r'" using c Inl by (simp add: apply_action_def p_def [symmetric] r'_def)
    have "set (fs_files (rec_fs r)) \<subseteq> set (fs_files (rec_fs r')) \<and>
        (tidy e \<longrightarrow> set (fs_files (rec_fs r')) = set (fs_files (rec_fs r)))"
      using removes_discard [of e p fs] clip_writer_create_eq(2) [OF c] p(1) by (auto simp: removes_def r'_def)
    then have "files_ok e (rec_open r') r'"
      by (intro files_ok_more [OF files]) (auto simp: rec_paths_def clip_files_def r'_def)
    moreover have "clips_ok (insert n opened, n + 1) (rec_open r') r'"
      using clips ids by (auto simp: clips_ok_def r'_def)
    ultimately show ?thesis by (simp add: r rec_ok_def)
  next
    case (Inr writer)
    define clip where "clip = \<lparr>rcl_writer = writer, rcl_path = p, rcl_callsigns = op_callsigns op,
      rcl_frequency = op_frequency op, rcl_started_at = op_started_at op\<rparr>"
    define r' where "r' = r\<lparr>rec_fs := fs, rec_open := rec_open r @ [(n, clip)]\<rparr>"
    have new: "hm_get (rec_open r) n = None" using clips n(1) by (auto simp: clips_ok_def hm_get_None_iff)
    have r: "apply_action e (OpenClip op) r = r'"
      using c Inr by (simp add: apply_action_def p_def [symmetric] r'_def clip_def [symmetric] op hm_insert_new [OF new])
    have "set (fs_files fs) = insert p (set (fs_files (rec_fs r)))" using clip_writer_create_eq(1) [OF c] Inr by simp
    then have cf: "clip_files r' = insert p (clip_files r)" using p by (auto simp: clip_files_def r'_def)
    have "set (rec_paths (rec_open r) r) \<subseteq> clip_files r" using files by (simp add: files_ok_def)
    then have "p \<notin> set (rec_paths (rec_open r) r)" using p(1) by (auto simp: clip_files_def)
    moreover have "rec_paths (rec_open r') r' = rec_paths (rec_open r) r @ [p]" by (simp add: rec_paths_def r'_def clip_def)
    ultimately have "files_ok e (rec_open r') r'" using files by (auto simp: files_ok_def cf) (simp_all add: r'_def)
    moreover have "clips_ok (insert n opened, n + 1) (rec_open r') r'"
      using clips ids new by (auto simp: clips_ok_def r'_def hm_ok_def hm_keys_def map_of_eq_None_iff)
    ultimately show ?thesis by (simp add: r rec_ok_def)
  qed
qed

lemma map_insert_same:
  assumes "hm_get m i = Some clip" "g clip' = g clip"
  shows "map (\<lambda>(_, clip). g clip) (hm_insert i clip' m) = map (\<lambda>(_, clip). g clip) m"
  using assms by (induction m) (auto split: if_splits)

lemma write_frame_ok:
  assumes ok: "rec_ok e v (rec_open r) r" and "r' = apply_action e (WriteFrame i samples) r"
  shows "rec_ok e v (rec_open r') r'" "set (fs_files (rec_fs r')) = set (fs_files (rec_fs r))"
proof -
  have "rec_ok e v (rec_open r') r' \<and> set (fs_files (rec_fs r')) = set (fs_files (rec_fs r))"
  proof (cases "hm_get (rec_open r) i")
    case None
    with assms show ?thesis by (simp add: apply_action_def)
  next
    case (Some clip)
    obtain fs w b where w: "write_frame e samples (rcl_writer clip) (rec_fs r) = (fs, w, b)" by (meson prod_cases3)
    define tbl where "tbl = hm_insert i (clip\<lparr>rcl_writer := w\<rparr>) (rec_open r)"
    have r': "r' = r\<lparr>rec_fs := fs, rec_open := tbl\<rparr>" using assms(2) Some w by (simp add: apply_action_def tbl_def)
    have fs: "fs_files fs = fs_files (rec_fs r)" by (rule write_frame_files [OF w])
    have paths: "rec_paths tbl r' = rec_paths (rec_open r) r"
      using map_insert_same [OF Some, of rcl_path "clip\<lparr>rcl_writer := w\<rparr>"] by (simp add: rec_paths_def r' tbl_def)
    have "i \<in> set (hm_keys (rec_open r))" using Some hm_get_None_iff [of "rec_open r" i] by auto
    then have keys: "hm_keys tbl = hm_keys (rec_open r)" by (simp add: tbl_def hm_keys_insert)
    have "files_ok e tbl r'"
      using ok fs by (intro files_ok_more [OF _ paths]) (auto simp: rec_ok_def clip_files_def r')
    moreover have "clips_ok v tbl r'"
      using ok keys by (simp add: rec_ok_def clips_ok_def r' hm_ok_def hm_keys_def)
    ultimately show ?thesis using fs by (simp add: rec_ok_def r')
  qed
  then show "rec_ok e v (rec_open r') r'" "set (fs_files (rec_fs r')) = set (fs_files (rec_fs r))" by simp_all
qed

lemma finish_clip_files: "set (fs_files (rec_fs (finish_clip e i ended_at duration_ms clip r))) \<subseteq> set (fs_files (rec_fs r))"
proof -
  obtain fs res where f: "finalize_clip e i ended_at duration_ms clip (rec_fs r) = (fs, res)" by (meson surj_pair)
  note fs = finalize_clip_eq(1) [OF f]
  show ?thesis
  proof (cases res)
    case (Inl x)
    with f fs removes_discard [of e "fst x" fs] show ?thesis
      by (cases x) (simp add: finish_clip_def removes_def)
  next
    case (Inr meta)
    obtain store fs' evicted where c: "commit e meta (rec_store r) fs = (store, fs', evicted)" by (meson prod_cases3)
    with f fs Inr commit_eq(3) [OF c] show ?thesis by (simp add: finish_clip_def removes_def)
  qed
qed

lemma finish_clip_open [simp]: "rec_open (finish_clip e i ended_at duration_ms clip r) = rec_open r"
  by (auto simp: finish_clip_def split: prod.splits sum.splits)

lemma rec_ok_open [simp]: "rec_ok e v tbl (r\<lparr>rec_open := t\<rparr>) = rec_ok e v tbl r"
  by (simp add: rec_ok_def files_ok_def clips_ok_def rec_paths_def clip_files_def)

lemma close_clip_ok:
  assumes ok: "rec_ok e v (rec_open r) r" and v: "cl_clip_id cl < snd v" and "r' = apply_action e (CloseClip cl) r"
  shows "rec_ok e (fst v - {cl_clip_id cl}, snd v) (rec_open r') r'"
    "set (fs_files (rec_fs r')) \<subseteq> set (fs_files (rec_fs r))"
proof -
  let ?i = "cl_clip_id cl"
  have "rec_ok e (fst v - {?i}, snd v) (rec_open r') r' \<and> set (fs_files (rec_fs r')) \<subseteq> set (fs_files (rec_fs r))"
  proof (cases "hm_get (rec_open r) ?i")
    case None
    then have "?i \<notin> set (hm_keys (rec_open r))" by (simp add: hm_get_None_iff)
    with None assms show ?thesis by (auto simp: apply_action_def rec_ok_def clips_ok_def)
  next
    case (Some clip)
    let ?clip = "clip\<lparr>rcl_callsigns := cl_callsigns cl\<rparr>" and ?r = "r\<lparr>rec_open := hm_remove ?i (rec_open r)\<rparr>"
    have r': "r' = finish_clip e ?i (Some (cl_ended_at cl)) (Some (cl_duration_ms cl)) ?clip ?r"
      using assms(3) Some by (simp add: apply_action_def)
    have "rec_ok e (fst v - {?i}, snd v) (hm_remove ?i (rec_open r)) r'"
      unfolding r' by (rule finish_clip_ok [OF _ Some _ v]) (simp_all add: ok)
    then show ?thesis using finish_clip_files [of e ?i _ _ ?clip ?r] by (simp add: r')
  qed
  then show "rec_ok e (fst v - {?i}, snd v) (rec_open r') r'" "set (fs_files (rec_fs r')) \<subseteq> set (fs_files (rec_fs r))"
    by simp_all
qed

lemma open_clip_files: "\<exists>p. set (fs_files (rec_fs (apply_action e (OpenClip op) r))) \<subseteq> insert p (set (fs_files (rec_fs r)))"
proof -
  define p where "p = allocate e (op_tap op) (op_started_at op) (rec_store r) (rec_fs r)"
  obtain fs res where c: "clip_writer_create e p (op_sample_rate op) (op_channels op) (rec_fs r) = (fs, res)" by (meson surj_pair)
  have "set (fs_files (rec_fs (apply_action e (OpenClip op) r))) \<subseteq> insert p (set (fs_files (rec_fs r)))"
    using c clip_writer_create_eq(2) [OF c] removes_discard [of e p fs]
    by (cases res) (auto simp: apply_action_def p_def [symmetric] removes_def)
  then show ?thesis ..
qed

lemma card_le_insert: "finite B \<Longrightarrow> A \<subseteq> insert p B \<Longrightarrow> card A \<le> card B + 1"
  by (metis Suc_eq_plus1 card_insert_le_m1 card_mono card_insert_if finite_insert le_SucI order_trans order_refl)

text \<open>Following the clip protocol, a request keeps the invariant and creates at most one file.\<close>

lemma apply_action_ok:
  assumes ok: "rec_ok e v (rec_open r) r" and v: "\<And>i. i \<in> fst v \<Longrightarrow> i < snd v" and step: "clip_step a v = Some v'"
    and n: "unat (snd v) + opens [a] \<le> 2 ^ 64 - 1" and room: "card (set (fs_files (rec_fs r))) + opens [a] \<le> u32_max"
    and r': "r' = apply_action e a r"
  shows "rec_ok e v' (rec_open r') r'" "\<And>i. i \<in> fst v' \<Longrightarrow> i < snd v'"
    "card (set (fs_files (rec_fs r'))) \<le> card (set (fs_files (rec_fs r))) + opens [a]" "unat (snd v') = unat (snd v) + opens [a]"
proof -
  obtain opened m where vm: "v = (opened, m)" by (cases v)
  have "rec_ok e v' (rec_open r') r' \<and> (\<forall>i. i \<in> fst v' \<longrightarrow> i < snd v') \<and>
    card (set (fs_files (rec_fs r'))) \<le> card (set (fs_files (rec_fs r))) + opens [a] \<and> unat (snd v') = unat (snd v) + opens [a]"
  proof (cases a)
    case (OpenClip op)
    have m: "m < m + 1" "unat (m + 1) = unat m + 1" using word_less_suc [of m] n by (simp_all add: OpenClip vm)
    have op: "op_clip_id op = m" "m \<notin> opened" "v' = (insert m opened, m + 1)"
      using step by (auto simp: OpenClip vm split: if_splits)
    obtain p where "set (fs_files (rec_fs r')) \<subseteq> insert p (set (fs_files (rec_fs r)))"
      using open_clip_files [of e op r] r' OpenClip by auto
    then have "card (set (fs_files (rec_fs r'))) \<le> card (set (fs_files (rec_fs r))) + 1" by (intro card_le_insert) simp_all
    moreover have "rec_ok e v' (rec_open r') r'"
      using open_clip_ok [OF ok [unfolded vm] op(2) m(1) _ op(1)] room by (simp add: OpenClip r' op(3))
    ultimately show ?thesis using v m by (auto simp: OpenClip vm op(3) dest: order.strict_trans)
  next
    case (WriteFrame i samples)
    with step vm have "v' = v" by (auto split: if_splits)
    with write_frame_ok [OF ok r' [unfolded WriteFrame]] v show ?thesis by (simp add: WriteFrame)
  next
    case (CloseClip cl)
    with step vm have i: "cl_clip_id cl \<in> opened" "v' = (opened - {cl_clip_id cl}, m)" by (auto split: if_splits)
    with v vm have "cl_clip_id cl < snd v" by simp
    from close_clip_ok [OF ok this r' [unfolded CloseClip]] i v vm show ?thesis
      by (simp add: CloseClip card_mono)
  qed
  then show "rec_ok e v' (rec_open r') r'" "\<And>i. i \<in> fst v' \<Longrightarrow> i < snd v'"
    "card (set (fs_files (rec_fs r'))) \<le> card (set (fs_files (rec_fs r))) + opens [a]" "unat (snd v') = unat (snd v) + opens [a]"
    by simp_all
qed

lemma apply_actions_ok:
  assumes "rec_ok e v (rec_open r) r" and "\<And>i. i \<in> fst v \<Longrightarrow> i < snd v" and "clip_play as v = Some v'"
    and "unat (snd v) + opens as \<le> 2 ^ 64 - 1" and "card (set (fs_files (rec_fs r))) + opens as \<le> u32_max"
  shows "rec_ok e v' (rec_open (apply_actions e as r)) (apply_actions e as r) \<and>
    card (set (fs_files (rec_fs (apply_actions e as r)))) \<le> card (set (fs_files (rec_fs r))) + opens as"
  using assms
proof (induction as arbitrary: v r)
  case (Cons a as)
  obtain v1 where v1: "clip_step a v = Some v1" "clip_play as v1 = Some v'"
    using Cons.prems(3) by (auto simp: bind_eq_Some_conv)
  have o: "opens (a # as) = opens [a] + opens as" by (cases a) simp_all
  then have "unat (snd v) + opens [a] \<le> 2 ^ 64 - 1" "card (set (fs_files (rec_fs r))) + opens [a] \<le> u32_max"
    using Cons.prems(4,5) by simp_all
  note a = apply_action_ok [OF Cons.prems(1,2) v1(1) this refl]
  have "unat (snd v1) + opens as \<le> 2 ^ 64 - 1" "card (set (fs_files (rec_fs (apply_action e a r)))) + opens as \<le> u32_max"
    using a(3,4) o Cons.prems(4,5) by simp_all
  from Cons.IH [OF a(1,2) v1(2) this] a(3) o show ?case by (simp add: apply_actions_def)
qed (simp add: apply_actions_def)

lemma tick_taps_opens: "opens (snd (tick_taps hangover now now_wall taps)) = 0"
  by (induction taps)
    (auto simp: close_open_clip_def Let_def split: prod.splits option.splits)

lemma close_open_clip_opens: "close_open_clip now now_wall entry = (entry', Some a) \<Longrightarrow> opens [a] = 0"
  by (auto simp: close_open_clip_def Let_def split: option.splits)

lemma exec_opens: "opens (snd (fsm_exec x f)) \<le> 1"
proof (cases x)
  case (SourceEvent event now now_wall)
  then show ?thesis
    by (cases event)
      (auto simp: on_event_def on_tap_opened_def on_tap_closed_def on_frame_def on_rx_begin_def on_rx_end_def
         close_open_clip_def Let_def split: option.splits prod.splits)
next
  case (TickerTick now now_wall)
  then show ?thesis by (simp add: tick_def case_prod_unfold Let_def tick_taps_opens)
qed

lemma delete_ok:
  assumes ok: "rec_ok e v (rec_open r) r" and d: "store_delete e i (rec_store r) (rec_fs r) = (store, fs, res)"
  shows "rec_ok e v (rec_open r) (r\<lparr>rec_store := store, rec_fs := fs\<rparr>) \<and> set (fs_files fs) \<subseteq> set (fs_files (rec_fs r))"
proof (cases "remove_first i (cst_clips (rec_store r))")
  case None
  with ok d show ?thesis by (auto simp: store_delete_def)
next
  case (Some p)
  obtain meta clips where p: "p = (meta, clips)" by (cases p)
  obtain us vs where c: "cst_clips (rec_store r) = us @ meta # vs" "clips = us @ vs"
    using remove_first_eq Some p by blast
  have r: "store = (rec_store r)\<lparr>cst_clips := us @ vs\<rparr>"
      "fs = (if fs_exists (cm_path meta) (rec_fs r) then fst (fs_remove_file e (cm_path meta) (rec_fs r)) else rec_fs r)"
    using d Some p c by (auto simp: store_delete_def Let_def split: if_splits prod.splits)
  have rm: "removes e {cm_path meta} (rec_fs r) fs" unfolding r(2) by (rule removes_if_exists)
  have f: "files_ok e (rec_open r) r" using ok by (simp add: rec_ok_def)
  have "files_ok e (rec_open r) (r\<lparr>rec_store := store, rec_fs := fs\<rparr>)"
    by (rule files_ok_removes [OF f, of "{cm_path meta}"]) (use f c rm in \<open>auto simp: files_ok_def rec_paths_def r(1)\<close>)
  moreover have "clips_ok v (rec_open r) (r\<lparr>rec_store := store, rec_fs := fs\<rparr>)"
    using ok c by (auto simp: rec_ok_def clips_ok_def r(1))
  ultimately show ?thesis using rm by (simp add: rec_ok_def removes_def)
qed

lemma clear_ok:
  assumes ok: "rec_ok e v (rec_open r) r" and d: "store_clear e (rec_store r) (rec_fs r) = (store, fs)"
  shows "rec_ok e v (rec_open r) (r\<lparr>rec_store := store, rec_fs := fs\<rparr>) \<and> set (fs_files fs) \<subseteq> set (fs_files (rec_fs r))"
proof -
  have rm: "removes e (cm_path ` set (cst_clips (rec_store r))) (rec_fs r) fs" and store: "store = (rec_store r)\<lparr>cst_clips := []\<rparr>"
    using d removes_clear [of e "cst_clips (rec_store r)" "rec_fs r"] by (auto simp: store_clear_def)
  have d: "distinct (map cm_path (cst_clips (rec_store r)) @ map (\<lambda>(_, clip). rcl_path clip) (rec_open r))"
    using ok by (simp add: rec_ok_def files_ok_def rec_paths_def)
  then have "set (rec_paths (rec_open r) r) - cm_path ` set (cst_clips (rec_store r)) = (\<lambda>(_, clip). rcl_path clip) ` set (rec_open r)"
    using disjoint_diff [of "cm_path ` set (cst_clips (rec_store r))" "{}" "(\<lambda>(_, clip). rcl_path clip) ` set (rec_open r)"]
    by (simp add: rec_paths_def)
  note paths = this
  have f: "files_ok e (rec_open r) r" using ok by (simp add: rec_ok_def)
  have "files_ok e (rec_open r) (r\<lparr>rec_store := store, rec_fs := fs\<rparr>)"
    by (rule files_ok_removes [OF f, of "cm_path ` set (cst_clips (rec_store r))"])
      (use d rm paths in \<open>simp_all add: rec_paths_def store\<close>)
  moreover have "clips_ok v (rec_open r) (r\<lparr>rec_store := store, rec_fs := fs\<rparr>)"
    using ok by (auto simp: rec_ok_def clips_ok_def store)
  ultimately show ?thesis using rm by (simp add: rec_ok_def removes_def)
qed

lemma unique_path_dir [simp]: "fst (unique_path dir base ext fs) = dir"
  using unique_path_cases [of dir base ext fs] by auto

lemma store_export_files:
  assumes "store_export e i target store fs = (fs', res)"
  shows "set (fs_files fs') = set (fs_files fs) \<or>
    (\<exists>p. fst p = (case target of Some dir \<Rightarrow> dir | None \<Rightarrow> cst_saved_dir store) \<and> set (fs_files fs') = insert p (set (fs_files fs)))"
proof (cases "clip_get i store")
  case None
  with assms show ?thesis by (simp add: store_export_def)
next
  case (Some meta)
  define dir where "dir = (case target of Some dir \<Rightarrow> dir | None \<Rightarrow> cst_saved_dir store)"
  obtain fs1 ok1 where 1: "fs_answer (mkdir_ok e) dir fs = (fs1, ok1)" by (meson surj_pair)
  define p where "p = unique_path dir (''playback-'' @ decimal (system_time_to_unix_ms (cm_started_at meta)) @ ''-'' @
     (case cm_frequency meta of Some freq \<Rightarrow> format_frequency_mhz freq @ ''-'' | None \<Rightarrow> []) @
     sanitize (join_callsigns (cm_callsigns meta))) ''wav'' fs1"
  obtain fs2 ok2 where 2: "fs_answer (copy_ok e) p fs1 = (fs2, ok2)" by (meson surj_pair)
  have "fs' \<in> {fs1, fs2, fs_add p fs2}"
    using assms Some 1 2 by (auto simp: store_export_def dir_def [symmetric] p_def Let_def split: if_splits)
  then have "set (fs_files fs') = set (fs_files fs) \<or> set (fs_files fs') = insert p (set (fs_files fs))"
    using fs_answer_eq [OF 1] fs_answer_eq [OF 2] by auto
  moreover have "fst p = dir" by (simp add: p_def)
  ultimately show ?thesis unfolding dir_def [symmetric] by blast
qed

lemma export_ok:
  assumes ok: "rec_ok e v (rec_open r) r" and d: "store_export e i None (rec_store r) (rec_fs r) = (fs, res)"
  shows "rec_ok e v (rec_open r) (r\<lparr>rec_fs := fs\<rparr>) \<and> card (set (fs_files fs)) \<le> card (set (fs_files (rec_fs r))) + 1"
proof -
  let ?r = "r\<lparr>rec_fs := fs\<rparr>"
  have *: "set (fs_files fs) = set (fs_files (rec_fs r)) \<or>
      (\<exists>p. fst p = cst_saved_dir (rec_store r) \<and> set (fs_files fs) = insert p (set (fs_files (rec_fs r))))"
    using store_export_files [OF d] by simp
  moreover have "cst_saved_dir (rec_store r) \<noteq> cst_root (rec_store r)" using ok by (simp add: rec_ok_def files_ok_def)
  ultimately have "clip_files ?r = clip_files r" by (auto simp: clip_files_def)
  moreover have f: "files_ok e (rec_open r) r" using ok by (simp add: rec_ok_def)
  ultimately have "files_ok e (rec_open r) ?r"
    by (intro files_ok_more [OF f]) (simp_all add: rec_paths_def)
  moreover have "card (set (fs_files fs)) \<le> card (set (fs_files (rec_fs r))) + 1"
    using * by (auto simp: card_insert_if)
  ultimately show ?thesis using ok by (simp add: rec_ok_def clips_ok_def)
qed

lemma recorder_exec_ok:
  fixes op :: "'f recorder_op"
  assumes inv: "fsm_inv f" and ok: "rec_ok e (clip_view f) (rec_open r) r" and n: "unat (fsm_next_clip_id f) < 2 ^ 64 - 1"
    and room: "card (set (fs_files (rec_fs r))) < u32_max" and x: "recorder_exec e op (f, r) = (f', r')"
  shows "fsm_inv f' \<and> rec_ok e (clip_view f') (rec_open r') r' \<and> unat (fsm_next_clip_id f') \<le> unat (fsm_next_clip_id f) + 1 \<and>
    card (set (fs_files (rec_fs r'))) \<le> card (set (fs_files (rec_fs r))) + 1"
proof (cases op)
  case (Record y)
  obtain f1 as where y: "fsm_exec y f = (f1, as)" by (meson surj_pair)
  have fl: "follows f (f1, as)" using follows_exec [OF inv n, of y] y by simp
  have o: "opens as \<le> 1" using exec_opens [of y f] y by simp
  have "rec_ok e (clip_view f1) (rec_open (apply_actions e as r)) (apply_actions e as r) \<and>
    card (set (fs_files (rec_fs (apply_actions e as r)))) \<le> card (set (fs_files (rec_fs r))) + opens as"
  proof (rule apply_actions_ok [OF ok])
    show "i < snd (clip_view f)" if "i \<in> fst (clip_view f)" for i using inv that by (simp add: clip_view_def fsm_inv_def)
    show "clip_play as (clip_view f) = Some (clip_view f1)" using fl by (simp add: follows_def)
  qed (use o n room in \<open>simp_all add: clip_view_def\<close>)
  with fl o x y Record show ?thesis by (auto simp: follows_def)
next
  case (DeleteClip i)
  obtain store fs res where d: "store_delete e i (rec_store r) (rec_fs r) = (store, fs, res)" by (meson prod_cases3)
  with x DeleteClip have r': "f' = f" "r' = r\<lparr>rec_store := store, rec_fs := fs\<rparr>" by auto
  from delete_ok [OF ok d] inv card_mono [of "set (fs_files (rec_fs r))" "set (fs_files fs)"] show ?thesis by (simp add: r')
next
  case ClearClips
  obtain store fs where d: "store_clear e (rec_store r) (rec_fs r) = (store, fs)" by (meson surj_pair)
  with x ClearClips have r': "f' = f" "r' = r\<lparr>rec_store := store, rec_fs := fs\<rparr>" by auto
  from clear_ok [OF ok d] inv card_mono [of "set (fs_files (rec_fs r))" "set (fs_files fs)"] show ?thesis by (simp add: r')
next
  case (ExportClip i)
  obtain fs res where d: "store_export e i None (rec_store r) (rec_fs r) = (fs, res)" by (meson surj_pair)
  with x ExportClip have r': "f' = f" "r' = r\<lparr>rec_fs := fs\<rparr>" by auto
  from export_ok [OF ok d] inv show ?thesis by (simp add: r')
qed

lemma recorder_run_ok:
  assumes "fsm_inv f" "rec_ok e (clip_view f) (rec_open r) r" "unat (fsm_next_clip_id f) + length ops \<le> 2 ^ 64 - 1"
    "card (set (fs_files (rec_fs r))) + length ops \<le> u32_max" "run (recorder_exec e) ops (f, r) = (f', r')"
  shows "fsm_inv f' \<and> rec_ok e (clip_view f') (rec_open r') r'"
  using assms
proof (induction ops arbitrary: f r)
  case (Cons op ops)
  obtain f1 r1 where x: "recorder_exec e op (f, r) = (f1, r1)" by (meson surj_pair)
  have "unat (fsm_next_clip_id f) < 2 ^ 64 - 1" "card (set (fs_files (rec_fs r))) < u32_max"
    using Cons.prems(3,4) by simp_all
  from recorder_exec_ok [OF Cons.prems(1,2) this x] Cons.IH [of f1 r1] Cons.prems(3-5) x show ?case by simp
qed simp

section \<open>Starting and stopping\<close>

lemma removes_fold:
  "removes e {p \<in> set ps. P p} fs (fold (\<lambda>p fs. if P p then fst (fs_remove_file e p fs) else fs) ps fs)"
proof (induction ps arbitrary: fs)
  case (Cons p ps)
  have "removes e (if P p then {p} else {}) fs (if P p then fst (fs_remove_file e p fs) else fs)"
    by (simp add: removes_remove_file removes_none)
  from removes_trans [OF this Cons] have "removes e ((if P p then {p} else {}) \<union> {p \<in> set ps. P p}) fs
      (fold (\<lambda>p fs. if P p then fst (fs_remove_file e p fs) else fs) (p # ps) fs)"
    by simp
  also have "(if P p then {p} else {}) \<union> {p \<in> set ps. P p} = {q \<in> set (p # ps). P q}" by auto
  finally show ?case .
qed (simp add: removes_none)

lemma clip_store_open_eq:
  assumes "clip_store_open e root max_clips fs = (fs', Inr store)"
  shows "store = \<lparr>cst_root = root, cst_saved_dir = root @ ''/saved'', cst_max_clips = max_clips, cst_clips = []\<rparr>"
    "removes e {p \<in> set (fs_files fs). fst p = root \<and> is_clip_file (snd p)} fs fs'"
proof -
  obtain fs1 b1 where 1: "fs_answer (mkdir_ok e) root fs = (fs1, b1)" by (meson surj_pair)
  obtain fs2 b2 where 2: "fs_answer (mkdir_ok e) (root @ ''/saved'') fs1 = (fs2, b2)" by (meson surj_pair)
  obtain fs3 b3 where 3: "fs_answer (read_dir_ok e) root fs2 = (fs3, b3)" by (meson surj_pair)
  have files: "fs_files fs3 = fs_files fs" using fs_answer_eq [OF 1] fs_answer_eq [OF 2] fs_answer_eq [OF 3] by simp
  have out: "store = \<lparr>cst_root = root, cst_saved_dir = root @ ''/saved'', cst_max_clips = max_clips, cst_clips = []\<rparr> \<and>
    fs' = fold (\<lambda>p fs. if fst p = root \<and> is_clip_file (snd p) then fst (fs_remove_file e p fs) else fs) (fs_files fs3) fs3"
    using assms 1 2 3 by (auto simp: clip_store_open_def Let_def split: if_splits)
  then show "store = \<lparr>cst_root = root, cst_saved_dir = root @ ''/saved'', cst_max_clips = max_clips, cst_clips = []\<rparr>" by simp
  from out removes_fold [of e "fs_files fs3" "\<lambda>p. fst p = root \<and> is_clip_file (snd p)" fs3]
  show "removes e {p \<in> set (fs_files fs). fst p = root \<and> is_clip_file (snd p)} fs fs'"
    by (auto simp: files intro: removes_cong)
qed

lemma recorder_spawn_ok:
  assumes "recorder_spawn e config clip_dir fs = (fs', Inr r)"
  shows "rec_ok e ({}, 1) (rec_open r) r" "rec_fs r = fs'" "cst_max_clips (rec_store r) = pc_max_clips config"
    "cst_root (rec_store r) = clip_dir"
proof -
  obtain store where o: "clip_store_open e clip_dir (pc_max_clips config) fs = (fs', Inr store)"
    and r: "r = \<lparr>rec_store = store, rec_open = [], rec_fs = fs', rec_emitted = []\<rparr>"
    using assms by (auto simp: recorder_spawn_def split: prod.splits sum.splits)
  note s = clip_store_open_eq [OF o]
  have "tidy e \<Longrightarrow> clip_files r = {}" using s by (auto simp: clip_files_def r removes_def)
  then show "rec_ok e ({}, 1) (rec_open r) r" using s(1) by (auto simp: rec_ok_def files_ok_def clips_ok_def rec_paths_def r)
  show "rec_fs r = fs'" "cst_max_clips (rec_store r) = pc_max_clips config" "cst_root (rec_store r) = clip_dir"
    using s(1) by (simp_all add: r)
qed

definition same_place :: "recorder \<Rightarrow> recorder \<Rightarrow> bool" where
  "same_place r r' \<longleftrightarrow> cst_max_clips (rec_store r') = cst_max_clips (rec_store r) \<and> cst_root (rec_store r') = cst_root (rec_store r)"

lemma same_place_finish: "same_place r (finish_clip e i ended_at duration_ms clip r)"
proof -
  obtain fs res where f: "finalize_clip e i ended_at duration_ms clip (rec_fs r) = (fs, res)" by (meson surj_pair)
  show ?thesis
  proof (cases res)
    case (Inr meta)
    obtain store fs' evicted where c: "commit e meta (rec_store r) fs = (store, fs', evicted)" by (meson prod_cases3)
    from commit_eq(4,6) [OF c] f Inr c show ?thesis by (simp add: same_place_def finish_clip_def)
  qed (use f in \<open>auto simp: same_place_def finish_clip_def split: prod.splits\<close>)
qed

lemma same_place_action: "same_place r (apply_action e a r)"
proof (cases a)
  case (CloseClip cl)
  then show ?thesis
    using same_place_finish [of "r\<lparr>rec_open := hm_remove (cl_clip_id cl) (rec_open r)\<rparr>"]
    by (auto simp: apply_action_def same_place_def split: option.splits)
qed (auto simp: apply_action_def same_place_def Let_def split: option.splits prod.splits sum.splits)

lemma same_place_fold: "(\<And>x r. same_place r (g x r)) \<Longrightarrow> same_place r (fold g xs r)"
  by (rule fold_inv [where P = "same_place r"]) (auto simp: same_place_def)

lemma same_place_exec: "recorder_exec e op (f, r) = (f', r') \<Longrightarrow> same_place r r'"
  by (cases op)
    (auto simp: apply_actions_def same_place_fold same_place_action store_delete_def store_clear_def Let_def
       split: prod.splits option.splits if_splits, auto simp: same_place_def)

lemma same_place_run: "run (recorder_exec e) ops (f, r) = (f', r') \<Longrightarrow> same_place r r'"
proof (induction ops arbitrary: f r)
  case (Cons op ops)
  obtain f1 r1 where x: "recorder_exec e op (f, r) = (f1, r1)" by (meson surj_pair)
  with Cons same_place_exec [OF x] show ?case by (auto simp: same_place_def)
qed (simp add: same_place_def)

lemma shutdown_ok:
  "rec_ok e v tbl r \<Longrightarrow> (\<And>i. i \<in> fst v \<Longrightarrow> i < snd v) \<Longrightarrow>
   \<exists>v'. rec_ok e v' [] (fold (\<lambda>(clip_id, clip). finish_clip e clip_id None None clip) tbl r)"
proof (induction tbl arbitrary: v r)
  case (Cons p tbl)
  obtain i clip where p: "p = (i, clip)" by (cases p)
  have "hm_ok (p # tbl)" "i \<in> fst v" using Cons.prems(1) p by (auto simp: rec_ok_def clips_ok_def)
  then have "hm_remove i (p # tbl) = tbl" by (auto simp: p hm_remove_absent map_of_eq_None_iff)
  with finish_clip_ok [OF Cons.prems(1), of i clip clip None None] Cons.prems(2) \<open>i \<in> fst v\<close>
  have "rec_ok e (fst v - {i}, snd v) tbl (finish_clip e i None None clip r)" by (simp add: p)
  from Cons.IH [OF this] Cons.prems(2) show ?case by (simp add: p)
qed auto

lemma recorder_reachable_ok:
  assumes "recorder_spawn e config clip_dir fs = (fs0, Inr r0)"
    and "card (set (fs_files fs0)) + length ops < 2 ^ 32 - 1"
    and "run (recorder_exec e) ops (fsm_new config mode, r0) = (f, r)"
  shows "fsm_inv f" "rec_ok e (clip_view f) (rec_open r) r" "same_place r0 r"
proof -
  note r0 = recorder_spawn_ok [OF assms(1)]
  have "rec_ok e (clip_view (fsm_new config mode)) (rec_open r0) r0" using r0(1) by (simp add: clip_view_new)
  from recorder_run_ok [OF fsm_inv_new this _ _ assms(3)] assms(2)
  show "fsm_inv f" "rec_ok e (clip_view f) (rec_open r) r" by (simp_all add: fsm_new_def r0(2) u32_max_def)
  show "same_place r0 r" by (rule same_place_run [OF assms(3)])
qed

text \<open>
  C17: Whatever the audio source, the user and the file system do, the store of a running recorder holds
  at most the configured number of clips, no two of them share an id or a file, the file of each
  exists, and no clip is being written that the segmentation machine has closed. Unless removing a
  file fails, the clip files in the directory are exactly those of the stored clips and of the
  clips being written. The bound on the number of files and operations keeps the numeric suffixes
  of file names from running out.
\<close>

theorem recorder_store_sound:
  assumes "recorder_spawn e config clip_dir fs = (fs0, Inr r0)"
    and "card (set (fs_files fs0)) + length ops < 2 ^ 32 - 1"
    and "run (recorder_exec e) ops (fsm_new config mode, r0) = (f, r)"
  shows "length (store_list (rec_store r)) \<le> pc_max_clips config \<and>
    distinct (map cm_id (store_list (rec_store r))) \<and> distinct (map cm_path (store_list (rec_store r))) \<and>
    cm_path ` set (store_list (rec_store r)) \<subseteq> set (fs_files (rec_fs r)) \<and>
    set (hm_keys (rec_open r)) \<subseteq> ran (open_id f) \<and>
    ((\<forall>n p. remove_ok e n p) \<longrightarrow>
       {p \<in> set (fs_files (rec_fs r)). fst p = clip_dir \<and> is_clip_file (snd p)} =
         cm_path ` set (store_list (rec_store r)) \<union> rcl_path ` set (hm_values (rec_open r)))"
proof -
  note ok = recorder_reachable_ok [OF assms] and r0 = recorder_spawn_ok [OF assms(1)]
  have "(\<lambda>(_, clip). rcl_path clip) ` set (rec_open r) = rcl_path ` set (hm_values (rec_open r))"
    by (force simp: hm_values_def)
  with ok r0 show ?thesis
    by (auto simp: rec_ok_def files_ok_def clips_ok_def rec_paths_def clip_files_def store_list_def same_place_def
        clip_view_def tidy_def rev_map [symmetric])
qed

definition demo_io :: io_env where
  "demo_io =
     \<lparr>create_ok = (\<lambda>_ _. True), create_leaves_file = (\<lambda>_ _. True), sample_ok = (\<lambda>_ _. True), finalize_ok = (\<lambda>_ _. True),
      remove_ok = (\<lambda>_ _. True), mkdir_ok = (\<lambda>_ _. True), read_dir_ok = (\<lambda>_ _. True), copy_ok = (\<lambda>_ _. True),
      as_khz = (\<lambda>f. decimal (unat f div 1000))\<rparr>"

definition demo_recorder :: recorder where
  "demo_recorder =
     \<lparr>rec_store = \<lparr>cst_root = ''clips'', cst_saved_dir = ''clips/saved'', cst_max_clips = 15, cst_clips = []\<rparr>,
      rec_open = [], rec_fs = \<lparr>fs_files = [(''clips'', ''notes.txt'')], fs_clock = 4\<rparr>, rec_emitted = []\<rparr>"

lemma demo_recorder_spawn:
  "recorder_spawn demo_io playback_config_default ''clips''
     \<lparr>fs_files = [(''clips'', ''notes.txt''), (''clips'', ''clip-7-headset.wav'')], fs_clock = 0\<rparr> =
   (rec_fs demo_recorder, Inr demo_recorder)"
  by (simp add: recorder_spawn_def clip_store_open_def fs_answer_def fs_remove_file_def fs_exists_def hs_remove_def
      is_clip_file_def demo_recorder_def playback_config_default_def demo_io_def)

theorem recorder_store_sound_witness:
  "\<exists>f r. run (recorder_exec demo_io) (map Record demo_playback) (fsm_new playback_config_default PerTap, demo_recorder) = (f, r) \<and>
     map cm_id (store_list (rec_store r)) = [1] \<and>
     {p \<in> set (fs_files (rec_fs r)). fst p = ''clips'' \<and> is_clip_file (snd p)} =
       cm_path ` set (store_list (rec_store r)) \<union> rcl_path ` set (hm_values (rec_open r))"
proof -
  obtain f r where x: "run (recorder_exec demo_io) (map Record demo_playback) (fsm_new playback_config_default PerTap, demo_recorder) = (f, r)"
    by (meson surj_pair)
  have "map cm_id (store_list (rec_store (snd (run (recorder_exec demo_io) (map Record demo_playback)
      (fsm_new playback_config_default PerTap, demo_recorder))))) = [1]"
    by code_simp
  then have "map cm_id (store_list (rec_store r)) = [1]" unfolding x by simp
  moreover have "card (set (fs_files (rec_fs demo_recorder))) + length (map Record demo_playback) < 2 ^ 32 - 1"
    by (simp add: demo_recorder_def demo_playback_def)
  ultimately show ?thesis
    using recorder_store_sound [OF demo_recorder_spawn _ x] x by (simp add: demo_io_def)
qed

text \<open>
  C38: Stopping a recorder finishes every clip that is still being written: none stays open, and, unless
  removing a file fails, the clip files left in the directory are exactly those of the stored clips.
\<close>

theorem recorder_shutdown_complete:
  assumes "recorder_spawn e config clip_dir fs = (fs0, Inr r0)"
    and "card (set (fs_files fs0)) + length ops < 2 ^ 32 - 1"
    and "run (recorder_exec e) ops (fsm_new config mode, r0) = (f, r)"
  shows "rec_open (recorder_shutdown e r) = [] \<and>
    length (store_list (rec_store (recorder_shutdown e r))) \<le> pc_max_clips config \<and>
    cm_path ` set (store_list (rec_store (recorder_shutdown e r))) \<subseteq> set (fs_files (rec_fs (recorder_shutdown e r))) \<and>
    ((\<forall>n p. remove_ok e n p) \<longrightarrow>
       {p \<in> set (fs_files (rec_fs (recorder_shutdown e r))). fst p = clip_dir \<and> is_clip_file (snd p)} =
         cm_path ` set (store_list (rec_store (recorder_shutdown e r))))"
proof -
  note ok = recorder_reachable_ok [OF assms] and r0 = recorder_spawn_ok [OF assms(1)]
  let ?r = "recorder_shutdown e r"
  have "rec_ok e (clip_view f) (rec_open r) (r\<lparr>rec_open := []\<rparr>)" using ok(2) by simp
  moreover have "i < snd (clip_view f)" if "i \<in> fst (clip_view f)" for i
    using ok(1) that by (simp add: clip_view_def fsm_inv_def)
  ultimately obtain v where v: "rec_ok e v [] ?r" using shutdown_ok unfolding recorder_shutdown_def by blast
  have "same_place (r\<lparr>rec_open := []\<rparr>) ?r"
    unfolding recorder_shutdown_def by (rule same_place_fold) (auto intro: same_place_finish)
  moreover have "rec_open ?r = []" unfolding recorder_shutdown_def by (rule fold_inv) auto
  ultimately show ?thesis using v ok(3) r0
    by (auto simp: rec_ok_def files_ok_def clips_ok_def rec_paths_def clip_files_def store_list_def same_place_def tidy_def)
qed

theorem recorder_shutdown_complete_witness:
  "\<exists>f r. run (recorder_exec demo_io) (map Record (take 3 demo_playback)) (fsm_new playback_config_default PerTap, demo_recorder) = (f, r) \<and>
     hm_keys (rec_open r) = [1] \<and> rec_open (recorder_shutdown demo_io r) = [] \<and>
     {p \<in> set (fs_files (rec_fs (recorder_shutdown demo_io r))). fst p = ''clips'' \<and> is_clip_file (snd p)} =
       cm_path ` set (store_list (rec_store (recorder_shutdown demo_io r)))"
proof -
  obtain f r where x: "run (recorder_exec demo_io) (map Record (take 3 demo_playback)) (fsm_new playback_config_default PerTap, demo_recorder) = (f, r)"
    by (meson surj_pair)
  have "hm_keys (rec_open (snd (run (recorder_exec demo_io) (map Record (take 3 demo_playback))
      (fsm_new playback_config_default PerTap, demo_recorder)))) = [1]"
    by code_simp
  then have "hm_keys (rec_open r) = [1]" unfolding x by simp
  moreover have "card (set (fs_files (rec_fs demo_recorder))) + length (map Record (take 3 demo_playback)) < 2 ^ 32 - 1"
    by (simp add: demo_recorder_def demo_playback_def)
  ultimately show ?thesis
    using recorder_shutdown_complete [OF demo_recorder_spawn _ x] x by (simp add: demo_io_def)
qed

end
