(* ===== verification/PlaybackSources.thy ===== *)
theory PlaybackSources
  imports Playback
begin

text \<open>
  The forwarders that feed the playback recorder: the TrackAudio source
  (\<^verbatim>\<open>playback/source/track_audio.rs\<close>), which joins captured audio with the receive events of the
  radio, and the Audio for VATSIM source (\<^verbatim>\<open>playback/source/audio_for_vatsim.rs\<close>), which infers
  receive events from silence. Each is one step function per received event; sending to the
  recorder never fails while it runs. The lemmas say what a change of the routing does, that the
  inferred events alternate, and where the sources and the segmentation machine disagree.
\<close>

section \<open>The TrackAudio source\<close>

datatype 'f loopback_event =
    LoopbackOpened tap_id u32 u16
  | LoopbackClosed tap_id
  | LoopbackFrame tap_id "'f list" instant

text \<open>Events of the \<^verbatim>\<open>trackaudio\<close> crate the forwarder looks at; the others and a lagging receiver change nothing.\<close>

datatype radio_event =
    RadioRxBegin string radio_frequency
  | RadioRxEnd string radio_frequency "string list option"
  | StationStateUpdate "radio_frequency option" "bool option"
  | OtherRadioEvent
  | Lagged nat

type_synonym active_rx = "(transmitter, tap_id) hash_map"

definition forward_capture :: "'f loopback_event \<Rightarrow> 'f playback_source_event" where
  "forward_capture evt =
     (case evt of
        LoopbackOpened tap sample_rate channels \<Rightarrow> TapOpened tap sample_rate channels
      | LoopbackClosed tap \<Rightarrow> TapClosed tap
      | LoopbackFrame tap samples captured_at \<Rightarrow> Frame tap samples captured_at)"

text \<open>The radio caches per frequency whether the station is routed to the headset.\<close>

definition headset_for_frequency :: "(radio_frequency, bool) hash_map \<Rightarrow> radio_frequency \<Rightarrow> bool option" where
  "headset_for_frequency stations frequency = hm_get stations frequency"

definition tap_for :: "(radio_frequency, bool) hash_map \<Rightarrow> radio_frequency \<Rightarrow> tap_id" where
  "tap_for stations frequency =
     (case headset_for_frequency stations frequency of Some True \<Rightarrow> Headset | Some False \<Rightarrow> Speaker | None \<Rightarrow> Headset)"

definition migrate_rx ::
  "radio_frequency \<Rightarrow> tap_id \<Rightarrow> string \<times> tap_id \<Rightarrow> active_rx \<times> 'f playback_source_event list \<Rightarrow> active_rx \<times> 'f playback_source_event list" where
  "migrate_rx frequency new_tap = (\<lambda>(callsign, old_tap) (active_rx, sent).
     (hm_insert \<lparr>tr_callsign = callsign, tr_frequency = frequency\<rparr> new_tap active_rx,
      sent @ [RxEnd callsign frequency None, RxBegin new_tap callsign frequency]))"

definition forward_radio ::
  "(radio_frequency, bool) hash_map \<Rightarrow> radio_event \<Rightarrow> active_rx \<Rightarrow> active_rx \<times> 'f playback_source_event list" where
  "forward_radio stations evt active_rx =
     (case evt of
        RadioRxBegin callsign frequency \<Rightarrow>
          (let tap = tap_for stations frequency
           in (hm_insert \<lparr>tr_callsign = callsign, tr_frequency = frequency\<rparr> tap active_rx, [RxBegin tap callsign frequency]))
      | RadioRxEnd callsign frequency active_transmitters \<Rightarrow>
          (hm_remove \<lparr>tr_callsign = callsign, tr_frequency = frequency\<rparr> active_rx,
           [RxEnd callsign frequency active_transmitters])
      | StationStateUpdate frequency headset \<Rightarrow>
          (case (frequency, headset) of
             (Some frequency, Some headset) \<Rightarrow>
               (let new_tap = (if headset then Headset else Speaker);
                    migrate = map (\<lambda>(t, old_tap). (tr_callsign t, old_tap))
                      (filter (\<lambda>(t, old_tap). tr_frequency t = frequency \<and> old_tap \<noteq> new_tap) active_rx)
                in fold (migrate_rx frequency new_tap) migrate (active_rx, []))
           | _ \<Rightarrow> (active_rx, []))
      | OtherRadioEvent \<Rightarrow> (active_rx, [])
      | Lagged n \<Rightarrow> (active_rx, []))"

fun forward_radio_all ::
  "(radio_frequency, bool) hash_map \<Rightarrow> radio_event list \<Rightarrow> active_rx \<Rightarrow> active_rx \<times> 'f playback_source_event list" where
  "forward_radio_all stations [] active_rx = (active_rx, [])"
| "forward_radio_all stations (evt # evts) active_rx =
     (let (active_rx, sent) = forward_radio stations evt active_rx;
          (active_rx, rest) = forward_radio_all stations evts active_rx
      in (active_rx, sent @ rest))"

section \<open>The Audio for VATSIM source\<close>

text \<open>The argument \<open>zero\<close> tests a sample for \<^verbatim>\<open>0.0\<close>.\<close>

definition is_starting :: "('f \<Rightarrow> bool) \<Rightarrow> 'f list \<Rightarrow> bool" where
  "is_starting zero samples \<longleftrightarrow> length (dropWhile zero samples) > 0"

definition is_ending :: "('f \<Rightarrow> bool) \<Rightarrow> 'f list \<Rightarrow> bool" where
  "is_ending zero samples \<longleftrightarrow> list_all zero (take 3 (rev samples))"

definition forward_afv ::
  "('f \<Rightarrow> bool) \<Rightarrow> 'f loopback_event \<Rightarrow> bool \<Rightarrow> bool \<times> 'f playback_source_event list" where
  "forward_afv zero evt receiving =
     (case evt of
        LoopbackFrame tap samples captured_at \<Rightarrow>
          if \<not> receiving \<and> is_starting zero samples
          then (True, [Frame tap samples captured_at, RxBegin Headset [] 0])
          else if receiving \<and> is_ending zero samples
          then (False, [Frame tap samples captured_at, RxEnd [] 0 None])
          else (receiving, [Frame tap samples captured_at])
      | _ \<Rightarrow> (receiving, [forward_capture evt]))"

fun forward_afv_all ::
  "('f \<Rightarrow> bool) \<Rightarrow> 'f loopback_event list \<Rightarrow> bool \<Rightarrow> bool \<times> 'f playback_source_event list" where
  "forward_afv_all zero [] receiving = (receiving, [])"
| "forward_afv_all zero (evt # evts) receiving =
     (let (receiving, sent) = forward_afv zero evt receiving;
          (receiving, rest) = forward_afv_all zero evts receiving
      in (receiving, sent @ rest))"

section \<open>Routing changes\<close>

lemma migrate_rx_fold:
  "fold (migrate_rx frequency new_tap) migrate (active_rx, sent) =
     (hm_extend (map (\<lambda>(callsign, _). (\<lparr>tr_callsign = callsign, tr_frequency = frequency\<rparr>, new_tap)) migrate) active_rx,
      sent @ concat (map (\<lambda>(callsign, _). [RxEnd callsign frequency None, RxBegin new_tap callsign frequency]) migrate))"
  by (induction migrate arbitrary: active_rx sent) (auto simp: migrate_rx_def hm_extend_def)

text \<open>
  When the routing of a frequency changes, every receiver active on it is moved to the new tap, no
  other receiver is touched, and the recorder is told the end and the new begin of exactly those
  that were on another tap.
\<close>

theorem routing_change_migrates:
  assumes "hm_ok active_rx" and "new_tap = (if headset then Headset else Speaker)"
    and "forward_radio stations (StationStateUpdate (Some frequency) (Some headset)) active_rx = (active_rx', sent)"
  shows "(\<forall>t. hm_get active_rx' t =
      (if tr_frequency t = frequency then map_option (\<lambda>_. new_tap) (hm_get active_rx t) else hm_get active_rx t)) \<and>
    set sent = {evt. \<exists>t tap. hm_get active_rx t = Some tap \<and> tr_frequency t = frequency \<and> tap \<noteq> new_tap \<and>
      evt \<in> {RxEnd (tr_callsign t) frequency None, RxBegin new_tap (tr_callsign t) frequency}}"
proof
  define mig where "mig = filter (\<lambda>(t, old_tap). tr_frequency t = frequency \<and> old_tap \<noteq> new_tap) active_rx"
  define kvs where "kvs = map (\<lambda>(t, _). (\<lparr>tr_callsign = tr_callsign t, tr_frequency = frequency\<rparr>, new_tap)) mig"
  have rx: "active_rx' = hm_extend kvs active_rx"
    and out: "sent = concat (map (\<lambda>(t, _). [RxEnd (tr_callsign t) frequency None, RxBegin new_tap (tr_callsign t) frequency]) mig)"
    using assms(2,3) by (auto simp: forward_radio_def migrate_rx_fold mig_def kvs_def comp_def case_prod_unfold Let_def)
  have mem: "(t, tap) \<in> set mig \<longleftrightarrow> hm_get active_rx t = Some tap \<and> tr_frequency t = frequency \<and> tap \<noteq> new_tap" for t tap
    using hm_get_iff [OF assms(1)] by (auto simp: mig_def)
  have "kvs = map (\<lambda>(t, _). (t, new_tap)) mig" unfolding kvs_def by (rule map_cong) (auto simp: mig_def)
  then have kv: "(t, tap) \<in> set kvs \<longleftrightarrow> tap = new_tap \<and> (\<exists>tap'. (t, tap') \<in> set mig)" for t tap
    by force
  show "\<forall>t. hm_get active_rx' t =
      (if tr_frequency t = frequency then map_option (\<lambda>_. new_tap) (hm_get active_rx t) else hm_get active_rx t)"
  proof
    fix t
    have "map_of (rev kvs) t = (if (t, new_tap) \<in> set (rev kvs) then Some new_tap else None)"
      using kv by (intro map_of_functional) simp
    then show "hm_get active_rx' t =
      (if tr_frequency t = frequency then map_option (\<lambda>_. new_tap) (hm_get active_rx t) else hm_get active_rx t)"
      using kv [of t new_tap] mem [of t] by (cases "hm_get active_rx t") (auto simp: rx hm_get_extend map_add_def)
  qed
  show "set sent = {evt. \<exists>t tap. hm_get active_rx t = Some tap \<and> tr_frequency t = frequency \<and> tap \<noteq> new_tap \<and>
      evt \<in> {RxEnd (tr_callsign t) frequency None, RxBegin new_tap (tr_callsign t) frequency}}"
    using mem unfolding out by (force split: prod.splits)
qed

theorem routing_change_migrates_witness:
  "\<exists>active_rx' sent. forward_radio [] (StationStateUpdate (Some 121500000) (Some False))
      [(\<lparr>tr_callsign = ''DLH1'', tr_frequency = 121500000\<rparr>, Headset)] = (active_rx', sent :: nat playback_source_event list) \<and>
    hm_get active_rx' \<lparr>tr_callsign = ''DLH1'', tr_frequency = 121500000\<rparr> = Some Speaker \<and>
    RxBegin Speaker ''DLH1'' 121500000 \<in> set sent"
proof -
  let ?rx = "[(\<lparr>tr_callsign = ''DLH1'', tr_frequency = 121500000\<rparr>, Headset)]"
  obtain active_rx' sent where x: "forward_radio [] (StationStateUpdate (Some 121500000) (Some False)) ?rx =
      (active_rx', sent :: nat playback_source_event list)"
    by (meson surj_pair)
  from routing_change_migrates [OF _ refl x] show ?thesis by (auto simp: x)
qed

section \<open>Receivers that are missed\<close>

definition phantom_events :: "nat playback_source_event list" where
  "phantom_events = snd (forward_radio_all []
     [RadioRxBegin ''DLH1'' 121500000, RadioRxBegin ''DLH2'' 121500000, Lagged 1,
      RadioRxEnd ''DLH1'' 121500000 (Some []), StationStateUpdate (Some 121500000) (Some False)] [])"

definition phantom_fsm :: fsm where
  "phantom_fsm = fst (fsm_run (map (\<lambda>evt. SourceEvent evt 0 0)
       ([TapOpened Headset 48000 1, TapOpened Speaker 48000 1] @ phantom_events)) (fsm_new playback_config_default PerTap))"

definition phantom_clip :: open_clip where
  "phantom_clip =
     \<lparr>oc_clip_id = 2, oc_started_at = 0, oc_started_at_wall = 0, oc_last_audio_at = 0,
      oc_transmitters = [\<lparr>tr_callsign = ''DLH2'', tr_frequency = 121500000\<rparr>], oc_callsigns = [''DLH2''],
      oc_frequency = Some 121500000\<rparr>"

lemma phantom_fsm_speaker:
  "hm_get (fsm_taps phantom_fsm) Speaker = Some \<lparr>ts_sample_rate = 48000, ts_channels = 1, ts_open = Some phantom_clip\<rparr>"
  "hm_ok (fsm_taps phantom_fsm)"
  by code_simp+

text \<open>
  An end of transmission that names the transmitters still active clears the others from every open
  clip, but the TrackAudio source forgets only the one that ended. When the end of another one was
  lost, a later change of the routing begins it again: the clip this opens has a transmitter nobody
  ends, so no tick closes it, however late.
\<close>

theorem phantom_transmitter:
  "open_id phantom_fsm Speaker = Some 2 \<and>
   (\<forall>now now_wall. open_id (fst (tick now now_wall phantom_fsm :: fsm \<times> nat fsm_action list)) Speaker = Some 2)"
proof (intro conjI allI)
  show "open_id phantom_fsm Speaker = Some 2" by (simp add: open_id_def phantom_fsm_speaker phantom_clip_def)
  fix now now_wall
  obtain taps actions where t: "tick_taps (fsm_hangover phantom_fsm) now now_wall (fsm_taps phantom_fsm) = (taps, actions :: nat fsm_action list)"
    by (meson surj_pair)
  have "hm_get taps Speaker = Some \<lparr>ts_sample_rate = 48000, ts_channels = 1, ts_open = Some phantom_clip\<rparr>"
    using tick_taps_clip [OF phantom_fsm_speaker(2,1) _ t, of phantom_clip] by (simp add: should_close_def phantom_clip_def)
  then show "open_id (fst (tick now now_wall phantom_fsm :: fsm \<times> nat fsm_action list)) Speaker = Some 2"
    by (simp add: tick_def t open_id_def phantom_clip_def)
qed

text \<open>
  The frame in which the Audio for VATSIM source hears a transmission begin is forwarded before the
  begin itself, so a machine without an open clip drops it: the recording starts with the next frame.
\<close>

theorem afv_onset_dropped:
  assumes "is_starting zero samples" and "fsm_mode f = Mixed" and "hm_get (fsm_taps f) Merged = Some entry"
    and "ts_open entry = None" and "forward_afv zero (LoopbackFrame Merged samples captured_at) False = (receiving, sent)"
    and "fsm_run (map (\<lambda>evt. SourceEvent evt now now_wall) sent) f = (f', actions)"
  shows "receiving \<and> (\<exists>op. actions = [OpenClip op])"
  using assms by (auto simp: forward_afv_def on_event_def on_frame_def on_rx_begin_def map_tap_def Let_def)

text \<open>The receive events the Audio for VATSIM source infers alternate, and the flag tells the last one.\<close>

fun rx_alternate :: "bool \<Rightarrow> 'f playback_source_event list \<Rightarrow> bool option" where
  "rx_alternate receiving [] = Some receiving"
| "rx_alternate receiving (RxBegin _ _ _ # evts) = (if receiving then None else rx_alternate True evts)"
| "rx_alternate receiving (RxEnd _ _ _ # evts) = (if receiving then rx_alternate False evts else None)"
| "rx_alternate receiving (_ # evts) = rx_alternate receiving evts"

lemma rx_alternate_append: "rx_alternate r (xs @ ys) = Option.bind (rx_alternate r xs) (\<lambda>r'. rx_alternate r' ys)"
  by (induction r xs rule: rx_alternate.induct) auto

lemma forward_afv_alternates:
  "forward_afv_all zero evts receiving = (receiving', sent) \<Longrightarrow> rx_alternate receiving sent = Some receiving'"
proof (induction evts arbitrary: receiving sent)
  case (Cons evt evts)
  obtain r1 s1 where 1: "forward_afv zero evt receiving = (r1, s1)" by (meson surj_pair)
  obtain r2 s2 where 2: "forward_afv_all zero evts r1 = (r2, s2)" by (meson surj_pair)
  have "rx_alternate receiving s1 = Some r1"
    using 1 by (cases evt) (auto simp: forward_afv_def forward_capture_def split: if_splits)
  with Cons 1 2 show ?case by (auto simp: rx_alternate_append)
qed simp

end
