(* ===== verification/Keybinds.thy ===== *)
theory Keybinds
  imports Prelude
begin

text \<open>
  The keybind engine of the client (\<^verbatim>\<open>vacs-client/src/keybinds.rs\<close>,
  \<^verbatim>\<open>vacs-client/src/keybinds/engine.rs\<close>): which trigger keys the radio and the call microphone, and
  what every key event and every change of the call state does to them. The state is the set of
  atomic flags of the engine together with what it last told the radio and the microphone. Key
  codes and the platform's listener are parameters. A key event takes three
  steps, the reading of the flags, the call to the radio and the last writing of the flags, because
  other tasks may change a flag in between. The main theorem allows such changes as long as they are
  \<open>calm\<close>; \<open>interrupted_press_sticks\<close> shows what one that is not calm does.
\<close>

section \<open>Triggers and configuration\<close>

record joystick_button =
  jb_device :: string
  jb_button :: u32
  jb_name :: "string option"

datatype input_code = KeyCode string | Button joystick_button

datatype portal_action =
  PortalPushToTalk | PortalPushToMute | PortalRadioPushToTalk | PortalCallControl | PortalToggleRadioPrio | PortalSayAgain

datatype trigger = Input input_code | Portal portal_action

text \<open>The display name of a device does not take part in comparisons.\<close>

fun input_eq :: "input_code \<Rightarrow> input_code \<Rightarrow> bool" where
  "input_eq (KeyCode a) (KeyCode b) = (a = b)"
| "input_eq (Button a) (Button b) = (jb_device a = jb_device b \<and> jb_button a = jb_button b)"
| "input_eq _ _ = False"

fun trigger_eq :: "trigger \<Rightarrow> trigger \<Rightarrow> bool" where
  "trigger_eq (Input a) (Input b) = input_eq a b"
| "trigger_eq (Portal a) (Portal b) = (a = b)"
| "trigger_eq _ _ = False"

fun trigger_option_eq :: "trigger option \<Rightarrow> trigger option \<Rightarrow> bool" where
  "trigger_option_eq None None = True"
| "trigger_option_eq (Some a) (Some b) = trigger_eq a b"
| "trigger_option_eq _ _ = False"

datatype call_mic_mode = VoiceActivation | PushToTalk | PushToMute

record transmit_config =
  tc_call_mic_mode :: call_mic_mode
  tc_push_to_talk :: "input_code option"
  tc_push_to_mute :: "input_code option"
  tc_radio_push_to_talk :: "input_code option"

record keybinds_config =
  kc_accept_call :: "input_code option"
  kc_end_call :: "input_code option"
  kc_toggle_radio_prio :: "input_code option"
  kc_say_again :: "input_code option"

definition compose_wayland_trigger :: "portal_action option \<Rightarrow> input_code option \<Rightarrow> trigger option" where
  "compose_wayland_trigger portal configured =
     (case configured of Some (Button b) \<Rightarrow> Some (Input (Button b)) | _ \<Rightarrow> map_option Portal portal)"

definition configured_call_input :: "transmit_config \<Rightarrow> input_code option" where
  "configured_call_input c =
     (case tc_call_mic_mode c of VoiceActivation \<Rightarrow> None | PushToTalk \<Rightarrow> tc_push_to_talk c | PushToMute \<Rightarrow> tc_push_to_mute c)"

text \<open>The argument \<open>wayland\<close> says whether the platform is Linux on Wayland.\<close>

definition active_call_trigger :: "bool \<Rightarrow> transmit_config \<Rightarrow> trigger option" where
  "active_call_trigger wayland c =
     (if wayland
      then compose_wayland_trigger
             (case tc_call_mic_mode c of
                VoiceActivation \<Rightarrow> None | PushToTalk \<Rightarrow> Some PortalPushToTalk | PushToMute \<Rightarrow> Some PortalPushToMute)
             (configured_call_input c)
      else map_option Input (configured_call_input c))"

definition configured_radio_input :: "transmit_config \<Rightarrow> input_code option" where
  "configured_radio_input c =
     (case tc_call_mic_mode c of
        VoiceActivation \<Rightarrow> tc_radio_push_to_talk c
      | PushToTalk \<Rightarrow> (case tc_radio_push_to_talk c of Some i \<Rightarrow> Some i | None \<Rightarrow> tc_push_to_talk c)
      | PushToMute \<Rightarrow> tc_push_to_mute c)"

definition active_radio_trigger :: "bool \<Rightarrow> bool \<Rightarrow> transmit_config \<Rightarrow> trigger option" where
  "active_radio_trigger wayland enabled c =
     (if \<not> enabled then None
      else if wayland
      then compose_wayland_trigger
             (case tc_call_mic_mode c of
                VoiceActivation \<Rightarrow> Some PortalRadioPushToTalk
              | PushToTalk \<Rightarrow> Some PortalRadioPushToTalk
              | PushToMute \<Rightarrow> Some PortalPushToMute)
             (configured_radio_input c)
      else map_option Input (configured_radio_input c))"

definition radio_falls_back_to_call :: "bool \<Rightarrow> bool \<Rightarrow> transmit_config \<Rightarrow> bool" where
  "radio_falls_back_to_call wayland enabled c =
     (if enabled \<and> wayland \<and> tc_call_mic_mode c = PushToTalk
      then (case configured_radio_input c of Some (Button _) \<Rightarrow> False | _ \<Rightarrow> True)
      else False)"

definition select_trigger :: "bool \<Rightarrow> portal_action \<Rightarrow> input_code option \<Rightarrow> trigger option" where
  "select_trigger wayland portal configured =
     (if wayland then compose_wayland_trigger (Some portal) configured else map_option Input configured)"

section \<open>Held control keys\<close>

datatype key_state = Down | Up

record held_controls =
  hc_controls :: "trigger list"
  hc_held :: "trigger list"

definition held_controls_new :: "trigger option list \<Rightarrow> held_controls" where
  "held_controls_new controls = \<lparr>hc_controls = List.map_filter (\<lambda>t. t) controls, hc_held = []\<rparr>"

definition transition :: "trigger \<Rightarrow> key_state \<Rightarrow> held_controls \<Rightarrow> held_controls \<times> bool" where
  "transition t state h =
     (if \<not> list_ex (trigger_eq t) (hc_controls h) then (h, False)
      else case state of
             Down \<Rightarrow> if list_ex (trigger_eq t) (hc_held h) then (h, False) else (h\<lparr>hc_held := hc_held h @ [t]\<rparr>, True)
           | Up \<Rightarrow> (h\<lparr>hc_held := filter (\<lambda>held. \<not> trigger_eq held t) (hc_held h)\<rparr>, False))"

section \<open>The engine\<close>

text \<open>What the engine tells the rest of the client: the radio, the microphone and the frontend.\<close>

datatype engine_output = RadioTransmit bool | InputMuted bool | EmitImplicitRadioPrio bool | EmitRadioPrio bool | EmitSayAgain

record keybind_engine =
  ke_call_mic_mode :: call_mic_mode
  ke_call_trigger :: "trigger option"
  ke_radio_trigger :: "trigger option"
  ke_accept_call_trigger :: "trigger option"
  ke_end_call_trigger :: "trigger option"
  ke_toggle_radio_prio_trigger :: "trigger option"
  ke_say_again_trigger :: "trigger option"
  ke_radio_portal_fallback :: bool
  ke_running :: bool
  ke_held_controls :: held_controls
  ke_control_queue :: "trigger list"
  radio_follows_call :: bool
  call_pressed :: bool
  radio_pressed :: bool
  call_active :: bool
  radio_prio :: bool
  implicit_radio_prio :: bool
  radio_transmitting :: bool
  ke_out :: "engine_output list"

definition engine_emit :: "engine_output \<Rightarrow> keybind_engine \<Rightarrow> keybind_engine" where
  "engine_emit x k = k\<lparr>ke_out := ke_out k @ [x]\<rparr>"

definition engine_configure :: "bool \<Rightarrow> transmit_config \<Rightarrow> keybinds_config \<Rightarrow> bool \<Rightarrow> keybind_engine \<Rightarrow> keybind_engine" where
  "engine_configure wayland tc kc radio_integration_enabled k =
     k\<lparr>ke_call_mic_mode := tc_call_mic_mode tc,
       ke_call_trigger := active_call_trigger wayland tc,
       ke_radio_trigger := active_radio_trigger wayland radio_integration_enabled tc,
       ke_radio_portal_fallback := radio_falls_back_to_call wayland radio_integration_enabled tc,
       radio_follows_call := radio_falls_back_to_call wayland radio_integration_enabled tc,
       ke_accept_call_trigger := select_trigger wayland PortalCallControl (kc_accept_call kc),
       ke_end_call_trigger := select_trigger wayland PortalCallControl (kc_end_call kc),
       ke_toggle_radio_prio_trigger := select_trigger wayland PortalToggleRadioPrio (kc_toggle_radio_prio kc),
       ke_say_again_trigger := select_trigger wayland PortalSayAgain (kc_say_again kc)\<rparr>"

definition engine_new :: "bool \<Rightarrow> transmit_config \<Rightarrow> keybinds_config \<Rightarrow> bool \<Rightarrow> keybind_engine" where
  "engine_new wayland tc kc radio_integration_enabled =
     engine_configure wayland tc kc radio_integration_enabled
       \<lparr>ke_call_mic_mode = VoiceActivation, ke_call_trigger = None, ke_radio_trigger = None, ke_accept_call_trigger = None,
        ke_end_call_trigger = None, ke_toggle_radio_prio_trigger = None, ke_say_again_trigger = None,
        ke_radio_portal_fallback = False, ke_running = False, ke_held_controls = held_controls_new [], ke_control_queue = [],
        radio_follows_call = False, call_pressed = False, radio_pressed = False, call_active = False, radio_prio = False,
        implicit_radio_prio = False, radio_transmitting = False, ke_out = []\<rparr>"

text \<open>
  The argument \<open>bound\<close> is the listener's answer whether a radio shortcut is bound at the level of
  the operating system; without a listener there is none.
\<close>

definition refresh_radio_follows_call :: "bool option \<Rightarrow> keybind_engine \<Rightarrow> keybind_engine" where
  "refresh_radio_follows_call bound k =
     (if \<not> ke_radio_portal_fallback k \<or> call_pressed k \<or> radio_pressed k then k
      else k\<lparr>radio_follows_call := (bound \<noteq> Some True)\<rparr>)"

definition radio_shares_call_trigger :: "keybind_engine \<Rightarrow> bool" where
  "radio_shares_call_trigger k \<longleftrightarrow>
     ke_radio_trigger k \<noteq> None \<and> (trigger_option_eq (ke_radio_trigger k) (ke_call_trigger k) \<or> radio_follows_call k)"

definition any_button_trigger :: "keybind_engine \<Rightarrow> bool" where
  "any_button_trigger k \<longleftrightarrow>
     list_ex (\<lambda>t. case t of Some (Input (Button _)) \<Rightarrow> True | _ \<Rightarrow> False)
       [ke_call_trigger k, ke_radio_trigger k, ke_accept_call_trigger k, ke_end_call_trigger k,
        ke_toggle_radio_prio_trigger k, ke_say_again_trigger k]"

text \<open>
  Starting: \<open>listener\<close> is the keyboard listener's answer about the radio shortcut, \<open>None\<close> when it
  could not be started; \<open>joystick_ok\<close> whether the joystick service could be used.
\<close>

definition spawn_rx_loop :: "keybind_engine \<Rightarrow> keybind_engine" where
  "spawn_rx_loop k =
     (if ke_call_trigger k = None \<and> ke_accept_call_trigger k = None \<and> ke_end_call_trigger k = None \<and>
         ke_toggle_radio_prio_trigger k = None \<and> ke_say_again_trigger k = None \<and> ke_radio_trigger k = None
      then k
      else k\<lparr>ke_running := True, ke_control_queue := [],
              ke_held_controls := held_controls_new
                [ke_accept_call_trigger k, ke_end_call_trigger k, ke_toggle_radio_prio_trigger k, ke_say_again_trigger k]\<rparr>)"

definition engine_start :: "bool option \<Rightarrow> bool \<Rightarrow> keybind_engine \<Rightarrow> keybind_engine \<times> bool" where
  "engine_start listener joystick_ok k =
     (let has_controls = (ke_accept_call_trigger k \<noteq> None \<or> ke_end_call_trigger k \<noteq> None \<or>
            ke_toggle_radio_prio_trigger k \<noteq> None \<or> ke_say_again_trigger k \<noteq> None);
          any_button = any_button_trigger k
      in if ke_running k then (k, True)
         else if ke_call_trigger k = None \<and> ke_radio_trigger k = None \<and> \<not> has_controls then (k, True)
         else if listener = None \<and> \<not> any_button then (k, True)
         else if any_button \<and> \<not> joystick_ok \<and> listener = None then (k, False)
         else (spawn_rx_loop (refresh_radio_follows_call listener k), True))"

definition reset_input_state :: "keybind_engine \<Rightarrow> keybind_engine" where
  "reset_input_state k =
     (let k = k\<lparr>call_pressed := False, radio_pressed := False\<rparr>;
          k = (if radio_transmitting k then engine_emit (RadioTransmit False) (k\<lparr>radio_transmitting := False\<rparr>) else k)
      in engine_emit (InputMuted (ke_call_mic_mode k = PushToTalk)) k)"

definition engine_stop :: "keybind_engine \<Rightarrow> keybind_engine" where
  "engine_stop k = (if ke_running k then reset_input_state (k\<lparr>ke_running := False\<rparr>) else k)"

definition engine_set_config ::
  "bool \<Rightarrow> bool option \<Rightarrow> bool \<Rightarrow> transmit_config \<Rightarrow> keybinds_config \<Rightarrow> bool \<Rightarrow> keybind_engine \<Rightarrow> keybind_engine \<times> bool" where
  "engine_set_config wayland listener joystick_ok tc kc radio_integration_enabled k =
     engine_start listener joystick_ok
       (reset_input_state (engine_configure wayland tc kc radio_integration_enabled (engine_stop k)))"

definition set_call_active :: "bool \<Rightarrow> keybind_engine \<Rightarrow> keybind_engine" where
  "set_call_active active k =
     (let k = k\<lparr>call_active := active\<rparr>
      in if active
         then
           if radio_shares_call_trigger k \<and> radio_pressed k \<and> radio_transmitting k \<and> \<not> radio_prio k \<and>
              ke_call_mic_mode k \<noteq> VoiceActivation
           then engine_emit (EmitImplicitRadioPrio True) (k\<lparr>radio_prio := True, implicit_radio_prio := True\<rparr>)
           else k
         else engine_emit (EmitImplicitRadioPrio False) (k\<lparr>implicit_radio_prio := False, radio_prio := False\<rparr>))"

definition set_radio_prio :: "bool \<Rightarrow> keybind_engine \<Rightarrow> keybind_engine" where
  "set_radio_prio prio k =
     (let prev_prio = radio_prio k;
          k = k\<lparr>radio_prio := prio\<rparr>;
          k = (if \<not> prio \<and> prev_prio \<and> radio_pressed k then k\<lparr>implicit_radio_prio := True\<rparr> else k)
      in if ke_call_mic_mode k = VoiceActivation \<or> ke_call_mic_mode k = PushToMute \<and> \<not> call_pressed k
         then engine_emit (InputMuted prio) k
         else k)"

definition attach_input_muted :: "call_mic_mode \<Rightarrow> bool \<Rightarrow> bool \<Rightarrow> bool \<Rightarrow> bool \<Rightarrow> bool" where
  "attach_input_muted mode call_held radio_held prio separate_keys =
     (case mode of
        VoiceActivation \<Rightarrow> prio
      | PushToTalk \<Rightarrow> if separate_keys then \<not> call_held else \<not> call_held \<or> radio_held \<and> prio
      | PushToMute \<Rightarrow> call_held \<or> prio)"

definition should_attach_input_muted :: "keybind_engine \<Rightarrow> bool" where
  "should_attach_input_muted k =
     attach_input_muted (ke_call_mic_mode k) (call_pressed k) (radio_pressed k) (radio_prio k)
       (ke_radio_trigger k \<noteq> None \<and> \<not> radio_shares_call_trigger k)"

section \<open>Key events\<close>

definition classify_trigger :: "trigger \<Rightarrow> trigger option \<Rightarrow> trigger option \<Rightarrow> bool \<Rightarrow> bool \<times> bool" where
  "classify_trigger t call_trigger radio_trigger follows_call =
     (let is_call_key = trigger_option_eq call_trigger (Some t);
          is_radio_key = (if follows_call then is_call_key else trigger_option_eq radio_trigger (Some t))
      in (is_call_key, is_radio_key))"

text \<open>What the loop has read when it starts to act on a press or release.\<close>

record key_action =
  ka_key_down :: bool
  ka_is_call_key :: bool
  ka_is_radio_key :: bool
  ka_call_active :: bool
  ka_radio_prio :: bool
  ka_effective_prio :: bool

text \<open>The control key part: a press is queued for the control task unless three are waiting.\<close>

definition queue_control :: "trigger \<Rightarrow> key_state \<Rightarrow> keybind_engine \<Rightarrow> keybind_engine" where
  "queue_control t state k =
     (let (held, pressed) = transition t state (ke_held_controls k);
          k = k\<lparr>ke_held_controls := held\<rparr>
      in if pressed \<and> length (ke_control_queue k) < 3 then k\<lparr>ke_control_queue := ke_control_queue k @ [t]\<rparr> else k)"

definition key_event_read :: "bool option \<Rightarrow> trigger \<Rightarrow> key_state \<Rightarrow> keybind_engine \<Rightarrow> keybind_engine \<times> key_action option" where
  "key_event_read bound t state k =
     (let k = refresh_radio_follows_call bound (queue_control t state k);
          (is_call_key, is_radio_key) = classify_trigger t (ke_call_trigger k) (ke_radio_trigger k) (radio_follows_call k);
          key_down = (state = Down)
      in if \<not> is_call_key \<and> \<not> is_radio_key then (k, None)
         else if is_call_key \<and> call_pressed k = key_down then (k, None)
         else
           (let k = (if is_call_key then k\<lparr>call_pressed := key_down\<rparr> else k)
            in if is_radio_key \<and> radio_pressed k = key_down then (k, None)
               else
                 (let k = (if is_radio_key then k\<lparr>radio_pressed := key_down\<rparr> else k)
                  in (k, Some
                    \<lparr>ka_key_down = key_down, ka_is_call_key = is_call_key, ka_is_radio_key = is_radio_key,
                     ka_call_active = call_active k, ka_radio_prio = radio_prio k,
                     ka_effective_prio = (radio_prio k \<and> \<not> implicit_radio_prio k)\<rparr>))))"

definition mic_action :: "call_mic_mode \<Rightarrow> key_action \<Rightarrow> bool option" where
  "mic_action mode a =
     (case mode of
        VoiceActivation \<Rightarrow> None
      | PushToTalk \<Rightarrow> if ka_is_call_key a then Some (if ka_effective_prio a then True else \<not> ka_key_down a) else None
      | PushToMute \<Rightarrow> if ka_effective_prio a then None else Some (ka_key_down a))"

text \<open>The three parts of acting on a key: the radio, the microphone, and the end of an implicit priority.\<close>

definition apply_radio :: "key_action \<Rightarrow> keybind_engine \<Rightarrow> keybind_engine" where
  "apply_radio a k =
     (let separate = (ka_is_call_key a \<noteq> ka_is_radio_key a)
      in if ka_is_radio_key a \<and>
            (separate \<or> \<not> ka_call_active a \<or> ka_radio_prio a \<or> ke_call_mic_mode k \<noteq> PushToTalk)
         then engine_emit (RadioTransmit (ka_key_down a)) (k\<lparr>radio_transmitting := ka_key_down a\<rparr>)
         else k)"

definition apply_mic :: "key_action \<Rightarrow> keybind_engine \<Rightarrow> keybind_engine" where
  "apply_mic a k =
     (if ka_call_active a
      then case mic_action (ke_call_mic_mode k) a of Some muted \<Rightarrow> engine_emit (InputMuted muted) k | None \<Rightarrow> k
      else k)"

definition end_implicit_prio :: "key_action \<Rightarrow> keybind_engine \<Rightarrow> keybind_engine" where
  "end_implicit_prio a k =
     (if \<not> ka_key_down a \<and> ka_is_radio_key a \<and> implicit_radio_prio k
      then
        (let prio = radio_prio k; k = k\<lparr>implicit_radio_prio := False, radio_prio := False\<rparr>
         in if prio then engine_emit (EmitImplicitRadioPrio False) k
            else engine_emit (RadioTransmit False) (k\<lparr>radio_transmitting := False\<rparr>))
      else k)"

definition key_event_act :: "key_action \<Rightarrow> keybind_engine \<Rightarrow> keybind_engine" where
  "key_event_act a k = end_implicit_prio a (apply_mic a (apply_radio a k))"

definition key_event :: "bool option \<Rightarrow> trigger \<Rightarrow> key_state \<Rightarrow> keybind_engine \<Rightarrow> keybind_engine" where
  "key_event bound t state k =
     (case key_event_read bound t state k of (k, None) \<Rightarrow> k | (k, Some a) \<Rightarrow> key_event_act a k)"

section \<open>Control keys\<close>

datatype 'c call_request = RefreshIceConfig | RequestEndCall 'c | RequestAcceptCall

text \<open>
  The control task takes a queued trigger; \<open>current_call_id\<close> is the client's active or outgoing
  call. The requests go to the client's call handling.
\<close>

definition handle_control_event :: "'c option \<Rightarrow> trigger \<Rightarrow> keybind_engine \<Rightarrow> keybind_engine \<times> 'c call_request list" where
  "handle_control_event current_call_id t k =
     (let is_accept = trigger_option_eq (ke_accept_call_trigger k) (Some t);
          is_end = trigger_option_eq (ke_end_call_trigger k) (Some t);
          refresh = (if is_accept then [RefreshIceConfig] else [])
      in if is_accept \<and> is_end
         then (k, refresh @ (case current_call_id of Some call_id \<Rightarrow> [RequestEndCall call_id] | None \<Rightarrow> [RequestAcceptCall]))
         else if is_accept then (k, refresh @ [RequestAcceptCall])
         else if is_end then (k, case current_call_id of Some call_id \<Rightarrow> [RequestEndCall call_id] | None \<Rightarrow> [])
         else if trigger_option_eq (ke_toggle_radio_prio_trigger k) (Some t)
         then
           if call_active k
           then (let prio = \<not> (radio_prio k \<or> implicit_radio_prio k) in (engine_emit (EmitRadioPrio prio) (set_radio_prio prio k), []))
           else (k, [])
         else if trigger_option_eq (ke_say_again_trigger k) (Some t) then (engine_emit EmitSayAgain k, [])
         else (k, []))"

definition control_step :: "'c option \<Rightarrow> keybind_engine \<Rightarrow> keybind_engine \<times> 'c call_request list" where
  "control_step current_call_id k =
     (case ke_control_queue k of
        [] \<Rightarrow> (k, [])
      | t # ts \<Rightarrow> handle_control_event current_call_id t (k\<lparr>ke_control_queue := ts\<rparr>))"

section \<open>The event loop among the other tasks\<close>

text \<open>
  The flags are atomics shared with the tasks that handle calls and configurations, so a key event is
  not one step. The loop first takes the event and reads the flags, then notes that the radio transmits
  and tells it so, which waits for the radio's answer, and then sets the microphone and ends an implicit
  priority. Between these steps any other task may run; the flags one event reads are read together.
  Stopping the engine aborts the loop, which takes effect at a wait: what was begun is dropped or still
  carried out. The release that stopping sends to the radio counts as sent when it is handed to its own task.
\<close>

datatype loop_stage = AwaitKey | KeyRead key_action | RadioTold key_action

record key_loop =
  kl_engine :: keybind_engine
  kl_stage :: loop_stage
  kl_aborted :: bool

definition key_loop_new :: "bool \<Rightarrow> transmit_config \<Rightarrow> keybinds_config \<Rightarrow> bool \<Rightarrow> key_loop" where
  "key_loop_new wayland tc kc radio =
     \<lparr>kl_engine = engine_new wayland tc kc radio, kl_stage = AwaitKey, kl_aborted = False\<rparr>"

datatype engine_op =
    KeyEvent "bool option" trigger key_state
  | TellRadio
  | FinishKey
  | AbortLoop
  | CallActive bool
  | RadioPrio bool
  | ControlTask "nat option"
  | SetConfig bool "bool option" bool transmit_config keybinds_config bool
  | Start "bool option" bool
  | Stop

definition on_engine :: "(keybind_engine \<Rightarrow> keybind_engine) \<Rightarrow> key_loop \<Rightarrow> key_loop" where
  "on_engine f l = l\<lparr>kl_engine := f (kl_engine l)\<rparr>"

definition abort_loop :: "key_loop \<Rightarrow> key_loop" where
  "abort_loop l = (if ke_running (kl_engine l) \<and> kl_stage l \<noteq> AwaitKey then l\<lparr>kl_aborted := True\<rparr> else l)"

text \<open>The event loop only runs while the engine is started.\<close>

fun engine_exec :: "engine_op \<Rightarrow> key_loop \<Rightarrow> key_loop" where
  "engine_exec (KeyEvent bound t state) l =
     (if ke_running (kl_engine l) \<and> kl_stage l = AwaitKey
      then case key_event_read bound t state (kl_engine l) of
             (k, None) \<Rightarrow> l\<lparr>kl_engine := k\<rparr>
           | (k, Some a) \<Rightarrow> l\<lparr>kl_engine := k, kl_stage := KeyRead a\<rparr>
      else l)"
| "engine_exec TellRadio l =
     (case kl_stage l of
        KeyRead a \<Rightarrow> l\<lparr>kl_engine := apply_radio a (kl_engine l), kl_stage := RadioTold a\<rparr>
      | _ \<Rightarrow> l)"
| "engine_exec FinishKey l =
     (case kl_stage l of
        RadioTold a \<Rightarrow>
          l\<lparr>kl_engine := end_implicit_prio a (apply_mic a (kl_engine l)), kl_stage := AwaitKey, kl_aborted := False\<rparr>
      | _ \<Rightarrow> l)"
| "engine_exec AbortLoop l = (if kl_aborted l then l\<lparr>kl_stage := AwaitKey, kl_aborted := False\<rparr> else l)"
| "engine_exec (CallActive active) l = on_engine (set_call_active active) l"
| "engine_exec (RadioPrio prio) l = on_engine (set_radio_prio prio) l"
| "engine_exec (ControlTask call_id) l =
     (if ke_running (kl_engine l) then on_engine (\<lambda>k. fst (control_step call_id k)) l else l)"
| "engine_exec (SetConfig wayland listener joystick_ok tc kc radio) l =
     on_engine (\<lambda>k. fst (engine_set_config wayland listener joystick_ok tc kc radio k)) (abort_loop l)"
| "engine_exec (Start listener joystick_ok) l = on_engine (\<lambda>k. fst (engine_start listener joystick_ok k)) l"
| "engine_exec Stop l = on_engine engine_stop (abort_loop l)"

section \<open>The radio is on the air only while its key is held\<close>

text \<open>What the radio was last told.\<close>

fun on_air :: "engine_output list \<Rightarrow> bool" where
  "on_air [] = False"
| "on_air (x # xs) = (if list_ex (\<lambda>y. case y of RadioTransmit _ \<Rightarrow> True | _ \<Rightarrow> False) xs then on_air xs
     else case x of RadioTransmit b \<Rightarrow> b | _ \<Rightarrow> False)"

definition engine_inv :: "keybind_engine \<Rightarrow> bool" where
  "engine_inv k \<longleftrightarrow>
     on_air (ke_out k) = radio_transmitting k \<and> (radio_transmitting k \<longrightarrow> radio_pressed k) \<and>
     (radio_shares_call_trigger k \<longrightarrow> call_pressed k = radio_pressed k) \<and>
     (radio_transmitting k \<and> call_active k \<and> ke_call_mic_mode k = PushToTalk \<and> radio_shares_call_trigger k \<longrightarrow>
        radio_prio k \<or> implicit_radio_prio k) \<and>
     (ke_radio_portal_fallback k \<longrightarrow> ke_radio_trigger k \<noteq> None) \<and> (radio_follows_call k \<longrightarrow> ke_radio_portal_fallback k)"

lemma on_air_snoc [simp]: "on_air (xs @ [x]) = (case x of RadioTransmit b \<Rightarrow> b | _ \<Rightarrow> on_air xs)"
proof (induction xs)
  case (Cons y ys)
  then show ?case by (auto split: engine_output.splits)
qed (simp split: engine_output.splits)

lemma input_eq_sym: "input_eq a b = input_eq b a"
  by (cases a; cases b) auto

lemma input_eq_trans: "input_eq a b \<Longrightarrow> input_eq b c \<Longrightarrow> input_eq a c"
  by (cases a; cases b; cases c) auto

lemma trigger_eq_sym: "trigger_eq a b = trigger_eq b a"
  by (cases a; cases b) (auto simp: input_eq_sym)

lemma trigger_eq_trans: "trigger_eq a b \<Longrightarrow> trigger_eq b c \<Longrightarrow> trigger_eq a c"
  by (cases a; cases b; cases c) (auto intro: input_eq_trans)

lemma trigger_option_eq_simps [simp]:
  "trigger_option_eq o1 (Some t) \<longleftrightarrow> (\<exists>u. o1 = Some u \<and> trigger_eq u t)"
  by (cases o1) simp_all

text \<open>A key is the radio key and the call key at once exactly when the two share a trigger.\<close>

lemma classify_shared:
  assumes "engine_inv k" and "classify_trigger t (ke_call_trigger k) (ke_radio_trigger k) (radio_follows_call k) = (c, r)"
  shows "radio_shares_call_trigger k \<Longrightarrow> c = r" "\<not> radio_shares_call_trigger k \<Longrightarrow> r \<Longrightarrow> \<not> c"
proof -
  have follows: "radio_follows_call k \<Longrightarrow> radio_shares_call_trigger k"
    using assms(1) by (auto simp: engine_inv_def radio_shares_call_trigger_def)
  have eqs: "trigger_eq u t \<Longrightarrow> trigger_eq v t \<Longrightarrow> trigger_eq u v" "trigger_eq u v \<Longrightarrow> trigger_eq u t = trigger_eq v t" for u v
    by (meson trigger_eq_sym trigger_eq_trans)+
  show "c = r" if "radio_shares_call_trigger k"
    using that assms(2) eqs(2) by (cases "ke_call_trigger k") (auto simp: classify_trigger_def radio_shares_call_trigger_def Let_def split: if_splits)
  show "\<not> c" if "\<not> radio_shares_call_trigger k" "r"
    using that assms(2) eqs(1) follows by (auto simp: classify_trigger_def radio_shares_call_trigger_def Let_def split: if_splits)
qed

lemma shares_flags [simp]:
  "radio_shares_call_trigger (k\<lparr>call_pressed := a\<rparr>) = radio_shares_call_trigger k"
  "radio_shares_call_trigger (k\<lparr>radio_pressed := a\<rparr>) = radio_shares_call_trigger k"
  "radio_shares_call_trigger (k\<lparr>call_active := a\<rparr>) = radio_shares_call_trigger k"
  "radio_shares_call_trigger (k\<lparr>radio_prio := a\<rparr>) = radio_shares_call_trigger k"
  "radio_shares_call_trigger (k\<lparr>implicit_radio_prio := a\<rparr>) = radio_shares_call_trigger k"
  "radio_shares_call_trigger (k\<lparr>radio_transmitting := a\<rparr>) = radio_shares_call_trigger k"
  "radio_shares_call_trigger (k\<lparr>ke_out := out\<rparr>) = radio_shares_call_trigger k"
  "radio_shares_call_trigger (k\<lparr>ke_running := a\<rparr>) = radio_shares_call_trigger k"
  "radio_shares_call_trigger (k\<lparr>ke_control_queue := q\<rparr>) = radio_shares_call_trigger k"
  "radio_shares_call_trigger (k\<lparr>ke_held_controls := h\<rparr>) = radio_shares_call_trigger k"
  by (simp_all add: radio_shares_call_trigger_def)

lemma inv_set_call_active: "engine_inv k \<Longrightarrow> engine_inv (set_call_active active k)"
  by (auto simp: engine_inv_def set_call_active_def engine_emit_def Let_def)

lemma inv_set_radio_prio: "engine_inv k \<Longrightarrow> engine_inv (set_radio_prio prio k)"
  by (auto simp: engine_inv_def set_radio_prio_def engine_emit_def Let_def)

lemma inv_queue_control: "engine_inv k \<Longrightarrow> engine_inv (queue_control t state k)"
  by (auto simp: engine_inv_def queue_control_def Let_def split: prod.splits)

lemma inv_refresh: "engine_inv k \<Longrightarrow> engine_inv (refresh_radio_follows_call bound k)"
  by (auto simp: engine_inv_def refresh_radio_follows_call_def)

lemma key_event_eq:
  assumes "k1 = refresh_radio_follows_call bound (queue_control t state k)"
    and "classify_trigger t (ke_call_trigger k1) (ke_radio_trigger k1) (radio_follows_call k1) = (c, r)"
  shows "key_event bound t state k =
    (let d = (state = Down);
         k2 = (if c then k1\<lparr>call_pressed := d\<rparr> else k1);
         k3 = (if r then k2\<lparr>radio_pressed := d\<rparr> else k2)
     in if \<not> c \<and> \<not> r \<or> c \<and> call_pressed k1 = d then k1
        else if r \<and> radio_pressed k1 = d then k2
        else key_event_act \<lparr>ka_key_down = d, ka_is_call_key = c, ka_is_radio_key = r, ka_call_active = call_active k1,
               ka_radio_prio = radio_prio k1, ka_effective_prio = (radio_prio k1 \<and> \<not> implicit_radio_prio k1)\<rparr> k3)"
  using assms by (auto simp: key_event_def key_event_read_def Let_def)

lemma apply_mic_flags [simp]:
  "radio_transmitting (apply_mic a k) = radio_transmitting k" "radio_pressed (apply_mic a k) = radio_pressed k"
  "call_pressed (apply_mic a k) = call_pressed k" "call_active (apply_mic a k) = call_active k"
  "radio_prio (apply_mic a k) = radio_prio k" "implicit_radio_prio (apply_mic a k) = implicit_radio_prio k"
  "ke_call_mic_mode (apply_mic a k) = ke_call_mic_mode k" "ke_radio_trigger (apply_mic a k) = ke_radio_trigger k"
  "ke_radio_portal_fallback (apply_mic a k) = ke_radio_portal_fallback k"
  "radio_follows_call (apply_mic a k) = radio_follows_call k" "on_air (ke_out (apply_mic a k)) = on_air (ke_out k)"
  "radio_shares_call_trigger (apply_mic a k) = radio_shares_call_trigger k"
  by (simp_all add: apply_mic_def engine_emit_def split: option.split)

text \<open>Acting on what was just read keeps the invariant.\<close>

lemma key_event_act_ok:
  assumes inv: "engine_inv k1" and kinds: "radio_shares_call_trigger k1 \<Longrightarrow> c = r" "\<not> radio_shares_call_trigger k1 \<Longrightarrow> r \<Longrightarrow> \<not> c"
    and cr: "c \<or> r" and k3: "k3 = (if r then (if c then k1\<lparr>call_pressed := d\<rparr> else k1)\<lparr>radio_pressed := d\<rparr> else k1\<lparr>call_pressed := d\<rparr>)"
    and a: "a = \<lparr>ka_key_down = d, ka_is_call_key = c, ka_is_radio_key = r, ka_call_active = call_active k1,
      ka_radio_prio = radio_prio k1, ka_effective_prio = (radio_prio k1 \<and> \<not> implicit_radio_prio k1)\<rparr>"
  shows "engine_inv (key_event_act a k3)"
proof (cases "radio_shares_call_trigger k1")
  case True
  with kinds(1) cr have "c" "r" by simp_all
  with True inv show ?thesis
    unfolding k3 a key_event_act_def
    by (auto simp: engine_inv_def apply_radio_def end_implicit_prio_def engine_emit_def Let_def)
next
  case False
  with kinds(2) have "r \<Longrightarrow> \<not> c" by simp
  with False inv cr show ?thesis
    unfolding k3 a key_event_act_def
    by (cases r) (auto simp: engine_inv_def apply_radio_def end_implicit_prio_def engine_emit_def Let_def)
qed

lemma inv_key_event:
  assumes "engine_inv k"
  shows "engine_inv (key_event bound t state k)"
proof -
  define k1 where "k1 = refresh_radio_follows_call bound (queue_control t state k)"
  obtain c r where cr: "classify_trigger t (ke_call_trigger k1) (ke_radio_trigger k1) (radio_follows_call k1) = (c, r)" by (meson surj_pair)
  have inv: "engine_inv k1" unfolding k1_def by (intro inv_refresh inv_queue_control assms)
  note kinds = classify_shared [OF inv cr]
  note act = key_event_act_ok [OF inv kinds _ refl refl]
  have "engine_inv (k1\<lparr>call_pressed := d\<rparr>)" if "c" "r" "radio_pressed k1 = d" "call_pressed k1 \<noteq> d" for d
    using inv that kinds by (auto simp: engine_inv_def)
  then show ?thesis
    using inv act [where d = "state = Down"] unfolding key_event_eq [OF k1_def cr]
    by (cases c; cases r) (auto simp: Let_def)
qed

lemma inv_reset: "engine_inv k \<Longrightarrow> engine_inv (reset_input_state k)"
  by (auto simp: engine_inv_def reset_input_state_def engine_emit_def Let_def)

lemma inv_running: "engine_inv (k\<lparr>ke_running := b\<rparr>) = engine_inv k"
  by (simp add: engine_inv_def)

lemma inv_stop: "engine_inv k \<Longrightarrow> engine_inv (engine_stop k)"
  by (simp add: engine_stop_def inv_reset inv_running)

lemma stop_idle: "engine_inv k \<Longrightarrow> \<not> ke_running k \<longrightarrow> \<not> radio_pressed k \<Longrightarrow>
    \<not> radio_transmitting (engine_stop k) \<and> \<not> on_air (ke_out (engine_stop k))"
  by (auto simp: engine_stop_def reset_input_state_def engine_emit_def Let_def engine_inv_def)

lemma fallback_has_radio: "radio_falls_back_to_call wayland enabled tc \<Longrightarrow> active_radio_trigger wayland enabled tc \<noteq> None"
  by (auto simp: radio_falls_back_to_call_def active_radio_trigger_def compose_wayland_trigger_def split: if_splits option.splits input_code.splits)

lemma inv_start: "engine_inv k \<Longrightarrow> engine_inv (fst (engine_start listener joystick_ok k))"
proof -
  assume "engine_inv k"
  then have "engine_inv (refresh_radio_follows_call listener k)" by (rule inv_refresh)
  then have "engine_inv (spawn_rx_loop (refresh_radio_follows_call listener k))"
    by (auto simp: spawn_rx_loop_def engine_inv_def)
  with \<open>engine_inv k\<close> show ?thesis by (simp add: engine_start_def Let_def)
qed

text \<open>
  A configuration is installed only after the engine was stopped; then no key counts as held.
\<close>

lemma inv_configure:
  assumes "engine_inv k" "\<not> radio_pressed k" "\<not> call_pressed k"
  shows "engine_inv (engine_configure wayland tc kc radio k)"
  using assms fallback_has_radio [of wayland radio tc] by (auto simp: engine_inv_def engine_configure_def)

definition idle_ok :: "keybind_engine \<Rightarrow> bool" where
  "idle_ok k \<longleftrightarrow> engine_inv k \<and> (\<not> ke_running k \<longrightarrow> \<not> radio_pressed k \<and> \<not> call_pressed k)"

lemma stop_released: "idle_ok k \<Longrightarrow> \<not> radio_pressed (engine_stop k) \<and> \<not> call_pressed (engine_stop k)"
  by (auto simp: idle_ok_def engine_stop_def reset_input_state_def engine_emit_def Let_def)

lemma running_simps [simp]:
  "ke_running (set_call_active b k) = ke_running k" "ke_running (set_radio_prio b k) = ke_running k"
  "ke_running (queue_control t state k) = ke_running k" "ke_running (refresh_radio_follows_call bound k) = ke_running k"
  "ke_running (key_event_act a k) = ke_running k"
  by (auto simp: set_call_active_def set_radio_prio_def queue_control_def refresh_radio_follows_call_def key_event_act_def
      apply_radio_def apply_mic_def end_implicit_prio_def engine_emit_def Let_def split: prod.splits option.splits)

lemma running_key_event [simp]: "ke_running (key_event bound t state k) = ke_running k"
  by (simp add: key_event_def key_event_read_def Let_def split: prod.splits)

lemma pressed_simps [simp]:
  "radio_pressed (set_call_active b k) = radio_pressed k" "call_pressed (set_call_active b k) = call_pressed k"
  "radio_pressed (set_radio_prio b k) = radio_pressed k" "call_pressed (set_radio_prio b k) = call_pressed k"
  by (auto simp: set_call_active_def set_radio_prio_def engine_emit_def Let_def)

lemma idle_ok_start: "idle_ok k \<Longrightarrow> idle_ok (fst (engine_start listener joystick_ok k))"
  using inv_start [of k listener joystick_ok]
  by (auto simp: idle_ok_def engine_start_def spawn_rx_loop_def refresh_radio_follows_call_def Let_def)

lemma idle_ok_control: "idle_ok k \<Longrightarrow> idle_ok (fst (control_step call_id k))"
proof -
  assume k: "idle_ok k"
  then have q: "idle_ok (k\<lparr>ke_control_queue := ts\<rparr>)" for ts by (simp add: idle_ok_def engine_inv_def)
  have "idle_ok (engine_emit x k)" if "idle_ok k" "\<forall>b. x \<noteq> RadioTransmit b" for x k
    using that by (auto simp: idle_ok_def engine_inv_def engine_emit_def split: engine_output.splits)
  moreover have "idle_ok (set_radio_prio b k)" if "idle_ok k" for b k
    using that by (simp add: idle_ok_def inv_set_radio_prio)
  ultimately show ?thesis using k q
    by (auto simp: control_step_def handle_control_event_def Let_def split: list.splits)
qed

lemma idle_ok_set_config:
  assumes "idle_ok k"
  shows "idle_ok (fst (engine_set_config wayland listener joystick_ok tc kc radio k))"
proof -
  have "engine_inv (engine_stop k)" using assms by (simp add: idle_ok_def inv_stop)
  then have "engine_inv (engine_configure wayland tc kc radio (engine_stop k))"
    using stop_released [OF assms] by (intro inv_configure) simp_all
  then have "idle_ok (reset_input_state (engine_configure wayland tc kc radio (engine_stop k)))"
    by (simp add: idle_ok_def inv_reset) (simp add: reset_input_state_def engine_emit_def Let_def)
  then show ?thesis by (simp add: engine_set_config_def idle_ok_start)
qed

lemma idle_ok_stop: "idle_ok k \<Longrightarrow> idle_ok (engine_stop k)"
  using stop_released [of k] by (simp add: idle_ok_def inv_stop)

lemma idle_ok_flags:
  assumes "idle_ok k"
  shows "idle_ok (set_call_active active k)" "idle_ok (set_radio_prio prio k)"
  using assms by (simp_all add: idle_ok_def inv_set_call_active inv_set_radio_prio)

lemma idle_ok_new: "idle_ok (engine_new wayland tc kc radio)"
  using fallback_has_radio [of wayland radio tc] by (auto simp: idle_ok_def engine_inv_def engine_new_def engine_configure_def)

lemma engine_inv_on_air: "engine_inv k \<Longrightarrow> on_air (ke_out k) \<Longrightarrow> radio_pressed k"
  by (simp add: engine_inv_def)

lemma act_pressed [simp]: "radio_pressed (key_event_act a k) = radio_pressed k"
  by (auto simp: key_event_act_def apply_radio_def end_implicit_prio_def engine_emit_def Let_def)

lemma release_radio_key:
  assumes inv: "engine_inv k" and held: "radio_pressed k"
    and t: "snd (classify_trigger t (ke_call_trigger k) (ke_radio_trigger k) (radio_follows_call k))"
  shows "\<not> radio_pressed (key_event bound t Up k)"
proof -
  define k1 where "k1 = refresh_radio_follows_call bound (queue_control t Up k)"
  have same: "ke_call_trigger k1 = ke_call_trigger k" "ke_radio_trigger k1 = ke_radio_trigger k" "radio_follows_call k1 = radio_follows_call k"
      "radio_pressed k1" "call_pressed k1 = call_pressed k"
    using held by (auto simp: k1_def refresh_radio_follows_call_def queue_control_def Let_def split: prod.splits)
  obtain c where cr: "classify_trigger t (ke_call_trigger k) (ke_radio_trigger k) (radio_follows_call k) = (c, True)"
    using t by (cases "classify_trigger t (ke_call_trigger k) (ke_radio_trigger k) (radio_follows_call k)") simp
  then have "c \<Longrightarrow> call_pressed k"
    using inv held classify_shared(2) [OF inv cr] by (auto simp: engine_inv_def)
  then show ?thesis
    unfolding key_event_eq [OF k1_def cr [folded same(1-3)]] using same(4,5) by (auto simp: Let_def)
qed

text \<open>
  What may fall into the middle of a key event without harm. While the radio has a key of its own,
  calls may begin and end and priorities change; while it shares the key of the call, neither may. In no
  case may the engine be started, stopped or reconfigured there.
\<close>

fun calm :: "engine_op \<Rightarrow> key_loop \<Rightarrow> bool" where
  "calm (CallActive active) l \<longleftrightarrow> kl_stage l = AwaitKey \<or> \<not> radio_shares_call_trigger (kl_engine l)"
| "calm (RadioPrio prio) l \<longleftrightarrow> kl_stage l = AwaitKey \<or> \<not> radio_shares_call_trigger (kl_engine l)"
| "calm (ControlTask call_id) l \<longleftrightarrow> kl_stage l = AwaitKey \<or> \<not> radio_shares_call_trigger (kl_engine l)"
| "calm (SetConfig wayland listener joystick_ok tc kc radio) l \<longleftrightarrow> kl_stage l = AwaitKey"
| "calm (Start listener joystick_ok) l \<longleftrightarrow> kl_stage l = AwaitKey"
| "calm Stop l \<longleftrightarrow> kl_stage l = AwaitKey"
| "calm _ l \<longleftrightarrow> True"

fun calm_run :: "engine_op list \<Rightarrow> key_loop \<Rightarrow> bool" where
  "calm_run [] l \<longleftrightarrow> True"
| "calm_run (x # xs) l \<longleftrightarrow> calm x l \<and> calm_run xs (engine_exec x l)"

text \<open>The radio key has been released, and the loop has not finished with that.\<close>

fun releasing :: "loop_stage \<Rightarrow> bool" where
  "releasing AwaitKey \<longleftrightarrow> False"
| "releasing (KeyRead a) \<longleftrightarrow> \<not> ka_key_down a \<and> ka_is_radio_key a"
| "releasing (RadioTold a) \<longleftrightarrow> \<not> ka_key_down a \<and> ka_is_radio_key a"

text \<open>What holds in the middle of a key event, in common, after the flags were read, and after the radio was told.\<close>

definition midway :: "key_action \<Rightarrow> keybind_engine \<Rightarrow> bool" where
  "midway a k \<longleftrightarrow>
     ke_running k \<and> on_air (ke_out k) = radio_transmitting k \<and>
     (ke_radio_portal_fallback k \<longrightarrow> ke_radio_trigger k \<noteq> None) \<and> (radio_follows_call k \<longrightarrow> ke_radio_portal_fallback k) \<and>
     (radio_shares_call_trigger k \<longrightarrow>
        ka_is_call_key a \<and> ka_is_radio_key a \<and> call_pressed k = ka_key_down a \<and> radio_pressed k = ka_key_down a) \<and>
     (\<not> radio_shares_call_trigger k \<and> ka_is_radio_key a \<longrightarrow> \<not> ka_is_call_key a \<and> radio_pressed k = ka_key_down a) \<and>
     (radio_transmitting k \<and> call_active k \<and> ke_call_mic_mode k = PushToTalk \<and> radio_shares_call_trigger k \<longrightarrow>
        radio_prio k \<or> implicit_radio_prio k)"

definition read_ok :: "key_action \<Rightarrow> keybind_engine \<Rightarrow> bool" where
  "read_ok a k \<longleftrightarrow>
     midway a k \<and>
     (radio_shares_call_trigger k \<longrightarrow> ka_call_active a = call_active k \<and> ka_radio_prio a = radio_prio k) \<and>
     (ka_is_radio_key a \<and> ka_key_down a \<longrightarrow> \<not> radio_transmitting k) \<and>
     (\<not> ka_is_radio_key a \<and> radio_transmitting k \<longrightarrow> radio_pressed k)"

definition told_ok :: "key_action \<Rightarrow> keybind_engine \<Rightarrow> bool" where
  "told_ok a k \<longleftrightarrow>
     midway a k \<and>
     (radio_transmitting k \<longrightarrow>
        radio_pressed k \<or> radio_shares_call_trigger k \<and> \<not> ka_key_down a \<and> implicit_radio_prio k \<and> \<not> radio_prio k)"

definition loop_ok :: "key_loop \<Rightarrow> bool" where
  "loop_ok l \<longleftrightarrow> (\<not> kl_aborted l) \<and>
     (case kl_stage l of
        AwaitKey \<Rightarrow> idle_ok (kl_engine l)
      | KeyRead a \<Rightarrow> read_ok a (kl_engine l)
      | RadioTold a \<Rightarrow> told_ok a (kl_engine l))"

lemma pressed_read_ok:
  assumes inv: "engine_inv k1" "ke_running k1"
    and kinds: "radio_shares_call_trigger k1 \<Longrightarrow> c = r" "\<not> radio_shares_call_trigger k1 \<Longrightarrow> r \<Longrightarrow> \<not> c" and "c \<or> r"
    and new: "r \<Longrightarrow> radio_pressed k1 \<noteq> d"
    and k3: "k3 = (if r then (if c then k1\<lparr>call_pressed := d\<rparr> else k1)\<lparr>radio_pressed := d\<rparr> else k1\<lparr>call_pressed := d\<rparr>)"
    and a: "a = \<lparr>ka_key_down = d, ka_is_call_key = c, ka_is_radio_key = r, ka_call_active = call_active k1,
      ka_radio_prio = radio_prio k1, ka_effective_prio = (radio_prio k1 \<and> \<not> implicit_radio_prio k1)\<rparr>"
  shows "read_ok a k3"
proof (cases "radio_shares_call_trigger k1")
  case True
  with kinds(1) \<open>c \<or> r\<close> have "c" "r" by simp_all
  with True inv new show ?thesis unfolding k3 a by (auto simp: engine_inv_def read_ok_def midway_def)
next
  case False
  with kinds(2) have "r \<Longrightarrow> \<not> c" by simp
  with False inv new \<open>c \<or> r\<close> show ?thesis
    unfolding k3 a by (cases r) (auto simp: engine_inv_def read_ok_def midway_def)
qed

lemma read_event_ok:
  assumes ok: "idle_ok k" "ke_running k" and read: "key_event_read bound t state k = (k', res)"
  shows "case res of None \<Rightarrow> idle_ok k' | Some a \<Rightarrow> read_ok a k'"
proof -
  define k1 where "k1 = refresh_radio_follows_call bound (queue_control t state k)"
  obtain c r where cr: "classify_trigger t (ke_call_trigger k1) (ke_radio_trigger k1) (radio_follows_call k1) = (c, r)" by (meson surj_pair)
  have inv: "engine_inv k1" "ke_running k1"
    using ok by (simp_all add: k1_def idle_ok_def inv_refresh inv_queue_control)
  note kinds = classify_shared [OF inv(1) cr]
  note act = pressed_read_ok [OF inv kinds _ _ refl refl, where d = "state = Down"]
  have idle: "idle_ok k1" using inv by (simp add: idle_ok_def)
  have "radio_pressed k1 \<noteq> (state = Down)" if "c" "r" "call_pressed k1 \<noteq> (state = Down)"
    using inv(1) that kinds by (auto simp: engine_inv_def)
  then show ?thesis
    using read idle act
    unfolding key_event_read_def Let_def k1_def [symmetric] cr prod.case
    by (cases c; cases r; simp split: if_splits; elim conjE; hypsubst; simp)
qed

lemma apply_radio_ok: "read_ok a k \<Longrightarrow> told_ok a (apply_radio a k)"
  by (auto simp: read_ok_def told_ok_def midway_def apply_radio_def engine_emit_def Let_def)

lemma midway_mic [simp]: "ke_running (apply_mic a k) = ke_running k"
  by (simp add: apply_mic_def engine_emit_def split: option.split)

lemma finish_ok: "told_ok a k \<Longrightarrow> idle_ok (end_implicit_prio a (apply_mic a k))"
  by (auto simp: told_ok_def midway_def idle_ok_def engine_inv_def end_implicit_prio_def engine_emit_def Let_def)

text \<open>With a radio key of its own, changes of the call and of the priority do not matter in the middle of a key event.\<close>

definition same_keys :: "keybind_engine \<Rightarrow> keybind_engine \<Rightarrow> bool" where
  "same_keys k k' \<longleftrightarrow>
     ke_running k' = ke_running k \<and> on_air (ke_out k') = on_air (ke_out k) \<and> radio_transmitting k' = radio_transmitting k \<and>
     radio_pressed k' = radio_pressed k \<and> call_pressed k' = call_pressed k \<and> ke_radio_trigger k' = ke_radio_trigger k \<and>
     ke_call_trigger k' = ke_call_trigger k \<and> ke_radio_portal_fallback k' = ke_radio_portal_fallback k \<and>
     radio_follows_call k' = radio_follows_call k"

lemma same_keys_flags: "same_keys k (set_call_active active k)" "same_keys k (set_radio_prio prio k)"
  by (auto simp: same_keys_def set_call_active_def set_radio_prio_def engine_emit_def Let_def)

lemma same_keys_control: "same_keys k (fst (control_step call_id k))"
  by (auto simp: control_step_def handle_control_event_def Let_def same_keys_def set_radio_prio_def engine_emit_def split: list.splits)

lemma separate_keeps:
  assumes "same_keys k k'" "\<not> radio_shares_call_trigger k"
  shows "read_ok a k \<Longrightarrow> read_ok a k'" "told_ok a k \<Longrightarrow> told_ok a k'"
proof -
  have "\<not> radio_shares_call_trigger k'" using assms by (simp add: same_keys_def radio_shares_call_trigger_def)
  with assms show "read_ok a k \<Longrightarrow> read_ok a k'" "told_ok a k \<Longrightarrow> told_ok a k'"
    by (simp_all add: same_keys_def read_ok_def told_ok_def midway_def)
qed

lemma loop_ok_flags:
  assumes "loop_ok l" "kl_stage l = AwaitKey \<or> \<not> radio_shares_call_trigger (kl_engine l)"
    and "same_keys (kl_engine l) (f (kl_engine l))" "idle_ok (kl_engine l) \<Longrightarrow> idle_ok (f (kl_engine l))"
  shows "loop_ok (on_engine f l)"
  using assms separate_keeps [OF assms(3)] by (cases "kl_stage l") (auto simp: loop_ok_def on_engine_def)

lemma loop_ok_exec:
  assumes ok: "loop_ok l" and "calm x l"
  shows "loop_ok (engine_exec x l)"
proof (cases x)
  case (KeyEvent bound t state)
  then show ?thesis
    using ok read_event_ok [of "kl_engine l" bound t state]
    by (auto simp: loop_ok_def split: prod.splits option.splits)
next
  case TellRadio
  then show ?thesis using ok apply_radio_ok by (auto simp: loop_ok_def split: loop_stage.splits)
next
  case FinishKey
  then show ?thesis using ok finish_ok by (auto simp: loop_ok_def split: loop_stage.splits)
next
  case AbortLoop
  then show ?thesis using ok by (simp add: loop_ok_def)
qed (use assms loop_ok_flags [OF ok] in
  \<open>auto simp: same_keys_flags same_keys_control idle_ok_flags idle_ok_control, auto simp: loop_ok_def on_engine_def abort_loop_def
     idle_ok_set_config idle_ok_start idle_ok_stop\<close>)

lemma loop_ok_run: "loop_ok l \<Longrightarrow> calm_run ops l \<Longrightarrow> loop_ok (run engine_exec ops l)"
  by (induction ops arbitrary: l) (auto intro: loop_ok_exec)

lemma loop_ok_new: "loop_ok (key_loop_new wayland tc kc radio)"
  by (simp add: loop_ok_def key_loop_new_def idle_ok_new)

lemma loop_ok_on_air: "loop_ok l \<Longrightarrow> on_air (ke_out (kl_engine l)) \<Longrightarrow> radio_pressed (kl_engine l) \<or> releasing (kl_stage l)"
  by (cases "kl_stage l") (auto simp: loop_ok_def idle_ok_def engine_inv_def read_ok_def told_ok_def midway_def)

lemma whole_key_event:
  assumes "ke_running (kl_engine l)" "kl_stage l = AwaitKey" "\<not> kl_aborted l"
  shows "run engine_exec [KeyEvent bound t state, TellRadio, FinishKey] l = l\<lparr>kl_engine := key_event bound t state (kl_engine l)\<rparr>"
  using assms by (auto simp: key_event_def key_event_act_def split: prod.splits option.splits)

text \<open>
  C18: Whatever keys are pressed, calls begin or end, priorities are toggled, configurations installed and
  listeners restarted, provided that nothing but what is calm falls into the middle of a key event:
  the radio is on the air only while the radio key is held or its release is being handled, and once
  the release of a held radio key has been handled it is off the air.
\<close>

theorem radio_keyed_only_while_held:
  assumes "calm_run ops (key_loop_new wayland tc kc radio)" "l = run engine_exec ops (key_loop_new wayland tc kc radio)"
  shows "(on_air (ke_out (kl_engine l)) \<longrightarrow> radio_pressed (kl_engine l) \<or> releasing (kl_stage l)) \<and>
    (snd (classify_trigger t (ke_call_trigger (kl_engine l)) (ke_radio_trigger (kl_engine l)) (radio_follows_call (kl_engine l))) \<and>
       radio_pressed (kl_engine l) \<and> kl_stage l = AwaitKey \<longrightarrow>
       \<not> on_air (ke_out (kl_engine (run engine_exec [KeyEvent bound t Up, TellRadio, FinishKey] l))))"
proof -
  let ?k = "kl_engine l"
  have ok: "loop_ok l" using loop_ok_run [OF loop_ok_new assms(1)] assms(2) by simp
  have "\<not> on_air (ke_out (kl_engine (run engine_exec [KeyEvent bound t Up, TellRadio, FinishKey] l)))"
    if "snd (classify_trigger t (ke_call_trigger ?k) (ke_radio_trigger ?k) (radio_follows_call ?k))" "radio_pressed ?k"
      and await: "kl_stage l = AwaitKey"
  proof -
    from ok await have idle: "idle_ok ?k" "\<not> kl_aborted l" by (simp_all add: loop_ok_def)
    then have inv: "engine_inv ?k" and "ke_running ?k" using that(2) by (auto simp: idle_ok_def)
    then have "run engine_exec [KeyEvent bound t Up, TellRadio, FinishKey] l = l\<lparr>kl_engine := key_event bound t Up ?k\<rparr>"
      using await idle(2) by (rule_tac whole_key_event)
    then show ?thesis
      using release_radio_key [OF inv that(2,1)] engine_inv_on_air [OF inv_key_event [OF inv]] by auto
  qed
  with loop_ok_on_air [OF ok] show ?thesis by blast
qed

definition demo_transmit :: transmit_config where
  "demo_transmit =
     \<lparr>tc_call_mic_mode = PushToTalk, tc_push_to_talk = Some (KeyCode ''F13''), tc_push_to_mute = None, tc_radio_push_to_talk = None\<rparr>"

definition demo_separate :: transmit_config where
  "demo_separate = demo_transmit\<lparr>tc_radio_push_to_talk := Some (KeyCode ''F14'')\<rparr>"

definition demo_keybinds :: keybinds_config where
  "demo_keybinds = \<lparr>kc_accept_call = None, kc_end_call = None, kc_toggle_radio_prio = None, kc_say_again = None\<rparr>"

definition demo_press :: "string \<Rightarrow> engine_op list" where
  "demo_press code = [Start (Some False) True, KeyEvent (Some False) (Input (KeyCode code)) Down]"

text \<open>With a key of its own for the radio, a call begins in the middle of the press and ends in the middle of the release.\<close>

definition demo_release_midway :: "engine_op list" where
  "demo_release_midway =
     demo_press ''F14'' @ [CallActive True, TellRadio, FinishKey, KeyEvent (Some False) (Input (KeyCode ''F14'')) Up, CallActive False]"

theorem radio_keyed_only_while_held_witness:
  "let l = run engine_exec demo_release_midway (key_loop_new False demo_separate demo_keybinds True);
       l' = run engine_exec (demo_press ''F14'' @ [CallActive True, TellRadio, FinishKey]) (key_loop_new False demo_separate demo_keybinds True)
   in on_air (ke_out (kl_engine l)) \<and> \<not> radio_pressed (kl_engine l) \<and> releasing (kl_stage l) \<and>
      \<not> on_air (ke_out (kl_engine (run engine_exec [KeyEvent (Some False) (Input (KeyCode ''F14'')) Up, TellRadio, FinishKey] l')))"
proof -
  have facts: "calm_run demo_release_midway (key_loop_new False demo_separate demo_keybinds True)"
    "on_air (ke_out (kl_engine (run engine_exec demo_release_midway (key_loop_new False demo_separate demo_keybinds True))))"
    "\<not> radio_pressed (kl_engine (run engine_exec demo_release_midway (key_loop_new False demo_separate demo_keybinds True)))"
    by code_simp+
  let ?ops = "demo_press ''F14'' @ [CallActive True, TellRadio, FinishKey]"
  let ?k = "kl_engine (run engine_exec ?ops (key_loop_new False demo_separate demo_keybinds True))"
  have held: "calm_run ?ops (key_loop_new False demo_separate demo_keybinds True)" "radio_pressed ?k"
    "kl_stage (run engine_exec ?ops (key_loop_new False demo_separate demo_keybinds True)) = AwaitKey"
    "snd (classify_trigger (Input (KeyCode ''F14'')) (ke_call_trigger ?k) (ke_radio_trigger ?k) (radio_follows_call ?k))"
    by code_simp+
  show ?thesis
    unfolding Let_def
    using radio_keyed_only_while_held [OF facts(1) refl] facts(2,3)
      radio_keyed_only_while_held [OF held(1) refl, of "Input (KeyCode ''F14'')" "Some False"] held(2-4)
    by blast
qed

section \<open>An interrupted key press\<close>

definition interrupted_press :: key_loop where
  "interrupted_press =
     run engine_exec (demo_press ''F13'' @ [CallActive True, TellRadio, FinishKey,
       KeyEvent (Some False) (Input (KeyCode ''F13'')) Up, TellRadio, FinishKey]) (key_loop_new False demo_transmit demo_keybinds True)"

text \<open>
  With a shared key the proviso is needed. If a call becomes active after the loop has
  read, on the press of the shared key, that there is none, but before it notes that the radio
  transmits, no implicit priority is set. The release then finds an active call without priority and
  leaves the radio alone: the key is up, its release is handled, and the radio stays on the air.
\<close>

theorem interrupted_press_sticks:
  "\<not> radio_pressed (kl_engine interrupted_press) \<and> kl_stage interrupted_press = AwaitKey \<and>
   on_air (ke_out (kl_engine interrupted_press))"
  by code_simp

section \<open>Control keys fire once per press\<close>

text \<open>While a control key is held, further presses of it (the auto-repeat of a keyboard) are not passed on.\<close>

lemma transition_once:
  assumes "transition t Down h = (h', True)" and "trigger_eq t t"
  shows "transition t Down h' = (h', False)" "snd (transition t Up h') = False"
  using assms by (auto simp: transition_def split: if_splits)

lemma transition_release:
  assumes "list_ex (trigger_eq t) (hc_controls h)"
  shows "snd (transition t Down (fst (transition t Up h)))"
proof -
  have "\<not> list_ex (trigger_eq t) (filter (\<lambda>held. \<not> trigger_eq held t) (hc_held h))"
    using trigger_eq_sym by (auto simp: list_ex_iff)
  with assms show ?thesis by (simp add: transition_def)
qed

end
