(* ===== verification/Radio.thy ===== *)
theory Radio
  imports Prelude Playback Keybinds
begin

text \<open>
  The radio integrations of the desktop client (\<^verbatim>\<open>vacs-client/src/radio.rs\<close> and
  \<^verbatim>\<open>vacs-client/src/radio/\<close>): the TrackAudio radio, which mirrors the state of the
  TrackAudio program and tells it when to transmit, the push-to-talk radio, which presses a key for
  another program, the choice between them and the frontend's commands.

  The \<^verbatim>\<open>trackaudio\<close> crate is a parameter: its events and the answers to its requests are arguments, and
  what an error prints is the argument \<open>show_err\<close>. A handler that waits for an answer is
  split there, so that other tasks can run in between. Two histories are kept beside the program's
  own state: what was emitted to the frontend, and the transmit commands that reached the
  TrackAudio client since the state was last cleared. The locale \<open>keyed_radio\<close> states what the
  keybind engine relies on; both radios are instances.
\<close>

section \<open>Shared types\<close>

datatype radio_error = RadioIntegrationError string | RadioTransmitError string | RadioNotSupported

datatype transmission_state = Active | Inactive

definition transmission_of_key :: "key_state \<Rightarrow> transmission_state" where
  "transmission_of_key s = (case s of Down \<Rightarrow> Active | Up \<Rightarrow> Inactive)"

definition key_of_transmission :: "transmission_state \<Rightarrow> key_state" where
  "key_of_transmission s = (case s of Active \<Rightarrow> Down | Inactive \<Rightarrow> Up)"

datatype radio_state =
    NotConfigured | RadioDisconnected | RadioConnected | VoiceConnected | RxIdle
  | RxActive "radio_frequency hash_set" | TxActive | RadioFailed

record radio_station =
  rst_callsign :: "string option"
  rst_frequency :: radio_frequency
  rst_rx :: bool
  rst_tx :: bool
  rst_xc :: bool
  rst_xca :: bool
  rst_headset :: bool
  rst_output_muted :: bool
  rst_is_available :: bool

record station_state_update =
  su_rx :: "bool option"
  su_tx :: "bool option"
  su_xca :: "bool option"
  su_headset :: "bool option"
  su_output_muted :: "bool option"

section \<open>What the TrackAudio client reports\<close>

record station_state =
  ss_callsign :: "string option"
  ss_frequency :: "radio_frequency option"
  ss_rx :: "bool option"
  ss_tx :: "bool option"
  ss_xc :: "bool option"
  ss_xca :: "bool option"
  ss_headset :: "bool option"
  ss_is_output_muted :: "bool option"
  ss_is_available :: bool

datatype ta_connection_state = TaConnected | TaConnecting | TaReconnecting | TaDisconnected | TaReconnectFailed

datatype trackaudio_event =
    TaTxBegin
  | TaTxEnd
  | TaRxBegin radio_frequency
  | TaRxEnd radio_frequency "string list option"
  | TaVoiceConnectedState bool
  | TaConnectionStateChanged ta_connection_state
  | TaCommandSendFailed
  | TaEventDeserializationFailed
  | TaStationAdded string radio_frequency
  | TaStationStateUpdate station_state
  | TaStationStates "station_state list"
  | TaFrequencyRemoved radio_frequency
  | TaOtherEvent

datatype trackaudio_error = TaSend string | TaTimeout | TaClientTaskTerminated | TaOtherError string

text \<open>
  Which errors of a request leave it unsent is the crate's promise: only a failed send and a client
  task that is gone.
\<close>

definition command_reached :: "trackaudio_error \<Rightarrow> bool" where
  "command_reached err = (case err of TaSend _ \<Rightarrow> False | TaTimeout \<Rightarrow> True | TaClientTaskTerminated \<Rightarrow> False | TaOtherError _ \<Rightarrow> True)"

datatype ta_recv_result = Received trackaudio_event | Lagged u64 | Closed

text \<open>The command that changes a station: only what is given is changed.\<close>

record set_station_state_cmd =
  sc_frequency :: radio_frequency
  sc_rx :: "bool option"
  sc_tx :: "bool option"
  sc_xca :: "bool option"
  sc_headset :: "bool option"
  sc_output_muted :: "bool option"

definition new_set_station_state :: "radio_frequency \<Rightarrow> set_station_state_cmd" where
  "new_set_station_state frequency =
     \<lparr>sc_frequency = frequency, sc_rx = None, sc_tx = None, sc_xca = None, sc_headset = None, sc_output_muted = None\<rparr>"

text \<open>What a radio does to the rest of the client.\<close>

datatype radio_output =
    EmitState radio_state
  | EmitStationAdded radio_station
  | EmitStationUpdated radio_station
  | EmitStationRemoved radio_frequency
  | EmitStationsSynced "radio_station list"
  | ForwardEvent trackaudio_event
  | StartRecorder
  | StopRecorder

text \<open>Where the events task stands: waiting for the next event, or inside a handler for an answer.\<close>

datatype ta_events_task = AwaitEvent | AwaitVoiceAnswer | AwaitStationsAnswer | TaskEnded

text \<open>
  Beside the state of the radio two histories are kept: \<open>ta_sent\<close>, the commands whose sending the answers
  confirm since the state was last cleared (which a reconnect does even when it then fails), and what
  was emitted.
\<close>

record track_audio_radio =
  ta_connected :: bool
  ta_voice_connected :: bool
  ta_transmitting :: bool
  ta_receiving :: "radio_frequency hash_set"
  ta_stations :: "(radio_frequency, radio_station) hash_map"
  ta_ptt_active :: bool
  ta_transmit_failures :: u64
  ta_task :: ta_events_task
  ta_cancelled :: bool
  ta_sent :: "bool list"
  ta_out :: "radio_output list"

definition TRANSMIT_FAILURE_THRESHOLD :: u64 where
  "TRANSMIT_FAILURE_THRESHOLD = 3"

section \<open>The state of the TrackAudio radio\<close>

definition track_audio_default :: track_audio_radio where
  "track_audio_default =
     \<lparr>ta_connected = False, ta_voice_connected = False, ta_transmitting = False, ta_receiving = [], ta_stations = [],
      ta_ptt_active = False, ta_transmit_failures = 0, ta_task = AwaitEvent, ta_cancelled = False, ta_sent = [], ta_out = []\<rparr>"

text \<open>
  The station a report describes; \<open>fallback\<close> is the frequency \<^verbatim>\<open>from_mhz(199.998)\<close>.
\<close>

definition radio_station_of :: "radio_frequency \<Rightarrow> station_state \<Rightarrow> radio_station" where
  "radio_station_of fallback s =
     \<lparr>rst_callsign = ss_callsign s,
      rst_frequency = (case ss_frequency s of Some f \<Rightarrow> f | None \<Rightarrow> fallback),
      rst_rx = (ss_rx s = Some True),
      rst_tx = (ss_tx s = Some True),
      rst_xc = (ss_xc s = Some True),
      rst_xca = (ss_xca s = Some True),
      rst_headset = (case ss_headset s of Some h \<Rightarrow> h | None \<Rightarrow> True),
      rst_output_muted = (ss_is_output_muted s = Some True),
      rst_is_available = ss_is_available s\<rparr>"

definition radio_state_of :: "track_audio_radio \<Rightarrow> radio_state" where
  "radio_state_of r =
     (if \<not> ta_connected r then RadioDisconnected
      else if \<not> ta_voice_connected r then RadioConnected
      else if TRANSMIT_FAILURE_THRESHOLD \<le> ta_transmit_failures r then RadioFailed
      else if ta_transmitting r then TxActive
      else if ta_receiving r \<noteq> [] then RxActive (ta_receiving r)
      else if list_ex rst_rx (hm_values (ta_stations r)) then RxIdle
      else VoiceConnected)"

definition ta_emit :: "radio_output \<Rightarrow> track_audio_radio \<Rightarrow> track_audio_radio" where
  "ta_emit x r = r\<lparr>ta_out := ta_out r @ [x]\<rparr>"

definition emit_state :: "track_audio_radio \<Rightarrow> track_audio_radio" where
  "emit_state r = ta_emit (EmitState (radio_state_of r)) r"

definition ta_clear :: "track_audio_radio \<Rightarrow> track_audio_radio" where
  "ta_clear r =
     r\<lparr>ta_connected := False, ta_voice_connected := False, ta_transmitting := False, ta_ptt_active := False,
       ta_transmit_failures := 0, ta_receiving := [], ta_stations := [], ta_sent := []\<rparr>"

definition set_transmitting :: "bool \<Rightarrow> track_audio_radio \<Rightarrow> track_audio_radio" where
  "set_transmitting active r = emit_state (r\<lparr>ta_transmitting := active\<rparr>)"

definition set_receiving :: "radio_frequency \<Rightarrow> bool \<Rightarrow> track_audio_radio \<Rightarrow> track_audio_radio" where
  "set_receiving frequency active r =
     emit_state (r\<lparr>ta_receiving := (if active then hs_insert frequency (ta_receiving r) else hs_remove frequency (ta_receiving r))\<rparr>)"

definition apply_voice_connected :: "bool \<Rightarrow> track_audio_radio \<Rightarrow> track_audio_radio" where
  "apply_voice_connected b r = r\<lparr>ta_voice_connected := b, ta_transmit_failures := 0\<rparr>"

definition set_voice_connected :: "bool \<Rightarrow> track_audio_radio \<Rightarrow> track_audio_radio" where
  "set_voice_connected b r = emit_state (apply_voice_connected b r)"

definition set_connected :: "bool \<Rightarrow> track_audio_radio \<Rightarrow> track_audio_radio" where
  "set_connected b r = emit_state (r\<lparr>ta_connected := b\<rparr>)"

definition add_station :: "string \<Rightarrow> radio_frequency \<Rightarrow> track_audio_radio \<Rightarrow> track_audio_radio" where
  "add_station callsign frequency r =
     (let station = \<lparr>rst_callsign = Some callsign, rst_frequency = frequency, rst_rx = False, rst_tx = False, rst_xc = False,
            rst_xca = False, rst_headset = False, rst_output_muted = False, rst_is_available = True\<rparr>
      in emit_state (ta_emit (EmitStationAdded station) (r\<lparr>ta_stations := hm_insert frequency station (ta_stations r)\<rparr>)))"

definition merge_station :: "station_state \<Rightarrow> radio_station \<Rightarrow> radio_station" where
  "merge_station s existing =
     existing
       \<lparr>rst_rx := (case ss_rx s of Some rx \<Rightarrow> rx | None \<Rightarrow> rst_rx existing),
        rst_tx := (case ss_tx s of Some tx \<Rightarrow> tx | None \<Rightarrow> rst_tx existing),
        rst_xc := (case ss_xc s of Some xc \<Rightarrow> xc | None \<Rightarrow> rst_xc existing),
        rst_xca := (case ss_xca s of Some xca \<Rightarrow> xca | None \<Rightarrow> rst_xca existing),
        rst_headset := (case ss_headset s of Some h \<Rightarrow> h | None \<Rightarrow> rst_headset existing),
        rst_output_muted := (case ss_is_output_muted s of Some m \<Rightarrow> m | None \<Rightarrow> rst_output_muted existing),
        rst_callsign := (case ss_callsign s of Some c \<Rightarrow> Some c | None \<Rightarrow> rst_callsign existing)\<rparr>"

definition update_station :: "radio_frequency \<Rightarrow> station_state \<Rightarrow> track_audio_radio \<Rightarrow> track_audio_radio" where
  "update_station fallback s r =
     (case ss_frequency s of
        None \<Rightarrow> r
      | Some frequency \<Rightarrow>
          emit_state
            (if \<not> ss_is_available s
             then ta_emit (EmitStationRemoved frequency)
                    (r\<lparr>ta_stations := hm_remove frequency (ta_stations r), ta_receiving := hs_remove frequency (ta_receiving r)\<rparr>)
             else case hm_get (ta_stations r) frequency of
               Some existing \<Rightarrow>
                 ta_emit (EmitStationUpdated (merge_station s existing))
                   (r\<lparr>ta_receiving := (if ss_rx s = Some False then hs_remove frequency (ta_receiving r) else ta_receiving r),
                      ta_stations := hm_insert frequency (merge_station s existing) (ta_stations r)\<rparr>)
             | None \<Rightarrow>
                 (ta_emit (EmitStationAdded (radio_station_of fallback s)) r)
                   \<lparr>ta_stations := hm_insert frequency (radio_station_of fallback s) (ta_stations r)\<rparr>))"

definition remove_station :: "radio_frequency \<Rightarrow> track_audio_radio \<Rightarrow> track_audio_radio" where
  "remove_station frequency r =
     emit_state (ta_emit (EmitStationRemoved frequency)
       (r\<lparr>ta_stations := hm_remove frequency (ta_stations r), ta_receiving := hs_remove frequency (ta_receiving r)\<rparr>))"

definition synced_station :: "radio_frequency \<Rightarrow> station_state \<Rightarrow> (radio_frequency \<times> radio_station) option" where
  "synced_station fallback s =
     (if ss_is_available s then map_option (\<lambda>frequency. (frequency, radio_station_of fallback s)) (ss_frequency s) else None)"

definition sync_stations :: "radio_frequency \<Rightarrow> station_state list \<Rightarrow> track_audio_radio \<Rightarrow> track_audio_radio" where
  "sync_stations fallback states r =
     (let stations = hm_collect (List.map_filter (synced_station fallback) states);
          r = r\<lparr>ta_stations := stations, ta_receiving := filter (\<lambda>f. hm_contains_key f stations) (ta_receiving r)\<rparr>
      in emit_state (ta_emit (EmitStationsSynced (hm_values stations)) r))"

definition ta_station_list :: "track_audio_radio \<Rightarrow> radio_station list" where
  "ta_station_list r = hm_values (ta_stations r)"

section \<open>The events task\<close>

definition handle_connection_state :: "ta_connection_state \<Rightarrow> track_audio_radio \<Rightarrow> track_audio_radio" where
  "handle_connection_state c r =
     (case c of
        TaConnected \<Rightarrow> (set_connected True r)\<lparr>ta_task := AwaitVoiceAnswer\<rparr>
      | TaConnecting \<Rightarrow> emit_state (ta_clear r)
      | TaReconnecting \<Rightarrow> emit_state (ta_clear r)
      | TaDisconnected \<Rightarrow> emit_state (ta_clear r)
      | TaReconnectFailed \<Rightarrow> ta_emit (EmitState RadioFailed) (ta_clear r))"

text \<open>The argument \<open>has_radio\<close> says whether a radio is installed in the application, \<open>has_recorder\<close> whether a recorder runs.\<close>

definition handle_event :: "radio_frequency \<Rightarrow> bool \<Rightarrow> bool \<Rightarrow> trackaudio_event \<Rightarrow> track_audio_radio \<Rightarrow> track_audio_radio" where
  "handle_event fallback has_radio has_recorder event r =
     (case event of
        TaTxBegin \<Rightarrow> set_transmitting True r
      | TaTxEnd \<Rightarrow> set_transmitting False r
      | TaRxBegin frequency \<Rightarrow> set_receiving frequency True r
      | TaRxEnd frequency active_transmitters \<Rightarrow>
          set_receiving frequency (\<not> (case active_transmitters of None \<Rightarrow> True | Some t \<Rightarrow> t = [])) r
      | TaVoiceConnectedState b \<Rightarrow>
          (let r = set_voice_connected b r
           in if b then r\<lparr>ta_task := AwaitStationsAnswer\<rparr> else sync_stations fallback [] r)
      | TaConnectionStateChanged c \<Rightarrow>
          handle_connection_state c
            (if c = TaConnected then (if has_radio then ta_emit StartRecorder r else r)
             else (if has_recorder then ta_emit StopRecorder r else r))
      | TaCommandSendFailed \<Rightarrow> ta_emit (EmitState RadioFailed) r
      | TaEventDeserializationFailed \<Rightarrow> r
      | TaStationAdded callsign frequency \<Rightarrow> add_station callsign frequency r
      | TaStationStateUpdate s \<Rightarrow> update_station fallback s r
      | TaStationStates states \<Rightarrow> sync_stations fallback states r
      | TaFrequencyRemoved frequency \<Rightarrow> remove_station frequency r
      | TaOtherEvent \<Rightarrow> r)"

definition events_task_step ::
  "radio_frequency \<Rightarrow> bool \<Rightarrow> bool \<Rightarrow> bool \<Rightarrow> ta_recv_result \<Rightarrow> track_audio_radio \<Rightarrow> track_audio_radio" where
  "events_task_step fallback has_radio has_recorder subscribed result r =
     (if ta_task r \<noteq> AwaitEvent then r
      else if ta_cancelled r then r\<lparr>ta_task := TaskEnded\<rparr>
      else case result of
        Received event \<Rightarrow> handle_event fallback has_radio has_recorder event (if subscribed then ta_emit (ForwardEvent event) r else r)
      | Lagged skipped \<Rightarrow> r
      | Closed \<Rightarrow> (ta_emit (EmitState RadioFailed) (ta_clear r))\<lparr>ta_task := TaskEnded\<rparr>)"

text \<open>The answers a handler waits for; \<open>None\<close> is an error.\<close>

definition voice_answer :: "bool option \<Rightarrow> track_audio_radio \<Rightarrow> track_audio_radio" where
  "voice_answer answer r =
     (if ta_task r = AwaitVoiceAnswer
      then (apply_voice_connected (answer = Some True) r)\<lparr>ta_task := AwaitStationsAnswer\<rparr> else r)"

definition stations_answer :: "radio_frequency \<Rightarrow> station_state list option \<Rightarrow> track_audio_radio \<Rightarrow> track_audio_radio" where
  "stations_answer fallback answer r =
     (if ta_task r = AwaitStationsAnswer
      then (sync_stations fallback (case answer of Some states \<Rightarrow> states | None \<Rightarrow> []) r)\<lparr>ta_task := AwaitEvent\<rparr> else r)"

section \<open>The operations of the TrackAudio radio\<close>

text \<open>
  A transmission request is first compared with the latch: \<open>Some active\<close> is the command that is sent
  then. The second part runs with the answer to it; \<open>None\<close> is success.
\<close>

definition transmit_begin :: "transmission_state \<Rightarrow> track_audio_radio \<Rightarrow> track_audio_radio \<times> bool option" where
  "transmit_begin s r =
     (case s of
        Active \<Rightarrow> (r\<lparr>ta_ptt_active := True\<rparr>, if ta_ptt_active r then None else Some True)
      | Inactive \<Rightarrow> (r\<lparr>ta_ptt_active := False\<rparr>, if ta_ptt_active r then Some False else None))"

definition never_enqueued :: "trackaudio_error \<Rightarrow> bool" where
  "never_enqueued err = (case err of TaSend _ \<Rightarrow> True | TaClientTaskTerminated \<Rightarrow> True | _ \<Rightarrow> False)"

definition transmit_finish ::
  "(trackaudio_error \<Rightarrow> string) \<Rightarrow> bool \<Rightarrow> trackaudio_error option \<Rightarrow> track_audio_radio \<Rightarrow> track_audio_radio \<times> (radio_error + unit)" where
  "transmit_finish show_err active answer r =
     (case answer of
        None \<Rightarrow>
          (let failures = ta_transmit_failures r; r = r\<lparr>ta_sent := ta_sent r @ [active], ta_transmit_failures := 0\<rparr>
           in (if TRANSMIT_FAILURE_THRESHOLD \<le> failures then emit_state r else r, Inr ()))
      | Some err \<Rightarrow>
          (let r = (if command_reached err then r\<lparr>ta_sent := ta_sent r @ [active]\<rparr> else r);
               r = (if never_enqueued err then r\<lparr>ta_ptt_active := \<not> active\<rparr> else r);
               r = r\<lparr>ta_transmit_failures := ta_transmit_failures r + 1\<rparr>;
               r = (if err = TaTimeout then emit_state r else ta_emit (EmitState RadioFailed) r)
           in (r, Inl (RadioTransmitError (''Failed to transmit via TrackAudio: '' @ show_err err)))))"

definition ta_transmit ::
  "(trackaudio_error \<Rightarrow> string) \<Rightarrow> transmission_state \<Rightarrow> trackaudio_error option \<Rightarrow> track_audio_radio \<Rightarrow> track_audio_radio \<times> (radio_error + unit)" where
  "ta_transmit show_err s answer r =
     (case transmit_begin s r of
        (r, None) \<Rightarrow> (r, Inr ())
      | (r, Some active) \<Rightarrow> transmit_finish show_err active answer r)"

definition ta_reconnect ::
  "(trackaudio_error \<Rightarrow> string) \<Rightarrow> trackaudio_error option \<Rightarrow> track_audio_radio \<Rightarrow> track_audio_radio \<times> (radio_error + unit)" where
  "ta_reconnect show_err answer r =
     (let r = emit_state (ta_clear r)
      in case answer of
           None \<Rightarrow> (r, Inr ())
         | Some err \<Rightarrow>
             (ta_emit (EmitState RadioFailed) r,
              Inl (RadioIntegrationError (''Failed to reconnect to TrackAudio: '' @ show_err err))))"

text \<open>Requests about stations only pass the answer on; the state changes with the events they cause.\<close>

definition ta_add_station ::
  "radio_frequency \<Rightarrow> (trackaudio_error \<Rightarrow> string) \<Rightarrow> trackaudio_error + station_state \<Rightarrow> radio_error + radio_station" where
  "ta_add_station fallback show_err answer =
     (case answer of
        Inr s \<Rightarrow> Inr (radio_station_of fallback s)
      | Inl err \<Rightarrow> Inl (RadioIntegrationError (''Failed to add station: '' @ show_err err)))"

definition set_station_command :: "radio_frequency \<Rightarrow> station_state_update \<Rightarrow> set_station_state_cmd" where
  "set_station_command frequency update =
     (let cmd = new_set_station_state frequency;
          cmd = (case su_rx update of Some rx \<Rightarrow> cmd\<lparr>sc_rx := Some rx\<rparr> | None \<Rightarrow> cmd);
          cmd = (case su_tx update of Some tx \<Rightarrow> cmd\<lparr>sc_tx := Some tx\<rparr> | None \<Rightarrow> cmd);
          cmd = (case su_xca update of Some xca \<Rightarrow> cmd\<lparr>sc_xca := Some xca\<rparr> | None \<Rightarrow> cmd);
          cmd = (case su_headset update of Some h \<Rightarrow> cmd\<lparr>sc_headset := Some h\<rparr> | None \<Rightarrow> cmd)
      in case su_output_muted update of Some m \<Rightarrow> cmd\<lparr>sc_output_muted := Some m\<rparr> | None \<Rightarrow> cmd)"

definition ta_set_station_state ::
  "radio_frequency \<Rightarrow> (trackaudio_error \<Rightarrow> string) \<Rightarrow> (set_station_state_cmd \<Rightarrow> trackaudio_error + station_state) \<Rightarrow>
   radio_frequency \<Rightarrow> station_state_update \<Rightarrow> radio_error + radio_station" where
  "ta_set_station_state fallback show_err api frequency update =
     (case api (set_station_command frequency update) of
        Inr s \<Rightarrow> Inr (radio_station_of fallback s)
      | Inl err \<Rightarrow> Inl (RadioIntegrationError (''Failed to set station state: '' @ show_err err)))"

text \<open>The commands that couple every transmitting station; failures of single commands are only logged.\<close>

definition fast_couple_commands :: "track_audio_radio \<Rightarrow> set_station_state_cmd list" where
  "fast_couple_commands r =
     map (\<lambda>station. (new_set_station_state (rst_frequency station))\<lparr>sc_xca := Some True\<rparr>)
       (filter (\<lambda>s. rst_tx s \<and> \<not> rst_xca s) (ta_station_list r))"

text \<open>The outputs and the outcome of creating the radio; both errors are what the crate reports.\<close>

definition track_audio_new ::
  "string option \<Rightarrow> string option \<Rightarrow> radio_output list \<times> (radio_error + track_audio_radio)" where
  "track_audio_new config_error connect_error =
     (let out = [EmitState RadioDisconnected]
      in case config_error of
           Some err \<Rightarrow> (out @ [EmitState RadioFailed], Inl (RadioIntegrationError (''Failed to build TrackAudioConfig: '' @ err)))
         | None \<Rightarrow>
             (case connect_error of
                Some err \<Rightarrow> (out @ [EmitState RadioFailed], Inl (RadioIntegrationError (''Failed to connect to TrackAudio: '' @ err)))
              | None \<Rightarrow> (out, Inr track_audio_default)))"

definition track_audio_drop ::
  "(trackaudio_error \<Rightarrow> string) \<Rightarrow> trackaudio_error option \<Rightarrow> track_audio_radio \<Rightarrow> track_audio_radio" where
  "track_audio_drop show_err answer r =
     (let r = (if ta_ptt_active r then fst (ta_transmit show_err Inactive answer r) else r)
      in (ta_emit (EmitState NotConfigured) (ta_clear r))\<lparr>ta_cancelled := True\<rparr>)"

section \<open>The push-to-talk radio\<close>

text \<open>The key events that reached the operating system are kept beside the latch.\<close>

record push_to_talk_radio =
  ptt_code :: string
  ptt_active :: bool
  ptt_cancelled :: bool
  ptt_emitted :: "key_state list"
  ptt_out :: "radio_state list"

definition push_to_talk_new :: "string option \<Rightarrow> string \<Rightarrow> radio_error + push_to_talk_radio" where
  "push_to_talk_new start_error code =
     (case start_error of
        Some err \<Rightarrow> Inl (RadioIntegrationError err)
      | None \<Rightarrow> Inr \<lparr>ptt_code = code, ptt_active = False, ptt_cancelled = False, ptt_emitted = [], ptt_out = [RxIdle]\<rparr>)"

text \<open>The argument \<open>failure\<close> is the error of the emitter, if it fails.\<close>

definition ptt_transmit ::
  "transmission_state \<Rightarrow> string option \<Rightarrow> push_to_talk_radio \<Rightarrow> push_to_talk_radio \<times> (radio_error + unit)" where
  "ptt_transmit s failure r =
     (let (r, todo) =
            (case s of
               Active \<Rightarrow> (r\<lparr>ptt_active := True\<rparr>, if ptt_active r then None else Some (Down, TxActive))
             | Inactive \<Rightarrow> (r\<lparr>ptt_active := False\<rparr>, if ptt_active r then Some (Up, RxIdle) else None))
      in case todo of
           None \<Rightarrow> (r, Inr ())
         | Some (key_state, radio_state) \<Rightarrow>
             (case failure of
                Some err \<Rightarrow> (r, Inl (RadioTransmitError err))
              | None \<Rightarrow> (r\<lparr>ptt_emitted := ptt_emitted r @ [key_state], ptt_out := ptt_out r @ [radio_state]\<rparr>, Inr ())))"

definition ptt_state :: "push_to_talk_radio \<Rightarrow> radio_state" where
  "ptt_state r = (if ptt_active r then TxActive else RxIdle)"

definition push_to_talk_drop :: "string option \<Rightarrow> push_to_talk_radio \<Rightarrow> push_to_talk_radio" where
  "push_to_talk_drop failure r =
     (let r = (if ptt_active r \<and> failure = None then r\<lparr>ptt_emitted := ptt_emitted r @ [Up]\<rparr> else r)
      in r\<lparr>ptt_cancelled := True, ptt_out := ptt_out r @ [NotConfigured]\<rparr>)"

text \<open>
  The delays between attempts of starting the recorder. The multiplier is a power of two, and a
  product of powers of two is exact in \<^verbatim>\<open>f32\<close>; \<open>None\<close> is the panic of
  \<^verbatim>\<open>Duration::from_secs_f32\<close> on a number of seconds that does not fit 64 bits.
\<close>

definition backoff_timeout :: "duration \<Rightarrow> duration \<Rightarrow> nat \<Rightarrow> nat \<Rightarrow> duration option" where
  "backoff_timeout base max_delay multiplier attempt =
     (if attempt = 0 then Some (from_millis 0)
      else if attempt = 1 then Some base
      else
        (let delay = base * multiplier ^ (attempt - 1)
         in if from_secs (2 ^ 64) \<le> delay then None else Some (min delay max_delay)))"

text \<open>
  The task that starts the recorder: the strategy's delay is computed before each turn, which ends with
  the cancellation of the radio or with an attempt.
\<close>

datatype starter_turn = TurnCancelled | TurnNoRadio | TurnStarted | TurnUnsupported | TurnFailed

datatype recorder_starter = Attempting nat | StarterDone | StarterPanicked

definition starter_step :: "starter_turn \<Rightarrow> recorder_starter \<Rightarrow> recorder_starter" where
  "starter_step turn s =
     (case s of
        Attempting attempt \<Rightarrow>
          (case backoff_timeout (from_millis 500) (from_secs 30) 2 attempt of
             None \<Rightarrow> StarterPanicked
           | Some delay \<Rightarrow>
               (case turn of
                  TurnCancelled \<Rightarrow> StarterDone
                | TurnStarted \<Rightarrow> StarterDone
                | TurnUnsupported \<Rightarrow> StarterDone
                | TurnNoRadio \<Rightarrow> Attempting (attempt + 1)
                | TurnFailed \<Rightarrow> Attempting (attempt + 1)))
      | _ \<Rightarrow> s)"

section \<open>Choosing a radio\<close>

datatype radio_integration = AudioForVatsim | TrackAudio

definition default_integration :: "bool \<Rightarrow> radio_integration" where
  "default_integration keybind_emitter = (if keybind_emitter then AudioForVatsim else TrackAudio)"

record radio_config =
  rc_integration :: "radio_integration option"
  rc_afv_emit :: "string option option"
  rc_track_audio_endpoint :: "string option option"

datatype dyn_radio = PttRadio push_to_talk_radio | TaRadio track_audio_radio

text \<open>
  The argument \<open>connect\<close> gives, for the configured endpoint, the errors of building the
  configuration and of connecting.
\<close>

definition radio_of_config ::
  "string option \<Rightarrow> (string option \<Rightarrow> string option \<times> string option) \<Rightarrow> radio_config \<Rightarrow> radio_error + dyn_radio option" where
  "radio_of_config start_error connect c =
     (case rc_integration c of
        Some AudioForVatsim \<Rightarrow>
          (case rc_afv_emit c of
             None \<Rightarrow> Inr None
           | Some None \<Rightarrow> Inr None
           | Some (Some emit) \<Rightarrow> map_sum (\<lambda>e. e) (\<lambda>r. Some (PttRadio r)) (push_to_talk_new start_error emit))
      | Some TrackAudio \<Rightarrow>
          (let (config_error, connect_error) = connect (Option.bind (rc_track_audio_endpoint c) (\<lambda>e. e))
           in map_sum (\<lambda>e. e) (\<lambda>r. Some (TaRadio r)) (snd (track_audio_new config_error connect_error)))
      | None \<Rightarrow> Inr None)"

datatype radio_command_error =
  CapabilityNotAvailable string | EmitKeyNotDistinct | InvalidConfig | RadioErr radio_error | KeybindsFailed | PersistFailed

definition radio_config_validate :: "bool \<Rightarrow> transmit_config \<Rightarrow> radio_config \<Rightarrow> radio_command_error + unit" where
  "radio_config_validate wayland tc c =
     (case (rc_integration c, Option.bind (rc_afv_emit c) (\<lambda>e. e)) of
        (Some AudioForVatsim, Some afv_code) \<Rightarrow>
          (if trigger_option_eq (active_radio_trigger wayland True tc) (Some (Input (KeyCode afv_code)))
           then Inl EmitKeyNotDistinct else Inr ())
      | _ \<Rightarrow> Inr ())"

section \<open>The radio behind its interface\<close>

text \<open>What the outside world answers to a radio: TrackAudio's errors and those of the key emitter, if any.\<close>

record radio_env =
  re_show_err :: "trackaudio_error \<Rightarrow> string"
  re_answer :: "trackaudio_error option"
  re_emitter_failure :: "string option"

fun dyn_transmit :: "radio_env \<Rightarrow> transmission_state \<Rightarrow> dyn_radio \<Rightarrow> dyn_radio \<times> (radio_error + unit)" where
  "dyn_transmit e s (PttRadio r) = map_prod PttRadio (\<lambda>x. x) (ptt_transmit s (re_emitter_failure e) r)"
| "dyn_transmit e s (TaRadio r) = map_prod TaRadio (\<lambda>x. x) (ta_transmit (re_show_err e) s (re_answer e) r)"

fun dyn_reconnect :: "radio_env \<Rightarrow> dyn_radio \<Rightarrow> dyn_radio \<times> (radio_error + unit)" where
  "dyn_reconnect e (PttRadio r) = (PttRadio r, Inr ())"
| "dyn_reconnect e (TaRadio r) = map_prod TaRadio (\<lambda>x. x) (ta_reconnect (re_show_err e) (re_answer e) r)"

fun dyn_state :: "dyn_radio \<Rightarrow> radio_state" where
  "dyn_state (PttRadio r) = ptt_state r"
| "dyn_state (TaRadio r) = radio_state_of r"

fun dyn_get_stations :: "dyn_radio \<Rightarrow> radio_error + radio_station list" where
  "dyn_get_stations (PttRadio r) = Inl RadioNotSupported"
| "dyn_get_stations (TaRadio r) = Inr (ta_station_list r)"

fun dyn_fast_couple :: "dyn_radio \<Rightarrow> set_station_state_cmd list \<times> (radio_error + unit)" where
  "dyn_fast_couple (PttRadio r) = ([], Inl RadioNotSupported)"
| "dyn_fast_couple (TaRadio r) = (fast_couple_commands r, Inr ())"

fun dyn_add_station ::
  "radio_frequency \<Rightarrow> radio_env \<Rightarrow> (string \<Rightarrow> trackaudio_error + station_state) \<Rightarrow> string \<Rightarrow> dyn_radio \<Rightarrow> radio_error + radio_station" where
  "dyn_add_station fallback e api callsign (PttRadio r) = Inl RadioNotSupported"
| "dyn_add_station fallback e api callsign (TaRadio r) = ta_add_station fallback (re_show_err e) (api callsign)"

fun dyn_set_station_state ::
  "radio_frequency \<Rightarrow> radio_env \<Rightarrow> (set_station_state_cmd \<Rightarrow> trackaudio_error + station_state) \<Rightarrow> radio_frequency \<Rightarrow>
   station_state_update \<Rightarrow> dyn_radio \<Rightarrow> radio_error + radio_station" where
  "dyn_set_station_state fallback e api frequency update (PttRadio r) = Inl RadioNotSupported"
| "dyn_set_station_state fallback e api frequency update (TaRadio r) =
     ta_set_station_state fallback (re_show_err e) api frequency update"

fun dyn_drop :: "radio_env \<Rightarrow> dyn_radio \<Rightarrow> dyn_radio" where
  "dyn_drop e (PttRadio r) = PttRadio (push_to_talk_drop (re_emitter_failure e) r)"
| "dyn_drop e (TaRadio r) = TaRadio (track_audio_drop (re_show_err e) (re_answer e) r)"

text \<open>The keybind engine hands its requests to the radio that is installed; errors are logged.\<close>

definition set_radio_transmit :: "radio_env \<Rightarrow> transmission_state \<Rightarrow> dyn_radio option \<Rightarrow> dyn_radio option" where
  "set_radio_transmit e s handle = map_option (\<lambda>radio. fst (dyn_transmit e s radio)) handle"

section \<open>The frontend's commands\<close>

record radio_app =
  ra_radio :: "dyn_radio option"
  ra_config :: radio_config
  ra_transmit_config :: transmit_config
  ra_keybinds :: keybinds_config
  ra_engine :: keybind_engine
  ra_recorder :: bool
  ra_dropped :: "dyn_radio list"

definition installed_radio :: "radio_app \<Rightarrow> radio_error + dyn_radio" where
  "installed_radio a =
     (case ra_radio a of Some radio \<Rightarrow> Inr radio | None \<Rightarrow> Inl (RadioIntegrationError ''No radio configured''))"

definition radio_get_state :: "radio_app \<Rightarrow> radio_state" where
  "radio_get_state a = (case ra_radio a of None \<Rightarrow> NotConfigured | Some radio \<Rightarrow> dyn_state radio)"

definition radio_reconnect :: "radio_env \<Rightarrow> radio_app \<Rightarrow> radio_app \<times> (radio_error + unit)" where
  "radio_reconnect e a =
     (case installed_radio a of
        Inl err \<Rightarrow> (a, Inl err)
      | Inr radio \<Rightarrow> (case dyn_reconnect e radio of (radio, res) \<Rightarrow> (a\<lparr>ra_radio := Some radio\<rparr>, res)))"

definition radio_fast_couple :: "radio_app \<Rightarrow> set_station_state_cmd list \<times> (radio_error + unit)" where
  "radio_fast_couple a = (case installed_radio a of Inl err \<Rightarrow> ([], Inl err) | Inr radio \<Rightarrow> dyn_fast_couple radio)"

definition radio_get_stations :: "radio_app \<Rightarrow> radio_error + radio_station list" where
  "radio_get_stations a = (case installed_radio a of Inl err \<Rightarrow> Inl err | Inr radio \<Rightarrow> dyn_get_stations radio)"

definition radio_add_station ::
  "radio_frequency \<Rightarrow> radio_env \<Rightarrow> (string \<Rightarrow> trackaudio_error + station_state) \<Rightarrow> string \<Rightarrow> radio_app \<Rightarrow> radio_error + radio_station" where
  "radio_add_station fallback e api callsign a =
     (case installed_radio a of Inl err \<Rightarrow> Inl err | Inr radio \<Rightarrow> dyn_add_station fallback e api callsign radio)"

definition radio_set_station_state ::
  "radio_frequency \<Rightarrow> radio_env \<Rightarrow> (set_station_state_cmd \<Rightarrow> trackaudio_error + station_state) \<Rightarrow> radio_frequency \<Rightarrow>
   station_state_update \<Rightarrow> radio_app \<Rightarrow> radio_error + radio_station" where
  "radio_set_station_state fallback e api frequency update a =
     (case installed_radio a of Inl err \<Rightarrow> Inl err | Inr radio \<Rightarrow> dyn_set_station_state fallback e api frequency update radio)"

text \<open>
  Installing a new configuration. The environment also decides whether the frontend's configuration
  is well formed, whether the new radio can be started, how the keyboard listener and the joysticks
  answer, and whether the settings can be written.
\<close>

record set_config_env = radio_env +
  se_keybind_listener :: bool
  se_valid :: bool
  se_start_error :: "string option"
  se_connect :: "string option \<Rightarrow> string option \<times> string option"
  se_wayland :: bool
  se_listener :: "bool option"
  se_joystick_ok :: bool
  se_persist_ok :: bool

definition release_radio :: "radio_env \<Rightarrow> radio_app \<Rightarrow> radio_app" where
  "release_radio e a =
     (case ra_radio a of None \<Rightarrow> a | Some radio \<Rightarrow> a\<lparr>ra_radio := None, ra_dropped := ra_dropped a @ [dyn_drop e radio]\<rparr>)"

definition discard_radio :: "radio_env \<Rightarrow> dyn_radio option \<Rightarrow> radio_app \<Rightarrow> radio_app" where
  "discard_radio e radio a =
     (case radio of None \<Rightarrow> a | Some radio \<Rightarrow> a\<lparr>ra_dropped := ra_dropped a @ [dyn_drop e radio]\<rparr>)"

definition radio_set_config ::
  "set_config_env \<Rightarrow> radio_config \<Rightarrow> radio_app \<Rightarrow> radio_app \<times> (radio_command_error + unit)" where
  "radio_set_config e c a =
     (if \<not> se_keybind_listener e then (a, Inl (CapabilityNotAvailable ''Keybinds''))
      else if \<not> se_valid e then (a, Inl InvalidConfig)
      else case radio_config_validate (se_wayland e) (ra_transmit_config a) c of
        Inl err \<Rightarrow> (a, Inl err)
      | Inr _ \<Rightarrow>
          (let env = radio_env.truncate e; a = (release_radio env a)\<lparr>ra_recorder := False\<rparr>
           in case radio_of_config (se_start_error e) (se_connect e) c of
                Inl err \<Rightarrow> (a, Inl (RadioErr err))
              | Inr new_radio \<Rightarrow>
                  (let enabled = (rc_integration c \<noteq> None);
                       (engine, engine_ok) =
                         (if enabled \<noteq> (rc_integration (ra_config a) \<noteq> None)
                          then engine_set_config (se_wayland e) (se_listener e) (se_joystick_ok e)
                                 (ra_transmit_config a) (ra_keybinds a) enabled (ra_engine a)
                          else (ra_engine a, True));
                       a = a\<lparr>ra_engine := engine\<rparr>
                   in if \<not> engine_ok then (discard_radio env new_radio a, Inl KeybindsFailed)
                      else
                        (a\<lparr>ra_config := c, ra_radio := new_radio\<rparr>,
                         if se_persist_ok e then Inr () else Inl PersistFailed))))"

end
