(* ===== verification/RadioBehaviour.thy ===== *)
theory RadioBehaviour
  imports Radio
begin

text \<open>
  What the radios promise. The locale \<open>keyed_radio\<close> states the contract the keybind engine
  relies on: a radio is keyed only by a request to transmit, and a release that gets through frees
  it. Both radios are instances as long as a request to TrackAudio is answered before anything else
  happens to its state, whatever events, answers and reconnects arrive between the requests. The
  station table of the TrackAudio radio has an invariant of its own, which holds also when requests
  are interrupted.
\<close>

section \<open>The contract of a radio\<close>

text \<open>
  An operation either is a request (to transmit or to stop) or something else; \<open>delivered\<close> says
  whether a request reaches the other program, \<open>keyed\<close> whether that program was last told to transmit.
\<close>

locale keyed_radio =
  fixes exec :: "'op \<Rightarrow> 'r \<Rightarrow> 'r"
    and request :: "'op \<Rightarrow> bool option"
    and delivered :: "'op \<Rightarrow> bool"
    and keyed :: "'r \<Rightarrow> bool"
    and ok :: "'r \<Rightarrow> bool"
  assumes ok_exec: "ok r \<Longrightarrow> request x = Some False \<longrightarrow> delivered x \<Longrightarrow> ok (exec x r)"
    and other_never_keys: "ok r \<Longrightarrow> request x = None \<Longrightarrow> keyed (exec x r) \<Longrightarrow> keyed r"
    and release_frees: "ok r \<Longrightarrow> request x = Some False \<Longrightarrow> delivered x \<Longrightarrow> \<not> keyed (exec x r)"
begin

lemma requests_snoc:
  "List.map_filter request (xs @ [x]) = List.map_filter request xs @ (case request x of None \<Rightarrow> [] | Some b \<Rightarrow> [b])"
  by (simp add: List.map_filter_def split: option.split)

end

sublocale keyed_radio \<subseteq> step_invariant exec "\<lambda>x. request x = Some False \<longrightarrow> delivered x" ok
  by unfold_locales (rule ok_exec)

context keyed_radio
begin

text \<open>If every release gets through, the radio is keyed only if the last request was to transmit.\<close>

lemma keyed_only_if_requested:
  assumes "ok r" "\<not> keyed r" "list_all (\<lambda>x. request x = Some False \<longrightarrow> delivered x) xs" "keyed (run exec xs r)"
  shows "List.map_filter request xs \<noteq> [] \<and> last (List.map_filter request xs)"
  using assms(3,4)
proof (induction xs rule: rev_induct)
  case Nil
  then show ?case using assms(2) by simp
next
  case (snoc x xs)
  then have ok: "ok (run exec xs r)" and all: "list_all (\<lambda>x. request x = Some False \<longrightarrow> delivered x) xs"
    using inv_run [OF assms(1)] by simp_all
  show ?case
  proof (cases "request x")
    case None
    with other_never_keys [OF ok None] snoc all show ?thesis by (simp add: requests_snoc)
  next
    case (Some b)
    with release_frees [OF ok, of x] snoc.prems show ?thesis by (cases b) (simp_all add: requests_snoc)
  qed
qed

end

text \<open>
  A radio in step with its requests also does what it is told: a request that gets through from such
  a state decides whether it is keyed.
\<close>

locale exact_radio = keyed_radio exec request delivered keyed ok
  for exec :: "'op \<Rightarrow> 'r \<Rightarrow> 'r" and request :: "'op \<Rightarrow> bool option" and delivered :: "'op \<Rightarrow> bool"
    and keyed :: "'r \<Rightarrow> bool" and ok :: "'r \<Rightarrow> bool" +
  fixes in_step :: "'r \<Rightarrow> bool"
  assumes in_step_exec: "in_step r \<Longrightarrow> request x = None \<or> delivered x \<Longrightarrow> in_step (exec x r)"
    and request_obeyed: "in_step r \<Longrightarrow> request x = Some b \<Longrightarrow> delivered x \<Longrightarrow> keyed (exec x r) = b"
begin

lemma in_step_run: "in_step r \<Longrightarrow> list_all (\<lambda>x. request x = None \<or> delivered x) xs \<Longrightarrow> in_step (run exec xs r)"
  by (induction xs arbitrary: r) (auto intro: in_step_exec)

lemma last_request_obeyed:
  assumes "in_step r" "list_all (\<lambda>x. request x = None \<or> delivered x) xs" "request x = Some b" "delivered x"
  shows "keyed (run exec (xs @ [x]) r) = b"
  using request_obeyed [OF in_step_run [OF assms(1,2)] assms(3,4)] by simp

text \<open>When nothing but delivered requests happen, the radio does exactly what it was told last.\<close>

lemma keyed_exactly_if_requested:
  assumes "in_step r" "\<not> keyed r" "list_all (\<lambda>x. request x \<noteq> None \<and> delivered x) xs"
  shows "keyed (run exec xs r) \<longleftrightarrow> List.map_filter request xs \<noteq> [] \<and> last (List.map_filter request xs)"
proof (cases xs rule: rev_cases)
  case Nil
  then show ?thesis using assms(2) by (simp add: List.map_filter_def)
next
  case (snoc ys x)
  with assms(3) obtain b where x: "request x = Some b" "delivered x" and ys: "list_all (\<lambda>x. request x = None \<or> delivered x) ys"
    by (auto simp: list_all_iff)
  with last_request_obeyed [OF assms(1) ys x] snoc show ?thesis by (simp add: requests_snoc)
qed

end

section \<open>The TrackAudio radio\<close>

text \<open>The operations, with every request to transmit answered before the next operation.\<close>

datatype ta_op =
    TaRecv bool bool bool ta_recv_result
  | TaVoiceAnswer "bool option"
  | TaStationsAnswer "station_state list option"
  | TaTransmit transmission_state "trackaudio_error option"
  | TaReconnect "trackaudio_error option"

fun ta_exec :: "radio_frequency \<Rightarrow> (trackaudio_error \<Rightarrow> string) \<Rightarrow> ta_op \<Rightarrow> track_audio_radio \<Rightarrow> track_audio_radio" where
  "ta_exec fallback show_err (TaRecv has_radio has_recorder subscribed res) r =
     events_task_step fallback has_radio has_recorder subscribed res r"
| "ta_exec fallback show_err (TaVoiceAnswer answer) r = voice_answer answer r"
| "ta_exec fallback show_err (TaStationsAnswer answer) r = stations_answer fallback answer r"
| "ta_exec fallback show_err (TaTransmit s answer) r = fst (ta_transmit show_err s answer r)"
| "ta_exec fallback show_err (TaReconnect answer) r = fst (ta_reconnect show_err answer r)"

definition wants :: "transmission_state \<Rightarrow> bool" where
  "wants s = (s = Active)"

fun ta_request :: "ta_op \<Rightarrow> bool option" where
  "ta_request (TaTransmit s answer) = Some (wants s)"
| "ta_request _ = None"

fun ta_delivered :: "ta_op \<Rightarrow> bool" where
  "ta_delivered (TaTransmit s (Some err)) = command_reached err"
| "ta_delivered _ = True"

text \<open>Whether TrackAudio was last told to transmit, over the connection it is reached by.\<close>

definition ta_keyed :: "track_audio_radio \<Rightarrow> bool" where
  "ta_keyed r \<longleftrightarrow> ta_sent r \<noteq> [] \<and> last (ta_sent r)"

text \<open>The latch is exactly what TrackAudio was last told, and the commands sent to it alternate.\<close>

definition latch_ok :: "track_audio_radio \<Rightarrow> bool" where
  "latch_ok r \<longleftrightarrow> ta_sent r = map even [0..<length (ta_sent r)] \<and> ta_ptt_active r = odd (length (ta_sent r))"

lemmas ta_state_defs =
  set_transmitting_def set_receiving_def apply_voice_connected_def set_voice_connected_def set_connected_def
  add_station_def update_station_def remove_station_def sync_stations_def handle_connection_state_def

lemma ta_emit_fields [simp]:
  "ta_ptt_active (ta_emit x r) = ta_ptt_active r" "ta_sent (ta_emit x r) = ta_sent r"
  "ta_stations (ta_emit x r) = ta_stations r" "ta_receiving (ta_emit x r) = ta_receiving r"
  "ta_transmit_failures (ta_emit x r) = ta_transmit_failures r" "ta_connected (ta_emit x r) = ta_connected r"
  "ta_voice_connected (ta_emit x r) = ta_voice_connected r" "ta_task (ta_emit x r) = ta_task r"
  by (simp_all add: ta_emit_def)

lemma emit_state_fields [simp]:
  "ta_ptt_active (emit_state r) = ta_ptt_active r" "ta_sent (emit_state r) = ta_sent r"
  "ta_stations (emit_state r) = ta_stations r" "ta_receiving (emit_state r) = ta_receiving r"
  "ta_transmit_failures (emit_state r) = ta_transmit_failures r" "ta_connected (emit_state r) = ta_connected r"
  "ta_voice_connected (emit_state r) = ta_voice_connected r" "ta_task (emit_state r) = ta_task r"
  by (simp_all add: emit_state_def)

lemma ta_clear_fields [simp]:
  "\<not> ta_ptt_active (ta_clear r)" "ta_sent (ta_clear r) = []" "ta_stations (ta_clear r) = []" "ta_receiving (ta_clear r) = []"
  "ta_transmit_failures (ta_clear r) = 0" "\<not> ta_connected (ta_clear r)"
  by (simp_all add: ta_clear_def)

text \<open>Apart from transmitting, an operation keeps the latch with its history, or clears both.\<close>

definition same_latch :: "track_audio_radio \<Rightarrow> track_audio_radio \<Rightarrow> bool" where
  "same_latch r r' \<longleftrightarrow>
     ta_ptt_active r' = ta_ptt_active r \<and> ta_sent r' = ta_sent r \<or> \<not> ta_ptt_active r' \<and> ta_sent r' = []"

lemma same_latch_update_station: "same_latch r (update_station fallback s r)"
  by (auto simp: same_latch_def update_station_def split: option.splits)

lemma same_latch_handle_event: "same_latch r (handle_event fallback has_radio has_recorder event r)"
  using same_latch_update_station [of r fallback]
  by (cases event)
    (auto simp: handle_event_def same_latch_def ta_state_defs Let_def split: ta_connection_state.splits)

lemma same_latch_emit [simp]: "same_latch (ta_emit x r) r' = same_latch r r'"
  by (simp add: same_latch_def)

lemma same_latch_recv: "same_latch r (events_task_step fallback has_radio has_recorder subscribed res r)"
proof (cases "ta_task r = AwaitEvent \<and> \<not> ta_cancelled r")
  case True
  show ?thesis
  proof (cases res)
    case (Received event)
    have "same_latch r (handle_event fallback has_radio has_recorder event (ta_emit (ForwardEvent event) r))"
      using same_latch_handle_event [of "ta_emit (ForwardEvent event) r"] by simp
    with True Received same_latch_handle_event show ?thesis by (simp add: events_task_step_def)
  qed (use True in \<open>auto simp: events_task_step_def same_latch_def\<close>)
qed (auto simp: events_task_step_def same_latch_def)

lemma same_latch_other: "ta_request x = None \<Longrightarrow> same_latch r (ta_exec fallback show_err x r)"
  by (cases x)
    (auto simp: same_latch_recv voice_answer_def stations_answer_def ta_reconnect_def ta_state_defs Let_def split: option.splits,
     auto simp: same_latch_def)

lemma latch_ok_same: "latch_ok r \<Longrightarrow> same_latch r r' \<Longrightarrow> latch_ok r'"
  by (auto simp: latch_ok_def same_latch_def)

lemma rolled_back: "never_enqueued err \<longleftrightarrow> \<not> command_reached err"
  by (cases err) (simp_all add: never_enqueued_def command_reached_def)

lemma transmit_effect:
  assumes "latch_ok r"
  shows "latch_ok (fst (ta_transmit show_err s answer r)) \<and>
    (ta_delivered (TaTransmit s answer) \<longrightarrow> ta_ptt_active (fst (ta_transmit show_err s answer r)) = wants s)"
  using assms
  by (cases s; cases answer)
    (auto simp: ta_transmit_def transmit_begin_def transmit_finish_def rolled_back latch_ok_def wants_def Let_def)

lemma latch_ok_keyed: "latch_ok r \<Longrightarrow> ta_keyed r = ta_ptt_active r"
proof -
  assume "latch_ok r"
  then have sent: "ta_sent r = map even [0..<length (ta_sent r)]" and ptt: "ta_ptt_active r = odd (length (ta_sent r))"
    by (simp_all add: latch_ok_def)
  show ?thesis
  proof (cases "length (ta_sent r)")
    case (Suc n)
    with sent have "ta_sent r = map even [0..<n] @ [even n]" by simp
    with Suc ptt show ?thesis by (simp add: ta_keyed_def)
  qed (use ptt in \<open>simp add: ta_keyed_def\<close>)
qed

lemma latch_ok_exec: "latch_ok r \<Longrightarrow> latch_ok (ta_exec fallback show_err x r)"
proof (cases "ta_request x")
  case None
  then show "latch_ok r \<Longrightarrow> ?thesis" using latch_ok_same same_latch_other by blast
next
  case (Some b)
  then show "latch_ok r \<Longrightarrow> ?thesis" using transmit_effect by (cases x) simp_all
qed

lemma latch_ok_default [simp]: "latch_ok track_audio_default"
  by (simp add: latch_ok_def track_audio_default_def)

lemma other_never_keys_ta:
  "latch_ok r \<Longrightarrow> ta_request x = None \<Longrightarrow> ta_keyed (ta_exec fallback show_err x r) \<Longrightarrow> ta_keyed r"
  using same_latch_other [of x r fallback show_err] by (auto simp: latch_ok_keyed latch_ok_exec same_latch_def)

lemma request_obeyed_ta:
  assumes "latch_ok r" "ta_request x = Some b" "ta_delivered x"
  shows "ta_keyed (ta_exec fallback show_err x r) = b"
proof -
  obtain s answer where "x = TaTransmit s answer" "b = wants s" using assms(2) by (cases x) auto
  with transmit_effect [OF assms(1), of show_err s answer] assms(3) show ?thesis by (simp add: latch_ok_keyed)
qed

interpretation ta: exact_radio "ta_exec fallback show_err" ta_request ta_delivered ta_keyed latch_ok latch_ok
  for fallback show_err
proof
  show "\<not> ta_keyed (ta_exec fallback show_err x r)" if "latch_ok r" "ta_request x = Some False" "ta_delivered x" for r x
    using request_obeyed_ta [OF that] by simp
qed (simp_all add: latch_ok_exec request_obeyed_ta other_never_keys_ta [where fallback = fallback and show_err = show_err])

interpretation ta_run: invariant_system "ta_exec fallback show_err" "\<lambda>_. True" latch_ok track_audio_default
  for fallback show_err
  by unfold_locales (simp_all add: latch_ok_exec)

text \<open>
  While every request is answered before anything else happens, the transmit commands confirmed since
  the state was last cleared alternate between pressing and releasing, beginning with a press, and the
  latch is what was told last, whichever requests fail.
\<close>

theorem ptt_commands_alternate:
  assumes "r = run (ta_exec fallback show_err) ops track_audio_default"
  shows "ta_sent r = map even [0..<length (ta_sent r)] \<and> ta_ptt_active r = ta_keyed r"
proof -
  have "latch_ok r" using ta_run.inv_reachable [of ops fallback show_err] assms by (simp add: list_all_iff)
  with latch_ok_keyed [OF this] show ?thesis by (simp add: latch_ok_def)
qed

definition demo_radio_ops :: "ta_op list" where
  "demo_radio_ops =
     [TaRecv True False False (Received (TaConnectionStateChanged TaConnected)),
      TaTransmit Active None, TaTransmit Active None, TaVoiceAnswer (Some True),
      TaTransmit Inactive (Some TaTimeout), TaTransmit Active (Some (TaSend ''full'')), TaTransmit Active None]"

theorem ptt_commands_alternate_witness:
  "ta_sent (run (ta_exec 199998000 (\<lambda>_. [])) demo_radio_ops track_audio_default) = [True, False, True] \<and>
   ta_ptt_active (run (ta_exec 199998000 (\<lambda>_. [])) demo_radio_ops track_audio_default)"
proof -
  have "ta_sent (run (ta_exec 199998000 (\<lambda>_. [])) demo_radio_ops track_audio_default) = [True, False, True]"
    by code_simp
  then show ?thesis
    using ptt_commands_alternate [OF refl, of 199998000 "\<lambda>_. []" demo_radio_ops] by (simp add: ta_keyed_def)
qed

text \<open>
  The code waits up to a quarter of a second for the answer of a request, and other tasks run in
  between. A release that never reached the client puts
  the latch back to pressed; when the state was cleared in the meantime, the new connection starts
  with a pressed latch, and its first press is dropped as redundant.
\<close>

definition interrupted_release :: track_audio_radio where
  "interrupted_release =
     (let r = run (ta_exec 199998000 (\<lambda>_. []))
            [TaRecv True False False (Received (TaConnectionStateChanged TaConnected)), TaVoiceAnswer (Some True),
             TaStationsAnswer (Some []), TaTransmit Active None] track_audio_default;
          (r, cmd) = transmit_begin Inactive r;
          r = run (ta_exec 199998000 (\<lambda>_. []))
            [TaRecv True True False (Received (TaConnectionStateChanged TaReconnecting)),
             TaRecv True False False (Received (TaConnectionStateChanged TaConnected)), TaVoiceAnswer (Some True),
             TaStationsAnswer (Some [])] r
      in case cmd of Some active \<Rightarrow> fst (transmit_finish (\<lambda>_. []) active (Some (TaSend ''closed'')) r) | None \<Rightarrow> r)"

theorem interrupted_release_drops_press:
  "ta_connected interrupted_release \<and> ta_sent interrupted_release = [] \<and> ta_ptt_active interrupted_release \<and>
   snd (ta_transmit (\<lambda>_. []) Active None interrupted_release) = Inr () \<and>
   ta_sent (fst (ta_transmit (\<lambda>_. []) Active None interrupted_release)) = []"
  by code_simp

section \<open>The station table\<close>

text \<open>
  Every station is listed under its own frequency and available, at most once, and no frequency is
  listed twice as being received.
\<close>

definition stations_ok :: "track_audio_radio \<Rightarrow> bool" where
  "stations_ok r \<longleftrightarrow>
     hm_ok (ta_stations r) \<and> distinct (ta_receiving r) \<and>
     (\<forall>f s. hm_get (ta_stations r) f = Some s \<longrightarrow> rst_frequency s = f \<and> rst_is_available s)"

lemma stations_ok_emit [simp]: "stations_ok (ta_emit x r) = stations_ok r" "stations_ok (emit_state r) = stations_ok r"
  by (simp_all add: stations_ok_def)

lemma stations_ok_clear [simp]: "stations_ok (ta_clear r)"
  by (simp add: stations_ok_def)

lemma stations_ok_flags [simp]:
  "stations_ok (r\<lparr>ta_connected := b\<rparr>) = stations_ok r" "stations_ok (r\<lparr>ta_transmitting := b\<rparr>) = stations_ok r"
  "stations_ok (r\<lparr>ta_voice_connected := b, ta_transmit_failures := n\<rparr>) = stations_ok r"
  "stations_ok (r\<lparr>ta_task := t\<rparr>) = stations_ok r"
  by (simp_all add: stations_ok_def)

lemma merge_station_keeps [simp]:
  "rst_frequency (merge_station s x) = rst_frequency x" "rst_is_available (merge_station s x) = rst_is_available x"
  by (simp_all add: merge_station_def)

lemma stations_ok_update: "stations_ok r \<Longrightarrow> stations_ok (update_station fallback s r)"
  by (auto simp: update_station_def stations_ok_def radio_station_of_def hs_remove_def split: option.splits if_splits)

lemma stations_ok_sync:
  assumes "stations_ok r"
  shows "stations_ok (sync_stations fallback states r)"
proof -
  have "rst_frequency s = f \<and> rst_is_available s"
    if "hm_get (hm_collect (List.map_filter (synced_station fallback) states)) f = Some s" for f s
  proof -
    have "(f, s) \<in> set (List.map_filter (synced_station fallback) states)"
      using that by (auto simp: hm_get_collect dest: map_of_SomeD)
    then show ?thesis
      by (auto simp: List.map_filter_def synced_station_def radio_station_of_def split: if_splits)
  qed
  with assms show ?thesis by (simp add: sync_stations_def Let_def stations_ok_def)
qed

lemma stations_ok_receiving: "stations_ok r \<Longrightarrow> stations_ok (set_receiving f b r)"
  by (auto simp: set_receiving_def stations_ok_def hs_insert_def hs_remove_def)

lemma stations_ok_handle_event:
  "stations_ok r \<Longrightarrow> stations_ok (handle_event fallback has_radio has_recorder event r)"
  by (cases event)
    (auto simp: handle_event_def stations_ok_receiving stations_ok_update stations_ok_sync set_transmitting_def
       set_voice_connected_def apply_voice_connected_def set_connected_def handle_connection_state_def Let_def
       split: ta_connection_state.splits,
     auto simp: stations_ok_def add_station_def remove_station_def hs_remove_def Let_def split: if_splits)

lemma stations_ok_transmit: "stations_ok r \<Longrightarrow> stations_ok (fst (ta_transmit show_err s answer r))"
  by (cases s; cases answer)
    (auto simp: ta_transmit_def transmit_begin_def transmit_finish_def Let_def, auto simp: stations_ok_def)

lemma stations_ok_exec: "stations_ok r \<Longrightarrow> stations_ok (ta_exec fallback show_err x r)"
  by (cases x)
    (auto simp: events_task_step_def stations_ok_handle_event stations_ok_transmit voice_answer_def apply_voice_connected_def
       stations_answer_def stations_ok_sync ta_reconnect_def Let_def split: ta_recv_result.splits option.splits)

text \<open>The operations with requests that are split at the wait for their answer, any number of them at once.\<close>

datatype ta_step = Whole ta_op | RequestBegun transmission_state | RequestAnswered bool "trackaudio_error option"

fun ta_step_exec :: "radio_frequency \<Rightarrow> (trackaudio_error \<Rightarrow> string) \<Rightarrow> ta_step \<Rightarrow> track_audio_radio \<Rightarrow> track_audio_radio" where
  "ta_step_exec fallback show_err (Whole x) r = ta_exec fallback show_err x r"
| "ta_step_exec fallback show_err (RequestBegun s) r = fst (transmit_begin s r)"
| "ta_step_exec fallback show_err (RequestAnswered active answer) r = fst (transmit_finish show_err active answer r)"

lemma stations_ok_step: "stations_ok r \<Longrightarrow> stations_ok (ta_step_exec fallback show_err x r)"
  by (cases "(fallback, show_err, x, r)" rule: ta_step_exec.cases)
    (auto simp: stations_ok_exec transmit_begin_def transmit_finish_def Let_def split: transmission_state.split option.split,
     auto simp: stations_ok_def)

interpretation ta_table: invariant_system "ta_step_exec fallback show_err" "\<lambda>_. True" stations_ok track_audio_default
  for fallback show_err
  by unfold_locales (simp_all add: stations_ok_step, simp add: stations_ok_def track_audio_default_def)

lemma distinct_station_frequencies:
  assumes "stations_ok r"
  shows "distinct (map rst_frequency (ta_station_list r))"
proof -
  have "rst_frequency s = f" if "(f, s) \<in> set (ta_stations r)" for f s
    using assms that by (simp add: stations_ok_def hm_get_iff)
  then have "map rst_frequency (hm_values (ta_stations r)) = hm_keys (ta_stations r)"
    by (auto simp: hm_values_def hm_keys_def)
  with assms show ?thesis by (simp add: ta_station_list_def stations_ok_def hm_ok_def hm_keys_def)
qed

text \<open>
  C19: In whatever order the events of TrackAudio, its answers, transmit requests (interrupted by other
  steps or not) and reconnects happen: the station table lists available stations only, each under its
  own frequency and once, and fast coupling sends exactly one command per listed station that transmits
  uncoupled, for its frequency, which changes nothing but the coupling.
\<close>

theorem fast_couple_exact:
  assumes "r = run (ta_step_exec fallback show_err) steps track_audio_default"
  shows "distinct (map rst_frequency (ta_station_list r)) \<and>
    (\<forall>f s. hm_get (ta_stations r) f = Some s \<longrightarrow> rst_frequency s = f \<and> rst_is_available s) \<and>
    distinct (map sc_frequency (fast_couple_commands r)) \<and>
    set (fast_couple_commands r) =
      {(new_set_station_state f)\<lparr>sc_xca := Some True\<rparr> | f s. hm_get (ta_stations r) f = Some s \<and> rst_tx s \<and> \<not> rst_xca s}"
proof -
  have ok: "stations_ok r" using ta_table.inv_reachable [of steps fallback show_err] assms by (simp add: list_all_iff)
  have "map sc_frequency (fast_couple_commands r) =
      map rst_frequency (filter (\<lambda>s. rst_tx s \<and> \<not> rst_xca s) (ta_station_list r))"
    by (simp add: fast_couple_commands_def new_set_station_state_def)
  with distinct_station_frequencies [OF ok] have "distinct (map sc_frequency (fast_couple_commands r))"
    by (simp add: distinct_map_filter)
  moreover have stored: "s \<in> set (ta_station_list r) \<longleftrightarrow> hm_get (ta_stations r) (rst_frequency s) = Some s" for s
    using ok by (force simp: ta_station_list_def hm_values_def stations_ok_def hm_get_iff)
  have own: "rst_frequency s = f" if "hm_get (ta_stations r) f = Some s" for f s
    using ok that by (simp add: stations_ok_def)
  have "set (fast_couple_commands r) =
      {(new_set_station_state f)\<lparr>sc_xca := Some True\<rparr> | f s. hm_get (ta_stations r) f = Some s \<and> rst_tx s \<and> \<not> rst_xca s}"
    (is "_ = ?commands")
  proof (intro equalityI subsetI)
    show "c \<in> ?commands" if "c \<in> set (fast_couple_commands r)" for c
      using that by (auto simp: fast_couple_commands_def stored)
    show "c \<in> set (fast_couple_commands r)" if "c \<in> ?commands" for c
      using that own by (fastforce simp: fast_couple_commands_def stored)
  qed
  ultimately show ?thesis using ok distinct_station_frequencies [OF ok] by (simp add: stations_ok_def)
qed

definition demo_station :: "radio_frequency \<Rightarrow> bool \<Rightarrow> station_state" where
  "demo_station f xca =
     \<lparr>ss_callsign = None, ss_frequency = Some f, ss_rx = Some True, ss_tx = Some True, ss_xc = None, ss_xca = Some xca,
      ss_headset = None, ss_is_output_muted = None, ss_is_available = True\<rparr>"

text \<open>A request begins before the stations arrive and is answered after one of them was coupled.\<close>

definition demo_steps :: "ta_step list" where
  "demo_steps =
     [Whole (TaRecv True False False (Received (TaConnectionStateChanged TaConnected))), RequestBegun Active,
      Whole (TaVoiceAnswer (Some True)),
      Whole (TaStationsAnswer (Some [demo_station 118100000 False, demo_station 119200000 False, demo_station 121500000 False])),
      Whole (TaRecv True False True (Received (TaStationStateUpdate (demo_station 118100000 True)))),
      RequestAnswered True (Some TaTimeout)]"

definition demo_table :: track_audio_radio where
  "demo_table = run (ta_step_exec 199998000 (\<lambda>_. [])) demo_steps track_audio_default"

theorem fast_couple_exact_witness:
  "distinct (map sc_frequency (fast_couple_commands demo_table)) \<and>
   (new_set_station_state 121500000)\<lparr>sc_xca := Some True\<rparr> \<in> set (fast_couple_commands demo_table) \<and>
   (new_set_station_state 118100000)\<lparr>sc_xca := Some True\<rparr> \<notin> set (fast_couple_commands demo_table)"
proof -
  have "map_option (\<lambda>s. (rst_tx s, rst_xca s)) (hm_get (ta_stations demo_table) 121500000) = Some (True, False)"
    "map_option (\<lambda>s. (rst_tx s, rst_xca s)) (hm_get (ta_stations demo_table) 118100000) = Some (True, True)"
    by code_simp+
  then show ?thesis
    unfolding fast_couple_exact [OF demo_table_def, THEN conjunct2, THEN conjunct2, THEN conjunct2]
    using fast_couple_exact [OF demo_table_def] by (auto simp: new_set_station_state_def)
qed

section \<open>The push-to-talk radio\<close>

datatype ptt_op = PttTransmit transmission_state "string option"

fun ptt_exec :: "ptt_op \<Rightarrow> push_to_talk_radio \<Rightarrow> push_to_talk_radio" where
  "ptt_exec (PttTransmit s failure) r = fst (ptt_transmit s failure r)"

fun ptt_request :: "ptt_op \<Rightarrow> bool option" where
  "ptt_request (PttTransmit s failure) = Some (wants s)"

fun ptt_delivered :: "ptt_op \<Rightarrow> bool" where
  "ptt_delivered (PttTransmit s failure) \<longleftrightarrow> failure = None"

definition ptt_keyed :: "push_to_talk_radio \<Rightarrow> bool" where
  "ptt_keyed r \<longleftrightarrow> ptt_emitted r \<noteq> [] \<and> last (ptt_emitted r) = Down"

interpretation ptt: exact_radio ptt_exec ptt_request ptt_delivered ptt_keyed
  "\<lambda>r. ptt_keyed r \<longrightarrow> ptt_active r" "\<lambda>r. ptt_keyed r = ptt_active r"
proof
  fix r x b
  obtain s failure where x: "x = PttTransmit s failure" by (cases x)
  note defs = x ptt_transmit_def ptt_keyed_def wants_def
  show "ptt_keyed (ptt_exec x r) \<longrightarrow> ptt_active (ptt_exec x r)"
    if "ptt_keyed r \<longrightarrow> ptt_active r" "ptt_request x = Some False \<longrightarrow> ptt_delivered x"
    using that by (cases s; cases failure) (auto simp: defs)
  show "ptt_keyed r" if "ptt_request x = None" using that x by simp
  show "\<not> ptt_keyed (ptt_exec x r)"
    if "ptt_keyed r \<longrightarrow> ptt_active r" "ptt_request x = Some False" "ptt_delivered x"
    using that by (cases s) (auto simp: defs)
  show "ptt_keyed (ptt_exec x r) = ptt_active (ptt_exec x r)"
    if "ptt_keyed r = ptt_active r" "ptt_request x = None \<or> ptt_delivered x"
    using that by (cases s) (auto simp: defs)
  show "ptt_keyed (ptt_exec x r) = b"
    if "ptt_keyed r = ptt_active r" "ptt_request x = Some b" "ptt_delivered x"
    using that by (cases s) (auto simp: defs)
qed

text \<open>
  The push-to-talk radio forgets its latch before it tries to release the key. If the emitter fails
  there, the key stays down: the radio reports itself idle, and neither another release nor
  dropping the radio tries again.
\<close>

theorem failed_release_keeps_key:
  assumes "ptt_keyed r" "ptt_active r" "r' = fst (ptt_transmit Inactive (Some err) r)"
  shows "ptt_keyed r' \<and> ptt_state r' = RxIdle \<and>
    ptt_keyed (fst (ptt_transmit Inactive None r')) \<and> ptt_keyed (push_to_talk_drop None r')"
  using assms by (simp add: ptt_transmit_def ptt_keyed_def ptt_state_def push_to_talk_drop_def)

definition demo_ptt :: push_to_talk_radio where
  "demo_ptt = \<lparr>ptt_code = ''F13'', ptt_active = False, ptt_cancelled = False, ptt_emitted = [], ptt_out = [RxIdle]\<rparr>"

definition demo_failed_release :: push_to_talk_radio where
  "demo_failed_release =
     fst (ptt_transmit Inactive (Some ''no display'') (fst (ptt_transmit Active None demo_ptt)))"

theorem failed_release_keeps_key_witness:
  "ptt_keyed demo_failed_release \<and> ptt_state demo_failed_release = RxIdle \<and>
   ptt_keyed (push_to_talk_drop None demo_failed_release)"
proof -
  have "ptt_keyed (fst (ptt_transmit Active None demo_ptt))" "ptt_active (fst (ptt_transmit Active None demo_ptt))"
    by code_simp+
  from failed_release_keeps_key [OF this demo_failed_release_def] show ?thesis by simp
qed

section \<open>Starting the recorder\<close>

text \<open>
  The delays between the attempts to start the recorder never exceed thirty seconds, but they are
  computed before they are capped: from the sixty-sixth repetition on, the uncapped delay is too
  large for a \<^verbatim>\<open>Duration\<close> and the computation panics.
\<close>

lemma backoff_timeout_panics:
  "backoff_timeout (from_millis 500) (from_secs 30) 2 attempt = None \<longleftrightarrow> 66 \<le> attempt"
proof (cases "attempt \<le> 1")
  case False
  then have "backoff_timeout (from_millis 500) (from_secs 30) 2 attempt = None \<longleftrightarrow>
      from_secs (2 ^ 64) \<le> from_millis 500 * 2 ^ (attempt - 1)"
    by (simp add: backoff_timeout_def Let_def)
  also have "\<dots> \<longleftrightarrow> from_millis 500 * 2 ^ 65 \<le> from_millis 500 * 2 ^ (attempt - 1)"
    by (simp add: from_secs_def from_millis_def)
  also have "\<dots> \<longleftrightarrow> (2 :: nat) ^ 65 \<le> 2 ^ (attempt - 1)"
    unfolding mult_le_cancel1 by (simp add: from_millis_def)
  also have "\<dots> \<longleftrightarrow> 65 \<le> attempt - 1" by (rule power_increasing_iff) simp
  finally show ?thesis using False by auto
qed (auto simp: backoff_timeout_def le_Suc_eq)

lemma starter_retries:
  assumes "n < 66" "turn = TurnNoRadio \<or> turn = TurnFailed"
  shows "starter_step turn (Attempting n) = Attempting (n + 1)"
proof -
  obtain delay where "backoff_timeout (from_millis 500) (from_secs 30) 2 n = Some delay"
    using backoff_timeout_panics [of n] assms(1) by fastforce
  with assms(2) show ?thesis by (auto simp: starter_step_def)
qed

lemma starter_fails:
  assumes "n \<le> 66" "length turns = n" "set turns \<subseteq> {TurnNoRadio, TurnFailed}"
  shows "run starter_step turns (Attempting 0) = Attempting n"
  using assms
proof (induction turns arbitrary: n rule: rev_induct)
  case (snoc turn turns)
  then have prev: "run starter_step turns (Attempting 0) = Attempting (n - 1)" and turn: "turn = TurnNoRadio \<or> turn = TurnFailed"
    by auto
  have "starter_step turn (Attempting (n - 1)) = Attempting n"
    using starter_retries [OF _ turn, of "n - 1"] snoc.prems by simp
  with prev show ?case by simp
qed simp

text \<open>
  A recorder that cannot be started for sixty-six attempts, about half an hour, is therefore never
  started again: the task that retries panics at its next turn.
\<close>

theorem recorder_retry_panics:
  assumes "length turns = 66" "set turns \<subseteq> {TurnNoRadio, TurnFailed}"
  shows "run starter_step (turns @ [turn]) (Attempting 0) = StarterPanicked"
proof -
  have "backoff_timeout (from_millis 500) (from_secs 30) 2 66 = None" by (simp add: backoff_timeout_panics)
  with starter_fails [of 66 turns] assms show ?thesis by (simp add: starter_step_def)
qed

theorem recorder_retry_panics_witness:
  "run starter_step (replicate 66 TurnFailed @ [TurnStarted]) (Attempting 0) = StarterPanicked"
  using recorder_retry_panics [of "replicate 66 TurnFailed" TurnStarted] by simp

section \<open>The keybind engine and the radios\<close>

text \<open>The requests the engine sends to the radio.\<close>

definition transmissions :: "engine_output list \<Rightarrow> bool list" where
  "transmissions out = List.map_filter (\<lambda>x. case x of RadioTransmit b \<Rightarrow> Some b | _ \<Rightarrow> None) out"

lemma transmissions_snoc [simp]:
  "transmissions (out @ [x]) = transmissions out @ (case x of RadioTransmit b \<Rightarrow> [b] | _ \<Rightarrow> [])"
  by (simp add: transmissions_def List.map_filter_def split: engine_output.split)

lemma transmissions_Nil [simp]: "transmissions [] = []"
  by (simp add: transmissions_def List.map_filter_def)

lemma on_air_transmissions: "on_air out \<longleftrightarrow> transmissions out \<noteq> [] \<and> last (transmissions out)"
  by (induction out rule: rev_induct) (simp_all split: engine_output.split)

lemma demo_ptt_new: "push_to_talk_new None ''F13'' = Inr demo_ptt"
  by (simp add: push_to_talk_new_def demo_ptt_def)

text \<open>
  The engine and the radio together, while nothing disturbs the engine in the middle of a key event
  and every request to TrackAudio is answered before anything else happens to the radio's state: whatever
  keys, calls and configurations the engine sees, and whatever events, answers, lost presses and reconnects
  happen between the engine's requests, if the releases get through, the other program is told
  to transmit only while the radio key is held. With the push-to-talk radio and a working emitter it transmits
  exactly when the engine is on the air.
\<close>

theorem other_program_keyed_only_while_held:
  assumes l: "calm_run ops (key_loop_new wayland tc kc radio)" "l = run engine_exec ops (key_loop_new wayland tc kc radio)"
      "kl_stage l = AwaitKey" "k = kl_engine l"
    and ta: "List.map_filter ta_request ta_ops = transmissions (ke_out k)"
      "list_all (\<lambda>x. ta_request x = Some False \<longrightarrow> ta_delivered x) ta_ops"
    and ptt: "push_to_talk_new None code = Inr p" "List.map_filter ptt_request ptt_ops = transmissions (ke_out k)"
      "list_all (\<lambda>x. ptt_request x = Some False \<longrightarrow> ptt_delivered x) ptt_ops"
  shows "(ta_keyed (run (ta_exec fallback show_err) ta_ops track_audio_default) \<longrightarrow> radio_pressed k) \<and>
    (ptt_keyed (run ptt_exec ptt_ops p) \<longrightarrow> radio_pressed k) \<and>
    (list_all ptt_delivered ptt_ops \<longrightarrow> ptt_keyed (run ptt_exec ptt_ops p) = on_air (ke_out k))"
proof -
  have held: "on_air (ke_out k) \<longrightarrow> radio_pressed k"
    using loop_ok_on_air [OF loop_ok_run [OF loop_ok_new l(1)]] l(2-4) by auto
  have p: "\<not> ptt_keyed p" "\<not> ptt_active p" using ptt(1) by (auto simp: push_to_talk_new_def ptt_keyed_def)
  have requests: "list_all (\<lambda>x. ptt_request x \<noteq> None \<and> ptt_delivered x) ptt_ops" if "list_all ptt_delivered ptt_ops"
    using that by (metis (mono_tags, lifting) list_all_iff option.distinct(1) ptt_request.elims)
  have "ta_keyed (run (ta_exec fallback show_err) ta_ops track_audio_default) \<longrightarrow> on_air (ke_out k)"
    using ta.keyed_only_if_requested [OF latch_ok_default _ ta(2)] ta(1)
    by (auto simp: on_air_transmissions ta_keyed_def track_audio_default_def)
  moreover have "ptt_keyed (run ptt_exec ptt_ops p) \<longrightarrow> on_air (ke_out k)"
    using ptt.keyed_only_if_requested [OF _ p(1) ptt(3)] ptt(2) p by (simp add: on_air_transmissions)
  moreover have "ptt_keyed (run ptt_exec ptt_ops p) = on_air (ke_out k)" if "list_all ptt_delivered ptt_ops"
    using ptt.keyed_exactly_if_requested [OF _ p(1) requests [OF that]] ptt(2) p by (simp add: on_air_transmissions)
  ultimately show ?thesis using held by blast
qed

definition demo_held :: "engine_op list" where
  "demo_held = demo_press ''F13'' @ [TellRadio, FinishKey, CallActive True]"

definition demo_engine :: key_loop where
  "demo_engine = run engine_exec demo_held (key_loop_new False demo_transmit demo_keybinds True)"

definition demo_ta_ops :: "ta_op list" where
  "demo_ta_ops =
     [TaRecv True False False (Received (TaConnectionStateChanged TaConnected)), TaTransmit Active (Some TaTimeout)]"

lemma demo_engine_facts:
  "calm_run demo_held (key_loop_new False demo_transmit demo_keybinds True)" "kl_stage demo_engine = AwaitKey"
  "transmissions (ke_out (kl_engine demo_engine)) = [True]"
  by code_simp+

theorem other_program_keyed_only_while_held_witness:
  "ta_keyed (run (ta_exec 199998000 (\<lambda>_. [])) demo_ta_ops track_audio_default) \<and>
   ptt_keyed (run ptt_exec [PttTransmit Active None] demo_ptt) \<and> radio_pressed (kl_engine demo_engine)"
proof -
  have "ta_keyed (run (ta_exec 199998000 (\<lambda>_. [])) demo_ta_ops track_audio_default)"
    "ptt_keyed (run ptt_exec [PttTransmit Active None] demo_ptt)"
    by code_simp+
  moreover have "List.map_filter ta_request demo_ta_ops = [True]"
    "list_all (\<lambda>x. ta_request x = Some False \<longrightarrow> ta_delivered x) demo_ta_ops"
    "List.map_filter ptt_request [PttTransmit Active None] = [True]"
    by code_simp+
  ultimately show ?thesis
    using other_program_keyed_only_while_held [OF demo_engine_facts(1) demo_engine_def demo_engine_facts(2) refl,
        of demo_ta_ops "''F13''" demo_ptt "[PttTransmit Active None]"]
    by (simp add: demo_engine_facts(3) demo_ptt_new wants_def)
qed

section \<open>The emitted key\<close>

text \<open>
  The push-to-talk radio presses a key of the same keyboard the engine listens to. A configuration
  that passes the check keeps that key apart from the trigger of the radio.
\<close>

definition emit_key :: "string \<Rightarrow> trigger" where
  "emit_key code = Input (KeyCode code)"

definition key_apart :: "string \<Rightarrow> keybind_engine \<Rightarrow> bool" where
  "key_apart code k \<longleftrightarrow>
     \<not> trigger_option_eq (ke_radio_trigger k) (Some (emit_key code)) \<and>
     (ke_radio_portal_fallback k \<longrightarrow> \<not> trigger_option_eq (ke_call_trigger k) (Some (emit_key code))) \<and>
     (radio_follows_call k \<longrightarrow> ke_radio_portal_fallback k)"

fun config_apart :: "string \<Rightarrow> engine_op \<Rightarrow> bool" where
  "config_apart code (SetConfig wayland listener joystick_ok tc kc radio) \<longleftrightarrow>
     \<not> trigger_option_eq (active_radio_trigger wayland True tc) (Some (emit_key code))"
| "config_apart code _ \<longleftrightarrow> True"

definition same_triggers :: "keybind_engine \<Rightarrow> keybind_engine \<Rightarrow> bool" where
  "same_triggers k k' \<longleftrightarrow>
     ke_radio_trigger k' = ke_radio_trigger k \<and> ke_call_trigger k' = ke_call_trigger k \<and>
     ke_radio_portal_fallback k' = ke_radio_portal_fallback k \<and> (radio_follows_call k' \<longrightarrow> radio_follows_call k \<or> ke_radio_portal_fallback k)"

lemma key_apart_same: "key_apart code k \<Longrightarrow> same_triggers k k' \<Longrightarrow> key_apart code k'"
  by (auto simp: key_apart_def same_triggers_def)

lemmas engine_op_defs =
  set_call_active_def set_radio_prio_def queue_control_def refresh_radio_follows_call_def key_event_act_def apply_radio_def
  apply_mic_def end_implicit_prio_def reset_input_state_def engine_stop_def engine_start_def spawn_rx_loop_def engine_emit_def

lemma same_triggers_trans: "same_triggers k k' \<Longrightarrow> same_triggers k' k'' \<Longrightarrow> same_triggers k k''"
  by (auto simp: same_triggers_def)

lemma same_triggers_act: "same_triggers k (key_event_act a k)"
  by (simp add: same_triggers_def key_event_act_def apply_radio_def apply_mic_def end_implicit_prio_def engine_emit_def Let_def
      split: option.split)

lemma same_triggers_refresh: "same_triggers k (refresh_radio_follows_call bound (queue_control t state k))"
  by (simp add: same_triggers_def refresh_radio_follows_call_def queue_control_def Let_def split: prod.split)

lemma same_triggers_pressed:
  "same_triggers k (k'\<lparr>call_pressed := b\<rparr>) = same_triggers k k'" "same_triggers k (k'\<lparr>radio_pressed := b\<rparr>) = same_triggers k k'"
  by (simp_all add: same_triggers_def)

lemma same_triggers_key_event: "same_triggers k (key_event bound t state k)"
proof -
  define k1 where "k1 = refresh_radio_follows_call bound (queue_control t state k)"
  obtain c r where cr: "classify_trigger t (ke_call_trigger k1) (ke_radio_trigger k1) (radio_follows_call k1) = (c, r)"
    by (meson surj_pair)
  have "same_triggers k k1" unfolding k1_def by (rule same_triggers_refresh)
  then show ?thesis
    unfolding key_event_eq [OF k1_def cr]
    by (auto simp: Let_def same_triggers_pressed intro!: same_triggers_trans [OF _ same_triggers_act])
qed

lemma same_triggers_control: "same_triggers k (fst (control_step call_id k))"
  by (auto simp: same_triggers_def control_step_def handle_control_event_def engine_op_defs Let_def split: list.splits)

lemma same_triggers_read:
  assumes "key_event_read bound t state k = (k', res)"
  shows "same_triggers k k'"
  using assms same_triggers_refresh [of k bound t state]
  by (auto simp: key_event_read_def Let_def same_triggers_pressed split: prod.splits if_splits)

lemma same_triggers_steps:
  "same_triggers k (apply_radio a k)" "same_triggers k (end_implicit_prio a (apply_mic a k))"
  by (simp_all add: same_triggers_def apply_radio_def apply_mic_def end_implicit_prio_def engine_emit_def Let_def split: option.split)

lemma same_triggers_refl [simp]: "same_triggers k k"
  by (simp add: same_triggers_def)

lemma same_triggers_start: "same_triggers k (fst (engine_start listener joystick_ok k))"
  by (auto simp: same_triggers_def engine_start_def spawn_rx_loop_def refresh_radio_follows_call_def Let_def)

lemma same_triggers_stop: "same_triggers k (engine_stop k)"
  by (auto simp: same_triggers_def engine_stop_def reset_input_state_def engine_emit_def Let_def)

lemma same_triggers_flags: "same_triggers k (set_call_active active k)" "same_triggers k (set_radio_prio prio k)"
  by (auto simp: same_triggers_def set_call_active_def set_radio_prio_def engine_emit_def Let_def)

lemma same_triggers_exec:
  "\<forall>w l j tc kc r. x \<noteq> SetConfig w l j tc kc r \<Longrightarrow> same_triggers (kl_engine l) (kl_engine (engine_exec x l))"
  by (cases x)
    (auto simp: same_triggers_control same_triggers_steps same_triggers_start same_triggers_stop same_triggers_flags
       on_engine_def abort_loop_def dest: same_triggers_read split: prod.split option.split loop_stage.split)

lemma key_apart_configure:
  assumes "\<not> trigger_option_eq (active_radio_trigger wayland True tc) (Some (emit_key code))"
  shows "key_apart code (engine_configure wayland tc kc radio k)"
  using assms
  by (auto simp: key_apart_def engine_configure_def active_radio_trigger_def radio_falls_back_to_call_def emit_key_def
      active_call_trigger_def compose_wayland_trigger_def split: if_splits option.splits input_code.splits)

lemma key_apart_exec:
  assumes "config_apart code x" "key_apart code (kl_engine l)"
  shows "key_apart code (kl_engine (engine_exec x l))"
proof (cases x)
  case (SetConfig wayland listener joystick_ok tc kc radio)
  let ?conf = "engine_configure wayland tc kc radio (engine_stop (kl_engine l))"
  let ?k = "reset_input_state ?conf"
  have "key_apart code ?conf" using assms(1) by (simp add: SetConfig key_apart_configure)
  moreover have "same_triggers ?conf ?k"
    by (auto simp: same_triggers_def reset_input_state_def engine_emit_def Let_def)
  ultimately have "key_apart code (fst (engine_start listener joystick_ok ?k))"
    using same_triggers_start key_apart_same by blast
  then show ?thesis by (simp add: SetConfig engine_set_config_def on_engine_def abort_loop_def)
qed (metis assms(2) key_apart_same same_triggers_exec engine_op.distinct)+

interpretation emitted: step_invariant engine_exec "config_apart code" "\<lambda>l. key_apart code (kl_engine l)" for code
  by unfold_locales (rule key_apart_exec)

lemma apart_key_event:
  assumes "key_apart code k"
  shows "transmissions (ke_out (key_event bound (emit_key code) state k)) = transmissions (ke_out k)"
proof -
  define k1 where "k1 = refresh_radio_follows_call bound (queue_control (emit_key code) state k)"
  have out: "ke_out k1 = ke_out k"
    by (simp add: k1_def refresh_radio_follows_call_def queue_control_def Let_def split: prod.split)
  have "same_triggers k k1" unfolding k1_def by (rule same_triggers_refresh)
  then have "key_apart code k1" using assms key_apart_same by blast
  then obtain c where "classify_trigger (emit_key code) (ke_call_trigger k1) (ke_radio_trigger k1) (radio_follows_call k1) = (c, False)"
    by (auto simp: classify_trigger_def key_apart_def Let_def)
  from key_event_eq [OF k1_def this] out show ?thesis
    by (auto simp: Let_def key_event_act_def apply_radio_def apply_mic_def end_implicit_prio_def engine_emit_def split: option.split)
qed

lemma validate_apart:
  assumes "radio_config_validate wayland tc c = Inr ()" "rc_integration c = Some AudioForVatsim" "rc_afv_emit c = Some (Some code)"
  shows "\<not> trigger_option_eq (active_radio_trigger wayland True tc) (Some (emit_key code))"
  using assms by (simp add: radio_config_validate_def emit_key_def split: if_splits)

text \<open>
  With a radio configuration that was checked against every key configuration the engine has seen,
  the key the push-to-talk radio presses never reaches the radio again: seen by the engine, it
  causes no request to the radio, whatever happened before.
\<close>

theorem emitted_key_never_rekeys:
  assumes "rc_integration c = Some AudioForVatsim" "rc_afv_emit c = Some (Some code)"
    and "radio_config_validate wayland tc c = Inr ()"
    and "list_all (\<lambda>x. case x of SetConfig w l j tc' kc' r \<Rightarrow> radio_config_validate w tc' c = Inr () | _ \<Rightarrow> True) ops"
    and "l = run engine_exec ops (key_loop_new wayland tc kc radio)"
  shows "transmissions (ke_out (key_event bound (Input (KeyCode code)) state (kl_engine l))) = transmissions (ke_out (kl_engine l))"
proof -
  have "key_apart code (kl_engine (key_loop_new wayland tc kc radio))"
    using validate_apart [OF assms(3,1,2)] by (simp add: key_loop_new_def engine_new_def key_apart_configure)
  moreover have "config_apart code x" if "x \<in> set ops" for x
    using assms(4) that validate_apart [OF _ assms(1,2)] by (cases x) (auto simp: list_all_iff)
  ultimately have "key_apart code (kl_engine l)"
    using emitted.inv_run [of code "key_loop_new wayland tc kc radio" ops] assms(5) by (simp add: list_all_iff)
  from apart_key_event [OF this] show ?thesis by (simp add: emit_key_def)
qed

definition demo_afv :: radio_config where
  "demo_afv = \<lparr>rc_integration = Some AudioForVatsim, rc_afv_emit = Some (Some ''F14''), rc_track_audio_endpoint = None\<rparr>"

theorem emitted_key_never_rekeys_witness:
  "transmissions (ke_out (key_event None (Input (KeyCode ''F14'')) Down (kl_engine demo_engine))) = [True]"
proof -
  have "radio_config_validate False demo_transmit demo_afv = Inr ()" by code_simp
  then show ?thesis
    using emitted_key_never_rekeys [OF _ _ _ _ demo_engine_def, of demo_afv "''F14''" None Down]
    by (simp add: demo_afv_def demo_engine_facts(3) demo_held_def demo_press_def)
qed

section \<open>Changing the radio\<close>

lemma validate_errors: "radio_config_validate wayland tc c = Inl err \<Longrightarrow> err = EmitKeyNotDistinct"
  by (auto simp: radio_config_validate_def split: prod.splits option.splits radio_integration.splits if_splits)

text \<open>
  Installing a radio configuration is refused with nothing changed when keybinds are not available or
  the configuration is not acceptable. Otherwise the old radio is dropped and released and the
  recorder stopped; if the new radio or the keybind engine cannot be started, no radio is left
  and the old configuration stays, and only then; else the new radio is installed with its
  configuration, also when the settings cannot be written.
\<close>

theorem radio_set_config_outcomes:
  assumes "radio_set_config e c a = (a', res)"
  shows "case res of
      Inl (CapabilityNotAvailable _) \<Rightarrow> a' = a
    | Inl InvalidConfig \<Rightarrow> a' = a
    | Inl EmitKeyNotDistinct \<Rightarrow> a' = a
    | Inl (RadioErr err) \<Rightarrow>
        radio_of_config (se_start_error e) (se_connect e) c = Inl err \<and> radio_get_state a' = NotConfigured \<and>
        ra_config a' = ra_config a \<and> ra_engine a' = ra_engine a \<and> \<not> ra_recorder a'
    | Inl KeybindsFailed \<Rightarrow>
        radio_get_state a' = NotConfigured \<and> ra_config a' = ra_config a \<and> \<not> ra_recorder a' \<and> \<not> se_joystick_ok e \<and>
        (rc_integration c = None) \<noteq> (rc_integration (ra_config a) = None)
    | _ \<Rightarrow>
        radio_of_config (se_start_error e) (se_connect e) c = Inr (ra_radio a') \<and> ra_config a' = c \<and> \<not> ra_recorder a' \<and>
        ra_dropped a' = ra_dropped a @ (case ra_radio a of None \<Rightarrow> [] | Some r \<Rightarrow> [dyn_drop (radio_env.truncate e) r])"
proof -
  have engine: "\<not> se_joystick_ok e"
    if "engine_set_config w l (se_joystick_ok e) tc kc b k = (k', False)" for w l tc kc b k k'
    using that by (auto simp: engine_set_config_def engine_start_def Let_def split: if_splits)
  show ?thesis
    using assms validate_errors [of "se_wayland e" "ra_transmit_config a" c]
    by (auto simp: radio_set_config_def release_radio_def discard_radio_def radio_get_state_def Let_def
        split: if_splits sum.splits option.splits prod.splits dest: engine)
qed

definition demo_radio_app :: radio_app where
  "demo_radio_app =
     \<lparr>ra_radio = Some (PttRadio (fst (ptt_transmit Active None demo_ptt))), ra_config = demo_afv, ra_transmit_config = demo_transmit,
      ra_keybinds = demo_keybinds, ra_engine = kl_engine demo_engine, ra_recorder = True, ra_dropped = []\<rparr>"

definition demo_track_audio :: radio_config where
  "demo_track_audio = \<lparr>rc_integration = Some TrackAudio, rc_afv_emit = None, rc_track_audio_endpoint = None\<rparr>"

definition demo_config_env :: set_config_env where
  "demo_config_env =
     \<lparr>re_show_err = (\<lambda>_. []), re_answer = None, re_emitter_failure = None, se_keybind_listener = True, se_valid = True,
      se_start_error = None, se_connect = (\<lambda>_. (None, Some ''refused'')), se_wayland = False, se_listener = None,
      se_joystick_ok = True, se_persist_ok = True\<rparr>"

theorem radio_set_config_outcomes_witness:
  "radio_get_state (fst (radio_set_config demo_config_env demo_track_audio demo_radio_app)) = NotConfigured \<and>
   ra_config (fst (radio_set_config demo_config_env demo_track_audio demo_radio_app)) = demo_afv"
proof -
  have "snd (radio_set_config demo_config_env demo_track_audio demo_radio_app) =
      Inl (RadioErr (RadioIntegrationError ''Failed to connect to TrackAudio: refused''))"
    by code_simp
  then show ?thesis
    using radio_set_config_outcomes [OF surjective_pairing, of demo_config_env demo_track_audio demo_radio_app]
    by (simp add: demo_radio_app_def)
qed

section \<open>An answer after the end of the radio\<close>

text \<open>
  Dropping the radio cancels the events task, but a handler that waits for an answer still finishes.
  The frontend, told that no radio is configured, is then told that the radio is disconnected.
\<close>

theorem late_answer_after_drop:
  "let r = run (ta_exec 199998000 (\<lambda>_. []))
         [TaRecv True False False (Received (TaConnectionStateChanged TaConnected)), TaVoiceAnswer (Some True)] track_audio_default;
       r = track_audio_drop (\<lambda>_. []) None r
   in last (ta_out r) = EmitState NotConfigured \<and>
      last (ta_out (stations_answer 199998000 (Some []) r)) = EmitState RadioDisconnected"
  by code_simp

end
