(* ===== verification/Signaling.thy ===== *)
theory Signaling
  imports Server
begin

text \<open>
  The signaling client (\<^verbatim>\<open>vacs-signaling/src/client.rs\<close>, \<^verbatim>\<open>matcher.rs\<close>, \<^verbatim>\<open>error.rs\<close>): the queue of
  waiters for server messages, the gate that limits automatic reconnects, the retry delays, and the
  connection state machine with login, disconnect, reconnect and the supervisor, and the client's
  token provider (\<^verbatim>\<open>vacs-client/src/signaling/auth.rs\<close>). The websocket, the HTTP request for a token
  and the random generator are parameters; a call that awaits its result is one step. The lemmas bound the reconnects and their delays, show that a failed connection attempt
  leaves the client disconnected and that reporting it never panics, and what the waiter queue does
  with waiters that gave up.
\<close>

section \<open>Errors\<close>

datatype transport_failure_reason = SendFailure string | ReceiveFailure string | CloseFailure string

datatype reconnect_failure_reason = ConnectionFailure | ReconnectLoginFailed login_failure_reason | OtherReconnectFailure string

datatype signaling_runtime_error =
    SigDisconnectedError "disconnect_reason option"
  | ReconnectFailed reconnect_failure_reason
  | ReconnectSuppressed instant
  | ServerError error_reason
  | TransportError transport_failure_reason
  | SerializationError string
  | RateLimitedUntil instant

datatype signaling_error =
    LoginError login_failure_reason
  | ConnectError
  | ProtocolError string
  | TimeoutError string
  | RuntimeError signaling_runtime_error
  | OtherSignalingError string

definition err_can_reconnect :: "signaling_runtime_error \<Rightarrow> bool" where
  "err_can_reconnect err =
     (case err of SigDisconnectedError reason \<Rightarrow> reason = None | ServerError _ \<Rightarrow> True | TransportError _ \<Rightarrow> True | _ \<Rightarrow> False)"

definition needs_session_terminate :: "signaling_runtime_error \<Rightarrow> bool" where
  "needs_session_terminate err =
     (case err of SigDisconnectedError reason \<Rightarrow> reason = None | TransportError _ \<Rightarrow> True | _ \<Rightarrow> False)"

definition is_fatal :: "signaling_runtime_error \<Rightarrow> bool" where
  "is_fatal err =
     (case err of
        SigDisconnectedError _ \<Rightarrow> True
      | ReconnectFailed _ \<Rightarrow> True
      | ReconnectSuppressed _ \<Rightarrow> True
      | ServerError _ \<Rightarrow> True
      | TransportError _ \<Rightarrow> True
      | _ \<Rightarrow> False)"

text \<open>The conversion of an error into the reason of a failed reconnect; \<open>None\<close> is the panic of \<^verbatim>\<open>unreachable!\<close>.\<close>

definition reconnect_failure_of :: "signaling_error \<Rightarrow> reconnect_failure_reason option" where
  "reconnect_failure_of err =
     (case err of
        LoginError reason \<Rightarrow> Some (ReconnectLoginFailed reason)
      | ConnectError \<Rightarrow> Some ConnectionFailure
      | ProtocolError reason \<Rightarrow> Some (OtherReconnectFailure reason)
      | TimeoutError reason \<Rightarrow> Some (OtherReconnectFailure reason)
      | RuntimeError e \<Rightarrow>
          (case e of
             SigDisconnectedError _ \<Rightarrow> Some ConnectionFailure
           | ServerError _ \<Rightarrow> Some ConnectionFailure
           | SerializationError _ \<Rightarrow> Some ConnectionFailure
           | _ \<Rightarrow> None)
      | OtherSignalingError reason \<Rightarrow> Some (OtherReconnectFailure reason))"

section \<open>The response matcher\<close>

text \<open>
  A waiter is known by a number. Its entry stays in the queue when its timeout expires; what changes
  is that nobody listens to its responder any more.
\<close>

record matcher_entry =
  me_predicate :: "server_message \<Rightarrow> bool"
  me_waiter :: nat

record response_matcher =
  rm_queue :: "matcher_entry list"
  rm_listening :: "nat list"
  rm_delivered :: "(nat \<times> server_message) list"

definition matcher_new :: response_matcher where
  "matcher_new = \<lparr>rm_queue = [], rm_listening = [], rm_delivered = []\<rparr>"

definition wait_for :: "nat \<Rightarrow> (server_message \<Rightarrow> bool) \<Rightarrow> response_matcher \<Rightarrow> response_matcher" where
  "wait_for waiter predicate m =
     m\<lparr>rm_queue := rm_queue m @ [\<lparr>me_predicate = predicate, me_waiter = waiter\<rparr>], rm_listening := rm_listening m @ [waiter]\<rparr>"

definition waiter_timeout :: "nat \<Rightarrow> response_matcher \<Rightarrow> response_matcher" where
  "waiter_timeout waiter m = m\<lparr>rm_listening := filter (\<lambda>w. w \<noteq> waiter) (rm_listening m)\<rparr>"

text \<open>The position of the first match is removed; sending to a waiter that gave up fails silently.\<close>

fun remove_match :: "server_message \<Rightarrow> matcher_entry list \<Rightarrow> (matcher_entry \<times> matcher_entry list) option" where
  "remove_match msg [] = None"
| "remove_match msg (entry # queue) =
     (if me_predicate entry msg then Some (entry, queue)
      else map_option (\<lambda>(found, rest). (found, entry # rest)) (remove_match msg queue))"

definition try_match :: "server_message \<Rightarrow> response_matcher \<Rightarrow> response_matcher" where
  "try_match msg m =
     (case remove_match msg (rm_queue m) of
        None \<Rightarrow> m
      | Some (entry, queue) \<Rightarrow>
          if me_waiter entry \<in> set (rm_listening m)
          then m\<lparr>rm_queue := queue, rm_listening := filter (\<lambda>w. w \<noteq> me_waiter entry) (rm_listening m),
                 rm_delivered := rm_delivered m @ [(me_waiter entry, msg)]\<rparr>
          else m\<lparr>rm_queue := queue\<rparr>)"

text \<open>Clearing drops the responders, which tells every waiter that it was disconnected.\<close>

definition matcher_clear :: "response_matcher \<Rightarrow> response_matcher" where
  "matcher_clear m = m\<lparr>rm_queue := [], rm_listening := filter (\<lambda>w. w \<notin> me_waiter ` set (rm_queue m)) (rm_listening m)\<rparr>"

section \<open>Retry delays\<close>

definition retry_base :: duration where
  "retry_base = from_millis 100"

definition retry_cap :: duration where
  "retry_cap = from_secs 5"

text \<open>The argument \<open>random_range\<close> draws a number up to a bound.\<close>

definition retry_timeout :: "(nat \<Rightarrow> nat) \<Rightarrow> nat \<Rightarrow> duration" where
  "retry_timeout random_range attempt =
     (if attempt = 0 then from_millis 0
      else
        (let exp_nanos = min (retry_base * 2 ^ min (attempt - 1) 63) (2 ^ 128 - 1);
             max_delay_nanos = min exp_nanos retry_cap;
             jitter_nanos = (if max_delay_nanos = 0 then 0 else random_range max_delay_nanos)
         in min jitter_nanos (2 ^ 64 - 1)))"

section \<open>The reconnect gate\<close>

record reconnect_gate =
  rg_max_in_window :: nat
  rg_window :: duration
  rg_cooldown :: duration
  rg_recent :: "instant list"
  rg_suppressed_until :: "instant option"

text \<open>A threshold of zero is refused by an assertion; \<open>None\<close> is its panic.\<close>

definition gate_new :: "nat \<Rightarrow> duration \<Rightarrow> duration \<Rightarrow> reconnect_gate option" where
  "gate_new max_in_window window cooldown =
     (if max_in_window = 0 then None
      else Some \<lparr>rg_max_in_window = max_in_window, rg_window = window, rg_cooldown = cooldown, rg_recent = [],
        rg_suppressed_until = None\<rparr>)"

definition gate_default :: reconnect_gate where
  "gate_default = the (gate_new 3 (from_secs 60) (from_secs 120))"

definition gate_prune :: "instant \<Rightarrow> reconnect_gate \<Rightarrow> reconnect_gate" where
  "gate_prune now g = g\<lparr>rg_recent := dropWhile (\<lambda>t. now - t > rg_window g) (rg_recent g)\<rparr>"

definition can_reconnect :: "instant \<Rightarrow> reconnect_gate \<Rightarrow> reconnect_gate \<times> instant option" where
  "can_reconnect now g =
     (case rg_suppressed_until g of
        Some until \<Rightarrow>
          if now < until then (g, Some until)
          else
            (let g = gate_prune now (g\<lparr>rg_suppressed_until := None\<rparr>)
             in if rg_max_in_window g \<le> length (rg_recent g)
                then (g\<lparr>rg_suppressed_until := Some (now + rg_cooldown g)\<rparr>, Some (now + rg_cooldown g))
                else (g, None))
      | None \<Rightarrow>
          (let g = gate_prune now g
           in if rg_max_in_window g \<le> length (rg_recent g)
              then (g\<lparr>rg_suppressed_until := Some (now + rg_cooldown g)\<rparr>, Some (now + rg_cooldown g))
              else (g, None)))"

definition on_reconnect :: "instant \<Rightarrow> reconnect_gate \<Rightarrow> reconnect_gate" where
  "on_reconnect now g = gate_prune now (g\<lparr>rg_recent := rg_recent g @ [now]\<rparr>)"

definition gate_clear :: "reconnect_gate \<Rightarrow> reconnect_gate" where
  "gate_clear g = g\<lparr>rg_recent := [], rg_suppressed_until := None\<rparr>"

section \<open>The connection\<close>

datatype connection_state = ClientDisconnectedState | ClientConnectedState | ClientLoggedInState

datatype signaling_event =
    ConnectedEvent client_info "protocol_profile active_profile" "station_id list" "u32 option"
  | MessageEvent server_message
  | ErrorEvent signaling_runtime_error

text \<open>What the client waits for after its login: a message, or how the waiting failed.\<close>

datatype recv_result = Received server_message | RecvTimeout | RecvShutdown | RecvClosed string

text \<open>
  What the world answers, by the number of the connection attempt; \<open>ws_token\<close> is the request for a token
  with the text of its error, \<open>protocol_version_text\<close> a constant.
\<close>

record signaling_env =
  transport_connect :: "nat \<Rightarrow> bool"
  ws_token :: "nat \<Rightarrow> string + string"
  serialize_error :: "client_message \<Rightarrow> string option"
  writer_alive :: "nat \<Rightarrow> bool"
  login_reply :: "nat \<Rightarrow> recv_result"
  protocol_version_text :: string

record signaling_client =
  sc_state :: connection_state
  sc_send_tx :: bool
  sc_matcher :: response_matcher
  sc_gate :: reconnect_gate
  sc_custom_profile :: bool
  sc_position_id :: "position_id option"
  sc_reconnect_max_tries :: nat
  sc_sent :: "client_message list"
  sc_events :: "signaling_event list"
  sc_attempts :: nat
  sc_terminated :: nat

definition signaling_client_new :: "bool \<Rightarrow> nat \<Rightarrow> signaling_client" where
  "signaling_client_new custom_profile reconnect_max_tries =
     \<lparr>sc_state = ClientDisconnectedState, sc_send_tx = False, sc_matcher = matcher_new, sc_gate = gate_default,
      sc_custom_profile = custom_profile, sc_position_id = None, sc_reconnect_max_tries = reconnect_max_tries,
      sc_sent = [], sc_events = [], sc_attempts = 0, sc_terminated = 0\<rparr>"

definition broadcast_event :: "signaling_event \<Rightarrow> signaling_client \<Rightarrow> signaling_client" where
  "broadcast_event event c = c\<lparr>sc_events := sc_events c @ [event]\<rparr>"

definition client_send :: "signaling_env \<Rightarrow> client_message \<Rightarrow> signaling_client \<Rightarrow> signaling_client \<times> signaling_error option" where
  "client_send e msg c =
     (if sc_state c = ClientDisconnectedState then (c, Some (RuntimeError (SigDisconnectedError None)))
      else if sc_state c = ClientConnectedState \<and> (case msg of MsgLogin _ \<Rightarrow> False | _ \<Rightarrow> True)
      then (c, Some (RuntimeError (SigDisconnectedError None)))
      else if \<not> sc_send_tx c then (c, Some (RuntimeError (SigDisconnectedError None)))
      else case serialize_error e msg of
             Some err \<Rightarrow> (c, Some (RuntimeError (SerializationError err)))
           | None \<Rightarrow>
               if writer_alive e (sc_attempts c) then (c\<lparr>sc_sent := sc_sent c @ [msg]\<rparr>, None)
               else (c, Some (RuntimeError (SigDisconnectedError None))))"

definition client_cleanup :: "signaling_client \<Rightarrow> signaling_client" where
  "client_cleanup c = c\<lparr>sc_matcher := matcher_clear (sc_matcher c), sc_send_tx := False\<rparr>"

definition client_disconnect :: "signaling_env \<Rightarrow> bool \<Rightarrow> signaling_client \<Rightarrow> signaling_client" where
  "client_disconnect e requested c =
     (let c = (if sc_state c \<noteq> ClientDisconnectedState then fst (client_send e MsgLogout c) else c);
          c = client_cleanup (c\<lparr>sc_state := ClientDisconnectedState\<rparr>)
      in if requested then c\<lparr>sc_gate := gate_clear (sc_gate c)\<rparr> else c)"

definition client_recv :: "signaling_env \<Rightarrow> signaling_client \<Rightarrow> signaling_error + server_message" where
  "client_recv e c =
     (if sc_state c = ClientDisconnectedState then Inl (RuntimeError (SigDisconnectedError None))
      else case login_reply e (sc_attempts c) of
             Received msg \<Rightarrow> Inr msg
           | RecvTimeout \<Rightarrow> Inl (TimeoutError ''Timeout waiting for message'')
           | RecvShutdown \<Rightarrow> Inl (TimeoutError ''Shutdown signal received'')
           | RecvClosed err \<Rightarrow> Inl (OtherSignalingError err))"

text \<open>The token provider of the client.\<close>

definition get_token :: "signaling_env \<Rightarrow> nat \<Rightarrow> signaling_error + string" where
  "get_token e n = (case ws_token e n of Inl err \<Rightarrow> Inl (ProtocolError err) | Inr token \<Rightarrow> Inr token)"

type_synonym login_info = "client_info \<times> protocol_profile active_profile \<times> station_id list \<times> u32 option"

definition client_login :: "signaling_env \<Rightarrow> signaling_client \<Rightarrow> signaling_client \<times> (signaling_error + login_info)" where
  "client_login e c =
     (case get_token e (sc_attempts c) of
        Inl err \<Rightarrow> (c, Inl err)
      | Inr token \<Rightarrow>
          (case client_send e (MsgLogin \<lparr>login_token = token, login_protocol_version = protocol_version_text e,
                  login_custom_profile = sc_custom_profile c, login_position_id = sc_position_id c\<rparr>) c of
             (c, Some err) \<Rightarrow> (c, Inl err)
           | (c, None) \<Rightarrow>
               (c, case client_recv e c of
                     Inl err \<Rightarrow> Inl err
                   | Inr (SessionInfo info) \<Rightarrow>
                       (case ses_profile info of
                          Changed profile \<Rightarrow>
                            Inr (ses_client info, profile, ses_default_call_sources info, ses_max_conf_size info)
                        | _ \<Rightarrow> Inl (ProtocolError ''Expected active profile after Login''))
                   | Inr (LoginFailure reason) \<Rightarrow> Inl (LoginError reason)
                   | Inr (Error error) \<Rightarrow> Inl (RuntimeError (ServerError (em_reason error)))
                   | Inr other \<Rightarrow> Inl (ProtocolError ''Expected own session info after Login''))))"

definition client_connect :: "signaling_env \<Rightarrow> signaling_client \<Rightarrow> signaling_client \<times> signaling_error option" where
  "client_connect e c =
     (let c = c\<lparr>sc_attempts := sc_attempts c + 1\<rparr>
      in if \<not> transport_connect e (sc_attempts c) then (c, Some ConnectError)
         else
           (let c = c\<lparr>sc_send_tx := True, sc_state := ClientConnectedState\<rparr>
            in case client_login e c of
                 (c, Inr (client_info, profile, default_call_sources, conf_size)) \<Rightarrow>
                   (broadcast_event (ConnectedEvent client_info profile default_call_sources conf_size)
                      (c\<lparr>sc_state := ClientLoggedInState\<rparr>), None)
               | (c, Inl err) \<Rightarrow> (client_disconnect e False c, Some err)))"

section \<open>Reconnecting\<close>

text \<open>
  The attempts left, counted down from the configured number. The argument \<open>shutdown\<close> says at which
  attempt the shutdown signal ends the waiting for the next one.
\<close>

fun reconnect_loop ::
  "signaling_env \<Rightarrow> (nat \<Rightarrow> bool) \<Rightarrow> bool \<Rightarrow> nat \<Rightarrow> signaling_error \<Rightarrow> signaling_client \<Rightarrow> signaling_client \<times> signaling_error option" where
  "reconnect_loop e shutdown terminate 0 reconnect_error c = (c, Some reconnect_error)"
| "reconnect_loop e shutdown terminate (Suc left) reconnect_error c =
     (let c = (if terminate then c\<lparr>sc_terminated := sc_terminated c + 1\<rparr> else c)
      in case client_connect e c of
           (c, None) \<Rightarrow> (c, None)
         | (c, Some err) \<Rightarrow>
             if left > 0 \<and> shutdown (sc_attempts c) then (c, None)
             else reconnect_loop e shutdown terminate left err c)"

text \<open>The result is an error to report, with \<open>Some None\<close> where its conversion panics.\<close>

definition reconnect ::
  "signaling_env \<Rightarrow> (nat \<Rightarrow> bool) \<Rightarrow> bool \<Rightarrow> signaling_client \<Rightarrow> signaling_client \<times> reconnect_failure_reason option option" where
  "reconnect e shutdown terminate c =
     (if sc_reconnect_max_tries c = 0 then (c, None)
      else case reconnect_loop e shutdown terminate (sc_reconnect_max_tries c) (OtherSignalingError ''Unknown'') c of
             (c, None) \<Rightarrow> (c, None)
           | (c, Some err) \<Rightarrow> (c, Some (reconnect_failure_of err)))"

text \<open>
  The supervisor takes an event from the broadcast channel. The handler of the application is
  called with it in every case; what it does is not modelled.
\<close>

definition supervise ::
  "signaling_env \<Rightarrow> (nat \<Rightarrow> bool) \<Rightarrow> instant \<Rightarrow> signaling_event \<Rightarrow> signaling_client \<Rightarrow> signaling_client" where
  "supervise e shutdown now event c =
     (case event of
        ErrorEvent err \<Rightarrow>
          if is_fatal err
          then
            (let c = client_disconnect e False c
             in if err_can_reconnect err
                then
                  (case can_reconnect now (sc_gate c) of
                     (g, Some until) \<Rightarrow>
                       broadcast_event (ErrorEvent (ReconnectSuppressed until)) (c\<lparr>sc_gate := gate_clear g\<rparr>)
                   | (g, None) \<Rightarrow>
                       (case reconnect e shutdown (needs_session_terminate err) (c\<lparr>sc_gate := on_reconnect now g\<rparr>) of
                          (c, Some (Some reason)) \<Rightarrow> broadcast_event (ErrorEvent (ReconnectFailed reason)) c
                        | (c, _) \<Rightarrow> c))
                else c)
          else c
      | _ \<Rightarrow> c)"

section \<open>Reading from the server\<close>

definition emit_task_error :: "signaling_runtime_error \<Rightarrow> signaling_client \<Rightarrow> signaling_client" where
  "emit_task_error err c = (if sc_state c = ClientLoggedInState then broadcast_event (ErrorEvent err) c else c)"

text \<open>One message or error of the transport; the flag says whether the reader goes on.\<close>

definition client_reader_step :: "signaling_runtime_error + server_message \<Rightarrow> signaling_client \<Rightarrow> signaling_client \<times> bool" where
  "client_reader_step res c =
     (case res of
        Inr UnknownMessage \<Rightarrow> (c, True)
      | Inr message \<Rightarrow> (broadcast_event (MessageEvent message) (c\<lparr>sc_matcher := try_match message (sc_matcher c)\<rparr>), True)
      | Inl (SerializationError err) \<Rightarrow> (broadcast_event (ErrorEvent (SerializationError err)) c, True)
      | Inl err \<Rightarrow> (emit_task_error err c, False))"

section \<open>Bounds\<close>

text \<open>
  The delay before another attempt never exceeds five seconds, nor a tenth of a second doubled with
  every attempt made.
\<close>

theorem retry_timeout_bounded:
  assumes "\<And>m. random_range m \<le> m"
  shows "retry_timeout random_range attempt \<le> from_secs 5 \<and> retry_timeout random_range attempt \<le> from_millis 100 * 2 ^ (attempt - 1)"
proof (cases "attempt = 0")
  case False
  define d where "d = min (min (retry_base * 2 ^ min (attempt - 1) 63) (2 ^ 128 - 1)) retry_cap"
  have "retry_timeout random_range attempt \<le> d"
    using False assms [of d] unfolding retry_timeout_def d_def [symmetric] Let_def by auto
  moreover have "d \<le> retry_cap" by (simp add: d_def)
  moreover have "d \<le> retry_base * 2 ^ (attempt - 1)"
  proof -
    have "d \<le> retry_base * 2 ^ min (attempt - 1) 63" by (simp add: d_def)
    also have "\<dots> \<le> retry_base * 2 ^ (attempt - 1)" by (intro mult_left_mono power_increasing) simp_all
    finally show ?thesis .
  qed
  ultimately show ?thesis unfolding retry_cap_def retry_base_def by (meson order_trans)
qed (simp add: retry_timeout_def from_millis_def)

theorem retry_timeout_bounded_witness:
  "retry_timeout (\<lambda>m. m) 3 = from_millis 400 \<and> retry_timeout (\<lambda>m. m) 20 \<le> from_secs 5"
proof -
  have "retry_timeout (\<lambda>m. m) 3 = from_millis 400" by code_simp
  with retry_timeout_bounded [of "\<lambda>m. m" 20] show ?thesis by simp
qed

text \<open>
  An attempt as the supervisor makes it: a refusal clears the gate. Beside the gate the times of the
  attempts let through since the last refusal are kept.
\<close>

definition gate_attempt :: "instant \<Rightarrow> reconnect_gate \<times> instant list \<Rightarrow> reconnect_gate \<times> instant list" where
  "gate_attempt now = (\<lambda>(g, passed).
     case can_reconnect now g of (g, Some until) \<Rightarrow> (gate_clear g, []) | (g, None) \<Rightarrow> (on_reconnect now g, passed @ [now]))"

definition gate_ok :: "instant \<Rightarrow> reconnect_gate \<times> instant list \<Rightarrow> bool" where
  "gate_ok now = (\<lambda>(g, passed). \<exists>k. rg_recent g = drop k passed \<and> k \<le> length passed \<and> (\<forall>i < k. now - passed ! i > rg_window g) \<and>
     (\<forall>i. i + rg_max_in_window g < length passed \<longrightarrow> passed ! (i + rg_max_in_window g) - passed ! i > rg_window g))"

lemma dropWhile_drop:
  "\<exists>k' \<ge> k. dropWhile P (drop k xs) = drop k' xs \<and> (k \<le> length xs \<longrightarrow> k' \<le> length xs) \<and> (\<forall>i. k \<le> i \<and> i < k' \<longrightarrow> P (xs ! i))"
proof (induction "length xs - k" arbitrary: k)
  case 0
  then show ?case by (auto intro: exI [of _ k])
next
  case (Suc n)
  then have d: "drop k xs = xs ! k # drop (Suc k) xs" and n: "n = length xs - Suc k" by (simp_all add: Cons_nth_drop_Suc)
  show ?case
  proof (cases "P (xs ! k)")
    case True
    obtain k' where k': "k' \<ge> Suc k" "dropWhile P (drop (Suc k) xs) = drop k' xs" "Suc k \<le> length xs \<longrightarrow> k' \<le> length xs"
        "\<forall>i. Suc k \<le> i \<and> i < k' \<longrightarrow> P (xs ! i)"
      using Suc.hyps(1) [OF n] by blast
    have "P (xs ! i)" if "k \<le> i \<and> i < k'" for i using that True k'(4) by (cases "i = k") simp_all
    moreover have "dropWhile P (drop k xs) = drop k' xs" using True k'(2) by (simp add: d)
    moreover have "k \<le> k'" "k' \<le> length xs" using k'(1,3) Suc.hyps(2) by linarith+
    ultimately show ?thesis by blast
  qed (auto simp: d intro: exI [of _ k])
qed

lemma gate_prune_drop:
  assumes "rg_recent g = drop k xs" and "k \<le> length xs" and "\<And>i. i < k \<Longrightarrow> now - xs ! i > rg_window g"
  obtains k' where "rg_recent (gate_prune now g) = drop k' xs" "k' \<le> length xs" "\<And>i. i < k' \<Longrightarrow> now - xs ! i > rg_window g"
proof -
  obtain k' where k': "k' \<ge> k" "dropWhile (\<lambda>t. now - t > rg_window g) (drop k xs) = drop k' xs" "k' \<le> length xs"
      "\<And>i. k \<le> i \<and> i < k' \<Longrightarrow> now - xs ! i > rg_window g"
    using dropWhile_drop [of k "\<lambda>t. now - t > rg_window g" xs] assms(2) by blast
  have "now - xs ! i > rg_window g" if "i < k'" for i using that assms(3) k'(4) by (cases "i < k") simp_all
  with k' assms(1) show thesis by (intro that [of k']) (simp_all add: gate_prune_def)
qed

lemma can_reconnect_passes:
  assumes "can_reconnect now g = (g', None)"
  shows "rg_recent g' = rg_recent (gate_prune now g) \<and> length (rg_recent g') < rg_max_in_window g \<and>
    rg_window g' = rg_window g \<and> rg_max_in_window g' = rg_max_in_window g"
  using assms by (auto simp: can_reconnect_def gate_prune_def Let_def split: option.splits if_splits)

lemma can_reconnect_recent:
  assumes "can_reconnect now g = (g', r)"
  shows "rg_recent g' \<in> {rg_recent g, rg_recent (gate_prune now g)} \<and> rg_window g' = rg_window g \<and> rg_max_in_window g' = rg_max_in_window g"
  using assms by (auto simp: can_reconnect_def gate_prune_def Let_def split: option.splits if_splits)

lemma gate_attempt_ok:
  assumes ok: "gate_ok past (g, passed)" and "past \<le> now" and x: "gate_attempt now (g, passed) = (g', passed')"
  shows "gate_ok now (g', passed') \<and> rg_window g' = rg_window g \<and> rg_max_in_window g' = rg_max_in_window g"
proof -
  obtain k where k: "rg_recent g = drop k passed" "k \<le> length passed" "\<And>i. i < k \<Longrightarrow> past - passed ! i > rg_window g"
    and gaps: "\<And>i. i + rg_max_in_window g < length passed \<Longrightarrow> passed ! (i + rg_max_in_window g) - passed ! i > rg_window g"
    using ok by (auto simp: gate_ok_def)
  have "now - passed ! i > rg_window g" if "i < k" for i using k(3) [OF that] assms(2) by linarith
  note kn = this
  obtain k1 where k1: "rg_recent (gate_prune now g) = drop k1 passed" "k1 \<le> length passed" "\<And>i. i < k1 \<Longrightarrow> now - passed ! i > rg_window g"
    using gate_prune_drop [OF k(1,2) kn] by blast
  obtain g1 r where c: "can_reconnect now g = (g1, r)" by (meson surj_pair)
  show ?thesis
  proof (cases r)
    case (Some until)
    with x c have "g' = gate_clear g1" "passed' = []" by (simp_all add: gate_attempt_def)
    with can_reconnect_recent [OF c] show ?thesis by (simp add: gate_ok_def gate_clear_def)
  next
    case None
    note p = can_reconnect_passes [OF c [unfolded None]]
    have out: "g' = on_reconnect now g1" "passed' = passed @ [now]" using x c None by (simp_all add: gate_attempt_def)
    have "passed' ! (i + rg_max_in_window g) - passed' ! i > rg_window g" if i: "i + rg_max_in_window g < length passed'" for i
    proof (cases "i + rg_max_in_window g < length passed")
      case True
      with gaps show ?thesis by (simp add: out nth_append)
    next
      case False
      with i have e: "i + rg_max_in_window g = length passed" by (simp add: out)
      have "length passed - k1 < rg_max_in_window g" using p k1(1) by auto
      with e have "i < k1" "i < length passed" using k1(2) by linarith+
      with k1(3) e show ?thesis by (simp add: out nth_append)
    qed
    moreover obtain k2 where "rg_recent g' = drop k2 passed'" "k2 \<le> length passed'" "\<And>i. i < k2 \<Longrightarrow> now - passed' ! i > rg_window g"
    proof (rule gate_prune_drop [of "g1\<lparr>rg_recent := rg_recent g1 @ [now]\<rparr>" k1 passed' now])
      show "rg_recent (g1\<lparr>rg_recent := rg_recent g1 @ [now]\<rparr>) = drop k1 passed'" using p k1 by (simp add: out)
      show "k1 \<le> length passed'" using k1(2) by (simp add: out)
      show "now - passed' ! i > rg_window (g1\<lparr>rg_recent := rg_recent g1 @ [now]\<rparr>)" if "i < k1" for i
        using k1(2) k1(3) [OF that] that p by (simp add: out nth_append)
    qed (use p in \<open>auto simp: out on_reconnect_def\<close>)
    ultimately show ?thesis using p by (auto simp: gate_ok_def out on_reconnect_def gate_prune_def)
  qed
qed

text \<open>
  Since its last refusal the gate has let at most the configured number of attempts through in any window
  of time: attempts that many apart are further apart than the window. A refusal starts the count
  anew, as \<open>suppression_forgotten\<close> below shows.
\<close>

theorem gate_limits_reconnects:
  assumes "sorted ts" and new: "gate_new max_in_window window cooldown = Some g0"
    and "fold gate_attempt ts (g0, []) = (g, passed)"
    and "i + max_in_window < length passed"
  shows "window < passed ! (i + max_in_window) - passed ! i"
proof -
  have "gate_ok (last (past # ts)) (g, passed) \<and> rg_window g = w \<and> rg_max_in_window g = n"
    if "sorted (past # ts)" "gate_ok past (g0, passed0)" "rg_window g0 = w" "rg_max_in_window g0 = n"
      "fold gate_attempt ts (g0, passed0) = (g, passed)" for past g0 passed0 w n
    using that
  proof (induction ts arbitrary: past g0 passed0)
    case (Cons now ts)
    obtain g1 p1 where 1: "gate_attempt now (g0, passed0) = (g1, p1)" by (meson surj_pair)
    with gate_attempt_ok [OF Cons.prems(2) _ 1] Cons.IH [of now g1 p1] Cons.prems show ?case by simp
  qed simp
  from this [of 0 g0 "[]" window max_in_window] assms
  show ?thesis by (auto simp: gate_ok_def gate_new_def split: if_splits)
qed

theorem gate_limits_reconnects_witness:
  "\<exists>g passed. fold gate_attempt [0, 10, 20, 30, 200, 210, 220, 270] (the (gate_new 3 60 120), []) = (g, passed) \<and>
     passed = [200, 210, 220, 270] \<and> 60 < passed ! (0 + 3) - passed ! 0"
proof -
  let ?ts = "[0, 10, 20, 30, 200, 210, 220, 270]"
  obtain g passed where r: "fold gate_attempt ?ts (the (gate_new 3 60 120), []) = (g, passed)" by (meson surj_pair)
  have "snd (fold gate_attempt ?ts (the (gate_new 3 60 120), [])) = [200, 210, 220, 270]" by code_simp
  with r have "passed = [200, 210, 220, 270]" by simp
  with r gate_limits_reconnects [OF _ _ r, of 3 60 120 0] show ?thesis by (simp add: gate_new_def)
qed

section \<open>Connecting\<close>

text \<open>Errors a reconnect can report.\<close>

definition reportable :: "signaling_error \<Rightarrow> bool" where
  "reportable err \<longleftrightarrow> reconnect_failure_of err \<noteq> None"

lemma get_token_error: "get_token e n = Inl err \<Longrightarrow> reportable err"
  by (auto simp: get_token_def reportable_def reconnect_failure_of_def split: sum.splits)

lemma client_send_error: "client_send e msg c = (c', Some err) \<Longrightarrow> c' = c \<and> reportable err"
  by (auto simp: client_send_def reportable_def reconnect_failure_of_def split: if_splits option.splits)

lemma client_send_ok: "client_send e msg c = (c', None) \<Longrightarrow> c' = c\<lparr>sc_sent := sc_sent c @ [msg]\<rparr>"
  by (auto simp: client_send_def split: if_splits option.splits)

lemma client_recv_error: "client_recv e c = Inl err \<Longrightarrow> reportable err"
  by (auto simp: client_recv_def reportable_def reconnect_failure_of_def split: if_splits recv_result.splits)

lemma client_login_error:
  assumes "client_login e c = (c', Inl err)"
  shows "reportable err"
proof (cases "get_token e (sc_attempts c)")
  case (Inl tok)
  with assms get_token_error show ?thesis by (auto simp: client_login_def)
next
  case (Inr token)
  let ?msg = "MsgLogin \<lparr>login_token = token, login_protocol_version = protocol_version_text e,
    login_custom_profile = sc_custom_profile c, login_position_id = sc_position_id c\<rparr>"
  obtain c1 r where s: "client_send e ?msg c = (c1, r)" by (meson surj_pair)
  show ?thesis
  proof (cases r)
    case (Some x)
    with assms Inr s client_send_error show ?thesis by (auto simp: client_login_def)
  next
    case None
    with assms Inr s show ?thesis
      by (auto simp: client_login_def dest: client_recv_error split: sum.splits server_message.splits session_profile.splits)
        (auto simp: reportable_def reconnect_failure_of_def)
  qed
qed

lemma client_login_state:
  "client_login e c = (c', res) \<Longrightarrow> sc_state c' = sc_state c \<and> sc_send_tx c' = sc_send_tx c \<and> sc_events c' = sc_events c \<and>
     sc_attempts c' = sc_attempts c \<and> sc_reconnect_max_tries c' = sc_reconnect_max_tries c \<and> sc_gate c' = sc_gate c"
  by (auto simp: client_login_def dest!: client_send_error client_send_ok split: sum.splits prod.splits option.splits)

lemma client_send_state:
  "sc_state (fst (client_send e msg c)) = sc_state c \<and> sc_events (fst (client_send e msg c)) = sc_events c \<and>
   sc_attempts (fst (client_send e msg c)) = sc_attempts c \<and> sc_reconnect_max_tries (fst (client_send e msg c)) = sc_reconnect_max_tries c \<and>
   sc_gate (fst (client_send e msg c)) = sc_gate c"
  by (auto simp: client_send_def split: option.splits)

lemma client_disconnect_state [simp]:
  "sc_state (client_disconnect e requested c) = ClientDisconnectedState" "\<not> sc_send_tx (client_disconnect e requested c)"
  "sc_attempts (client_disconnect e requested c) = sc_attempts c" "sc_events (client_disconnect e requested c) = sc_events c"
  "sc_reconnect_max_tries (client_disconnect e requested c) = sc_reconnect_max_tries c"
  "sc_gate (client_disconnect e False c) = sc_gate c"
  using client_send_state [of e MsgLogout c] by (auto simp: client_disconnect_def client_cleanup_def Let_def)

text \<open>
  Connecting ends in one of two ways. Either the client is logged in, can send, and has announced the
  connection with the profile the server sent; or it is disconnected, cannot send, has announced
  nothing, and the error can be reported.
\<close>

theorem connect_or_disconnected:
  assumes "sc_state c = ClientDisconnectedState" and "\<not> sc_send_tx c"
    and "client_connect e c = (c', res)"
  shows "case res of
      None \<Rightarrow> sc_state c' = ClientLoggedInState \<and> sc_send_tx c' \<and>
        (\<exists>info profile. login_reply e (sc_attempts c') = Received (SessionInfo info) \<and> ses_profile info = Changed profile \<and>
           sc_events c' = sc_events c @ [ConnectedEvent (ses_client info) profile (ses_default_call_sources info) (ses_max_conf_size info)])
    | Some err \<Rightarrow> sc_state c' = ClientDisconnectedState \<and> \<not> sc_send_tx c' \<and> sc_events c' = sc_events c \<and>
        reconnect_failure_of err \<noteq> None"
proof (cases "transport_connect e (sc_attempts c + 1)")
  case False
  with assms show ?thesis by (auto simp: client_connect_def reconnect_failure_of_def)
next
  case True
  let ?c = "c\<lparr>sc_attempts := sc_attempts c + 1, sc_send_tx := True, sc_state := ClientConnectedState\<rparr>"
  obtain c1 r where l: "client_login e ?c = (c1, r)" by (meson surj_pair)
  note st = client_login_state [OF l]
  show ?thesis
  proof (cases r)
    case (Inl err)
    with assms(3) True l have "c' = client_disconnect e False c1" "res = Some err" by (simp_all add: client_connect_def)
    with st client_login_error l Inl show ?thesis by (simp add: reportable_def)
  next
    case (Inr x)
    obtain i p s m where x: "x = (i, p, s, m)" by (cases x)
    with assms(3) True l Inr have out: "c' = broadcast_event (ConnectedEvent i p s m) (c1\<lparr>sc_state := ClientLoggedInState\<rparr>)" "res = None"
      by (simp_all add: client_connect_def)
    have "\<exists>info. login_reply e (sc_attempts c + 1) = Received (SessionInfo info) \<and> ses_profile info = Changed p \<and>
        i = ses_client info \<and> s = ses_default_call_sources info \<and> m = ses_max_conf_size info"
      using l unfolding Inr x
      by (auto simp: client_login_def client_recv_def dest!: client_send_ok
          split: sum.splits prod.splits option.splits server_message.splits session_profile.splits recv_result.splits if_splits)
    with out st show ?thesis by (auto simp: broadcast_event_def)
  qed
qed

definition demo_signaling :: signaling_env where
  "demo_signaling =
     \<lparr>transport_connect = (\<lambda>n. n \<noteq> 1), ws_token = (\<lambda>_. Inr ''token''), serialize_error = (\<lambda>_. None), writer_alive = (\<lambda>_. True),
      login_reply = (\<lambda>n. if n = 2 then Received (LoginFailure DuplicateId)
        else Received (SessionInfo
          \<lparr>ses_client = \<lparr>info_id = ClientId ''1'', info_display_name = ''LOWW_TWR'', info_frequency = ''119.400'', info_position_id = None\<rparr>,
           ses_profile = Changed NoProfile, ses_default_call_sources = [], ses_max_conf_size = None\<rparr>)),
      protocol_version_text = ''3.0.0''\<rparr>"

theorem connect_or_disconnected_witness:
  "\<exists>c' err. client_connect demo_signaling (signaling_client_new False 3) = (c', Some err) \<and>
     sc_state c' = ClientDisconnectedState \<and> reconnect_failure_of err \<noteq> None"
proof -
  obtain c' res where r: "client_connect demo_signaling (signaling_client_new False 3) = (c', res)" by (meson surj_pair)
  then have "res = Some ConnectError" by (auto simp: client_connect_def demo_signaling_def signaling_client_new_def)
  with connect_or_disconnected [OF _ _ r] r show ?thesis by (simp add: signaling_client_new_def)
qed

lemma client_connect_counts:
  "client_connect e c = (c', res) \<Longrightarrow> sc_attempts c' = sc_attempts c + 1 \<and> sc_reconnect_max_tries c' = sc_reconnect_max_tries c"
  by (auto simp: client_connect_def broadcast_event_def Let_def dest!: client_login_state split: if_splits prod.splits sum.splits)

lemma reconnect_loop_ok:
  assumes "sc_state c = ClientDisconnectedState" "\<not> sc_send_tx c" and "reportable prev"
    and "reconnect_loop e shutdown terminate left prev c = (c', res)"
  shows "sc_attempts c' \<le> sc_attempts c + left \<and> (res = None \<longrightarrow> 0 < left) \<and>
    (case res of None \<Rightarrow> True | Some err \<Rightarrow> sc_state c' = ClientDisconnectedState \<and> reportable err)"
  using assms
proof (induction left arbitrary: prev c)
  case (Suc left)
  define c0 where "c0 = (if terminate then c\<lparr>sc_terminated := sc_terminated c + 1\<rparr> else c)"
  obtain c1 r where x: "client_connect e c0 = (c1, r)" by (meson surj_pair)
  have c0: "sc_state c0 = ClientDisconnectedState" "\<not> sc_send_tx c0" "sc_attempts c0 = sc_attempts c"
    using Suc.prems by (simp_all add: c0_def)
  note out = connect_or_disconnected [OF c0(1,2) x] and n = client_connect_counts [OF x]
  show ?case
  proof (cases r)
    case None
    with Suc.prems(4) x n c0(3) show ?thesis by (auto simp: c0_def [symmetric])
  next
    case (Some err)
    with out have e: "sc_state c1 = ClientDisconnectedState" "\<not> sc_send_tx c1" "reportable err" by (simp_all add: reportable_def)
    show ?thesis
    proof (cases "left > 0 \<and> shutdown (sc_attempts c1)")
      case True
      with Suc.prems(4) x Some n c0(3) show ?thesis by (auto simp: c0_def [symmetric])
    next
      case False
      with Suc.prems(4) x Some have "reconnect_loop e shutdown terminate left err c1 = (c', res)" by (simp add: c0_def [symmetric])
      from Suc.IH [OF e this] n c0(3) show ?thesis by auto
    qed
  qed
qed auto

text \<open>
  C20: A reconnect of a disconnected client makes at most the configured number of connection attempts,
  whatever the websocket, the request for a token and the server answer. When it reports a
  failure, the client is disconnected and the reason is one that can be reported: no error that
  connecting, requesting a token or logging in can end with makes the conversion panic.
\<close>

theorem reconnect_bounded:
  assumes "sc_state c = ClientDisconnectedState" "\<not> sc_send_tx c"
    and "reconnect e shutdown terminate c = (c', res)"
  shows "sc_attempts c' \<le> sc_attempts c + sc_reconnect_max_tries c \<and>
    (case res of None \<Rightarrow> True | Some reason \<Rightarrow> sc_state c' = ClientDisconnectedState \<and> reason \<noteq> None)"
proof (cases "sc_reconnect_max_tries c = 0")
  case False
  obtain c1 r where l: "reconnect_loop e shutdown terminate (sc_reconnect_max_tries c) (OtherSignalingError ''Unknown'') c = (c1, r)"
    by (meson surj_pair)
  have "reportable (OtherSignalingError ''Unknown'')" by (simp add: reportable_def reconnect_failure_of_def)
  from reconnect_loop_ok [OF assms(1,2) this l] False assms(3) l show ?thesis
    by (auto simp: reconnect_def reportable_def split: option.splits)
qed (use assms in \<open>simp add: reconnect_def\<close>)

text \<open>The first attempt fails to connect, the second to get a token.\<close>

definition demo_no_token :: signaling_env where
  "demo_no_token = demo_signaling\<lparr>ws_token := (\<lambda>_. Inl ''401 Unauthorized'')\<rparr>"

theorem reconnect_bounded_witness:
  "\<exists>c' res. reconnect demo_no_token (\<lambda>_. False) True (signaling_client_new False 2) = (c', res) \<and>
     res = Some (Some (OtherReconnectFailure ''401 Unauthorized'')) \<and> sc_state c' = ClientDisconnectedState \<and> sc_attempts c' \<le> 2"
proof -
  obtain c' res where r: "reconnect demo_no_token (\<lambda>_. False) True (signaling_client_new False 2) = (c', res)" by (meson surj_pair)
  have "snd (reconnect demo_no_token (\<lambda>_. False) True (signaling_client_new False 2)) =
      Some (Some (OtherReconnectFailure ''401 Unauthorized''))"
    by code_simp
  with r have "res = Some (Some (OtherReconnectFailure ''401 Unauthorized''))" by simp
  with reconnect_bounded [OF _ _ r] r show ?thesis by (simp add: signaling_client_new_def)
qed

section \<open>The cooldown is forgotten\<close>

text \<open>
  When the gate refuses a reconnect, the supervisor announces until when reconnects are suppressed,
  and then clears the gate: the next failure passes it at once, however early it comes.
\<close>

theorem suppression_forgotten:
  assumes "is_fatal err" and "err_can_reconnect err" and "can_reconnect now (sc_gate c) = (g, Some until)"
    and "0 < rg_max_in_window (sc_gate c)" and "c' = supervise e shutdown now (ErrorEvent err) c"
  shows "sc_events c' = sc_events c @ [ErrorEvent (ReconnectSuppressed until)] \<and>
    snd (can_reconnect later (sc_gate c')) = None"
proof -
  have "c' = broadcast_event (ErrorEvent (ReconnectSuppressed until)) ((client_disconnect e False c)\<lparr>sc_gate := gate_clear g\<rparr>)"
    using assms(1-3,5) by (simp add: supervise_def)
  moreover have "rg_max_in_window g = rg_max_in_window (sc_gate c)" using can_reconnect_recent [OF assms(3)] by simp
  ultimately show ?thesis using assms(4)
    by (simp add: broadcast_event_def can_reconnect_def gate_clear_def gate_prune_def)
qed

section \<open>The waiter queue\<close>

text \<open>While no waiter has given up, a message goes to the first waiter it matches, and only to that one.\<close>

lemma remove_match_first:
  "remove_match msg queue = (case List.find (\<lambda>entry. me_predicate entry msg) queue of
     None \<Rightarrow> None
   | Some entry \<Rightarrow> Some (entry, takeWhile (\<lambda>entry. \<not> me_predicate entry msg) queue @ tl (dropWhile (\<lambda>entry. \<not> me_predicate entry msg) queue)))"
  by (induction queue) (auto split: option.splits)

theorem try_match_first:
  assumes "\<And>entry. entry \<in> set (rm_queue m) \<Longrightarrow> me_waiter entry \<in> set (rm_listening m)"
  shows "rm_delivered (try_match msg m) = rm_delivered m @
    (case List.find (\<lambda>entry. me_predicate entry msg) (rm_queue m) of None \<Rightarrow> [] | Some entry \<Rightarrow> [(me_waiter entry, msg)])"
proof (cases "List.find (\<lambda>entry. me_predicate entry msg) (rm_queue m)")
  case None
  then show ?thesis by (simp add: try_match_def remove_match_first)
next
  case (Some entry)
  then have "entry \<in> set (rm_queue m)" by (auto simp: find_Some_iff)
  with Some assms show ?thesis by (simp add: try_match_def remove_match_first)
qed

text \<open>
  A waiter that gave up stays in the queue and still takes the first message that matches it: nobody
  receives that message, although another waiter asked for the same.
\<close>

theorem stale_waiter_swallows:
  assumes "predicate msg"
    and "m = waiter_timeout 1 (wait_for 2 predicate (wait_for 1 predicate matcher_new))"
  shows "rm_delivered (try_match msg m) = [] \<and> 2 \<in> set (rm_listening (try_match msg m))"
  using assms by (simp add: try_match_def wait_for_def waiter_timeout_def matcher_new_def)

end
