(* ===== verification/ClientCalls.thy ===== *)
theory ClientCalls
  imports Signaling Keybinds
begin

text \<open>
  The call state of the desktop client (\<^verbatim>\<open>vacs-client/src/app/state.rs\<close>,
  \<^verbatim>\<open>app/state/calls.rs\<close>, \<^verbatim>\<open>app/state/webrtc.rs\<close>): calls with their peer connections, the timers and
  retry tasks around them, and the operations that negotiate, connect, fail and clean up a peer or
  a call. All of them run under the mutex of the application state, so each is one step. What comes
  from outside is asked of an environment: whether a message could be sent, a peer connection
  created or started, an audio device attached. An events task of a peer connection is known by the
  number of the connection; cancelling its token removes it. The input device, the ICE
  configuration and logging are left out.
\<close>

section \<open>Peer connections and calls\<close>

record webrtc_peer =
  wp_peer_id :: client_id
  wp_serial :: nat
  wp_sender :: bool
  wp_audio_source_id :: "nat option"
  wp_connected :: bool
  wp_established :: bool
  wp_created :: instant
  wp_reconnected :: bool
  wp_peer_supports_reconnect :: bool

definition webrtc_peer_new :: "client_id \<Rightarrow> nat \<Rightarrow> bool \<Rightarrow> instant \<Rightarrow> webrtc_peer" where
  "webrtc_peer_new peer_id serial peer_supports_reconnect now =
     \<lparr>wp_peer_id = peer_id, wp_serial = serial, wp_sender = False, wp_audio_source_id = None, wp_connected = False,
      wp_established = False, wp_created = now, wp_reconnected = False, wp_peer_supports_reconnect = peer_supports_reconnect\<rparr>"

definition with_reconnect :: "webrtc_peer \<Rightarrow> webrtc_peer" where
  "with_reconnect p = p\<lparr>wp_connected := True, wp_reconnected := True\<rparr>"

record webrtc_call =
  wc_call_id :: call_id
  wc_peers :: "(client_id, webrtc_peer) hash_map"
  wc_last_call_start_sound :: "instant option"

definition webrtc_call_new :: "call_id \<Rightarrow> webrtc_call" where
  "webrtc_call_new call_id = \<lparr>wc_call_id = call_id, wc_peers = [], wc_last_call_start_sound = None\<rparr>"

definition was_connected :: "webrtc_call \<Rightarrow> bool" where
  "was_connected w \<longleftrightarrow> list_ex wp_connected (hm_values (wc_peers w))"

definition has_other_connected_peer :: "client_id \<Rightarrow> webrtc_call \<Rightarrow> bool" where
  "has_other_connected_peer peer_id w \<longleftrightarrow>
     list_ex (\<lambda>peer. wp_peer_id peer \<noteq> peer_id \<and> wp_connected peer) (hm_values (wc_peers w))"

record client_call =
  clc_call_id :: call_id
  clc_webrtc :: webrtc_call
  clc_invited_targets :: "call_target hash_set"
  clc_joined_participants :: call_participants
  clc_conference_leader :: "client_id option"

definition from_invite :: "call_invite \<Rightarrow> client_call" where
  "from_invite invite =
     \<lparr>clc_call_id = ci_call_id invite, clc_webrtc = webrtc_call_new (ci_call_id invite),
      clc_invited_targets = ci_targets invite, clc_joined_participants = [], clc_conference_leader = None\<rparr>"

definition from_invitation :: "call_invitation \<Rightarrow> client_call" where
  "from_invitation invitation =
     \<lparr>clc_call_id = inv_call_id invitation, clc_webrtc = webrtc_call_new (inv_call_id invitation),
      clc_invited_targets = inv_invited_targets invitation, clc_joined_participants = inv_joined_participants invitation,
      clc_conference_leader = inv_conference_leader invitation\<rparr>"

definition add_invited_targets :: "call_target hash_set \<Rightarrow> client_call \<Rightarrow> client_call" where
  "add_invited_targets targets call = call\<lparr>clc_invited_targets := hs_extend targets (clc_invited_targets call)\<rparr>"

definition remove_invited_targets :: "call_target hash_set \<Rightarrow> client_call \<Rightarrow> client_call" where
  "remove_invited_targets targets call =
     call\<lparr>clc_invited_targets := filter (\<lambda>target. target \<notin> set targets) (clc_invited_targets call)\<rparr>"

definition call_is_active :: "client_id \<Rightarrow> client_call \<Rightarrow> bool" where
  "call_is_active own_client_id call = hm_contains_key own_client_id (clc_joined_participants call)"

definition call_is_empty :: "client_call \<Rightarrow> bool" where
  "call_is_empty call \<longleftrightarrow> clc_joined_participants call = [] \<and> clc_invited_targets call = []"

definition update_call ::
  "client_id \<Rightarrow> call_target hash_set \<Rightarrow> call_participants \<Rightarrow> client_id option \<Rightarrow> client_call \<Rightarrow>
     client_call \<times> call_participants \<times> client_id hash_set" where
  "update_call own_client_id invited_targets joined_participants conference_leader call =
     (let joined = clc_joined_participants call;
          (added, removed) =
            (if hm_contains_key own_client_id joined_participants
             then
               if call_is_active own_client_id call
               then (filter (\<lambda>(id, _). \<not> hm_contains_key id joined) joined_participants,
                     filter (\<lambda>id. \<not> hm_contains_key id joined_participants) (hm_keys joined))
               else (filter (\<lambda>(id, _). id \<noteq> own_client_id) joined_participants, [])
             else ([], []))
      in (call\<lparr>clc_invited_targets := invited_targets, clc_conference_leader := conference_leader,
               clc_joined_participants := joined_participants\<rparr>, added, removed))"

definition call_update_of :: "client_call \<Rightarrow> call_update" where
  "call_update_of call =
     \<lparr>cu_call_id = clc_call_id call, cu_invited_targets = clc_invited_targets call,
      cu_joined_participants = clc_joined_participants call, cu_conference_leader = clc_conference_leader call\<rparr>"

text \<open>A third participant has joined besides this client and the peer.\<close>

definition other_joined :: "client_id \<Rightarrow> call_participants \<Rightarrow> client_id \<Rightarrow> bool" where
  "other_joined own_client_id joined_participants peer_id \<longleftrightarrow>
     list_ex (\<lambda>id. id \<noteq> own_client_id \<and> id \<noteq> peer_id) (hm_keys joined_participants)"

section \<open>The application state\<close>

datatype source_type =
    Ring | PriorityRing | RingOneshot | PriorityRingOneshot | Ringback | RingbackOneshot | Click | CallStart | CallEndSound
  | ParticipantJoined | ParticipantLeft

datatype app_error =
    AppUnauthorized
  | AudioDeviceError
  | SendError
  | WebrtcCallActive
  | WebrtcNoCallActive
  | WebrtcOtherError
  | AppOtherError

definition into_call_error_reason :: "client_id \<Rightarrow> app_error \<Rightarrow> call_error_reason" where
  "into_call_error_reason own_client_id err =
     (case err of
        AudioDeviceError \<Rightarrow> AudioFailure own_client_id
      | WebrtcCallActive \<Rightarrow> CallFailure
      | WebrtcNoCallActive \<Rightarrow> CallFailure
      | WebrtcOtherError \<Rightarrow> WebrtcFailure own_client_id
      | _ \<Rightarrow> Other)"

datatype call_error_origin = OriginClient client_id | OriginTargets "call_target hash_set" | OriginCall

datatype webrtc_update = PeerConnected | PeerDisconnected | PeerReconnecting | PeerDegraded

datatype frontend_event =
    EvConnected session_info
  | EvDisconnected
  | EvReconnecting
  | EvAmbiguousPosition "position_id list"
  | EvError signaling_error
  | EvAddIncoming call_id call_source
  | EvCallInvitation call_invitation
  | EvAcceptIncoming call_id
  | EvOutgoingCall call_invite
  | EvCallUpdate call_update
  | EvCallReject call_id "call_target hash_set"
  | EvCallEnd call_id
  | EvForceCallEnd call_id
  | EvCallError call_id bool call_error_origin call_error_reason bool
  | EvWebrtc webrtc_update call_id client_id
  | EvClientConnected client_info
  | EvClientDisconnected client_id
  | EvClientList "client_info list"
  | EvClientNotFound client_id
  | EvStationList "station_info list"
  | EvStationChanges "station_change list"

datatype app_connection_state = AppDisconnected | AppConnecting | AppConnected

record client_config =
  cfg_ignored :: "client_id hash_set"
  cfg_auto_hangup_seconds :: nat
  cfg_force_relay :: bool
  cfg_enable_priority_calls :: bool
  cfg_enable_call_start_sound :: bool
  cfg_enable_call_end_sound :: bool
  cfg_enable_participant_joined_sound :: bool
  cfg_enable_participant_left_sound :: bool

text \<open>
  A retry task is kept with its guard: the call it belongs to, the own client id it was started with
  and whether it has reported the link as dead. An events task is kept with the call, the peer and
  the own client id it was started with. A target's timer is kept with its call.
\<close>

record link_retry =
  lr_call_id :: call_id
  lr_own_client_id :: client_id
  lr_reported :: bool

record events_task =
  et_call_id :: call_id
  et_peer_id :: client_id
  et_own_client_id :: client_id

record client_app =
  ap_config :: client_config
  ap_client_id :: "client_id option"
  ap_connection_state :: app_connection_state
  ap_session_info :: "session_info option"
  ap_default_call_sources :: "station_id list"
  ap_stations :: "station_info list"
  ap_clients :: "client_info list"
  ap_current_call :: "client_call option"
  ap_incoming_calls :: "(call_id, client_call) hash_map"
  ap_unanswered_call_guards :: "(call_target, call_id) hash_map"
  ap_establishment_guard :: "call_id option"
  ap_link_limbo_guards :: "(client_id, link_retry) hash_map"
  ap_keybinds :: keybind_engine
  ap_playing :: "source_type hash_set"
  ap_call_outputs :: "nat hash_set"
  ap_events_tasks :: "(nat, events_task) hash_map"
  ap_fresh :: nat
  ap_answers :: nat
  ap_sent :: "client_message list"
  ap_emitted :: "frontend_event list"

definition client_app_new :: "client_config \<Rightarrow> keybind_engine \<Rightarrow> client_app" where
  "client_app_new config engine =
     \<lparr>ap_config = config, ap_client_id = None, ap_connection_state = AppDisconnected, ap_session_info = None,
      ap_default_call_sources = [], ap_stations = [], ap_clients = [], ap_current_call = None, ap_incoming_calls = [],
      ap_unanswered_call_guards = [], ap_establishment_guard = None, ap_link_limbo_guards = [], ap_keybinds = engine,
      ap_playing = [], ap_call_outputs = [], ap_events_tasks = [], ap_fresh = 0, ap_answers = 0, ap_sent = [], ap_emitted = []\<rparr>"

text \<open>
  The answers of the environment depend on how many were given before: whether a message is taken,
  the session description of a new peer connection (with the offer it answers and whether it must
  be relayed), the error of accepting an answer, whether the output and the input device can be
  attached, and whether a connection can still be started. \<open>tag_sdp\<close> and \<open>sdp_reconnect\<close> set and
  read the capability key of a session description, which is JSON.
\<close>

record client_env =
  send_ok :: "nat \<Rightarrow> client_message \<Rightarrow> bool"
  peer_sdp :: "nat \<Rightarrow> client_id \<Rightarrow> string option \<Rightarrow> bool \<Rightarrow> string option"
  answer_ok :: "nat \<Rightarrow> string \<Rightarrow> bool"
  output_ok :: "nat \<Rightarrow> bool"
  input_ok :: "nat \<Rightarrow> bool"
  receiver_ok :: "nat \<Rightarrow> bool"
  tag_sdp :: "string \<Rightarrow> string"
  sdp_reconnect :: "string \<Rightarrow> bool"

definition ask :: "(nat \<Rightarrow> 'a) \<Rightarrow> client_app \<Rightarrow> client_app \<times> 'a" where
  "ask f s = (s\<lparr>ap_answers := Suc (ap_answers s)\<rparr>, f (ap_answers s))"

definition emit :: "frontend_event \<Rightarrow> client_app \<Rightarrow> client_app" where
  "emit ev s = s\<lparr>ap_emitted := ap_emitted s @ [ev]\<rparr>"

definition emit_call_error :: "call_id \<Rightarrow> bool \<Rightarrow> call_error_origin \<Rightarrow> call_error_reason \<Rightarrow> client_app \<Rightarrow> client_app" where
  "emit_call_error call_id is_local origin reason = emit (EvCallError call_id is_local origin reason False)"

definition audio_restart :: "source_type \<Rightarrow> client_app \<Rightarrow> client_app" where
  "audio_restart src s = s\<lparr>ap_playing := hs_insert src (ap_playing s)\<rparr>"

definition audio_stop :: "source_type \<Rightarrow> client_app \<Rightarrow> client_app" where
  "audio_stop src s = s\<lparr>ap_playing := hs_remove src (ap_playing s)\<rparr>"

definition detach_call_output :: "nat \<Rightarrow> client_app \<Rightarrow> client_app" where
  "detach_call_output src s = s\<lparr>ap_call_outputs := hs_remove src (ap_call_outputs s)\<rparr>"

definition detach_output_option :: "nat option \<Rightarrow> client_app \<Rightarrow> client_app" where
  "detach_output_option src s = (case src of Some src \<Rightarrow> detach_call_output src s | None \<Rightarrow> s)"

definition engine_set_call_active :: "bool \<Rightarrow> client_app \<Rightarrow> client_app" where
  "engine_set_call_active active s = s\<lparr>ap_keybinds := set_call_active active (ap_keybinds s)\<rparr>"

definition cancel_events_task :: "nat \<Rightarrow> client_app \<Rightarrow> client_app" where
  "cancel_events_task serial s = s\<lparr>ap_events_tasks := hm_remove serial (ap_events_tasks s)\<rparr>"

definition send_signaling_message :: "client_env \<Rightarrow> client_message \<Rightarrow> client_app \<Rightarrow> client_app \<times> bool" where
  "send_signaling_message e msg s =
     (let (s, ok) = ask (\<lambda>n. send_ok e n msg) s
      in if ok then (s\<lparr>ap_sent := ap_sent s @ [msg]\<rparr>, True) else (s, False))"

definition try_send_call_error :: "client_env \<Rightarrow> call_id \<Rightarrow> call_error_reason \<Rightarrow> client_app \<Rightarrow> client_app" where
  "try_send_call_error e call_id reason s =
     fst (send_signaling_message e (MsgCallError \<lparr>cerr_call_id = call_id, cerr_reason = reason, cerr_message = None\<rparr>) s)"

section \<open>Lookups\<close>

definition current_call_with :: "call_id \<Rightarrow> client_app \<Rightarrow> client_call option" where
  "current_call_with call_id s =
     (case ap_current_call s of Some call \<Rightarrow> if clc_call_id call = call_id then Some call else None | None \<Rightarrow> None)"

definition current_call_id :: "client_app \<Rightarrow> call_id option" where
  "current_call_id s = map_option clc_call_id (ap_current_call s)"

definition map_current_call :: "call_id \<Rightarrow> (client_call \<Rightarrow> client_call) \<Rightarrow> client_app \<Rightarrow> client_app" where
  "map_current_call call_id f s =
     (case current_call_with call_id s of Some call \<Rightarrow> s\<lparr>ap_current_call := Some (f call)\<rparr> | None \<Rightarrow> s)"

definition map_webrtc :: "call_id \<Rightarrow> (webrtc_call \<Rightarrow> webrtc_call) \<Rightarrow> client_app \<Rightarrow> client_app" where
  "map_webrtc call_id f = map_current_call call_id (\<lambda>call. call\<lparr>clc_webrtc := f (clc_webrtc call)\<rparr>)"

definition webrtc_call_with :: "call_id \<Rightarrow> client_app \<Rightarrow> webrtc_call option" where
  "webrtc_call_with call_id s = map_option clc_webrtc (current_call_with call_id s)"

definition webrtc_peer_with :: "call_id \<Rightarrow> client_id \<Rightarrow> client_app \<Rightarrow> webrtc_peer option" where
  "webrtc_peer_with call_id peer_id s =
     (case webrtc_call_with call_id s of Some w \<Rightarrow> hm_get (wc_peers w) peer_id | None \<Rightarrow> None)"

definition map_webrtc_peer :: "call_id \<Rightarrow> client_id \<Rightarrow> (webrtc_peer \<Rightarrow> webrtc_peer) \<Rightarrow> client_app \<Rightarrow> client_app" where
  "map_webrtc_peer call_id peer_id f s =
     (case webrtc_peer_with call_id peer_id s of
        Some peer \<Rightarrow> map_webrtc call_id (\<lambda>w. w\<lparr>wc_peers := hm_insert peer_id (f peer) (wc_peers w)\<rparr>) s
      | None \<Rightarrow> s)"

definition has_link_limbo :: "call_id \<Rightarrow> client_id \<Rightarrow> client_app \<Rightarrow> bool" where
  "has_link_limbo call_id peer_id s =
     (case hm_get (ap_link_limbo_guards s) peer_id of Some guard \<Rightarrow> lr_call_id guard = call_id | None \<Rightarrow> False)"

definition has_pending_link_retries :: "call_id \<Rightarrow> client_app \<Rightarrow> bool" where
  "has_pending_link_retries call_id s = list_ex (\<lambda>guard. lr_call_id guard = call_id) (hm_values (ap_link_limbo_guards s))"

definition is_conference_link :: "call_id \<Rightarrow> client_id \<Rightarrow> client_app \<Rightarrow> bool" where
  "is_conference_link call_id peer_id s =
     (case ap_client_id s of
        None \<Rightarrow> False
      | Some own_client_id \<Rightarrow>
          (case current_call_with call_id s of
             Some call \<Rightarrow> other_joined own_client_id (clc_joined_participants call) peer_id
           | None \<Rightarrow> False))"

definition is_link_failure :: "call_id \<Rightarrow> client_id \<Rightarrow> call_error_reason \<Rightarrow> client_app \<Rightarrow> bool" where
  "is_link_failure call_id peer_id reason s \<longleftrightarrow>
     is_conference_link call_id peer_id s \<and>
     (case reason of WebrtcFailure _ \<Rightarrow> True | SignalingFailure _ \<Rightarrow> True | _ \<Rightarrow> False)"

section \<open>Timers and retry tasks\<close>

definition cancel_unanswered_call_timers_for_targets :: "call_target list \<Rightarrow> client_app \<Rightarrow> client_app" where
  "cancel_unanswered_call_timers_for_targets targets s =
     s\<lparr>ap_unanswered_call_guards := fold hm_remove targets (ap_unanswered_call_guards s)\<rparr>"

definition cancel_all_unanswered_call_timers :: "client_app \<Rightarrow> client_app" where
  "cancel_all_unanswered_call_timers s = s\<lparr>ap_unanswered_call_guards := []\<rparr>"

definition start_unanswered_call_timer_for_targets :: "call_id \<Rightarrow> call_target hash_set \<Rightarrow> client_app \<Rightarrow> client_app" where
  "start_unanswered_call_timer_for_targets call_id targets s =
     (let s = cancel_unanswered_call_timers_for_targets targets s
      in if cfg_auto_hangup_seconds (ap_config s) = 0 then s
         else s\<lparr>ap_unanswered_call_guards := fold (\<lambda>target. hm_insert target call_id) targets (ap_unanswered_call_guards s)\<rparr>)"

definition start_call_establishment_timer :: "call_id \<Rightarrow> client_app \<Rightarrow> client_app" where
  "start_call_establishment_timer call_id s =
     (if has_pending_link_retries call_id s \<or> ap_establishment_guard s \<noteq> None then s
      else s\<lparr>ap_establishment_guard := Some call_id\<rparr>)"

definition cancel_call_establishment_timer :: "client_app \<Rightarrow> client_app" where
  "cancel_call_establishment_timer s = s\<lparr>ap_establishment_guard := None\<rparr>"

definition start_link_retry :: "call_id \<Rightarrow> client_id \<Rightarrow> client_id \<Rightarrow> client_app \<Rightarrow> client_app" where
  "start_link_retry call_id peer_id own_client_id s =
     s\<lparr>ap_link_limbo_guards := hm_insert peer_id
         \<lparr>lr_call_id = call_id, lr_own_client_id = own_client_id, lr_reported = False\<rparr> (ap_link_limbo_guards s)\<rparr>"

definition remove_link_limbo :: "call_id \<Rightarrow> client_id \<Rightarrow> client_app \<Rightarrow> client_app" where
  "remove_link_limbo call_id peer_id s =
     (if has_link_limbo call_id peer_id s
      then s\<lparr>ap_link_limbo_guards := hm_remove peer_id (ap_link_limbo_guards s)\<rparr> else s)"

text \<open>Cancelling a retry aborts its task as well; the guard is all there is of it here.\<close>

definition cancel_link_retry :: "call_id \<Rightarrow> client_id \<Rightarrow> client_app \<Rightarrow> client_app" where
  "cancel_link_retry call_id peer_id s = remove_link_limbo call_id peer_id s"

definition cancel_all_link_retries :: "call_id \<Rightarrow> client_app \<Rightarrow> client_app" where
  "cancel_all_link_retries call_id s =
     s\<lparr>ap_link_limbo_guards := filter (\<lambda>(_, guard). lr_call_id guard \<noteq> call_id) (ap_link_limbo_guards s)\<rparr>"

section \<open>Sounds\<close>

definition stop_ringing_if_no_incoming_calls :: "client_app \<Rightarrow> client_app" where
  "stop_ringing_if_no_incoming_calls s =
     (if ap_incoming_calls s = [] then audio_stop PriorityRing (audio_stop Ring s) else s)"

definition stop_ringback_if_no_invited_targets :: "call_id \<Rightarrow> client_app \<Rightarrow> client_app" where
  "stop_ringback_if_no_invited_targets call_id s =
     (case current_call_with call_id s of
        Some call \<Rightarrow> if clc_invited_targets call = [] then audio_stop Ringback s else s
      | None \<Rightarrow> s)"

definition start_sound_threshold :: duration where
  "start_sound_threshold = from_millis 200"

definition roster_change :: "call_id \<Rightarrow> client_id \<Rightarrow> client_app \<Rightarrow> bool" where
  "roster_change call_id peer_id s \<longleftrightarrow>
     has_pending_link_retries call_id s \<or>
     (case webrtc_call_with call_id s of Some w \<Rightarrow> has_other_connected_peer peer_id w | None \<Rightarrow> False)"

definition peer_joined_sound :: "instant \<Rightarrow> call_id \<Rightarrow> client_id \<Rightarrow> client_app \<Rightarrow> source_type option" where
  "peer_joined_sound now call_id peer_id s =
     (if roster_change call_id peer_id s
      then
        if (case webrtc_call_with call_id s of
              Some w \<Rightarrow>
                (case wc_last_call_start_sound w of
                   Some last_start \<Rightarrow> now < last_start + start_sound_threshold
                 | None \<Rightarrow> False)
            | None \<Rightarrow> False)
        then None
        else if cfg_enable_participant_joined_sound (ap_config s) then Some ParticipantJoined else None
      else if cfg_enable_call_start_sound (ap_config s) then Some CallStart else None)"

definition peer_left_sound :: "call_id \<Rightarrow> client_id \<Rightarrow> client_app \<Rightarrow> source_type option" where
  "peer_left_sound call_id peer_id s =
     (if roster_change call_id peer_id s
      then if cfg_enable_participant_left_sound (ap_config s) then Some ParticipantLeft else None
      else if cfg_enable_call_end_sound (ap_config s) then Some CallEndSound else None)"

definition restart_option :: "source_type option \<Rightarrow> client_app \<Rightarrow> client_app" where
  "restart_option src s = (case src of Some src \<Rightarrow> audio_restart src s | None \<Rightarrow> s)"

section \<open>Taking peers and calls down\<close>

definition take_webrtc_peer :: "call_id \<Rightarrow> client_id \<Rightarrow> client_app \<Rightarrow> (client_app \<times> webrtc_peer \<times> bool) option" where
  "take_webrtc_peer call_id peer_id s =
     (case webrtc_call_with call_id s of
        None \<Rightarrow> None
      | Some w \<Rightarrow>
          (case hm_get (wc_peers w) peer_id of
             None \<Rightarrow> None
           | Some peer \<Rightarrow>
               (let peers = hm_remove peer_id (wc_peers w)
                in Some (map_webrtc call_id (\<lambda>w. w\<lparr>wc_peers := peers\<rparr>) s, peer, peers = []))))"

definition cleanup_call_peer :: "call_id \<Rightarrow> client_id \<Rightarrow> client_app \<Rightarrow> client_app \<times> bool" where
  "cleanup_call_peer call_id peer_id s =
     (case take_webrtc_peer call_id peer_id s of
        None \<Rightarrow> (s, False)
      | Some (s, peer, is_last) \<Rightarrow>
          (let s = (if is_last \<and> \<not> has_pending_link_retries call_id s then engine_set_call_active False s else s);
               s = cancel_events_task (wp_serial peer) s;
               left_sound = (if wp_connected peer then peer_left_sound call_id peer_id s else None);
               s = detach_output_option (wp_audio_source_id peer) s
           in (restart_option left_sound s, True)))"

definition remove_link_peer_quiet :: "call_id \<Rightarrow> client_id \<Rightarrow> client_app \<Rightarrow> client_app" where
  "remove_link_peer_quiet call_id peer_id s =
     (case take_webrtc_peer call_id peer_id s of
        None \<Rightarrow> s
      | Some (s, peer, _) \<Rightarrow> cancel_events_task (wp_serial peer) (detach_output_option (wp_audio_source_id peer) s))"

definition cleanup_current_call :: "call_id \<Rightarrow> client_app \<Rightarrow> client_app \<times> bool" where
  "cleanup_current_call call_id s =
     (case current_call_with call_id s of
        None \<Rightarrow> (s, False)
      | Some call \<Rightarrow>
          (let s = s\<lparr>ap_current_call := None\<rparr>;
               s = cancel_all_link_retries call_id (cancel_call_establishment_timer (cancel_all_unanswered_call_timers s));
               webrtc_call = clc_webrtc call;
               audio_source_ids = List.map_filter wp_audio_source_id (hm_values (wc_peers webrtc_call));
               s = engine_set_call_active False s;
               s = fold cancel_events_task (map wp_serial (hm_values (wc_peers webrtc_call))) s;
               s = audio_stop Ringback s;
               s = (if cfg_enable_call_end_sound (ap_config s) \<and> was_connected webrtc_call
                    then audio_restart CallEndSound s else s)
           in (fold detach_call_output audio_source_ids s, True)))"

definition end_call_if_no_peers :: "call_id \<Rightarrow> client_app \<Rightarrow> client_app \<times> bool" where
  "end_call_if_no_peers call_id s =
     (case current_call_with call_id s of
        None \<Rightarrow> (s, False)
      | Some call \<Rightarrow>
          if clc_invited_targets call \<noteq> [] \<or> wc_peers (clc_webrtc call) \<noteq> [] then (s, False)
          else (fst (cleanup_current_call call_id s), True))"

section \<open>Failures\<close>

definition link_retry_establish_timeout :: duration where
  "link_retry_establish_timeout = from_secs 10"

definition young_peer :: "instant \<Rightarrow> call_id \<Rightarrow> client_id \<Rightarrow> client_app \<Rightarrow> bool" where
  "young_peer now call_id peer_id s =
     (case webrtc_peer_with call_id peer_id s of
        Some peer \<Rightarrow> now - wp_created peer < link_retry_establish_timeout
      | None \<Rightarrow> False)"

definition fail_link :: "instant \<Rightarrow> call_id \<Rightarrow> client_id \<Rightarrow> client_id \<Rightarrow> client_app \<Rightarrow> client_app" where
  "fail_link now call_id peer_id own_client_id s =
     (if young_peer now call_id peer_id s then s
      else
        (let s = emit (EvWebrtc PeerDisconnected call_id peer_id) (remove_link_peer_quiet call_id peer_id s)
         in if has_link_limbo call_id peer_id s then s else start_link_retry call_id peer_id own_client_id s))"

definition fail_call :: "client_env \<Rightarrow> call_id \<Rightarrow> call_error_reason \<Rightarrow> client_app \<Rightarrow> client_app" where
  "fail_call e call_id reason s =
     (let s = try_send_call_error e call_id reason s;
          s = emit_call_error call_id True OriginCall reason s;
          s = fst (cleanup_current_call call_id s)
      in emit (EvForceCallEnd call_id) s)"

definition fail_peer :: "client_env \<Rightarrow> call_id \<Rightarrow> client_id \<Rightarrow> call_error_reason \<Rightarrow> client_app \<Rightarrow> client_app" where
  "fail_peer e call_id peer_id reason s =
     (let s = fst (cleanup_call_peer call_id peer_id s);
          s = try_send_call_error e call_id reason s;
          s = emit_call_error call_id True (OriginClient peer_id) reason s
      in case end_call_if_no_peers call_id s of
           (s, True) \<Rightarrow> emit (EvForceCallEnd call_id) s
         | (s, False) \<Rightarrow> s)"

definition handle_conference_peer_failure ::
  "client_env \<Rightarrow> instant \<Rightarrow> call_id \<Rightarrow> client_id \<Rightarrow> client_id \<Rightarrow> call_error_reason \<Rightarrow> client_app \<Rightarrow> client_app \<times> bool" where
  "handle_conference_peer_failure e now call_id peer_id own_client_id reason s =
     (if is_link_failure call_id peer_id reason s then (fail_link now call_id peer_id own_client_id s, True)
      else if is_conference_link call_id peer_id s then (fail_call e call_id reason s, True)
      else (s, False))"

definition handle_peer_failure ::
  "client_env \<Rightarrow> instant \<Rightarrow> call_id \<Rightarrow> client_id \<Rightarrow> client_id \<Rightarrow> call_error_reason \<Rightarrow> client_app \<Rightarrow> client_app" where
  "handle_peer_failure e now call_id peer_id own_client_id reason s =
     (case handle_conference_peer_failure e now call_id peer_id own_client_id reason s of
        (s, True) \<Rightarrow> s
      | (s, False) \<Rightarrow> fail_peer e call_id peer_id reason s)"

section \<open>Negotiating and connecting\<close>

text \<open>
  Every error of the peer connection is wrapped in a context here, which makes it an error of no
  particular kind. The number of the connection is fresh.
\<close>

definition create_peer ::
  "client_env \<Rightarrow> instant \<Rightarrow> call_id \<Rightarrow> client_id \<Rightarrow> client_id \<Rightarrow> string option \<Rightarrow> bool \<Rightarrow> bool \<Rightarrow> client_app \<Rightarrow>
     client_app \<times> (app_error + webrtc_peer \<times> string)" where
  "create_peer e now call_id peer_id own_client_id offer_sdp is_reconnect force_relay s =
     (case ask (\<lambda>n. peer_sdp e n peer_id offer_sdp force_relay) s of
        (s, None) \<Rightarrow> (s, Inl AppOtherError)
      | (s, Some sdp) \<Rightarrow>
          (let supports = (case offer_sdp of Some offer \<Rightarrow> sdp_reconnect e offer | None \<Rightarrow> False);
               peer = webrtc_peer_new peer_id (ap_fresh s) supports now;
               peer = (if is_reconnect then with_reconnect peer else peer);
               task = \<lparr>et_call_id = call_id, et_peer_id = peer_id, et_own_client_id = own_client_id\<rparr>
           in (s\<lparr>ap_fresh := Suc (ap_fresh s), ap_events_tasks := hm_insert (ap_fresh s) task (ap_events_tasks s)\<rparr>,
               Inr (peer, tag_sdp e sdp))))"

definition replace_peer :: "call_id \<Rightarrow> client_id \<Rightarrow> webrtc_peer \<Rightarrow> client_app \<Rightarrow> client_app" where
  "replace_peer call_id peer_id peer s =
     (let old_peer = webrtc_peer_with call_id peer_id s;
          s = map_webrtc call_id (\<lambda>w. w\<lparr>wc_peers := hm_insert peer_id peer (hm_remove peer_id (wc_peers w))\<rparr>) s
      in case old_peer of
           Some old_peer \<Rightarrow> detach_output_option (wp_audio_source_id old_peer) (cancel_events_task (wp_serial old_peer) s)
         | None \<Rightarrow> s)"

definition negotiate_peer ::
  "client_env \<Rightarrow> instant \<Rightarrow> call_id \<Rightarrow> client_id \<Rightarrow> client_id \<Rightarrow> string option \<Rightarrow> client_app \<Rightarrow> client_app \<times> (app_error + string)" where
  "negotiate_peer e now call_id peer_id own_client_id offer_sdp s =
     (case ap_current_call s of
        None \<Rightarrow> (s, Inl WebrtcNoCallActive)
      | Some call \<Rightarrow>
          if clc_call_id call \<noteq> call_id then (s, Inl WebrtcCallActive)
          else
            (let replacing = hm_contains_key peer_id (wc_peers (clc_webrtc call));
                 limbo = has_link_limbo call_id peer_id s;
                 force_relay = (cfg_force_relay (ap_config s) \<or> replacing \<and> offer_sdp = None \<or> limbo);
                 s = (if replacing then emit (EvWebrtc PeerReconnecting call_id peer_id) s else s);
                 is_reconnect = (replacing \<or> limbo)
             in case create_peer e now call_id peer_id own_client_id offer_sdp is_reconnect force_relay s of
                  (s, Inl err) \<Rightarrow> (s, Inl err)
                | (s, Inr (peer, sdp)) \<Rightarrow>
                    (let peer = (if is_reconnect \<and> \<not> replacing then peer\<lparr>wp_connected := False\<rparr> else peer)
                     in (cancel_call_establishment_timer (replace_peer call_id peer_id peer s), Inr sdp))))"

definition accept_call_answer :: "client_env \<Rightarrow> call_id \<Rightarrow> client_id \<Rightarrow> string \<Rightarrow> client_app \<Rightarrow> client_app \<times> app_error option" where
  "accept_call_answer e call_id peer_id answer_sdp s =
     (case webrtc_peer_with call_id peer_id s of
        None \<Rightarrow> (s, Some WebrtcNoCallActive)
      | Some _ \<Rightarrow>
          (let s = map_webrtc_peer call_id peer_id (\<lambda>p. p\<lparr>wp_peer_supports_reconnect := sdp_reconnect e answer_sdp\<rparr>) s;
               (s, ok) = ask (\<lambda>n. answer_ok e n answer_sdp) s
           in (s, if ok then None else Some WebrtcOtherError)))"

text \<open>Starting a peer connection: it must not have a sender yet, and its receiver must not have been stopped.\<close>

definition peer_start :: "client_env \<Rightarrow> webrtc_peer \<Rightarrow> client_app \<Rightarrow> client_app \<times> app_error option" where
  "peer_start e peer s =
     (if wp_sender peer then (s, Some WebrtcCallActive)
      else case ask (receiver_ok e) s of (s, True) \<Rightarrow> (s, None) | (s, False) \<Rightarrow> (s, Some WebrtcNoCallActive))"

definition on_peer_connected :: "client_env \<Rightarrow> instant \<Rightarrow> call_id \<Rightarrow> client_id \<Rightarrow> client_app \<Rightarrow> client_app \<times> app_error option" where
  "on_peer_connected e now call_id peer_id s =
     (case webrtc_peer_with call_id peer_id s of
        None \<Rightarrow> (s, None)
      | Some peer \<Rightarrow>
          (let joined_sound = (if wp_reconnected peer then None else peer_joined_sound now call_id peer_id s);
               s = engine_set_call_active True s
           in case ask (output_ok e) s of
                (s, False) \<Rightarrow> (s, Some AudioDeviceError)
              | (s, True) \<Rightarrow>
                  (let audio_source_id = ap_fresh s;
                       s = s\<lparr>ap_fresh := Suc (ap_fresh s), ap_call_outputs := hs_insert audio_source_id (ap_call_outputs s)\<rparr>
                   in case ask (input_ok e) s of
                        (s, False) \<Rightarrow> (detach_call_output audio_source_id s, Some AudioDeviceError)
                      | (s, True) \<Rightarrow>
                          (let s = restart_option joined_sound s;
                               s = (if joined_sound = Some CallStart
                                    then map_webrtc call_id (\<lambda>w. w\<lparr>wc_last_call_start_sound := Some now\<rparr>) s else s)
                           in case peer_start e peer s of
                                (s, Some err) \<Rightarrow> (detach_call_output audio_source_id s, Some err)
                              | (s, None) \<Rightarrow>
                                  (let s = map_webrtc_peer call_id peer_id (\<lambda>p. p\<lparr>wp_sender := True, wp_connected := True,
                                             wp_established := True, wp_audio_source_id := Some audio_source_id\<rparr>) s;
                                       s = cancel_link_retry call_id peer_id s
                                   in (emit (EvWebrtc PeerConnected call_id peer_id) s, None))))))"

definition try_relay_reconnect ::
  "client_env \<Rightarrow> instant \<Rightarrow> call_id \<Rightarrow> client_id \<Rightarrow> client_id \<Rightarrow> client_app \<Rightarrow> client_app \<times> (app_error + string option)" where
  "try_relay_reconnect e now call_id peer_id own_client_id s =
     (case webrtc_peer_with call_id peer_id s of
        None \<Rightarrow> (s, Inr None)
      | Some peer \<Rightarrow>
          if wp_reconnected peer \<or> cfg_force_relay (ap_config s) \<or> \<not> wp_peer_supports_reconnect peer
          then (emit (EvWebrtc PeerDegraded call_id peer_id) s, Inr None)
          else case negotiate_peer e now call_id peer_id own_client_id None s of
                 (s, Inl err) \<Rightarrow> (s, Inl err)
               | (s, Inr sdp) \<Rightarrow> (s, Inr (Some sdp)))"

end
