(* ===== verification/ClientApp.thy ===== *)
theory ClientApp
  imports ClientCalls
begin

text \<open>
  The desktop client's reaction to the server, the user and its own tasks
  (\<^verbatim>\<open>vacs-client/src/app/state/signaling.rs\<close>, the tasks of \<^verbatim>\<open>app/state/webrtc.rs\<close>, and the end of a
  call on an audio failure in \<^verbatim>\<open>audio/manager.rs\<close>): the commands of the user, every server message,
  the timers, the retries of a dead link and the events of a peer connection. The last section is
  the transition system of all of them.
\<close>

section \<open>Commands\<close>

definition end_call_client :: "client_env \<Rightarrow> call_id \<Rightarrow> client_app \<Rightarrow> client_app \<times> (app_error + bool)" where
  "end_call_client e call_id s =
     (case ap_client_id s of
        None \<Rightarrow> (s, Inl AppUnauthorized)
      | Some own_client_id \<Rightarrow>
          (case send_signaling_message e (MsgCallEnd \<lparr>ce_call_id = call_id, ce_ending_client_id = own_client_id\<rparr>) s of
             (s, False) \<Rightarrow> (s, Inl SendError)
           | (s, True) \<Rightarrow>
               (let (s, found) = cleanup_current_call call_id s
                in (emit (EvForceCallEnd call_id) s, Inr found))))"

definition accept_incoming :: "client_env \<Rightarrow> call_id \<Rightarrow> client_id \<Rightarrow> client_app \<Rightarrow> client_app \<times> (app_error + bool)" where
  "accept_incoming e call_id own_client_id s =
     (case hm_get (ap_incoming_calls s) call_id of
        None \<Rightarrow> (s, Inr False)
      | Some call \<Rightarrow>
          (let s = s\<lparr>ap_incoming_calls := hm_remove call_id (ap_incoming_calls s)\<rparr>
           in case send_signaling_message e (MsgCallAccept \<lparr>ca_call_id = call_id, ca_accepting_client_id = own_client_id\<rparr>) s of
                (s, False) \<Rightarrow> (s\<lparr>ap_incoming_calls := hm_insert call_id call (ap_incoming_calls s)\<rparr>, Inl SendError)
              | (s, True) \<Rightarrow>
                  (let s = start_call_establishment_timer call_id (s\<lparr>ap_current_call := Some call\<rparr>);
                       s = stop_ringing_if_no_incoming_calls s
                   in (emit (EvAcceptIncoming call_id) s, Inr True))))"

definition accept_call_client ::
  "client_env \<Rightarrow> call_id option \<Rightarrow> bool \<Rightarrow> client_app \<Rightarrow> client_app \<times> (app_error + bool)" where
  "accept_call_client e requested end_active_call s =
     (case ap_client_id s of
        None \<Rightarrow> (s, Inl AppUnauthorized)
      | Some own_client_id \<Rightarrow>
          (case (case requested of Some cid \<Rightarrow> [cid] | None \<Rightarrow> take 1 (hm_keys (ap_incoming_calls s))) of
             [] \<Rightarrow> (s, Inr False)
           | call_id # _ \<Rightarrow>
               if \<not> hm_contains_key call_id (ap_incoming_calls s) then (s, Inr False)
               else
                 (case ap_current_call s of
                    None \<Rightarrow> accept_incoming e call_id own_client_id s
                  | Some current_call \<Rightarrow>
                      if \<not> end_active_call \<or> \<not> call_is_active own_client_id current_call then (s, Inl WebrtcCallActive)
                      else case end_call_client e (clc_call_id current_call) s of
                             (s, Inl err) \<Rightarrow> (s, Inl err)
                           | (s, Inr _) \<Rightarrow> accept_incoming e call_id own_client_id s)))"

text \<open>The argument \<open>new_call_id\<close> is the random id of a new call.\<close>

definition invite_to_call ::
  "client_env \<Rightarrow> call_id \<Rightarrow> call_source \<Rightarrow> call_target hash_set \<Rightarrow> bool \<Rightarrow> client_app \<Rightarrow> client_app \<times> (app_error + call_id)" where
  "invite_to_call e new_call_id source targets prio s =
     (let call_id = (case ap_current_call s of Some current_call \<Rightarrow> clc_call_id current_call | None \<Rightarrow> new_call_id);
          invite = \<lparr>ci_call_id = call_id, ci_source = source, ci_targets = targets, ci_prio = prio\<rparr>
      in case send_signaling_message e (MsgCallInvite invite) s of
           (s, False) \<Rightarrow> (s, Inl SendError)
         | (s, True) \<Rightarrow>
             (let s = s\<lparr>ap_current_call := Some
                        (case ap_current_call s of
                           Some current_call \<Rightarrow> add_invited_targets targets current_call
                         | None \<Rightarrow> from_invite invite)\<rparr>;
                  s = emit (EvOutgoingCall invite) s;
                  s = start_unanswered_call_timer_for_targets call_id targets s
              in (audio_restart Ringback s, Inr call_id)))"

definition drop_target_client :: "client_env \<Rightarrow> call_id \<Rightarrow> call_target \<Rightarrow> client_app \<Rightarrow> client_app \<times> app_error option" where
  "drop_target_client e call_id target s =
     (case current_call_with call_id s of
        None \<Rightarrow> (s, Some WebrtcNoCallActive)
      | Some current_call \<Rightarrow>
          (case send_signaling_message e
                  (MsgCallDropTarget \<lparr>cdt_call_id = call_id, cdt_target = target, cdt_reason = Requested\<rparr>) s of
             (s, False) \<Rightarrow> (s, Some SendError)
           | (s, True) \<Rightarrow>
               if target \<in> set (clc_invited_targets current_call)
               then
                 (let s = cancel_unanswered_call_timers_for_targets [target] s;
                      s = map_current_call call_id (remove_invited_targets [target]) s
                  in (stop_ringback_if_no_invited_targets call_id s, None))
               else (s, None)))"

definition remove_incoming_call :: "call_id \<Rightarrow> client_app \<Rightarrow> client_app \<times> bool" where
  "remove_incoming_call call_id s =
     (stop_ringing_if_no_incoming_calls (s\<lparr>ap_incoming_calls := hm_remove call_id (ap_incoming_calls s)\<rparr>),
      hm_contains_key call_id (ap_incoming_calls s))"

section \<open>The end of a connection\<close>

definition clear_session_cache :: "client_app \<Rightarrow> client_app" where
  "clear_session_cache s =
     s\<lparr>ap_connection_state := AppDisconnected, ap_session_info := None, ap_stations := [], ap_clients := []\<rparr>"

definition cleanup_signaling :: "client_app \<Rightarrow> client_app" where
  "cleanup_signaling s =
     (let s = clear_session_cache (s\<lparr>ap_incoming_calls := []\<rparr>);
          s = (case current_call_id s of Some call_id \<Rightarrow> fst (cleanup_current_call call_id s) | None \<Rightarrow> s);
          s = audio_stop Ringback (audio_stop PriorityRing (audio_stop Ring s));
          s = s\<lparr>ap_call_outputs := []\<rparr>
      in engine_set_call_active False s)"

definition handle_signaling_connection_closed :: "client_app \<Rightarrow> client_app" where
  "handle_signaling_connection_closed s = emit EvDisconnected (cleanup_signaling s)"

text \<open>The disconnect of the signaling client itself is part of that client's model.\<close>

definition disconnect_signaling :: "client_app \<Rightarrow> client_app" where
  "disconnect_signaling s = emit EvDisconnected (cleanup_signaling s)"

section \<open>Calls in server messages\<close>

definition incoming_calls_limit :: nat where
  "incoming_calls_limit = 5"

definition handle_call_invitation :: "client_env \<Rightarrow> call_invitation \<Rightarrow> client_app \<Rightarrow> client_app" where
  "handle_call_invitation e msg s =
     (if cs_client_id (inv_source msg) \<in> set (cfg_ignored (ap_config s)) then s
      else case ap_client_id s of
             None \<Rightarrow> s
           | Some own_client_id \<Rightarrow>
               (let s = emit (EvAddIncoming (inv_call_id msg) (inv_source msg)) s
                in if incoming_calls_limit \<le> length (ap_incoming_calls s)
                   then fst (send_signaling_message e (MsgCallReject
                          \<lparr>cr_call_id = inv_call_id msg, cr_rejecting_client_id = own_client_id, cr_reason = Busy\<rparr>) s)
                   else
                     (let s = s\<lparr>ap_incoming_calls := hm_insert (inv_call_id msg) (from_invitation msg) (ap_incoming_calls s)\<rparr>;
                          s = emit (EvCallInvitation msg) s
                      in audio_restart (if inv_prio msg \<and> cfg_enable_priority_calls (ap_config s) then PriorityRing else Ring) s)))"

definition offer_peer :: "client_env \<Rightarrow> instant \<Rightarrow> call_id \<Rightarrow> client_id \<Rightarrow> client_id \<times> call_target \<Rightarrow> client_app \<Rightarrow> client_app" where
  "offer_peer e now call_id own_client_id = (\<lambda>(peer_id, target) s.
     case negotiate_peer e now call_id peer_id own_client_id None s of
       (s, Inr sdp) \<Rightarrow>
         (case send_signaling_message e (MsgWebrtcOffer
                 \<lparr>wm_call_id = call_id, wm_from_client_id = own_client_id, wm_to_client_id = peer_id, wm_payload = sdp\<rparr>) s of
            (s, True) \<Rightarrow> s
          | (s, False) \<Rightarrow>
              try_send_call_error e call_id (SignalingFailure own_client_id)
                (fst (cleanup_call_peer call_id peer_id (cancel_link_retry call_id peer_id s))))
     | (s, Inl err) \<Rightarrow>
         (let reason = into_call_error_reason own_client_id err
          in case handle_conference_peer_failure e now call_id peer_id own_client_id reason s of
               (s, True) \<Rightarrow> s
             | (s, False) \<Rightarrow>
                 emit_call_error call_id True (OriginTargets [target]) reason (try_send_call_error e call_id reason s)))"

definition drop_left_peer :: "call_id \<Rightarrow> client_id \<Rightarrow> client_app \<Rightarrow> client_app" where
  "drop_left_peer call_id peer_id s = fst (cleanup_call_peer call_id peer_id (cancel_link_retry call_id peer_id s))"

definition await_offer :: "call_id \<Rightarrow> client_id \<Rightarrow> client_app \<Rightarrow> client_app" where
  "await_offer call_id own_client_id s =
     (case current_call_with call_id s of
        Some call \<Rightarrow>
          if list_ex (\<lambda>id. id \<noteq> own_client_id) (hm_keys (clc_joined_participants call)) \<and> wc_peers (clc_webrtc call) = []
          then start_call_establishment_timer call_id s else s
      | None \<Rightarrow> s)"

text \<open>The update of the current call: who left is taken down, who joined and has a higher id is sent an offer.\<close>

definition update_current_call :: "client_env \<Rightarrow> instant \<Rightarrow> call_update \<Rightarrow> client_id \<Rightarrow> client_call \<Rightarrow> client_app \<Rightarrow> client_app" where
  "update_current_call e now msg own_client_id current_call s =
     (let call_id = cu_call_id msg;
          was_active = call_is_active own_client_id current_call;
          (call, newly_joined, left) =
            update_call own_client_id (cu_invited_targets msg) (cu_joined_participants msg) (cu_conference_leader msg) current_call;
          is_active = call_is_active own_client_id call;
          s = s\<lparr>ap_current_call := Some call\<rparr>
      in if (cu_invited_targets msg = [] \<and> cu_joined_participants msg = []) \<or> (was_active \<and> \<not> is_active)
         then emit (EvForceCallEnd call_id) (fst (cleanup_current_call call_id s))
         else
           (let s = (if cu_invited_targets msg = []
                     then audio_stop Ringback (cancel_all_unanswered_call_timers s)
                     else cancel_unanswered_call_timers_for_targets (hm_values newly_joined) s);
                s = fold (drop_left_peer call_id) left s;
                attempted_peers = filter (\<lambda>(peer_id, _). own_client_id < peer_id) newly_joined;
                s = fold (offer_peer e now call_id own_client_id) attempted_peers s;
                (s, ended) = (if attempted_peers = [] then (s, False) else end_call_if_no_peers call_id s)
            in if ended then emit (EvForceCallEnd call_id) s
               else emit (EvCallUpdate msg) (if is_active then await_offer call_id own_client_id s else s)))"

definition handle_call_update :: "client_env \<Rightarrow> instant \<Rightarrow> call_update \<Rightarrow> client_app \<Rightarrow> client_app" where
  "handle_call_update e now msg s =
     (case ap_client_id s of
        None \<Rightarrow> s
      | Some own_client_id \<Rightarrow>
          (case hm_get (ap_incoming_calls s) (cu_call_id msg) of
             Some incoming_call \<Rightarrow>
               (let (call, _) = update_call own_client_id (cu_invited_targets msg) (cu_joined_participants msg)
                      (cu_conference_leader msg) incoming_call
                in emit (EvCallUpdate msg) (s\<lparr>ap_incoming_calls := hm_insert (cu_call_id msg) call (ap_incoming_calls s)\<rparr>))
           | None \<Rightarrow>
               (case current_call_with (cu_call_id msg) s of
                  None \<Rightarrow> s
                | Some current_call \<Rightarrow> update_current_call e now msg own_client_id current_call s)))"

definition handle_webrtc_offer :: "client_env \<Rightarrow> instant \<Rightarrow> webrtc_message \<Rightarrow> client_app \<Rightarrow> client_app" where
  "handle_webrtc_offer e now msg s =
     (case ap_client_id s of
        None \<Rightarrow> s
      | Some own_client_id \<Rightarrow>
          (let call_id = wm_call_id msg; from_client_id = wm_from_client_id msg
           in if has_link_limbo call_id from_client_id s \<and> own_client_id < from_client_id then s
              else case negotiate_peer e now call_id from_client_id own_client_id (Some (wm_payload msg)) s of
                     (s, Inr sdp) \<Rightarrow>
                       fst (send_signaling_message e (MsgWebrtcAnswer
                         \<lparr>wm_call_id = call_id, wm_from_client_id = own_client_id, wm_to_client_id = from_client_id, wm_payload = sdp\<rparr>) s)
                   | (s, Inl err) \<Rightarrow>
                       (let reason = into_call_error_reason own_client_id err
                        in case handle_conference_peer_failure e now call_id from_client_id own_client_id reason s of
                             (s, True) \<Rightarrow> s
                           | (s, False) \<Rightarrow>
                               try_send_call_error e call_id reason
                                 (emit_call_error call_id True (OriginClient from_client_id) reason s))))"

definition handle_webrtc_answer :: "client_env \<Rightarrow> instant \<Rightarrow> webrtc_message \<Rightarrow> client_app \<Rightarrow> client_app" where
  "handle_webrtc_answer e now msg s =
     (case ap_client_id s of
        None \<Rightarrow> s
      | Some own_client_id \<Rightarrow>
          (let call_id = wm_call_id msg; from_client_id = wm_from_client_id msg
           in if webrtc_peer_with call_id from_client_id s = None then s
              else case accept_call_answer e call_id from_client_id (wm_payload msg) s of
                     (s, None) \<Rightarrow> s
                   | (s, Some err) \<Rightarrow>
                       (let reason = into_call_error_reason own_client_id err
                        in case handle_conference_peer_failure e now call_id from_client_id own_client_id reason s of
                             (s, True) \<Rightarrow> s
                           | (s, False) \<Rightarrow> try_send_call_error e call_id reason s)))"

definition handle_call_end_client :: "call_end \<Rightarrow> client_app \<Rightarrow> client_app" where
  "handle_call_end_client msg s =
     (let s = fst (cleanup_current_call (ce_call_id msg) s);
          s = fst (remove_incoming_call (ce_call_id msg) s)
      in emit (EvCallEnd (ce_call_id msg)) s)"

text \<open>Targets that will not join are taken out of the current call, which ends when nobody is left in it.\<close>

definition drop_targets :: "call_id \<Rightarrow> call_target hash_set \<Rightarrow> client_app \<Rightarrow> client_app \<times> bool" where
  "drop_targets call_id targets s =
     (let s = map_current_call call_id (remove_invited_targets targets) s
      in case current_call_with call_id s of
           Some call \<Rightarrow> if call_is_empty call then (fst (cleanup_current_call call_id s), True) else (s, False)
         | None \<Rightarrow> (s, False))"

definition drop_targets_and_timers :: "call_id \<Rightarrow> call_target hash_set \<Rightarrow> client_app \<Rightarrow> client_app" where
  "drop_targets_and_timers call_id targets s =
     stop_ringback_if_no_invited_targets call_id
       (cancel_unanswered_call_timers_for_targets targets (fst (drop_targets call_id targets s)))"

definition handle_call_error_client :: "call_error \<Rightarrow> client_app \<Rightarrow> client_app" where
  "handle_call_error_client msg s =
     (let call_id = cerr_call_id msg; reason = cerr_reason msg;
          targets_lost = (\<lambda>targets.
            if current_call_with call_id s = None then s
            else
              (let (s, ended) = drop_targets call_id targets s;
                   s = (if ended then s else cancel_unanswered_call_timers_for_targets targets s);
                   s = stop_ringback_if_no_invited_targets call_id s
               in emit_call_error call_id False (OriginTargets targets) reason s));
          call_lost =
            (let s = fst (cleanup_current_call call_id s); s = fst (remove_incoming_call call_id s)
             in emit_call_error call_id False OriginCall reason s);
          peer_error = (\<lambda>erroring_client_id.
            if current_call_with call_id s = None then s
            else emit_call_error call_id False (OriginClient erroring_client_id) reason s);
          target_refused = (\<lambda>target.
            if current_call_with call_id s = None then s
            else emit_call_error call_id False (OriginTargets [target]) reason (drop_targets_and_timers call_id [target] s))
      in case reason of
           TargetsNotFound targets \<Rightarrow> targets_lost targets
         | MaxConferenceSizeReached targets \<Rightarrow> targets_lost targets
         | call_error_reason.CallActive \<Rightarrow> call_lost
         | NotParticipant \<Rightarrow> call_lost
         | CallNotFound \<Rightarrow> call_lost
         | CallFailure \<Rightarrow> call_lost
         | Other \<Rightarrow> call_lost
         | Unknown _ \<Rightarrow> emit_call_error call_id False OriginCall reason s
         | WebrtcFailure erroring_client_id \<Rightarrow> peer_error erroring_client_id
         | AudioFailure erroring_client_id \<Rightarrow> peer_error erroring_client_id
         | SignalingFailure erroring_client_id \<Rightarrow> peer_error erroring_client_id
         | NotConferenceLeader target \<Rightarrow> target_refused target
         | AlreadyParticipant target \<Rightarrow> target_refused target
         | PeerConnectionFailed peer_id \<Rightarrow>
             (case cleanup_current_call call_id s of
                (s, True) \<Rightarrow> emit (EvCallError call_id False (OriginClient peer_id) reason True) s
              | (s, False) \<Rightarrow> s)
         | AutoHangup \<Rightarrow> s)"

definition handle_call_cancelled :: "call_cancelled \<Rightarrow> client_app \<Rightarrow> client_app" where
  "handle_call_cancelled msg s =
     (let call_id = cc_call_id msg; targets = cc_targets msg;
          call_over =
            (let s = fst (cleanup_current_call call_id s); s = fst (remove_incoming_call call_id s)
             in emit (EvCallEnd call_id) s);
          targets_gone =
            (let (s, found) = remove_incoming_call call_id s
             in if found then emit (EvCallEnd call_id) s
                else if current_call_with call_id s = None then s
                else case drop_targets call_id targets s of
                       (s, True) \<Rightarrow> emit (EvForceCallEnd call_id) s
                     | (s, False) \<Rightarrow>
                         (let update = map_option call_update_of (current_call_with call_id s);
                              s = cancel_unanswered_call_timers_for_targets targets s;
                              s = stop_ringback_if_no_invited_targets call_id s
                          in case update of Some update \<Rightarrow> emit (EvCallUpdate update) s | None \<Rightarrow> s));
          refused = (\<lambda>ev. if current_call_with call_id s = None then s else emit ev (drop_targets_and_timers call_id targets s))
      in case cc_reason msg of
           AnsweredElsewhere _ \<Rightarrow> call_over
         | CallerCancelled \<Rightarrow> call_over
         | Disconnected \<Rightarrow> targets_gone
         | UnknownCancel _ \<Rightarrow> targets_gone
         | Rejected _ \<Rightarrow> refused (EvCallReject call_id targets)
         | Errored reason \<Rightarrow>
             if reason = AutoHangup then call_over
             else refused (EvCallError call_id False (OriginTargets targets) reason False))"

definition handle_rate_limited :: "call_target hash_set \<Rightarrow> call_id \<Rightarrow> client_app \<Rightarrow> client_app option" where
  "handle_rate_limited targets call_id s =
     (let s = fst (remove_incoming_call call_id s)
      in if current_call_with call_id s = None then None
         else
           (let (s, ended) = drop_targets call_id targets s;
                s = (if ended then emit (EvForceCallEnd call_id) s
                     else
                       (let s = (case current_call_with call_id s of
                                   Some call \<Rightarrow> emit (EvCallUpdate (call_update_of call)) s
                                 | None \<Rightarrow> s)
                        in cancel_unanswered_call_timers_for_targets targets s))
            in Some (stop_ringback_if_no_invited_targets call_id s)))"

text \<open>Without a current call of that id the handler returns before the error is shown.\<close>

definition handle_error_client :: "instant \<Rightarrow> error_message \<Rightarrow> client_app \<Rightarrow> client_app" where
  "handle_error_client now msg s =
     (case em_reason msg of
        RateLimited targets retry_after_secs \<Rightarrow>
          (let shown = emit (EvError (RuntimeError (RateLimitedUntil (now + from_secs retry_after_secs))))
           in case em_call_id msg of
                None \<Rightarrow> shown s
              | Some call_id \<Rightarrow>
                  (case handle_rate_limited targets call_id s of
                     Some s \<Rightarrow> shown s
                   | None \<Rightarrow> fst (remove_incoming_call call_id s)))
      | ClientNotFound \<Rightarrow>
          emit (EvClientNotFound (case em_client_id msg of Some client_id \<Rightarrow> client_id | None \<Rightarrow> ClientId [])) s
      | reason \<Rightarrow> emit (EvError (RuntimeError (ServerError reason))) s)"

section \<open>Clients and stations in server messages\<close>

definition handle_client_info :: "client_info \<Rightarrow> client_app \<Rightarrow> client_app" where
  "handle_client_info info s =
     (let known = takeWhile (\<lambda>c. info_id c \<noteq> info_id info) (ap_clients s);
          rest = dropWhile (\<lambda>c. info_id c \<noteq> info_id info) (ap_clients s);
          cs = (case rest of [] \<Rightarrow> ap_clients s @ [info] | _ # rest \<Rightarrow> known @ info # rest)
      in emit (EvClientConnected info) (s\<lparr>ap_clients := cs\<rparr>))"

text \<open>A handoff changes the first entry of the station, an online change appends one.\<close>

fun set_own :: "station_id \<Rightarrow> bool \<Rightarrow> station_info list \<Rightarrow> station_info list" where
  "set_own station_id own [] = []"
| "set_own station_id own (st # sts) =
     (if si_id st = station_id then st\<lparr>si_own := own\<rparr> # sts else st # set_own station_id own sts)"

fun change_stations :: "position_id option \<Rightarrow> station_change \<Rightarrow> station_info list \<Rightarrow> station_info list" where
  "change_stations own_position_id (Online station_id position_id) sts =
     sts @ [\<lparr>si_id = station_id, si_own = (own_position_id = Some position_id)\<rparr>]"
| "change_stations own_position_id (Handoff station_id _ to_position_id) sts =
     set_own station_id (own_position_id = Some to_position_id) sts"
| "change_stations own_position_id (Offline station_id) sts = filter (\<lambda>st. si_id st \<noteq> station_id) sts"

definition own_position_of :: "client_app \<Rightarrow> position_id option" where
  "own_position_of s = (case ap_session_info s of Some info \<Rightarrow> info_position_id (ses_client info) | None \<Rightarrow> None)"

definition handle_station_changes :: "station_change list \<Rightarrow> client_app \<Rightarrow> client_app" where
  "handle_station_changes changes s =
     emit (EvStationChanges changes) (s\<lparr>ap_stations := fold (change_stations (own_position_of s)) changes (ap_stations s)\<rparr>)"

section \<open>Messages and events of the signaling client\<close>

definition handle_signaling_message :: "client_env \<Rightarrow> instant \<Rightarrow> server_message \<Rightarrow> client_app \<Rightarrow> client_app" where
  "handle_signaling_message e now msg s =
     (case msg of
        CallInvitation m \<Rightarrow> handle_call_invitation e m s
      | CallUpdate m \<Rightarrow> handle_call_update e now m s
      | WebrtcOffer m \<Rightarrow> handle_webrtc_offer e now m s
      | WebrtcAnswer m \<Rightarrow> handle_webrtc_answer e now m s
      | WebrtcIceCandidate m \<Rightarrow> s
      | CallEnd m \<Rightarrow> handle_call_end_client m s
      | CallError m \<Rightarrow> handle_call_error_client m s
      | CallCancelled m \<Rightarrow> handle_call_cancelled m s
      | ClientConnected client \<Rightarrow> emit (EvClientConnected client) (s\<lparr>ap_clients := ap_clients s @ [client]\<rparr>)
      | ClientDisconnected client_id \<Rightarrow>
          emit (EvClientDisconnected client_id) (s\<lparr>ap_clients := filter (\<lambda>c. info_id c \<noteq> client_id) (ap_clients s)\<rparr>)
      | ClientList cs \<Rightarrow> emit (EvClientList cs) (s\<lparr>ap_clients := cs\<rparr>)
      | ClientInfo info \<Rightarrow> handle_client_info info s
      | SessionInfo info \<Rightarrow> emit (EvConnected info) (s\<lparr>ap_session_info := Some info\<rparr>)
      | StationList sts \<Rightarrow> emit (EvStationList sts) (s\<lparr>ap_stations := sts\<rparr>)
      | StationChanges changes \<Rightarrow> handle_station_changes changes s
      | Error m \<Rightarrow> handle_error_client now m s
      | Disconnected_msg _ \<Rightarrow> s
      | LoginFailure _ \<Rightarrow> s
      | UnknownMessage \<Rightarrow> s)"

definition handle_signaling_event :: "client_env \<Rightarrow> instant \<Rightarrow> signaling_event \<Rightarrow> client_app \<Rightarrow> client_app" where
  "handle_signaling_event e now ev s =
     (case ev of
        ConnectedEvent client_info profile default_call_sources conf_size \<Rightarrow>
          (let info = \<lparr>ses_client = client_info, ses_profile = Changed profile,
                 ses_default_call_sources = default_call_sources, ses_max_conf_size = conf_size\<rparr>
           in emit (EvConnected info)
                (s\<lparr>ap_connection_state := AppConnected, ap_session_info := Some info,
                   ap_default_call_sources := default_call_sources\<rparr>))
      | MessageEvent msg \<Rightarrow> handle_signaling_message e now msg s
      | ErrorEvent err \<Rightarrow>
          if is_fatal err
          then
            (let s = handle_signaling_connection_closed s
             in case err of
                  SigDisconnectedError (Some (AmbiguousVatsimPosition positions)) \<Rightarrow> emit (EvAmbiguousPosition positions) s
                | _ \<Rightarrow>
                    if err_can_reconnect err then emit EvReconnecting (s\<lparr>ap_connection_state := AppConnecting\<rparr>)
                    else emit (EvError (RuntimeError err)) s)
          else s)"

section \<open>Timers and tasks\<close>

text \<open>A task that was cancelled is gone; its expiry does nothing.\<close>

definition unanswered_timer_expired :: "client_env \<Rightarrow> call_target \<Rightarrow> client_app \<Rightarrow> client_app" where
  "unanswered_timer_expired e target s =
     (case hm_get (ap_unanswered_call_guards s) target of
        None \<Rightarrow> s
      | Some call_id \<Rightarrow>
          (let s = fst (send_signaling_message e
                     (MsgCallDropTarget \<lparr>cdt_call_id = call_id, cdt_target = target, cdt_reason = DropAutoHangup\<rparr>) s);
               s = s\<lparr>ap_unanswered_call_guards := hm_remove target (ap_unanswered_call_guards s)\<rparr>;
               s = emit_call_error call_id False (OriginTargets [target]) AutoHangup s
           in map_current_call call_id (remove_invited_targets [target]) s))"

definition establishment_timer_expired :: "client_env \<Rightarrow> client_app \<Rightarrow> client_app" where
  "establishment_timer_expired e s =
     (case ap_establishment_guard s of
        None \<Rightarrow> s
      | Some call_id \<Rightarrow>
          (let s = s\<lparr>ap_establishment_guard := None\<rparr>
           in case current_call_with call_id s of
                None \<Rightarrow> s
              | Some call \<Rightarrow>
                  if wc_peers (clc_webrtc call) \<noteq> [] then s
                  else
                    (let s = (case ap_client_id s of
                                Some own_client_id \<Rightarrow>
                                  fst (send_signaling_message e
                                    (MsgCallEnd \<lparr>ce_call_id = call_id, ce_ending_client_id = own_client_id\<rparr>) s)
                              | None \<Rightarrow> s);
                         s = emit_call_error call_id True OriginCall CallFailure s;
                         s = fst (cleanup_current_call call_id s)
                     in emit (EvForceCallEnd call_id) s)))"

definition peer_joined :: "call_id \<Rightarrow> client_id \<Rightarrow> client_app \<Rightarrow> bool" where
  "peer_joined call_id peer_id s =
     (case current_call_with call_id s of
        Some call \<Rightarrow> hm_contains_key peer_id (clc_joined_participants call)
      | None \<Rightarrow> False)"

definition peer_established :: "call_id \<Rightarrow> client_id \<Rightarrow> client_app \<Rightarrow> bool" where
  "peer_established call_id peer_id s =
     (case webrtc_peer_with call_id peer_id s of Some peer \<Rightarrow> wp_established peer | None \<Rightarrow> False)"

definition attempt_link_retry :: "client_env \<Rightarrow> instant \<Rightarrow> client_id \<Rightarrow> client_app \<Rightarrow> client_app" where
  "attempt_link_retry e now peer_id s =
     (case hm_get (ap_link_limbo_guards s) peer_id of
        None \<Rightarrow> s
      | Some guard \<Rightarrow>
          (let call_id = lr_call_id guard; own_client_id = lr_own_client_id guard
           in if \<not> peer_joined call_id peer_id s \<or> peer_established call_id peer_id s \<or> young_peer now call_id peer_id s then s
              else
                (let s = (if webrtc_peer_with call_id peer_id s = None
                          then emit (EvWebrtc PeerReconnecting call_id peer_id) s else s)
                 in case negotiate_peer e now call_id peer_id own_client_id None s of
                      (s, Inr sdp) \<Rightarrow>
                        fst (send_signaling_message e (MsgWebrtcOffer
                          \<lparr>wm_call_id = call_id, wm_from_client_id = own_client_id, wm_to_client_id = peer_id, wm_payload = sdp\<rparr>) s)
                    | (s, Inl _) \<Rightarrow> s)))"

text \<open>One turn of the retry loop after its waiting time; the attempt that may follow is a step of its own.\<close>

definition link_retry_turn :: "client_env \<Rightarrow> instant \<Rightarrow> client_id \<Rightarrow> client_app \<Rightarrow> client_app" where
  "link_retry_turn e now peer_id s =
     (case hm_get (ap_link_limbo_guards s) peer_id of
        None \<Rightarrow> s
      | Some guard \<Rightarrow>
          (let call_id = lr_call_id guard; young = young_peer now call_id peer_id s
           in if peer_established call_id peer_id s \<or> \<not> peer_joined call_id peer_id s then remove_link_limbo call_id peer_id s
              else
                (let s = (if young then s else remove_link_peer_quiet call_id peer_id s)
                 in if \<not> young \<and> (case webrtc_call_with call_id s of Some w \<Rightarrow> wc_peers w = [] | None \<Rightarrow> False)
                    then fail_call e call_id (WebrtcFailure (lr_own_client_id guard)) (remove_link_limbo call_id peer_id s)
                    else
                      (let s = (if lr_reported guard \<or> \<not> young
                                then try_send_call_error e call_id (PeerConnectionFailed peer_id) s else s)
                       in if young then s
                          else s\<lparr>ap_link_limbo_guards := hm_insert peer_id (guard\<lparr>lr_reported := True\<rparr>) (ap_link_limbo_guards s)\<rparr>))))"

datatype peer_event =
    StateConnected | StateDisconnected | StateFailed | StateClosed | StateOther
  | LocalIceCandidate string | NoInboundMedia | PeerErrorEvent string

definition peer_disconnected :: "call_id \<Rightarrow> client_id \<Rightarrow> client_app \<Rightarrow> client_app" where
  "peer_disconnected call_id peer_id s =
     (case webrtc_peer_with call_id peer_id s of
        None \<Rightarrow> s
      | Some peer \<Rightarrow>
          (let s = map_webrtc_peer call_id peer_id
                     (\<lambda>p. p\<lparr>wp_sender := False, wp_audio_source_id := None, wp_connected := False, wp_established := False\<rparr>) s;
               s = detach_output_option (wp_audio_source_id peer) s
           in if wp_connected peer then restart_option (peer_left_sound call_id peer_id s) s else s))"

definition peer_failed :: "client_env \<Rightarrow> instant \<Rightarrow> call_id \<Rightarrow> client_id \<Rightarrow> client_id \<Rightarrow> client_app \<Rightarrow> client_app" where
  "peer_failed e now call_id peer_id own_client_id s =
     (let s = map_webrtc_peer call_id peer_id (\<lambda>p. p\<lparr>wp_established := False\<rparr>) s
      in if is_conference_link call_id peer_id s
         then
           (let s = emit (EvWebrtc PeerDisconnected call_id peer_id) s
            in if has_link_limbo call_id peer_id s
               then if young_peer now call_id peer_id s then s else remove_link_peer_quiet call_id peer_id s
               else start_link_retry call_id peer_id own_client_id s)
         else fail_peer e call_id peer_id (WebrtcFailure own_client_id) s)"

definition relay_reconnect :: "client_env \<Rightarrow> instant \<Rightarrow> call_id \<Rightarrow> client_id \<Rightarrow> client_id \<Rightarrow> client_app \<Rightarrow> client_app" where
  "relay_reconnect e now call_id peer_id own_client_id s =
     (case try_relay_reconnect e now call_id peer_id own_client_id s of
        (s, Inr (Some sdp)) \<Rightarrow>
          fst (send_signaling_message e (MsgWebrtcOffer
            \<lparr>wm_call_id = call_id, wm_from_client_id = own_client_id, wm_to_client_id = peer_id, wm_payload = sdp\<rparr>) s)
      | (s, Inr None) \<Rightarrow> s
      | (s, Inl _) \<Rightarrow>
          if is_conference_link call_id peer_id s then emit (EvWebrtc PeerDegraded call_id peer_id) s
          else fail_peer e call_id peer_id (WebrtcFailure own_client_id) s)"

definition handle_peer_event :: "client_env \<Rightarrow> instant \<Rightarrow> nat \<Rightarrow> peer_event \<Rightarrow> client_app \<Rightarrow> client_app" where
  "handle_peer_event e now serial ev s =
     (case hm_get (ap_events_tasks s) serial of
        None \<Rightarrow> s
      | Some task \<Rightarrow>
          (let call_id = et_call_id task; peer_id = et_peer_id task; own_client_id = et_own_client_id task
           in case ev of
                StateConnected \<Rightarrow>
                  (case on_peer_connected e now call_id peer_id s of
                     (s, None) \<Rightarrow> s
                   | (s, Some err) \<Rightarrow>
                       handle_peer_failure e now call_id peer_id own_client_id (into_call_error_reason own_client_id err) s)
              | StateDisconnected \<Rightarrow> emit (EvWebrtc PeerDisconnected call_id peer_id) (peer_disconnected call_id peer_id s)
              | StateFailed \<Rightarrow> peer_failed e now call_id peer_id own_client_id s
              | StateClosed \<Rightarrow>
                  (case end_call_if_no_peers call_id (fst (cleanup_call_peer call_id peer_id s)) of
                     (s, True) \<Rightarrow> emit (EvCallEnd call_id) s
                   | (s, False) \<Rightarrow> s)
              | LocalIceCandidate candidate \<Rightarrow>
                  fst (send_signaling_message e (MsgWebrtcIceCandidate
                    \<lparr>wm_call_id = call_id, wm_from_client_id = own_client_id, wm_to_client_id = peer_id, wm_payload = candidate\<rparr>) s)
              | NoInboundMedia \<Rightarrow> relay_reconnect e now call_id peer_id own_client_id s
              | StateOther \<Rightarrow> s
              | PeerErrorEvent _ \<Rightarrow> s))"

definition end_call_on_stream_failure :: "client_env \<Rightarrow> client_app \<Rightarrow> client_app" where
  "end_call_on_stream_failure e s =
     (case current_call_id s of
        None \<Rightarrow> s
      | Some call_id \<Rightarrow>
          (let s = fst (cleanup_current_call call_id s);
               s = (case ap_client_id s of
                      Some own_client_id \<Rightarrow> try_send_call_error e call_id (AudioFailure own_client_id) s
                    | None \<Rightarrow> s)
           in emit (EvForceCallEnd call_id) s))"

section \<open>The client as a transition system\<close>

datatype app_op =
    SetClientId "client_id option"
  | Invite call_id call_source "call_target hash_set" bool
  | Accept "call_id option" bool
  | DropTarget call_id call_target
  | EndCall call_id
  | DisconnectCommand
  | SignalingEvent instant signaling_event
  | UnansweredTimer call_target
  | EstablishmentTimer
  | LinkRetryAttempt instant client_id
  | LinkRetryTurn instant client_id
  | PeerEvent instant nat peer_event
  | StreamFailure

fun app_exec :: "client_env \<Rightarrow> app_op \<Rightarrow> client_app \<Rightarrow> client_app" where
  "app_exec e (SetClientId client_id) s = s\<lparr>ap_client_id := client_id\<rparr>"
| "app_exec e (Invite new_call_id source targets prio) s = fst (invite_to_call e new_call_id source targets prio s)"
| "app_exec e (Accept call_id end_active_call) s = fst (accept_call_client e call_id end_active_call s)"
| "app_exec e (DropTarget call_id target) s = fst (drop_target_client e call_id target s)"
| "app_exec e (EndCall call_id) s = fst (end_call_client e call_id s)"
| "app_exec e DisconnectCommand s = disconnect_signaling s"
| "app_exec e (SignalingEvent now ev) s = handle_signaling_event e now ev s"
| "app_exec e (UnansweredTimer target) s = unanswered_timer_expired e target s"
| "app_exec e EstablishmentTimer s = establishment_timer_expired e s"
| "app_exec e (LinkRetryAttempt now peer_id) s = attempt_link_retry e now peer_id s"
| "app_exec e (LinkRetryTurn now peer_id) s = link_retry_turn e now peer_id s"
| "app_exec e (PeerEvent now serial ev) s = handle_peer_event e now serial ev s"
| "app_exec e StreamFailure s = end_call_on_stream_failure e s"

end
