(* ===== verification/ClientInvariant.thy ===== *)
theory ClientInvariant
  imports ClientApp
begin

text \<open>
  The invariant of the client's call state: what runs for the current call, and that nothing runs
  without one. The peer connections of the current call, their events tasks and their attached
  audio outputs correspond one to one; timers and link retries belong to the current call; the
  client rings only for incoming calls and plays the ringback only for its own. Every step of the
  client keeps it.
\<close>

section \<open>Peer connections, events tasks and outputs\<close>

definition peers_ok ::
  "call_id \<Rightarrow> (client_id, webrtc_peer) hash_map \<Rightarrow> (nat, events_task) hash_map \<Rightarrow> nat hash_set \<Rightarrow> nat \<Rightarrow> bool" where
  "peers_ok call_id peers tasks outs fresh \<longleftrightarrow>
     (\<forall>p peer. hm_get peers p = Some peer \<longrightarrow>
        wp_peer_id peer = p \<and> (wp_sender peer \<longleftrightarrow> wp_audio_source_id peer \<noteq> None) \<and> wp_serial peer < fresh \<and>
        (\<exists>task. hm_get tasks (wp_serial peer) = Some task \<and> et_call_id task = call_id \<and> et_peer_id task = p)) \<and>
     (\<forall>n task. hm_get tasks n = Some task \<longrightarrow>
        et_call_id task = call_id \<and> (\<exists>peer. hm_get peers (et_peer_id task) = Some peer \<and> wp_serial peer = n)) \<and>
     (\<forall>a. a \<in> set outs \<longleftrightarrow> (\<exists>p peer. hm_get peers p = Some peer \<and> wp_audio_source_id peer = Some a)) \<and>
     (\<forall>p q peer peer' a. hm_get peers p = Some peer \<longrightarrow> hm_get peers q = Some peer' \<longrightarrow>
        wp_audio_source_id peer = Some a \<longrightarrow> wp_audio_source_id peer' = Some a \<longrightarrow> p = q) \<and>
     (\<forall>a \<in> set outs. a < fresh)"

lemma peers_ok_Nil [simp]: "peers_ok c [] tasks outs fresh \<longleftrightarrow> tasks = [] \<and> outs = []"
proof -
  have "tasks = [] \<longleftrightarrow> (\<forall>n. hm_get tasks n = None)" by (cases tasks) (auto split: if_splits)
  then show ?thesis by (cases outs) (auto simp: peers_ok_def)
qed

lemma peers_okI:
  assumes "\<And>p peer. hm_get peers p = Some peer \<Longrightarrow> wp_peer_id peer = p \<and> (wp_sender peer \<longleftrightarrow> wp_audio_source_id peer \<noteq> None) \<and>
      wp_serial peer < fresh \<and> (\<exists>task. hm_get tasks (wp_serial peer) = Some task \<and> et_call_id task = c \<and> et_peer_id task = p)"
    and "\<And>n task. hm_get tasks n = Some task \<Longrightarrow>
      et_call_id task = c \<and> (\<exists>peer. hm_get peers (et_peer_id task) = Some peer \<and> wp_serial peer = n)"
    and "\<And>a. a \<in> set outs \<longleftrightarrow> (\<exists>p peer. hm_get peers p = Some peer \<and> wp_audio_source_id peer = Some a)"
    and "\<And>p q peer peer' a. hm_get peers p = Some peer \<Longrightarrow> hm_get peers q = Some peer' \<Longrightarrow>
      wp_audio_source_id peer = Some a \<Longrightarrow> wp_audio_source_id peer' = Some a \<Longrightarrow> p = q"
    and "\<And>a. a \<in> set outs \<Longrightarrow> a < fresh"
  shows "peers_ok c peers tasks outs fresh"
  unfolding peers_ok_def using assms(1,2,4,5) by (intro conjI allI impI ballI assms(3)) blast+

lemma peers_ok_peer:
  assumes "peers_ok c peers tasks outs fresh" "hm_get peers p = Some peer"
  shows "wp_peer_id peer = p" "wp_sender peer \<longleftrightarrow> wp_audio_source_id peer \<noteq> None" "wp_serial peer < fresh"
    "\<exists>task. hm_get tasks (wp_serial peer) = Some task \<and> et_call_id task = c \<and> et_peer_id task = p"
  using conjunct1 [OF assms(1) [unfolded peers_ok_def]] assms(2) by blast+

lemma peers_ok_task:
  assumes "peers_ok c peers tasks outs fresh" "hm_get tasks n = Some task"
  shows "et_call_id task = c" "\<exists>peer. hm_get peers (et_peer_id task) = Some peer \<and> wp_serial peer = n"
  using assms unfolding peers_ok_def by blast+

lemma peers_ok_out:
  "peers_ok c peers tasks outs fresh \<Longrightarrow>
     a \<in> set outs \<longleftrightarrow> (\<exists>p peer. hm_get peers p = Some peer \<and> wp_audio_source_id peer = Some a)"
  unfolding peers_ok_def by blast

lemma peers_ok_out_inj:
  "peers_ok c peers tasks outs fresh \<Longrightarrow> hm_get peers p = Some peer \<Longrightarrow> hm_get peers q = Some peer' \<Longrightarrow>
     wp_audio_source_id peer = Some a \<Longrightarrow> wp_audio_source_id peer' = Some a \<Longrightarrow> p = q"
  unfolding peers_ok_def by blast

lemma peers_ok_fresh: "peers_ok c peers tasks outs fresh \<Longrightarrow> a \<in> set outs \<Longrightarrow> a < fresh"
  unfolding peers_ok_def by blast

lemma peers_ok_serial_inj:
  assumes "peers_ok c peers tasks outs fresh" "hm_get peers p = Some peer" "hm_get peers q = Some peer'"
    "wp_serial peer = wp_serial peer'"
  shows "p = q"
  using peers_ok_peer(4) [OF assms(1,2)] peers_ok_peer(4) [OF assms(1,3)] assms(4) by auto

definition outs_without :: "nat option \<Rightarrow> nat hash_set \<Rightarrow> nat hash_set" where
  "outs_without src outs = (case src of Some src \<Rightarrow> hs_remove src outs | None \<Rightarrow> outs)"

lemma set_outs_without: "set (outs_without src outs) = set outs - set_option src"
  by (auto simp: outs_without_def hs_remove_def split: option.splits)

lemma peers_ok_remove:
  assumes ok: "peers_ok c peers tasks outs fresh" and p: "hm_get peers p = Some peer"
  shows "peers_ok c (hm_remove p peers) (hm_remove (wp_serial peer) tasks) (outs_without (wp_audio_source_id peer) outs) fresh"
proof (rule peers_okI)
  fix q peer'
  assume "hm_get (hm_remove p peers) q = Some peer'"
  then have q: "q \<noteq> p" "hm_get peers q = Some peer'" by (auto split: if_splits)
  have "wp_serial peer' \<noteq> wp_serial peer" using peers_ok_serial_inj [OF ok q(2) p] q(1) by blast
  with peers_ok_peer [OF ok q(2)] show "wp_peer_id peer' = q \<and> (wp_sender peer' \<longleftrightarrow> wp_audio_source_id peer' \<noteq> None) \<and>
      wp_serial peer' < fresh \<and>
      (\<exists>task. hm_get (hm_remove (wp_serial peer) tasks) (wp_serial peer') = Some task \<and> et_call_id task = c \<and> et_peer_id task = q)"
    by simp
next
  fix n task
  assume "hm_get (hm_remove (wp_serial peer) tasks) n = Some task"
  then have n: "n \<noteq> wp_serial peer" "hm_get tasks n = Some task" by (auto split: if_splits)
  from peers_ok_task [OF ok n(2)] obtain peer' where
    t: "et_call_id task = c" "hm_get peers (et_peer_id task) = Some peer'" "wp_serial peer' = n" by blast
  with n p have "et_peer_id task \<noteq> p" by auto
  with t show "et_call_id task = c \<and> (\<exists>peer'. hm_get (hm_remove p peers) (et_peer_id task) = Some peer' \<and> wp_serial peer' = n)"
    by auto
next
  fix a
  have "a \<in> set (outs_without (wp_audio_source_id peer) outs) \<longleftrightarrow>
      (\<exists>q peer'. hm_get peers q = Some peer' \<and> wp_audio_source_id peer' = Some a) \<and> wp_audio_source_id peer \<noteq> Some a"
    using peers_ok_out [OF ok, of a] by (auto simp: set_outs_without)
  also have "\<dots> \<longleftrightarrow> (\<exists>q peer'. q \<noteq> p \<and> hm_get peers q = Some peer' \<and> wp_audio_source_id peer' = Some a)"
    using peers_ok_out_inj [OF ok p] p by (metis option.inject)
  finally show "a \<in> set (outs_without (wp_audio_source_id peer) outs) \<longleftrightarrow>
      (\<exists>q peer'. hm_get (hm_remove p peers) q = Some peer' \<and> wp_audio_source_id peer' = Some a)" by (auto split: if_splits)
next
  fix q r peer1 peer2 a
  assume "hm_get (hm_remove p peers) q = Some peer1" "hm_get (hm_remove p peers) r = Some peer2"
    "wp_audio_source_id peer1 = Some a" "wp_audio_source_id peer2 = Some a"
  with peers_ok_out_inj [OF ok, of q peer1 r peer2 a] show "q = r" by (auto split: if_splits)
next
  fix a assume "a \<in> set (outs_without (wp_audio_source_id peer) outs)"
  with peers_ok_fresh [OF ok] show "a < fresh" by (auto simp: set_outs_without)
qed

lemma peers_ok_insert:
  assumes ok: "peers_ok c peers tasks outs fresh" and p: "hm_get peers p = None"
    and peer: "wp_peer_id peer = p" "wp_serial peer = fresh" "\<not> wp_sender peer" "wp_audio_source_id peer = None"
    and task: "et_call_id task = c" "et_peer_id task = p"
  shows "peers_ok c (hm_insert p peer peers) (hm_insert fresh task tasks) outs (Suc fresh)"
proof (rule peers_okI)
  fix q peer'
  assume q: "hm_get (hm_insert p peer peers) q = Some peer'"
  show "wp_peer_id peer' = q \<and> (wp_sender peer' \<longleftrightarrow> wp_audio_source_id peer' \<noteq> None) \<and> wp_serial peer' < Suc fresh \<and>
      (\<exists>task'. hm_get (hm_insert fresh task tasks) (wp_serial peer') = Some task' \<and> et_call_id task' = c \<and> et_peer_id task' = q)"
  proof (cases "q = p")
    case False
    with q peers_ok_peer [OF ok, of q peer'] show ?thesis by auto
  qed (use q peer task in simp)
next
  fix n t
  assume n: "hm_get (hm_insert fresh task tasks) n = Some t"
  show "et_call_id t = c \<and> (\<exists>peer'. hm_get (hm_insert p peer peers) (et_peer_id t) = Some peer' \<and> wp_serial peer' = n)"
  proof (cases "n = fresh")
    case False
    with n peers_ok_task [OF ok, of n t] p show ?thesis by auto
  qed (use n peer task in simp)
next
  fix a
  have "(\<exists>q x. hm_get (hm_insert p peer peers) q = Some x \<and> wp_audio_source_id x = Some a) \<longleftrightarrow>
      (\<exists>q x. q \<noteq> p \<and> hm_get peers q = Some x \<and> wp_audio_source_id x = Some a)"
    using peer(4) by (auto split: if_splits)
  also have "\<dots> \<longleftrightarrow> (\<exists>q x. hm_get peers q = Some x \<and> wp_audio_source_id x = Some a)"
    using p by (metis option.distinct(1))
  finally show "a \<in> set outs \<longleftrightarrow> (\<exists>q x. hm_get (hm_insert p peer peers) q = Some x \<and> wp_audio_source_id x = Some a)"
    using peers_ok_out [OF ok, of a] by simp
next
  fix q r peer1 peer2 a
  assume "hm_get (hm_insert p peer peers) q = Some peer1" "hm_get (hm_insert p peer peers) r = Some peer2"
    "wp_audio_source_id peer1 = Some a" "wp_audio_source_id peer2 = Some a"
  with peers_ok_out_inj [OF ok, of q peer1 r peer2 a] peer(4) show "q = r" by (auto split: if_splits)
next
  fix a assume "a \<in> set outs"
  with peers_ok_fresh [OF ok] show "a < Suc fresh" by fastforce
qed

text \<open>A change of one peer that keeps its number; its output may be exchanged for a new one or for none.\<close>

lemma peers_ok_change:
  assumes ok: "peers_ok c peers tasks outs fresh" and p: "hm_get peers p = Some peer"
    and peer': "wp_peer_id peer' = p" "wp_serial peer' = wp_serial peer" "wp_sender peer' \<longleftrightarrow> wp_audio_source_id peer' \<noteq> None"
    and new: "\<And>a. wp_audio_source_id peer' = Some a \<Longrightarrow> wp_audio_source_id peer = Some a \<or> a = fresh"
    and outs: "set outs' = set (outs_without (wp_audio_source_id peer) outs) \<union> set_option (wp_audio_source_id peer')"
    and le: "fresh \<le> fresh'" "wp_audio_source_id peer' = Some fresh \<Longrightarrow> fresh < fresh'"
  shows "peers_ok c (hm_insert p peer' peers) tasks outs' fresh'"
proof (rule peers_okI)
  fix q x
  assume q: "hm_get (hm_insert p peer' peers) q = Some x"
  show "wp_peer_id x = q \<and> (wp_sender x \<longleftrightarrow> wp_audio_source_id x \<noteq> None) \<and> wp_serial x < fresh' \<and>
      (\<exists>task. hm_get tasks (wp_serial x) = Some task \<and> et_call_id task = c \<and> et_peer_id task = q)"
  proof (cases "q = p")
    case True
    with q have "x = peer'" by simp
    with True peer' peers_ok_peer [OF ok p] le(1) show ?thesis by auto
  next
    case False
    with q have "hm_get peers q = Some x" by simp
    from peers_ok_peer [OF ok this] le(1) show ?thesis by auto
  qed
next
  fix n t
  assume "hm_get tasks n = Some t"
  from peers_ok_task [OF ok this] peer'(2) p
  show "et_call_id t = c \<and> (\<exists>x. hm_get (hm_insert p peer' peers) (et_peer_id t) = Some x \<and> wp_serial x = n)" by auto
next
  fix a
  have "(\<exists>q x. hm_get (hm_insert p peer' peers) q = Some x \<and> wp_audio_source_id x = Some a) \<longleftrightarrow>
      wp_audio_source_id peer' = Some a \<or> (\<exists>q x. q \<noteq> p \<and> hm_get peers q = Some x \<and> wp_audio_source_id x = Some a)"
    by auto
  also have "(\<exists>q x. q \<noteq> p \<and> hm_get peers q = Some x \<and> wp_audio_source_id x = Some a) \<longleftrightarrow>
      a \<in> set (outs_without (wp_audio_source_id peer) outs)"
    using peers_ok_out [OF peers_ok_remove [OF ok p], of a] by (auto split: if_splits)
  finally show "a \<in> set outs' \<longleftrightarrow> (\<exists>q x. hm_get (hm_insert p peer' peers) q = Some x \<and> wp_audio_source_id x = Some a)"
    unfolding outs by auto
next
  fix q r x y a
  assume a: "hm_get (hm_insert p peer' peers) q = Some x" "hm_get (hm_insert p peer' peers) r = Some y"
    "wp_audio_source_id x = Some a" "wp_audio_source_id y = Some a"
  have only: "z = p" if z: "hm_get peers z = Some w" "wp_audio_source_id w = Some a" "wp_audio_source_id peer' = Some a" for z w
  proof -
    have "a \<in> set outs" using z peers_ok_out [OF ok, of a] by blast
    then have "a \<noteq> fresh" using peers_ok_fresh [OF ok] by blast
    with new [OF z(3)] peers_ok_out_inj [OF ok z(1) p z(2)] show ?thesis by blast
  qed
  show "q = r"
    using a only peers_ok_out_inj [OF ok, of q x r y a] by (auto split: if_splits)
next
  fix a assume "a \<in> set outs'"
  then consider "a \<in> set outs" | "wp_audio_source_id peer' = Some a" by (auto simp: outs set_outs_without)
  then show "a < fresh'"
  proof cases
    case 1 with peers_ok_fresh [OF ok] le(1) show ?thesis by fastforce
  next
    case 2
    from new [OF this] show ?thesis
    proof
      assume "wp_audio_source_id peer = Some a"
      with peers_ok_out [OF ok, of a] p peers_ok_fresh [OF ok] le(1) show ?thesis by (meson order_less_le_trans)
    qed (use le(2) 2 in blast)
  qed
qed

lemma peers_ok_mono:
  assumes ok: "peers_ok c peers tasks outs fresh" and le: "fresh \<le> fresh'"
  shows "peers_ok c peers tasks outs fresh'"
proof (rule peers_okI)
  fix p peer assume "hm_get peers p = Some peer"
  from peers_ok_peer [OF ok this] le show "wp_peer_id peer = p \<and> (wp_sender peer \<longleftrightarrow> wp_audio_source_id peer \<noteq> None) \<and>
      wp_serial peer < fresh' \<and> (\<exists>task. hm_get tasks (wp_serial peer) = Some task \<and> et_call_id task = c \<and> et_peer_id task = p)"
    by auto
next
  fix n task assume "hm_get tasks n = Some task"
  from peers_ok_task [OF ok this]
  show "et_call_id task = c \<and> (\<exists>peer. hm_get peers (et_peer_id task) = Some peer \<and> wp_serial peer = n)" by simp
next
  fix a assume "a \<in> set outs"
  with peers_ok_fresh [OF ok] le show "a < fresh'" by fastforce
qed (rule peers_ok_out [OF ok], rule peers_ok_out_inj [OF ok])


section \<open>The invariant\<close>

definition app_idle :: "client_app \<Rightarrow> bool" where
  "app_idle s \<longleftrightarrow>
     ap_unanswered_call_guards s = [] \<and> ap_establishment_guard s = None \<and> ap_link_limbo_guards s = [] \<and>
     ap_events_tasks s = [] \<and> ap_call_outputs s = [] \<and> Ringback \<notin> set (ap_playing s) \<and> \<not> call_active (ap_keybinds s)"

definition in_call :: "client_call \<Rightarrow> client_app \<Rightarrow> bool" where
  "in_call call s \<longleftrightarrow>
     wc_call_id (clc_webrtc call) = clc_call_id call \<and> hm_ok (ap_events_tasks s) \<and>
     peers_ok (clc_call_id call) (wc_peers (clc_webrtc call)) (ap_events_tasks s) (ap_call_outputs s) (ap_fresh s) \<and>
     (\<forall>(target, c) \<in> set (ap_unanswered_call_guards s). c = clc_call_id call) \<and>
     (\<forall>(peer, guard) \<in> set (ap_link_limbo_guards s). lr_call_id guard = clc_call_id call) \<and>
     (\<forall>c. ap_establishment_guard s = Some c \<longrightarrow> c = clc_call_id call \<and> wc_peers (clc_webrtc call) = [])"

definition app_calls :: "client_app \<Rightarrow> bool" where
  "app_calls s \<longleftrightarrow> (case ap_current_call s of None \<Rightarrow> app_idle s | Some call \<Rightarrow> in_call call s)"

definition app_rings :: "client_app \<Rightarrow> bool" where
  "app_rings s \<longleftrightarrow>
     hm_ok (ap_incoming_calls s) \<and> length (ap_incoming_calls s) \<le> incoming_calls_limit \<and>
     (\<forall>(c, call) \<in> set (ap_incoming_calls s). clc_call_id call = c \<and> clc_webrtc call = webrtc_call_new c) \<and>
     (ap_incoming_calls s = [] \<longrightarrow> Ring \<notin> set (ap_playing s) \<and> PriorityRing \<notin> set (ap_playing s))"

definition app_ok :: "client_app \<Rightarrow> bool" where
  "app_ok s \<longleftrightarrow> app_calls s \<and> app_rings s"

lemmas app_defs = app_ok_def app_calls_def app_idle_def in_call_def app_rings_def

lemma app_ok_new: "\<not> call_active engine \<Longrightarrow> app_ok (client_app_new config engine)"
  by (simp add: app_defs client_app_new_def)

lemma app_ok_irrelevant [simp]:
  "app_ok (s\<lparr>ap_client_id := a\<rparr>) = app_ok s" "app_ok (s\<lparr>ap_connection_state := b\<rparr>) = app_ok s"
  "app_ok (s\<lparr>ap_session_info := c\<rparr>) = app_ok s" "app_ok (s\<lparr>ap_default_call_sources := d\<rparr>) = app_ok s"
  "app_ok (s\<lparr>ap_stations := e\<rparr>) = app_ok s" "app_ok (s\<lparr>ap_clients := f\<rparr>) = app_ok s"
  "app_ok (s\<lparr>ap_answers := g\<rparr>) = app_ok s" "app_ok (s\<lparr>ap_sent := h\<rparr>) = app_ok s"
  "app_ok (s\<lparr>ap_emitted := i\<rparr>) = app_ok s"
  by (simp_all add: app_defs split: option.splits)

lemma app_ok_emit [simp]:
  "app_ok (emit ev s) = app_ok s" "app_ok (emit_call_error c l o' r s) = app_ok s"
  by (simp_all add: emit_def emit_call_error_def)

lemma emit_fields [simp]:
  "ap_current_call (emit ev s) = ap_current_call s" "ap_incoming_calls (emit ev s) = ap_incoming_calls s"
  "ap_client_id (emit ev s) = ap_client_id s" "ap_config (emit ev s) = ap_config s"
  "ap_link_limbo_guards (emit ev s) = ap_link_limbo_guards s" "ap_events_tasks (emit ev s) = ap_events_tasks s"
  "ap_fresh (emit ev s) = ap_fresh s" "ap_sent (emit ev s) = ap_sent s" "ap_call_outputs (emit ev s) = ap_call_outputs s"
  "ap_establishment_guard (emit ev s) = ap_establishment_guard s" "ap_unanswered_call_guards (emit ev s) = ap_unanswered_call_guards s"
  "ap_current_call (emit_call_error c l o' r s) = ap_current_call s" "ap_sent (emit_call_error c l o' r s) = ap_sent s"
  by (simp_all add: emit_def emit_call_error_def)

lemma sendD:
  assumes "send_signaling_message e msg s = (s', b)"
  shows "app_ok s' = app_ok s" "ap_current_call s' = ap_current_call s" "ap_incoming_calls s' = ap_incoming_calls s"
    "ap_client_id s' = ap_client_id s" "ap_config s' = ap_config s" "ap_link_limbo_guards s' = ap_link_limbo_guards s"
    "ap_unanswered_call_guards s' = ap_unanswered_call_guards s"
    "ap_sent s' = ap_sent s @ (if b then [msg] else [])"
  using assms by (auto simp: send_signaling_message_def ask_def split: if_splits)

lemma app_ok_send [simp]:
  "app_ok (fst (send_signaling_message e msg s)) = app_ok s"
  "app_ok (try_send_call_error e c r s) = app_ok s"
  by (simp_all add: send_signaling_message_def try_send_call_error_def ask_def)

lemma send_fields [simp]:
  "ap_current_call (fst (send_signaling_message e msg s)) = ap_current_call s"
  "ap_unanswered_call_guards (fst (send_signaling_message e msg s)) = ap_unanswered_call_guards s"
  "ap_current_call (try_send_call_error e c r s) = ap_current_call s"
  "ap_client_id (try_send_call_error e c r s) = ap_client_id s"
  "ap_incoming_calls (try_send_call_error e c r s) = ap_incoming_calls s"
  "ap_link_limbo_guards (try_send_call_error e c r s) = ap_link_limbo_guards s"
  by (simp_all add: send_signaling_message_def try_send_call_error_def ask_def)

section \<open>Small steps\<close>

lemma app_ok_stop [intro]: "app_ok s \<Longrightarrow> app_ok (audio_stop src s)"
  by (auto simp: app_defs audio_stop_def split: option.splits)

lemma app_ok_restart [simp]:
  "src \<notin> {Ring, PriorityRing, Ringback} \<Longrightarrow> app_ok (audio_restart src s) = app_ok s"
  by (auto simp: app_defs audio_restart_def split: option.splits)

lemma app_ok_ringback: "app_ok s \<Longrightarrow> ap_current_call s \<noteq> None \<Longrightarrow> app_ok (audio_restart Ringback s)"
  by (auto simp: app_defs audio_restart_def split: option.splits)

lemma app_ok_ring:
  "app_ok s \<Longrightarrow> ap_incoming_calls s \<noteq> [] \<Longrightarrow> src \<in> {Ring, PriorityRing} \<Longrightarrow> app_ok (audio_restart src s)"
  by (auto simp: app_defs audio_restart_def split: option.splits)

lemma joined_sound_kind: "peer_joined_sound now c p s = Some src \<Longrightarrow> src \<notin> {Ring, PriorityRing, Ringback}"
  by (auto simp: peer_joined_sound_def split: if_splits)

lemma left_sound_kind: "peer_left_sound c p s = Some src \<Longrightarrow> src \<notin> {Ring, PriorityRing, Ringback}"
  by (auto simp: peer_left_sound_def split: if_splits)

lemma app_ok_restart_option:
  "(\<And>x. src = Some x \<Longrightarrow> x \<notin> {Ring, PriorityRing, Ringback}) \<Longrightarrow> app_ok (restart_option src s) = app_ok s"
  by (cases src) (simp_all add: restart_option_def)

lemma app_ok_inactive [intro]: "app_ok s \<Longrightarrow> app_ok (engine_set_call_active False s)"
  by (auto simp: app_defs engine_set_call_active_def set_call_active_def engine_emit_def Let_def split: option.splits)

lemma app_ok_active: "app_ok s \<Longrightarrow> ap_current_call s \<noteq> None \<Longrightarrow> app_ok (engine_set_call_active b s)"
  by (auto simp: app_defs engine_set_call_active_def split: option.splits)

lemma fold_remove_subset: "set (fold hm_remove ks m) \<subseteq> set m"
proof (induction ks arbitrary: m)
  case (Cons k ks)
  then have "set (fold hm_remove (k # ks) m) \<subseteq> set (hm_remove k m)" by simp
  then show ?case by (auto simp: hm_set_remove)
qed simp

lemma hm_insert_subset: "set (hm_insert k v m) \<subseteq> insert (k, v) (set m)"
  by (induction m) (auto split: if_splits)

lemma app_ok_cancel_unanswered [intro]:
  "app_ok s \<Longrightarrow> app_ok (cancel_unanswered_call_timers_for_targets ts s)"
  "app_ok s \<Longrightarrow> app_ok (cancel_all_unanswered_call_timers s)"
  using fold_remove_subset [of ts "ap_unanswered_call_guards s"]
  by (auto simp: app_defs cancel_unanswered_call_timers_for_targets_def cancel_all_unanswered_call_timers_def split: option.splits)

lemma app_ok_cancel_establishment [intro]: "app_ok s \<Longrightarrow> app_ok (cancel_call_establishment_timer s)"
  by (auto simp: app_defs cancel_call_establishment_timer_def split: option.splits)

lemma app_ok_remove_limbo [intro]:
  "app_ok s \<Longrightarrow> app_ok (remove_link_limbo c p s)" "app_ok s \<Longrightarrow> app_ok (cancel_link_retry c p s)"
  by (auto simp: app_defs cancel_link_retry_def remove_link_limbo_def hm_set_remove split: option.splits)

lemma app_ok_stop_ringing [intro]: "app_ok s \<Longrightarrow> app_ok (stop_ringing_if_no_incoming_calls s)"
  by (auto simp: stop_ringing_if_no_incoming_calls_def)

lemma app_ok_stop_ringback [intro]: "app_ok s \<Longrightarrow> app_ok (stop_ringback_if_no_invited_targets c s)"
  by (auto simp: stop_ringback_if_no_invited_targets_def split: option.splits)


section \<open>Steps on the current call\<close>

lemma current_call_with_Some: "current_call_with c s = Some call \<longleftrightarrow> ap_current_call s = Some call \<and> clc_call_id call = c"
  by (auto simp: current_call_with_def split: option.splits if_splits)

lemma webrtc_peer_with_Some:
  "webrtc_peer_with c p s = Some peer \<longleftrightarrow>
     (\<exists>call. ap_current_call s = Some call \<and> clc_call_id call = c \<and> hm_get (wc_peers (clc_webrtc call)) p = Some peer)"
  by (auto simp: webrtc_peer_with_def webrtc_call_with_def current_call_with_def split: option.splits if_splits)

lemma app_ok_in_call: "app_ok s \<Longrightarrow> ap_current_call s = Some call \<Longrightarrow> in_call call s"
  by (simp add: app_ok_def app_calls_def)

lemma app_ok_map_current:
  assumes "app_ok s" and f: "\<And>call. clc_call_id (f call) = clc_call_id call \<and> clc_webrtc (f call) = clc_webrtc call"
  shows "app_ok (map_current_call c f s)"
  using assms(1) by (auto simp: map_current_call_def current_call_with_Some app_defs f split: option.splits)

lemma app_ok_remove_targets [intro]: "app_ok s \<Longrightarrow> app_ok (map_current_call c (remove_invited_targets ts) s)"
  by (erule app_ok_map_current) (simp add: remove_invited_targets_def)

lemma map_current_call_current:
  "ap_current_call (map_current_call c f s) = map_option (\<lambda>call. if clc_call_id call = c then f call else call) (ap_current_call s)"
  by (auto simp: map_current_call_def current_call_with_def split: option.splits)

lemma app_ok_start_establishment:
  assumes "app_ok s" "ap_current_call s = Some call" "clc_call_id call = c" "wc_peers (clc_webrtc call) = []"
  shows "app_ok (start_call_establishment_timer c s)"
  using assms by (auto simp: start_call_establishment_timer_def app_defs)

lemma app_ok_start_retry:
  assumes "app_ok s" "ap_current_call s = Some call" "clc_call_id call = c"
  shows "app_ok (start_link_retry c p own s)"
  using assms hm_insert_subset [of p _ "ap_link_limbo_guards s"] by (fastforce simp: start_link_retry_def app_defs)

lemma app_ok_start_unanswered:
  assumes "app_ok s" "ap_current_call s = Some call" "clc_call_id call = c"
  shows "app_ok (start_unanswered_call_timer_for_targets c targets s)"
proof -
  let ?m = "fold hm_remove targets (ap_unanswered_call_guards s)"
  have m: "\<forall>(t, c') \<in> set ?m. c' = c"
    using assms fold_remove_subset [of targets "ap_unanswered_call_guards s"] by (fastforce simp: app_defs)
  have "\<forall>(t, c') \<in> set (fold (\<lambda>t. hm_insert t c) ts m). c' = c" if "\<forall>(t, c') \<in> set m. c' = c" for ts m
    using that
  proof (induction ts arbitrary: m)
    case (Cons t ts)
    have "\<forall>(t, c') \<in> set (hm_insert t c m). c' = c" using Cons.prems hm_insert_subset [of t c m] by fastforce
    then show ?case using Cons.IH by simp
  qed simp
  from this [OF m, of targets] m assms show ?thesis
    by (auto simp: start_unanswered_call_timer_for_targets_def cancel_unanswered_call_timers_for_targets_def app_defs Let_def)
qed

text \<open>The state without a peer, its events task and its output.\<close>

definition peer_gone :: "client_call \<Rightarrow> client_id \<Rightarrow> webrtc_peer \<Rightarrow> client_app \<Rightarrow> client_app" where
  "peer_gone call p peer s =
     s\<lparr>ap_current_call := Some (call\<lparr>clc_webrtc := (clc_webrtc call)\<lparr>wc_peers := hm_remove p (wc_peers (clc_webrtc call))\<rparr>\<rparr>),
       ap_events_tasks := hm_remove (wp_serial peer) (ap_events_tasks s),
       ap_call_outputs := outs_without (wp_audio_source_id peer) (ap_call_outputs s)\<rparr>"

lemma app_ok_peer_gone:
  assumes "app_ok s" "ap_current_call s = Some call" "hm_get (wc_peers (clc_webrtc call)) p = Some peer"
  shows "app_ok (peer_gone call p peer s)"
  using assms peers_ok_remove [OF _ assms(3)] by (auto simp: peer_gone_def app_defs)

lemma app_ok_cong:
  assumes "ap_current_call s' = ap_current_call s" "ap_incoming_calls s' = ap_incoming_calls s"
    "ap_unanswered_call_guards s' = ap_unanswered_call_guards s" "ap_establishment_guard s' = ap_establishment_guard s"
    "ap_link_limbo_guards s' = ap_link_limbo_guards s" "ap_keybinds s' = ap_keybinds s" "ap_playing s' = ap_playing s"
    "ap_call_outputs s' = ap_call_outputs s" "ap_events_tasks s' = ap_events_tasks s" "ap_fresh s' = ap_fresh s"
  shows "app_ok s' = app_ok s"
  using assms by (simp add: app_defs split: option.splits)

lemma take_webrtc_peer_Some:
  "take_webrtc_peer c p s = Some (s', peer, last_peer) \<longleftrightarrow>
     (\<exists>call. ap_current_call s = Some call \<and> clc_call_id call = c \<and> hm_get (wc_peers (clc_webrtc call)) p = Some peer \<and>
        last_peer = (hm_remove p (wc_peers (clc_webrtc call)) = []) \<and>
        s' = s\<lparr>ap_current_call := Some (call\<lparr>clc_webrtc := (clc_webrtc call)\<lparr>wc_peers := hm_remove p (wc_peers (clc_webrtc call))\<rparr>\<rparr>)\<rparr>)"
  by (auto simp: take_webrtc_peer_def webrtc_call_with_def current_call_with_def map_webrtc_def map_current_call_def Let_def
      split: option.splits if_splits)

lemma detach_output_option_eq: "detach_output_option src s = s\<lparr>ap_call_outputs := outs_without src (ap_call_outputs s)\<rparr>"
  by (simp add: detach_output_option_def detach_call_output_def outs_without_def split: option.splits)

lemma app_ok_remove_quiet [intro]: "app_ok s \<Longrightarrow> app_ok (remove_link_peer_quiet c p s)"
proof (cases "take_webrtc_peer c p s")
  case (Some t)
  obtain s' peer l where t: "t = (s', peer, l)" by (cases t)
  assume ok: "app_ok s"
  from Some t obtain call where call: "ap_current_call s = Some call" "clc_call_id call = c"
      "hm_get (wc_peers (clc_webrtc call)) p = Some peer"
    and s': "s' = s\<lparr>ap_current_call := Some (call\<lparr>clc_webrtc := (clc_webrtc call)\<lparr>wc_peers := hm_remove p (wc_peers (clc_webrtc call))\<rparr>\<rparr>)\<rparr>"
    by (auto simp: take_webrtc_peer_Some)
  have "app_ok (remove_link_peer_quiet c p s) = app_ok (peer_gone call p peer s)"
    by (rule app_ok_cong) (simp_all add: remove_link_peer_quiet_def Some t s' peer_gone_def detach_output_option_eq cancel_events_task_def)
  with app_ok_peer_gone [OF ok call(1,3)] show ?thesis by simp
qed (simp add: remove_link_peer_quiet_def)

lemma app_ok_cleanup_peer [intro]: "app_ok s \<Longrightarrow> app_ok (fst (cleanup_call_peer c p s))"
proof (cases "take_webrtc_peer c p s")
  case (Some t)
  obtain s' peer l where t: "t = (s', peer, l)" by (cases t)
  assume ok: "app_ok s"
  from Some t obtain call where call: "ap_current_call s = Some call" "clc_call_id call = c"
      "hm_get (wc_peers (clc_webrtc call)) p = Some peer"
    and s': "s' = s\<lparr>ap_current_call := Some (call\<lparr>clc_webrtc := (clc_webrtc call)\<lparr>wc_peers := hm_remove p (wc_peers (clc_webrtc call))\<rparr>\<rparr>)\<rparr>"
    by (auto simp: take_webrtc_peer_Some)
  define s1 where "s1 = (if l \<and> \<not> has_pending_link_retries c s' then engine_set_call_active False s' else s')"
  define s2 where "s2 = detach_output_option (wp_audio_source_id peer) (cancel_events_task (wp_serial peer) s1)"
  define src where "src = (if wp_connected peer then peer_left_sound c p (cancel_events_task (wp_serial peer) s1) else None)"
  have "fst (cleanup_call_peer c p s) = restart_option src s2"
    by (simp add: cleanup_call_peer_def Some t s1_def s2_def src_def Let_def)
  moreover have "app_ok (restart_option src s2) = app_ok s2"
    by (rule app_ok_restart_option) (auto simp: src_def dest: left_sound_kind split: if_splits)
  moreover have "app_ok s2"
  proof -
    have "app_ok s2 = app_ok (if l \<and> \<not> has_pending_link_retries c s' then engine_set_call_active False (peer_gone call p peer s)
        else peer_gone call p peer s)"
      by (rule app_ok_cong)
        (simp_all add: s2_def s1_def s' peer_gone_def detach_output_option_eq cancel_events_task_def engine_set_call_active_def)
    with app_ok_peer_gone [OF ok call(1,3)] show ?thesis by auto
  qed
  ultimately show ?thesis by simp
qed (simp add: cleanup_call_peer_def)


lemma fold_cancel_events: "fold cancel_events_task ns s = s\<lparr>ap_events_tasks := fold hm_remove ns (ap_events_tasks s)\<rparr>"
  by (induction ns arbitrary: s) (simp_all add: cancel_events_task_def)

lemma fold_detach: "fold detach_call_output xs s = s\<lparr>ap_call_outputs := fold hs_remove xs (ap_call_outputs s)\<rparr>"
  by (induction xs arbitrary: s) (simp_all add: detach_call_output_def)

lemma set_fold_remove: "set (fold hm_remove ks m) = {q \<in> set m. fst q \<notin> set ks}"
  by (induction ks arbitrary: m) (auto simp: hm_set_remove)

lemma set_fold_hs_remove: "set (fold hs_remove xs m) = set m - set xs"
  by (induction xs arbitrary: m) auto

lemma peers_ok_all_tasks:
  assumes "peers_ok c peers tasks outs fresh" "hm_ok tasks"
  shows "fold hm_remove (map wp_serial (hm_values peers)) tasks = []"
proof -
  have "fst q \<in> set (map wp_serial (hm_values peers))" if q: "q \<in> set tasks" for q
  proof -
    from q assms(2) have "hm_get tasks (fst q) = Some (snd q)" by (simp add: hm_get_iff)
    then obtain peer where "hm_get peers (et_peer_id (snd q)) = Some peer" "wp_serial peer = fst q"
      using peers_ok_task [OF assms(1)] by blast
    then show ?thesis by (force dest!: hm_get_SomeD hm_values_mem)
  qed
  then have "set (fold hm_remove (map wp_serial (hm_values peers)) tasks) = {}" by (auto simp: set_fold_remove)
  then show ?thesis by simp
qed

lemma peers_ok_all_outs:
  assumes "peers_ok c peers tasks outs fresh"
  shows "fold hs_remove (List.map_filter wp_audio_source_id (hm_values peers)) outs = []"
proof -
  have "a \<in> set (List.map_filter wp_audio_source_id (hm_values peers))" if "a \<in> set outs" for a
    using that peers_ok_out [OF assms, of a] by (auto simp: set_map_filter dest!: hm_get_SomeD hm_values_mem)
  then have "set (fold hs_remove (List.map_filter wp_audio_source_id (hm_values peers)) outs) = {}"
    by (auto simp: set_fold_hs_remove)
  then show ?thesis by simp
qed


lemma current_cleanup [simp]: "current_call_with c s \<noteq> None \<Longrightarrow> ap_current_call (fst (cleanup_current_call c s)) = None"
  by (auto simp: cleanup_current_call_def Let_def fold_cancel_events fold_detach audio_stop_def audio_restart_def
      engine_set_call_active_def cancel_all_link_retries_def cancel_call_establishment_timer_def cancel_all_unanswered_call_timers_def)

lemma cleanup_idle:
  assumes calls: "app_calls s" and Some: "current_call_with c s = Some call"
  shows "app_idle (fst (cleanup_current_call c s))" "ap_current_call (fst (cleanup_current_call c s)) = None"
proof -
  from Some have call: "ap_current_call s = Some call" "clc_call_id call = c" by (simp_all add: current_call_with_Some)
  with calls have inv: "hm_ok (ap_events_tasks s)"
      "peers_ok c (wc_peers (clc_webrtc call)) (ap_events_tasks s) (ap_call_outputs s) (ap_fresh s)"
      "\<forall>(peer, guard) \<in> set (ap_link_limbo_guards s). lr_call_id guard = c"
    by (simp_all add: app_calls_def in_call_def call(2))
  have limbo: "filter (\<lambda>(_, guard). lr_call_id guard \<noteq> c) (ap_link_limbo_guards s) = []"
    using inv(3) by (auto simp: filter_empty_conv)
  show "app_idle (fst (cleanup_current_call c s))"
    using Some limbo peers_ok_all_tasks [OF inv(2,1)] peers_ok_all_outs [OF inv(2)]
    by (auto simp: app_idle_def cleanup_current_call_def Let_def fold_cancel_events fold_detach audio_stop_def audio_restart_def
      engine_set_call_active_def cancel_all_link_retries_def cancel_call_establishment_timer_def
      cancel_all_unanswered_call_timers_def set_call_active_def engine_emit_def)
qed (use Some in simp)

lemma cleanup_playing:
  "set (ap_playing (fst (cleanup_current_call c s))) \<subseteq> insert CallEndSound (set (ap_playing s))"
  "ap_incoming_calls (fst (cleanup_current_call c s)) = ap_incoming_calls s"
  by (auto simp: cleanup_current_call_def Let_def fold_cancel_events fold_detach audio_stop_def audio_restart_def
      engine_set_call_active_def cancel_all_link_retries_def cancel_call_establishment_timer_def
      cancel_all_unanswered_call_timers_def split: option.splits)

lemma app_ok_cleanup_call [intro]:
  assumes "app_ok s"
  shows "app_ok (fst (cleanup_current_call c s))"
proof (cases "current_call_with c s")
  case (Some call)
  from assms have "app_calls s" by (simp add: app_ok_def)
  from cleanup_idle [OF this Some] have "app_calls (fst (cleanup_current_call c s))" by (simp add: app_calls_def)
  moreover have "app_rings (fst (cleanup_current_call c s))"
    using assms cleanup_playing [of c s] by (auto simp: app_ok_def app_rings_def)
  ultimately show ?thesis by (simp add: app_ok_def)
qed (simp add: cleanup_current_call_def assms)

lemma app_ok_end_if_no_peers [intro]: "app_ok s \<Longrightarrow> app_ok (fst (end_call_if_no_peers c s))"
  by (auto simp: end_call_if_no_peers_def split: option.splits)

lemma app_ok_fail_call [intro]: "app_ok s \<Longrightarrow> app_ok (fail_call e c r s)"
  by (auto simp: fail_call_def Let_def)

lemma end_if_no_peersD: "end_call_if_no_peers c s = (s', b) \<Longrightarrow> app_ok s \<Longrightarrow> app_ok s'"
  using app_ok_end_if_no_peers [of s c] by simp

lemma cleanup_currentD: "cleanup_current_call c s = (s', b) \<Longrightarrow> app_ok s \<Longrightarrow> app_ok s'"
  using app_ok_cleanup_call [of s c] by simp

lemma app_ok_fail_peer [intro]: "app_ok s \<Longrightarrow> app_ok (fail_peer e c p r s)"
  by (auto simp: fail_peer_def Let_def split: prod.split bool.split dest!: end_if_no_peersD)

lemma conference_link_call: "is_conference_link c p s \<Longrightarrow> current_call_id s = Some c"
  by (auto simp: is_conference_link_def current_call_id_def current_call_with_def split: option.splits if_splits)


lemma current_id_quiet [simp]: "current_call_id (remove_link_peer_quiet c p s) = current_call_id s"
proof (cases "take_webrtc_peer c p s")
  case (Some t)
  obtain s' peer l where t: "t = (s', peer, l)" by (cases t)
  with Some have "ap_current_call s \<noteq> None" "current_call_id s' = current_call_id s"
    by (auto simp: take_webrtc_peer_Some current_call_id_def)
  then show ?thesis
    by (simp add: remove_link_peer_quiet_def Some t current_call_id_def detach_output_option_eq cancel_events_task_def)
qed (simp add: remove_link_peer_quiet_def)

lemma current_id_emit [simp]: "current_call_id (emit ev s) = current_call_id s"
  by (simp add: current_call_id_def)

lemma current_call_id_Some: "current_call_id s = Some c \<longleftrightarrow> (\<exists>call. ap_current_call s = Some call \<and> clc_call_id call = c)"
  by (auto simp: current_call_id_def)

lemma app_ok_start_retry_id: "app_ok s \<Longrightarrow> current_call_id s = Some c \<Longrightarrow> app_ok (start_link_retry c p own s)"
  by (auto simp: current_call_id_Some intro: app_ok_start_retry)

lemma app_ok_fail_link: "app_ok s \<Longrightarrow> current_call_id s = Some c \<Longrightarrow> app_ok (fail_link now c p own s)"
  by (auto simp: fail_link_def Let_def intro!: app_ok_start_retry_id)

lemma app_ok_conference_failure [intro]:
  "app_ok s \<Longrightarrow> app_ok (fst (handle_conference_peer_failure e now c p own r s))"
  by (auto simp: handle_conference_peer_failure_def is_link_failure_def intro: app_ok_fail_link conference_link_call)

lemma conference_failureD:
  "handle_conference_peer_failure e now c p own r s = (s', b) \<Longrightarrow> app_ok s \<Longrightarrow> app_ok s'"
  using app_ok_conference_failure [of s e now c p own r] by simp

lemma app_ok_peer_failure [intro]: "app_ok s \<Longrightarrow> app_ok (handle_peer_failure e now c p own r s)"
  by (auto simp: handle_peer_failure_def split: prod.split bool.split dest!: conference_failureD)

section \<open>Negotiation and connection\<close>

lemma peers_ok_cong:
  assumes "hm_get tasks' = hm_get tasks" "set outs' = set outs"
  shows "peers_ok c peers tasks' outs' fresh = peers_ok c peers tasks outs fresh"
  unfolding peers_ok_def assms ..

lemma peers_ok_replace:
  assumes ok: "peers_ok c peers tasks outs fresh"
    and peer: "wp_peer_id peer = p" "wp_serial peer = fresh" "\<not> wp_sender peer" "wp_audio_source_id peer = None"
    and task: "et_call_id task = c" "et_peer_id task = p"
    and old: "hm_get peers p = Some old"
  shows "peers_ok c (hm_insert p peer (hm_remove p peers)) (hm_remove (wp_serial old) (hm_insert fresh task tasks))
     (outs_without (wp_audio_source_id old) outs) (Suc fresh)"
proof -
  have "wp_serial old \<noteq> fresh" using peers_ok_peer(3) [OF ok old] by simp
  then have "hm_get (hm_remove (wp_serial old) (hm_insert fresh task tasks)) =
      hm_get (hm_insert fresh task (hm_remove (wp_serial old) tasks))"
    by (auto simp: fun_upd_twist)
  with peers_ok_insert [OF peers_ok_remove [OF ok old] _ peer task] show ?thesis
    by (subst peers_ok_cong [OF _ refl]) simp_all
qed

lemma create_peer_Inr:
  assumes "create_peer e now c p own offer rec relay s = (s', Inr (peer, sdp))"
  shows "s' = s\<lparr>ap_answers := Suc (ap_answers s), ap_fresh := Suc (ap_fresh s),
           ap_events_tasks := hm_insert (ap_fresh s) \<lparr>et_call_id = c, et_peer_id = p, et_own_client_id = own\<rparr> (ap_events_tasks s)\<rparr>"
    "wp_peer_id peer = p" "wp_serial peer = ap_fresh s" "\<not> wp_sender peer" "wp_audio_source_id peer = None"
  using assms
  by (auto simp: create_peer_def ask_def webrtc_peer_new_def with_reconnect_def Let_def split: option.splits if_splits)

lemma create_peer_Inl:
  "create_peer e now c p own offer rec relay s = (s', Inl err) \<Longrightarrow> s' = s\<lparr>ap_answers := Suc (ap_answers s)\<rparr>"
  by (auto simp: create_peer_def ask_def Let_def split: option.splits)

text \<open>The connection a successful negotiation installs.\<close>

lemma app_ok_replace_peer:
  assumes ok: "app_ok s" and call: "ap_current_call s = Some call" "clc_call_id call = c"
    and peer: "wp_peer_id peer = p" "wp_serial peer = ap_fresh s" "\<not> wp_sender peer" "wp_audio_source_id peer = None"
    and t: "t = s\<lparr>ap_answers := n, ap_fresh := Suc (ap_fresh s), ap_events_tasks :=
           hm_insert (ap_fresh s) \<lparr>et_call_id = c, et_peer_id = p, et_own_client_id = own\<rparr> (ap_events_tasks s)\<rparr>"
  shows "app_ok (cancel_call_establishment_timer (replace_peer c p peer t))"
proof -
  let ?peers = "wc_peers (clc_webrtc call)"
  from app_ok_in_call [OF ok call(1)] have inv: "hm_ok (ap_events_tasks s)"
      "peers_ok c ?peers (ap_events_tasks s) (ap_call_outputs s) (ap_fresh s)"
    by (simp_all add: in_call_def call(2))
  show ?thesis
  proof (cases "hm_get ?peers p")
    case None
    then have "hm_remove p ?peers = ?peers" by (rule hm_remove_absent)
    with None ok call peers_ok_insert [OF inv(2) None peer, of "\<lparr>et_call_id = c, et_peer_id = p, et_own_client_id = own\<rparr>"]
    show ?thesis
      by (auto simp: app_defs t replace_peer_def webrtc_peer_with_def webrtc_call_with_def current_call_with_def
          map_webrtc_def map_current_call_def cancel_call_establishment_timer_def Let_def)
  next
    case (Some old)
    with ok call peers_ok_replace [OF inv(2) peer _ _ Some, of "\<lparr>et_call_id = c, et_peer_id = p, et_own_client_id = own\<rparr>"]
    show ?thesis
      by (auto simp: app_defs t replace_peer_def webrtc_peer_with_def webrtc_call_with_def current_call_with_def
          map_webrtc_def map_current_call_def cancel_call_establishment_timer_def Let_def detach_output_option_eq
          cancel_events_task_def)
  qed
qed


lemma negotiateD:
  assumes "negotiate_peer e now c p own offer s = (s', r)" and ok: "app_ok s"
  shows "app_ok s'"
proof (cases "current_call_with c s")
  case None
  with assms show ?thesis by (auto simp: negotiate_peer_def current_call_with_def split: option.splits if_splits)
next
  case (Some call)
  then have call: "ap_current_call s = Some call" "clc_call_id call = c" by (simp_all add: current_call_with_Some)
  let ?rep = "hm_contains_key p (wc_peers (clc_webrtc call))"
  let ?s = "if ?rep then emit (EvWebrtc PeerReconnecting c p) s else s"
  let ?rec = "?rep \<or> has_link_limbo c p s"
  obtain t x where cp: "create_peer e now c p own offer ?rec
      (cfg_force_relay (ap_config s) \<or> ?rep \<and> offer = None \<or> has_link_limbo c p s) ?s = (t, x)" by fastforce
  have ok': "app_ok ?s" and call': "ap_current_call ?s = Some call" using ok call by auto
  show ?thesis
  proof (cases x)
    case (Inl err)
    with cp have "app_ok t" using ok' by (auto dest!: create_peer_Inl)
    with assms(1) call cp Inl show ?thesis by (simp add: negotiate_peer_def Let_def)
  next
    case (Inr y)
    obtain peer sdp where y: "y = (peer, sdp)" by (cases y)
    define peer' where "peer' = (if ?rec \<and> \<not> ?rep then peer\<lparr>wp_connected := False\<rparr> else peer)"
    note new = create_peer_Inr [OF cp [unfolded Inr y]]
    have p': "wp_peer_id peer' = p" "wp_serial peer' = ap_fresh ?s" "\<not> wp_sender peer'" "wp_audio_source_id peer' = None"
      using new(2-5) by (simp_all add: peer'_def)
    have "s' = cancel_call_establishment_timer (replace_peer c p peer' t)"
      using assms(1) call cp Inr y by (simp add: negotiate_peer_def Let_def peer'_def)
    with app_ok_replace_peer [OF ok' call' call(2) p' new(1)] show ?thesis by simp
  qed
qed

lemma app_ok_change_peer:
  assumes ok: "app_ok s" and p: "webrtc_peer_with c p s = Some peer"
    and f: "wp_peer_id (f peer) = wp_peer_id peer" "wp_serial (f peer) = wp_serial peer"
      "wp_sender (f peer) = wp_sender peer" "wp_audio_source_id (f peer) = wp_audio_source_id peer"
  shows "app_ok (map_webrtc_peer c p f s)"
proof -
  from p obtain call where call: "ap_current_call s = Some call" "clc_call_id call = c"
      "hm_get (wc_peers (clc_webrtc call)) p = Some peer" by (auto simp: webrtc_peer_with_Some)
  from app_ok_in_call [OF ok call(1)] have inv:
      "peers_ok c (wc_peers (clc_webrtc call)) (ap_events_tasks s) (ap_call_outputs s) (ap_fresh s)"
    by (simp add: in_call_def call(2))
  have "peers_ok c (hm_insert p (f peer) (wc_peers (clc_webrtc call))) (ap_events_tasks s) (ap_call_outputs s) (ap_fresh s)"
    by (rule peers_ok_change [OF inv call(3)])
      (use peers_ok_peer [OF inv call(3)] peers_ok_out [OF inv] peers_ok_fresh [OF inv] call(3) in
        \<open>auto simp: f set_outs_without\<close>)
  moreover have "ap_establishment_guard s = None"
    using app_ok_in_call [OF ok call(1)] call(3) by (cases "ap_establishment_guard s") (auto simp: in_call_def)
  ultimately show ?thesis using ok call p
    by (auto simp: map_webrtc_peer_def map_webrtc_def map_current_call_def current_call_with_def app_defs)
qed


lemma answerD: "accept_call_answer e c p sdp s = (s', r) \<Longrightarrow> app_ok s \<Longrightarrow> app_ok s'"
  by (auto simp: accept_call_answer_def ask_def Let_def intro!: app_ok_change_peer split: option.splits)

lemma peer_has_no_timer:
  "app_ok s \<Longrightarrow> ap_current_call s = Some call \<Longrightarrow> hm_get (wc_peers (clc_webrtc call)) p = Some peer \<Longrightarrow>
     ap_establishment_guard s = None"
  by (cases "ap_establishment_guard s") (auto dest!: app_ok_in_call simp: in_call_def)

text \<open>An output attached and detached again, and one kept by the peer it was attached for.\<close>

lemma app_ok_lost_output:
  assumes "app_ok s" "ap_current_call s = Some call"
    and "t = s\<lparr>ap_answers := n, ap_fresh := Suc (ap_fresh s), ap_call_outputs := hs_insert (ap_fresh s) (ap_call_outputs s)\<rparr>"
  shows "app_ok (detach_call_output (ap_fresh s) t)"
proof -
  from app_ok_in_call [OF assms(1,2)] have inv:
      "peers_ok (clc_call_id call) (wc_peers (clc_webrtc call)) (ap_events_tasks s) (ap_call_outputs s) (ap_fresh s)"
    by (simp add: in_call_def)
  have out: "set (hs_remove (ap_fresh s) (hs_insert (ap_fresh s) (ap_call_outputs s))) = set (ap_call_outputs s)"
    using peers_ok_fresh [OF inv] by fastforce
  show ?thesis
    using assms peers_ok_mono [OF inv, of "Suc (ap_fresh s)"]
    by (simp add: app_defs detach_call_output_def peers_ok_cong [OF refl out])
qed

lemma app_ok_new_output:
  assumes ok: "app_ok s" and p: "webrtc_peer_with c p s = Some peer" "\<not> wp_sender peer"
    and f: "wp_peer_id (f peer) = wp_peer_id peer" "wp_serial (f peer) = wp_serial peer"
      "wp_sender (f peer)" "wp_audio_source_id (f peer) = Some (ap_fresh s)"
    and t: "t = s\<lparr>ap_answers := n, ap_fresh := Suc (ap_fresh s), ap_call_outputs := hs_insert (ap_fresh s) (ap_call_outputs s)\<rparr>"
  shows "app_ok (map_webrtc_peer c p f t)"
proof -
  from p obtain call where call: "ap_current_call s = Some call" "clc_call_id call = c"
      "hm_get (wc_peers (clc_webrtc call)) p = Some peer" by (auto simp: webrtc_peer_with_Some)
  from app_ok_in_call [OF ok call(1)] have inv:
      "peers_ok c (wc_peers (clc_webrtc call)) (ap_events_tasks s) (ap_call_outputs s) (ap_fresh s)"
    by (simp add: in_call_def call(2))
  note pk = peers_ok_peer [OF inv call(3)]
  from pk(2) p(2) have "wp_audio_source_id peer = None" by simp
  then have "peers_ok c (hm_insert p (f peer) (wc_peers (clc_webrtc call))) (ap_events_tasks s)
      (hs_insert (ap_fresh s) (ap_call_outputs s)) (Suc (ap_fresh s))"
    by (intro peers_ok_change [OF inv call(3)]) (auto simp: f pk set_outs_without)
  moreover have "webrtc_peer_with c p t = Some peer" using p(1) by (simp add: t webrtc_peer_with_Some)
  ultimately show ?thesis using ok call peer_has_no_timer [OF ok call(1,3)]
    by (auto simp: t map_webrtc_peer_def map_webrtc_def map_current_call_def current_call_with_def app_defs)
qed

lemma app_ok_lost_peer_output:
  assumes ok: "app_ok s" and p: "webrtc_peer_with c p s = Some peer"
    and f: "wp_peer_id (f peer) = wp_peer_id peer" "wp_serial (f peer) = wp_serial peer"
      "\<not> wp_sender (f peer)" "wp_audio_source_id (f peer) = None"
  shows "app_ok (detach_output_option (wp_audio_source_id peer) (map_webrtc_peer c p f s))"
proof -
  from p obtain call where call: "ap_current_call s = Some call" "clc_call_id call = c"
      "hm_get (wc_peers (clc_webrtc call)) p = Some peer" by (auto simp: webrtc_peer_with_Some)
  from app_ok_in_call [OF ok call(1)] have inv:
      "peers_ok c (wc_peers (clc_webrtc call)) (ap_events_tasks s) (ap_call_outputs s) (ap_fresh s)"
    by (simp add: in_call_def call(2))
  have "peers_ok c (hm_insert p (f peer) (wc_peers (clc_webrtc call))) (ap_events_tasks s)
      (outs_without (wp_audio_source_id peer) (ap_call_outputs s)) (ap_fresh s)"
    by (rule peers_ok_change [OF inv call(3)]) (auto simp: f peers_ok_peer(1) [OF inv call(3)] set_outs_without)
  then show ?thesis using ok call p peer_has_no_timer [OF ok call(1,3)]
    by (auto simp: detach_output_option_eq map_webrtc_peer_def map_webrtc_def map_current_call_def current_call_with_def app_defs)
qed


lemma app_ok_start_sound: "app_ok s \<Longrightarrow> app_ok (map_webrtc c (\<lambda>w. w\<lparr>wc_last_call_start_sound := x\<rparr>) s)"
  by (auto simp: map_webrtc_def map_current_call_def current_call_with_def app_defs split: option.splits)

text \<open>The state of a connected peer before its output is attached: active, with its sound started.\<close>

definition connecting :: "instant \<Rightarrow> call_id \<Rightarrow> source_type option \<Rightarrow> client_app \<Rightarrow> client_app" where
  "connecting now c src s =
     (let t = restart_option src (engine_set_call_active True s)
      in if src = Some CallStart then map_webrtc c (\<lambda>w. w\<lparr>wc_last_call_start_sound := Some now\<rparr>) t else t)"

lemma app_ok_connecting:
  assumes "app_ok s" "webrtc_peer_with c p s = Some peer" "\<And>x. src = Some x \<Longrightarrow> x \<notin> {Ring, PriorityRing, Ringback}"
  shows "app_ok (connecting now c src s)"
proof -
  have "app_ok (engine_set_call_active True s)" by (rule app_ok_active) (use assms(1,2) in \<open>auto simp: webrtc_peer_with_Some\<close>)
  then have "app_ok (restart_option src (engine_set_call_active True s))" using assms(3) by (simp add: app_ok_restart_option)
  then show ?thesis by (auto simp: connecting_def Let_def intro: app_ok_start_sound)
qed

lemma connecting_peer [simp]: "webrtc_peer_with c p (connecting now c src s) = webrtc_peer_with c p s"
  by (auto simp: connecting_def restart_option_def audio_restart_def engine_set_call_active_def map_webrtc_def map_current_call_def
      webrtc_peer_with_def webrtc_call_with_def current_call_with_def Let_def split: option.splits)

lemma connecting_fresh [simp]: "ap_fresh (connecting now c src s) = ap_fresh s"
  by (auto simp: connecting_def restart_option_def audio_restart_def engine_set_call_active_def map_webrtc_def map_current_call_def
      Let_def split: option.splits)

lemma connecting_outputs [simp]: "ap_call_outputs (connecting now c src s) = ap_call_outputs s"
  by (auto simp: connecting_def restart_option_def audio_restart_def engine_set_call_active_def map_webrtc_def map_current_call_def
      Let_def split: option.splits)

lemma connecting_commute:
  "(let u = restart_option src ((engine_set_call_active True s)\<lparr>ap_answers := n, ap_fresh := k, ap_call_outputs := outs, ap_answers := m\<rparr>)
    in if src = Some CallStart then map_webrtc c (\<lambda>w. w\<lparr>wc_last_call_start_sound := Some now\<rparr>) u else u) =
   (connecting now c src s)\<lparr>ap_answers := m, ap_fresh := k, ap_call_outputs := outs\<rparr>"
  by (rule client_app.equality)
    (auto simp: connecting_def restart_option_def audio_restart_def map_webrtc_def map_current_call_def current_call_with_def Let_def
      split: option.splits)


text \<open>With the new output attached.\<close>

definition attached :: "instant \<Rightarrow> call_id \<Rightarrow> source_type option \<Rightarrow> nat \<Rightarrow> client_app \<Rightarrow> client_app" where
  "attached now c src n s =
     (connecting now c src s)\<lparr>ap_answers := n, ap_fresh := Suc (ap_fresh s), ap_call_outputs := hs_insert (ap_fresh s) (ap_call_outputs s)\<rparr>"

lemma on_peer_connected_cases:
  assumes "on_peer_connected e now c p s = (s', r)" "webrtc_peer_with c p s = Some peer"
  obtains n where "s' = (engine_set_call_active True s)\<lparr>ap_answers := n\<rparr>" "r = Some AudioDeviceError"
  | src n err where "src \<in> {None, peer_joined_sound now c p s}" "s' = detach_call_output (ap_fresh s) (attached now c src n s)" "r = Some err"
  | src n where "src \<in> {None, peer_joined_sound now c p s}" "\<not> wp_sender peer" "r = None"
      "s' = emit (EvWebrtc PeerConnected c p) (cancel_link_retry c p (map_webrtc_peer c p (\<lambda>p. p\<lparr>wp_sender := True,
         wp_connected := True, wp_established := True, wp_audio_source_id := Some (ap_fresh s)\<rparr>) (attached now c src n s)))"
proof -
  define src where "src = (if wp_reconnected peer then None else peer_joined_sound now c p s)"
  define s1 where "s1 = engine_set_call_active True s"
  define s2 where "s2 m n = s1\<lparr>ap_answers := m, ap_fresh := Suc (ap_fresh s), ap_call_outputs := hs_insert (ap_fresh s) (ap_call_outputs s), ap_answers := n\<rparr>" for m n
  have s1: "ap_fresh s1 = ap_fresh s" "ap_call_outputs s1 = ap_call_outputs s" "ap_answers s1 = ap_answers s"
    by (simp_all add: s1_def engine_set_call_active_def)
  have none: "s2 m n = attached now c None n s" for m n
    by (rule client_app.equality) (simp_all add: s2_def s1_def attached_def connecting_def restart_option_def)
  have some: "(let u = restart_option src (s2 m n) in
      if src = Some CallStart then map_webrtc c (\<lambda>w. w\<lparr>wc_last_call_start_sound := Some now\<rparr>) u else u) = attached now c src n s" for m n
    unfolding s2_def s1_def attached_def by (rule connecting_commute)
  have in_src: "src \<in> {None, peer_joined_sound now c p s}" by (simp add: src_def)
  have src_cases: "wp_reconnected peer \<and> src = None \<or> \<not> wp_reconnected peer \<and> peer_joined_sound now c p s = src"
    by (simp add: src_def)
  have ans: "ap_answers (attached now c src n s) = n" for n by (simp add: attached_def)
  have upd: "(attached now c src n s)\<lparr>ap_answers := k\<rparr> = attached now c src k s" for n k
    by (rule client_app.equality) (simp_all add: attached_def)
  consider "\<not> output_ok e (ap_answers s)" | "output_ok e (ap_answers s)" "\<not> input_ok e (Suc (ap_answers s))"
    | "output_ok e (ap_answers s)" "input_ok e (Suc (ap_answers s))" by blast
  then show ?thesis
  proof cases
    case 1
    with assms have "s' = s1\<lparr>ap_answers := Suc (ap_answers s)\<rparr>" "r = Some AudioDeviceError"
      by (simp_all add: on_peer_connected_def ask_def s1 s1_def [symmetric] Let_def)
    then show ?thesis by (intro that(1)) (simp_all add: s1_def)
  next
    case 2
    with assms have "s' = detach_call_output (ap_fresh s) (s2 (Suc (ap_answers s)) (Suc (Suc (ap_answers s))))" "r = Some AudioDeviceError"
      by (simp_all add: on_peer_connected_def ask_def s1 s1_def [symmetric] s2_def Let_def)
    then show ?thesis by (intro that(2) [of None]) (simp_all add: none)
  next
    case 3
    with assms have "(case peer_start e peer (attached now c src (Suc (Suc (ap_answers s))) s) of
        (t, Some err) \<Rightarrow> (detach_call_output (ap_fresh s) t, Some err)
      | (t, None) \<Rightarrow> (emit (EvWebrtc PeerConnected c p) (cancel_link_retry c p (map_webrtc_peer c p (\<lambda>p. p\<lparr>wp_sender := True,
         wp_connected := True, wp_established := True, wp_audio_source_id := Some (ap_fresh s)\<rparr>) t)), None)) = (s', r)"
      unfolding some [symmetric, of _ "Suc (ap_answers s)"]
      using src_cases by (elim disjE; cases "src = Some CallStart") (simp_all add: on_peer_connected_def ask_def s1 s1_def [symmetric] s2_def Let_def)
    then show ?thesis using that(2,3) [OF in_src]
      by (auto simp: peer_start_def ask_def upd ans split: if_splits bool.splits)
  qed
qed

lemma on_connectedD:
  assumes r: "on_peer_connected e now c p s = (s', r)" and ok: "app_ok s"
  shows "app_ok s'"
proof (cases "webrtc_peer_with c p s")
  case (Some peer)
  obtain call where call: "ap_current_call s = Some call" using Some by (auto simp: webrtc_peer_with_Some)
  have base: "app_ok (connecting now c src s)" if "src \<in> {None, peer_joined_sound now c p s}" for src
    by (rule app_ok_connecting [OF ok Some]) (use that in \<open>auto dest: joined_sound_kind joined_sound_kind [OF sym]\<close>)
  have attach: "attached now c src n s = (connecting now c src s)\<lparr>ap_answers := n, ap_fresh := Suc (ap_fresh (connecting now c src s)),
    ap_call_outputs := hs_insert (ap_fresh (connecting now c src s)) (ap_call_outputs (connecting now c src s))\<rparr>" for src n
    by (simp add: attached_def)
  from r Some show ?thesis
  proof (cases rule: on_peer_connected_cases)
    case (1 n)
    with app_ok_active [OF ok, of True] call show ?thesis by simp
  next
    case (2 src n err)
    obtain call' where "ap_current_call (connecting now c src s) = Some call'"
      using connecting_peer [of c p now src s] Some by (auto simp: webrtc_peer_with_Some simp del: connecting_peer)
    from app_ok_lost_output [OF base [OF 2(1)] this attach, of n] 2(2) show ?thesis by simp
  next
    case (3 src n)
    have "app_ok (map_webrtc_peer c p (\<lambda>p. p\<lparr>wp_sender := True, wp_connected := True, wp_established := True,
        wp_audio_source_id := Some (ap_fresh s)\<rparr>) (attached now c src n s))"
      by (rule app_ok_new_output [OF base [OF 3(1)] _ 3(2) _ _ _ _ attach]) (simp_all add: Some)
    with 3(4) show ?thesis by auto
  qed
qed (use r ok in \<open>simp add: on_peer_connected_def\<close>)

end
