(* ===== verification/ClientSystem.thy ===== *)
theory ClientSystem
  imports ClientInvariant
begin

text \<open>
  Every command, server message, timer and peer event keeps the client's invariant, so it holds
  after every run of the client (the interpretation \<open>client_run\<close>).
\<close>

section \<open>Commands\<close>

lemma app_ok_end_call [intro]: "app_ok s \<Longrightarrow> app_ok (fst (end_call_client e c s))"
  by (auto simp: end_call_client_def Let_def split: option.splits prod.splits bool.splits dest: sendD(1) cleanup_currentD)

lemma end_call_Inr:
  assumes "end_call_client e c s = (s', Inr b)" "ap_current_call s = Some call" "clc_call_id call = c"
  shows "ap_current_call s' = None"
proof -
  obtain t b where send: "send_signaling_message e (MsgCallEnd \<lparr>ce_call_id = c, ce_ending_client_id = the (ap_client_id s)\<rparr>) s = (t, b)"
    by fastforce
  from sendD(2) [OF send] assms(2,3) have "current_call_with c t \<noteq> None" by (simp add: current_call_with_def)
  from current_cleanup [OF this] send assms(1) show ?thesis
    by (auto simp: end_call_client_def Let_def split: option.splits bool.splits prod.splits)
qed

lemma app_ok_accept:
  assumes ok: "app_ok s" and free: "ap_current_call s = None" and call: "hm_get (ap_incoming_calls s) c = Some call"
  shows "app_ok (stop_ringing_if_no_incoming_calls (start_call_establishment_timer c
     (s\<lparr>ap_incoming_calls := hm_remove c (ap_incoming_calls s), ap_current_call := Some call\<rparr>)))"
proof -
  from call have "(c, call) \<in> set (ap_incoming_calls s)" by (rule hm_get_SomeD)
  with ok have id: "clc_call_id call = c" "clc_webrtc call = webrtc_call_new c" by (auto simp: app_ok_def app_rings_def)
  have "length (hm_remove c (ap_incoming_calls s)) \<le> length (ap_incoming_calls s)"
    by (simp add: hm_remove_def length_delete_le)
  with ok free id show ?thesis
    by (auto simp: app_defs stop_ringing_if_no_incoming_calls_def start_call_establishment_timer_def has_pending_link_retries_def
        audio_stop_def webrtc_call_new_def hm_set_remove)
qed

lemma app_ok_incoming_back:
  assumes ok: "app_ok s" and call: "hm_get (ap_incoming_calls s) c = Some call"
  shows "app_ok (s\<lparr>ap_incoming_calls := hm_insert c call (hm_remove c (ap_incoming_calls s))\<rparr>)"
proof -
  from ok have hm: "hm_ok (ap_incoming_calls s)" by (simp add: app_ok_def app_rings_def)
  from call have mem: "(c, call) \<in> set (ap_incoming_calls s)" by (rule hm_get_SomeD)
  then have "0 < length (ap_incoming_calls s)" by (cases "ap_incoming_calls s") auto
  with hm have "length (hm_insert c call (hm_remove c (ap_incoming_calls s))) \<le> length (ap_incoming_calls s)"
    using call by (simp add: hm_length_insert hm_length_remove)
  moreover have "set (hm_insert c call (hm_remove c (ap_incoming_calls s))) \<subseteq> set (ap_incoming_calls s)"
    using hm_insert_subset [of c call "hm_remove c (ap_incoming_calls s)"] mem by (auto simp: hm_set_remove)
  ultimately show ?thesis using ok by (auto simp: app_defs split: option.splits)
qed

lemma send_shape: "\<exists>n l b. send_signaling_message e msg s = (s\<lparr>ap_answers := n, ap_sent := l\<rparr>, b)"
proof (cases "send_ok e (ap_answers s) msg")
  case False
  have "s\<lparr>ap_answers := Suc (ap_answers s)\<rparr> = s\<lparr>ap_answers := Suc (ap_answers s), ap_sent := ap_sent s\<rparr>"
    by (rule client_app.equality) simp_all
  then have "send_signaling_message e msg s = (s\<lparr>ap_answers := Suc (ap_answers s), ap_sent := ap_sent s\<rparr>, False)"
    by (subst \<open>_ = _\<close> [symmetric]) (simp add: send_signaling_message_def ask_def False)
  then show ?thesis by blast
qed (auto simp: send_signaling_message_def ask_def)

lemma app_ok_accept_incoming:
  assumes "app_ok s" "ap_current_call s = None"
  shows "app_ok (fst (accept_incoming e c own s))"
proof (cases "hm_get (ap_incoming_calls s) c")
  case (Some call)
  let ?msg = "MsgCallAccept \<lparr>ca_call_id = c, ca_accepting_client_id = own\<rparr>"
  let ?s = "s\<lparr>ap_incoming_calls := hm_remove c (ap_incoming_calls s)\<rparr>"
  obtain n l b where send: "send_signaling_message e ?msg ?s = (?s\<lparr>ap_answers := n, ap_sent := l\<rparr>, b)"
    using send_shape by blast
  let ?t = "s\<lparr>ap_answers := n, ap_sent := l\<rparr>"
  have t: "app_ok ?t" "ap_current_call ?t = None" "hm_get (ap_incoming_calls ?t) c = Some call"
    using assms Some by simp_all
  have kept: "?s\<lparr>ap_answers := n, ap_sent := l, ap_incoming_calls := x\<rparr> = ?t\<lparr>ap_incoming_calls := x\<rparr>" for x
    by (rule client_app.equality) simp_all
  have taken: "?s\<lparr>ap_answers := n, ap_sent := l, ap_current_call := x\<rparr> =
      ?t\<lparr>ap_incoming_calls := hm_remove c (ap_incoming_calls ?t), ap_current_call := x\<rparr>" for x
    by (rule client_app.equality) simp_all
  show ?thesis
  proof (cases b)
    case True
    have "app_ok (stop_ringing_if_no_incoming_calls (start_call_establishment_timer c
        (?s\<lparr>ap_answers := n, ap_sent := l, ap_current_call := Some call\<rparr>)))"
      unfolding taken by (rule app_ok_accept [OF t])
    with send Some True show ?thesis by (simp add: accept_incoming_def Let_def)
  next
    case False
    have "app_ok (?s\<lparr>ap_answers := n, ap_sent := l, ap_incoming_calls := hm_insert c call (hm_remove c (ap_incoming_calls ?t))\<rparr>)"
      unfolding kept by (rule app_ok_incoming_back [OF t(1,3)])
    with send Some False show ?thesis by (simp add: accept_incoming_def Let_def)
  qed
qed (simp add: accept_incoming_def assms)

lemma app_ok_accept_call [intro]:
  assumes "app_ok s"
  shows "app_ok (fst (accept_call_client e req b s))"
proof -
  have 2: "app_ok (fst (case end_call_client e (clc_call_id call) s of (s, Inl err) \<Rightarrow> (s, Inl err)
      | (s, Inr _) \<Rightarrow> accept_incoming e c own s))" if "ap_current_call s = Some call" for call c own
    using app_ok_end_call [OF assms, of e "clc_call_id call"] end_call_Inr [OF _ that refl, of e]
    by (auto split: prod.split sum.split intro!: app_ok_accept_incoming)
  show ?thesis
    using assms app_ok_accept_incoming [OF assms] 2
    by (simp add: accept_call_client_def split: option.split list.split)
qed

lemma app_ok_set_call:
  assumes "app_ok s" "ap_current_call s = Some call" "clc_call_id call' = clc_call_id call" "clc_webrtc call' = clc_webrtc call"
  shows "app_ok (s\<lparr>ap_current_call := Some call'\<rparr>)"
  using assms by (simp add: app_defs)

lemma app_ok_first_invite:
  "app_ok s \<Longrightarrow> ap_current_call s = None \<Longrightarrow> app_ok (s\<lparr>ap_current_call := Some (from_invite invite)\<rparr>)"
  by (simp add: app_defs from_invite_def webrtc_call_new_def)

lemma start_unanswered_current [simp]:
  "ap_current_call (start_unanswered_call_timer_for_targets c ts s) = ap_current_call s"
  by (simp add: start_unanswered_call_timer_for_targets_def cancel_unanswered_call_timers_for_targets_def Let_def)

lemma app_ok_invite [intro]:
  assumes "app_ok s"
  shows "app_ok (fst (invite_to_call e new_id src ts prio s))"
proof -
  define c where "c = (case ap_current_call s of Some call \<Rightarrow> clc_call_id call | None \<Rightarrow> new_id)"
  define invite where "invite = \<lparr>ci_call_id = c, ci_source = src, ci_targets = ts, ci_prio = prio\<rparr>"
  obtain t b where send: "send_signaling_message e (MsgCallInvite invite) s = (t, b)" by fastforce
  define call where "call = (case ap_current_call t of Some call \<Rightarrow> add_invited_targets ts call | None \<Rightarrow> from_invite invite)"
  have ok: "app_ok t" and cur: "ap_current_call t = ap_current_call s" using sendD(1,2) [OF send] assms by auto
  have call: "app_ok (t\<lparr>ap_current_call := Some call\<rparr>)"
  proof (cases "ap_current_call t")
    case None
    with ok show ?thesis by (simp add: call_def app_ok_first_invite)
  next
    case (Some call0)
    with ok show ?thesis by (auto simp: call_def add_invited_targets_def intro: app_ok_set_call)
  qed
  have id: "clc_call_id call = c"
    by (simp add: call_def cur c_def invite_def from_invite_def add_invited_targets_def split: option.split)
  have fold: "(case ap_current_call t of None \<Rightarrow> from_invite \<lparr>ci_call_id = c, ci_source = src, ci_targets = ts, ci_prio = prio\<rparr>
      | Some call \<Rightarrow> add_invited_targets ts call) = call"
    by (simp add: call_def invite_def split: option.split)
  have "app_ok (audio_restart Ringback (start_unanswered_call_timer_for_targets c ts
      (emit (EvOutgoingCall invite) (t\<lparr>ap_current_call := Some call\<rparr>))))"
    by (rule app_ok_ringback, rule app_ok_start_unanswered [of _ call]) (use call id in simp_all)
  with ok show ?thesis
    by (cases b) (simp_all add: invite_to_call_def c_def [symmetric] invite_def [symmetric] send fold Let_def)
qed

lemma app_ok_drop_target [intro]: "app_ok s \<Longrightarrow> app_ok (fst (drop_target_client e c t s))"
  by (auto simp: drop_target_client_def Let_def split: option.splits prod.splits bool.splits dest: sendD(1))

lemma app_ok_remove_incoming [intro]: "app_ok s \<Longrightarrow> app_ok (fst (remove_incoming_call c s))"
proof -
  assume ok: "app_ok s"
  have "length (hm_remove c (ap_incoming_calls s)) \<le> length (ap_incoming_calls s)"
    by (simp add: hm_remove_def length_delete_le)
  with ok show ?thesis
    by (auto simp: app_defs remove_incoming_call_def stop_ringing_if_no_incoming_calls_def audio_stop_def hm_set_remove split: option.splits)
qed

lemma remove_incomingD: "remove_incoming_call c s = (s', b) \<Longrightarrow> app_ok s \<Longrightarrow> app_ok s'"
  using app_ok_remove_incoming [of s c] by simp

lemma app_ok_cleanup_signaling [intro]:
  assumes "app_ok s"
  shows "app_ok (cleanup_signaling s)"
proof -
  define s1 where "s1 = clear_session_cache (s\<lparr>ap_incoming_calls := []\<rparr>)"
  define s2 where "s2 = (case current_call_id s1 of Some call_id \<Rightarrow> fst (cleanup_current_call call_id s1) | None \<Rightarrow> s1)"
  have calls: "app_calls s1"
    using assms by (auto simp: s1_def clear_session_cache_def app_defs split: option.splits)
  have s2: "app_idle s2" "ap_current_call s2 = None" "ap_incoming_calls s2 = []"
  proof -
    show "app_idle s2" "ap_current_call s2 = None"
      using calls cleanup_idle [OF calls]
      by (auto simp: s2_def current_call_id_def current_call_with_def app_calls_def split: option.splits)
    show "ap_incoming_calls s2 = []"
      using cleanup_playing(2) by (auto simp: s2_def s1_def clear_session_cache_def split: option.splits)
  qed
  then show ?thesis
    by (simp add: cleanup_signaling_def s1_def [symmetric] s2_def [symmetric] Let_def app_defs audio_stop_def
        engine_set_call_active_def set_call_active_def engine_emit_def)
qed


section \<open>Server messages\<close>

lemma app_ok_invitation [intro]:
  assumes "app_ok s"
  shows "app_ok (handle_call_invitation e msg s)"
proof -
  have new: "app_ok (s\<lparr>ap_incoming_calls := hm_insert (inv_call_id msg) (from_invitation msg) (ap_incoming_calls s)\<rparr>)"
    if "\<not> incoming_calls_limit \<le> length (ap_incoming_calls s)"
    using assms that hm_insert_subset [of "inv_call_id msg" "from_invitation msg" "ap_incoming_calls s"]
    by (auto simp: app_defs hm_length_insert from_invitation_def split: option.splits)
  show ?thesis
    using assms new
    by (auto simp: handle_call_invitation_def emit_def Let_def intro!: app_ok_ring split: option.split)
qed

lemma offer_peer_ok: "app_ok s \<Longrightarrow> app_ok (offer_peer e now c own q s)"
  by (auto simp: offer_peer_def Let_def split: prod.split sum.split bool.split
      dest!: negotiateD conference_failureD sendD(1) intro!: app_ok_cleanup_peer)

lemma drop_left_ok: "app_ok s \<Longrightarrow> app_ok (drop_left_peer c p s)"
  by (auto simp: drop_left_peer_def)

lemma await_offer_ok: "app_ok s \<Longrightarrow> app_ok (await_offer c own s)"
  by (auto simp: await_offer_def current_call_with_Some intro: app_ok_start_establishment split: option.split)

lemma update_call_keeps:
  "clc_call_id (fst (update_call own invited joined leader call)) = clc_call_id call"
  "clc_webrtc (fst (update_call own invited joined leader call)) = clc_webrtc call"
  by (auto simp: update_call_def Let_def)

lemma app_ok_update_current:
  assumes "app_ok s" "ap_current_call s = Some call"
  shows "app_ok (update_current_call e now msg own call s)"
proof -
  obtain call' joined left where u: "update_call own (cu_invited_targets msg) (cu_joined_participants msg) (cu_conference_leader msg) call
      = (call', joined, left)" by (metis prod_cases3)
  have keep: "clc_call_id call' = clc_call_id call" "clc_webrtc call' = clc_webrtc call"
    using update_call_keeps [of own "cu_invited_targets msg" "cu_joined_participants msg" "cu_conference_leader msg" call] u by simp_all
  let ?c = "cu_call_id msg" and ?att = "filter (\<lambda>(peer_id, _). own < peer_id) joined"
  define s1 where "s1 = s\<lparr>ap_current_call := Some call'\<rparr>"
  define s2 where "s2 = (if cu_invited_targets msg = [] then audio_stop Ringback (cancel_all_unanswered_call_timers s1)
      else cancel_unanswered_call_timers_for_targets (hm_values joined) s1)"
  define s3 where "s3 = fold (offer_peer e now ?c own) ?att (fold (drop_left_peer ?c) left s2)"
  have 1: "app_ok s1" unfolding s1_def by (rule app_ok_set_call [OF assms keep])
  then have "app_ok s2" by (auto simp: s2_def)
  then have 3: "app_ok s3" unfolding s3_def
    by (intro fold_inv [where P = app_ok]) (auto intro: offer_peer_ok drop_left_ok)
  obtain s4 ended where 4: "(if ?att = [] then (s3, False) else end_call_if_no_peers ?c s3) = (s4, ended)" by fastforce
  with 3 have "app_ok s4" by (auto dest: end_if_no_peersD split: if_splits)
  with 1 show ?thesis
    unfolding update_current_call_def u Let_def prod.case s1_def [symmetric] s2_def [symmetric] s3_def [symmetric] 4
    by (auto intro: await_offer_ok)
qed


lemma app_ok_update_incoming:
  assumes "app_ok s" and call: "hm_get (ap_incoming_calls s) c = Some call"
    and keep: "clc_call_id call' = clc_call_id call" "clc_webrtc call' = clc_webrtc call"
  shows "app_ok (s\<lparr>ap_incoming_calls := hm_insert c call' (ap_incoming_calls s)\<rparr>)"
proof -
  from assms(1) call have "clc_call_id call = c" "clc_webrtc call = webrtc_call_new c"
    by (auto simp: app_ok_def app_rings_def dest!: hm_get_SomeD)
  with assms(1) call keep hm_insert_subset [of c call' "ap_incoming_calls s"] show ?thesis
    by (auto simp: app_defs hm_length_insert split: option.splits)
qed

lemma app_ok_call_update [intro]:
  assumes "app_ok s"
  shows "app_ok (handle_call_update e now msg s)"
proof -
  have "app_ok (s\<lparr>ap_incoming_calls := hm_insert c call' (ap_incoming_calls s)\<rparr>)"
    if "hm_get (ap_incoming_calls s) c = Some call" "update_call own i j l call = (call', x)" for c call call' own i j l x
    using app_ok_update_incoming [OF assms that(1)] update_call_keeps [of own i j l call] that(2) by simp
  then show ?thesis
    using assms app_ok_update_current [OF assms]
    by (auto simp: handle_call_update_def current_call_with_Some split: option.split prod.split)
qed

lemma app_ok_offer [intro]: "app_ok s \<Longrightarrow> app_ok (handle_webrtc_offer e now msg s)"
  by (auto simp: handle_webrtc_offer_def Let_def split: option.split prod.split sum.split bool.split
      dest!: negotiateD conference_failureD)

lemma app_ok_answer [intro]: "app_ok s \<Longrightarrow> app_ok (handle_webrtc_answer e now msg s)"
  by (auto simp: handle_webrtc_answer_def Let_def split: option.split prod.split bool.split
      dest!: answerD conference_failureD)

lemma app_ok_call_end [intro]: "app_ok s \<Longrightarrow> app_ok (handle_call_end_client msg s)"
  by (auto simp: handle_call_end_client_def Let_def)

lemma app_ok_drop_targets [intro]: "app_ok s \<Longrightarrow> app_ok (fst (drop_targets c ts s))"
  by (auto simp: drop_targets_def Let_def split: option.split)

lemma drop_targetsD: "drop_targets c ts s = (s', b) \<Longrightarrow> app_ok s \<Longrightarrow> app_ok s'"
  using app_ok_drop_targets [of s c ts] by simp

lemma app_ok_drop_timers [intro]: "app_ok s \<Longrightarrow> app_ok (drop_targets_and_timers c ts s)"
  by (auto simp: drop_targets_and_timers_def)

lemma app_ok_targets_lost:
  assumes "app_ok s"
  shows "app_ok (let (s, ended) = drop_targets c ts s;
      s = (if ended then s else cancel_unanswered_call_timers_for_targets ts s);
      s = stop_ringback_if_no_invited_targets c s
    in emit_call_error c False (OriginTargets ts) reason s)"
  using assms by (auto simp: Let_def split: prod.split dest!: drop_targetsD)

lemma app_ok_call_error [intro]: "app_ok s \<Longrightarrow> app_ok (handle_call_error_client msg s)"
  by (cases "cerr_reason msg")
    (auto simp: handle_call_error_client_def Let_def split: prod.split bool.split dest!: cleanup_currentD drop_targetsD)

lemma app_ok_cancelled [intro]: "app_ok s \<Longrightarrow> app_ok (handle_call_cancelled msg s)"
  by (cases "cc_reason msg")
    (auto simp: handle_call_cancelled_def Let_def split: prod.split bool.split option.split dest!: remove_incomingD drop_targetsD)

lemma app_ok_rate_limited: "handle_rate_limited ts c s = Some s' \<Longrightarrow> app_ok s \<Longrightarrow> app_ok s'"
  by (auto simp: handle_rate_limited_def Let_def split: prod.splits option.splits if_splits
      dest!: drop_targetsD [OF _ app_ok_remove_incoming] intro!: app_ok_stop_ringback app_ok_cancel_unanswered(1))

lemma app_ok_error [intro]: "app_ok s \<Longrightarrow> app_ok (handle_error_client now msg s)"
  by (cases "em_reason msg") (auto simp: handle_error_client_def Let_def split: option.split dest!: app_ok_rate_limited)

lemma app_ok_message [intro]: "app_ok s \<Longrightarrow> app_ok (handle_signaling_message e now msg s)"
  by (cases msg) (auto simp: handle_signaling_message_def handle_client_info_def handle_station_changes_def Let_def)

lemma app_ok_event [intro]: "app_ok s \<Longrightarrow> app_ok (handle_signaling_event e now ev s)"
  by (cases ev) (auto simp: handle_signaling_event_def handle_signaling_connection_closed_def Let_def
      split: signaling_runtime_error.split option.split disconnect_reason.split)


section \<open>Timers, retries and peer events\<close>

lemma app_ok_unanswered_timer [intro]:
  assumes "app_ok s"
  shows "app_ok (unanswered_timer_expired e target s)"
proof -
  have gone: "app_ok (t\<lparr>ap_unanswered_call_guards := hm_remove target (ap_unanswered_call_guards s)\<rparr>)"
    if "app_ok t" "ap_unanswered_call_guards t = ap_unanswered_call_guards s" for t
    using app_ok_cancel_unanswered(1) [OF that(1), of "[target]"] that(2) by (simp add: cancel_unanswered_call_timers_for_targets_def)
  show ?thesis
    by (auto simp: unanswered_timer_expired_def Let_def assms intro!: app_ok_remove_targets gone split: option.split)
qed

lemma app_ok_establishment_timer [intro]: "app_ok s \<Longrightarrow> app_ok (establishment_timer_expired e s)"
  using app_ok_cancel_establishment [of s]
  by (auto simp: establishment_timer_expired_def cancel_call_establishment_timer_def Let_def split: option.split)

lemma app_ok_attempt [intro]: "app_ok s \<Longrightarrow> app_ok (attempt_link_retry e now p s)"
  by (auto simp: attempt_link_retry_def Let_def split: option.split prod.split sum.split dest!: negotiateD)

lemma app_ok_guard:
  assumes "app_ok s" "current_call_id s = Some (lr_call_id guard)"
  shows "app_ok (s\<lparr>ap_link_limbo_guards := hm_insert p guard (ap_link_limbo_guards s)\<rparr>)"
  using assms hm_insert_subset [of p guard "ap_link_limbo_guards s"] by (fastforce simp: current_call_id_Some app_defs)

lemma current_id_try_send [simp]: "current_call_id (try_send_call_error e c r s) = current_call_id s"
  by (simp add: current_call_id_def)

lemma peer_joined_id: "peer_joined c p s \<Longrightarrow> current_call_id s = Some c"
  by (auto simp: peer_joined_def current_call_with_Some current_call_id_def split: option.splits)

lemma app_ok_retry_turn [intro]:
  assumes ok: "app_ok s"
  shows "app_ok (link_retry_turn e now p s)"
proof (cases "hm_get (ap_link_limbo_guards s) p")
  case (Some guard)
  let ?c = "lr_call_id guard"
  define young where "young = young_peer now ?c p s"
  define s1 where "s1 = (if young then s else remove_link_peer_quiet ?c p s)"
  define s2 where "s2 = (if lr_reported guard \<or> \<not> young then try_send_call_error e ?c (PeerConnectionFailed p) s1 else s1)"
  have s1: "app_ok s1" using ok by (auto simp: s1_def)
  then have s2: "app_ok s2" by (simp add: s2_def)
  show ?thesis
  proof (cases "peer_joined ?c p s")
    case True
    then have "current_call_id s2 = Some ?c" by (simp add: s2_def s1_def peer_joined_id)
    then have "app_ok (s2\<lparr>ap_link_limbo_guards := hm_insert p (guard\<lparr>lr_reported := True\<rparr>) (ap_link_limbo_guards s2)\<rparr>)"
      by (intro app_ok_guard [OF s2]) simp
    with ok s1 s2 Some show ?thesis
      unfolding link_retry_turn_def Let_def Some option.case young_def [symmetric] s1_def [symmetric] s2_def [symmetric] by auto
  qed (use ok Some in \<open>auto simp: link_retry_turn_def Let_def\<close>)
qed (simp add: link_retry_turn_def ok)

lemma app_ok_peer_disconnected [intro]:
  assumes "app_ok s"
  shows "app_ok (peer_disconnected c p s)"
proof (cases "webrtc_peer_with c p s")
  case (Some peer)
  let ?f = "\<lambda>p. p\<lparr>wp_sender := False, wp_audio_source_id := None, wp_connected := False, wp_established := False\<rparr>"
  have "app_ok (detach_output_option (wp_audio_source_id peer) (map_webrtc_peer c p ?f s))"
    by (rule app_ok_lost_peer_output [OF assms Some]) simp_all
  with Some show ?thesis
    by (simp add: peer_disconnected_def Let_def app_ok_restart_option [OF left_sound_kind])
qed (simp add: peer_disconnected_def assms)

lemma app_ok_peer_failed [intro]:
  assumes "app_ok s"
  shows "app_ok (peer_failed e now c p own s)"
proof -
  define t where "t = map_webrtc_peer c p (\<lambda>p. p\<lparr>wp_established := False\<rparr>) s"
  have "app_ok t"
  proof (cases "webrtc_peer_with c p s")
    case (Some peer)
    show ?thesis unfolding t_def by (rule app_ok_change_peer [OF assms Some]) simp_all
  qed (simp add: t_def map_webrtc_peer_def assms)
  then show ?thesis
    unfolding peer_failed_def Let_def t_def [symmetric]
    by (auto intro!: app_ok_start_retry_id dest: conference_link_call)
qed

lemma relayD: "try_relay_reconnect e now c p own s = (s', r) \<Longrightarrow> app_ok s \<Longrightarrow> app_ok s'"
  by (auto simp: try_relay_reconnect_def split: option.splits if_splits prod.splits sum.splits dest: negotiateD)

lemma app_ok_relay [intro]: "app_ok s \<Longrightarrow> app_ok (relay_reconnect e now c p own s)"
  by (auto simp: relay_reconnect_def split: prod.split sum.split option.split dest!: relayD)

lemma app_ok_peer_event [intro]: "app_ok s \<Longrightarrow> app_ok (handle_peer_event e now serial ev s)"
  by (cases ev)
    (auto simp: handle_peer_event_def Let_def split: option.split prod.split bool.split
      dest!: on_connectedD end_if_no_peersD [OF _ app_ok_cleanup_peer])

lemma app_ok_stream_failure [intro]: "app_ok s \<Longrightarrow> app_ok (end_call_on_stream_failure e s)"
  by (auto simp: end_call_on_stream_failure_def Let_def split: option.split)

section \<open>Runs of the client\<close>

lemma app_ok_exec: "app_ok s \<Longrightarrow> app_ok (app_exec e op s)"
  by (cases op) (auto simp: disconnect_signaling_def)


interpretation client_run: invariant_system "app_exec e" "\<lambda>_. True" app_ok "client_app_new config (engine_new wayland tc kc radio)"
  for e config wayland tc kc radio
  by unfold_locales (auto intro: app_ok_exec app_ok_new simp: engine_new_def engine_configure_def)

end
