(* ===== verification/ClientAppBehaviour.thy ===== *)
theory ClientAppBehaviour
  imports ClientSystem "HOL-Library.Sublist"
begin

text \<open>
  What the client promises: nothing of a call outlives it, events of a replaced connection are
  ignored, the lower client id makes the offer, accepting loses no invitation; and how a failed
  negotiation is treated in a conference.
\<close>

section \<open>Consequences of the invariant\<close>

text \<open>
  C12: Whatever the user, the server, the timers, the peer connections and the
  environment do: without a current call the client runs no timer, retry or events task, has no
  call output attached, does not play the ringback and its microphone is not active for a call. In
  a call the events tasks are those of its peer connections, the attached outputs those its peers
  hold, and every timer and retry is the call's. At most five calls are incoming, and the client
  only rings while one is.
\<close>

theorem client_app_invariant:
  "let s = run (app_exec e) ops (client_app_new config (engine_new wayland tc kc radio)) in
     (case ap_current_call s of
        None \<Rightarrow>
          ap_unanswered_call_guards s = [] \<and> ap_establishment_guard s = None \<and> ap_link_limbo_guards s = [] \<and>
          ap_events_tasks s = [] \<and> ap_call_outputs s = [] \<and> Ringback \<notin> set (ap_playing s) \<and> \<not> call_active (ap_keybinds s)
      | Some call \<Rightarrow>
          (\<forall>n. hm_contains_key n (ap_events_tasks s) =
             (\<exists>p peer. hm_get (wc_peers (clc_webrtc call)) p = Some peer \<and> wp_serial peer = n)) \<and>
          (\<forall>a. (a \<in> set (ap_call_outputs s)) =
             (\<exists>p peer. hm_get (wc_peers (clc_webrtc call)) p = Some peer \<and> wp_audio_source_id peer = Some a)) \<and>
          set (hm_values (ap_unanswered_call_guards s)) \<subseteq> {clc_call_id call} \<and>
          lr_call_id ` set (hm_values (ap_link_limbo_guards s)) \<subseteq> {clc_call_id call} \<and>
          set_option (ap_establishment_guard s) \<subseteq> {clc_call_id call}) \<and>
     length (ap_incoming_calls s) \<le> incoming_calls_limit \<and>
     (case ap_incoming_calls s of [] \<Rightarrow> Ring \<notin> set (ap_playing s) \<and> PriorityRing \<notin> set (ap_playing s) | _ # _ \<Rightarrow> True)"
proof -
  define s where "s = run (app_exec e) ops (client_app_new config (engine_new wayland tc kc radio))"
  have ok: "app_ok s" unfolding s_def by (rule client_run.inv_reachable) (simp add: list_all_iff)
  have inv: "peers_ok (clc_call_id call) (wc_peers (clc_webrtc call)) (ap_events_tasks s) (ap_call_outputs s) (ap_fresh s)"
    if "ap_current_call s = Some call" for call using app_ok_in_call [OF ok that] by (simp add: in_call_def)
  have tasks: "hm_contains_key n (ap_events_tasks s) =
      (\<exists>p peer. hm_get (wc_peers (clc_webrtc call)) p = Some peer \<and> wp_serial peer = n)"
    if "ap_current_call s = Some call" for call n
    using peers_ok_task(2) [OF inv [OF that], of n] peers_ok_peer(4) [OF inv [OF that]] by (fastforce simp: hm_contains_key_def)
  have outs: "a \<in> set (ap_call_outputs s) \<longleftrightarrow>
      (\<exists>p peer. hm_get (wc_peers (clc_webrtc call)) p = Some peer \<and> wp_audio_source_id peer = Some a)"
    if "ap_current_call s = Some call" for call a
    by (rule peers_ok_out [OF inv [OF that]])
  have rest: "set (hm_values (ap_unanswered_call_guards s)) \<subseteq> {clc_call_id call} \<and>
      lr_call_id ` set (hm_values (ap_link_limbo_guards s)) \<subseteq> {clc_call_id call} \<and>
      set_option (ap_establishment_guard s) \<subseteq> {clc_call_id call}" if "ap_current_call s = Some call" for call
    using app_ok_in_call [OF ok that] by (auto simp: in_call_def hm_values_def)
  have idle: "app_idle s" if "ap_current_call s = None" using ok that by (simp add: app_ok_def app_calls_def)
  have rings: "app_rings s" using ok by (simp add: app_ok_def)
  show ?thesis
    unfolding Let_def s_def [symmetric]
    using tasks outs rest idle rings by (auto simp: app_idle_def app_rings_def split: option.split list.split)
qed

text \<open>
  C13: An event of a peer connection that was replaced or closed does nothing; every
  other event acts on the very connection it comes from.
\<close>

theorem stale_peer_events_ignored:
  "let s = run (app_exec e) ops (client_app_new config (engine_new wayland tc kc radio)) in
     case hm_get (ap_events_tasks s) serial of
       None \<Rightarrow> handle_peer_event e now serial ev s = s
     | Some task \<Rightarrow>
         \<exists>peer. webrtc_peer_with (et_call_id task) (et_peer_id task) s = Some peer \<and> wp_serial peer = serial \<and>
                wp_peer_id peer = et_peer_id task"
proof -
  define s where "s = run (app_exec e) ops (client_app_new config (engine_new wayland tc kc radio))"
  have ok: "app_ok s" unfolding s_def by (rule client_run.inv_reachable) (simp add: list_all_iff)
  have "\<exists>peer. webrtc_peer_with (et_call_id task) (et_peer_id task) s = Some peer \<and> wp_serial peer = serial \<and>
      wp_peer_id peer = et_peer_id task" if task: "hm_get (ap_events_tasks s) serial = Some task" for task
  proof (cases "ap_current_call s")
    case None
    with ok task show ?thesis by (simp add: app_ok_def app_calls_def app_idle_def)
  next
    case (Some call)
    from app_ok_in_call [OF ok Some] have inv:
        "peers_ok (clc_call_id call) (wc_peers (clc_webrtc call)) (ap_events_tasks s) (ap_call_outputs s) (ap_fresh s)"
      by (simp add: in_call_def)
    from peers_ok_task [OF inv task] peers_ok_peer(1) [OF inv] Some show ?thesis
      by (auto simp: webrtc_peer_with_Some)
  qed
  then show ?thesis
    unfolding Let_def s_def [symmetric] by (auto simp: handle_peer_event_def split: option.split)
qed

section \<open>Accepting a call\<close>

lemma accept_incoming_outcomes:
  assumes "accept_incoming e c own s = (s', r)" "hm_get (ap_incoming_calls s) c = Some call"
  shows "case r of
      Inl err \<Rightarrow> hm_get (ap_incoming_calls s') = hm_get (ap_incoming_calls s) \<and> ap_current_call s' = ap_current_call s
    | Inr accepted \<Rightarrow> accepted \<and> ap_current_call s' = Some call \<and> hm_get (ap_incoming_calls s') = (hm_get (ap_incoming_calls s))(c := None)"
proof -
  let ?s = "s\<lparr>ap_incoming_calls := hm_remove c (ap_incoming_calls s)\<rparr>"
  obtain t b where send: "send_signaling_message e (MsgCallAccept \<lparr>ca_call_id = c, ca_accepting_client_id = own\<rparr>) ?s = (t, b)" by fastforce
  from sendD(2,3) [OF send] assms send hm_get_remove [of c "ap_incoming_calls s"] show ?thesis
    by (cases b) (auto simp: accept_incoming_def Let_def stop_ringing_if_no_incoming_calls_def start_call_establishment_timer_def
        audio_stop_def fun_upd_idem_iff simp del: hm_get_remove)
qed


lemma end_call_incoming: "ap_incoming_calls (fst (end_call_client e c s)) = ap_incoming_calls s"
proof -
  have "ap_incoming_calls t' = ap_incoming_calls s"
    if "send_signaling_message e msg s = (t, b)" "cleanup_current_call c t = (t', b')" for msg t b t' b'
    using sendD(3) [OF that(1)] cleanup_playing(2) [of c t] that(2) by simp
  then show ?thesis
    by (auto simp: end_call_client_def Let_def split: option.split prod.split bool.split dest: sendD(3))
qed

text \<open>
  C15: Accepting an incoming call either does nothing, or fails and keeps every
  invitation, or makes the requested (or the first) incoming call the current one and takes
  exactly that invitation away. It never replaces a call in which this client does not take part,
  and an active one only when asked to end it.
\<close>

theorem accept_call_outcomes:
  "case accept_call_client e requested end_active_call s of
     (s', Inr False) \<Rightarrow> s' = s
   | (s', Inl err) \<Rightarrow> hm_get (ap_incoming_calls s') = hm_get (ap_incoming_calls s)
   | (s', Inr True) \<Rightarrow>
       (\<exists>c call own. hm_get (ap_incoming_calls s) c = Some call \<and> ap_current_call s' = Some call \<and>
          hm_get (ap_incoming_calls s') = (hm_get (ap_incoming_calls s))(c := None) \<and>
          (case requested of Some c' \<Rightarrow> c = c' | None \<Rightarrow> c = hd (hm_keys (ap_incoming_calls s))) \<and> ap_client_id s = Some own \<and>
          (case ap_current_call s of None \<Rightarrow> True | Some current \<Rightarrow> end_active_call \<and> call_is_active own current))"
proof (cases "ap_client_id s")
  case (Some own)
  define ks where "ks = (case requested of Some cid \<Rightarrow> [cid] | None \<Rightarrow> take 1 (hm_keys (ap_incoming_calls s)))"
  show ?thesis
  proof (cases "ks \<noteq> [] \<and> hm_contains_key (hd ks) (ap_incoming_calls s)")
    case True
    then obtain c ks' where ks: "ks = c # ks'" by (cases ks) auto
    with True obtain call where call: "hm_get (ap_incoming_calls s) c = Some call" by (auto simp: hm_contains_key_def)
    have c: "case requested of Some c' \<Rightarrow> c = c' | None \<Rightarrow> c = hd (hm_keys (ap_incoming_calls s))"
      using ks by (cases "hm_keys (ap_incoming_calls s)") (auto simp: ks_def split: option.splits)
    have acc: "case accept_incoming e c own t of
        (s', Inr accepted) \<Rightarrow> accepted \<and> ap_current_call s' = Some call \<and> hm_get (ap_incoming_calls s') = (hm_get (ap_incoming_calls s))(c := None)
      | (s', Inl err) \<Rightarrow> hm_get (ap_incoming_calls s') = hm_get (ap_incoming_calls s)"
      if "ap_incoming_calls t = ap_incoming_calls s" for t
      using accept_incoming_outcomes [of e c own t] call that by (auto split: prod.split sum.split)
    have accepting: ?thesis if "accept_call_client e requested end_active_call s = accept_incoming e c own t"
      "ap_incoming_calls t = ap_incoming_calls s"
      "case ap_current_call s of None \<Rightarrow> True | Some current \<Rightarrow> end_active_call \<and> call_is_active own current" for t
    proof (cases "accept_incoming e c own t")
      case (Pair s' r)
      with acc [OF that(2)] that(1,3) call c Some show ?thesis by (cases r) auto
    qed
    show ?thesis
    proof (cases "ap_current_call s")
      case None
      with True ks Some show ?thesis by (intro accepting [of s]) (simp_all add: accept_call_client_def ks_def [symmetric])
    next
      case cur: (Some cur)
      obtain t x where ended: "end_call_client e (clc_call_id cur) s = (t, x)" by fastforce
      with end_call_incoming [of e "clc_call_id cur" s] have inc: "ap_incoming_calls t = ap_incoming_calls s" by simp
      show ?thesis
      proof (cases "end_active_call \<and> call_is_active own cur \<and> \<not> isl x")
        case yes: True
        with True ks Some cur ended inc show ?thesis
          by (intro accepting [of t]) (auto simp: accept_call_client_def ks_def [symmetric] split: sum.splits)
      next
        case no: False
        with True ks Some cur ended inc show ?thesis
          by (cases x) (auto simp: accept_call_client_def ks_def [symmetric])
      qed
    qed
  next
    case False
    then show ?thesis
      by (auto simp: accept_call_client_def Some ks_def [symmetric] split: list.split)
  qed
qed (simp add: accept_call_client_def)


section \<open>Who makes the offer\<close>

definition offers :: "client_message list \<Rightarrow> client_id list" where
  "offers msgs = List.map_filter (\<lambda>m. case m of MsgWebrtcOffer w \<Rightarrow> Some (wm_to_client_id w) | _ \<Rightarrow> None) msgs"

lemma offers_append [simp]: "offers (xs @ ys) = offers xs @ offers ys"
  by (simp add: offers_def List.map_filter_def)

lemma offers_Nil [simp]: "offers [] = []"
  by (simp add: offers_def List.map_filter_def)

lemma sent_simps [simp]:
  "ap_sent (audio_stop src s) = ap_sent s" "ap_sent (audio_restart src s) = ap_sent s"
  "ap_sent (restart_option src' s) = ap_sent s" "ap_sent (detach_output_option a s) = ap_sent s"
  "ap_sent (engine_set_call_active b s) = ap_sent s" "ap_sent (cancel_events_task n s) = ap_sent s"
  "ap_sent (cancel_unanswered_call_timers_for_targets ts s) = ap_sent s" "ap_sent (cancel_all_unanswered_call_timers s) = ap_sent s"
  "ap_sent (cancel_link_retry c p s) = ap_sent s" "ap_sent (start_call_establishment_timer c s) = ap_sent s"
  "ap_sent (cancel_call_establishment_timer s) = ap_sent s" "ap_sent (map_webrtc c f s) = ap_sent s"
  by (auto simp: audio_stop_def audio_restart_def restart_option_def detach_output_option_eq engine_set_call_active_def
      cancel_events_task_def cancel_unanswered_call_timers_for_targets_def cancel_all_unanswered_call_timers_def
      cancel_link_retry_def remove_link_limbo_def start_call_establishment_timer_def cancel_call_establishment_timer_def
      map_webrtc_def map_current_call_def split: option.split)

lemma id_simps [simp]:
  "current_call_id (audio_stop src s) = current_call_id s"
  "current_call_id (restart_option src' s) = current_call_id s" "current_call_id (detach_output_option a s) = current_call_id s"
  "current_call_id (engine_set_call_active b s) = current_call_id s" "current_call_id (cancel_events_task n s) = current_call_id s"
  "current_call_id (cancel_unanswered_call_timers_for_targets ts s) = current_call_id s"
  "current_call_id (cancel_all_unanswered_call_timers s) = current_call_id s"
  "current_call_id (cancel_link_retry c p s) = current_call_id s"
  "current_call_id (cancel_call_establishment_timer s) = current_call_id s" "current_call_id (map_webrtc c f s) = current_call_id s"
  by (auto simp: audio_stop_def audio_restart_def restart_option_def detach_output_option_eq engine_set_call_active_def
      cancel_events_task_def cancel_unanswered_call_timers_for_targets_def cancel_all_unanswered_call_timers_def
      cancel_link_retry_def remove_link_limbo_def cancel_call_establishment_timer_def
      map_webrtc_def map_current_call_def current_call_with_def current_call_id_def split: option.split)

lemma cleanup_peer_frame [simp]:
  "ap_sent (fst (cleanup_call_peer c p s)) = ap_sent s"
  "current_call_id (fst (cleanup_call_peer c p s)) = current_call_id s"
  by (auto simp: cleanup_call_peer_def take_webrtc_peer_Some current_call_id_def Let_def
      restart_option_def audio_restart_def detach_output_option_eq cancel_events_task_def engine_set_call_active_def split: option.split)

lemma drop_left_frame [simp]:
  "ap_sent (drop_left_peer c p s) = ap_sent s" "current_call_id (drop_left_peer c p s) = current_call_id s"
  by (simp_all add: drop_left_peer_def)

lemma fold_drop_left_frame [simp]:
  "ap_sent (fold (drop_left_peer c) ps s) = ap_sent s" "current_call_id (fold (drop_left_peer c) ps s) = current_call_id s"
  by (induction ps arbitrary: s) simp_all

lemma cleanup_sent [simp]: "ap_sent (fst (cleanup_current_call c s)) = ap_sent s"
  by (auto simp: cleanup_current_call_def Let_def fold_cancel_events fold_detach cancel_all_link_retries_def
      split: option.split)

lemma end_if_no_peers_sent: "end_call_if_no_peers c s = (s', b) \<Longrightarrow> ap_sent s' = ap_sent s"
  by (auto simp: end_call_if_no_peers_def split: option.splits if_splits)

lemma await_offer_sent [simp]: "ap_sent (await_offer c own s) = ap_sent s"
  by (simp add: await_offer_def split: option.split)

lemma create_works:
  assumes "\<forall>n o' r. peer_sdp e n p o' r \<noteq> None"
  shows "\<exists>t peer sdp. create_peer e now c p own offer rec relay s = (t, Inr (peer, sdp))"
proof -
  obtain sdp where "peer_sdp e (ap_answers s) p offer relay = Some sdp" using assms by fastforce
  then show ?thesis by (simp add: create_peer_def ask_def Let_def)
qed

lemma negotiate_works:
  assumes "\<forall>n o' r. peer_sdp e n p o' r \<noteq> None" "current_call_id s = Some c"
  obtains s' sdp where "negotiate_peer e now c p own offer s = (s', Inr sdp)" "ap_sent s' = ap_sent s" "current_call_id s' = Some c"
proof -
  from assms(2) obtain call where call: "ap_current_call s = Some call" "clc_call_id call = c" by (auto simp: current_call_id_Some)
  let ?rep = "hm_contains_key p (wc_peers (clc_webrtc call))"
  let ?s = "if ?rep then emit (EvWebrtc PeerReconnecting c p) s else s"
  let ?rec = "?rep \<or> has_link_limbo c p s"
  obtain t peer sdp where cp: "create_peer e now c p own offer ?rec
      (cfg_force_relay (ap_config s) \<or> ?rep \<and> offer = None \<or> has_link_limbo c p s) ?s = (t, Inr (peer, sdp))"
    using create_works [OF assms(1)] by metis
  let ?peer = "if ?rec \<and> \<not> ?rep then peer\<lparr>wp_connected := False\<rparr> else peer"
  have "negotiate_peer e now c p own offer s = (cancel_call_establishment_timer (replace_peer c p ?peer t), Inr sdp)"
    using call cp by (simp add: negotiate_peer_def Let_def)
  moreover have "ap_sent t = ap_sent s" "current_call_id t = Some c"
    using create_peer_Inr(1) [OF cp] assms(2) by (simp_all add: current_call_id_def)
  then have "ap_sent (cancel_call_establishment_timer (replace_peer c p ?peer t)) = ap_sent s"
    "current_call_id (cancel_call_establishment_timer (replace_peer c p ?peer t)) = Some c"
    by (simp_all add: replace_peer_def Let_def split: option.split)
  ultimately show ?thesis by (rule that)
qed

lemma offer_peer_works:
  assumes "\<forall>n p o' r. peer_sdp e n p o' r \<noteq> None" "\<forall>n m. send_ok e n m" "current_call_id s = Some c"
  shows "current_call_id (offer_peer e now c own (p, target) s) = Some c"
    "offers (ap_sent (offer_peer e now c own (p, target) s)) = offers (ap_sent s) @ [p]"
proof -
  obtain s' sdp where n: "negotiate_peer e now c p own None s = (s', Inr sdp)" "ap_sent s' = ap_sent s" "current_call_id s' = Some c"
    using negotiate_works [of e p s c now own None] assms(1,3) by metis
  with assms(2) show "current_call_id (offer_peer e now c own (p, target) s) = Some c"
    "offers (ap_sent (offer_peer e now c own (p, target) s)) = offers (ap_sent s) @ [p]"
    by (simp_all add: offer_peer_def send_signaling_message_def ask_def current_call_id_def offers_def List.map_filter_def)
qed

lemma fold_offer_peer_works:
  assumes "\<forall>n p o' r. peer_sdp e n p o' r \<noteq> None" "\<forall>n m. send_ok e n m" "current_call_id s = Some c"
  shows "offers (ap_sent (fold (offer_peer e now c own) ps s)) = offers (ap_sent s) @ map fst ps"
  using assms(3)
proof (induction ps arbitrary: s)
  case (Cons q ps)
  obtain p target where "q = (p, target)" by (cases q)
  with Cons offer_peer_works [OF assms(1,2) Cons.prems, of now own p target] show ?case by simp
qed simp


text \<open>Whatever fails on the way, an offer goes to nobody but the peer it is made for.\<close>

lemma create_peer_sent: "ap_sent (fst (create_peer e now c p own offer rec relay s)) = ap_sent s"
  by (simp add: create_peer_def ask_def Let_def split: option.split)

lemma negotiate_sent:
  assumes "negotiate_peer e now c p own offer s = (s', res)"
  shows "ap_sent s' = ap_sent s"
proof -
  have "ap_sent t = ap_sent u" if "create_peer e now c p own offer rec relay u = (t, x)" for rec relay t u x
    using create_peer_sent [of e now c p own offer rec relay u] that by simp
  with assms show ?thesis
    by (fastforce simp: negotiate_peer_def replace_peer_def Let_def split: option.splits if_splits prod.splits sum.splits)
qed

lemma offers_error [simp]: "offers (ap_sent (try_send_call_error e c reason s)) = offers (ap_sent s)"
  by (simp add: try_send_call_error_def send_signaling_message_def ask_def offers_def List.map_filter_def Let_def)

lemma remove_quiet_sent [simp]: "ap_sent (remove_link_peer_quiet c p s) = ap_sent s"
  by (auto simp: remove_link_peer_quiet_def take_webrtc_peer_Some split: option.split)

lemma conference_failure_offers:
  assumes "handle_conference_peer_failure e now c p own reason s = (s', b)"
  shows "offers (ap_sent s') = offers (ap_sent s)"
  using assms
  by (auto simp: handle_conference_peer_failure_def fail_link_def start_link_retry_def fail_call_def emit_call_error_def Let_def split: if_splits)

lemma offer_peer_offers:
  "offers (ap_sent (offer_peer e now c own (p, target) s)) = offers (ap_sent s) \<or>
   offers (ap_sent (offer_peer e now c own (p, target) s)) = offers (ap_sent s) @ [p]"
proof -
  obtain s' res where n: "negotiate_peer e now c p own None s = (s', res)" by fastforce
  note sent = negotiate_sent [OF n]
  show ?thesis
  proof (cases res)
    case (Inl err)
    obtain s'' b where f: "handle_conference_peer_failure e now c p own (into_call_error_reason own err) s' = (s'', b)" by fastforce
    from conference_failure_offers [OF f] sent show ?thesis
      by (cases b) (simp_all add: offer_peer_def n Inl f emit_call_error_def Let_def)
  next
    case (Inr sdp)
    with sent show ?thesis
      by (auto simp: offer_peer_def n send_signaling_message_def ask_def Let_def)
         (auto simp: offers_def List.map_filter_def)
  qed
qed

lemma fold_offer_peer_offers:
  "\<exists>sent. offers (ap_sent (fold (offer_peer e now c own) ps s)) = offers (ap_sent s) @ sent \<and> subseq sent (map fst ps)"
proof (induction ps arbitrary: s)
  case (Cons q ps)
  obtain p target where q: "q = (p, target)" by (cases q)
  obtain sent where "offers (ap_sent (fold (offer_peer e now c own) (q # ps) s)) =
      offers (ap_sent (offer_peer e now c own q s)) @ sent" "subseq sent (map fst ps)"
    using Cons.IH [of "offer_peer e now c own q s"] by auto
  with offer_peer_offers [of e now c own p target s] show ?case
    unfolding q by (elim disjE) (simp_all, auto intro: list_emb_Cons)
qed simp

text \<open>The participants a call update makes the client send an offer to, in the order of the update.\<close>

definition offers_due :: "client_id \<Rightarrow> client_call \<Rightarrow> call_update \<Rightarrow> client_id list" where
  "offers_due own call msg =
     filter (\<lambda>p. own < p \<and> \<not> (call_is_active own call \<and> hm_contains_key p (clc_joined_participants call)))
       (hm_keys (cu_joined_participants msg))"

lemma offers_due_joined:
  assumes "update_call own invited (cu_joined_participants msg) leader call = (call', joined, left)"
    and "hm_contains_key own (cu_joined_participants msg)"
  shows "map fst (filter (\<lambda>(peer_id, _). own < peer_id) joined) = offers_due own call msg"
proof -
  have "joined = filter (\<lambda>(p, _). p \<noteq> own \<and> \<not> (call_is_active own call \<and> hm_contains_key p (clc_joined_participants call)))
      (cu_joined_participants msg)"
    using assms by (auto simp: update_call_def call_is_active_def Let_def split: if_splits intro!: filter_cong)
  then show ?thesis
    by (auto simp: offers_due_def hm_keys_def filter_map o_def case_prod_beta intro!: arg_cong [of _ _ "map fst"] filter_cong)
qed

text \<open>
  C14: When an update of its current call reaches a participant, it sends WebRTC offers only to
  participants that joined and have a higher client id than its own (to all of them when it has
  just joined itself), to each at most once and in their order, whatever fails on the way. If every peer
  connection can be created and every message can be sent, it sends an offer to every one of
  them. So of two participants only the one with the lower id makes an offer, in whatever order the updates
  arrive.
\<close>

theorem offers_by_lower_id:
  assumes own: "ap_client_id s = Some own" "hm_contains_key own (cu_joined_participants msg)"
    and call: "hm_get (ap_incoming_calls s) (cu_call_id msg) = None" "current_call_with (cu_call_id msg) s = Some call"
  shows "\<exists>sent. offers (ap_sent (handle_call_update e now msg s)) = offers (ap_sent s) @ sent \<and>
    subseq sent (offers_due own call msg) \<and>
    ((\<forall>n p o' r. peer_sdp e n p o' r \<noteq> None) \<and> (\<forall>n m. send_ok e n m) \<longrightarrow> sent = offers_due own call msg)"
proof -
  obtain call' joined left where u: "update_call own (cu_invited_targets msg) (cu_joined_participants msg) (cu_conference_leader msg) call
      = (call', joined, left)" by (metis prod_cases3)
  let ?c = "cu_call_id msg" and ?att = "filter (\<lambda>(peer_id, _). own < peer_id) joined"
  define s1 where "s1 = s\<lparr>ap_current_call := Some call'\<rparr>"
  define s2 where "s2 = (if cu_invited_targets msg = [] then audio_stop Ringback (cancel_all_unanswered_call_timers s1)
      else cancel_unanswered_call_timers_for_targets (hm_values joined) s1)"
  define s3 where "s3 = fold (offer_peer e now ?c own) ?att (fold (drop_left_peer ?c) left s2)"
  obtain s4 ended where 4: "(if ?att = [] then (s3, False) else end_call_if_no_peers ?c s3) = (s4, ended)" by fastforce
  have active: "call_is_active own call'" and id: "clc_call_id call' = ?c"
    using u own(2) call(2) by (auto simp: update_call_def call_is_active_def current_call_with_Some Let_def split: if_splits)
  have "current_call_id s1 = Some ?c" by (simp add: s1_def id current_call_id_def)
  then have cur: "current_call_id s2 = Some ?c" by (simp add: s2_def)
  have "ap_sent s4 = ap_sent s3" using 4 by (auto dest: end_if_no_peers_sent split: if_splits)
  moreover have "ap_sent (handle_call_update e now msg s) = ap_sent s4"
    unfolding handle_call_update_def own(1) call option.case update_current_call_def u Let_def prod.case
      s1_def [symmetric] s2_def [symmetric] s3_def [symmetric] 4
    using active own(2) by (auto simp: hm_contains_key_def)
  moreover have due: "map fst ?att = offers_due own call msg" by (rule offers_due_joined [OF u own(2)])
  moreover have "offers (ap_sent s3) = offers (ap_sent s) @ map fst ?att"
    if "\<forall>n p o' r. peer_sdp e n p o' r \<noteq> None" "\<forall>n m. send_ok e n m"
    using fold_offer_peer_works [OF that, of "fold (drop_left_peer ?c) left s2" ?c now own ?att] cur
    by (simp add: s3_def s2_def s1_def)
  moreover obtain sent where "offers (ap_sent s3) = offers (ap_sent s) @ sent" "subseq sent (map fst ?att)"
    using fold_offer_peer_offers [of e now ?c own ?att "fold (drop_left_peer ?c) left s2"] by (auto simp: s3_def s2_def s1_def)
  ultimately show ?thesis by auto
qed

text \<open>An environment in which everything works, or no peer connection can be created; a client in a conference of three.\<close>

definition demo_client_env :: "bool \<Rightarrow> client_env" where
  "demo_client_env works =
     \<lparr>send_ok = (\<lambda>_ _. True), peer_sdp = (\<lambda>_ _ _ _. if works then Some ''sdp'' else None), answer_ok = (\<lambda>_ _. True),
      output_ok = (\<lambda>_. True), input_ok = (\<lambda>_. True), receiver_ok = (\<lambda>_. True), tag_sdp = (\<lambda>sdp. sdp), sdp_reconnect = (\<lambda>_. True)\<rparr>"

definition demo_participants :: call_participants where
  "demo_participants = map (\<lambda>i. (ClientId i, Client (ClientId i))) [''1'', ''2'', ''3'']"

definition demo_config :: client_config where
  "demo_config =
     \<lparr>cfg_ignored = [], cfg_auto_hangup_seconds = 60, cfg_force_relay = False, cfg_enable_priority_calls = True,
      cfg_enable_call_start_sound = True, cfg_enable_call_end_sound = True, cfg_enable_participant_joined_sound = True,
      cfg_enable_participant_left_sound = True\<rparr>"

definition demo_client :: "call_participants \<Rightarrow> client_app" where
  "demo_client joined =
     (client_app_new demo_config (engine_new False demo_transmit demo_keybinds False))\<lparr>ap_client_id := Some (ClientId ''2''),
       ap_current_call := Some \<lparr>clc_call_id = CallId 1, clc_webrtc = webrtc_call_new (CallId 1), clc_invited_targets = [],
         clc_joined_participants = joined, clc_conference_leader = None\<rparr>\<rparr>"

lemmas demo_client_defs = demo_client_def demo_client_env_def demo_participants_def demo_config_def client_app_new_def webrtc_call_new_def

definition demo_update :: call_update where
  "demo_update =
     \<lparr>cu_call_id = CallId 1, cu_invited_targets = [], cu_joined_participants = demo_participants, cu_conference_leader = None\<rparr>"

theorem offers_by_lower_id_witness:
  "offers (ap_sent (handle_call_update (demo_client_env True) 0 demo_update (demo_client []))) = [ClientId ''3''] \<and>
   subseq (offers (ap_sent (handle_call_update (demo_client_env False) 0 demo_update (demo_client [])))) [ClientId ''3'']"
proof -
  let ?call = "the (ap_current_call (demo_client []))"
  have "ap_client_id (demo_client []) = Some (ClientId ''2'')" "hm_contains_key (ClientId ''2'') (cu_joined_participants demo_update)"
    "hm_get (ap_incoming_calls (demo_client [])) (cu_call_id demo_update) = None"
    "current_call_with (cu_call_id demo_update) (demo_client []) = Some ?call"
    by (simp_all add: demo_client_defs demo_update_def hm_contains_key_def current_call_with_def)
  note applied = offers_by_lower_id [OF this]
  have "offers_due (ClientId ''2'') ?call demo_update = [ClientId ''3'']" "offers (ap_sent (demo_client [])) = []"
    by (simp_all add: offers_due_def demo_update_def demo_client_defs hm_contains_key_def call_is_active_def less_client_id_def hm_keys_def)
  then show ?thesis using applied [of "demo_client_env True" 0] applied [of "demo_client_env False" 0]
    by (auto simp: demo_client_env_def)
qed

section \<open>A failed negotiation in a conference\<close>

text \<open>
  When the peer connection for one participant of a conference cannot be created,
  the client leaves the whole call: the error loses its kind on the way, so that it does not count
  as the failure of a single link.
\<close>

theorem negotiation_failure_leaves_conference:
  assumes fail: "\<forall>n o' r. peer_sdp e n (wm_from_client_id msg) o' r = None"
    and own: "ap_client_id s = Some own" "wm_from_client_id msg < own"
    and conf: "is_conference_link (wm_call_id msg) (wm_from_client_id msg) s"
  shows "ap_current_call (handle_webrtc_offer e now msg s) = None"
proof -
  let ?c = "wm_call_id msg" and ?p = "wm_from_client_id msg"
  obtain call where call: "ap_current_call s = Some call" "clc_call_id call = ?c"
    using conference_link_call [OF conf] by (auto simp: current_call_id_Some)
  obtain s' where n: "negotiate_peer e now ?c ?p own (Some (wm_payload msg)) s = (s', Inl AppOtherError)"
      "ap_current_call s' = Some call" "ap_client_id s' = Some own"
    using call fail own(1) by (auto simp: negotiate_peer_def create_peer_def ask_def Let_def)
  have "is_conference_link ?c ?p s'"
    using conf n(2,3) call own(1) by (simp add: is_conference_link_def current_call_with_def)
  moreover have "current_call_with ?c (emit_call_error ?c True OriginCall Other (try_send_call_error e ?c Other s')) \<noteq> None"
    using n(2) call(2) by (simp add: current_call_with_def)
  moreover have "\<not> own < ?p" using own(2) by simp
  ultimately show ?thesis
    using n(1) own(1)
    by (simp add: handle_webrtc_offer_def into_call_error_reason_def handle_conference_peer_failure_def is_link_failure_def
        fail_call_def Let_def)
qed


theorem negotiation_failure_leaves_conference_witness:
  "is_conference_link (CallId 1) (ClientId ''1'') (demo_client demo_participants) \<and>
   ap_current_call (handle_webrtc_offer (demo_client_env False) 0
     \<lparr>wm_call_id = CallId 1, wm_from_client_id = ClientId ''1'', wm_to_client_id = ClientId ''2'', wm_payload = ''offer''\<rparr>
     (demo_client demo_participants)) = None"
proof -
  have conf: "is_conference_link (CallId 1) (ClientId ''1'') (demo_client demo_participants)"
    by (simp add: demo_client_defs is_conference_link_def current_call_with_def other_joined_def)
  then show ?thesis
    by (intro conjI negotiation_failure_leaves_conference [where own = "ClientId ''2''"])
      (simp_all add: demo_client_def demo_client_env_def less_client_id_def)
qed

end
