(* ===== verification/StationSync.thy ===== *)
theory StationSync
  imports ClientAppBehaviour ClientBehaviour
begin

text \<open>
  The stations a desktop client holds against those of the server: the client manager's station
  changes, the messages they travel in, and the list the client keeps from them. As long as a
  client keeps its position, its list is what the server would list for it; a client that is moved
  to a position may end up with a station twice.
\<close>

section \<open>A station list shows a view\<close>

definition shows_view :: "position_id option \<Rightarrow> (station_id \<Rightarrow> position_id option) \<Rightarrow> station_info list \<Rightarrow> bool" where
  "shows_view own v sts \<longleftrightarrow>
     distinct (map si_id sts) \<and> set sts = {\<lparr>si_id = s, si_own = (own = Some p)\<rparr> | s p. v s = Some p}"

lemma shows_view_ids: "shows_view own v sts \<Longrightarrow> si_id ` set sts = dom v"
  by (auto simp: shows_view_def image_iff) (metis station_info.select_convs(1))

lemma set_own_ids [simp]: "map si_id (set_own s b sts) = map si_id sts"
  by (induction s b sts rule: set_own.induct) auto

lemma set_own_absent: "s \<notin> si_id ` set sts \<Longrightarrow> set_own s b sts = sts"
  by (induction s b sts rule: set_own.induct) auto

lemma set_set_own:
  "distinct (map si_id sts) \<Longrightarrow> set (set_own s b sts) = (\<lambda>st. if si_id st = s then st\<lparr>si_own := b\<rparr> else st) ` set sts"
proof (induction s b sts rule: set_own.induct)
  case (2 s b st sts)
  show ?case
  proof (cases "si_id st = s")
    case True
    have "si_id x \<noteq> s" if "x \<in> set sts" for x using 2(2) True imageI [OF that, of si_id] by auto
    then have "(\<lambda>st. if si_id st = s then st\<lparr>si_own := b\<rparr> else st) ` set sts = (\<lambda>st. st) ` set sts"
      by (intro image_cong) simp_all
    with True show ?thesis by simp
  qed (use 2 in simp)
qed simp

lemma shows_online:
  assumes "shows_view own v sts" "v s = None"
  shows "shows_view own (v(s \<mapsto> p)) (change_stations own (Online s p) sts)"
proof -
  have "s \<notin> si_id ` set sts" using shows_view_ids [OF assms(1)] assms(2) by auto
  moreover have "{\<lparr>si_id = t, si_own = (own = Some q)\<rparr> | t q. (v(s \<mapsto> p)) t = Some q} =
      insert \<lparr>si_id = s, si_own = (own = Some p)\<rparr> {\<lparr>si_id = t, si_own = (own = Some q)\<rparr> | t q. v t = Some q}"
    using assms(2) by (auto split: if_splits)
  ultimately show ?thesis using assms(1) by (simp add: shows_view_def)
qed

lemma shows_offline:
  assumes "shows_view own v sts"
  shows "shows_view own (v(s := None)) (change_stations own (Offline s) sts)"
  using assms by (auto simp: shows_view_def distinct_map_filter split: if_splits)

lemma shows_handoff:
  assumes "shows_view own v sts" "v s \<noteq> None"
  shows "shows_view own (v(s \<mapsto> q)) (change_stations own (Handoff s p q) sts)"
proof -
  let ?f = "\<lambda>st. if si_id st = s then st\<lparr>si_own := (own = Some q)\<rparr> else st"
  have "?f ` {\<lparr>si_id = t, si_own = (own = Some r)\<rparr> | t r. v t = Some r} =
      {\<lparr>si_id = t, si_own = (own = Some r)\<rparr> | t r. (v(s \<mapsto> q)) t = Some r}" (is "?l = ?r")
  proof
    show "?r \<subseteq> ?l"
    proof
      fix x assume "x \<in> ?r"
      then obtain t r where x: "x = \<lparr>si_id = t, si_own = (own = Some r)\<rparr>" "(v(s \<mapsto> q)) t = Some r" by blast
      obtain r' where "v t = Some r'" "t = s \<and> r = q \<or> t \<noteq> s \<and> r' = r" using x(2) assms(2) by (cases "t = s") auto
      then have "x = ?f \<lparr>si_id = t, si_own = (own = Some r')\<rparr>"
        "\<lparr>si_id = t, si_own = (own = Some r')\<rparr> \<in> {\<lparr>si_id = t, si_own = (own = Some r)\<rparr> | t r. v t = Some r}"
        using x(1) by auto
      then show "x \<in> ?l" by (rule image_eqI)
    qed
    show "?l \<subseteq> ?r"
    proof
      fix x assume "x \<in> ?l"
      then obtain t r where x: "x = ?f \<lparr>si_id = t, si_own = (own = Some r)\<rparr>" "v t = Some r" by blast
      show "x \<in> ?r"
      proof (cases "t = s")
        case True
        with x(1) have "x = \<lparr>si_id = s, si_own = (own = Some q)\<rparr>" by simp
        then show ?thesis by (intro CollectI exI conjI) auto
      next
        case False
        with x show ?thesis by (intro CollectI exI conjI) auto
      qed
    qed
  qed
  then show ?thesis using assms(1) set_set_own [of sts s "own = Some q"] by (simp add: shows_view_def)
qed

lemma shows_changes:
  assumes "plain_changes v chs" "shows_view own v sts" "hm_get w = v"
  shows "shows_view own (hm_get (fold apply_station_change chs w)) (fold (change_stations own) chs sts)"
  using assms
proof (induction chs arbitrary: v w sts)
  case (Cons ch chs)
  let ?v = "v(station_change_station_id ch := new_controller ch)"
  have "shows_view own ?v (change_stations own ch sts)"
    using Cons.prems(1,2) by (cases ch) (auto simp: plain_changes_def intro: shows_online [unfolded change_stations.simps]
        shows_offline [unfolded change_stations.simps] shows_handoff [unfolded change_stations.simps])
  moreover have "plain_changes ?v chs"
    using Cons.prems(1) by (fastforce simp: plain_changes_def image_iff split: station_change.splits)
  moreover have "hm_get (apply_station_change ch w) = ?v" by (simp add: hm_get_apply_station_change Cons.prems(3))
  ultimately show ?case using Cons.IH by simp
qed simp


section \<open>What a client receives\<close>

text \<open>The messages among the outgoing ones that reach a connected client.\<close>

definition received :: "client_id \<Rightarrow> outgoing list \<Rightarrow> server_message list" where
  "received c out = List.map_filter (\<lambda>x. case x of
       Direct d msg \<Rightarrow> if d = c then Some msg else None
     | Broadcast msg \<Rightarrow> Some msg
     | _ \<Rightarrow> None) out"

definition handle_all :: "client_env \<Rightarrow> instant \<Rightarrow> server_message list \<Rightarrow> client_app \<Rightarrow> client_app" where
  "handle_all e now msgs a = fold (handle_signaling_message e now) msgs a"

text \<open>Messages that leave the session alone and change the stations by changes only.\<close>

fun only_changes :: "outgoing \<Rightarrow> bool" where
  "only_changes (Direct _ (StationChanges _)) \<longleftrightarrow> True"
| "only_changes (Broadcast (ClientConnected _)) \<longleftrightarrow> True"
| "only_changes (Broadcast (ClientDisconnected _)) \<longleftrightarrow> True"
| "only_changes (Shutdown _ _) \<longleftrightarrow> True"
| "only_changes _ \<longleftrightarrow> False"

lemma handle_only_changes:
  assumes "list_all only_changes out"
  shows "ap_stations (handle_all e now (received c out) a) =
      fold (change_stations (own_position_of a)) (station_changes_for c out) (ap_stations a)"
  using assms
proof (induction out arbitrary: a)
  case (Cons x out)
  then show ?case
    by (cases x rule: only_changes.cases)
      (auto simp: received_def handle_all_def map_filter_simps handle_signaling_message_def handle_station_changes_def
        own_position_of_def emit_def)
qed (simp add: received_def handle_all_def map_filter_simps)

lemma broadcast_only_changes: "list_all only_changes (broadcast_station_changes chs m)"
  by (auto simp: broadcast_station_changes_uncached broadcast_to_def list_all_iff)

lemma shows_list_stations:
  "shows_view own (visible_view m profile) sts \<longleftrightarrow>
     distinct (map si_id sts) \<and> set sts = set (list_stations m profile own)"
  using list_stations_exact [of m profile own] by (simp add: shows_view_def)

lemma plain_filtered:
  assumes "plain_changes (view m) chs"
  shows "plain_changes (visible_view m profile) (filter_changes (cm_network m) profile chs)"
  using assms
  by (auto simp: plain_changes_def filter_changes_relevant visible_view_def distinct_map_filter split: station_change.splits)

lemma shows_after:
  assumes inv: "coverage_inv m" and tr: "tracks chs m m'" and net: "cm_network m' = cm_network m"
    and sts: "shows_view own (visible_view m profile) sts"
  shows "shows_view own (visible_view m' profile) (fold (change_stations own) (filter_changes (cm_network m) profile chs) sts)"
proof -
  let ?w = "known_stations m profile"
  have plain: "plain_changes (visible_view m profile) (filter_changes (cm_network m) profile chs)"
    using tr by (intro plain_filtered) (simp add: tracks_def)
  from shows_changes [OF plain sts known_stations_view [OF inv]]
    filter_changes_tracks [OF inv tr net known_stations_view [OF inv]] show ?thesis by simp
qed


text \<open>
  C11: A client that holds the station list of the server and handles the messages the
  server sends when another client connects or disconnects holds the station list of the server
  afterwards: the same stations with the same own flags, none of them twice.
\<close>

theorem station_list_follows_server:
  assumes inv: "coverage_inv m" and s: "hm_get (clients m) c = Some s"
    and step: "(\<exists>t info profile res. hm_get (clients m) (info_id info) = None \<and> add_client t info profile m = (m', res, out)) \<or>
      (\<exists>d s' feed reason. d \<noteq> c \<and> hm_get (clients m) d = Some s' \<and> remove_client feed d reason m = (m', out))"
    and list: "distinct (map si_id (ap_stations a))"
      "set (ap_stations a) = set (list_stations m (sess_active_profile s) (own_position_of a))"
  shows "distinct (map si_id (ap_stations (handle_all e now (received c out) a))) \<and>
    set (ap_stations (handle_all e now (received c out) a)) = set (list_stations m' (sess_active_profile s) (own_position_of a))"
proof -
  let ?pr = "sess_active_profile s"
  have "\<exists>chs. tracks chs m m' \<and> cm_network m' = cm_network m \<and> list_all only_changes out \<and>
      station_changes_for c out = filter_changes (cm_network m) ?pr chs"
    using step
  proof (elim disjE exE conjE)
    fix t info profile res
    assume new: "hm_get (clients m) (info_id info) = None" and run: "add_client t info profile m = (m', res, out)"
    show ?thesis
    proof (rule add_client_accepted [OF inv new, of t profile])
      fix m1 chs
      assume eq: "add_client t info profile m = (m1, Inr (client_session_new t info profile),
          Broadcast (ClientConnected info) # broadcast_station_changes chs m1)"
        and inv1: "coverage_inv m1" and tr: "tracks chs m m1"
        and cl: "clients m1 = hm_insert (info_id info) (client_session_new t info profile) (clients m)"
      have net: "cm_network m1 = cm_network m" using eq add_client_network [of t info profile m] by simp
      have "hm_get (clients m1) c = Some s" using new s cl by auto
      with inv1 have "station_changes_for c (broadcast_station_changes chs m1) = filter_changes (cm_network m) ?pr chs"
        by (subst broadcast_reaches) (simp_all add: coverage_inv_def net)
      with eq run tr net broadcast_only_changes show ?thesis by auto
    qed
  next
    fix d s' feed reason
    assume d: "d \<noteq> c" "hm_get (clients m) d = Some s'" and run: "remove_client feed d reason m = (m', out)"
    show ?thesis
    proof (rule remove_client_known [OF inv d(2), where feed = feed and reason = reason])
      fix m1 chs
      assume inv1: "coverage_inv m1" and tr: "tracks chs m m1" and cl: "clients m1 = hm_remove d (clients m)"
        and eq: "hm_remove d (clients m) \<noteq> [] \<Longrightarrow> remove_client feed d reason m =
          (m1, [Shutdown d reason, Broadcast (ClientDisconnected d)] @ broadcast_station_changes chs m1)"
      have c: "hm_get (clients m1) c = Some s" using s d(1) cl by auto
      then have "hm_remove d (clients m) \<noteq> []" using cl by (metis map_of.simps(1) option.distinct(1))
      note eq = eq [OF this]
      have net: "cm_network m1 = cm_network m" using eq remove_client_network [of feed d reason m] by simp
      from inv1 c have "station_changes_for c (broadcast_station_changes chs m1) = filter_changes (cm_network m) ?pr chs"
        by (subst broadcast_reaches) (simp_all add: coverage_inv_def net)
      with eq run tr net broadcast_only_changes show ?thesis by auto
    qed
  qed
  then obtain chs where "tracks chs m m'" "cm_network m' = cm_network m" "list_all only_changes out"
    "station_changes_for c out = filter_changes (cm_network m) ?pr chs" by blast
  with shows_after [OF inv this(1,2), of "own_position_of a" ?pr "ap_stations a"] list show ?thesis
    by (simp add: handle_only_changes shows_list_stations)
qed


text \<open>The client of \<open>demo_manager\<close> that works no position, with its station list.\<close>

definition demo_observer :: client_app where
  "demo_observer = (demo_client [])\<lparr>ap_client_id := Some (ClientId ''2''), ap_current_call := None,
     ap_stations := list_stations demo_manager Custom None\<rparr>"

lemma demo_observer_own: "own_position_of demo_observer = None"
  by (simp add: demo_observer_def own_position_of_def demo_client_def client_app_new_def)

lemma demo_observer_stations: "ap_stations demo_observer = list_stations demo_manager Custom None"
  by (simp add: demo_observer_def)

theorem station_list_follows_server_witness:
  "case add_client 200 (demo_info ''4'' ''LOWW_APP'' ''LOWW_APP'') Custom demo_manager of (m', res, out) \<Rightarrow>
     set (ap_stations (handle_all (demo_client_env True) 0 (received (ClientId ''2'') out) demo_observer)) =
       set (list_stations m' Custom None)"
proof -
  let ?info = "demo_info ''4'' ''LOWW_APP'' ''LOWW_APP''"
  obtain m' res out where r: "add_client 200 ?info Custom demo_manager = (m', res, out)" by (metis prod_cases3)
  obtain s where s: "hm_get (clients demo_manager) (ClientId ''2'') = Some s" "sess_active_profile s = Custom"
    using demo_client(1) by auto
  have new: "hm_get (clients demo_manager) (info_id ?info) = None" using demo_client(2) by (simp add: demo_info_def)
  have "distinct (map si_id (list_stations demo_manager Custom None))" by code_simp
  with station_list_follows_server [OF demo_manager_inv s(1), of m' out demo_observer "demo_client_env True" 0] r new s(2)
  show ?thesis by (auto simp: demo_observer_own demo_observer_stations)
qed

section \<open>A client that is moved\<close>

text \<open>
  Client 2 takes over the approach, which only VATSIM staffed so far. The
  synchronisation sends it the new station list and then, as to everybody, the change that brings
  the approach's station online: the client holds that station twice.
\<close>

theorem moved_client_duplicates_station:
  "case sync_vatsim_state 200 [demo_controller ''1'' ''LOWW_TWR'' ''119.400'' Tower, demo_controller ''2'' ''LOWW_APP'' ''134.675'' Approach]
          False demo_manager of
     (m', out, _) \<Rightarrow>
       map si_id (ap_stations (handle_all (demo_client_env True) 0 (received (ClientId ''2'') out) demo_observer)) =
         [StationId ''LOWW_APP'', StationId ''LOWW_TWR'', StationId ''LOWW_APP''] \<and>
       map si_id (list_stations m' Custom (Some (PositionId ''LOWW_APP''))) = [StationId ''LOWW_APP'', StationId ''LOWW_TWR'']"
  by code_simp

end
