(* ===== verification/Releases.thy ===== *)
theory Releases
  imports RateLimit "HOL-Library.Sublist"
begin

text \<open>
  Releases of the client program: the release types of
  \<^verbatim>\<open>vacs-protocol/src/http/version.rs\<close> and \<^verbatim>\<open>vacs-server/src/release/catalog.rs\<close>, the
  update policy of \<^verbatim>\<open>release/policy.rs\<close> and the catalog read from a manifest file,
  \<^verbatim>\<open>release/catalog/file.rs\<close>. Strings are the bytes of their UTF-8 encoding. The crate
  \<^verbatim>\<open>semver\<close> is a parameter, the record \<open>semver\<close>: versions are an arbitrary linear order
  (\<^verbatim>\<open>Version: Ord\<close>), version requirements an arbitrary type with a parser, a matching test
  and the list of their comparators' operators. A configuration file is what reading and
  deserialising it yields. Hash maps read from a file are association lists in iteration order.
  Of an error only the variant of \<^verbatim>\<open>AppError\<close> is kept, not its text.

  The interface \<open>catalog\<close> is the trait \<^verbatim>\<open>Catalog\<close>: what the update checker relies on.
\<close>

section \<open>Strings\<close>

definition to_ascii_lowercase :: "string \<Rightarrow> string" where
  "to_ascii_lowercase s =
     map (\<lambda>c. if of_char c \<ge> (65::nat) \<and> of_char c \<le> (90::nat) then char_of (of_char c + 32 :: nat) else c) s"

text \<open>The encodings of the characters with the property \<^verbatim>\<open>White_Space\<close>, which \<^verbatim>\<open>str::trim\<close> removes.\<close>

definition white_space :: "string list" where
  "white_space =
     map (map char_of)
       ([[9], [10], [11], [12], [13], [32], [0xC2, 0x85], [0xC2, 0xA0], [0xE1, 0x9A, 0x80]] @
        map (\<lambda>n. [0xE2, 0x80, n]) [0x80..<0x8B] @
        [[0xE2, 0x80, 0xA8], [0xE2, 0x80, 0xA9], [0xE2, 0x80, 0xAF], [0xE2, 0x81, 0x9F], [0xE3, 0x80, 0x80 :: nat]])"

function strip_prefixes :: "string list \<Rightarrow> string \<Rightarrow> string" where
  "strip_prefixes ws s =
     (case find (\<lambda>w. w \<noteq> [] \<and> prefix w s) ws of
        None \<Rightarrow> s
      | Some w \<Rightarrow> strip_prefixes ws (drop (length w) s))"
  by pat_completeness auto

termination strip_prefixes
  by (relation "measure (\<lambda>(ws, s). length s)") (auto simp: find_Some_iff prefix_def)

declare strip_prefixes.simps [simp del]

definition trim :: "string \<Rightarrow> string" where
  "trim s = rev (strip_prefixes (map rev white_space) (rev (strip_prefixes white_space s)))"

section \<open>Release channels\<close>

datatype release_channel = Stable | Beta | Rc

definition release_channel_default :: release_channel where
  "release_channel_default = Stable"

fun release_channel_as_str :: "release_channel \<Rightarrow> string" where
  "release_channel_as_str Stable = ''stable''"
| "release_channel_as_str Beta = ''beta''"
| "release_channel_as_str Rc = ''rc''"

definition release_channel_from_str :: "string \<Rightarrow> string + release_channel" where
  "release_channel_from_str s =
     (let t = to_ascii_lowercase (trim s)
      in if t = ''stable'' then Inr Stable
         else if t = ''beta'' then Inr Beta
         else if t = ''rc'' \<or> t = ''dev'' then Inr Rc
         else Inl (''unknown release channel '' @ s))"

text \<open>The release a client is told to install.\<close>

record release =
  r_version :: string
  r_required :: bool
  r_url :: string
  r_signature :: string
  r_notes :: "string option"
  r_pub_date :: "string option"

section \<open>Bundles, assets and releases\<close>

datatype bundle_type = UnknownBundle | AppImage | Deb | Rpm | AppBundle | Msi | Nsis

fun bundle_type_as_str :: "bundle_type \<Rightarrow> string" where
  "bundle_type_as_str UnknownBundle = ''unknown''"
| "bundle_type_as_str AppImage = ''appimage''"
| "bundle_type_as_str Deb = ''deb''"
| "bundle_type_as_str Rpm = ''rpm''"
| "bundle_type_as_str AppBundle = ''app''"
| "bundle_type_as_str Msi = ''msi''"
| "bundle_type_as_str Nsis = ''nsis''"

fun bundle_type_target :: "bundle_type \<Rightarrow> string" where
  "bundle_type_target UnknownBundle = ''unknown''"
| "bundle_type_target AppImage = ''linux''"
| "bundle_type_target Deb = ''linux''"
| "bundle_type_target Rpm = ''linux''"
| "bundle_type_target AppBundle = ''darwin''"
| "bundle_type_target Msi = ''windows''"
| "bundle_type_target Nsis = ''windows''"

definition bundle_type_from_str :: "string \<Rightarrow> string + bundle_type" where
  "bundle_type_from_str s =
     (let t = to_ascii_lowercase (trim s)
      in if t = ''unknown'' then Inr UnknownBundle
         else if t = ''appimage'' then Inr AppImage
         else if t = ''deb'' then Inr Deb
         else if t = ''rpm'' then Inr Rpm
         else if t = ''app'' then Inr AppBundle
         else if t = ''msi'' then Inr Msi
         else if t = ''nsis'' then Inr Nsis
         else Inl (''unknown bundle type '' @ s))"

definition bundle_type_from_file_name :: "string \<Rightarrow> bundle_type option" where
  "bundle_type_from_file_name file_name0 =
     (let file_name = to_ascii_lowercase file_name0
      in if suffix ''.appimage'' file_name then Some AppImage
         else if suffix ''.deb'' file_name then Some Deb
         else if suffix ''.rpm'' file_name then Some Rpm
         else if suffix ''.app.tar.gz'' file_name then Some AppBundle
         else if suffix ''.exe'' file_name then Some Nsis
         else if suffix ''.msi'' file_name then Some Msi
         else None)"

record release_asset =
  ra_name :: string
  ra_target :: string
  ra_arch :: string
  ra_bundle_type :: bundle_type
  ra_url :: string
  ra_signature :: "string option"

record 'v release_meta =
  rm_id :: u64
  rm_version :: 'v
  rm_channel :: release_channel
  rm_required :: bool
  rm_notes :: "string option"
  rm_pub_date :: "string option"
  rm_assets :: "release_asset list"

section \<open>Errors and versions\<close>

datatype http_error =
    BadRequest string
  | Unauthorized string
  | NotFound
  | TooManyRequests nat
  | InternalServerError

datatype comparator_op = OpExact | OpGreater | OpGreaterEq | OpLess | OpLessEq | OpTilde | OpCaret | OpWildcard

record ('v, 'r) semver =
  version_parse :: "string \<Rightarrow> 'v option"
  version_to_string :: "'v \<Rightarrow> string"
  version_pre :: "'v \<Rightarrow> string"
  req_parse :: "string \<Rightarrow> 'r option"
  req_default :: 'r
  req_matches :: "'r \<Rightarrow> 'v \<Rightarrow> bool"
  req_comparators :: "'r \<Rightarrow> comparator_op list"

section \<open>The update policy\<close>

record 'r release_policy =
  required_ranges :: "(release_channel, 'r list) hash_map"
  compatible_protocol_range :: 'r
  visibility :: "(release_channel, release_channel list) hash_map"

record raw_policy =
  raw_required_ranges :: "(string \<times> string list) list"
  raw_compatible_protocol_range :: "string option"
  raw_visibility :: "(string \<times> string list) list"

definition default_compatible_protocol_range :: string where
  "default_compatible_protocol_range = ''>=0.0.0''"

text \<open>A configuration file: not a regular file, not readable or not well formed, or its contents.\<close>

datatype 'a config_file = FileMissing | FileInvalid | FileRead 'a

text \<open>
  The two loops over a table of the raw policy: the values of an entry are parsed before its
  channel, the first failure ends the reload, and a later entry for the same channel wins.
\<close>

primrec parse_channel_table ::
  "(string \<Rightarrow> 'a option) \<Rightarrow> (string \<times> string list) list \<Rightarrow> (release_channel, 'a list) hash_map
     \<Rightarrow> (release_channel, 'a list) hash_map option" where
  "parse_channel_table parse [] m = Some m"
| "parse_channel_table parse (entry # entries) m =
     (case those (map parse (snd entry)) of
        None \<Rightarrow> None
      | Some parsed \<Rightarrow>
          (case release_channel_from_str (fst entry) of
             Inl _ \<Rightarrow> None
           | Inr channel \<Rightarrow> parse_channel_table parse entries (hm_insert channel parsed m)))"

definition parse_required_ranges ::
  "('v, 'r) semver \<Rightarrow> (string \<times> string list) list \<Rightarrow> (release_channel, 'r list) hash_map option" where
  "parse_required_ranges sv entries = parse_channel_table (req_parse sv) entries []"

definition parse_visibility ::
  "(string \<times> string list) list \<Rightarrow> (release_channel, release_channel list) hash_map option" where
  "parse_visibility entries =
     parse_channel_table (\<lambda>s. case release_channel_from_str s of Inl _ \<Rightarrow> None | Inr c \<Rightarrow> Some c) entries []"

definition default_visibility :: "(release_channel, release_channel list) hash_map" where
  "default_visibility = [(Stable, [Stable]), (Beta, [Beta, Stable]), (Rc, [Rc])]"

definition policy_reload ::
  "('v, 'r) semver \<Rightarrow> string \<Rightarrow> raw_policy config_file \<Rightarrow> 'r release_policy
     \<Rightarrow> 'r release_policy \<times> (http_error + unit)" where
  "policy_reload sv vacs_protocol_version file p =
     (case file of
        FileMissing \<Rightarrow> (p, Inr ())
      | FileInvalid \<Rightarrow> (p, Inl InternalServerError)
      | FileRead raw \<Rightarrow>
          (case parse_required_ranges sv (raw_required_ranges raw) of
             None \<Rightarrow> (p, Inl InternalServerError)
           | Some ranges \<Rightarrow>
               (case req_parse sv (case raw_compatible_protocol_range raw of
                                     Some s \<Rightarrow> s | None \<Rightarrow> default_compatible_protocol_range) of
                  None \<Rightarrow> (p, Inl InternalServerError)
                | Some compatible \<Rightarrow>
                    (case version_parse sv vacs_protocol_version of
                       None \<Rightarrow> (p, Inl InternalServerError)
                     | Some server_protocol_version \<Rightarrow>
                         if \<not> req_matches sv compatible server_protocol_version
                         then (p, Inl InternalServerError)
                         else if list_ex (\<lambda>op. op = OpLess \<or> op = OpLessEq) (req_comparators sv compatible)
                         then (p, Inl InternalServerError)
                         else (case parse_visibility (raw_visibility raw) of
                                 None \<Rightarrow> (p, Inl InternalServerError)
                               | Some vis \<Rightarrow>
                                   (let vis = (if vis = [] then default_visibility else vis);
                                        p = p\<lparr>required_ranges := ranges\<rparr>;
                                        p = p\<lparr>compatible_protocol_range := compatible\<rparr>;
                                        p = p\<lparr>visibility := vis\<rparr>
                                    in (p, Inr ())))))))"

definition policy_new_from ::
  "('v, 'r) semver \<Rightarrow> string \<Rightarrow> raw_policy config_file \<Rightarrow> http_error + 'r release_policy" where
  "policy_new_from sv vacs_protocol_version file =
     (case policy_reload sv vacs_protocol_version file
             \<lparr>required_ranges = [], compatible_protocol_range = req_default sv, visibility = []\<rparr> of
        (_, Inl err) \<Rightarrow> Inl err
      | (p, Inr _) \<Rightarrow> Inr p)"

definition visible_channels :: "'r release_policy \<Rightarrow> release_channel \<Rightarrow> release_channel list" where
  "visible_channels p channel =
     (case hm_get (visibility p) channel of Some channels \<Rightarrow> channels | None \<Rightarrow> [channel])"

definition is_required :: "('v, 'r) semver \<Rightarrow> 'r release_policy \<Rightarrow> release_channel \<Rightarrow> 'v \<Rightarrow> bool" where
  "is_required sv p channel version =
     list_ex (\<lambda>ch. case hm_get (required_ranges p) ch of
                     Some reqs \<Rightarrow> list_ex (\<lambda>req. req_matches sv req version) reqs
                   | None \<Rightarrow> False)
       (visible_channels p channel)"

definition is_compatible_protocol :: "('v, 'r) semver \<Rightarrow> 'r release_policy \<Rightarrow> 'v \<Rightarrow> bool" where
  "is_compatible_protocol sv p version = req_matches sv (compatible_protocol_range p) version"

section \<open>The catalog of a manifest file\<close>

record 'v manifest_release =
  mr_id :: u64
  mr_version :: 'v
  mr_required :: bool
  mr_notes :: "string option"
  mr_pub_date :: "string option"
  mr_assets :: "release_asset list"

record 'v manifest_per_channel =
  mf_stable :: "'v manifest_release list"
  mf_beta :: "'v manifest_release list"
  mf_rc :: "'v manifest_release list"

record 'v file_catalog =
  fc_stable :: "'v release_meta list"
  fc_beta :: "'v release_meta list"
  fc_rc :: "'v release_meta list"

definition assign_channel :: "release_channel \<Rightarrow> 'v manifest_release list \<Rightarrow> 'v release_meta list" where
  "assign_channel ch items =
     map (\<lambda>r. \<lparr>rm_id = mr_id r, rm_version = mr_version r, rm_channel = ch, rm_required = mr_required r,
               rm_notes = mr_notes r, rm_pub_date = mr_pub_date r, rm_assets = mr_assets r\<rparr>) items"

text \<open>
  \<^verbatim>\<open>sort_by\<close> is a stable sort; the loop then compares each release with its predecessor.
  The warnings about missing assets and signatures have no effect.
\<close>

primrec duplicate_after :: "'v \<Rightarrow> 'v release_meta list \<Rightarrow> bool" where
  "duplicate_after previous [] = False"
| "duplicate_after previous (m # ms) = (previous = rm_version m \<or> duplicate_after (rm_version m) ms)"

definition validate_and_sort :: "('v :: linorder) release_meta list \<Rightarrow> http_error + 'v release_meta list" where
  "validate_and_sort v =
     (case sort_key rm_version v of
        [] \<Rightarrow> Inr []
      | m # ms \<Rightarrow> if duplicate_after (rm_version m) ms then Inl InternalServerError else Inr (m # ms))"

definition file_catalog_reload ::
  "('v :: linorder) manifest_per_channel config_file \<Rightarrow> 'v file_catalog \<Rightarrow> 'v file_catalog \<times> (http_error + unit)" where
  "file_catalog_reload file c =
     (case file of
        FileMissing \<Rightarrow> (c, Inr ())
      | FileInvalid \<Rightarrow> (c, Inl InternalServerError)
      | FileRead manifest \<Rightarrow>
          (case validate_and_sort (assign_channel Stable (mf_stable manifest)) of
             Inl err \<Rightarrow> (c, Inl err)
           | Inr stables \<Rightarrow>
               (case validate_and_sort (assign_channel Beta (mf_beta manifest)) of
                  Inl err \<Rightarrow> (c, Inl err)
                | Inr betas \<Rightarrow>
                    (case validate_and_sort (assign_channel Rc (mf_rc manifest)) of
                       Inl err \<Rightarrow> (c, Inl err)
                     | Inr rcs \<Rightarrow> (c\<lparr>fc_stable := stables, fc_beta := betas, fc_rc := rcs\<rparr>, Inr ())))))"

definition file_catalog_new ::
  "('v :: linorder) manifest_per_channel config_file \<Rightarrow> http_error + 'v file_catalog" where
  "file_catalog_new file =
     (case file_catalog_reload file \<lparr>fc_stable = [], fc_beta = [], fc_rc = []\<rparr> of
        (_, Inl err) \<Rightarrow> Inl err
      | (c, Inr _) \<Rightarrow> Inr c)"

fun file_releases :: "'v file_catalog \<Rightarrow> release_channel \<Rightarrow> 'v release_meta list" where
  "file_releases c Stable = fc_stable c"
| "file_releases c Beta = fc_beta c"
| "file_releases c Rc = fc_rc c"

definition file_catalog_list ::
  "'v file_catalog \<Rightarrow> release_channel \<Rightarrow> 'v file_catalog \<times> (http_error + 'v release_meta list)" where
  "file_catalog_list c channel = (c, Inr (file_releases c channel))"

definition file_catalog_load_signature ::
  "'v file_catalog \<Rightarrow> 'v release_meta \<Rightarrow> release_asset \<Rightarrow> 'v file_catalog \<times> (http_error + string)" where
  "file_catalog_load_signature c meta asset =
     (c, Inr (case ra_signature asset of Some sig \<Rightarrow> sig | None \<Rightarrow> []))"

definition file_catalog_refresh ::
  "('v :: linorder) manifest_per_channel config_file \<Rightarrow> 'v file_catalog \<Rightarrow> 'v file_catalog \<times> (http_error + unit)" where
  "file_catalog_refresh file c = file_catalog_reload file c"

section \<open>The interface of a catalog\<close>

text \<open>
  What the update checker uses of a \<^verbatim>\<open>Catalog\<close>: while the catalog is steady (nothing makes it
  reload between two calls), \<^verbatim>\<open>list\<close> answers, and answers the same for the same channel.
\<close>

locale catalog =
  fixes list_op :: "'c \<Rightarrow> release_channel \<Rightarrow> 'c \<times> (http_error + ('v :: linorder) release_meta list)"
    and listed :: "'c \<Rightarrow> release_channel \<Rightarrow> 'v release_meta list"
    and steady :: "'c \<Rightarrow> bool"
  assumes list_answers: "steady c \<Longrightarrow> snd (list_op c channel) = Inr (listed c channel)"
    and list_keeps: "steady c \<Longrightarrow> listed (fst (list_op c channel)) = listed c"
    and list_steady: "steady c \<Longrightarrow> steady (fst (list_op c channel))"
begin

lemma list_cases:
  assumes "steady c"
  obtains c' where "list_op c channel = (c', Inr (listed c channel))" "listed c' = listed c" "steady c'"
  using assms list_answers [of c channel] list_keeps [of c channel] list_steady [of c channel]
  by (cases "list_op c channel") auto

end

interpretation file_catalog: catalog file_catalog_list file_releases "\<lambda>_. True"
  by unfold_locales (simp_all add: file_catalog_list_def)

section \<open>Properties\<close>

definition plain :: "char \<Rightarrow> bool" where
  "plain c \<longleftrightarrow> (33::nat) \<le> of_char c \<and> of_char c < (128::nat)"

lemma white_space_not_plain: "\<forall>w \<in> set white_space. w \<noteq> [] \<and> \<not> plain (hd w) \<and> \<not> plain (last w)"
  by code_simp

lemma strip_prefixes_plain:
  assumes "\<And>w. w \<in> set ws \<Longrightarrow> \<not> plain (hd w)" and "s \<noteq> [] \<Longrightarrow> plain (hd s)"
  shows "strip_prefixes ws s = s"
proof -
  have "\<not> prefix w s" if "w \<in> set ws" "w \<noteq> []" for w
    using assms(1) [OF that(1)] assms(2) that(2) by (auto simp: prefix_def)
  then have "find (\<lambda>w. w \<noteq> [] \<and> prefix w s) ws = None" by (auto simp: find_None_iff)
  then show ?thesis by (simp add: strip_prefixes.simps)
qed

lemma trim_plain [simp]:
  assumes "list_all plain s"
  shows "trim s = s"
proof -
  have "strip_prefixes white_space s = s"
    by (rule strip_prefixes_plain) (use white_space_not_plain assms in \<open>auto simp: list_all_iff\<close>)
  moreover have "strip_prefixes (map rev white_space) (rev s) = rev s"
    by (rule strip_prefixes_plain) (use white_space_not_plain assms in \<open>auto simp: list_all_iff hd_rev\<close>)
  ultimately show ?thesis by (simp add: trim_def)
qed

text \<open>Printing and parsing of channels and bundle types agree.\<close>

lemma release_channel_roundtrip: "release_channel_from_str (release_channel_as_str channel) = Inr channel"
  by (cases channel) (simp_all add: release_channel_from_str_def plain_def to_ascii_lowercase_def)

lemma bundle_type_roundtrip: "bundle_type_from_str (bundle_type_as_str b) = Inr b"
  by (cases b) (simp_all add: bundle_type_from_str_def plain_def to_ascii_lowercase_def)

lemma bundle_type_from_file_name_known:
  "bundle_type_from_file_name name = Some bundle \<Longrightarrow> bundle \<noteq> UnknownBundle \<and> bundle_type_target bundle \<in> {''linux'', ''darwin'', ''windows''}"
  by (auto simp: bundle_type_from_file_name_def Let_def split: if_splits)

subsection \<open>Manifests\<close>

lemma no_duplicate_after_iff:
  "sorted (previous # map rm_version ms) \<Longrightarrow>
     duplicate_after previous ms \<longleftrightarrow> \<not> distinct (previous # map rm_version ms)"
proof (induction ms arbitrary: previous)
  case (Cons m ms)
  then have "duplicate_after (rm_version m) ms \<longleftrightarrow> \<not> distinct (map rm_version (m # ms))" by simp
  moreover have "previous \<in> set (map rm_version ms) \<Longrightarrow> previous = rm_version m"
    using Cons.prems by (fastforce intro: antisym)
  ultimately show ?case by auto
qed simp

lemma distinct_map_sort_key [simp]: "distinct (map f (sort_key f xs)) = distinct (map f xs)"
  by (simp add: distinct_map)

lemma validate_and_sort_iff:
  "validate_and_sort v =
     (if distinct (map rm_version v) then Inr (sort_key rm_version v) else Inl InternalServerError)"
proof (cases "sort_key rm_version v")
  case Nil
  then have "v = []" by (metis length_0_conv length_sort)
  then show ?thesis by (simp add: validate_and_sort_def)
next
  case (Cons m ms)
  have "sorted (rm_version m # map rm_version ms)" using sorted_sort_key [of rm_version v] Cons by simp
  then have "duplicate_after (rm_version m) ms \<longleftrightarrow> \<not> distinct (map rm_version (sort_key rm_version v))"
    unfolding Cons by (simp add: no_duplicate_after_iff)
  then have "duplicate_after (rm_version m) ms \<longleftrightarrow> \<not> distinct (map rm_version v)"
    unfolding distinct_map_sort_key .
  then show ?thesis unfolding validate_and_sort_def Cons by simp
qed

definition manifest_distinct :: "'v manifest_per_channel \<Rightarrow> bool" where
  "manifest_distinct m \<longleftrightarrow>
     distinct (map mr_version (mf_stable m)) \<and> distinct (map mr_version (mf_beta m)) \<and> distinct (map mr_version (mf_rc m))"

fun manifest_of :: "'v manifest_per_channel \<Rightarrow> release_channel \<Rightarrow> 'v manifest_release list" where
  "manifest_of m Stable = mf_stable m"
| "manifest_of m Beta = mf_beta m"
| "manifest_of m Rc = mf_rc m"

lemma versions_assign_channel [simp]: "map rm_version (assign_channel ch items) = map mr_version items"
  by (simp add: assign_channel_def comp_def)

text \<open>
  A manifest is loaded exactly when no channel lists a version twice; the catalog then lists each
  channel's releases by ascending version. Otherwise, and when the file is missing or unreadable,
  the catalog stays as it was.
\<close>

theorem file_catalog_reload_exact:
  "case file_catalog_reload file_read c of
     (c', Inr _) \<Rightarrow>
       (case file_read of
          FileRead m \<Rightarrow> manifest_distinct m \<and>
            (\<forall>ch. file_releases c' ch = sort_key rm_version (assign_channel ch (manifest_of m ch)))
        | _ \<Rightarrow> file_read = FileMissing \<and> c' = c)
   | (c', Inl _) \<Rightarrow> c' = c \<and>
       (case file_read of FileRead m \<Rightarrow> \<not> manifest_distinct m | _ \<Rightarrow> file_read = FileInvalid)"
proof (cases file_read)
  case (FileRead m)
  have "file_releases c' ch = sort_key rm_version (assign_channel ch (manifest_of m ch))"
    if "fc_stable c' = sort_key rm_version (assign_channel Stable (mf_stable m))"
      "fc_beta c' = sort_key rm_version (assign_channel Beta (mf_beta m))"
      "fc_rc c' = sort_key rm_version (assign_channel Rc (mf_rc m))" for c' ch
    using that by (cases ch) simp_all
  then show ?thesis
    using FileRead by (simp add: file_catalog_reload_def manifest_distinct_def validate_and_sort_iff)
qed (simp_all add: file_catalog_reload_def)

lemma file_releases_sorted:
  assumes "file_catalog_reload (FileRead m) c = (c', Inr u)"
  shows "sorted_wrt (<) (map rm_version (file_releases c' ch))" and "\<forall>r \<in> set (file_releases c' ch). rm_channel r = ch"
proof -
  have eq: "file_releases c' ch = sort_key rm_version (assign_channel ch (manifest_of m ch))"
    and d: "manifest_distinct m" using file_catalog_reload_exact [where file_read = "FileRead m" and c = c] assms by simp_all
  have "distinct (map rm_version (assign_channel ch (manifest_of m ch)))"
    using d by (cases ch) (simp_all add: manifest_distinct_def)
  then show "sorted_wrt (<) (map rm_version (file_releases c' ch))"
    by (simp add: eq strict_sorted_iff)
  show "\<forall>r \<in> set (file_releases c' ch). rm_channel r = ch" by (auto simp: eq assign_channel_def)
qed

text \<open>A release without a signature in the manifest is offered with an empty one.\<close>

theorem file_signature_missing_is_empty:
  "file_catalog_load_signature c m (a\<lparr>ra_signature := None\<rparr>) = (c, Inr [])"
  by (simp add: file_catalog_load_signature_def)

subsection \<open>The policy\<close>

lemma hm_insert_not_Nil [simp]: "hm_insert k v m \<noteq> []"
  by (cases m) (auto simp: hm_insert_def)

lemma parse_channel_table_Nil:
  "parse_channel_table parse entries m = Some [] \<Longrightarrow> entries = [] \<and> m = []"
proof (induction entries arbitrary: m)
  case (Cons entry entries)
  then show ?case by (fastforce split: option.splits sum.splits)
qed simp

lemma parse_visibility_Nil: "parse_visibility entries = Some [] \<longleftrightarrow> entries = []"
  by (auto simp: parse_visibility_def dest: parse_channel_table_Nil)

lemma parse_channel_table_order:
  "parse_visibility [(''rc'', [''rc'']), (''dev'', [''stable''])] = Some [(Rc, [Stable])] \<and>
   parse_visibility [(''dev'', [''stable'']), (''rc'', [''rc''])] = Some [(Rc, [Rc])]"
  by (simp add: parse_visibility_def release_channel_from_str_def plain_def to_ascii_lowercase_def hm_insert_def)

lemma policy_reload_failed: "policy_reload sv own file_read p = (p', Inl err) \<Longrightarrow> p' = p"
  unfolding policy_reload_def Let_def
  by (simp split: config_file.split_asm option.split_asm if_split_asm)

text \<open>The range of compatible versions a file names, or the default one, and the files whose policy can be installed.\<close>

definition protocol_range_of :: "raw_policy \<Rightarrow> string" where
  "protocol_range_of raw =
     (case raw_compatible_protocol_range raw of Some s \<Rightarrow> s | None \<Rightarrow> default_compatible_protocol_range)"

definition policy_acceptable :: "('v, 'r) semver \<Rightarrow> string \<Rightarrow> raw_policy \<Rightarrow> bool" where
  "policy_acceptable sv own raw \<longleftrightarrow>
     parse_required_ranges sv (raw_required_ranges raw) \<noteq> None \<and> parse_visibility (raw_visibility raw) \<noteq> None \<and>
     (\<exists>compatible v. req_parse sv (protocol_range_of raw) = Some compatible \<and> version_parse sv own = Some v \<and>
        req_matches sv compatible v \<and> set (req_comparators sv compatible) \<inter> {OpLess, OpLessEq} = {})"

lemma policy_reload_okE:
  assumes "policy_reload sv own (FileRead raw) p = (p', Inr u)"
  obtains v where "parse_required_ranges sv (raw_required_ranges raw) = Some (required_ranges p')"
    "req_parse sv (protocol_range_of raw) = Some (compatible_protocol_range p')"
    "version_parse sv own = Some v" "req_matches sv (compatible_protocol_range p') v"
    "set (req_comparators sv (compatible_protocol_range p')) \<inter> {OpLess, OpLessEq} = {}"
    "if raw_visibility raw = [] then visibility p' = default_visibility
     else parse_visibility (raw_visibility raw) = Some (visibility p')"
proof -
  from assms obtain ranges compatible v vis where
    p: "parse_required_ranges sv (raw_required_ranges raw) = Some ranges" "version_parse sv own = Some v"
      "req_parse sv (protocol_range_of raw) = Some compatible"
      "req_matches sv compatible v" "\<not> list_ex (\<lambda>op. op = OpLess \<or> op = OpLessEq) (req_comparators sv compatible)"
      "parse_visibility (raw_visibility raw) = Some vis"
      "p' = p\<lparr>required_ranges := ranges, compatible_protocol_range := compatible,
                visibility := (if vis = [] then default_visibility else vis)\<rparr>"
    unfolding policy_reload_def protocol_range_of_def [symmetric] Let_def by (simp split: option.split_asm if_split_asm)
  show thesis
  proof (rule that)
    show "if raw_visibility raw = [] then visibility p' = default_visibility
     else parse_visibility (raw_visibility raw) = Some (visibility p')"
      using p(6,7) parse_visibility_Nil [of "raw_visibility raw"] by auto
    show "set (req_comparators sv (compatible_protocol_range p')) \<inter> {OpLess, OpLessEq} = {}"
      using p(5,7) by (auto simp: list_ex_iff)
  qed (use p in simp_all)
qed

lemma parse_visibility_empty [simp]: "parse_visibility [] = Some []"
  by (simp add: parse_visibility_Nil)

lemma policy_reload_failsD:
  assumes "policy_reload sv own (FileRead raw) p = (p', Inl err)"
  shows "\<not> policy_acceptable sv own raw"
proof
  assume "policy_acceptable sv own raw"
  then obtain ranges vis compatible v where
    "parse_required_ranges sv (raw_required_ranges raw) = Some ranges" "parse_visibility (raw_visibility raw) = Some vis"
    "req_parse sv (protocol_range_of raw) = Some compatible" "version_parse sv own = Some v" "req_matches sv compatible v"
    "\<not> list_ex (\<lambda>op. op = OpLess \<or> op = OpLessEq) (req_comparators sv compatible)"
    by (fastforce simp: policy_acceptable_def list_ex_iff)
  then show False using assms unfolding policy_reload_def protocol_range_of_def [symmetric] by (simp add: Let_def)
qed

text \<open>
  C34: A policy reload fails exactly when the file cannot be read or its policy is not acceptable, and then it
  keeps the policy. A missing file is no failure and changes nothing either. Otherwise everything the file
  says is installed: the required versions, the range of compatible protocol versions it names (or the default
  range), and the visible channels it names (or the default ones). Then the server's own protocol version is
  compatible, and the range has no upper bound written as a comparator.
\<close>

theorem policy_reload_sound:
  "case policy_reload sv own file_read p of
     (p', Inl _) \<Rightarrow>
       p' = p \<and> (file_read = FileInvalid \<or> (\<exists>raw. file_read = FileRead raw \<and> \<not> policy_acceptable sv own raw))
   | (p', Inr _) \<Rightarrow>
       (case file_read of
          FileRead raw \<Rightarrow>
            policy_acceptable sv own raw \<and>
            parse_required_ranges sv (raw_required_ranges raw) = Some (required_ranges p') \<and>
            req_parse sv (case raw_compatible_protocol_range raw of Some s \<Rightarrow> s | None \<Rightarrow> default_compatible_protocol_range) =
              Some (compatible_protocol_range p') \<and>
            (\<exists>v. version_parse sv own = Some v \<and> is_compatible_protocol sv p' v) \<and>
            set (req_comparators sv (compatible_protocol_range p')) \<inter> {OpLess, OpLessEq} = {} \<and>
            (if raw_visibility raw = [] then visibility p' = default_visibility
             else parse_visibility (raw_visibility raw) = Some (visibility p'))
        | _ \<Rightarrow> file_read = FileMissing \<and> p' = p)"
proof (cases file_read)
  case (FileRead raw)
  show ?thesis
  proof (cases "policy_reload sv own file_read p")
    case (Pair p' res)
    show ?thesis
    proof (cases res)
      case (Inl err)
      with Pair FileRead policy_reload_failsD [of sv own raw p p' err] show ?thesis by (simp add: policy_reload_failed)
    next
      case (Inr u)
      with Pair FileRead show ?thesis
        by (auto simp: is_compatible_protocol_def policy_acceptable_def protocol_range_of_def
          split: if_splits elim!: policy_reload_okE)
    qed
  qed
qed (simp_all add: policy_reload_def)

lemma missing_policy_isolates:
  "policy_new_from sv own FileMissing = Inr p \<Longrightarrow> visible_channels p ch = [ch] \<and> \<not> is_required sv p ch v"
  by (auto simp: policy_new_from_def policy_reload_def visible_channels_def is_required_def)

lemma default_visibility_channels:
  "visibility p = default_visibility \<Longrightarrow> visible_channels p ch = (if ch = Beta then [Beta, Stable] else [ch])"
  by (cases ch) (simp_all add: visible_channels_def default_visibility_def)

end
