(* ===== verification/GithubCatalog.thy ===== *)
theory GithubCatalog
  imports Releases "HOL-Library.Multiset"
begin

text \<open>
  The catalog of the releases on GitHub, \<^verbatim>\<open>vacs-server/src/release/catalog/github.rs\<close>. What the
  catalog asks of the outside, the crates \<^verbatim>\<open>octocrab\<close> and \<^verbatim>\<open>reqwest\<close> and the clock, is the
  record \<open>github_api\<close>: the answer to the \<open>n\<close>-th call the catalog makes, \<open>gh_calls\<close> counting
  them. The cache of signatures (crate \<^verbatim>\<open>lru\<close>) is the record \<open>lru\<close> of its operations. The
  regular expressions of the source are written out as functions on strings.
\<close>

section \<open>The outside of the catalog\<close>

record gh_asset =
  ga_name :: string
  ga_browser_download_url :: string

record gh_release =
  gr_id :: u64
  gr_tag_name :: string
  gr_name :: "string option"
  gr_body :: "string option"
  gr_draft :: bool
  gr_prerelease :: bool
  gr_published_at :: "nat option"
  gr_assets :: "gh_asset list"

record gh_page =
  pg_items :: "gh_release list"
  pg_next :: "string option"

datatype http_response = SendFailed | Responded nat "string option"

text \<open>
  \<open>api_get_page\<close> answers \<^verbatim>\<open>None\<close> on an error and \<^verbatim>\<open>Some None\<close> when there is no further page;
  \<open>api_completion\<close> is the order in which concurrent downloads complete.
\<close>

record github_api =
  api_now :: "nat \<Rightarrow> instant"
  api_list_releases :: "nat \<Rightarrow> gh_page option"
  api_get_page :: "nat \<Rightarrow> string option \<Rightarrow> gh_page option option"
  api_get :: "nat \<Rightarrow> string \<Rightarrow> http_response"
  api_completion :: "nat \<Rightarrow> string list \<Rightarrow> string list"
  api_to_rfc3339 :: "nat \<Rightarrow> string"

record 's lru =
  lru_new :: "nat \<Rightarrow> 's"
  lru_get :: "string \<Rightarrow> 's \<Rightarrow> 's \<times> (instant \<times> string) option"
  lru_put :: "string \<Rightarrow> instant \<times> string \<Rightarrow> 's \<Rightarrow> 's"
  lru_pop :: "string \<Rightarrow> 's \<Rightarrow> 's"

section \<open>Constants and regular expressions\<close>

definition GITHUB_RELEASE_BODY_REQUIRED_UPDATE_FLAG :: string where
  "GITHUB_RELEASE_BODY_REQUIRED_UPDATE_FLAG = ''## Mandatory Update''"

definition GITHUB_RELEASE_BODY_BREAKING_CHANGES_FLAG :: string where
  "GITHUB_RELEASE_BODY_BREAKING_CHANGES_FLAG =
     ''### '' @ [CHR 0xE2, CHR 0x9A, CHR 0xA0] @ '' BREAKING CHANGES''"

definition MAX_PAGINATION_PAGES :: nat where
  "MAX_PAGINATION_PAGES = 10"

definition SIGNATURE_CACHE_SIZE :: nat where
  "SIGNATURE_CACHE_SIZE = 100"

text \<open>
  The digits of the pattern, of which only the ASCII ones matter: a version with any other digit is not
  parsed, so its release is ignored either way.
\<close>

definition is_digit :: "char \<Rightarrow> bool" where
  "is_digit c \<longleftrightarrow> (48::nat) \<le> of_char c \<and> of_char c \<le> (57::nat)"

text \<open>\<^verbatim>\<open>\d+\<close> followed by the given character, and what comes after both.\<close>

definition digits_before :: "char \<Rightarrow> string \<Rightarrow> (string \<times> string) option" where
  "digits_before c s =
     (case dropWhile is_digit s of
        d # rest \<Rightarrow> if takeWhile is_digit s \<noteq> [] \<and> d = c then Some (takeWhile is_digit s @ [c], rest) else None
      | [] \<Rightarrow> None)"

text \<open>\<^verbatim>\<open>\d+\.\d+\.\d+(?:[-+].*)?\<close> at the start of a string: the match and the rest.\<close>

definition semver_prefix :: "string \<Rightarrow> (string \<times> string) option" where
  "semver_prefix s =
     (case digits_before (CHR ''.'') s of
        None \<Rightarrow> None
      | Some (major, s) \<Rightarrow>
          (case digits_before (CHR ''.'') s of
             None \<Rightarrow> None
           | Some (minor, s) \<Rightarrow>
               (let patch = takeWhile is_digit s; s = dropWhile is_digit s
                in if patch = [] then None
                   else (case s of
                           c # s' \<Rightarrow>
                             if c = CHR ''-'' \<or> c = CHR ''+''
                             then Some (major @ minor @ patch @ c # takeWhile (\<lambda>d. d \<noteq> CHR 0x0A) s',
                                        dropWhile (\<lambda>d. d \<noteq> CHR 0x0A) s')
                             else Some (major @ minor @ patch, s)
                         | [] \<Rightarrow> Some (major @ minor @ patch, [])))))"

text \<open>The title pattern \<^verbatim>\<open>^vacs(-client)?:?[ -]v(?P<version>...)$\<close>: the captured version.\<close>

definition strip_if_prefix :: "string \<Rightarrow> string \<Rightarrow> string" where
  "strip_if_prefix p s = (if prefix p s then drop (length p) s else s)"

definition title_pattern :: "string \<Rightarrow> string option" where
  "title_pattern title =
     (if \<not> prefix ''vacs'' title then None
      else (case strip_if_prefix '':'' (strip_if_prefix ''-client'' (drop 4 title)) of
              c # d # s \<Rightarrow>
                if (c = CHR '' '' \<or> c = CHR ''-'') \<and> d = CHR ''v''
                then (case semver_prefix s of Some (version, []) \<Rightarrow> Some version | _ \<Rightarrow> None)
                else None
            | _ \<Rightarrow> None))"

text \<open>The unanchored \<^verbatim>\<open>v?(?P<version>...)\<close>: the version at the leftmost place it matches.\<close>

fun semver_search :: "string \<Rightarrow> string option" where
  "semver_search [] = None"
| "semver_search (c # s) =
     (case semver_prefix (c # s) of Some (version, _) \<Rightarrow> Some version | None \<Rightarrow> semver_search s)"

section \<open>Reading a release\<close>

definition parse_release_version :: "('v, 'r) semver \<Rightarrow> string \<Rightarrow> string \<Rightarrow> 'v option" where
  "parse_release_version sv title tag =
     (case (case title_pattern title of
              Some s \<Rightarrow> Some s
            | None \<Rightarrow> (case semver_search title of Some s \<Rightarrow> Some s | None \<Rightarrow> semver_search tag)) of
        Some s \<Rightarrow> version_parse sv s
      | None \<Rightarrow> None)"

definition derive_release_channel :: "('v, 'r) semver \<Rightarrow> 'v \<Rightarrow> bool \<Rightarrow> release_channel" where
  "derive_release_channel sv version prerelease =
     (if prerelease \<or> version_pre sv version \<noteq> []
      then if prefix ''rc'' (to_ascii_lowercase (version_pre sv version)) then Rc else Beta
      else Stable)"

definition is_release_required :: "string option \<Rightarrow> bool" where
  "is_release_required body =
     (case body of
        Some body \<Rightarrow> sublist GITHUB_RELEASE_BODY_REQUIRED_UPDATE_FLAG body \<or>
                     sublist GITHUB_RELEASE_BODY_BREAKING_CHANGES_FLAG body
      | None \<Rightarrow> False)"

definition derive_release_asset_arch :: "string \<Rightarrow> string option" where
  "derive_release_asset_arch asset_name =
     (let name = to_ascii_lowercase asset_name
      in if sublist ''x86_64'' name \<or> sublist ''amd64'' name \<or> sublist ''x64'' name then Some ''x86_64''
         else if sublist ''aarch64'' name \<or> sublist ''arm64'' name then Some ''aarch64''
         else if sublist ''armv7'' name then Some ''armv7''
         else None)"

text \<open>
  \<^verbatim>\<open>^SHA256SUMS|(?i)\.sig$\<close>. A case-insensitive \<^verbatim>\<open>s\<close> also matches the letter U+017F.
\<close>

definition is_checksum_or_signature :: "string \<Rightarrow> bool" where
  "is_checksum_or_signature name \<longleftrightarrow>
     prefix ''SHA256SUMS'' name \<or> suffix ''.sig'' (to_ascii_lowercase name) \<or>
     suffix (''.'' @ [CHR 0xC5, CHR 0xBF] @ ''ig'') (to_ascii_lowercase name)"

definition filter_map_release_asset :: "gh_asset \<Rightarrow> release_asset option" where
  "filter_map_release_asset asset =
     (if is_checksum_or_signature (ga_name asset) then None
      else (case bundle_type_from_file_name (ga_name asset) of
              None \<Rightarrow> None
            | Some bundle_type \<Rightarrow>
                (case derive_release_asset_arch (ga_name asset) of
                   None \<Rightarrow> None
                 | Some arch \<Rightarrow>
                     Some \<lparr>ra_name = ga_name asset, ra_target = bundle_type_target bundle_type, ra_arch = arch,
                           ra_bundle_type = bundle_type, ra_url = ga_browser_download_url asset, ra_signature = None\<rparr>)))"

definition filter_map_release :: "('v, 'r) semver \<Rightarrow> github_api \<Rightarrow> gh_release \<Rightarrow> 'v release_meta option" where
  "filter_map_release sv api release =
     (if gr_draft release then None
      else (case gr_name release of
              None \<Rightarrow> None
            | Some title \<Rightarrow>
                if title_pattern title = None then None
                else (case parse_release_version sv title (gr_tag_name release) of
                        None \<Rightarrow> None
                      | Some version \<Rightarrow>
                          (let channel = derive_release_channel sv version (gr_prerelease release);
                               assets = List.map_filter filter_map_release_asset (gr_assets release)
                           in if assets = [] then None
                              else Some \<lparr>rm_id = gr_id release, rm_version = version, rm_channel = channel,
                                         rm_required = is_release_required (gr_body release),
                                         rm_notes = gr_body release,
                                         rm_pub_date = map_option (api_to_rfc3339 api) (gr_published_at release),
                                         rm_assets = assets\<rparr>))))"

section \<open>The state of the catalog\<close>

record ('v, 's) github_catalog =
  gh_releases :: "('v, 'v release_meta) hash_map"
  gh_releases_updated_at :: "instant option"
  gh_release_cache_ttl :: duration
  gh_stable_versions :: "'v list"
  gh_beta_versions :: "'v list"
  gh_rc_versions :: "'v list"
  gh_signatures :: 's
  gh_signature_cache_ttl :: duration
  gh_calls :: nat

definition count_call :: "('v, 's) github_catalog \<Rightarrow> ('v, 's) github_catalog" where
  "count_call c = c\<lparr>gh_calls := gh_calls c + 1\<rparr>"

section \<open>Fetching releases\<close>

text \<open>The loop over further pages: any error ends it like the last page does.\<close>

function fetch_more_pages ::
  "github_api \<Rightarrow> nat \<Rightarrow> nat \<Rightarrow> string option \<Rightarrow> gh_release list \<Rightarrow> nat \<times> gh_release list" where
  "fetch_more_pages api calls page_count next all_releases =
     (case api_get_page api calls next of
        Some (Some new_page) \<Rightarrow>
          if page_count + 1 \<ge> MAX_PAGINATION_PAGES then (calls + 1, all_releases)
          else fetch_more_pages api (calls + 1) (page_count + 1) (pg_next new_page) (all_releases @ pg_items new_page)
      | _ \<Rightarrow> (calls + 1, all_releases))"
  by pat_completeness auto

termination fetch_more_pages
  by (relation "measure (\<lambda>(api, calls, page_count, next, all_releases). MAX_PAGINATION_PAGES - page_count)") auto

declare fetch_more_pages.simps [simp del]

definition fetch_all_releases :: "github_api \<Rightarrow> nat \<Rightarrow> nat \<times> (http_error + gh_release list)" where
  "fetch_all_releases api calls =
     (case api_list_releases api calls of
        None \<Rightarrow> (calls + 1, Inl InternalServerError)
      | Some page \<Rightarrow>
          (case fetch_more_pages api (calls + 1) 0 (pg_next page) (pg_items page) of
             (calls, all_releases) \<Rightarrow> (calls, Inr all_releases)))"

definition fetch_signature_for_asset :: "github_api \<Rightarrow> nat \<Rightarrow> string \<Rightarrow> http_error + string" where
  "fetch_signature_for_asset api calls asset_url =
     (case api_get api calls (asset_url @ ''.sig'') of
        SendFailed \<Rightarrow> Inl InternalServerError
      | Responded status body \<Rightarrow>
          if \<not> (200 \<le> status \<and> status < 300) then Inl InternalServerError
          else (case body of Some text \<Rightarrow> Inr text | None \<Rightarrow> Inl InternalServerError))"

definition last_version :: "'v list \<Rightarrow> 'v list" where
  "last_version vs = (if vs = [] then [] else [last vs])"

text \<open>The downloads in the order of their completion; a download is one call, the time of its entry another.\<close>

primrec store_signatures ::
  "github_api \<Rightarrow> 's lru \<Rightarrow> string list \<Rightarrow> ('v, 's) github_catalog \<Rightarrow> ('v, 's) github_catalog" where
  "store_signatures api lru [] c = c"
| "store_signatures api lru (url # urls) c =
     (case fetch_signature_for_asset api (gh_calls c) url of
        Inr sig \<Rightarrow>
          store_signatures api lru urls
            (count_call (count_call (c\<lparr>gh_signatures := lru_put lru url (api_now api (gh_calls c + 1), sig) (gh_signatures c)\<rparr>)))
      | Inl _ \<Rightarrow> store_signatures api lru urls (count_call c))"

definition prefetch_latest_signatures ::
  "github_api \<Rightarrow> 's lru \<Rightarrow> ('v, 's) github_catalog \<Rightarrow> ('v, 's) github_catalog" where
  "prefetch_latest_signatures api lru c =
     (let versions_to_prefetch =
            last_version (gh_stable_versions c) @ last_version (gh_beta_versions c) @ last_version (gh_rc_versions c)
      in if versions_to_prefetch = [] then c
         else let releases_to_prefetch = List.map_filter (hm_get (gh_releases c)) versions_to_prefetch;
                  sig_tasks = concat (map (\<lambda>release. map ra_url (rm_assets release)) releases_to_prefetch)
              in store_signatures api lru (api_completion api (gh_calls c) sig_tasks) (count_call c))"

text \<open>The loop that sorts the parsed releases into the maps.\<close>

record 'v release_index =
  ix_by_version :: "('v, 'v release_meta) hash_map"
  ix_stable :: "'v list"
  ix_beta :: "'v list"
  ix_rc :: "'v list"

definition index_release :: "'v release_meta \<Rightarrow> 'v release_index \<Rightarrow> 'v release_index" where
  "index_release meta ix =
     (let version = rm_version meta;
          ix = (case rm_channel meta of
                  Stable \<Rightarrow> ix\<lparr>ix_stable := ix_stable ix @ [version]\<rparr>
                | Beta \<Rightarrow> ix\<lparr>ix_beta := ix_beta ix @ [version]\<rparr>
                | Rc \<Rightarrow> ix\<lparr>ix_rc := ix_rc ix @ [version]\<rparr>)
      in ix\<lparr>ix_by_version := hm_insert version meta (ix_by_version ix)\<rparr>)"

definition index_releases :: "('v, 'r) semver \<Rightarrow> github_api \<Rightarrow> gh_release list \<Rightarrow> 'v release_index" where
  "index_releases sv api raw_releases =
     fold (\<lambda>release ix. case filter_map_release sv api release of Some meta \<Rightarrow> index_release meta ix | None \<Rightarrow> ix)
       raw_releases \<lparr>ix_by_version = [], ix_stable = [], ix_beta = [], ix_rc = []\<rparr>"

definition fetch_releases ::
  "('v :: linorder, 'r) semver \<Rightarrow> github_api \<Rightarrow> 's lru \<Rightarrow> ('v, 's) github_catalog
     \<Rightarrow> ('v, 's) github_catalog \<times> (http_error + unit)" where
  "fetch_releases sv api lru c =
     (case fetch_all_releases api (gh_calls c) of
        (calls, Inl err) \<Rightarrow> (c\<lparr>gh_calls := calls\<rparr>, Inl err)
      | (calls, Inr raw_releases) \<Rightarrow>
          (let ix = index_releases sv api raw_releases;
               c = c\<lparr>gh_releases := ix_by_version ix, gh_stable_versions := sort (ix_stable ix),
                     gh_beta_versions := sort (ix_beta ix), gh_rc_versions := sort (ix_rc ix),
                     gh_releases_updated_at := Some (api_now api calls), gh_calls := calls + 1\<rparr>
           in (prefetch_latest_signatures api lru c, Inr ())))"

definition github_catalog_new ::
  "('v :: linorder, 'r) semver \<Rightarrow> github_api \<Rightarrow> 's lru \<Rightarrow> duration \<Rightarrow> duration
     \<Rightarrow> http_error + ('v, 's) github_catalog" where
  "github_catalog_new sv api lru release_cache_ttl signature_cache_ttl =
     (case fetch_releases sv api lru
             \<lparr>gh_releases = [], gh_releases_updated_at = None, gh_release_cache_ttl = release_cache_ttl,
              gh_stable_versions = [], gh_beta_versions = [], gh_rc_versions = [],
              gh_signatures = lru_new lru SIGNATURE_CACHE_SIZE, gh_signature_cache_ttl = signature_cache_ttl,
              gh_calls = 0\<rparr> of
        (_, Inl err) \<Rightarrow> Inl err
      | (c, Inr _) \<Rightarrow> Inr c)"

section \<open>The operations of the catalog\<close>

fun github_versions :: "('v, 's) github_catalog \<Rightarrow> release_channel \<Rightarrow> 'v list" where
  "github_versions c Stable = gh_stable_versions c"
| "github_versions c Beta = gh_beta_versions c"
| "github_versions c Rc = gh_rc_versions c"

definition github_releases :: "('v, 's) github_catalog \<Rightarrow> release_channel \<Rightarrow> 'v release_meta list" where
  "github_releases c channel = List.map_filter (hm_get (gh_releases c)) (github_versions c channel)"

definition should_update :: "github_api \<Rightarrow> ('v, 's) github_catalog \<Rightarrow> bool" where
  "should_update api c =
     (case gh_releases_updated_at c of
        None \<Rightarrow> True
      | Some t \<Rightarrow> api_now api (gh_calls c) - t > gh_release_cache_ttl c)"

definition github_catalog_list ::
  "('v :: linorder, 'r) semver \<Rightarrow> github_api \<Rightarrow> 's lru \<Rightarrow> ('v, 's) github_catalog \<Rightarrow> release_channel
     \<Rightarrow> ('v, 's) github_catalog \<times> (http_error + 'v release_meta list)" where
  "github_catalog_list sv api lru c channel =
     (if should_update api c
      then (case fetch_releases sv api lru (count_call c) of
              (c, Inl err) \<Rightarrow> (c, Inl err)
            | (c, Inr _) \<Rightarrow> (c, Inr (github_releases c channel)))
      else (count_call c, Inr (github_releases c channel)))"

definition github_catalog_load_signature ::
  "github_api \<Rightarrow> 's lru \<Rightarrow> ('v, 's) github_catalog \<Rightarrow> 'v release_meta \<Rightarrow> release_asset
     \<Rightarrow> ('v, 's) github_catalog \<times> (http_error + string)" where
  "github_catalog_load_signature api lru c meta asset =
     (let (cache, entry) = lru_get lru (ra_url asset) (gh_signatures c);
          c = count_call (c\<lparr>gh_signatures := cache\<rparr>);
          now = api_now api (gh_calls c - 1);
          fetch = (\<lambda>c. case fetch_signature_for_asset api (gh_calls c) (ra_url asset) of
                     Inr sig \<Rightarrow>
                       (count_call (count_call (c\<lparr>gh_signatures :=
                          lru_put lru (ra_url asset) (api_now api (gh_calls c + 1), sig) (gh_signatures c)\<rparr>)), Inr sig)
                   | Inl _ \<Rightarrow> (count_call c, Inl NotFound))
      in case entry of
           Some (cached_at, sig) \<Rightarrow>
             if now - cached_at < gh_signature_cache_ttl c then (c, Inr sig)
             else fetch (c\<lparr>gh_signatures := lru_pop lru (ra_url asset) (gh_signatures c)\<rparr>)
         | None \<Rightarrow> fetch c)"

definition github_catalog_refresh ::
  "('v :: linorder, 'r) semver \<Rightarrow> github_api \<Rightarrow> 's lru \<Rightarrow> ('v, 's) github_catalog
     \<Rightarrow> ('v, 's) github_catalog \<times> (http_error + unit)" where
  "github_catalog_refresh sv api lru c = fetch_releases sv api lru c"

section \<open>The catalog as an interface\<close>

text \<open>Steady: whenever the clock is read from now on, the releases are not older than their lifetime.\<close>

definition github_steady :: "github_api \<Rightarrow> ('v, 's) github_catalog \<Rightarrow> bool" where
  "github_steady api c \<longleftrightarrow>
     (\<exists>t. gh_releases_updated_at c = Some t \<and>
          (\<forall>i \<ge> gh_calls c. api_now api i - t \<le> gh_release_cache_ttl c))"

lemma count_call_fields [simp]:
  "gh_releases (count_call c) = gh_releases c" "gh_releases_updated_at (count_call c) = gh_releases_updated_at c"
  "gh_release_cache_ttl (count_call c) = gh_release_cache_ttl c" "gh_stable_versions (count_call c) = gh_stable_versions c"
  "gh_beta_versions (count_call c) = gh_beta_versions c" "gh_rc_versions (count_call c) = gh_rc_versions c"
  "gh_signatures (count_call c) = gh_signatures c" "gh_signature_cache_ttl (count_call c) = gh_signature_cache_ttl c"
  "gh_calls (count_call c) = Suc (gh_calls c)"
  by (simp_all add: count_call_def)

lemma github_versions_cong:
  assumes "gh_stable_versions c' = gh_stable_versions c" "gh_beta_versions c' = gh_beta_versions c"
    "gh_rc_versions c' = gh_rc_versions c"
  shows "github_versions c' = github_versions c"
proof
  show "github_versions c' ch = github_versions c ch" for ch using assms by (cases ch) simp_all
qed

lemma github_releases_count_call [simp]: "github_releases (count_call c) = github_releases c"
  by (simp add: github_releases_def fun_eq_iff github_versions_cong [of "count_call c" c])

interpretation github_catalog: catalog "github_catalog_list sv api lru" github_releases "github_steady api"
  for sv :: "('v :: linorder, 'r) semver" and api :: github_api and lru :: "'s lru"
  by unfold_locales
    (auto simp: github_catalog_list_def github_steady_def should_update_def not_less [symmetric])

section \<open>What a fetch installs\<close>

definition parsed_releases :: "('v, 'r) semver \<Rightarrow> github_api \<Rightarrow> gh_release list \<Rightarrow> 'v release_meta list" where
  "parsed_releases sv api raws = List.map_filter (filter_map_release sv api) raws"

lemma index_releases_parsed:
  "index_releases sv api raws =
     fold index_release (parsed_releases sv api raws) \<lparr>ix_by_version = [], ix_stable = [], ix_beta = [], ix_rc = []\<rparr>"
proof -
  have "fold (\<lambda>release ix. case filter_map_release sv api release of Some meta \<Rightarrow> index_release meta ix | None \<Rightarrow> ix)
      raws ix = fold index_release (List.map_filter (filter_map_release sv api) raws) ix" for ix
    by (induction raws arbitrary: ix) (auto simp: map_filter_simps split: option.splits)
  then show ?thesis by (simp add: index_releases_def parsed_releases_def)
qed

lemma index_release_fields [simp]:
  "ix_by_version (index_release m ix) = hm_insert (rm_version m) m (ix_by_version ix)"
  "ix_stable (index_release m ix) = ix_stable ix @ (if rm_channel m = Stable then [rm_version m] else [])"
  "ix_beta (index_release m ix) = ix_beta ix @ (if rm_channel m = Beta then [rm_version m] else [])"
  "ix_rc (index_release m ix) = ix_rc ix @ (if rm_channel m = Rc then [rm_version m] else [])"
  by (cases "rm_channel m"; simp add: index_release_def Let_def)+

lemma fold_index_release:
  "ix_by_version (fold index_release ms ix) = hm_extend (map (\<lambda>m. (rm_version m, m)) ms) (ix_by_version ix)"
  "ix_stable (fold index_release ms ix) = ix_stable ix @ map rm_version (filter (\<lambda>m. rm_channel m = Stable) ms)"
  "ix_beta (fold index_release ms ix) = ix_beta ix @ map rm_version (filter (\<lambda>m. rm_channel m = Beta) ms)"
  "ix_rc (fold index_release ms ix) = ix_rc ix @ map rm_version (filter (\<lambda>m. rm_channel m = Rc) ms)"
  by (induction ms arbitrary: ix) (auto simp: hm_extend_def)

lemma store_signatures_fields [simp]:
  "gh_releases (store_signatures api lru urls c) = gh_releases c"
  "gh_releases_updated_at (store_signatures api lru urls c) = gh_releases_updated_at c"
  "gh_release_cache_ttl (store_signatures api lru urls c) = gh_release_cache_ttl c"
  "gh_stable_versions (store_signatures api lru urls c) = gh_stable_versions c"
  "gh_beta_versions (store_signatures api lru urls c) = gh_beta_versions c"
  "gh_rc_versions (store_signatures api lru urls c) = gh_rc_versions c"
  "gh_signature_cache_ttl (store_signatures api lru urls c) = gh_signature_cache_ttl c"
  by (induction urls arbitrary: c) (simp_all split: sum.splits)

lemma prefetch_fields [simp]:
  "gh_releases (prefetch_latest_signatures api lru c) = gh_releases c"
  "gh_releases_updated_at (prefetch_latest_signatures api lru c) = gh_releases_updated_at c"
  "gh_release_cache_ttl (prefetch_latest_signatures api lru c) = gh_release_cache_ttl c"
  "gh_stable_versions (prefetch_latest_signatures api lru c) = gh_stable_versions c"
  "gh_beta_versions (prefetch_latest_signatures api lru c) = gh_beta_versions c"
  "gh_rc_versions (prefetch_latest_signatures api lru c) = gh_rc_versions c"
  "gh_signature_cache_ttl (prefetch_latest_signatures api lru c) = gh_signature_cache_ttl c"
  by (simp_all add: prefetch_latest_signatures_def Let_def)

text \<open>The releases a fetch reads: the items of the first page and of those that follow it.\<close>

lemma fetch_releases_okE:
  assumes "fetch_releases sv api lru c = (c', Inr u)"
  obtains calls raws where "fetch_all_releases api (gh_calls c) = (calls, Inr raws)"
    "hm_get (gh_releases c') = map_of (rev (map (\<lambda>m. (rm_version m, m)) (parsed_releases sv api raws)))"
    "\<And>ch. github_versions c' ch = sort (map rm_version (filter (\<lambda>m. rm_channel m = ch) (parsed_releases sv api raws)))"
    "gh_releases_updated_at c' = Some (api_now api calls)"
proof -
  from assms obtain calls raws where f: "fetch_all_releases api (gh_calls c) = (calls, Inr raws)"
    by (auto simp: fetch_releases_def split: prod.splits sum.splits)
  show thesis
  proof (rule that [OF f])
    show "github_versions c' ch = sort (map rm_version (filter (\<lambda>m. rm_channel m = ch) (parsed_releases sv api raws)))" for ch
      using assms f by (cases ch) (auto simp: fetch_releases_def Let_def index_releases_parsed fold_index_release)
  qed (use assms f in \<open>auto simp: fetch_releases_def Let_def index_releases_parsed fold_index_release hm_get_extend\<close>)
qed

lemma fetch_releases_succeeds:
  "fetch_all_releases api (gh_calls c) = (calls, Inr raws) \<Longrightarrow> snd (fetch_releases sv api lru c) = Inr ()"
  by (simp add: fetch_releases_def Let_def)

lemma sort_map_sort_key: "sort (map f xs) = map f (sort_key f xs)"
  by (intro properties_for_sort) (simp_all add: mset_map)

lemma map_filter_Some_all: "(\<And>x. x \<in> set xs \<Longrightarrow> g (f x) = Some x) \<Longrightarrow> List.map_filter g (map f xs) = xs"
  by (induction xs) (simp_all add: map_filter_simps)

text \<open>
  C32: A successful fetch lists, for each channel, exactly the releases of that channel among those
  GitHub answered that are no drafts, carry a client title with a version and have an installable
  asset, by ascending version, provided no two of them have the same version.
\<close>

theorem github_fetch_exact:
  assumes fetch: "fetch_releases sv api lru c = (c', Inr u)"
    and raws: "fetch_all_releases api (gh_calls c) = (calls, Inr raws)"
    and unique: "distinct (map rm_version (parsed_releases sv api raws))"
  shows "github_releases c' ch =
           sort_key rm_version (filter (\<lambda>m. rm_channel m = ch) (parsed_releases sv api raws))"
proof -
  let ?ms = "parsed_releases sv api raws"
  from fetch raws have get: "hm_get (gh_releases c') = map_of (rev (map (\<lambda>m. (rm_version m, m)) ?ms))"
    and versions: "github_versions c' ch = map rm_version (sort_key rm_version (filter (\<lambda>m. rm_channel m = ch) ?ms))"
    by (auto elim!: fetch_releases_okE simp: sort_map_sort_key)
  have "distinct (map fst (rev (map (\<lambda>m. (rm_version m, m)) ?ms)))"
    using unique by (simp add: rev_map comp_def distinct_map)
  then have "hm_get (gh_releases c') (rm_version m) = Some m" if "m \<in> set ?ms" for m
    using that unfolding get by (intro map_of_is_SomeI) (auto simp: rev_map comp_def)
  then show ?thesis
    unfolding github_releases_def versions by (intro map_filter_Some_all) auto
qed

text \<open>Every listed release has a version of the channel's list, also when versions repeat.\<close>

lemma github_releases_parsed:
  assumes "fetch_releases sv api lru c = (c', Inr u)" and "fetch_all_releases api (gh_calls c) = (calls, Inr raws)"
    and "m \<in> set (github_releases c' ch)"
  shows "m \<in> set (parsed_releases sv api raws)"
proof -
  from assms(1,2) have get: "hm_get (gh_releases c') = map_of (rev (map (\<lambda>m. (rm_version m, m)) (parsed_releases sv api raws)))"
    by (auto elim!: fetch_releases_okE)
  from assms(3) obtain v where "hm_get (gh_releases c') v = Some m"
    by (auto simp: github_releases_def set_map_filter)
  then show ?thesis unfolding get by (auto dest: map_of_SomeD)
qed

definition installable :: "release_asset \<Rightarrow> bool" where
  "installable a \<longleftrightarrow>
     ra_bundle_type a \<noteq> UnknownBundle \<and> ra_target a = bundle_type_target (ra_bundle_type a) \<and>
     ra_arch a \<in> {''x86_64'', ''aarch64'', ''armv7''} \<and> \<not> is_checksum_or_signature (ra_name a)"

lemma derive_release_asset_arch_known:
  "derive_release_asset_arch name = Some arch \<Longrightarrow> arch \<in> {''x86_64'', ''aarch64'', ''armv7''}"
  by (simp add: derive_release_asset_arch_def Let_def split: if_split_asm)

lemma filter_map_release_asset_installable:
  "filter_map_release_asset asset = Some a \<Longrightarrow> installable a"
  unfolding filter_map_release_asset_def installable_def
  by (auto split: if_split_asm option.split_asm dest: bundle_type_from_file_name_known derive_release_asset_arch_known)

lemma filter_map_release_assets:
  assumes "filter_map_release sv api release = Some m"
  shows "\<not> gr_draft release" and "rm_assets m \<noteq> []" and "\<forall>a \<in> set (rm_assets m). installable a"
proof -
  from assms have "\<not> gr_draft release \<and> rm_assets m \<noteq> [] \<and>
      rm_assets m = List.map_filter filter_map_release_asset (gr_assets release)"
    unfolding filter_map_release_def Let_def by (simp split: if_split_asm option.split_asm) auto
  then show "\<not> gr_draft release" "rm_assets m \<noteq> []" "\<forall>a \<in> set (rm_assets m). installable a"
    by (auto simp: set_map_filter filter_map_release_asset_installable)
qed

subsection \<open>Pagination\<close>

text \<open>At most ten pages are read, with at most eleven requests, whatever GitHub answers.\<close>

lemma fetch_more_pages_bound:
  "page_count < MAX_PAGINATION_PAGES \<Longrightarrow>
   fst (fetch_more_pages api calls page_count next all) \<le> calls + (MAX_PAGINATION_PAGES - page_count)"
proof (induction api calls page_count "next" all rule: fetch_more_pages.induct)
  case (1 api calls page_count "next" all)
  then show ?case
    by (subst fetch_more_pages.simps) (fastforce split: option.splits)
qed

theorem pagination_bounded: "fst (fetch_all_releases api calls) \<le> calls + 11"
proof (cases "api_list_releases api calls")
  case (Some page)
  then show ?thesis
    using fetch_more_pages_bound [of 0 api "calls + 1" "pg_next page" "pg_items page"]
    by (auto simp: fetch_all_releases_def MAX_PAGINATION_PAGES_def split: prod.splits)
qed (simp add: fetch_all_releases_def)

text \<open>An error on a further page is taken for the end: the catalog is replaced by the pages before it.\<close>

theorem later_page_error_truncates:
  assumes "api_list_releases api calls = Some page" and "api_get_page api (calls + 1) (pg_next page) = None"
  shows "fetch_all_releases api calls = (calls + 2, Inr (pg_items page))"
  using assms by (simp add: fetch_all_releases_def fetch_more_pages.simps)

section \<open>Signatures\<close>

text \<open>What the catalog relies on of the cache: it holds nothing that was not put, and not what was popped.\<close>

definition lru_laws :: "'s lru \<Rightarrow> ('s \<Rightarrow> (string \<times> instant \<times> string) set) \<Rightarrow> bool" where
  "lru_laws lru held \<longleftrightarrow>
     (\<forall>n. held (lru_new lru n) = {}) \<and>
     (\<forall>k s. held (fst (lru_get lru k s)) = held s) \<and>
     (\<forall>k s e. snd (lru_get lru k s) = Some e \<longrightarrow> (k, e) \<in> held s) \<and>
     (\<forall>k e s. held (lru_put lru k e s) \<subseteq> insert (k, e) (held s)) \<and>
     (\<forall>k s. held (lru_pop lru k s) \<subseteq> held s)"

text \<open>Each entry of the cache is an answer to an earlier download of that address, stamped right after it.\<close>

definition signature_known :: "github_api \<Rightarrow> nat \<Rightarrow> string \<times> instant \<times> string \<Rightarrow> bool" where
  "signature_known api calls entry \<longleftrightarrow>
     (\<exists>i. Suc i < calls \<and> fetch_signature_for_asset api i (fst entry) = Inr (snd (snd entry)) \<and>
          fst (snd entry) = api_now api (Suc i))"

definition signatures_known ::
  "github_api \<Rightarrow> ('s \<Rightarrow> (string \<times> instant \<times> string) set) \<Rightarrow> ('v, 's) github_catalog \<Rightarrow> bool" where
  "signatures_known api held c \<longleftrightarrow> (\<forall>entry \<in> held (gh_signatures c). signature_known api (gh_calls c) entry)"

lemma signature_known_mono: "signature_known api calls entry \<Longrightarrow> calls \<le> calls' \<Longrightarrow> signature_known api calls' entry"
  unfolding signature_known_def by (blast intro: less_le_trans)

lemma signatures_known_mono:
  assumes "signatures_known api held c" "held (gh_signatures c') \<subseteq> held (gh_signatures c)" "gh_calls c \<le> gh_calls c'"
  shows "signatures_known api held c'"
  using assms unfolding signatures_known_def by (blast intro: signature_known_mono)

lemma lru_put_held: "lru_laws lru held \<Longrightarrow> held (lru_put lru k e s) \<subseteq> insert (k, e) (held s)"
  unfolding lru_laws_def by (elim conjE) (drule spec, drule spec, erule spec)

lemma signatures_known_put:
  assumes "lru_laws lru held" "signatures_known api held c"
    "fetch_signature_for_asset api (gh_calls c) url = Inr sig"
  shows "signatures_known api held
    (count_call (count_call (c\<lparr>gh_signatures := lru_put lru url (api_now api (Suc (gh_calls c)), sig) (gh_signatures c)\<rparr>)))"
  unfolding signatures_known_def
proof
  fix entry
  assume "entry \<in> held (gh_signatures
    (count_call (count_call (c\<lparr>gh_signatures := lru_put lru url (api_now api (Suc (gh_calls c)), sig) (gh_signatures c)\<rparr>))))"
  then consider "entry = (url, api_now api (Suc (gh_calls c)), sig)" | "entry \<in> held (gh_signatures c)"
    using lru_put_held [OF assms(1), of url "(api_now api (Suc (gh_calls c)), sig)" "gh_signatures c"] by auto
  then have "signature_known api (Suc (Suc (gh_calls c))) entry"
  proof cases
    case 1
    with assms(3) show ?thesis by (auto simp: signature_known_def)
  next
    case 2
    with assms(2) show ?thesis by (auto simp: signatures_known_def intro: signature_known_mono)
  qed
  then show "signature_known api (gh_calls (count_call (count_call (c\<lparr>gh_signatures :=
      lru_put lru url (api_now api (Suc (gh_calls c)), sig) (gh_signatures c)\<rparr>)))) entry" by simp
qed

lemma signatures_known_count_call: "signatures_known api held c \<Longrightarrow> signatures_known api held (count_call c)"
  by (erule signatures_known_mono) simp_all

lemma signatures_known_store:
  "lru_laws lru held \<Longrightarrow> signatures_known api held c \<Longrightarrow> signatures_known api held (store_signatures api lru urls c)"
proof (induction urls arbitrary: c)
  case (Cons url urls)
  then show ?case
    by (cases "fetch_signature_for_asset api (gh_calls c) url") (simp_all add: signatures_known_count_call signatures_known_put)
qed simp

lemma fetch_more_pages_calls: "calls < fst (fetch_more_pages api calls page_count next all)"
proof (induction api calls page_count "next" all rule: fetch_more_pages.induct)
  case (1 api calls page_count "next" all)
  then show ?case by (subst fetch_more_pages.simps) (fastforce split: option.splits)
qed

lemma fetch_all_calls: "calls < fst (fetch_all_releases api calls)"
proof (cases "api_list_releases api calls")
  case (Some page)
  then show ?thesis
    using fetch_more_pages_calls [of "Suc calls" api 0 "pg_next page" "pg_items page"]
    by (auto simp: fetch_all_releases_def split: prod.splits)
qed (simp add: fetch_all_releases_def)

lemma signatures_known_fetch:
  assumes "lru_laws lru held" "signatures_known api held c"
  shows "signatures_known api held (fst (fetch_releases sv api lru c))"
proof -
  obtain calls res where f: "fetch_all_releases api (gh_calls c) = (calls, res)" by fastforce
  then have calls: "gh_calls c < calls" using fetch_all_calls [of "gh_calls c" api] by simp
  have installed: "gh_signatures c' = gh_signatures c \<Longrightarrow> calls \<le> gh_calls c' \<Longrightarrow> signatures_known api held c'"
    for c' :: "('b, 'a) github_catalog"
    by (rule signatures_known_mono [OF assms(2)]) (use calls in simp_all)
  show ?thesis
  proof (cases res)
    case Inl
    then show ?thesis using f by (simp add: fetch_releases_def installed)
  next
    case (Inr raws)
    then show ?thesis using f
      by (simp add: fetch_releases_def Let_def prefetch_latest_signatures_def installed
          signatures_known_store assms(1) signatures_known_count_call)
  qed
qed

lemma lru_laws_get:
  assumes "lru_laws lru held"
  shows "held (fst (lru_get lru k s)) = held s" and "snd (lru_get lru k s) = Some e \<Longrightarrow> (k, e) \<in> held s"
    and "held (lru_pop lru k s) \<subseteq> held s" and "held (lru_new lru n) = {}"
  using assms unfolding lru_laws_def by (simp_all del: split_paired_All)

text \<open>The two ways a signature is answered: from the cache, or by a download that is then cached.\<close>

lemma load_signature_cases:
  obtains (cached) cache t sig where
      "lru_get lru (ra_url asset) (gh_signatures c) = (cache, Some (t, sig))"
      "api_now api (gh_calls c) - t < gh_signature_cache_ttl c"
      "github_catalog_load_signature api lru c meta asset = (count_call (c\<lparr>gh_signatures := cache\<rparr>), Inr sig)"
  | (fetched) cache entry d where
      "lru_get lru (ra_url asset) (gh_signatures c) = (cache, entry)"
      "d = count_call (c\<lparr>gh_signatures := cache\<rparr>) \<or> d = count_call (c\<lparr>gh_signatures := lru_pop lru (ra_url asset) cache\<rparr>)"
      "github_catalog_load_signature api lru c meta asset =
         (case fetch_signature_for_asset api (Suc (gh_calls c)) (ra_url asset) of
            Inr sig \<Rightarrow> (count_call (count_call (d\<lparr>gh_signatures :=
              lru_put lru (ra_url asset) (api_now api (Suc (gh_calls d)), sig) (gh_signatures d)\<rparr>)), Inr sig)
          | Inl _ \<Rightarrow> (count_call d, Inl NotFound))"
proof -
  obtain cache entry where get: "lru_get lru (ra_url asset) (gh_signatures c) = (cache, entry)" by fastforce
  show thesis
  proof (cases entry)
    case None
    with get show thesis
      by (intro fetched [of cache entry "count_call (c\<lparr>gh_signatures := cache\<rparr>)"])
        (simp_all add: github_catalog_load_signature_def Let_def split: sum.split)
  next
    case (Some e)
    obtain t sig where e: "e = (t, sig)" by fastforce
    show thesis
    proof (cases "api_now api (gh_calls c) - t < gh_signature_cache_ttl c")
      case True
      with get Some e show thesis
        by (intro cached [of cache t sig]) (simp_all add: github_catalog_load_signature_def Let_def)
    next
      case False
      with get Some e show thesis
        by (intro fetched [of cache entry "count_call (c\<lparr>gh_signatures := lru_pop lru (ra_url asset) cache\<rparr>)"])
          (simp_all add: github_catalog_load_signature_def Let_def split: sum.split)
    qed
  qed
qed

lemma signatures_known_load:
  assumes laws: "lru_laws lru held" and known: "signatures_known api held c"
  shows "signatures_known api held (fst (github_catalog_load_signature api lru c meta asset))"
proof (cases rule: load_signature_cases [of lru asset c api meta])
  case (cached cache t sig)
  have "held cache = held (gh_signatures c)" using lru_laws_get(1) [OF laws] cached(1) by (metis fst_conv)
  then show ?thesis unfolding cached(3) by (auto intro: signatures_known_mono [OF known])
next
  case (fetched cache entry d)
  have "held cache = held (gh_signatures c)" using lru_laws_get(1) [OF laws] fetched(1) by (metis fst_conv)
  then have "held (gh_signatures d) \<subseteq> held (gh_signatures c)" and calls: "gh_calls d = Suc (gh_calls c)"
    using fetched(2) lru_laws_get(3) [OF laws, of "ra_url asset" cache] by auto
  then have d: "signatures_known api held d" by (intro signatures_known_mono [OF known]) simp_all
  show ?thesis
    using signatures_known_put [OF laws d, of "ra_url asset"] d calls
    unfolding fetched(3) by (simp split: sum.split add: signatures_known_count_call)
qed

datatype 'v catalog_op = ListReleases release_channel | LoadSignature "'v release_meta" release_asset | RefreshCatalog

primrec github_exec ::
  "('v :: linorder, 'r) semver \<Rightarrow> github_api \<Rightarrow> 's lru \<Rightarrow> 'v catalog_op \<Rightarrow> ('v, 's) github_catalog \<Rightarrow> ('v, 's) github_catalog" where
  "github_exec sv api lru (ListReleases channel) c = fst (github_catalog_list sv api lru c channel)"
| "github_exec sv api lru (LoadSignature meta asset) c = fst (github_catalog_load_signature api lru c meta asset)"
| "github_exec sv api lru RefreshCatalog c = fst (github_catalog_refresh sv api lru c)"

lemma github_list_state:
  "fst (github_catalog_list sv api lru c channel) \<in> {count_call c, fst (fetch_releases sv api lru (count_call c))}"
  by (auto simp: github_catalog_list_def split: prod.splits sum.splits)

lemma signatures_known_exec:
  assumes "lru_laws lru held" "signatures_known api held c"
  shows "signatures_known api held (github_exec sv api lru x c)"
proof (cases x)
  case (ListReleases channel)
  then show ?thesis using github_list_state [of sv api lru c channel] assms
    by (auto simp: signatures_known_count_call signatures_known_fetch)
qed (simp_all add: assms signatures_known_load signatures_known_fetch github_catalog_refresh_def)

lemma signature_ttl_exec: "gh_signature_cache_ttl (github_exec sv api lru x c) = gh_signature_cache_ttl c"
proof -
  have fetch: "gh_signature_cache_ttl (fst (fetch_releases sv api lru c)) = gh_signature_cache_ttl c"
    for c :: "('a, 'b) github_catalog"
    by (simp add: fetch_releases_def Let_def split: prod.split sum.split)
  show ?thesis
  proof (cases x)
    case (ListReleases channel)
    then show ?thesis using github_list_state [of sv api lru c channel] by (auto simp: fetch)
  next
    case (LoadSignature meta asset)
    then show ?thesis
      by (cases rule: load_signature_cases [of lru asset c api meta]) (auto split: sum.splits)
  qed (simp add: fetch github_catalog_refresh_def)
qed

interpretation github_runs: step_invariant "github_exec sv api lru" "\<lambda>_. True"
  "\<lambda>c. (lru_laws lru held \<longrightarrow> signatures_known api held c) \<and> gh_signature_cache_ttl c = ttl"
  for sv :: "('v :: linorder, 'r) semver" and api :: github_api and lru :: "'s lru"
    and held :: "'s \<Rightarrow> (string \<times> instant \<times> string) set" and ttl :: duration
  by unfold_locales (simp add: signatures_known_exec signature_ttl_exec)

lemma github_catalog_new_known:
  assumes "github_catalog_new sv api lru release_ttl ttl = Inr c" "lru_laws lru held"
  shows "signatures_known api held c \<and> gh_signature_cache_ttl c = ttl"
proof -
  define c0 where "c0 = \<lparr>gh_releases = [], gh_releases_updated_at = None, gh_release_cache_ttl = release_ttl,
              gh_stable_versions = [], gh_beta_versions = [], gh_rc_versions = [] :: 'a list,
              gh_signatures = lru_new lru SIGNATURE_CACHE_SIZE, gh_signature_cache_ttl = ttl,
              gh_calls = 0\<rparr>"
  have c: "c = github_exec sv api lru RefreshCatalog c0"
    using assms(1) unfolding github_catalog_new_def c0_def [symmetric]
    by (auto simp: github_catalog_refresh_def split: prod.splits sum.splits)
  have "signatures_known api held c0"
    using lru_laws_get(4) [OF assms(2)] by (simp add: signatures_known_def c0_def)
  then show ?thesis unfolding c
    by (metis signatures_known_exec signature_ttl_exec assms(2) c0_def github_catalog.select_convs(8))
qed

text \<open>
  C33: The signature a client is given for an asset was answered by the server for that very asset:
  either just now, or at an earlier download whose age is below the lifetime of cached signatures,
  after whatever sequence of listings, downloads and refreshes.
\<close>

theorem signature_from_server:
  assumes laws: "lru_laws lru held"
    and new: "github_catalog_new sv api lru release_ttl ttl = Inr c0"
    and c: "c = run (github_exec sv api lru) ops c0"
    and load: "github_catalog_load_signature api lru c meta asset = (c', Inr sig)"
  shows "\<exists>i. fetch_signature_for_asset api i (ra_url asset) = Inr sig \<and>
             (i = Suc (gh_calls c) \<or> i < gh_calls c \<and> api_now api (gh_calls c) - api_now api (Suc i) < ttl)"
proof -
  have known: "signatures_known api held c" and ttl: "gh_signature_cache_ttl c = ttl"
    using github_runs.inv_run [where held = held and ttl = ttl and s = c0 and xs = ops and api = api and lru = lru and sv = sv]
      github_catalog_new_known [OF new laws] laws c by (auto simp: list_all_iff)
  show ?thesis
  proof (cases rule: load_signature_cases [of lru asset c api meta])
    case (cached cache t sig')
    then have "(ra_url asset, t, sig) \<in> held (gh_signatures c)"
      using load lru_laws_get(2) [OF laws, of "ra_url asset" "gh_signatures c" "(t, sig)"] by simp
    then have "signature_known api (gh_calls c) (ra_url asset, t, sig)"
      using known by (auto simp: signatures_known_def)
    then show ?thesis using cached(2) ttl by (auto simp: signature_known_def intro: Suc_lessD)
  next
    case (fetched cache entry d)
    then show ?thesis using load by (auto split: sum.splits)
  qed
qed

section \<open>Examples\<close>

text \<open>Versions as numbers, requirements as lower bounds; a cache that keeps all it is given.\<close>

definition nat_semver :: "(nat, nat) semver" where
  "nat_semver =
     \<lparr>version_parse = (\<lambda>s. if s = ''1.0.0'' then Some 1 else if s = ''2.0.0'' then Some 2
                           else if s = ''2.1.0-rc.1'' then Some 3 else None),
      version_to_string = (\<lambda>v. if v = 1 then ''1.0.0'' else if v = 2 then ''2.0.0'' else ''2.1.0-rc.1''),
      version_pre = (\<lambda>v. if v = 3 then ''rc.1'' else []),
      req_parse = (\<lambda>s. if s = ''>=0.0.0'' then Some 0 else if s = ''>=2.0.0'' then Some 2 else None),
      req_default = 0, req_matches = (\<lambda>r v. r \<le> v), req_comparators = (\<lambda>_. [OpGreaterEq])\<rparr>"

definition list_lru :: "(string \<times> instant \<times> string) list lru" where
  "list_lru = \<lparr>lru_new = (\<lambda>_. []), lru_get = (\<lambda>k s. (s, map_of s k)), lru_put = (\<lambda>k e s. (k, e) # filter (\<lambda>x. fst x \<noteq> k) s),
               lru_pop = (\<lambda>k s. filter (\<lambda>x. fst x \<noteq> k) s)\<rparr>"

lemma list_lru_laws: "lru_laws list_lru set"
  by (auto simp: lru_laws_def list_lru_def dest: map_of_SomeD)

definition example_release :: "u64 \<Rightarrow> string \<Rightarrow> bool \<Rightarrow> gh_release" where
  "example_release i version prerelease =
     \<lparr>gr_id = i, gr_tag_name = [], gr_name = Some (''vacs v'' @ version), gr_body = None, gr_draft = False,
      gr_prerelease = prerelease, gr_published_at = Some 5,
      gr_assets = [\<lparr>ga_name = ''x64.deb'', ga_browser_download_url = version\<rparr>]\<rparr>"

definition example_api :: "gh_release list \<Rightarrow> gh_release list \<Rightarrow> github_api" where
  "example_api first second =
     \<lparr>api_now = (\<lambda>i. min (10 * i) 900), api_list_releases = (\<lambda>_. Some \<lparr>pg_items = first, pg_next = Some ''page2''\<rparr>),
      api_get_page = (\<lambda>_ url. Some (if url = Some ''page2'' then Some \<lparr>pg_items = second, pg_next = None\<rparr> else None)),
      api_get = (\<lambda>_ url. Responded 200 (Some (''sig of '' @ url))), api_completion = (\<lambda>_. rev),
      api_to_rfc3339 = (\<lambda>_. ''2026'')\<rparr>"

definition example_catalog :: "gh_release list \<Rightarrow> gh_release list \<Rightarrow> (nat, (string \<times> instant \<times> string) list) github_catalog" where
  "example_catalog first second =
     (case github_catalog_new nat_semver (example_api first second) list_lru 1000 1000 of
        Inr c \<Rightarrow> c
      | Inl _ \<Rightarrow> \<lparr>gh_releases = [], gh_releases_updated_at = None, gh_release_cache_ttl = 0, gh_stable_versions = [],
                 gh_beta_versions = [], gh_rc_versions = [], gh_signatures = [], gh_signature_cache_ttl = 0, gh_calls = 0\<rparr>)"

definition example_first :: "gh_release list" where
  "example_first = [example_release 1 ''2.0.0'' False]"

definition example_second :: "gh_release list" where
  "example_second = [example_release 2 ''1.0.0'' False]"

text \<open>
  Two releases with one version on two channels: the map of releases keeps only the one read last,
  and the stable channel then lists the release of the beta channel.
\<close>

theorem repeated_version_crosses_channels:
  "map rm_channel (github_releases (example_catalog [example_release 1 ''2.0.0'' False, example_release 2 ''2.0.0'' True] []) Stable)
     = [Beta]"
  by code_simp

definition example_asset :: release_asset where
  "example_asset = \<lparr>ra_name = ''x64.deb'', ra_target = ''linux'', ra_arch = ''x86_64'', ra_bundle_type = Deb,
                    ra_url = ''2.0.0'', ra_signature = None\<rparr>"

lemma example_new:
  "github_catalog_new nat_semver (example_api example_first example_second) list_lru 1000 1000 =
     Inr (example_catalog example_first example_second)"
proof -
  have "isl (github_catalog_new nat_semver (example_api example_first example_second) list_lru 1000 1000) = False"
    by code_simp
  then show ?thesis unfolding example_catalog_def by (auto simp: isl_def split: sum.splits)
qed

theorem signature_from_server_witness:
  "\<exists>i. fetch_signature_for_asset (example_api example_first example_second) i ''2.0.0'' = Inr ''sig of 2.0.0.sig''"
proof -
  let ?api = "example_api example_first example_second" and ?c = "example_catalog example_first example_second"
  have "snd (github_catalog_load_signature ?api list_lru ?c (hd (github_releases ?c Stable)) example_asset)
      = Inr ''sig of 2.0.0.sig''"
    by code_simp
  then have load: "github_catalog_load_signature ?api list_lru ?c (hd (github_releases ?c Stable)) example_asset
      = (fst (github_catalog_load_signature ?api list_lru ?c (hd (github_releases ?c Stable)) example_asset), Inr ''sig of 2.0.0.sig'')"
    by (metis prod.collapse)
  show ?thesis
    using signature_from_server [OF list_lru_laws example_new _ load, of "[]"] by (auto simp: example_asset_def)
qed

theorem github_fetch_exact_witness:
  "github_releases (fst (fetch_releases nat_semver (example_api example_first example_second) list_lru
       (example_catalog example_first example_second))) Stable =
     sort_key rm_version (filter (\<lambda>m. rm_channel m = Stable)
       (parsed_releases nat_semver (example_api example_first example_second) (example_first @ example_second)))"
proof -
  let ?api = "example_api example_first example_second" and ?c = "example_catalog example_first example_second"
  have raws: "fetch_all_releases ?api (gh_calls ?c) = (gh_calls ?c + 3, Inr (example_first @ example_second))"
    by (simp add: fetch_all_releases_def fetch_more_pages.simps example_api_def MAX_PAGINATION_PAGES_def)
  obtain c' where fetch: "fetch_releases nat_semver ?api list_lru ?c = (c', Inr ())"
    using fetch_releases_succeeds [OF raws, of nat_semver list_lru] by (metis prod.collapse)
  have unique: "distinct (map rm_version (parsed_releases nat_semver ?api (example_first @ example_second)))"
    by code_simp
  show ?thesis unfolding fetch fst_conv by (rule github_fetch_exact [OF fetch raws unique])
qed

end
