(* ===== verification/UpdateCheck.thy ===== *)
theory UpdateCheck
  imports GithubCatalog
begin

text \<open>
  The update checker, \<^verbatim>\<open>vacs-server/src/release.rs\<close>, over either catalog (\<^verbatim>\<open>Arc<dyn Catalog>\<close>
  built by \<^verbatim>\<open>CatalogConfig::to_catalog\<close>), and the route \<^verbatim>\<open>/version/update\<close> of
  \<^verbatim>\<open>routes/version.rs\<close>. The two loops of the checker take the catalog's \<^verbatim>\<open>list\<close> as an
  argument; their lemmas are proved once against the interface \<open>catalog\<close>.
\<close>

section \<open>The configured catalog\<close>

datatype ('v, 's) dyn_catalog = FileCatalog "'v file_catalog" | GitHubCatalog "('v, 's) github_catalog"

datatype catalog_config = ConfigFile | ConfigGitHub duration duration

definition to_catalog ::
  "('v :: linorder, 'r) semver \<Rightarrow> github_api \<Rightarrow> 's lru \<Rightarrow> 'v manifest_per_channel config_file \<Rightarrow> catalog_config
     \<Rightarrow> http_error + ('v, 's) dyn_catalog" where
  "to_catalog sv api lru manifest config =
     (case config of
        ConfigFile \<Rightarrow> map_sum id FileCatalog (file_catalog_new manifest)
      | ConfigGitHub release_cache_ttl signature_cache_ttl \<Rightarrow>
          map_sum id GitHubCatalog (github_catalog_new sv api lru release_cache_ttl signature_cache_ttl))"

definition catalog_list ::
  "('v :: linorder, 'r) semver \<Rightarrow> github_api \<Rightarrow> 's lru \<Rightarrow> ('v, 's) dyn_catalog \<Rightarrow> release_channel
     \<Rightarrow> ('v, 's) dyn_catalog \<times> (http_error + 'v release_meta list)" where
  "catalog_list sv api lru c channel =
     (case c of
        FileCatalog f \<Rightarrow> apfst FileCatalog (file_catalog_list f channel)
      | GitHubCatalog g \<Rightarrow> apfst GitHubCatalog (github_catalog_list sv api lru g channel))"

definition catalog_load_signature ::
  "github_api \<Rightarrow> 's lru \<Rightarrow> ('v, 's) dyn_catalog \<Rightarrow> 'v release_meta \<Rightarrow> release_asset
     \<Rightarrow> ('v, 's) dyn_catalog \<times> (http_error + string)" where
  "catalog_load_signature api lru c meta asset =
     (case c of
        FileCatalog f \<Rightarrow> apfst FileCatalog (file_catalog_load_signature f meta asset)
      | GitHubCatalog g \<Rightarrow> apfst GitHubCatalog (github_catalog_load_signature api lru g meta asset))"

definition catalog_refresh ::
  "('v :: linorder, 'r) semver \<Rightarrow> github_api \<Rightarrow> 's lru \<Rightarrow> 'v manifest_per_channel config_file \<Rightarrow> ('v, 's) dyn_catalog
     \<Rightarrow> ('v, 's) dyn_catalog \<times> (http_error + unit)" where
  "catalog_refresh sv api lru manifest c =
     (case c of
        FileCatalog f \<Rightarrow> apfst FileCatalog (file_catalog_refresh manifest f)
      | GitHubCatalog g \<Rightarrow> apfst GitHubCatalog (github_catalog_refresh sv api lru g))"

fun catalog_releases :: "('v, 's) dyn_catalog \<Rightarrow> release_channel \<Rightarrow> 'v release_meta list" where
  "catalog_releases (FileCatalog f) = file_releases f"
| "catalog_releases (GitHubCatalog g) = github_releases g"

fun catalog_steady :: "github_api \<Rightarrow> ('v, 's) dyn_catalog \<Rightarrow> bool" where
  "catalog_steady api (FileCatalog f) = True"
| "catalog_steady api (GitHubCatalog g) = github_steady api g"

interpretation dyn_catalog: catalog "catalog_list sv api lru" catalog_releases "catalog_steady api"
  for sv :: "('v :: linorder, 'r) semver" and api :: github_api and lru :: "'s lru"
proof unfold_locales
  fix c :: "('v, 's) dyn_catalog" and channel
  assume steady: "catalog_steady api c"
  show "snd (catalog_list sv api lru c channel) = Inr (catalog_releases c channel)"
    using steady by (cases c) (simp_all add: catalog_list_def file_catalog.list_answers github_catalog.list_answers)
  show "catalog_releases (fst (catalog_list sv api lru c channel)) = catalog_releases c"
    using steady by (cases c) (simp_all add: catalog_list_def file_catalog.list_keeps github_catalog.list_keeps)
  show "catalog_steady api (fst (catalog_list sv api lru c channel))"
    using steady by (cases c) (simp_all add: catalog_list_def github_catalog.list_steady)
qed

section \<open>The update checker\<close>

record ('v, 'r, 's) update_checker =
  uc_catalog :: "('v, 's) dyn_catalog"
  uc_policy :: "'r release_policy"

definition asset_matches :: "string \<Rightarrow> string \<Rightarrow> bundle_type \<Rightarrow> release_asset \<Rightarrow> bool" where
  "asset_matches target arch bundle_type a \<longleftrightarrow>
     ra_bundle_type a = bundle_type \<and> ra_target a = target \<and> ra_arch a = arch"

definition newer_releases ::
  "('v :: linorder) \<Rightarrow> (release_asset \<Rightarrow> bool) \<Rightarrow> 'v release_meta list \<Rightarrow> ('v release_meta \<times> release_asset) list" where
  "newer_releases client_version matches ms =
     List.map_filter (\<lambda>m. if rm_version m > client_version then map_option (Pair m) (find matches (rm_assets m)) else None) ms"

text \<open>The loop that collects newer releases; an error of the catalog ends the check.\<close>

primrec collect_newer ::
  "('c \<Rightarrow> release_channel \<Rightarrow> 'c \<times> (http_error + ('v :: linorder) release_meta list)) \<Rightarrow> 'v \<Rightarrow> (release_asset \<Rightarrow> bool)
     \<Rightarrow> release_channel list \<Rightarrow> 'c \<Rightarrow> ('v release_meta \<times> release_asset) list
     \<Rightarrow> 'c \<times> (http_error + ('v release_meta \<times> release_asset) list)" where
  "collect_newer list_op client_version matches [] c newer = (c, Inr newer)"
| "collect_newer list_op client_version matches (ch # chs) c newer =
     (case list_op c ch of
        (c, Inl err) \<Rightarrow> (c, Inl err)
      | (c, Inr ms) \<Rightarrow>
          collect_newer list_op client_version matches chs c (newer @ newer_releases client_version matches ms))"

definition required_newer ::
  "('v :: linorder) \<Rightarrow> (release_asset \<Rightarrow> bool) \<Rightarrow> (release_channel \<Rightarrow> 'v \<Rightarrow> bool) \<Rightarrow> release_channel \<Rightarrow> 'v release_meta \<Rightarrow> bool" where
  "required_newer client_version matches policy_required ch m \<longleftrightarrow>
     rm_version m > client_version \<and> list_ex matches (rm_assets m) \<and> (rm_required m \<or> policy_required ch (rm_version m))"

text \<open>The loop that looks for a required release among the newer ones; it stops at the first.\<close>

primrec find_required ::
  "('c \<Rightarrow> release_channel \<Rightarrow> 'c \<times> (http_error + ('v :: linorder) release_meta list)) \<Rightarrow> 'v \<Rightarrow> (release_asset \<Rightarrow> bool)
     \<Rightarrow> (release_channel \<Rightarrow> 'v \<Rightarrow> bool) \<Rightarrow> release_channel list \<Rightarrow> 'c \<Rightarrow> 'c \<times> (http_error + bool)" where
  "find_required list_op client_version matches policy_required [] c = (c, Inr False)"
| "find_required list_op client_version matches policy_required (ch # chs) c =
     (case list_op c ch of
        (c, Inl err) \<Rightarrow> (c, Inl err)
      | (c, Inr ms) \<Rightarrow>
          if list_ex (required_newer client_version matches policy_required ch) ms
          then (c, Inr True)
          else find_required list_op client_version matches policy_required chs c)"

definition check ::
  "('v :: linorder, 'r) semver \<Rightarrow> github_api \<Rightarrow> 's lru \<Rightarrow> release_channel \<Rightarrow> 'v \<Rightarrow> string \<Rightarrow> string \<Rightarrow> bundle_type
     \<Rightarrow> ('v, 'r, 's) update_checker \<Rightarrow> ('v, 'r, 's) update_checker \<times> (http_error + release option)" where
  "check sv api lru channel client_version target arch bundle_type uc =
     (let visible = visible_channels (uc_policy uc) channel;
          matches = asset_matches target arch bundle_type
      in case collect_newer (catalog_list sv api lru) client_version matches visible (uc_catalog uc) [] of
           (c, Inl err) \<Rightarrow> (uc\<lparr>uc_catalog := c\<rparr>, Inl err)
         | (c, Inr newer) \<Rightarrow>
             (if newer = [] then (uc\<lparr>uc_catalog := c\<rparr>, Inr None)
              else
                (let (meta, asset) = last (sort_key (\<lambda>(m, a). rm_version m) newer)
                 in case find_required (catalog_list sv api lru) client_version matches (is_required sv (uc_policy uc)) visible c of
                      (c, Inl err) \<Rightarrow> (uc\<lparr>uc_catalog := c\<rparr>, Inl err)
                    | (c, Inr required) \<Rightarrow>
                        (case catalog_load_signature api lru c meta asset of
                           (c, Inl err) \<Rightarrow> (uc\<lparr>uc_catalog := c\<rparr>, Inl err)
                         | (c, Inr sig) \<Rightarrow>
                             (uc\<lparr>uc_catalog := c\<rparr>,
                              Inr (Some \<lparr>r_version = version_to_string sv (rm_version meta), r_required = required,
                                         r_url = ra_url asset, r_signature = sig, r_notes = rm_notes meta,
                                         r_pub_date = rm_pub_date meta\<rparr>))))))"

definition refresh_catalog ::
  "('v :: linorder, 'r) semver \<Rightarrow> github_api \<Rightarrow> 's lru \<Rightarrow> 'v manifest_per_channel config_file \<Rightarrow> ('v, 'r, 's) update_checker
     \<Rightarrow> ('v, 'r, 's) update_checker \<times> (http_error + unit)" where
  "refresh_catalog sv api lru manifest uc =
     (case catalog_refresh sv api lru manifest (uc_catalog uc) of (c, result) \<Rightarrow> (uc\<lparr>uc_catalog := c\<rparr>, result))"

definition update_checker_new :: "('v, 's) dyn_catalog \<Rightarrow> 'r release_policy \<Rightarrow> ('v, 'r, 's) update_checker" where
  "update_checker_new c p = \<lparr>uc_catalog = c, uc_policy = p\<rparr>"

definition checker_is_compatible_protocol :: "('v, 'r) semver \<Rightarrow> ('v, 'r, 's) update_checker \<Rightarrow> 'v \<Rightarrow> bool" where
  "checker_is_compatible_protocol sv uc protocol_version = is_compatible_protocol sv (uc_policy uc) protocol_version"

section \<open>The route\<close>

record version_update_params =
  vu_version :: string
  vu_target :: string
  vu_arch :: string
  vu_bundle_type :: bundle_type
  vu_channel :: "release_channel option"

datatype update_response = UpdateOk release | UpdateNoContent | UpdateProblem nat string string

definition update_route ::
  "'l governor \<Rightarrow> instant \<Rightarrow> ('v :: linorder, 'r) semver \<Rightarrow> github_api \<Rightarrow> 's lru \<Rightarrow> version_update_params \<Rightarrow> string
     \<Rightarrow> 'l rate_limiters \<times> ('v, 'r, 's) update_checker
     \<Rightarrow> ('l rate_limiters \<times> ('v, 'r, 's) update_checker) \<times> (http_error + update_response)" where
  "update_route g now sv api lru params client_ip state =
     (let (limiters, uc) = state
      in case check_version_update g now client_ip limiters of
           (limiters, Some wait) \<Rightarrow> ((limiters, uc), Inl (TooManyRequests (as_secs wait)))
         | (limiters, None) \<Rightarrow>
             (case version_parse sv (vu_version params) of
                None \<Rightarrow>
                  ((limiters, uc), Inr (UpdateProblem 400 ''Invalid version format''
                                          ([CHR 0x27] @ vu_version params @ [CHR 0x27] @ '' is not valid SemVer'')))
              | Some client_ver \<Rightarrow>
                  (let channel = (case vu_channel params of Some ch \<Rightarrow> ch | None \<Rightarrow> release_channel_default)
                   in case check sv api lru channel client_ver (vu_target params) (vu_arch params) (vu_bundle_type params) uc of
                        (uc, Inl err) \<Rightarrow> ((limiters, uc), Inl err)
                      | (uc, Inr (Some rel)) \<Rightarrow> ((limiters, uc), Inr (UpdateOk rel))
                      | (uc, Inr None) \<Rightarrow> ((limiters, uc), Inr UpdateNoContent))))"

section \<open>The loops over a steady catalog\<close>

definition candidates ::
  "('v :: linorder) \<Rightarrow> (release_asset \<Rightarrow> bool) \<Rightarrow> release_channel list \<Rightarrow> (release_channel \<Rightarrow> 'v release_meta list)
     \<Rightarrow> ('v release_meta \<times> release_asset) list" where
  "candidates client_version matches visible listed =
     concat (map (\<lambda>ch. newer_releases client_version matches (listed ch)) visible)"

lemma in_newer_releases:
  "(m, a) \<in> set (newer_releases client_version matches ms) \<longleftrightarrow>
     m \<in> set ms \<and> rm_version m > client_version \<and> find matches (rm_assets m) = Some a"
  by (auto simp: newer_releases_def set_map_filter)

context catalog
begin

lemma collect_newer_steady:
  assumes "steady c"
  shows "\<exists>c'. collect_newer list_op client_version matches chs c newer =
      (c', Inr (newer @ candidates client_version matches chs (listed c))) \<and> listed c' = listed c \<and> steady c'"
  using assms
proof (induction chs arbitrary: c newer)
  case (Cons ch chs)
  obtain c' where c': "list_op c ch = (c', Inr (listed c ch))" "listed c' = listed c" "steady c'"
    using list_cases [OF Cons.prems] by blast
  show ?case
    using Cons.IH [OF c'(3), of "newer @ newer_releases client_version matches (listed c ch)"] c'
    by (simp add: candidates_def)
qed (simp add: candidates_def)

lemma find_required_steady:
  assumes "steady c"
  shows "\<exists>c'. find_required list_op client_version matches policy_required chs c =
      (c', Inr (\<exists>ch \<in> set chs. \<exists>m \<in> set (listed c ch). required_newer client_version matches policy_required ch m)) \<and>
    listed c' = listed c \<and> steady c'"
  using assms
proof (induction chs arbitrary: c)
  case (Cons ch chs)
  obtain c' where c': "list_op c ch = (c', Inr (listed c ch))" "listed c' = listed c" "steady c'"
    using list_cases [OF Cons.prems] by blast
  show ?case
    using Cons.IH [OF c'(3)] c' by (auto simp: list_ex_iff)
qed simp

end

lemma last_sort_key:
  assumes "xs \<noteq> []"
  shows "last (sort_key f xs) \<in> set xs" and "\<And>x. x \<in> set xs \<Longrightarrow> f x \<le> f (last (sort_key f xs))"
proof -
  have "sort_key f xs \<noteq> []" using assms by (metis length_0_conv length_sort)
  then show "last (sort_key f xs) \<in> set xs" by (metis last_in_set set_sort)
  fix x
  assume "x \<in> set xs"
  then have "x \<in> set (sort_key f xs)" by simp
  then obtain i where i: "i < length (sort_key f xs)" "x = sort_key f xs ! i" by (metis in_set_conv_nth)
  have "f x \<le> f (sort_key f xs ! (length (sort_key f xs) - 1))"
    using sorted_nth_mono [OF sorted_sort_key [of f xs], of i "length (sort_key f xs) - 1"] i by simp
  then show "f x \<le> f (last (sort_key f xs))" using \<open>sort_key f xs \<noteq> []\<close> by (simp add: last_conv_nth)
qed

definition update_required ::
  "('v :: linorder) \<Rightarrow> (release_asset \<Rightarrow> bool) \<Rightarrow> (release_channel \<Rightarrow> 'v \<Rightarrow> bool) \<Rightarrow> release_channel list
     \<Rightarrow> (release_channel \<Rightarrow> 'v release_meta list) \<Rightarrow> bool" where
  "update_required client_version matches policy_required visible listed \<longleftrightarrow>
     (\<exists>ch \<in> set visible. \<exists>m \<in> set (listed ch). required_newer client_version matches policy_required ch m)"

lemma in_candidates:
  "m \<in> fst ` set (candidates client_version matches visible listed) \<longleftrightarrow>
     (\<exists>ch \<in> set visible. m \<in> set (listed ch)) \<and> rm_version m > client_version \<and> list_ex matches (rm_assets m)"
proof -
  have found: "(\<exists>a. find matches as = Some a) \<longleftrightarrow> list_ex matches as" for as
    by (induction as) simp_all
  have "m \<in> fst ` set (candidates client_version matches visible listed) \<longleftrightarrow>
      (\<exists>a. (m, a) \<in> set (candidates client_version matches visible listed))" by force
  also have "\<dots> \<longleftrightarrow> (\<exists>ch \<in> set visible. m \<in> set (listed ch)) \<and> rm_version m > client_version \<and>
      (\<exists>a. find matches (rm_assets m) = Some a)"
    unfolding candidates_def by (auto simp: in_newer_releases)
  finally show ?thesis unfolding found .
qed

lemma update_required_candidates:
  "update_required client_version matches policy_required visible listed \<longleftrightarrow>
     (\<exists>ch \<in> set visible. \<exists>m \<in> set (listed ch).
        m \<in> fst ` set (candidates client_version matches visible listed) \<and>
        (rm_required m \<or> policy_required ch (rm_version m)))"
  unfolding update_required_def required_newer_def in_candidates by blast

text \<open>The whole check on a steady catalog.\<close>

lemma check_steady:
  assumes steady: "catalog_steady api (uc_catalog uc)"
    and visible: "visible = visible_channels (uc_policy uc) channel"
    and matches: "matches = asset_matches target arch bundle_type"
    and cands: "cands = candidates client_version matches visible (catalog_releases (uc_catalog uc))"
  shows "\<exists>c. snd (check sv api lru channel client_version target arch bundle_type uc) =
    (if cands = [] then Inr None
     else let (m, a) = last (sort_key (\<lambda>(m, a). rm_version m) cands)
          in map_sum id (\<lambda>sig. Some \<lparr>r_version = version_to_string sv (rm_version m),
               r_required = update_required client_version matches (is_required sv (uc_policy uc)) visible
                              (catalog_releases (uc_catalog uc)),
               r_url = ra_url a, r_signature = sig, r_notes = rm_notes m, r_pub_date = rm_pub_date m\<rparr>)
               (snd (catalog_load_signature api lru c m a)))"
proof -
  obtain c1 where c1: "collect_newer (catalog_list sv api lru) client_version matches visible (uc_catalog uc) [] = (c1, Inr cands)"
      "catalog_releases c1 = catalog_releases (uc_catalog uc)" "catalog_steady api c1"
    using dyn_catalog.collect_newer_steady [OF steady, where newer = "[]" and client_version = client_version
        and matches = matches and chs = visible and sv = sv and lru = lru]
    unfolding cands by auto
  obtain c2 where c2: "find_required (catalog_list sv api lru) client_version matches (is_required sv (uc_policy uc)) visible c1
      = (c2, Inr (update_required client_version matches (is_required sv (uc_policy uc)) visible (catalog_releases (uc_catalog uc))))"
    using dyn_catalog.find_required_steady [OF c1(3), where client_version = client_version and matches = matches
        and chs = visible and sv = sv and lru = lru and policy_required = "is_required sv (uc_policy uc)"]
    unfolding c1(2) update_required_def by auto
  obtain m a where last: "last (sort_key (\<lambda>(m, a). rm_version m) cands) = (m, a)" by fastforce
  obtain c3 res where sig: "catalog_load_signature api lru c2 m a = (c3, res)" by fastforce
  show ?thesis
    unfolding check_def Let_def visible [symmetric] matches [symmetric] c1(1)
    by (rule exI [of _ c2], cases res) (simp_all add: c2 sig last)
qed

text \<open>
  C31: The update check offers the newest release. While the catalog does not reload between its
  calls, the check answers without an update exactly when no channel visible to the client lists a
  newer release with an asset for the client's bundle type, target and architecture. Otherwise it
  offers, of these, one of the highest version with its first matching asset, marked as required
  exactly when any of them is required by its notes or by the policy; the only other answer is the
  failure to load the signature.
\<close>

theorem update_check_newest:
  assumes steady: "catalog_steady api (uc_catalog uc)"
    and cands: "cands = candidates client_version (asset_matches target arch btype)
                  (visible_channels (uc_policy uc) channel) (catalog_releases (uc_catalog uc))"
  shows "case snd (check sv api lru channel client_version target arch btype uc) of
      Inr None \<Rightarrow> cands = []
    | Inr (Some r) \<Rightarrow>
        \<exists>m a. (m, a) \<in> set cands \<and> (\<forall>(m', _) \<in> set cands. rm_version m' \<le> rm_version m) \<and>
          r_version r = version_to_string sv (rm_version m) \<and> r_url r = ra_url a \<and> r_notes r = rm_notes m \<and>
          (\<exists>c. snd (catalog_load_signature api lru c m a) = Inr (r_signature r)) \<and>
          (r_required r \<longleftrightarrow>
            (\<exists>ch \<in> set (visible_channels (uc_policy uc) channel). \<exists>m \<in> set (catalog_releases (uc_catalog uc) ch).
               m \<in> fst ` set cands \<and> (rm_required m \<or> is_required sv (uc_policy uc) ch (rm_version m))))
    | Inl err \<Rightarrow> \<exists>c m a. (m, a) \<in> set cands \<and> snd (catalog_load_signature api lru c m a) = Inl err"
proof -
  obtain c where c: "snd (check sv api lru channel client_version target arch btype uc) =
    (if cands = [] then Inr None
     else let (m, a) = last (sort_key (\<lambda>(m, a). rm_version m) cands)
          in map_sum id (\<lambda>sig. Some \<lparr>r_version = version_to_string sv (rm_version m),
               r_required = update_required client_version (asset_matches target arch btype) (is_required sv (uc_policy uc))
                              (visible_channels (uc_policy uc) channel) (catalog_releases (uc_catalog uc)),
               r_url = ra_url a, r_signature = sig, r_notes = rm_notes m, r_pub_date = rm_pub_date m\<rparr>)
               (snd (catalog_load_signature api lru c m a)))"
    using check_steady [OF steady refl refl cands] by blast
  show ?thesis
  proof (cases "cands = []")
    case False
    obtain m a where last: "last (sort_key (\<lambda>(m, a). rm_version m) cands) = (m, a)" by fastforce
    have newest: "(m, a) \<in> set cands" "\<forall>(m', _) \<in> set cands. rm_version m' \<le> rm_version m"
      using last_sort_key [OF False, where f = "\<lambda>(m, a). rm_version m"] last by fastforce+
    show ?thesis
    proof (cases "snd (catalog_load_signature api lru c m a)")
      case (Inl err)
      then show ?thesis using False last newest(1) unfolding c by auto
    next
      case (Inr s)
      then show ?thesis
        using False last newest unfolding c update_required_candidates cands [symmetric] by auto
    qed
  qed (simp add: c)
qed

section \<open>Examples\<close>

definition example_checker :: "(nat, nat, (string \<times> instant \<times> string) list) update_checker" where
  "example_checker =
     \<lparr>uc_catalog = GitHubCatalog (example_catalog example_first example_second),
      uc_policy = \<lparr>required_ranges = [(Stable, [2])], compatible_protocol_range = 0, visibility = default_visibility\<rparr>\<rparr>"

lemma example_checker_steady: "catalog_steady (example_api example_first example_second) (uc_catalog example_checker)"
proof -
  have "gh_releases_updated_at (example_catalog example_first example_second) = Some 30 \<and>
      gh_release_cache_ttl (example_catalog example_first example_second) = 1000"
    by code_simp
  then show ?thesis by (auto simp: example_checker_def github_steady_def example_api_def min_def)
qed

theorem update_check_newest_witness:
  "snd (check nat_semver (example_api example_first example_second) list_lru Beta 1 ''linux'' ''x86_64'' Deb example_checker)
     \<noteq> Inr None"
proof -
  have "candidates 1 (asset_matches ''linux'' ''x86_64'' Deb) (visible_channels (uc_policy example_checker) Beta)
      (catalog_releases (uc_catalog example_checker)) = [] \<longleftrightarrow> False"
    by code_simp
  then show ?thesis
    using update_check_newest [OF example_checker_steady refl, where sv = nat_semver and lru = list_lru and channel = Beta
        and client_version = 1 and target = "''linux''" and arch = "''x86_64''" and btype = Deb] by auto
qed

text \<open>The release offered to that client, with its signature, and marked as required by the policy.\<close>

lemma example_offer:
  "map_sum id (map_option (\<lambda>r. (r_version r, r_required r, r_signature r)))
     (snd (check nat_semver (example_api example_first example_second) list_lru Beta 1 ''linux'' ''x86_64'' Deb example_checker))
   = Inr (Some (''2.0.0'', True, ''sig of 2.0.0.sig''))"
  by code_simp

end
