(* ===== verification/VatsimSources.thy ===== *)
theory VatsimSources
  imports Clients
begin

text \<open>
  The two sources of controller information: the slurper, which answers for one client at login
  (\<^verbatim>\<open>vacs-vatsim/src/slurper.rs\<close>), and the data feed with its cache, which is read for all clients
  (\<^verbatim>\<open>vacs-vatsim/src/data_feed/vatsim.rs\<close>). The HTTP answers, the crate \<^verbatim>\<open>csv\<close> and the JSON parser are
  parameters: a body is parsed into records of fields, a record that is not well formed being \<open>None\<close>.
\<close>

section \<open>Strings and numbers\<close>

definition eq_ignore_ascii_case :: "string \<Rightarrow> string \<Rightarrow> bool" where
  "eq_ignore_ascii_case s t \<longleftrightarrow> to_ascii_uppercase s = to_ascii_uppercase t"

definition ascii_digit :: "char \<Rightarrow> bool" where
  "ascii_digit c \<longleftrightarrow> (48::nat) \<le> of_char c \<and> of_char c \<le> (57::nat)"

definition parse_digits :: "string \<Rightarrow> int option" where
  "parse_digits s =
     (if s \<noteq> [] \<and> list_all ascii_digit s then Some (foldl (\<lambda>n c. n * 10 + (of_char c - 48)) 0 s) else None)"

text \<open>\<^verbatim>\<open>str::parse::<i32>\<close>: an optional sign, digits, and no overflow.\<close>

definition parse_i32 :: "string \<Rightarrow> int option" where
  "parse_i32 s =
     (let value = (case s of
                     [] \<Rightarrow> None
                   | c # digits \<Rightarrow>
                       if c = CHR ''+'' then parse_digits digits
                       else if c = CHR ''-'' then map_option uminus (parse_digits digits)
                       else parse_digits s)
      in case value of
           Some v \<Rightarrow> if - (2 ^ 31) \<le> v \<and> v < 2 ^ 31 then Some v else None
         | None \<Rightarrow> None)"

text \<open>The facility type of a callsign (\<^verbatim>\<open>From<&str>\<close>).\<close>

definition facility_of_callsign :: "string \<Rightarrow> facility_type" where
  "facility_of_callsign callsign = (case facility_from_str callsign of Some f \<Rightarrow> f | None \<Rightarrow> FacilityUnknown)"

section \<open>The slurper\<close>

definition SLURPER_CALLSIGN_FIELD_INDEX :: nat where "SLURPER_CALLSIGN_FIELD_INDEX = 1"
definition SLURPER_FACILITY_TYPE_FIELD_INDEX :: nat where "SLURPER_FACILITY_TYPE_FIELD_INDEX = 2"
definition SLURPER_FREQUENCY_FIELD_INDEX :: nat where "SLURPER_FREQUENCY_FIELD_INDEX = 3"
definition SLURPER_VISIBILITY_RANGE_FIELD_INDEX :: nat where "SLURPER_VISIBILITY_RANGE_FIELD_INDEX = 4"
definition SLURPER_FACILITY_TYPE_ATC :: string where "SLURPER_FACILITY_TYPE_ATC = ''atc''"
definition SLURPER_FACILITY_TYPE_PILOT :: string where "SLURPER_FACILITY_TYPE_PILOT = ''pilot''"

datatype slurper_error = SlurperRequest

text \<open>The answer to a request: it fails, or has a status and a body, which may not be readable.\<close>

datatype slurper_response = SlurperSendFailed | SlurperResponse nat "string option"

record slurper_env =
  slurper_get :: "client_id \<Rightarrow> slurper_response"
  csv_records :: "string \<Rightarrow> string list option list"

definition record_get :: "string list \<Rightarrow> nat \<Rightarrow> string option" where
  "record_get record i = (if i < length record then Some (record ! i) else None)"

definition unwrap_or :: "'a option \<Rightarrow> 'a \<Rightarrow> 'a" where
  "unwrap_or x d = (case x of Some y \<Rightarrow> y | None \<Rightarrow> d)"

definition extract_controller_info :: "client_id \<Rightarrow> string list \<Rightarrow> controller_info option" where
  "extract_controller_info cid record =
     (let facility_type = unwrap_or (record_get record SLURPER_FACILITY_TYPE_FIELD_INDEX) SLURPER_FACILITY_TYPE_PILOT
      in if \<not> eq_ignore_ascii_case facility_type SLURPER_FACILITY_TYPE_ATC then None
         else
           (let visibility_range =
                  unwrap_or (parse_i32 (unwrap_or (record_get record SLURPER_VISIBILITY_RANGE_FIELD_INDEX) ''0'')) 0
            in if visibility_range = 0 then None
               else (case record_get record SLURPER_CALLSIGN_FIELD_INDEX of
                       None \<Rightarrow> None
                     | Some callsign \<Rightarrow>
                         if callsign = [] then None
                         else (case record_get record SLURPER_FREQUENCY_FIELD_INDEX of
                                 None \<Rightarrow> None
                               | Some frequency \<Rightarrow>
                                   if frequency = [] then None
                                   else (let facility_type = facility_of_callsign callsign
                                         in if facility_type = FacilityUnknown then None
                                            else Some \<lparr>ctl_cid = cid, ctl_callsign = callsign, ctl_frequency = frequency,
                                                       ctl_facility_type = facility_type,
                                                       ctl_visual_range =
                                                         (if visibility_range \<ge> 0 then Some (word_of_int visibility_range)
                                                          else None)\<rparr>)))))"

text \<open>The loop over the records: one that cannot be parsed is skipped, the first that yields a controller ends it.\<close>

primrec first_controller :: "client_id \<Rightarrow> string list option list \<Rightarrow> controller_info option" where
  "first_controller cid [] = None"
| "first_controller cid (result # results) =
     (case result of
        None \<Rightarrow> first_controller cid results
      | Some record \<Rightarrow>
          (case extract_controller_info cid record of
             Some info \<Rightarrow> Some info
           | None \<Rightarrow> first_controller cid results))"

definition parse_slurper_data :: "slurper_env \<Rightarrow> client_id \<Rightarrow> string \<Rightarrow> controller_info option" where
  "parse_slurper_data se cid body = first_controller cid (csv_records se body)"

definition fetch_slurper_data :: "slurper_env \<Rightarrow> client_id \<Rightarrow> slurper_error + string" where
  "fetch_slurper_data se cid =
     (case slurper_get se cid of
        SlurperSendFailed \<Rightarrow> Inl SlurperRequest
      | SlurperResponse status body \<Rightarrow>
          if 400 \<le> status \<and> status < 600 then Inl SlurperRequest
          else (case body of Some b \<Rightarrow> Inr b | None \<Rightarrow> Inl SlurperRequest))"

definition get_controller_info :: "slurper_env \<Rightarrow> client_id \<Rightarrow> slurper_error + controller_info option" where
  "get_controller_info se cid =
     (if client_id_str cid = [] then Inr None
      else (case fetch_slurper_data se cid of
              Inl err \<Rightarrow> Inl err
            | Inr body \<Rightarrow> if body = [] then Inr None else Inr (parse_slurper_data se cid body)))"

section \<open>The data feed\<close>

datatype json_range = JsonNull | JsonU64 u64 | JsonOther

definition lenient_visual_range :: "json_range \<Rightarrow> u32 option" where
  "lenient_visual_range value =
     (case value of
        JsonU64 v \<Rightarrow> if unat v < 2 ^ 32 then Some (ucast v) else None
      | _ \<Rightarrow> None)"

record feed_controller =
  fd_cid :: int
  fd_callsign :: string
  fd_frequency :: string
  fd_visual_range :: "u32 option"

text \<open>\<^verbatim>\<open>i32::to_string\<close>, from which the client id is made.\<close>

fun show_digits :: "nat \<Rightarrow> string" where
  "show_digits n = (if n < 10 then [char_of (48 + n)] else show_digits (n div 10) @ [char_of (48 + n mod 10)])"

declare show_digits.simps [simp del]

definition client_id_of_i32 :: "int \<Rightarrow> client_id" where
  "client_id_of_i32 v = ClientId (if v < 0 then CHR ''-'' # show_digits (nat (- v)) else show_digits (nat v))"

definition controller_info_of_feed :: "feed_controller \<Rightarrow> controller_info" where
  "controller_info_of_feed v =
     \<lparr>ctl_cid = client_id_of_i32 (fd_cid v), ctl_callsign = fd_callsign v, ctl_frequency = fd_frequency v,
      ctl_facility_type = facility_of_callsign (fd_callsign v), ctl_visual_range = fd_visual_range v\<rparr>"

definition DATA_FEED_DEFAULT_CACHE_TTL :: duration where
  "DATA_FEED_DEFAULT_CACHE_TTL = from_secs 15"

record feed_cache =
  fch_data :: "controller_info list"
  fch_updated_at :: instant

record vatsim_data_feed =
  feed_cache_ttl :: duration
  feed_cache :: "feed_cache option"

definition vatsim_data_feed_new :: vatsim_data_feed where
  "vatsim_data_feed_new = \<lparr>feed_cache_ttl = DATA_FEED_DEFAULT_CACHE_TTL, feed_cache = None\<rparr>"

definition with_cache_ttl :: "duration \<Rightarrow> vatsim_data_feed \<Rightarrow> vatsim_data_feed" where
  "with_cache_ttl ttl feed = feed\<lparr>feed_cache_ttl := ttl, feed_cache := None\<rparr>"

text \<open>
  One request: the time at which the cache is looked at, the parsed answer of the server (\<open>None\<close> when
  the request fails or the body is no feed), and the time at which the answer is stored.
\<close>

record feed_request =
  fq_now :: instant
  fq_answer :: "feed_controller list option"
  fq_stored_at :: instant

definition fetch_controller_info ::
  "feed_request \<Rightarrow> vatsim_data_feed \<Rightarrow> vatsim_data_feed \<times> controller_info list option" where
  "fetch_controller_info q feed =
     (let fetch = (case fq_answer q of
                     None \<Rightarrow> (feed, None)
                   | Some controllers \<Rightarrow>
                       (let data = map controller_info_of_feed controllers
                        in (feed\<lparr>feed_cache := Some \<lparr>fch_data = data, fch_updated_at = fq_stored_at q\<rparr>\<rparr>, Some data)))
      in case feed_cache feed of
           Some cache \<Rightarrow> if fq_now q - fch_updated_at cache < feed_cache_ttl feed then (feed, Some (fch_data cache)) else fetch
         | None \<Rightarrow> fetch)"

section \<open>Properties of the slurper\<close>

text \<open>A record of an active controller connection.\<close>

definition controller_record :: "string list \<Rightarrow> bool" where
  "controller_record r \<longleftrightarrow>
     length r > 4 \<and> eq_ignore_ascii_case (r ! 2) ''atc'' \<and> parse_i32 (r ! 4) \<notin> {None, Some 0} \<and>
     r ! 1 \<noteq> [] \<and> r ! 3 \<noteq> [] \<and> facility_of_callsign (r ! 1) \<noteq> FacilityUnknown"

definition record_controller :: "client_id \<Rightarrow> string list \<Rightarrow> controller_info" where
  "record_controller cid r =
     \<lparr>ctl_cid = cid, ctl_callsign = r ! 1, ctl_frequency = r ! 3, ctl_facility_type = facility_of_callsign (r ! 1),
      ctl_visual_range = (if the (parse_i32 (r ! 4)) \<ge> 0 then Some (word_of_int (the (parse_i32 (r ! 4)))) else None)\<rparr>"

lemmas slurper_fields = SLURPER_CALLSIGN_FIELD_INDEX_def SLURPER_FACILITY_TYPE_FIELD_INDEX_def
  SLURPER_FREQUENCY_FIELD_INDEX_def SLURPER_VISIBILITY_RANGE_FIELD_INDEX_def SLURPER_FACILITY_TYPE_ATC_def
  SLURPER_FACILITY_TYPE_PILOT_def

lemma parse_i32_zero: "parse_i32 ''0'' = Some 0"
  by (simp add: parse_i32_def parse_digits_def ascii_digit_def)

lemma pilot_no_atc: "\<not> eq_ignore_ascii_case ''pilot'' ''atc''"
  by (simp add: eq_ignore_ascii_case_def to_ascii_uppercase_def)

lemma extract_controller_info_iff:
  "extract_controller_info cid r = (if controller_record r then Some (record_controller cid r) else None)"
proof (cases "length r > 4")
  case True
  then show ?thesis
    by (cases "parse_i32 (r ! 4)")
      (auto simp: extract_controller_info_def controller_record_def record_controller_def record_get_def unwrap_or_def
        slurper_fields Let_def)
next
  case False
  then show ?thesis
    by (auto simp: extract_controller_info_def controller_record_def record_get_def unwrap_or_def slurper_fields
        parse_i32_zero pilot_no_atc Let_def)
qed

text \<open>
  The slurper answers with the first record of the body that is a controller connection with a
  known facility, a callsign, a frequency and a visibility range that is not zero; records that
  cannot be parsed are skipped. The answer is always about the client that was asked for.
\<close>

theorem slurper_first_controller:
  "parse_slurper_data se cid body =
     map_option (record_controller cid) (find controller_record (List.map_filter (\<lambda>r. r) (csv_records se body)))"
proof -
  have "first_controller cid rs = map_option (record_controller cid) (find controller_record (List.map_filter (\<lambda>r. r) rs))" for rs
    by (induction rs) (auto simp: map_filter_simps extract_controller_info_iff split: option.splits)
  then show ?thesis by (simp add: parse_slurper_data_def)
qed

lemma get_controller_info_known:
  assumes "get_controller_info se cid = Inr (Some info)"
  shows "ctl_cid info = cid \<and> ctl_facility_type info \<noteq> FacilityUnknown"
proof -
  have "first_controller cid rs = Some info \<Longrightarrow> ctl_cid info = cid \<and> ctl_facility_type info \<noteq> FacilityUnknown" for rs
    by (induction rs) (auto simp: extract_controller_info_iff controller_record_def record_controller_def split: option.splits if_splits)
  with assms show ?thesis
    by (auto simp: get_controller_info_def parse_slurper_data_def split: if_splits sum.splits)
qed

text \<open>A negative visibility range is not zero: such a connection counts as active.\<close>

theorem negative_range_accepted:
  "extract_controller_info cid [''1'', ''LOWW_TWR'', ''atc'', ''119.400'', ''-5''] =
     Some \<lparr>ctl_cid = cid, ctl_callsign = ''LOWW_TWR'', ctl_frequency = ''119.400'', ctl_facility_type = Tower,
           ctl_visual_range = None\<rparr>"
  by code_simp

section \<open>Properties of the data feed\<close>

definition feed_ok :: "duration \<Rightarrow> feed_request list \<Rightarrow> vatsim_data_feed \<Rightarrow> bool" where
  "feed_ok ttl past feed \<longleftrightarrow>
     feed_cache_ttl feed = ttl \<and>
     (\<forall>cache. feed_cache feed = Some cache \<longrightarrow>
        (\<exists>q \<in> set past. \<exists>controllers. fq_answer q = Some controllers \<and>
           fch_data cache = map controller_info_of_feed controllers \<and> fch_updated_at cache = fq_stored_at q))"

primrec feed_run :: "feed_request list \<Rightarrow> vatsim_data_feed \<Rightarrow> vatsim_data_feed" where
  "feed_run [] feed = feed"
| "feed_run (q # qs) feed = feed_run qs (fst (fetch_controller_info q feed))"

lemma fetch_controller_info_cases:
  obtains (cached) cache where "feed_cache feed = Some cache" "fq_now q - fch_updated_at cache < feed_cache_ttl feed"
      "fetch_controller_info q feed = (feed, Some (fch_data cache))"
  | (failed) "fq_answer q = None" "fetch_controller_info q feed = (feed, None)"
  | (fetched) controllers where "fq_answer q = Some controllers"
      "fetch_controller_info q feed =
         (feed\<lparr>feed_cache := Some \<lparr>fch_data = map controller_info_of_feed controllers, fch_updated_at = fq_stored_at q\<rparr>\<rparr>,
          Some (map controller_info_of_feed controllers))"
proof (cases "\<exists>cache. feed_cache feed = Some cache \<and> fq_now q - fch_updated_at cache < feed_cache_ttl feed")
  case True
  then show thesis using cached by (auto simp: fetch_controller_info_def)
next
  case False
  then show thesis using failed fetched
    by (cases "fq_answer q") (auto simp: fetch_controller_info_def Let_def split: option.splits)
qed

lemma feed_ok_run: "feed_ok ttl past feed \<Longrightarrow> feed_ok ttl (past @ qs) (feed_run qs feed)"
proof (induction qs arbitrary: past feed)
  case (Cons q qs)
  have "feed_ok ttl (past @ [q]) (fst (fetch_controller_info q feed))"
    by (cases rule: fetch_controller_info_cases [of feed q]) (use Cons.prems in \<open>auto simp: feed_ok_def\<close>)
  from Cons.IH [OF this] show ?case by simp
qed simp

text \<open>
  The controllers the data feed hands out are an answer of the VATSIM server, converted entry by
  entry: the answer to this very request, or one to an earlier request that was stored less than
  the configured lifetime ago.
\<close>

theorem feed_data_fresh:
  assumes "fetch_controller_info q (feed_run past (with_cache_ttl ttl vatsim_data_feed_new)) = (feed', Some data)"
  shows "\<exists>q' \<in> set (past @ [q]). \<exists>controllers. fq_answer q' = Some controllers \<and>
           data = map controller_info_of_feed controllers \<and> (q' = q \<or> fq_now q - fq_stored_at q' < ttl)"
proof -
  let ?feed = "feed_run past (with_cache_ttl ttl vatsim_data_feed_new)"
  have "feed_ok ttl [] (with_cache_ttl ttl vatsim_data_feed_new)" by (simp add: feed_ok_def with_cache_ttl_def)
  from feed_ok_run [OF this, of past] have ok: "feed_ok ttl past ?feed" by simp
  show ?thesis
  proof (cases rule: fetch_controller_info_cases [of ?feed q])
    case (cached cache)
    with ok assms show ?thesis by (fastforce simp: feed_ok_def)
  next
    case failed
    with assms show ?thesis by simp
  next
    case (fetched controllers)
    with assms show ?thesis by auto
  qed
qed

theorem feed_data_fresh_witness:
  "\<exists>q' \<in> {\<lparr>fq_now = 0, fq_answer = Some [], fq_stored_at = 1\<rparr>, \<lparr>fq_now = 5, fq_answer = None, fq_stored_at = 0\<rparr>}.
     fq_answer q' = Some []"
proof -
  let ?first = "\<lparr>fq_now = 0, fq_answer = Some [], fq_stored_at = 1\<rparr>"
    and ?second = "\<lparr>fq_now = 5, fq_answer = None, fq_stored_at = 0\<rparr>"
  let ?feed = "feed_run [?first] (with_cache_ttl 10 vatsim_data_feed_new)"
  have "fetch_controller_info ?second ?feed = (?feed, Some [])"
    by (simp add: fetch_controller_info_def with_cache_ttl_def vatsim_data_feed_new_def)
  from feed_data_fresh [OF this] show ?thesis by auto
qed

end
