(* ===== verification/Dataset.thy ===== *)
theory Dataset
  imports Network Releases
begin

text \<open>
  The coverage dataset on disk and its updates from GitHub, \<^verbatim>\<open>vacs-server/src/dataset.rs\<close>, and the
  choice of the first network in \<^verbatim>\<open>main.rs\<close>. The file system is the part the code touches: the
  coverage directory, its backup beside it and the extracted download. What each access to the
  file system and to GitHub answers is a parameter. A directory is what reading it yields: the raw
  regions with the errors of reading them, and the file with the commit it was installed from.
\<close>

section \<open>Directories and the file system\<close>

record dataset_dir =
  dd_raw_firs :: "fir_raw list"
  dd_errors :: "coverage_error list"
  dd_version_file :: "string option"

record dataset_fs =
  fs_coverage :: "dataset_dir option"
  fs_backup :: "dataset_dir option"
  fs_download :: "dataset_dir option"

text \<open>
  The answers of the file system to one replacement of the coverage directory. A removal that fails
  leaves what it has not removed yet.
\<close>

record replace_answers =
  fa_remove_stale :: "dataset_dir option"
  fa_rename_current :: bool
  fa_rename_new :: bool
  fa_rollback :: bool
  fa_create_parent :: bool
  fa_remove_backup :: "dataset_dir option"

section \<open>Replacing the directory\<close>

text \<open>
  \<^verbatim>\<open>atomic_replace_dir\<close> with the states the file system goes through, one after each operation,
  the last one being its result, and whether it succeeds.
\<close>

definition atomic_replace_dir :: "replace_answers \<Rightarrow> dataset_fs \<Rightarrow> dataset_fs list \<times> bool" where
  "atomic_replace_dir a fs =
     (if fs_backup fs \<noteq> None \<and> fa_remove_stale a \<noteq> None then ([fs\<lparr>fs_backup := fa_remove_stale a\<rparr>], False)
      else
        (let fs = fs\<lparr>fs_backup := None\<rparr>
         in if fs_coverage fs \<noteq> None
            then (if \<not> fa_rename_current a then ([fs], False)
                  else
                    (let moved = fs\<lparr>fs_coverage := None, fs_backup := fs_coverage fs\<rparr>
                     in if \<not> fa_rename_new a
                        then (if fa_rollback a
                              then ([fs, moved, moved\<lparr>fs_coverage := fs_backup moved, fs_backup := None\<rparr>], False)
                              else ([fs, moved], False))
                        else (let placed = moved\<lparr>fs_coverage := fs_download moved, fs_download := None\<rparr>
                              in ([fs, moved, placed, placed\<lparr>fs_backup := fa_remove_backup a\<rparr>], True))))
            else (if \<not> fa_create_parent a \<or> \<not> fa_rename_new a then ([fs], False)
                  else ([fs, fs\<lparr>fs_coverage := fs_download fs, fs_download := None\<rparr>], True))))"

section \<open>The dataset manager\<close>

datatype git_object = CommitObject string | TagObject string | OtherObject

text \<open>
  What GitHub and the file system answer to one installation: the extracted tarball of a ref as its
  top-level entries (whether an entry is a directory, and its \<^verbatim>\<open>dataset\<close> subdirectory if it has one), the
  object of the deployed tag, the target of an annotated tag with its type.
\<close>

record dataset_api =
  da_tarball :: "string \<Rightarrow> (bool \<times> dataset_dir option) list option"
  da_get_ref :: "git_object option"
  da_get_tag :: "string \<Rightarrow> (string \<times> string) option"
  da_answers :: replace_answers
  da_write_version :: bool

definition local_sha :: "dataset_fs \<Rightarrow> string option" where
  "local_sha fs =
     (case Option.bind (fs_coverage fs) dd_version_file of
        Some s \<Rightarrow> if trim s \<noteq> [] then Some (trim s) else None
      | None \<Rightarrow> None)"

definition save_sha :: "dataset_api \<Rightarrow> string \<Rightarrow> dataset_fs \<Rightarrow> dataset_fs \<times> bool" where
  "save_sha api sha fs =
     (if da_write_version api
      then (fs\<lparr>fs_coverage := map_option (\<lambda>d. d\<lparr>dd_version_file := Some sha\<rparr>) (fs_coverage fs)\<rparr>, True)
      else (fs, False))"

definition resolve_tag_to_commit_sha :: "dataset_api \<Rightarrow> string \<Rightarrow> string option" where
  "resolve_tag_to_commit_sha api tag_object_sha =
     (case da_get_tag api tag_object_sha of
        None \<Rightarrow> None
      | Some (sha, type) \<Rightarrow> if type = ''commit'' then Some sha else None)"

definition resolve_deployed_sha :: "dataset_api \<Rightarrow> string option" where
  "resolve_deployed_sha api =
     (case da_get_ref api of
        None \<Rightarrow> None
      | Some (CommitObject sha) \<Rightarrow> Some sha
      | Some (TagObject sha) \<Rightarrow> resolve_tag_to_commit_sha api sha
      | Some OtherObject \<Rightarrow> None)"

definition find_dataset_dir :: "(bool \<times> dataset_dir option) list \<Rightarrow> dataset_dir option" where
  "find_dataset_dir extracted = (case find fst extracted of None \<Rightarrow> None | Some (_, dataset) \<Rightarrow> dataset)"

definition load_from_dir :: "(string \<Rightarrow> bool) \<Rightarrow> dataset_dir option \<Rightarrow> network option" where
  "load_from_dir is_freq dir =
     (case dir of
        None \<Rightarrow> None
      | Some d \<Rightarrow> (case build_network is_freq (dd_raw_firs d) (dd_errors d) of Inl _ \<Rightarrow> None | Inr net \<Rightarrow> Some net))"

text \<open>The temporary directory of the download is removed when the function returns.\<close>

definition fetch_and_install ::
  "(string \<Rightarrow> bool) \<Rightarrow> dataset_api \<Rightarrow> string \<Rightarrow> string \<Rightarrow> dataset_fs \<Rightarrow> dataset_fs \<times> network option" where
  "fetch_and_install is_freq api ref_name commit_sha fs =
     (case da_tarball api ref_name of
        None \<Rightarrow> (fs, None)
      | Some extracted \<Rightarrow>
          (case find_dataset_dir extracted of
             None \<Rightarrow> (fs, None)
           | Some dataset \<Rightarrow>
               (case load_from_dir is_freq (Some dataset) of
                  None \<Rightarrow> (fs, None)
                | Some network \<Rightarrow>
                    (case atomic_replace_dir (da_answers api) (fs\<lparr>fs_download := Some dataset\<rparr>) of
                       (states, False) \<Rightarrow> ((last states)\<lparr>fs_download := None\<rparr>, None)
                     | (states, True) \<Rightarrow>
                         (case save_sha api commit_sha (last states) of
                            (fs, False) \<Rightarrow> (fs\<lparr>fs_download := None\<rparr>, None)
                          | (fs, True) \<Rightarrow> (fs\<lparr>fs_download := None\<rparr>, Some network))))))"

definition sync_on_startup ::
  "(string \<Rightarrow> bool) \<Rightarrow> dataset_api \<Rightarrow> dataset_fs \<Rightarrow> dataset_fs \<times> network option" where
  "sync_on_startup is_freq api fs =
     (case resolve_deployed_sha api of
        None \<Rightarrow> (fs, None)
      | Some deployed_sha \<Rightarrow>
          if local_sha fs = Some deployed_sha then (fs, None)
          else fetch_and_install is_freq api deployed_sha deployed_sha fs)"

text \<open>The network the server starts with; \<open>None\<close> ends the program.\<close>

definition startup_network ::
  "(string \<Rightarrow> bool) \<Rightarrow> dataset_api option \<Rightarrow> dataset_fs \<Rightarrow> dataset_fs \<times> network option" where
  "startup_network is_freq dataset_manager fs =
     (case dataset_manager of
        Some api \<Rightarrow>
          (case sync_on_startup is_freq api fs of
             (fs, Some network) \<Rightarrow> (fs, Some network)
           | (fs, None) \<Rightarrow> (fs, load_from_dir is_freq (fs_coverage fs)))
      | None \<Rightarrow> (fs, load_from_dir is_freq (fs_coverage fs)))"

section \<open>Nothing is lost\<close>

text \<open>The dataset before the replacement or the new one is in place, or the old one in the backup.\<close>

definition dataset_safe :: "dataset_dir \<Rightarrow> dataset_dir \<Rightarrow> dataset_fs \<Rightarrow> bool" where
  "dataset_safe old new fs \<longleftrightarrow>
     fs_coverage fs = Some old \<or> fs_coverage fs = Some new \<or> fs_coverage fs = None \<and> fs_backup fs = Some old"

text \<open>
  C35: The replacement of the coverage directory never loses the dataset. Whichever operations of the
  file system fail, and wherever the program stops in between, the old or the new dataset is in
  place or the old one is complete in the backup. On success the new one is in place; after a
  failure the old one is, unless moving it back failed as well.
\<close>

theorem atomic_replace_never_loses:
  assumes "fs_coverage fs = Some old" and "fs_download fs = Some new" and "atomic_replace_dir a fs = (states, ok)"
  shows "states \<noteq> [] \<and> (\<forall>s \<in> set states. dataset_safe old new s) \<and>
    (if ok then fs_coverage (last states) = Some new
     else fs_coverage (last states) = Some old \<or> \<not> fa_rename_new a \<and> \<not> fa_rollback a)"
  using assms by (auto simp: atomic_replace_dir_def dataset_safe_def Let_def split: if_splits)

lemma atomic_replace_placed:
  "atomic_replace_dir a fs = (states, True) \<Longrightarrow> fs_coverage (last states) = fs_download fs"
  by (auto simp: atomic_replace_dir_def Let_def split: if_splits)

lemma atomic_replace_failed:
  "atomic_replace_dir a fs = (states, False) \<Longrightarrow>
     fs_coverage (last states) = fs_coverage fs \<or> fs_coverage (last states) = None \<and> fs_backup (last states) = fs_coverage fs"
  by (auto simp: atomic_replace_dir_def Let_def split: if_splits)

lemma load_version_file [simp]:
  "load_from_dir is_freq (Some (d\<lparr>dd_version_file := v\<rparr>)) = load_from_dir is_freq (Some d)"
  by (simp add: load_from_dir_def)

lemma fetch_and_installE:
  obtains (unchanged) "fetch_and_install is_freq api ref_name sha fs = (fs, None)"
  | (not_replaced) dataset states where
      "atomic_replace_dir (da_answers api) (fs\<lparr>fs_download := Some dataset\<rparr>) = (states, False)"
      "fetch_and_install is_freq api ref_name sha fs = ((last states)\<lparr>fs_download := None\<rparr>, None)"
  | (replaced) dataset network states where
      "load_from_dir is_freq (Some dataset) = Some network"
      "atomic_replace_dir (da_answers api) (fs\<lparr>fs_download := Some dataset\<rparr>) = (states, True)"
      "fs_coverage (last states) = Some dataset"
      "fetch_and_install is_freq api ref_name sha fs =
         (if da_write_version api
          then ((last states)\<lparr>fs_coverage := Some (dataset\<lparr>dd_version_file := Some sha\<rparr>), fs_download := None\<rparr>, Some network)
          else ((last states)\<lparr>fs_download := None\<rparr>, None))"
proof (cases "Option.bind (da_tarball api ref_name) find_dataset_dir")
  case None
  then show thesis by (intro unchanged) (auto simp: fetch_and_install_def split: option.splits)
next
  case (Some dataset)
  then obtain extracted where e: "da_tarball api ref_name = Some extracted" "find_dataset_dir extracted = Some dataset"
    by (auto simp: bind_eq_Some_conv)
  obtain states ok where r: "atomic_replace_dir (da_answers api) (fs\<lparr>fs_download := Some dataset\<rparr>) = (states, ok)" by fastforce
  show thesis
  proof (cases "load_from_dir is_freq (Some dataset)")
    case None
    with e show thesis by (intro unchanged) (simp add: fetch_and_install_def)
  next
    case (Some network)
    show thesis
    proof (cases ok)
      case True
      then have p: "fs_coverage (last states) = Some dataset" using atomic_replace_placed r by fastforce
      with True Some e r show thesis
        by (intro replaced [of dataset network states]) (simp_all add: fetch_and_install_def save_sha_def)
    next
      case False
      with Some e r show thesis by (intro not_replaced [of dataset states]) (simp_all add: fetch_and_install_def)
    qed
  qed
qed

lemma fetch_and_install_ok:
  assumes "fetch_and_install is_freq api ref_name sha fs = (fs', Some network)"
  shows "load_from_dir is_freq (fs_coverage fs') = Some network \<and> Option.bind (fs_coverage fs') dd_version_file = Some sha"
proof (cases rule: fetch_and_installE [of is_freq api ref_name sha fs])
  case (replaced dataset network' states)
  with assms show ?thesis by (auto split: if_splits)
qed (use assms in simp_all)

lemma fetch_and_install_failed:
  assumes "fetch_and_install is_freq api ref_name sha fs = (fs', None)"
    and "load_from_dir is_freq (fs_coverage fs) \<noteq> None"
  shows "load_from_dir is_freq (fs_coverage fs') \<noteq> None \<or> fs_coverage fs' = None \<and> fs_backup fs' = fs_coverage fs"
proof (cases rule: fetch_and_installE [of is_freq api ref_name sha fs])
  case unchanged
  with assms show ?thesis by simp
next
  case (not_replaced dataset states)
  with assms atomic_replace_failed [OF not_replaced(1)] show ?thesis by auto
next
  case (replaced dataset network states)
  with assms show ?thesis by (auto split: if_splits)
qed

lemma load_from_dir_wf: "load_from_dir is_freq dir = Some network \<Longrightarrow> network_wf network"
  by (auto simp: load_from_dir_def dest: build_network_consistent split: option.splits sum.splits)

lemma sync_cases:
  obtains (skipped) "sync_on_startup is_freq api fs = (fs, None)"
  | (fetched) sha where "resolve_deployed_sha api = Some sha" "local_sha fs \<noteq> Some sha"
      "sync_on_startup is_freq api fs = fetch_and_install is_freq api sha sha fs"
  by (cases "resolve_deployed_sha api"; cases "local_sha fs = resolve_deployed_sha api")
    (auto simp: sync_on_startup_def)

lemma sync_on_startup_ok:
  "sync_on_startup is_freq api fs = (fs', Some network) \<Longrightarrow> load_from_dir is_freq (fs_coverage fs') = Some network"
  by (cases rule: sync_cases [of is_freq api fs]) (auto dest: fetch_and_install_ok)


text \<open>An installed dataset is up to date at the next start: nothing is downloaded again.\<close>

theorem sync_twice:
  assumes "sync_on_startup is_freq api fs = (fs', Some network)" and "resolve_deployed_sha api = Some sha"
    and "resolve_deployed_sha api' = Some sha" and "trim sha = sha" and "sha \<noteq> []"
  shows "sync_on_startup is_freq api' fs' = (fs', None)"
proof (cases rule: sync_cases [of is_freq api fs])
  case (fetched sha')
  with assms(1,2) have "fetch_and_install is_freq api sha sha fs = (fs', Some network)" by simp
  from fetch_and_install_ok [OF this] have "local_sha fs' = Some sha"
    using assms(4,5) by (simp add: local_sha_def)
  with assms(3) show ?thesis by (simp add: sync_on_startup_def)
qed (use assms(1) in simp)

text \<open>
  The backup is never put back at a later start. After a stop between the two moves the coverage
  directory is missing: without GitHub the server does not start, although the backup is complete,
  and the next installation removes the backup before the new dataset is in place.
\<close>

theorem backup_not_restored:
  assumes "fs_coverage fs = None" and "fs_backup fs = Some old"
  shows "da_get_ref api = None \<Longrightarrow> startup_network is_freq (Some api) fs = (fs, None)"
    and "fa_remove_stale a = None \<Longrightarrow> \<exists>s \<in> set (fst (atomic_replace_dir a fs)). fs_coverage s = None \<and> fs_backup s = None"
  using assms
  by (simp_all add: startup_network_def sync_on_startup_def resolve_deployed_sha_def load_from_dir_def atomic_replace_dir_def Let_def)

text \<open>When the version file cannot be written, the new dataset is in place but reported as not installed.\<close>

theorem version_file_failure:
  assumes "atomic_replace_dir (da_answers api) (fs\<lparr>fs_download := Some dataset\<rparr>) = (states, True)"
    and "da_tarball api ref_name = Some [(True, Some dataset)]" and "load_from_dir is_freq (Some dataset) = Some network"
    and "\<not> da_write_version api"
  shows "snd (fetch_and_install is_freq api ref_name sha fs) = None \<and>
    fs_coverage (fst (fetch_and_install is_freq api ref_name sha fs)) = Some dataset"
  using assms atomic_replace_placed [OF assms(1)]
  by (simp add: fetch_and_install_def find_dataset_dir_def save_sha_def)

section \<open>Examples\<close>

definition example_dir :: dataset_dir where
  "example_dir = \<lparr>dd_raw_firs = [demo_fir], dd_errors = [], dd_version_file = Some ''a1''\<rparr>"

definition example_answers :: "bool \<Rightarrow> replace_answers" where
  "example_answers ok = \<lparr>fa_remove_stale = None, fa_rename_current = True, fa_rename_new = ok, fa_rollback = True,
                         fa_create_parent = True, fa_remove_backup = None\<rparr>"

definition example_fs :: dataset_fs where
  "example_fs = \<lparr>fs_coverage = Some example_dir, fs_backup = None, fs_download = None\<rparr>"

definition example_dataset_api :: "bool \<Rightarrow> dataset_api" where
  "example_dataset_api ok =
     \<lparr>da_tarball = (\<lambda>_. Some [(False, None), (True, Some (example_dir\<lparr>dd_version_file := None\<rparr>))]),
      da_get_ref = Some (TagObject ''t''), da_get_tag = (\<lambda>_. Some (''b2'', ''commit'')),
      da_answers = example_answers ok, da_write_version = True\<rparr>"

theorem atomic_replace_never_loses_witness:
  "fs_coverage (last (fst (atomic_replace_dir (example_answers False)
     (example_fs\<lparr>fs_download := Some (example_dir\<lparr>dd_version_file := None\<rparr>)\<rparr>)))) = Some example_dir"
  using atomic_replace_never_loses [of "example_fs\<lparr>fs_download := Some (example_dir\<lparr>dd_version_file := None\<rparr>)\<rparr>" example_dir
      "example_dir\<lparr>dd_version_file := None\<rparr>" "example_answers False"]
  by (auto simp: example_fs_def example_answers_def atomic_replace_dir_def Let_def)

lemma example_loads: "load_from_dir demo_freq (Some example_dir) = Some demo_network"
  by (simp add: load_from_dir_def example_dir_def demo_network_built)


end
