(* ===== verification/Admin.thy ===== *)
theory Admin
  imports Dataset UpdateCheck ServerSystem
begin

text \<open>
  The administrative routes of \<^verbatim>\<open>vacs-server/src/routes/admin.rs\<close>: the check of the GitHub Actions
  token, the reload of the coverage dataset and of the release catalog. The crate
  \<^verbatim>\<open>jsonwebtoken\<close> and the requests to GitHub are the record \<open>oidc_env\<close>; a request is its
  authorization header, where it is readable as a string. The dataset, the server's network and the
  transition system of the server come together here: a reload is one of the server's steps.
\<close>

section \<open>Tokens of GitHub Actions\<close>

definition GITHUB_OIDC_ISSUER :: string where
  "GITHUB_OIDC_ISSUER = ''https://token.actions.githubusercontent.com''"

datatype jwt_algorithm = RS256 | OtherAlgorithm

definition GITHUB_OIDC_JWT_ALGORITHM :: jwt_algorithm where
  "GITHUB_OIDC_JWT_ALGORITHM = RS256"

record github_oidc_claims =
  oc_sub :: string
  oc_iss :: string
  oc_aud :: string

record jwt_validation =
  jv_algorithm :: jwt_algorithm
  jv_issuers :: "string list"
  jv_audiences :: "string list"

text \<open>
  \<open>jwt_header_kid\<close> is the key id in the header of a token, \<open>None\<close> when the header cannot be decoded;
  \<open>oidc_jwks\<close> the key set of GitHub, \<open>None\<close> when it cannot be fetched or parsed.
\<close>

record ('s, 'k, 'd) oidc_env =
  jwt_header_kid :: "string \<Rightarrow> string option option"
  oidc_client_built :: bool
  oidc_jwks :: "'s option"
  jwks_find :: "'s \<Rightarrow> string \<Rightarrow> 'k option"
  decoding_key_from_jwk :: "'k \<Rightarrow> 'd option"
  jwt_decode :: "string \<Rightarrow> 'd \<Rightarrow> jwt_validation \<Rightarrow> github_oidc_claims option"

record admin_config =
  adm_oidc_audience :: string
  adm_oidc_allowed_sub :: string
  adm_oidc_allowed_sub_releases :: "string option"

definition authentication_failed :: http_error where
  "authentication_failed = http_error.Unauthorized ''Authentication failed''"

definition github_validation :: "admin_config \<Rightarrow> jwt_validation" where
  "github_validation config =
     \<lparr>jv_algorithm = GITHUB_OIDC_JWT_ALGORITHM, jv_issuers = [GITHUB_OIDC_ISSUER], jv_audiences = [adm_oidc_audience config]\<rparr>"

definition bearer_token :: "string option \<Rightarrow> string option" where
  "bearer_token authorization =
     (case authorization of
        Some s \<Rightarrow> if prefix ''Bearer '' s then Some (drop 7 s) else None
      | None \<Rightarrow> None)"

definition verify_github_oidc ::
  "('s, 'k, 'd) oidc_env \<Rightarrow> admin_config \<Rightarrow> string \<Rightarrow> string option \<Rightarrow> http_error + unit" where
  "verify_github_oidc oe config allowed_sub authorization =
     (case bearer_token authorization of
        None \<Rightarrow> Inl authentication_failed
      | Some token \<Rightarrow>
          (case jwt_header_kid oe token of
             None \<Rightarrow> Inl authentication_failed
           | Some None \<Rightarrow> Inl authentication_failed
           | Some (Some kid) \<Rightarrow>
               if \<not> oidc_client_built oe then Inl InternalServerError
               else (case oidc_jwks oe of
                       None \<Rightarrow> Inl InternalServerError
                     | Some jwks \<Rightarrow>
                         (case jwks_find oe jwks kid of
                            None \<Rightarrow> Inl authentication_failed
                          | Some jwk \<Rightarrow>
                              (case decoding_key_from_jwk oe jwk of
                                 None \<Rightarrow> Inl InternalServerError
                               | Some key \<Rightarrow>
                                   (case jwt_decode oe token key (github_validation config) of
                                      None \<Rightarrow> Inl authentication_failed
                                    | Some claims \<Rightarrow>
                                        if oc_sub claims \<noteq> allowed_sub then Inl authentication_failed
                                        else Inr ()))))))"

section \<open>The routes\<close>

record reload_request =
  rr_git_ref :: string
  rr_sha :: "string option"

definition reload_dataset ::
  "('s, 'k, 'd) oidc_env \<Rightarrow> admin_config \<Rightarrow> (string \<Rightarrow> bool) \<Rightarrow> dataset_api option \<Rightarrow> string option \<Rightarrow> reload_request
     \<Rightarrow> 'l app_state \<times> dataset_fs \<Rightarrow> ('l app_state \<times> dataset_fs) \<times> (http_error + nat)" where
  "reload_dataset oe config is_freq dataset_manager authorization body state =
     (let (st, fs) = state
      in case verify_github_oidc oe config (adm_oidc_allowed_sub config) authorization of
           Inl err \<Rightarrow> ((st, fs), Inl err)
         | Inr _ \<Rightarrow>
             (let git_ref = rr_git_ref body;
                  commit_sha = (case rr_sha body of Some sha \<Rightarrow> sha | None \<Rightarrow> git_ref)
              in case dataset_manager of
                   None \<Rightarrow> ((st, fs), Inl NotFound)
                 | Some dataset \<Rightarrow>
                     (case fetch_and_install is_freq dataset git_ref commit_sha fs of
                        (fs, None) \<Rightarrow> ((st, fs), Inl InternalServerError)
                      | (fs, Some network) \<Rightarrow> ((app_replace_network network st, fs), Inr 200))))"

definition reload_releases ::
  "('s, 'k, 'd) oidc_env \<Rightarrow> admin_config \<Rightarrow> ('v :: linorder, 'r) semver \<Rightarrow> github_api \<Rightarrow> 'c lru
     \<Rightarrow> 'v manifest_per_channel config_file \<Rightarrow> string option
     \<Rightarrow> ('v, 'r, 'c) update_checker \<Rightarrow> ('v, 'r, 'c) update_checker \<times> (http_error + nat)" where
  "reload_releases oe config sv api lru manifest authorization uc =
     (case adm_oidc_allowed_sub_releases config of
        None \<Rightarrow> (uc, Inl NotFound)
      | Some allowed_sub \<Rightarrow>
          (case verify_github_oidc oe config allowed_sub authorization of
             Inl err \<Rightarrow> (uc, Inl err)
           | Inr _ \<Rightarrow>
               (case refresh_catalog sv api lru manifest uc of
                  (uc, Inl err) \<Rightarrow> (uc, Inl err)
                | (uc, Inr _) \<Rightarrow> (uc, Inr 200))))"

section \<open>Who may reload\<close>

text \<open>
  What the routes rely on of \<^verbatim>\<open>jsonwebtoken::decode\<close>: the claims it returns were signed with the key
  under the algorithm of the validation, and name an allowed issuer and audience.
\<close>

definition jwt_laws ::
  "('s, 'k, 'd) oidc_env \<Rightarrow> ('d \<Rightarrow> jwt_algorithm \<Rightarrow> string \<Rightarrow> github_oidc_claims \<Rightarrow> bool) \<Rightarrow> bool" where
  "jwt_laws oe signs \<longleftrightarrow>
     (\<forall>token key v claims. jwt_decode oe token key v = Some claims \<longrightarrow>
        signs key (jv_algorithm v) token claims \<and> oc_iss claims \<in> set (jv_issuers v) \<and> oc_aud claims \<in> set (jv_audiences v))"

text \<open>A header with a token of GitHub for the subject: signed by a key of GitHub's key set.\<close>

definition github_token ::
  "('s, 'k, 'd) oidc_env \<Rightarrow> ('d \<Rightarrow> jwt_algorithm \<Rightarrow> string \<Rightarrow> github_oidc_claims \<Rightarrow> bool) \<Rightarrow> admin_config \<Rightarrow> string
     \<Rightarrow> string option \<Rightarrow> bool" where
  "github_token oe signs config sub authorization \<longleftrightarrow>
     (\<exists>token jwks kid jwk key claims.
        authorization = Some (''Bearer '' @ token) \<and> oidc_jwks oe = Some jwks \<and> jwks_find oe jwks kid = Some jwk \<and>
        decoding_key_from_jwk oe jwk = Some key \<and> signs key RS256 token claims \<and>
        oc_sub claims = sub \<and> oc_iss claims = GITHUB_OIDC_ISSUER \<and> oc_aud claims = adm_oidc_audience config)"

lemma bearer_token_Some: "bearer_token authorization = Some token \<longleftrightarrow> authorization = Some (''Bearer '' @ token)"
  by (auto simp: bearer_token_def prefix_def split: option.splits if_splits)

lemma verify_github_oidcE:
  assumes "verify_github_oidc oe config sub authorization = Inr u"
  obtains token jwks kid jwk key claims where "authorization = Some (''Bearer '' @ token)"
    "jwt_header_kid oe token = Some (Some kid)" "oidc_jwks oe = Some jwks" "jwks_find oe jwks kid = Some jwk"
    "decoding_key_from_jwk oe jwk = Some key"
    "jwt_decode oe token key (github_validation config) = Some claims" "oc_sub claims = sub"
  using assms
  by (auto simp: verify_github_oidc_def bearer_token_Some split: option.split_asm if_split_asm)

lemma verified_token:
  assumes laws: "jwt_laws oe signs" and verified: "verify_github_oidc oe config sub authorization = Inr u"
  shows "github_token oe signs config sub authorization"
  using verified
proof (cases rule: verify_github_oidcE)
  case (1 token jwks kid jwk key claims)
  have "signs key RS256 token claims \<and> oc_iss claims = GITHUB_OIDC_ISSUER \<and> oc_aud claims = adm_oidc_audience config"
    using laws 1(6) unfolding jwt_laws_def by (fastforce simp: github_validation_def GITHUB_OIDC_JWT_ALGORITHM_def)
  then show ?thesis unfolding github_token_def using 1 by blast
qed

text \<open>
  C36: Only a workflow of GitHub reloads anything. Both routes leave the server, the disk and the
  release catalog as they are, unless the request carries a token signed with a key of GitHub's key
  set, issued by GitHub for the configured audience, whose subject is the one configured for that
  very route.
\<close>

theorem reload_needs_token:
  assumes "jwt_laws oe signs"
  shows "(github_token oe signs config (adm_oidc_allowed_sub config) authorization \<or>
     fst (reload_dataset oe config is_freq dataset_manager authorization body (st, fs)) = (st, fs) \<and>
     isl (snd (reload_dataset oe config is_freq dataset_manager authorization body (st, fs)))) \<and>
    ((\<exists>sub. adm_oidc_allowed_sub_releases config = Some sub \<and> github_token oe signs config sub authorization) \<or>
     fst (reload_releases oe config sv api lru manifest authorization uc) = uc \<and>
     isl (snd (reload_releases oe config sv api lru manifest authorization uc)))"
proof
  show "github_token oe signs config (adm_oidc_allowed_sub config) authorization \<or>
     fst (reload_dataset oe config is_freq dataset_manager authorization body (st, fs)) = (st, fs) \<and>
     isl (snd (reload_dataset oe config is_freq dataset_manager authorization body (st, fs)))"
    using verified_token [OF assms, of config "adm_oidc_allowed_sub config" authorization]
    by (cases "verify_github_oidc oe config (adm_oidc_allowed_sub config) authorization") (auto simp: reload_dataset_def)
  show "(\<exists>sub. adm_oidc_allowed_sub_releases config = Some sub \<and> github_token oe signs config sub authorization) \<or>
     fst (reload_releases oe config sv api lru manifest authorization uc) = uc \<and>
     isl (snd (reload_releases oe config sv api lru manifest authorization uc))"
  proof (cases "adm_oidc_allowed_sub_releases config")
    case (Some sub)
    with verified_token [OF assms, of config sub authorization] show ?thesis
      by (cases "verify_github_oidc oe config sub authorization") (auto simp: reload_releases_def)
  qed (simp add: reload_releases_def)
qed

text \<open>A request that one route accepts is refused by the other, where their subjects differ.\<close>

theorem routes_not_interchangeable:
  assumes "verify_github_oidc oe config sub authorization = Inr u" and "sub \<noteq> sub'"
  shows "verify_github_oidc oe config sub' authorization = Inl authentication_failed"
  using assms(1)
proof (cases rule: verify_github_oidcE)
  case (1 token jwks kid jwk key claims)
  then show ?thesis
    using assms by (auto simp: verify_github_oidc_def bearer_token_def split: if_splits)
qed

section \<open>A reload is a step of the server\<close>

lemma cm_network_replace [simp]: "cm_network (fst (replace_network net m)) = net"
  by (simp add: replace_network_def Let_def update_online_stations_def case_prod_unfold)

text \<open>
  C37: A dataset reload is a step of the server: from a reachable state it leads to a reachable one,
  so every guarantee of the server holds across it. After a successful reload the network in use is
  the one on disk; after any other answer the server's state is unchanged.
\<close>

theorem reload_dataset_reachable:
  assumes "server_reachable e n s"
    and "reload_dataset oe config is_freq dataset_manager authorization body (srv_app s, fs) = ((st', fs'), result)"
  shows "server_reachable e n (s\<lparr>srv_app := st'\<rparr>) \<and>
    (case result of
       Inr _ \<Rightarrow> load_from_dir is_freq (fs_coverage fs') = Some (cm_network (app_clients st'))
     | Inl _ \<Rightarrow> st' = srv_app s)"
proof (cases result)
  case (Inl err)
  then have "st' = srv_app s" using assms(2)
    by (auto simp: reload_dataset_def Let_def split: sum.split_asm option.split_asm prod.split_asm)
  with Inl assms(1) show ?thesis by simp
next
  case (Inr code)
  with assms(2) obtain dataset ref sha network where
    f: "fetch_and_install is_freq dataset ref sha fs = (fs', Some network)" and st: "st' = app_replace_network network (srv_app s)"
    by (auto simp: reload_dataset_def Let_def split: sum.split_asm option.split_asm prod.split_asm)
  from fetch_and_install_ok [OF f] have loaded: "load_from_dir is_freq (fs_coverage fs') = Some network" by simp
  then have "server_enabled (LoadNetwork network) s" by (simp add: load_from_dir_wf)
  from server_next [OF assms(1) this] have "server_reachable e n (s\<lparr>srv_app := st'\<rparr>)" by (simp add: st)
  moreover have "cm_network (app_clients st') = network"
    by (simp add: st app_replace_network_def case_prod_unfold Let_def)
  ultimately show ?thesis using Inr loaded by simp
qed

text \<open>The server begins in an initial state of its transition system.\<close>

theorem started_server_reachable:
  assumes "startup_network is_freq dataset_manager fs = (fs', Some network)"
  shows "server_reachable e n (server_new network grace n limiters)"
proof (rule server_init)
  have "load_from_dir is_freq (fs_coverage fs') = Some network"
    using assms by (auto simp: startup_network_def sync_on_startup_ok split: option.splits prod.splits)
  then show "network_wf network" by (rule load_from_dir_wf)
qed

section \<open>Examples\<close>

definition example_oidc :: "(unit, unit, unit) oidc_env" where
  "example_oidc =
     \<lparr>jwt_header_kid = (\<lambda>_. Some (Some ''k'')), oidc_client_built = True, oidc_jwks = Some (), jwks_find = (\<lambda>_ _. Some ()),
      decoding_key_from_jwk = Some,
      jwt_decode = (\<lambda>token _ v. if token = ''ok'' \<and> jv_issuers v = [GITHUB_OIDC_ISSUER] \<and> jv_audiences v = [''aud'']
                     then Some \<lparr>oc_sub = ''sub'', oc_iss = GITHUB_OIDC_ISSUER, oc_aud = ''aud''\<rparr> else None)\<rparr>"

definition example_signs :: "unit \<Rightarrow> jwt_algorithm \<Rightarrow> string \<Rightarrow> github_oidc_claims \<Rightarrow> bool" where
  "example_signs key alg token claims \<longleftrightarrow> token = ''ok'' \<and> oc_sub claims = ''sub''"

lemma example_jwt_laws: "jwt_laws example_oidc example_signs"
  by (auto simp: jwt_laws_def example_oidc_def example_signs_def split: if_splits)

definition example_admin :: admin_config where
  "example_admin = \<lparr>adm_oidc_audience = ''aud'', adm_oidc_allowed_sub = ''sub'', adm_oidc_allowed_sub_releases = None\<rparr>"

definition example_limiters :: "unit rate_limiters" where
  "example_limiters =
     \<lparr>lim_call_invite = None, lim_call_invite_per_minute = None, lim_failed_auth = None, lim_failed_auth_per_minute = None,
      lim_version_update = None, lim_version_update_per_minute = None, lim_vatsim_token = None, lim_vatsim_token_per_minute = None\<rparr>"

definition example_env :: "unit env" where
  "example_env =
     \<lparr>env_governor = \<lparr>keyed = (\<lambda>_. ()), check_key = (\<lambda>l _ _. (l, None)), check_key_n = (\<lambda>l _ _ _. (l, Conforming))\<rparr>,
      channel_open = (\<lambda>_ _. True), data_feed = (\<lambda>_. None)\<rparr>"

definition example_server :: "unit server" where
  "example_server = server_new demo_network 0 5 example_limiters"

definition example_reload ::
  "string option \<Rightarrow> (unit app_state \<times> dataset_fs) \<times> (http_error + nat)" where
  "example_reload authorization =
     reload_dataset example_oidc example_admin demo_freq (Some (example_dataset_api True)) authorization
       \<lparr>rr_git_ref = ''main'', rr_sha = Some ''b2''\<rparr> (srv_app example_server, example_fs)"

lemma example_reload_ok: "snd (example_reload (Some ''Bearer ok'')) = Inr 200"
  using example_loads
  by (simp add: example_reload_def reload_dataset_def verify_github_oidc_def bearer_token_def github_validation_def
      example_oidc_def example_admin_def fetch_and_install_def example_dataset_api_def find_dataset_dir_def
      example_fs_def example_answers_def atomic_replace_dir_def save_sha_def Let_def)

lemma example_reload_eq:
  "example_reload authorization =
     ((fst (fst (example_reload authorization)), snd (fst (example_reload authorization))), snd (example_reload authorization))"
  by simp

theorem reload_needs_token_witness: "github_token example_oidc example_signs example_admin ''sub'' (Some ''Bearer ok'')"
  using reload_needs_token [OF example_jwt_laws, THEN conjunct1, of example_admin "Some ''Bearer ok''" demo_freq "Some (example_dataset_api True)"
      "\<lparr>rr_git_ref = ''main'', rr_sha = Some ''b2''\<rparr>" "srv_app example_server" example_fs] example_reload_ok
  unfolding example_reload_def [symmetric] by (simp add: example_admin_def)

theorem reload_dataset_reachable_witness:
  "server_reachable example_env 5 (example_server\<lparr>srv_app := fst (fst (example_reload (Some ''Bearer ok'')))\<rparr>)"
proof -
  have "network_wf demo_network" by (rule load_from_dir_wf [OF example_loads])
  then have "server_reachable example_env 5 example_server" unfolding example_server_def by (rule server_init)
  from reload_dataset_reachable [OF this example_reload_eq [unfolded example_reload_def, of "Some ''Bearer ok''"]]
  show ?thesis unfolding example_reload_def by blast
qed

end
