(* ===== verification/Spec2Isabelle.thy ===== *)
theory Spec2Isabelle
  imports Prelude Protocol Tokens Coverage Profiles Network Calls CallManager CallInvariant CallRinging CallActive CallCleanup
    CallSystem CallBehaviour CallBounds Clients ClientSync ClientCoverage ClientBehaviour RateLimit Server ServerInvariant
    Session ServerSystem ServerBehaviour Playback Recorder PlaybackSources Keybinds Radio RadioBehaviour Signaling
    ClientCalls ClientApp ClientInvariant ClientSystem ClientAppBehaviour StationSync Releases GithubCatalog UpdateCheck
    VatsimSources Dataset Admin
begin

text \<open>
  \<^bold>\<open>Verification of the vacs signaling server and of its client's core.\<close>

  vacs lets VATSIM air traffic controllers call each other. Its server (\<^verbatim>\<open>vacs-server\<close>) keeps the
  connected clients, works out from the VATSIM feed and a coverage dataset (\<^verbatim>\<open>vacs-vatsim\<close>) which
  position covers which station, and runs the calls: ringing, conferences, hangups, dead links and
  disconnects. The messages are the types of \<^verbatim>\<open>vacs-protocol\<close>. The desktop client connects through
  \<^verbatim>\<open>vacs-signaling\<close>, reacts to the server with peer connections to the other participants, keys a radio
  program and the call microphone from keyboard and joystick, and records what the radio receives
  (\<^verbatim>\<open>vacs-client\<close>). This development models the server's own logic and these parts of the client, and
  proves what makes them correct.

  \<^bold>\<open>Parts and theories.\<close>

  \<^item> \<open>Prelude\<close>: hash maps and sets as association lists and distinct lists in insertion order, words,
    time in nanoseconds, and the locales \<open>map_store\<close>, \<open>step_invariant\<close> and \<open>invariant_system\<close>.
  \<^item> \<open>Protocol\<close>: identifiers, call targets with their order, client and server messages, profiles
    with their layout (\<^verbatim>\<open>vacs-protocol/src\<close>). JSON is left out.
  \<^item> \<open>Tokens\<close>: the in-memory store (\<^verbatim>\<open>store/memory.rs\<close>) behind the locale \<open>expiring_store\<close>, and the
    websocket and API tokens of \<^verbatim>\<open>state.rs\<close>.
  \<^item> \<open>Coverage\<close>, \<open>Network\<close>: profiles, stations, positions, regions and the network built from them
    (\<^verbatim>\<open>vacs-vatsim/src/coverage\<close>), with the loading checks, the matching of callsigns, the controlling
    position of a station and the difference between two sets of online positions. \<open>Profiles\<close>: the raw
    profiles of a dataset, the checks of their layout and their conversion (\<^verbatim>\<open>coverage/profile.rs\<close>).
  \<^item> \<open>Calls\<close>, \<open>CallManager\<close>: the entries of \<^verbatim>\<open>state/calls.rs\<close> and every operation of
    \<^verbatim>\<open>state/calls/manager.rs\<close>. \<open>CallInvariant\<close> states the invariant over the two call maps and the two
    client indexes; \<open>CallRinging\<close>, \<open>CallActive\<close> and \<open>CallCleanup\<close> prove that the operations keep it;
    \<open>CallSystem\<close> is the transition system of all operations; \<open>CallBehaviour\<close> has their functional
    behaviour; \<open>CallBounds\<close> shows that nothing but an invitation makes a call larger.
  \<^item> \<open>Clients\<close>, \<open>ClientSync\<close>: sessions and the client manager (\<^verbatim>\<open>state/clients/session.rs\<close>,
    \<^verbatim>\<open>state/clients/manager.rs\<close>): connecting, disconnecting, the feed synchronisation, the replacement of the
    network, the fan-out of station changes and the queries. \<open>ClientCoverage\<close> proves the coverage
    invariant and that station changes are exact; \<open>ClientBehaviour\<close> draws the consequences.
  \<^item> \<open>RateLimit\<close>: \<^verbatim>\<open>ratelimit.rs\<close> over the interface of the governor crate.
  \<^item> \<open>Server\<close>: the application state (\<^verbatim>\<open>state.rs\<close>) and the handlers of all client messages
    (\<^verbatim>\<open>ws/application_message.rs\<close>); \<open>ServerInvariant\<close> shows that a handler only sends messages and runs
    call operations within their contract.
  \<^item> \<open>Session\<close>: login, session loop, reader, writer and ping tasks (\<^verbatim>\<open>ws/auth.rs\<close>, \<^verbatim>\<open>ws/handler.rs\<close>,
    \<^verbatim>\<open>ws/message.rs\<close>, \<^verbatim>\<open>state/clients/session.rs\<close>).
  \<^item> \<open>ServerSystem\<close>, \<open>ServerBehaviour\<close>: the server as a transition system in which clients connect,
    sessions handle events and end, connections are terminated, the feed is synchronised and the
    network replaced in any order; its refinement of the two managers, and its guarantees.
  \<^item> \<open>Signaling\<close>: the client side of the connection (\<^verbatim>\<open>vacs-signaling/src/client.rs\<close>,
    \<^verbatim>\<open>matcher.rs\<close>, \<^verbatim>\<open>error.rs\<close>): connect, login, reconnect, retry delays, reconnect gate, waiters.
  \<^item> \<open>Keybinds\<close>: the trigger selection of \<^verbatim>\<open>keybinds.rs\<close> and the engine of \<^verbatim>\<open>keybinds/engine.rs\<close>, a
    transition system over its flags and its outputs to the radio and the microphone.
  \<^item> \<open>Radio\<close>: the radio integrations (\<^verbatim>\<open>radio.rs\<close>, \<^verbatim>\<open>radio/track_audio.rs\<close>, \<^verbatim>\<open>push_to_talk.rs\<close>,
    \<^verbatim>\<open>commands.rs\<close>). \<open>RadioBehaviour\<close> states what the engine relies on as the locale \<open>keyed_radio\<close>, shows
    it for both radios, and puts the engine and the radios together.
  \<^item> \<open>Playback\<close>: the segmentation machine of \<^verbatim>\<open>playback/fsm.rs\<close> and its refinement of a clip protocol.
    \<open>Recorder\<close>: the clip writer, the clip store and the recorder task that carry out its requests on a
    file system (\<^verbatim>\<open>playback/writer.rs\<close>, \<^verbatim>\<open>storage.rs\<close>, \<^verbatim>\<open>recorder.rs\<close>). \<open>PlaybackSources\<close>: the two
    forwarders that feed it (\<^verbatim>\<open>playback/source/track_audio.rs\<close>, \<^verbatim>\<open>audio_for_vatsim.rs\<close>).
  \<^item> \<open>ClientCalls\<close>: the client's call state and what it does with peer connections
    (\<^verbatim>\<open>app/state.rs\<close>, \<^verbatim>\<open>app/state/calls.rs\<close>, \<^verbatim>\<open>app/state/webrtc.rs\<close>). \<open>ClientApp\<close>: its commands, the
    handling of every server message, its timers, link retries and the events of a peer connection
    (\<^verbatim>\<open>app/state/signaling.rs\<close>, \<^verbatim>\<open>app/state/webrtc.rs\<close>), and the transition system of all of them.
    \<open>ClientInvariant\<close> states its invariant and proves it for the operations on peers and calls,
    \<open>ClientSystem\<close> for every step; \<open>ClientAppBehaviour\<close> draws the consequences.
  \<^item> \<open>StationSync\<close>: the client manager of the server and the client's station list together.
  \<^item> \<open>Releases\<close>: release channels and bundle types, the update policy and the catalog of a manifest
    file (\<^verbatim>\<open>vacs-protocol/src/http/version.rs\<close>, \<^verbatim>\<open>release/policy.rs\<close>, \<^verbatim>\<open>release/catalog.rs\<close>,
    \<^verbatim>\<open>catalog/file.rs\<close>), with the locale \<open>catalog\<close> for the trait both catalogs implement.
    \<open>GithubCatalog\<close>: the catalog of the releases on GitHub and its caches (\<^verbatim>\<open>catalog/github.rs\<close>).
    \<open>UpdateCheck\<close>: the update checker and its route (\<^verbatim>\<open>release.rs\<close>, \<^verbatim>\<open>routes/version.rs\<close>). At the end of
    this theory the policy, the slurper and the login are put together.
  \<^item> \<open>VatsimSources\<close>: the slurper and the cached data feed (\<^verbatim>\<open>vacs-vatsim/src/slurper.rs\<close>,
    \<^verbatim>\<open>data_feed/vatsim.rs\<close>). \<open>Dataset\<close>: the coverage directory, its replacement and its synchronisation
    with GitHub (\<^verbatim>\<open>dataset.rs\<close>, \<^verbatim>\<open>main.rs\<close>). \<open>Admin\<close>: the routes that reload the dataset and the
    releases (\<^verbatim>\<open>routes/admin.rs\<close>), as steps of the server.

  \<^bold>\<open>How the code is modelled.\<close> A method of a manager is a function on the manager's record that
  returns the new record, its result, and what it sends. A method runs as one step. For most methods the code
  holds the manager's locks across it; a few release a lock before they take the next or wait in between
  (\<^verbatim>\<open>add_client\<close>, \<^verbatim>\<open>remove_client\<close> with its look at the data feed, \<^verbatim>\<open>mark_client_within_ringing_calls\<close>,
  \<^verbatim>\<open>drop_ringing_target\<close>, \<^verbatim>\<open>report_link_failure\<close>), and what another task could do there is not modelled. A handler is one step
  on the application state, with the messages it sends appended to an outbox in order; the refinement to the managers
  splits it into their methods, whose contracts do not depend on the state, so that other methods may run between them. Errors are values of sum and option types. A \<^verbatim>\<open>u32\<close> is a
  \<open>32 word\<close> where its width matters (conference limit, rate limit cells). Parameters of the model are what
  the source takes from elsewhere: the governor crate, the HTTP answers of VATSIM and the parsing of CSV, whether
  a channel still takes a message, the formats of frequencies and sizes, JSON and version parsing; in the client
  the websocket, the HTTP request for a token, random delays, the platform's key listener and key emitter, the events and answers of TrackAudio, and
  whether each access to the file system succeeds; for the releases the semver and lru crates, the clock and the answers of GitHub, one per request, and the jsonwebtoken crate. The TrackAudio radio shares its state between the task of its events and the
  callers of its requests, so a handler is split wherever it waits for an answer; its requests to transmit are given both split and, for what
  only holds of uninterrupted ones, in one. A key event is three steps, reading the flags, telling the radio, and the rest, since its flags are
  atomics that other tasks change without a lock. The ping task may wait for room in the queue it sends to. Every step of the client's call state runs under the mutex
  of the application state; a task of it is an entry of the state that cancelling removes, and whether a message is
  taken, a peer connection comes about or an audio device opens is asked of an environment. Clip numbers are \<open>64 word\<close> values. The order
  of a hash map is its insertion order; no property depends on it.

  \<^bold>\<open>What the theorems show.\<close> The call manager's indexes are exact, a client is in at most one call,
  conferences have a leader exactly from three participants on, and each operation does what its message
  says, errors included. The client manager's positions and stations are those of the connected
  clients and the network, and the changes it sends are true, complete and turn what a client knew into what is callable.
  A profile is loaded exactly when it has the shape the loader checks, with no field lost or swapped. A network that loads is consistent, inherited coverage resolves along acyclic parents, and coverage
  differences are exact. The server refines both managers in every interleaving, never exceeds the
  conference limit, keeps no call of a client without a session, believes no claimed sender, relays
  WebRTC messages between participants only, and delivers invitations. Logins need valid tokens,
  silent peers are dropped within forty seconds unless queueing a ping takes longer than ten. In the client, a reconnect makes a bounded number of
  attempts and its failure can always be reported; the radio is on the air only while its key is held or released just now,
  when nothing that matters falls into the middle of a key event, and so is the other program, when releases reach it uninterrupted; the
  station table of the TrackAudio radio is consistent in every interleaving, and the key vacs presses does not come back as a press of the radio key; clips are opened, written and closed in order, end
  after the hangover, and the store keeps the files of its clips, whichever file operations fail, and no others while files can be removed.
  No timer, task, output or sound of a call outlives it, events of a replaced peer connection are ignored,
  of two participants only the one with the lower id makes an offer, and accepting a call loses no invitation.
  The update check offers the newest visible release with an asset for the client, the GitHub catalog lists what GitHub
  answered, signatures come from the server and are not older than their lifetime, and a policy is
  replaced as a whole or not at all and never shuts out the server's own protocol version. A replacement of the coverage directory loses no dataset wherever it stops,
  the server starts with what is on disk, only a workflow of GitHub can reload anything, and a reload is a step of the server.
  The slurper answers with the first active controller connection, the data feed with an answer that is not too old.
  Server and client together: while others connect and disconnect, the client's station list stays the server's.

  \<^bold>\<open>Termination and fuel.\<close> All functions are total. The resolution of inherited coverage terminates because
  every turn visits a new station, the search for a free file name because its suffix is bounded by \<^verbatim>\<open>u32::MAX\<close>,
  a reconnect because its attempts are counted down, and the reading of release pages because their number is bounded by ten. The ping task has fuel; enough fuel, four ticks after
  the last answer, always ends it when its pings can be queued. The theorems on clips bound the number of events below the 64-bit clip
  counter and the number of clip files below the 32-bit suffix, which no run of the program reaches.

  \<^bold>\<open>Where the source falls short.\<close> \<open>replace_network_misses_offline\<close>, \<open>nested_page_unchecked\<close>, \<open>odd_profile_loaded\<close>,
  \<open>list_stations_from_stale_session\<close>, \<open>old_session_removes_new\<close>, \<open>interrupted_press_sticks\<close>,
  \<open>moved_client_duplicates_station\<close> and \<open>phantom_transmitter\<close> exhibit concrete runs in which the code does not do what it means to;
  \<open>interrupted_release_drops_press\<close> and \<open>late_answer_after_drop\<close> do so for the TrackAudio radio.
  \<open>repeated_version_crosses_channels\<close>, \<open>later_page_error_truncates\<close> and \<open>parse_channel_table_order\<close> do so for the releases, \<open>backup_not_restored\<close> for the dataset.
  \<open>suppression_forgotten\<close>, \<open>stalled_writer_never_times_out\<close>, \<open>stale_waiter_swallows\<close>, \<open>recorder_retry_panics\<close>, \<open>failed_release_keeps_key\<close>, \<open>afv_onset_dropped\<close> and
  \<open>negotiation_failure_leaves_conference\<close> show it in general.

  \<^bold>\<open>Not modelled.\<close> In the client, configuration and its commands, audio devices and mixing, the inside of a peer
  connection, ICE configuration, remote control, the protocol of TrackAudio, key capture and audio capture of the
  operating systems, and the websocket transport with its heartbeat; the sample values of a recording, which
  are floating-point numbers. In the server, the Redis store, the other HTTP routes and OAuth, the extraction of a downloaded
  dataset, metrics and logging; interleavings inside one method of a manager, which the locks exclude but for the methods named above; and
  reading and parsing the files of a dataset.
\<close>

section \<open>The policy and the login\<close>

text \<open>The login environment of a server with a given policy.\<close>

definition policy_login_env ::
  "('v, 'r) semver \<Rightarrow> 'r release_policy \<Rightarrow> bool \<Rightarrow> (client_id \<Rightarrow> controller_info option option) \<Rightarrow> 'v login_env" where
  "policy_login_env sv p active slurp =
     \<lparr>parse_version = version_parse sv, compatible_protocol = is_compatible_protocol sv p,
      require_active = active, slurper = slurp\<rparr>"

text \<open>
  A client that speaks the server's own protocol version is never refused for its version, whatever
  policy file the server was started with.
\<close>

theorem own_protocol_never_refused:
  assumes "policy_new_from sv own (FileRead raw) = Inr p" and "login_protocol_version login = own"
  shows "snd (process_login_request (policy_login_env sv p active slurp) now m login store)
           \<noteq> Inl (LoginFailed IncompatibleProtocolVersion)"
proof -
  from assms(1) obtain p0 u where "policy_reload sv own (FileRead raw) p0 = (p, Inr u)"
    by (auto simp: policy_new_from_def split: prod.splits sum.splits)
  then have "is_protocol_compatible (policy_login_env sv p active slurp) own"
    by (auto simp: is_protocol_compatible_def policy_login_env_def is_compatible_protocol_def elim!: policy_reload_okE)
  then show ?thesis
    using assms(2)
    by (auto simp: process_login_request_def resolve_vatsim_position_def Let_def split: prod.splits option.splits if_splits)
qed

text \<open>The slurper as the login sees it.\<close>

definition slurper_connection :: "slurper_env \<Rightarrow> client_id \<Rightarrow> controller_info option option" where
  "slurper_connection se cid = (case get_controller_info se cid of Inl _ \<Rightarrow> None | Inr info \<Rightarrow> Some info)"

text \<open>
  With the slurper, a login is refused for want of an active connection exactly when the slurper
  answers that there is none: the test of the facility type in the login never fails.
\<close>

theorem no_active_connection_iff:
  "resolve_vatsim_position (policy_login_env sv p active (slurper_connection se)) m cid custom_profile position_id =
     Inl (LoginFailed LoginNoActiveVatsimConnection) \<longleftrightarrow> get_controller_info se cid = Inr None"
proof (cases "get_controller_info se cid")
  case (Inr info)
  show ?thesis
  proof (cases info)
    case (Some controller)
    with Inr have "ctl_facility_type controller \<noteq> FacilityUnknown" using get_controller_info_known by blast
    with Some Inr show ?thesis
      by (auto simp: resolve_vatsim_position_def policy_login_env_def slurper_connection_def Let_def split: option.splits)
  qed (simp add: Inr resolve_vatsim_position_def policy_login_env_def slurper_connection_def)
qed (simp add: resolve_vatsim_position_def policy_login_env_def slurper_connection_def)

end
